(* ===== verification/Prelude.thy ===== *)
theory Prelude
  imports Main "HOL-Library.Word" "HOL-Library.State_Monad"
begin

text \<open>
  Shared vocabulary of the development: UUIDs, the Go strings and the few functions of the
  \<^verbatim>\<open>strings\<close> and \<^verbatim>\<open>strconv\<close> packages the handlers call, Go errors as values
  (\<^verbatim>\<open>pkg/apperror\<close> included), and the calculus in which effectful handlers are verified:
  weakest preconditions for the state monad, and the locale \<open>history\<close> of reflexive and
  transitive two-state relations, whose lemmas show compositionally that a whole handler moves
  the world along such a relation.
\<close>

named_theorems wp_simps \<open>weakest preconditions of the state monad and of the primitive steps\<close>

section \<open>Identifiers\<close>

text \<open>A \<^verbatim>\<open>uuid.UUID\<close> is sixteen bytes; \<^verbatim>\<open>uuid.Nil\<close> is the zero value.\<close>

type_synonym uuid = "128 word"

abbreviation uuid_Nil :: uuid where
  "uuid_Nil \<equiv> 0"

section \<open>Go strings\<close>

text \<open>
  A Go string is a sequence of bytes, here a list of \<open>char\<close>. \<open>go_spaces\<close> lists the UTF-8
  encodings of the code points for which \<^verbatim>\<open>unicode.IsSpace\<close> holds. A trailing (leading)
  rune is one of them exactly when the string ends (starts) with its encoding, because the first
  byte of an encoding is never a continuation byte; so \<^verbatim>\<open>strings.TrimSpace\<close> strips
  encodings at both ends.
\<close>

definition go_spaces :: "string list" where
  "go_spaces =
     [[CHR 0x20], [CHR 0x09], [CHR 0x0A], [CHR 0x0B], [CHR 0x0C], [CHR 0x0D],
      [CHR 0xC2, CHR 0x85], [CHR 0xC2, CHR 0xA0], [CHR 0xE1, CHR 0x9A, CHR 0x80],
      [CHR 0xE2, CHR 0x80, CHR 0x80], [CHR 0xE2, CHR 0x80, CHR 0x81],
      [CHR 0xE2, CHR 0x80, CHR 0x82], [CHR 0xE2, CHR 0x80, CHR 0x83],
      [CHR 0xE2, CHR 0x80, CHR 0x84], [CHR 0xE2, CHR 0x80, CHR 0x85],
      [CHR 0xE2, CHR 0x80, CHR 0x86], [CHR 0xE2, CHR 0x80, CHR 0x87],
      [CHR 0xE2, CHR 0x80, CHR 0x88], [CHR 0xE2, CHR 0x80, CHR 0x89],
      [CHR 0xE2, CHR 0x80, CHR 0x8A], [CHR 0xE2, CHR 0x80, CHR 0xA8],
      [CHR 0xE2, CHR 0x80, CHR 0xA9], [CHR 0xE2, CHR 0x80, CHR 0xAF],
      [CHR 0xE2, CHR 0x81, CHR 0x9F], [CHR 0xE3, CHR 0x80, CHR 0x80]]"

fun strip_prefix_of :: "string list \<Rightarrow> string \<Rightarrow> string option" where
  "strip_prefix_of [] s = None"
| "strip_prefix_of (p # ps) s =
     (if take (length p) s = p then Some (drop (length p) s) else strip_prefix_of ps s)"

function trim_with :: "string list \<Rightarrow> string \<Rightarrow> string" where
  "trim_with ps s =
     (case strip_prefix_of ps s of
        None \<Rightarrow> s
      | Some r \<Rightarrow> if length r < length s then trim_with ps r else s)"
  by pat_completeness auto
termination
  by (relation "measure (\<lambda>(ps, s). length s)") auto

declare trim_with.simps [simp del]

definition trim_left :: "string \<Rightarrow> string" where
  "trim_left s = trim_with go_spaces s"

definition trim_right :: "string \<Rightarrow> string" where
  "trim_right s = rev (trim_with (map rev go_spaces) (rev s))"

definition trim_space :: "string \<Rightarrow> string" where
  "trim_space s = trim_right (trim_left s)"

text \<open>
  \<^verbatim>\<open>strings.ToLower\<close> and \<^verbatim>\<open>strings.ToUpper\<close> are exact on ASCII and on the two
  non-ASCII letters whose lower (upper) case is ASCII: the Kelvin sign and dotted capital I, and
  dotless i and long s. Other non-ASCII letters stay as they are, which no comparison with an
  ASCII literal can see, and those comparisons are all the handlers do with the result.
\<close>

definition ascii_lower :: "char \<Rightarrow> char" where
  "ascii_lower c =
     (if 65 \<le> (of_char c :: nat) \<and> (of_char c :: nat) \<le> 90 then char_of ((of_char c :: nat) + 32) else c)"

definition ascii_upper :: "char \<Rightarrow> char" where
  "ascii_upper c =
     (if 97 \<le> (of_char c :: nat) \<and> (of_char c :: nat) \<le> 122 then char_of ((of_char c :: nat) - 32) else c)"

fun to_lower :: "string \<Rightarrow> string" where
  "to_lower [] = []"
| "to_lower (c # cs) =
     (if c = CHR 0xE2 \<and> take 2 cs = [CHR 0x84, CHR 0xAA] then CHR ''k'' # to_lower (drop 2 cs)
      else if c = CHR 0xC4 \<and> take 1 cs = [CHR 0xB0] then CHR ''i'' # to_lower (drop 1 cs)
      else ascii_lower c # to_lower cs)"

fun to_upper :: "string \<Rightarrow> string" where
  "to_upper [] = []"
| "to_upper (c # cs) =
     (if c = CHR 0xC4 \<and> take 1 cs = [CHR 0xB1] then CHR ''I'' # to_upper (drop 1 cs)
      else if c = CHR 0xC5 \<and> take 1 cs = [CHR 0xBF] then CHR ''S'' # to_upper (drop 1 cs)
      else ascii_upper c # to_upper cs)"

text \<open>\<^verbatim>\<open>strings.ContainsAny\<close> with an ASCII character set.\<close>

definition contains_any :: "string \<Rightarrow> string \<Rightarrow> bool" where
  "contains_any s chars \<longleftrightarrow> list_ex (\<lambda>c. c \<in> set chars) s"

text \<open>\<^verbatim>\<open>strconv.ParseInt(s, 10, 64)\<close>: an optional sign, decimal digits, the int64 range.\<close>

definition is_digit :: "char \<Rightarrow> bool" where
  "is_digit c \<longleftrightarrow> 48 \<le> (of_char c :: nat) \<and> (of_char c :: nat) \<le> 57"

fun digits_value :: "int \<Rightarrow> string \<Rightarrow> int" where
  "digits_value acc [] = acc"
| "digits_value acc (c # cs) = digits_value (10 * acc + (int (of_char c) - 48)) cs"

definition parse_int64 :: "string \<Rightarrow> int option" where
  "parse_int64 s =
     (let (neg, ds) = (case s of [] \<Rightarrow> (False, [])
                       | c # cs \<Rightarrow> if c = CHR ''-'' then (True, cs)
                                   else if c = CHR ''+'' then (False, cs) else (False, s));
          v = digits_value 0 ds
      in if ds = [] \<or> \<not> list_all is_digit ds then None
         else if neg then (if v \<le> 2 ^ 63 then Some (- v) else None)
         else (if v < 2 ^ 63 then Some v else None))"

section \<open>Prefixes, lines and decimal numbers\<close>

definition has_prefix :: "string \<Rightarrow> string \<Rightarrow> bool" where
  "has_prefix p s \<longleftrightarrow> take (length p) s = p"

fun cut_at :: "string \<Rightarrow> string \<Rightarrow> (string \<times> string) option" where
  "cut_at sep [] = (if sep = [] then Some ([], []) else None)"
| "cut_at sep (c # cs) =
     (if has_prefix sep (c # cs) then Some ([], drop (length sep) (c # cs))
      else map_option (\<lambda>(a, b). (c # a, b)) (cut_at sep cs))"

definition contains_sub :: "string \<Rightarrow> string \<Rightarrow> bool" where
  "contains_sub s sub \<longleftrightarrow> cut_at sub s \<noteq> None"

fun join :: "string \<Rightarrow> string list \<Rightarrow> string" where
  "join sep [] = []"
| "join sep [w] = w"
| "join sep (w # v # ws) = w @ sep @ join sep (v # ws)"

fun split_lines :: "string \<Rightarrow> string list" where
  "split_lines [] = [[]]"
| "split_lines (c # cs) =
     (if c = CHR 0x0A then [] # split_lines cs
      else case split_lines cs of [] \<Rightarrow> [[c]] | l # ls \<Rightarrow> (c # l) # ls)"

definition trim_right_chars :: "string \<Rightarrow> string \<Rightarrow> string" where
  "trim_right_chars cs s = rev (dropWhile (\<lambda>c. c \<in> set cs) (rev s))"

function itoa_pos :: "int \<Rightarrow> string" where
  "itoa_pos n = (if n < 10 then [char_of (48 + n)] else itoa_pos (n div 10) @ [char_of (48 + n mod 10)])"
  by pat_completeness auto
termination by (relation "measure nat") auto

declare itoa_pos.simps [simp del]

definition itoa :: "int \<Rightarrow> string" where
  "itoa i = (if i < 0 then CHR ''-'' # itoa_pos (- i) else itoa_pos i)"

text \<open>Decimal digits by table, and a character no white space starts or ends with: for evaluation.\<close>

definition digit_char :: "int \<Rightarrow> char" where
  "digit_char n =
     (if n < 5
      then (if n < 2 then (if n < 1 then CHR ''0'' else CHR ''1'')
            else if n < 3 then CHR ''2'' else if n < 4 then CHR ''3'' else CHR ''4'')
      else (if n < 7 then (if n < 6 then CHR ''5'' else CHR ''6'')
            else if n < 8 then CHR ''7'' else if n < 9 then CHR ''8'' else CHR ''9''))"

function itoa_table :: "int \<Rightarrow> string" where
  "itoa_table n = (if n < 10 then [digit_char n] else itoa_table (n div 10) @ [digit_char (n mod 10)])"
  by pat_completeness auto
termination by (relation "measure nat") auto

declare itoa_table.simps [simp del]

definition plain_char :: "char \<Rightarrow> bool" where
  "plain_char c \<longleftrightarrow> c \<notin> {CHR 0x20, CHR 0x09, CHR 0x0A, CHR 0x0B, CHR 0x0C, CHR 0x0D, CHR 0xC2, CHR 0xE1, CHR 0xE2, CHR 0xE3,
     CHR 0x80, CHR 0x81, CHR 0x82, CHR 0x83, CHR 0x84, CHR 0x85, CHR 0x86, CHR 0x87, CHR 0x88, CHR 0x89, CHR 0x8A, CHR 0x9F,
     CHR 0xA0, CHR 0xA8, CHR 0xA9, CHR 0xAF}"

section \<open>Go integers\<close>

text \<open>
  Signed 64-bit wrap-around (\<^verbatim>\<open>time.Duration\<close> and \<^verbatim>\<open>int64\<close> arithmetic) and the division
  of Go, which truncates towards zero. Durations are nanoseconds.
\<close>

definition wrap64 :: "int \<Rightarrow> int" where
  "wrap64 x = (x + 2 ^ 63) mod 2 ^ 64 - 2 ^ 63"

definition go_div :: "int \<Rightarrow> int \<Rightarrow> int" where
  "go_div a b = sgn a * sgn b * (\<bar>a\<bar> div \<bar>b\<bar>)"

abbreviation second :: int where
  "second \<equiv> 1000000000"

abbreviation millisecond :: int where
  "millisecond \<equiv> 1000000"

lemma wrap64_id: "- (2 ^ 63) \<le> x \<Longrightarrow> x < 2 ^ 63 \<Longrightarrow> wrap64 x = x"
  by (simp add: wrap64_def)

lemma go_div_nonneg: "0 \<le> a \<Longrightarrow> 0 < b \<Longrightarrow> go_div a b = a div b"
  by (cases "a = 0") (simp_all add: go_div_def)

section \<open>Errors as values\<close>

text \<open>
  The error kinds of \<^verbatim>\<open>pkg/apperror\<close>: one constructor per \<^verbatim>\<open>New...\<close> function,
  with the HTTP status it carries.
\<close>

datatype app_code =
    NOT_FOUND | BAD_REQUEST | PAYMENT_REQUIRED | PAYLOAD_TOO_LARGE | UNAUTHORIZED | FORBIDDEN
  | STEP_UP_REQUIRED | CONFLICT | TOO_MANY_REQUESTS | NOT_IMPLEMENTED | INTERNAL_ERROR
  | SERVICE_UNAVAILABLE

fun app_status :: "app_code \<Rightarrow> nat" where
  "app_status NOT_FOUND = 404"
| "app_status BAD_REQUEST = 400"
| "app_status PAYMENT_REQUIRED = 402"
| "app_status PAYLOAD_TOO_LARGE = 413"
| "app_status UNAUTHORIZED = 401"
| "app_status FORBIDDEN = 403"
| "app_status STEP_UP_REQUIRED = 403"
| "app_status CONFLICT = 409"
| "app_status TOO_MANY_REQUESTS = 429"
| "app_status NOT_IMPLEMENTED = 501"
| "app_status INTERNAL_ERROR = 500"
| "app_status SERVICE_UNAVAILABLE = 503"

text \<open>The failure classes of \<^verbatim>\<open>runtime/calling/originate_error.go\<close>.\<close>

datatype originate_class =
    OriginateFailureValidation | OriginateFailureTransport | OriginateFailureTimeout
  | OriginateFailureSIP | OriginateFailureCapacity | OriginateFailureInternal

text \<open>
  Go errors: a package-level sentinel (named by its variable), an error of a driver or a remote
  system, \<^verbatim>\<open>errors.New\<close> or \<^verbatim>\<open>fmt.Errorf\<close> without a wrapped error, an error wrapped with
  \<^verbatim>\<open>%w\<close>, an \<^verbatim>\<open>*apperror.AppError\<close>, an \<^verbatim>\<open>*calling.OriginateError\<close> and
  \<^verbatim>\<open>errors.Join\<close>. \<open>IOError t\<close> is the failure the external call number \<open>t\<close> reported.
\<close>

datatype goerr =
    Sentinel string
  | IOError nat
  | ConstraintError string
  | ErrorString string
  | Wrap string goerr
  | AppErr app_code string "goerr option"
  | OriginateErr originate_class int goerr
  | Joined goerr goerr

abbreviation ErrNoRows :: goerr where
  "ErrNoRows \<equiv> Sentinel ''pgx.ErrNoRows''"

abbreviation NewNotFound :: "string \<Rightarrow> goerr" where
  "NewNotFound m \<equiv> AppErr NOT_FOUND m None"

abbreviation NewBadRequest :: "string \<Rightarrow> goerr" where
  "NewBadRequest m \<equiv> AppErr BAD_REQUEST m None"

abbreviation NewConflict :: "string \<Rightarrow> goerr" where
  "NewConflict m \<equiv> AppErr CONFLICT m None"

abbreviation NewTooManyRequests :: "string \<Rightarrow> goerr" where
  "NewTooManyRequests m \<equiv> AppErr TOO_MANY_REQUESTS m None"

abbreviation NewInternal :: "string \<Rightarrow> goerr \<Rightarrow> goerr" where
  "NewInternal m e \<equiv> AppErr INTERNAL_ERROR m (Some e)"

abbreviation NewServiceUnavailable :: "string \<Rightarrow> goerr \<Rightarrow> goerr" where
  "NewServiceUnavailable m e \<equiv> AppErr SERVICE_UNAVAILABLE m (Some e)"

text \<open>\<^verbatim>\<open>errors.Is\<close> against a sentinel: the unwrap chain (and both sides of a join) is searched.\<close>

fun error_is :: "goerr \<Rightarrow> goerr \<Rightarrow> bool" where
  "error_is (Wrap m e) t \<longleftrightarrow> Wrap m e = t \<or> error_is e t"
| "error_is (AppErr c m (Some e)) t \<longleftrightarrow> AppErr c m (Some e) = t \<or> error_is e t"
| "error_is (OriginateErr c n e) t \<longleftrightarrow> OriginateErr c n e = t \<or> error_is e t"
| "error_is (Joined a b) t \<longleftrightarrow> Joined a b = t \<or> error_is a t \<or> error_is b t"
| "error_is e t \<longleftrightarrow> e = t"

text \<open>\<^verbatim>\<open>errors.As\<close> with an \<^verbatim>\<open>*OriginateError\<close> target: the first one of the chain.\<close>

fun as_originate_error :: "goerr \<Rightarrow> (originate_class \<times> int) option" where
  "as_originate_error (OriginateErr c n e) = Some (c, n)"
| "as_originate_error (Wrap m e) = as_originate_error e"
| "as_originate_error (AppErr c m (Some e)) = as_originate_error e"
| "as_originate_error (Joined a b) =
     (case as_originate_error a of Some r \<Rightarrow> Some r | None \<Rightarrow> as_originate_error b)"
| "as_originate_error _ = None"

section \<open>Lemmas on strings\<close>

lemma strip_prefix_of_None_take:
  assumes "strip_prefix_of ps s = None"
  shows "strip_prefix_of ps (take n s) = None"
  using assms
proof (induction ps)
  case (Cons p ps)
  have "take (length p) (take n s) \<noteq> p"
  proof
    assume h: "take (length p) (take n s) = p"
    then have "length p \<le> n"
      by (metis length_take min.bounded_iff min.cobounded2 take_take)
    with h have "take (length p) s = p" by (simp add: min_absorb1)
    with Cons.prems show False by simp
  qed
  with Cons show ?case by (simp split: if_splits)
qed simp

lemma strip_prefix_of_Some_suffix:
  "strip_prefix_of ps s = Some r \<Longrightarrow> \<exists>p. s = p @ r"
  by (induction ps) (auto split: if_splits intro: append_take_drop_id [symmetric])

lemma strip_prefix_of_shorter:
  assumes "\<forall>p \<in> set ps. p \<noteq> []" and "strip_prefix_of ps s = Some r"
  shows "length r < length s"
  using assms
proof (induction ps)
  case (Cons p ps)
  show ?case
  proof (cases "take (length p) s = p")
    case True
    with Cons.prems have "p \<noteq> []" "s \<noteq> []" "r = drop (length p) s" by auto
    then show ?thesis by simp
  next
    case False
    with Cons show ?thesis by simp
  qed
qed simp

lemma trim_with_suffix: "\<exists>p. s = p @ trim_with ps s"
proof (induction ps s rule: trim_with.induct)
  case (1 ps s)
  show ?case
  proof (cases "strip_prefix_of ps s")
    case (Some r)
    then obtain p where p: "s = p @ r" by (auto dest: strip_prefix_of_Some_suffix)
    show ?thesis
    proof (cases "length r < length s")
      case True
      with "1.IH" [OF Some] obtain q where "r = q @ trim_with ps r" by blast
      moreover have "trim_with ps s = trim_with ps r"
        by (subst trim_with.simps) (simp add: Some True)
      ultimately have "s = (p @ q) @ trim_with ps s" using p by simp
      then show ?thesis by blast
    next
      case False
      with Some show ?thesis by (simp add: trim_with.simps [of ps s])
    qed
  qed (simp add: trim_with.simps)
qed

lemma trim_with_done:
  assumes "\<forall>p \<in> set ps. p \<noteq> []"
  shows "strip_prefix_of ps (trim_with ps s) = None"
  using assms
proof (induction ps s rule: trim_with.induct)
  case (1 ps s)
  then show ?case
    by (cases "strip_prefix_of ps s")
       (auto simp: trim_with.simps [of ps s] dest: strip_prefix_of_shorter)
qed

lemma trim_with_id: "strip_prefix_of ps s = None \<Longrightarrow> trim_with ps s = s"
  by (simp add: trim_with.simps)

lemma go_spaces_nonempty: "\<forall>p \<in> set go_spaces. p \<noteq> []" "\<forall>p \<in> set (map rev go_spaces). p \<noteq> []"
  by (simp_all add: go_spaces_def)

lemma trim_right_take: "\<exists>n. trim_right s = take n s"
proof -
  obtain p where "rev s = p @ trim_with (map rev go_spaces) (rev s)"
    using trim_with_suffix by blast
  then have "s = trim_right s @ rev p"
    unfolding trim_right_def by (metis rev_append rev_rev_ident)
  then show ?thesis by (metis append_eq_conv_conj)
qed

lemma trim_space_idem [simp]: "trim_space (trim_space s) = trim_space s"
proof -
  let ?l = "trim_left s"
  obtain n where n: "trim_right ?l = take n ?l" using trim_right_take by blast
  have "strip_prefix_of go_spaces ?l = None"
    unfolding trim_left_def by (rule trim_with_done [OF go_spaces_nonempty(1)])
  then have "trim_left (trim_space s) = trim_space s"
    by (metis n strip_prefix_of_None_take trim_left_def trim_space_def trim_with_id)
  moreover have "trim_right (trim_space s) = trim_space s"
    using trim_with_done [OF go_spaces_nonempty(2)]
    by (simp add: trim_space_def trim_right_def trim_with_id)
  ultimately show ?thesis by (simp add: trim_space_def)
qed

lemma trim_space_length: "length (trim_space s) \<le> length s"
proof -
  obtain n where "trim_right (trim_left s) = take n (trim_left s)" using trim_right_take by blast
  moreover obtain p where "s = p @ trim_left s" using trim_with_suffix unfolding trim_left_def by blast
  then have "length (trim_left s) \<le> length s" by (metis length_append le_add2)
  ultimately show ?thesis by (simp add: trim_space_def)
qed

lemma trim_space_Nil [simp]: "trim_space [] = []"
  using trim_space_length [of "[]"] by simp

lemma strip_prefix_of_None:
  "(\<And>p. p \<in> set ps \<Longrightarrow> p \<noteq> [] \<and> hd p \<noteq> c) \<Longrightarrow> strip_prefix_of ps (c # cs) = None"
proof (induction ps)
  case (Cons p ps)
  then have "p \<noteq> []" "hd p \<noteq> c" by auto
  then have "take (length p) (c # cs) \<noteq> p" by (cases p) auto
  with Cons show ?case by simp
qed simp

lemma plain_prefix: "plain_char c \<Longrightarrow> strip_prefix_of go_spaces (c # cs) = None"
  by (rule strip_prefix_of_None) (auto simp: go_spaces_def plain_char_def)

lemma plain_suffix: "plain_char c \<Longrightarrow> strip_prefix_of (map rev go_spaces) (c # cs) = None"
  by (rule strip_prefix_of_None) (auto simp: go_spaces_def plain_char_def)

lemma trim_space_plain:
  assumes "s \<noteq> []" "plain_char (hd s)" "plain_char (last s)"
  shows "trim_space s = s"
proof -
  obtain c cs where s: "s = c # cs" using assms(1) by (cases s) auto
  have "trim_left s = s" using assms(2) by (simp add: s trim_left_def trim_with_id plain_prefix)
  moreover have "rev s = last s # rev (butlast s)" using assms(1) by (cases s rule: rev_cases) simp_all
  then have "strip_prefix_of (map rev go_spaces) (rev s) = None" using assms(3) by (simp only: plain_suffix)
  then have "trim_right s = s" by (simp only: trim_right_def trim_with_id rev_rev_ident)
  ultimately show ?thesis by (simp add: trim_space_def)
qed

lemma trim_space_code [code]:
  "trim_space s = (if s \<noteq> [] \<and> plain_char (hd s) \<and> plain_char (last s) then s else trim_right (trim_left s))"
  using trim_space_plain [of s] by (auto simp: trim_space_def)

lemma ascii_lower_code [code]:
  "ascii_lower (Char b0 b1 b2 b3 b4 b5 b6 b7) =
     (if \<not> b7 \<and> b6 \<and> \<not> b5 \<and> (b0 \<or> b1 \<or> b2 \<or> b3 \<or> b4) \<and> \<not> (b4 \<and> b3 \<and> (b2 \<or> b1 \<and> b0))
      then Char b0 b1 b2 b3 b4 True b6 b7 else Char b0 b1 b2 b3 b4 b5 b6 b7)"
  by (cases b0; cases b1; cases b2; cases b3; cases b4; cases b5; cases b6; cases b7)
     (simp_all add: ascii_lower_def char_of_def bit_0)

lemma ascii_upper_code [code]:
  "ascii_upper (Char b0 b1 b2 b3 b4 b5 b6 b7) =
     (if \<not> b7 \<and> b6 \<and> b5 \<and> (b0 \<or> b1 \<or> b2 \<or> b3 \<or> b4) \<and> \<not> (b4 \<and> b3 \<and> (b2 \<or> b1 \<and> b0))
      then Char b0 b1 b2 b3 b4 False b6 b7 else Char b0 b1 b2 b3 b4 b5 b6 b7)"
  by (cases b0; cases b1; cases b2; cases b3; cases b4; cases b5; cases b6; cases b7)
     (simp_all add: ascii_upper_def char_of_def bit_0)

lemma digit_char: "0 \<le> n \<Longrightarrow> n < 10 \<Longrightarrow> char_of (48 + n) = digit_char n"
proof -
  assume "0 \<le> n" "n < 10"
  then have "n \<in> {0, 1, 2, 3, 4, 5, 6, 7, 8, 9}" unfolding insert_iff empty_iff by presburger
  then show ?thesis by (auto simp: digit_char_def char_of_def bit_0)
qed

lemma itoa_pos_table: "0 \<le> n \<Longrightarrow> itoa_pos n = itoa_table n"
proof (induction n rule: itoa_pos.induct)
  case (1 n)
  then show ?case by (subst itoa_pos.simps, subst itoa_table.simps) (auto simp: digit_char)
qed

lemma itoa_code [code]: "itoa i = (if i < 0 then CHR ''-'' # itoa_table (- i) else itoa_table i)"
  by (simp add: itoa_def itoa_pos_table)

lemma digits_value_nonneg: "list_all is_digit s \<Longrightarrow> 0 \<le> acc \<Longrightarrow> 0 \<le> digits_value acc s"
proof (induction s arbitrary: acc)
  case (Cons c cs)
  then show ?case by (simp add: is_digit_def)
qed simp

lemma parse_int64_range: "parse_int64 s = Some v \<Longrightarrow> - (2 ^ 63) \<le> v \<and> v < 2 ^ 63"
  by (auto simp: parse_int64_def Let_def split: prod.splits if_splits list.splits
           dest: digits_value_nonneg [of _ 0])

section \<open>Verifying effectful handlers\<close>

text \<open>
  A handler is a value of the state monad over the world. \<open>wp m Q s\<close> is the weakest
  precondition of the (deterministic, total) computation \<open>m\<close> for the postcondition \<open>Q\<close>.
\<close>

definition wp :: "('s, 'a) state \<Rightarrow> ('a \<Rightarrow> 's \<Rightarrow> bool) \<Rightarrow> 's \<Rightarrow> bool" where
  "wp m Q s \<longleftrightarrow> (case run_state m s of (a, s') \<Rightarrow> Q a s')"

lemma wp_return [wp_simps]: "wp (State_Monad.return x) Q s \<longleftrightarrow> Q x s"
  by (simp add: wp_def)

lemma wp_bind [wp_simps]: "wp (State_Monad.bind m f) Q s \<longleftrightarrow> wp m (\<lambda>a. wp (f a) Q) s"
  by (simp add: wp_def split: prod.splits)

lemma wp_State [wp_simps]: "wp (State f) Q s \<longleftrightarrow> Q (fst (f s)) (snd (f s))"
  by (simp add: wp_def split: prod.splits)

lemma wp_mono: "wp m P s \<Longrightarrow> (\<And>a s'. P a s' \<Longrightarrow> Q a s') \<Longrightarrow> wp m Q s"
  by (auto simp: wp_def split: prod.splits)

lemma wp_conj: "wp m P s \<Longrightarrow> wp m Q s \<Longrightarrow> wp m (\<lambda>a s'. P a s' \<and> Q a s') s"
  by (auto simp: wp_def split: prod.splits)

text \<open>
  For evaluation, the functions under \<open>State\<close> are named: a partial application is not unfolded before its
  state arrives.
\<close>

definition bind_run :: "('s, 'a) state \<Rightarrow> ('a \<Rightarrow> ('s, 'b) state) \<Rightarrow> 's \<Rightarrow> 'b \<times> 's" where
  "bind_run m f s = (case run_state m s of (a, s') \<Rightarrow> run_state (f a) s')"

lemma bind_code [code]: "State_Monad.bind m f = State (bind_run m f)"
  by (rule state.expand) (simp add: fun_eq_iff bind_run_def split: prod.split)

text \<open>
  A two-state relation a handler can only move along: reflexive and transitive, so that the
  relation for a whole handler follows from the relation for its primitive steps. An invariant
  \<open>I\<close> is the special case \<open>\<lambda>s s'. I s \<longrightarrow> I s'\<close>.
\<close>

locale history =
  fixes R :: "'s \<Rightarrow> 's \<Rightarrow> bool"
  assumes refl: "R s s"
    and trans: "R s t \<Longrightarrow> R t u \<Longrightarrow> R s u"
begin

abbreviation moves :: "('s, 'a) state \<Rightarrow> bool" where
  "moves m \<equiv> state_io_rel R m"

lemma return_moves: "moves (State_Monad.return x)"
  by (auto simp: state_io_rel_def refl)

lemma bind_moves: "moves m \<Longrightarrow> (\<And>x. moves (f x)) \<Longrightarrow> moves (State_Monad.bind m f)"
  by (fastforce simp: state_io_rel_def split: prod.splits intro: trans dest: state_io_relD)

lemma if_moves: "(b \<Longrightarrow> moves m) \<Longrightarrow> (\<not> b \<Longrightarrow> moves n) \<Longrightarrow> moves (if b then m else n)"
  by simp

lemma case_sum_moves:
  "(\<And>e. x = Inl e \<Longrightarrow> moves (f e)) \<Longrightarrow> (\<And>y. x = Inr y \<Longrightarrow> moves (g y)) \<Longrightarrow>
   moves (case x of Inl e \<Rightarrow> f e | Inr y \<Rightarrow> g y)"
  by (simp split: sum.split)

lemma case_option_moves:
  "(x = None \<Longrightarrow> moves m) \<Longrightarrow> (\<And>y. x = Some y \<Longrightarrow> moves (f y)) \<Longrightarrow>
   moves (case x of None \<Rightarrow> m | Some y \<Rightarrow> f y)"
  by (simp split: option.split)

lemma case_prod_moves: "(\<And>a b. x = (a, b) \<Longrightarrow> moves (f a b)) \<Longrightarrow> moves (case x of (a, b) \<Rightarrow> f a b)"
  by (simp split: prod.split)

lemma State_moves: "(\<And>s. R s (snd (f s))) \<Longrightarrow> moves (State f)"
  by (simp add: state_io_rel_def)

lemma get_moves: "moves State_Monad.get"
  by (simp add: state_io_rel_def refl)

lemma movesD: "moves m \<Longrightarrow> R s (snd (run_state m s))"
  by (simp add: state_io_rel_def)

text \<open>
  The same for a computation that needs a fact about its start state, established by the
  computation before it.
\<close>

lemma bind_moves_from:
  assumes "\<And>a s'. run_state m s = (a, s') \<Longrightarrow> R s s' \<and> R s' (snd (run_state (f a) s'))"
  shows "R s (snd (run_state (State_Monad.bind m f) s))"
proof (cases "run_state m s")
  case (Pair a s')
  with assms show ?thesis by (auto intro: trans)
qed

lemmas moves_intros =
  return_moves bind_moves if_moves case_sum_moves case_option_moves case_prod_moves get_moves

end

end
