(* ===== verification/Store.thy ===== *)
theory Store
  imports Prelude "HOL-Library.AList"
begin

text \<open>
  The world the services act on: the PostgreSQL tables (rows as in
  \<^verbatim>\<open>internal/database/sqlc/models.go\<close>), the Redis key space and the commands sent to
  FreeSWITCH, together with the environment that answers external calls.

  Every external call is one step of the world. It takes the next index \<open>t\<close> of the environment's
  oracle functions: other processes may have changed the world before it (\<open>interference\<close>), it may
  fail without effect or fail although its effect took place (\<open>fault_at\<close>), and the clock has the
  value \<open>clock t\<close> (microseconds). Nothing is assumed of these functions here; a property that needs
  a fault-free run or a disciplined environment says so in a hypothesis.
\<close>

section \<open>Rows\<close>

datatype direction = Inbound | Outbound

datatype call_state = Initiating | Ringing | Answered | Active | Completed | Failed | Cancelled

datatype media_state = MediaActive | MediaHeld

record call =
  c_id :: uuid
  c_organization_id :: uuid
  c_voice_agent_id :: "uuid option"
  c_trunk_id :: "uuid option"
  c_trunk_endpoint_id :: "uuid option"
  c_direction :: direction
  c_state :: call_state
  c_media_state :: media_state
  c_from_uri :: string
  c_to_uri :: string
  c_sip_call_id :: "string option"
  c_started_at :: "int option"
  c_answered_at :: "int option"
  c_ended_at :: "int option"
  c_hangup_reason :: "string option"
  c_created_at :: int
  c_updated_at :: int

text \<open>
  Trunks with their endpoints, digest credentials and source networks. An address is a \<^verbatim>\<open>netip.Addr\<close>
  without a zone.
\<close>

record trunk =
  t_id :: uuid
  t_organization_id :: uuid
  t_name :: string
  t_direction :: string
  t_status :: string
  t_outbound_auth_method :: string
  t_auth_username :: "string option"
  t_auth_realm :: "string option"
  t_auth_secret_ciphertext :: "string option"
  t_inbound_enabled :: bool
  t_inbound_auth_method :: string
  t_inbound_username :: "string option"
  t_inbound_realm :: "string option"
  t_inbound_secret_ciphertext :: "string option"
  t_max_cps :: int
  t_max_concurrent_calls :: int
  t_codecs :: "string list"
  t_supports_video :: bool
  t_supports_fax :: bool
  t_created_at :: int
  t_updated_at :: int

record trunk_endpoint =
  e_id :: uuid
  e_organization_id :: uuid
  e_trunk_id :: uuid
  e_host :: string
  e_port :: int
  e_transport :: string
  e_direction :: string
  e_priority :: int
  e_weight :: int
  e_enabled :: bool
  e_health_status :: string
  e_consecutive_failures :: int
  e_last_checked_at :: "int option"
  e_last_response_code :: "int option"
  e_last_latency_ms :: "int option"
  e_last_error :: "string option"
  e_cooldown_until :: "int option"
  e_created_at :: int
  e_updated_at :: int

record trunk_digest_credential =
  g_trunk_id :: uuid
  g_organization_id :: uuid
  g_direction :: string
  g_username :: string
  g_realm :: string
  g_ha1_md5 :: string
  g_created_at :: int
  g_updated_at :: int

datatype ip_addr = IP4 "32 word" | IP6 "128 word"

record ip_prefix =
  pf_addr :: ip_addr
  pf_bits :: nat

record trunk_source_ip =
  si_id :: uuid
  si_organization_id :: uuid
  si_trunk_id :: uuid
  si_cidr :: ip_prefix
  si_created_at :: int

text \<open>
  \<^verbatim>\<open>trunks.Response\<close>, what a trunk looks like outside the database: no secret, only whether there is
  one. \<^verbatim>\<open>EndpointResponse\<close> has every column of an endpoint.
\<close>

record trunk_response =
  tr_id :: uuid
  tr_organization_id :: uuid
  tr_name :: string
  tr_direction :: string
  tr_status :: string
  tr_outbound_auth_method :: string
  tr_outbound_username :: "string option"
  tr_outbound_realm :: "string option"
  tr_has_outbound_credentials :: bool
  tr_inbound_enabled :: bool
  tr_inbound_auth_method :: string
  tr_inbound_username :: "string option"
  tr_inbound_realm :: "string option"
  tr_has_inbound_credentials :: bool
  tr_max_cps :: int
  tr_max_concurrent_calls :: int
  tr_codecs :: "string list"
  tr_supports_video :: bool
  tr_supports_fax :: bool
  tr_created_at :: int
  tr_updated_at :: int

datatype trunk_resource = TrunkResource trunk_response | EndpointResource trunk_endpoint

text \<open>Recordings with their public view, and the object stores of an organization.\<close>

datatype recording_status = Recording | Uploading | Recorded | RecordingFailed | Deleted

record recording =
  rc_id :: uuid
  rc_organization_id :: uuid
  rc_call_id :: uuid
  rc_storage_integration_id :: "uuid option"
  rc_status :: recording_status
  rc_storage_key :: "string option"
  rc_storage_provider :: "string option"
  rc_storage_bucket :: "string option"
  rc_storage_url :: "string option"
  rc_source_path :: "string option"
  rc_stopped_at :: "int option"
  rc_upload_attempts :: int
  rc_next_upload_at :: "int option"
  rc_upload_error :: "string option"
  rc_file_size_bytes :: "int option"
  rc_format :: "string option"
  rc_duration_seconds :: "int option"
  rc_started_at :: "int option"
  rc_completed_at :: "int option"
  rc_created_at :: int
  rc_updated_at :: int

record recording_response =
  rr_id :: uuid
  rr_organization_id :: uuid
  rr_call_id :: uuid
  rr_status :: recording_status
  rr_file_size_bytes :: "int option"
  rr_format :: "string option"
  rr_duration_seconds :: "int option"
  rr_started_at :: "int option"
  rr_completed_at :: "int option"
  rr_created_at :: int
  rr_updated_at :: int

record storage_integration =
  sg_id :: uuid
  sg_organization_id :: uuid
  sg_name :: string
  sg_endpoint_url :: string
  sg_region :: string
  sg_bucket :: string
  sg_access_key_id :: string
  sg_secret_access_key_ciphertext :: string
  sg_use_path_style :: bool
  sg_status :: string
  sg_created_at :: int
  sg_updated_at :: int

text \<open>How long an organization keeps a kind of resource.\<close>

record retention_policy =
  rp_organization_id :: uuid
  rp_resource :: string
  rp_retention_days :: int
  rp_enabled :: bool
  rp_created_at :: int
  rp_updated_at :: int

text \<open>
  The payload of an outbox row: the map that \<^verbatim>\<open>calls.Repository.mutate\<close> marshals
  (event type, organization, call, the call resource, time), the \<^verbatim>\<open>trunks.Event\<close> of a trunk (event
  type, organization, trunk, endpoint, resource, time), the \<^verbatim>\<open>recordings.Event\<close> of a recording (event type,
  organization, recording, call, resource, time), or any other JSON text.
\<close>

datatype payload =
    CallPayload string uuid uuid call int
  | TrunkPayload string uuid uuid "uuid option" trunk_resource int
  | RecordingPayload string uuid uuid uuid recording_response int
  | RawPayload string

record outbox_event =
  ob_id :: uuid
  ob_subject :: string
  ob_aggregate_type :: string
  ob_aggregate_id :: uuid
  ob_payload :: payload
  ob_headers :: "(string \<times> string) list"
  ob_available_at :: int
  ob_published_at :: "int option"
  ob_attempts :: int
  ob_last_error :: "string option"
  ob_locked_at :: "int option"
  ob_locked_by :: "string option"
  ob_created_at :: int
  ob_updated_at :: int

text \<open>The columns of the number, binding, agent and organization tables that routing reads.\<close>

record phone_number =
  p_id :: uuid
  p_organization_id :: uuid
  p_number :: string
  p_trunk_id :: "uuid option"
  p_voice_enabled :: bool
  p_status :: string
  p_country_code :: string
  p_created_at :: int
  p_updated_at :: int

record voice_agent_binding =
  b_id :: uuid
  b_organization_id :: uuid
  b_voice_agent_id :: uuid
  b_phone_number_id :: uuid

record voice_agent =
  a_id :: uuid
  a_organization_id :: uuid
  a_status :: string

record organization =
  o_id :: uuid
  o_status :: string
  o_deleted :: bool

record network_policy =
  np_id :: uuid
  np_organization_id :: uuid
  np_name :: string
  np_action :: string
  np_source_cidr :: ip_prefix
  np_status :: string
  np_created_at :: int
  np_updated_at :: int

text \<open>The idempotency records and the webhook tables.\<close>

datatype idempotency_status = Processing | Done

record idempotency_row =
  k_scope :: string
  k_key :: string
  k_method :: string
  k_path :: string
  k_request_hash :: string
  k_status :: idempotency_status
  k_response_status :: "int option"
  k_response_body :: "string option"
  k_response_content_type :: "string option"
  k_response_headers :: "(string \<times> string list) list"
  k_locked_until :: int
  k_completed_at :: "int option"
  k_expires_at :: int
  k_created_at :: int
  k_updated_at :: int

record webhook_endpoint =
  we_id :: uuid
  we_organization_id :: uuid
  we_url :: string
  we_signing_secret :: string
  we_enabled :: bool
  we_subscribed_events :: "string list"
  we_created_at :: int
  we_updated_at :: int
  we_disabled_at :: "int option"
  we_consecutive_failures :: int
  we_last_failure_at :: "int option"
  we_disabled_reason :: "string option"

record webhook_event =
  wv_id :: uuid
  wv_organization_id :: uuid
  wv_event_type :: string
  wv_object_type :: string
  wv_object_id :: "uuid option"
  wv_payload :: payload
  wv_occurred_at :: int
  wv_created_at :: int

datatype delivery_status = Pending | Retrying | Succeeded | DeliveryFailed | Canceled

record webhook_delivery =
  wd_id :: uuid
  wd_event_id :: uuid
  wd_endpoint_id :: uuid
  wd_status :: delivery_status
  wd_attempt_count :: int
  wd_replay_count :: int
  wd_next_attempt_at :: int
  wd_last_attempt_at :: "int option"
  wd_last_replayed_at :: "int option"
  wd_response_status :: "int option"
  wd_response_body :: "string option"
  wd_last_error :: "string option"
  wd_delivered_at :: "int option"
  wd_locked_at :: "int option"
  wd_locked_by :: "string option"
  wd_created_at :: int
  wd_updated_at :: int

record db =
  calls :: "call list"
  outbox :: "outbox_event list"
  trunks :: "trunk list"
  trunk_endpoints :: "trunk_endpoint list"
  trunk_digest_credentials :: "trunk_digest_credential list"
  trunk_source_ips :: "trunk_source_ip list"
  phone_numbers :: "phone_number list"
  voice_agent_bindings :: "voice_agent_binding list"
  voice_agents :: "voice_agent list"
  organizations :: "organization list"
  network_policies :: "network_policy list"
  idempotency_keys :: "idempotency_row list"
  webhook_endpoints :: "webhook_endpoint list"
  webhook_events :: "webhook_event list"
  webhook_deliveries :: "webhook_delivery list"
  recordings :: "recording list"
  storage_integrations :: "storage_integration list"
  retention_policies :: "retention_policy list"

section \<open>The Redis key space, the FreeSWITCH connection and the bus\<close>

text \<open>
  The kinds of values the code stores: strings and counters with an expiry time, sorted sets (member and
  score, no member twice) with an optional one, and the two hashes of the shared metrics. Times are
  milliseconds. The \<^verbatim>\<open>float64\<close> of a gauge is either a level (0 or 1) or the seconds of a duration, kept
  exact as its nanoseconds.
\<close>

datatype gauge_value = Level int | Seconds int

record zset =
  z_members :: "(string \<times> int) list"
  z_expires :: "int option"

record redis =
  r_strings :: "string \<rightharpoonup> string \<times> int"
  r_counters :: "string \<rightharpoonup> int \<times> int"
  r_zsets :: "string \<rightharpoonup> zset"
  r_metric_counters :: "(string \<times> int) list"
  r_metric_gauges :: "(string \<times> gauge_value) list"

text \<open>
  A frame of the FreeSWITCH event socket: \<^verbatim>\<open>freeswitch.Frame\<close>. The world keeps the commands written to
  the socket, in order.
\<close>

record frame =
  f_content_type :: string
  f_headers :: "(string \<times> string) list"
  f_body :: string

text \<open>What kind of Go error the failure of an external call is, for \<^verbatim>\<open>errors.Is\<close> and \<^verbatim>\<open>errors.As\<close>.\<close>

datatype io_kind = DeadlineExceeded | ContextCanceled | NetTimeout | NetError | OtherFailure

text \<open>A message on the event bus (NATS JetStream): subject, payload, headers and the deduplication id.\<close>

record message =
  m_subject :: string
  m_payload :: payload
  m_headers :: "(string \<times> string) list"
  m_id :: string

text \<open>
  An HTTP POST of the webhook sender: the delivery it belongs to, the URL, the event headers, the
  timestamp, the body and the signature.
\<close>

record http_post =
  hp_delivery :: uuid
  hp_url :: string
  hp_event_id :: uuid
  hp_event_type :: string
  hp_timestamp :: int
  hp_body :: string
  hp_signature :: string

text \<open>
  A request an object store carried out: the store (the managed one, or the host and port of another
  one), the bucket, the key and the size of what was put. The world keeps them in order, and the files of
  the staging volume (path, whether it is a regular file, size).
\<close>

datatype object_request = PutObject "string option" string string int | RemoveObject "string option" string string

record world =
  tick :: nat
  database :: db
  cache :: redis
  fs_log :: "string list"
  bus :: "message list"
  http_log :: "http_post list"
  sip_log :: "string list"
  staged :: "(string \<times> bool \<times> int) list"
  object_log :: "object_request list"

section \<open>The environment\<close>

datatype fault = NoFault | FailBefore | FailAfter

text \<open>The parts of a \<^verbatim>\<open>url.URL\<close>; \<open>up_user\<close> tells whether there is user information.\<close>

record url_parts =
  up_scheme :: string
  up_host :: string
  up_hostname :: string
  up_user :: bool
  up_path :: string
  up_raw_query :: string
  up_fragment :: string

text \<open>
  \<open>new_uuid\<close> stands for \<^verbatim>\<open>gen_random_uuid()\<close>, \<open>ctx_done\<close> for \<^verbatim>\<open>ctx.Err() != nil\<close>,
  \<open>uuid_string\<close> and \<open>uuid_parse\<close> for the functions of \<^verbatim>\<open>github.com/google/uuid\<close>,
  \<open>fs_frame\<close> for the frame FreeSWITCH answers a command with, \<open>failure_kind\<close> for the kind of the error a
  failed call reports, \<open>error_text\<close> for \<^verbatim>\<open>err.Error()\<close>, whose text drivers choose, \<open>sha256_hex\<close>, \<open>hmac_hex\<close> and
  \<open>random_bytes\<close> for the \<^verbatim>\<open>crypto\<close> packages, \<open>http_reply\<close> for the status and body a server answers with and
  whether reading the body fails, \<open>row_uuid\<close> for the ids \<^verbatim>\<open>gen_random_uuid()\<close> gives the rows of one statement,
  \<open>url_parse\<close> for the scheme, the host and the presence of user information in \<^verbatim>\<open>url.ParseRequestURI\<close>,
  \<open>envelope_text\<close> for the JSON of a delivery, \<open>json_object\<close> for a text being one JSON object and
  \<open>json_occurred_at\<close> for the \<^verbatim>\<open>occurred_at\<close> member decoded from it, \<open>stmt_fault\<close> for the failure of the
  \<open>k\<close>-th statement of the transaction at \<open>t\<close>, \<open>md5_hex\<close> for the hexadecimal MD5, \<open>aead_seal\<close> and \<open>aead_open\<close>
  (nonce, text, associated data) for AES-GCM under the configured key, \<open>sip_reply\<close> for what a SIP peer
  sends, \<open>eval_symlinks\<close> for \<^verbatim>\<open>filepath.EvalSymlinks\<close> on the staging volume, \<open>managed_bucket\<close> for the bucket of the
  managed object store, \<open>date_path\<close> for the year, month and day of a time with slashes between them,
  \<open>presigned_url\<close> for the URL an object store signs, \<open>bucket_exists\<close> for its answer about a bucket, \<open>url_split\<close> for \<^verbatim>\<open>url.Parse\<close>.
\<close>

record env =
  fault_at :: "nat \<Rightarrow> fault"
  clock :: "nat \<Rightarrow> int"
  new_uuid :: "nat \<Rightarrow> uuid"
  ctx_done :: "nat \<Rightarrow> bool"
  interference :: "nat \<Rightarrow> world \<Rightarrow> world"
  uuid_string :: "uuid \<Rightarrow> string"
  uuid_parse :: "string \<Rightarrow> uuid option"
  fs_frame :: "nat \<Rightarrow> frame"
  failure_kind :: "nat \<Rightarrow> io_kind"
  error_text :: "goerr \<Rightarrow> string"
  sha256_hex :: "string \<Rightarrow> string"
  hmac_hex :: "string \<Rightarrow> string \<Rightarrow> string"
  random_bytes :: "nat \<Rightarrow> string"
  http_reply :: "nat \<Rightarrow> int \<times> string \<times> bool"
  row_uuid :: "nat \<Rightarrow> nat \<Rightarrow> uuid"
  url_parse :: "string \<Rightarrow> (string \<times> string \<times> bool) option"
  envelope_text :: "uuid \<Rightarrow> string \<Rightarrow> int \<Rightarrow> payload \<Rightarrow> string"
  time_text :: "int \<Rightarrow> string"
  json_object :: "string \<Rightarrow> bool"
  json_occurred_at :: "string \<Rightarrow> int option"
  stmt_fault :: "nat \<Rightarrow> nat \<Rightarrow> bool"
  md5_hex :: "string \<Rightarrow> string"
  aead_seal :: "string \<Rightarrow> string \<Rightarrow> string \<Rightarrow> string"
  aead_open :: "string \<Rightarrow> string \<Rightarrow> string \<Rightarrow> string option"
  sip_reply :: "nat \<Rightarrow> string"
  eval_symlinks :: "nat \<Rightarrow> string \<Rightarrow> string option"
  managed_bucket :: string
  date_path :: "int \<Rightarrow> string"
  presigned_url :: "nat \<Rightarrow> string"
  bucket_exists :: "nat \<Rightarrow> bool"
  url_split :: "string \<Rightarrow> url_parts option"
  payload_size :: "payload \<Rightarrow> int"

text \<open>One external call.\<close>

definition external :: "env \<Rightarrow> (nat \<Rightarrow> world \<Rightarrow> (goerr + 'a) \<times> world) \<Rightarrow> (world, goerr + 'a) state" where
  "external E f = State (\<lambda>w0.
     let t = tick w0; w = (interference E t w0)\<lparr>tick := Suc t\<rparr>
     in case fault_at E t of
          NoFault \<Rightarrow> f t w
        | FailBefore \<Rightarrow> (Inl (IOError t), w)
        | FailAfter \<Rightarrow> (Inl (IOError t), snd (f t w)))"

text \<open>A read of the database, a read or a write of Redis, a command to FreeSWITCH.\<close>

definition query :: "env \<Rightarrow> (db \<Rightarrow> goerr + 'a) \<Rightarrow> (world, goerr + 'a) state" where
  "query E f = external E (\<lambda>t w. (f (database w), w))"

definition exec :: "env \<Rightarrow> (int \<Rightarrow> db \<Rightarrow> (goerr + 'a) \<times> db) \<Rightarrow> (world, goerr + 'a) state" where
  "exec E f = external E (\<lambda>t w. case f (clock E t) (database w) of (r, d) \<Rightarrow> (r, w\<lparr>database := d\<rparr>))"

text \<open>A statement with a result row that may be missing or violate a constraint; an error changes nothing.\<close>

definition statement :: "(int \<Rightarrow> db \<Rightarrow> goerr + 'a \<times> db) \<Rightarrow> int \<Rightarrow> db \<Rightarrow> (goerr + 'a) \<times> db" where
  "statement q now d = (case q now d of Inl e \<Rightarrow> (Inl e, d) | Inr (x, d') \<Rightarrow> (Inr x, d'))"

definition redis_call :: "env \<Rightarrow> (int \<Rightarrow> redis \<Rightarrow> (goerr + 'a) \<times> redis) \<Rightarrow> (world, goerr + 'a) state" where
  "redis_call E f =
     external E (\<lambda>t w. case f (clock E t div 1000) (cache w) of (r, c) \<Rightarrow> (r, w\<lparr>cache := c\<rparr>))"

definition fs_send :: "env \<Rightarrow> string \<Rightarrow> (world, goerr + frame) state" where
  "fs_send E c = external E (\<lambda>t w. (Inr (fs_frame E t), w\<lparr>fs_log := fs_log w @ [c]\<rparr>))"

text \<open>
  A database transaction: begin, the statements, commit. The statements run on the database as it is
  after the begin, and the row locks they take keep other processes out until the commit, so they and
  the commit are one step with two faults: a failed statement or a failed commit leaves the database
  as it was, a commit that fails after the fact does not. \<open>NOW()\<close> is the time of the begin. The three
  functions are what the code makes of a failed begin, first statement and commit.
\<close>

definition transaction_with ::
  "env \<Rightarrow> (goerr \<Rightarrow> goerr) \<Rightarrow> (goerr \<Rightarrow> goerr) \<Rightarrow> (goerr \<Rightarrow> goerr) \<Rightarrow> (int \<Rightarrow> nat \<Rightarrow> db \<Rightarrow> goerr + 'a \<times> db)
     \<Rightarrow> (world, goerr + 'a) state" where
  "transaction_with E begin_error statement_error commit_error body = do {
     b \<leftarrow> external E (\<lambda>t w. (Inr (clock E t), w));
     case b of
       Inl e \<Rightarrow> State_Monad.return (Inl (begin_error e))
     | Inr now \<Rightarrow> State (\<lambda>w0.
         let t = tick w0; w = (interference E t w0)\<lparr>tick := Suc (Suc t)\<rparr>
         in case fault_at E t of
              NoFault \<Rightarrow>
                (case body now t (database w) of
                   Inl e \<Rightarrow> (Inl e, w)
                 | Inr (x, d) \<Rightarrow>
                     (case fault_at E (Suc t) of
                        NoFault \<Rightarrow> (Inr x, w\<lparr>database := d\<rparr>)
                      | FailBefore \<Rightarrow> (Inl (commit_error (IOError (Suc t))), w)
                      | FailAfter \<Rightarrow> (Inl (commit_error (IOError (Suc t))), w\<lparr>database := d\<rparr>)))
            | _ \<Rightarrow> (Inl (statement_error (IOError t)), w))
   }"

definition transaction ::
  "env \<Rightarrow> string \<Rightarrow> (int \<Rightarrow> nat \<Rightarrow> db \<Rightarrow> goerr + 'a \<times> db) \<Rightarrow> (world, goerr + 'a) state" where
  "transaction E name = transaction_with E (Wrap (''begin '' @ name)) (\<lambda>e. e) (Wrap (''commit '' @ name))"

text \<open>A later statement of a transaction, which has its own way to fail.\<close>

definition tx_statement :: "env \<Rightarrow> nat \<Rightarrow> nat \<Rightarrow> (db \<Rightarrow> goerr + 'a) \<Rightarrow> db \<Rightarrow> goerr + 'a" where
  "tx_statement E t k q d = (if stmt_fault E t k then Inl (IOError t) else q d)"

section \<open>Rows of a table\<close>

text \<open>\<^verbatim>\<open>SELECT ... LIMIT 1\<close> and \<^verbatim>\<open>UPDATE ... WHERE ... RETURNING\<close> with a \<^verbatim>\<open>:one\<close> result.\<close>

definition select_one :: "('r \<Rightarrow> bool) \<Rightarrow> 'r list \<Rightarrow> goerr + 'r" where
  "select_one P rows = (case find P rows of None \<Rightarrow> Inl ErrNoRows | Some r \<Rightarrow> Inr r)"

definition update_where :: "('r \<Rightarrow> bool) \<Rightarrow> ('r \<Rightarrow> 'r) \<Rightarrow> 'r list \<Rightarrow> 'r list" where
  "update_where P f rows = map (\<lambda>r. if P r then f r else r) rows"

definition update_one :: "('r \<Rightarrow> bool) \<Rightarrow> ('r \<Rightarrow> 'r) \<Rightarrow> 'r list \<Rightarrow> goerr + 'r \<times> 'r list" where
  "update_one P f rows =
     (case find P rows of
        None \<Rightarrow> Inl ErrNoRows
      | Some r \<Rightarrow> Inr (f r, update_where P f rows))"

lemma select_one_Inr: "select_one P rows = Inr r \<Longrightarrow> r \<in> set rows \<and> P r"
  by (auto simp: select_one_def find_Some_iff split: option.splits)

lemma select_one_Inl: "select_one P rows = Inl e \<Longrightarrow> e = ErrNoRows \<and> (\<forall>r \<in> set rows. \<not> P r)"
  by (auto simp: select_one_def find_None_iff split: option.splits)

lemma update_one_Inr:
  assumes "update_one P f rows = Inr (r', rows')"
  obtains r where "r \<in> set rows" "P r" "r' = f r" "rows' = update_where P f rows"
  using assms that by (auto simp: update_one_def find_Some_iff split: option.splits intro: nth_mem)

lemma update_one_Inl: "update_one P f rows = Inl e \<Longrightarrow> e = ErrNoRows \<and> (\<forall>r \<in> set rows. \<not> P r)"
  by (auto simp: update_one_def find_None_iff split: option.splits)

lemma length_update_where [simp]: "length (update_where P f rows) = length rows"
  by (simp add: update_where_def)

lemma set_update_where: "set (update_where P f rows) = (\<lambda>r. if P r then f r else r) ` set rows"
  by (simp add: update_where_def)

lemma in_update_whereE:
  assumes "x \<in> set (update_where P f rows)"
  obtains r where "r \<in> set rows" "P r" "x = f r" | "x \<in> set rows" "\<not> P x"
  using assms by (auto simp: set_update_where split: if_splits)

lemma nth_update_where [simp]:
  "i < length rows \<Longrightarrow> update_where P f rows ! i = (if P (rows ! i) then f (rows ! i) else rows ! i)"
  by (simp add: update_where_def)

lemma map_update_where: "(\<And>r. g (f r) = g r) \<Longrightarrow> map g (update_where P f rows) = map g rows"
  by (simp add: update_where_def)

text \<open>
  A table that grows: rows are appended, existing rows stay in place and change only along \<open>P\<close>.
\<close>

definition grows :: "('r \<Rightarrow> 'r \<Rightarrow> bool) \<Rightarrow> 'r list \<Rightarrow> 'r list \<Rightarrow> bool" where
  "grows P xs ys \<longleftrightarrow> length xs \<le> length ys \<and> (\<forall>i < length xs. P (xs ! i) (ys ! i))"

lemma grows_refl: "(\<And>x. P x x) \<Longrightarrow> grows P xs xs"
  by (simp add: grows_def)

lemma grows_trans:
  "(\<And>x y z. P x y \<Longrightarrow> P y z \<Longrightarrow> P x z) \<Longrightarrow> grows P xs ys \<Longrightarrow> grows P ys zs \<Longrightarrow> grows P xs zs"
  unfolding grows_def by (meson order_trans less_le_trans)

lemma grows_append: "(\<And>x. P x x) \<Longrightarrow> grows P xs (xs @ ys)"
  by (simp add: grows_def nth_append)

lemma grows_update_where:
  "(\<And>x. P x x) \<Longrightarrow> (\<And>x. Q x \<Longrightarrow> P x (f x)) \<Longrightarrow> grows P xs (update_where Q f xs)"
  by (simp add: grows_def)

lemma growsD: "grows P xs ys \<Longrightarrow> x \<in> set xs \<Longrightarrow> \<exists>y \<in> set ys. P x y"
  unfolding grows_def by (metis in_set_conv_nth less_le_trans)

section \<open>Steps of the world\<close>

text \<open>
  A relation on worlds that ignores the oracle index: what an external call may do to the world
  is what its body and the interference do.
\<close>

locale world_history = history R for R :: "world \<Rightarrow> world \<Rightarrow> bool" +
  assumes tick_free: "R w (w'\<lparr>tick := n\<rparr>) \<longleftrightarrow> R w w'"
begin

abbreviation rely :: "env \<Rightarrow> bool" where
  "rely E \<equiv> \<forall>t w. R w (interference E t w)"

lemma external_moves:
  assumes "rely E" and "\<And>t w. R w (snd (f t w))"
  shows "moves (external E f)"
proof -
  have "R w0 (snd (f t ((interference E t w0)\<lparr>tick := n\<rparr>)))" for t w0 n
  proof (rule trans)
    show "R w0 ((interference E t w0)\<lparr>tick := n\<rparr>)" using assms(1) by (simp add: tick_free)
  qed (rule assms(2))
  then show ?thesis
    using assms(1) unfolding external_def
    by (intro State_moves) (auto simp: Let_def tick_free split: fault.split)
qed

lemma query_moves: "rely E \<Longrightarrow> moves (query E f)"
  unfolding query_def by (rule external_moves) (auto simp: refl)

lemma exec_moves:
  assumes "rely E" and "\<And>now w. R w (w\<lparr>database := snd (f now (database w))\<rparr>)"
  shows "moves (exec E f)"
  unfolding exec_def using assms by (intro external_moves) (simp_all add: case_prod_unfold)

lemma exec_moves_timed:
  assumes "rely E" and "\<And>t w. R w (w\<lparr>database := snd (f (clock E t) (database w))\<rparr>)"
  shows "moves (exec E f)"
  unfolding exec_def using assms by (intro external_moves) (simp_all add: case_prod_unfold)

lemma statement_moves:
  assumes "rely E" and "\<And>t w x d. q (clock E t) (database w) = Inr (x, d) \<Longrightarrow> R w (w\<lparr>database := d\<rparr>)"
  shows "moves (exec E (statement q))"
  by (intro exec_moves_timed assms(1))
     (auto simp: statement_def refl split: sum.split intro: assms(2))

lemma redis_moves:
  assumes "rely E" and "\<And>now w. R w (w\<lparr>cache := snd (f now (cache w))\<rparr>)"
  shows "moves (redis_call E f)"
  unfolding redis_call_def using assms by (intro external_moves) (simp_all add: case_prod_unfold)

lemma fs_send_moves:
  assumes "rely E" and "\<And>w. R w (w\<lparr>fs_log := fs_log w @ [c]\<rparr>)"
  shows "moves (fs_send E c)"
  unfolding fs_send_def using assms by (intro external_moves) auto

lemma transaction_with_moves:
  assumes rely: "rely E"
    and body: "\<And>now t w x d. body now t (database w) = Inr (x, d) \<Longrightarrow> R w (w\<lparr>database := d\<rparr>)"
  shows "moves (transaction_with E b st c body)"
proof -
  have step: "R w0 ((interference E t w0)\<lparr>tick := n\<rparr>)" for t w0 n
    using rely by (simp add: tick_free)
  have "R w0 ((interference E t w0)\<lparr>tick := n, database := d\<rparr>)"
    if "body now s (database (interference E t w0)) = Inr (x, d)" for now s t w0 n x d
  proof -
    let ?w = "(interference E t w0)\<lparr>tick := n\<rparr>"
    have "R ?w (?w\<lparr>database := d\<rparr>)" by (rule body [of now s ?w x]) (use that in simp)
    with step show ?thesis by (rule trans)
  qed
  with step show ?thesis
    unfolding transaction_with_def
    by (intro moves_intros external_moves State_moves)
       (auto simp: Let_def rely refl split: fault.split sum.split)
qed

lemma transaction_moves:
  "rely E \<Longrightarrow> (\<And>now t w x d. body now t (database w) = Inr (x, d) \<Longrightarrow> R w (w\<lparr>database := d\<rparr>)) \<Longrightarrow>
   moves (transaction E name body)"
  unfolding transaction_def by (rule transaction_with_moves)

end

text \<open>Weakest preconditions of the external calls in a quiet environment: no fault, no interference.\<close>

definition quiet :: "env \<Rightarrow> bool" where
  "quiet E \<longleftrightarrow> (\<forall>t. fault_at E t = NoFault) \<and> (\<forall>t w. interference E t w = w) \<and> (\<forall>t k. \<not> stmt_fault E t k)"

lemma quietD [simp]: "quiet E \<Longrightarrow> fault_at E t = NoFault" "quiet E \<Longrightarrow> interference E t w = w" "quiet E \<Longrightarrow> \<not> stmt_fault E t k"
  by (simp_all add: quiet_def)

lemma run_external_quiet:
  "quiet E \<Longrightarrow> run_state (external E f) w = f (tick w) (w\<lparr>tick := Suc (tick w)\<rparr>)"
  by (simp add: external_def Let_def)

lemma run_query_quiet [simp]:
  "quiet E \<Longrightarrow> run_state (query E f) w = (f (database w), w\<lparr>tick := Suc (tick w)\<rparr>)"
  by (simp add: query_def run_external_quiet)

lemma run_exec_quiet [simp]:
  "quiet E \<Longrightarrow> run_state (exec E f) w =
     (case f (clock E (tick w)) (database w) of (r, d) \<Rightarrow> (r, w\<lparr>tick := Suc (tick w), database := d\<rparr>))"
  by (simp add: exec_def run_external_quiet split: prod.splits)

lemma run_redis_quiet [simp]:
  "quiet E \<Longrightarrow> run_state (redis_call E f) w =
     (case f (clock E (tick w) div 1000) (cache w) of (r, c) \<Rightarrow> (r, w\<lparr>tick := Suc (tick w), cache := c\<rparr>))"
  by (simp add: redis_call_def run_external_quiet split: prod.splits)

lemma run_fs_quiet [simp]:
  "quiet E \<Longrightarrow> run_state (fs_send E c) w = (Inr (fs_frame E (tick w)), w\<lparr>tick := Suc (tick w), fs_log := fs_log w @ [c]\<rparr>)"
  by (simp add: fs_send_def run_external_quiet)

lemma run_transaction_with_quiet [simp]:
  "quiet E \<Longrightarrow> run_state (transaction_with E b st c body) w =
     (case body (clock E (tick w)) (Suc (tick w)) (database w) of
        Inl e \<Rightarrow> (Inl e, w\<lparr>tick := tick w + 3\<rparr>)
      | Inr (x, d) \<Rightarrow> (Inr x, w\<lparr>tick := tick w + 3, database := d\<rparr>))"
  by (simp add: transaction_with_def run_external_quiet Let_def eval_nat_numeral split: sum.split prod.split)

lemma run_transaction_quiet [simp]:
  "quiet E \<Longrightarrow> run_state (transaction E name body) w =
     (case body (clock E (tick w)) (Suc (tick w)) (database w) of
        Inl e \<Rightarrow> (Inl e, w\<lparr>tick := tick w + 3\<rparr>)
      | Inr (x, d) \<Rightarrow> (Inr x, w\<lparr>tick := tick w + 3, database := d\<rparr>))"
  by (simp add: transaction_def)

text \<open>For evaluation, the steps as functions that wait for their world.\<close>

definition external_run :: "env \<Rightarrow> (nat \<Rightarrow> world \<Rightarrow> (goerr + 'a) \<times> world) \<Rightarrow> world \<Rightarrow> (goerr + 'a) \<times> world" where
  "external_run E f w0 =
     (let t = tick w0; w = (interference E t w0)\<lparr>tick := Suc t\<rparr>
      in case fault_at E t of
           NoFault \<Rightarrow> f t w
         | FailBefore \<Rightarrow> (Inl (IOError t), w)
         | FailAfter \<Rightarrow> (Inl (IOError t), snd (f t w)))"

definition query_step :: "(db \<Rightarrow> goerr + 'a) \<Rightarrow> nat \<Rightarrow> world \<Rightarrow> (goerr + 'a) \<times> world" where
  "query_step f t w = (f (database w), w)"

definition exec_step ::
  "env \<Rightarrow> (int \<Rightarrow> db \<Rightarrow> (goerr + 'a) \<times> db) \<Rightarrow> nat \<Rightarrow> world \<Rightarrow> (goerr + 'a) \<times> world" where
  "exec_step E f t w = (case f (clock E t) (database w) of (r, d) \<Rightarrow> (r, w\<lparr>database := d\<rparr>))"

definition redis_step ::
  "env \<Rightarrow> (int \<Rightarrow> redis \<Rightarrow> (goerr + 'a) \<times> redis) \<Rightarrow> nat \<Rightarrow> world \<Rightarrow> (goerr + 'a) \<times> world" where
  "redis_step E f t w = (case f (clock E t div 1000) (cache w) of (r, c) \<Rightarrow> (r, w\<lparr>cache := c\<rparr>))"

definition fs_step :: "env \<Rightarrow> string \<Rightarrow> nat \<Rightarrow> world \<Rightarrow> (goerr + frame) \<times> world" where
  "fs_step E c t w = (Inr (fs_frame E t), w\<lparr>fs_log := fs_log w @ [c]\<rparr>)"

definition clock_step :: "env \<Rightarrow> nat \<Rightarrow> world \<Rightarrow> (goerr + int) \<times> world" where
  "clock_step E t w = (Inr (clock E t), w)"

definition commit_step ::
  "env \<Rightarrow> (goerr \<Rightarrow> goerr) \<Rightarrow> (goerr \<Rightarrow> goerr) \<Rightarrow> (int \<Rightarrow> nat \<Rightarrow> db \<Rightarrow> goerr + 'a \<times> db) \<Rightarrow> int \<Rightarrow> world
     \<Rightarrow> (goerr + 'a) \<times> world" where
  "commit_step E statement_error commit_error body now w0 =
     (let t = tick w0; w = (interference E t w0)\<lparr>tick := Suc (Suc t)\<rparr>
      in case fault_at E t of
           NoFault \<Rightarrow>
             (case body now t (database w) of
                Inl e \<Rightarrow> (Inl e, w)
              | Inr (x, d) \<Rightarrow>
                  (case fault_at E (Suc t) of
                     NoFault \<Rightarrow> (Inr x, w\<lparr>database := d\<rparr>)
                   | FailBefore \<Rightarrow> (Inl (commit_error (IOError (Suc t))), w)
                   | FailAfter \<Rightarrow> (Inl (commit_error (IOError (Suc t))), w\<lparr>database := d\<rparr>)))
         | _ \<Rightarrow> (Inl (statement_error (IOError t)), w))"

lemma step_codes [code]:
  "external E f = State (external_run E f)"
  "query E q = external E (query_step q)"
  "exec E g = external E (exec_step E g)"
  "redis_call E h = external E (redis_step E h)"
  "fs_send E c = external E (fs_step E c)"
  "transaction_with E b st ce body = State_Monad.bind (external E (clock_step E)) (\<lambda>r. case r of
     Inl e \<Rightarrow> State_Monad.return (Inl (b e)) | Inr now \<Rightarrow> State (commit_step E st ce body now))"
  unfolding external_def external_run_def [abs_def] query_def query_step_def [abs_def] exec_def
    exec_step_def [abs_def] redis_call_def redis_step_def [abs_def] fs_send_def fs_step_def [abs_def]
    transaction_with_def clock_step_def [abs_def] commit_step_def [abs_def]
  by (rule HOL.refl)+

text \<open>A concrete quiet environment and the empty world, at which properties are instantiated.\<close>

definition sample_env :: env where
  "sample_env =
     \<lparr>fault_at = (\<lambda>_. NoFault), clock = (\<lambda>t. 1000000 * int t), new_uuid = (\<lambda>t. word_of_nat (20 + t)),
      ctx_done = (\<lambda>_. False), interference = (\<lambda>_ w. w), uuid_string = (\<lambda>u. replicate (unat u) (CHR ''x'')),
      uuid_parse = (\<lambda>s. if s = [] then None else Some (word_of_nat (length s))),
      fs_frame = (\<lambda>_. \<lparr>f_content_type = ''api/response'',
        f_headers = [(''Reply-Text'', ''+OK''), (''Job-UUID'', ''job'')], f_body = ''+OK''\<rparr>),
      failure_kind = (\<lambda>_. OtherFailure), error_text = (\<lambda>_. ''error''),
      sha256_hex = (\<lambda>s. take 64 (s @ replicate 64 (CHR ''0''))), hmac_hex = (\<lambda>k s. ''mac''),
      random_bytes = (\<lambda>t. ''secret''), http_reply = (\<lambda>_. (200, ''ok'', False)), row_uuid = (\<lambda>t n. word_of_nat (1000 + 10 * t + n)),
      url_parse = (\<lambda>s. Some (''https'', s, False)),
      envelope_text = (\<lambda>i ty at p. ''{}''), time_text = (\<lambda>_. ''2026''), json_object = (\<lambda>s. take 1 s = ''{''),
      json_occurred_at = (\<lambda>_. Some 1), stmt_fault = (\<lambda>_ _. False),
      md5_hex = (\<lambda>s. replicate 32 (CHR ''a'')),
      aead_seal = (\<lambda>nonce p ad. replicate (length ad) (CHR ''x'') @ CHR ''y'' # ad @ p),
      aead_open = (\<lambda>nonce c ad. if take (Suc (2 * length ad)) c = replicate (length ad) (CHR ''x'') @ CHR ''y'' # ad
        then Some (drop (Suc (2 * length ad)) c) else None),
      sip_reply = (\<lambda>_. ''SIP/2.0 200 OK'' @ [CHR 0x0D, CHR 0x0A]),
      eval_symlinks = (\<lambda>_ p. Some p), managed_bucket = ''managed'', date_path = (\<lambda>_. ''2026/01/02''),
      presigned_url = (\<lambda>_. ''https://s3''), bucket_exists = (\<lambda>_. True),
      url_split = (\<lambda>s. Some \<lparr>up_scheme = ''https'', up_host = s, up_hostname = s, up_user = False, up_path = [], up_raw_query = [],
        up_fragment = []\<rparr>), payload_size = (\<lambda>_. 512)\<rparr>"

abbreviation empty_redis :: redis where
  "empty_redis \<equiv> \<lparr>r_strings = Map.empty, r_counters = Map.empty, r_zsets = Map.empty,
     r_metric_counters = [], r_metric_gauges = []\<rparr>"

abbreviation empty_db :: db where
  "empty_db \<equiv> \<lparr>calls = [], outbox = [], trunks = [], trunk_endpoints = [], trunk_digest_credentials = [], trunk_source_ips = [],
     phone_numbers = [],
     voice_agent_bindings = [], voice_agents = [], organizations = [], network_policies = [],
     idempotency_keys = [], webhook_endpoints = [], webhook_events = [], webhook_deliveries = [],
     recordings = [], storage_integrations = [], retention_policies = []\<rparr>"

abbreviation empty_world :: world where
  "empty_world \<equiv> \<lparr>tick = 0, database = empty_db, cache = empty_redis, fs_log = [], bus = [], http_log = [], sip_log = [], staged = [], object_log = []\<rparr>"

lemma quiet_sample [simp]: "quiet sample_env"
  by (simp add: quiet_def sample_env_def)

lemma inj_sample: "inj (uuid_string sample_env)"
  by (rule injI) (simp add: sample_env_def replicate_eq_replicate word_unat_eq_iff)

end
