(* ===== verification/Outbox.thy ===== *)
theory Outbox
  imports Store
begin

text \<open>
  The transactional outbox: the queries of \<^verbatim>\<open>sqlc/outbox.sql.go\<close>, the repository and the
  publisher of \<^verbatim>\<open>internal/platform/outbox\<close>, and the publisher job with its retry back-off.
  Shown: rows are never lost and their content never changes, a row is marked published only
  after its message is on the bus, a claim hands each row to one worker, a quiet publish pass
  publishes what it claimed, and the back-off is capped exponential growth.
\<close>

section \<open>Queries\<close>

text \<open>The \<^verbatim>\<open>CHECK\<close> constraints of the table on a new row and its primary key.\<close>

definition outbox_row_ok :: "outbox_event list \<Rightarrow> outbox_event \<Rightarrow> bool" where
  "outbox_row_ok rows e \<longleftrightarrow>
     ob_subject e \<noteq> [] \<and> \<not> contains_any (ob_subject e) [CHR 0x20, CHR 0x09, CHR 0x0A, CHR 0x0B, CHR 0x0C, CHR 0x0D] \<and>
     list_ex (\<lambda>c. c \<noteq> CHR '' '') (ob_aggregate_type e) \<and>
     list_all (\<lambda>r. ob_id r \<noteq> ob_id e) rows"

definition InsertOutboxEvent ::
  "uuid \<Rightarrow> int \<Rightarrow> string \<Rightarrow> string \<Rightarrow> uuid \<Rightarrow> payload \<Rightarrow> (string \<times> string) list \<Rightarrow> int option \<Rightarrow> db
     \<Rightarrow> goerr + outbox_event \<times> db" where
  "InsertOutboxEvent i now subject aggregate_type aggregate_id pl headers available_at d =
     (let e = \<lparr>ob_id = i, ob_subject = subject, ob_aggregate_type = aggregate_type,
               ob_aggregate_id = aggregate_id, ob_payload = pl, ob_headers = headers,
               ob_available_at = (case available_at of None \<Rightarrow> now | Some a \<Rightarrow> a),
               ob_published_at = None, ob_attempts = 0, ob_last_error = None, ob_locked_at = None,
               ob_locked_by = None, ob_created_at = now, ob_updated_at = now\<rparr>
      in if outbox_row_ok (outbox d) e then Inr (e, d\<lparr>outbox := outbox d @ [e]\<rparr>)
         else Inl (ConstraintError (if outbox_row_ok [] e then ''23505'' else ''23514'')))"

definition pending :: "int \<Rightarrow> outbox_event \<Rightarrow> bool" where
  "pending now e \<longleftrightarrow> ob_published_at e = None \<and> ob_locked_at e = None \<and> ob_available_at e \<le> now"

definition claimable :: "int \<Rightarrow> int \<Rightarrow> outbox_event list \<Rightarrow> uuid list" where
  "claimable now batch_size rows =
     map ob_id (take (nat batch_size)
       (sort_key ob_available_at (sort_key ob_created_at (filter (pending now) rows))))"

definition ClaimPendingEvents :: "string \<Rightarrow> int \<Rightarrow> int \<Rightarrow> db \<Rightarrow> (goerr + outbox_event list) \<times> db" where
  "ClaimPendingEvents locked_by batch_size now d =
     (let ids = claimable now batch_size (outbox d);
          lock = (\<lambda>e. e\<lparr>ob_locked_at := Some now, ob_locked_by := Some locked_by,
                        ob_attempts := ob_attempts e + 1, ob_updated_at := now\<rparr>);
          rows = update_where (\<lambda>e. ob_id e \<in> set ids) lock (outbox d)
      in (Inr (filter (\<lambda>e. ob_id e \<in> set ids) rows), d\<lparr>outbox := rows\<rparr>))"

definition MarkEventPublished :: "uuid \<Rightarrow> int \<Rightarrow> db \<Rightarrow> (goerr + unit) \<times> db" where
  "MarkEventPublished i now d =
     (Inr (), d\<lparr>outbox := update_where (\<lambda>e. ob_id e = i \<and> ob_published_at e = None)
        (\<lambda>e. e\<lparr>ob_published_at := Some now, ob_locked_at := None, ob_locked_by := None,
                ob_last_error := None, ob_updated_at := now\<rparr>) (outbox d)\<rparr>)"

definition MarkEventFailed :: "string \<Rightarrow> int \<Rightarrow> uuid \<Rightarrow> int \<Rightarrow> db \<Rightarrow> (goerr + unit) \<times> db" where
  "MarkEventFailed last_error retry_delay_seconds i now d =
     (Inr (), d\<lparr>outbox := update_where (\<lambda>e. ob_id e = i \<and> ob_published_at e = None)
        (\<lambda>e. e\<lparr>ob_locked_at := None, ob_locked_by := None, ob_last_error := Some last_error,
                ob_available_at := now + retry_delay_seconds * 1000000, ob_updated_at := now\<rparr>) (outbox d)\<rparr>)"

definition ReleaseStaleLocks :: "int \<Rightarrow> int \<Rightarrow> db \<Rightarrow> (goerr + unit) \<times> db" where
  "ReleaseStaleLocks lock_timeout_seconds now d =
     (Inr (), d\<lparr>outbox := update_where
        (\<lambda>e. ob_published_at e = None \<and>
             (case ob_locked_at e of None \<Rightarrow> False
              | Some l \<Rightarrow> l < now - lock_timeout_seconds * 1000000))
        (\<lambda>e. e\<lparr>ob_locked_at := None, ob_locked_by := None, ob_updated_at := now\<rparr>) (outbox d)\<rparr>)"

section \<open>Publisher\<close>

definition EventsSubjectPrefix :: string where
  "EventsSubjectPrefix = ''leamout.event.''"

definition eventSubject :: "string \<Rightarrow> goerr + string" where
  "eventSubject raw =
     (let subject = trim_space raw
      in if subject = [] then Inl (ErrorString ''outbox event subject is required'')
         else if contains_any subject [CHR '' '', CHR 0x09, CHR 0x0D, CHR 0x0A, CHR ''*'', CHR ''>'']
              then Inl (ErrorString ''invalid outbox event subject'')
         else if take (length EventsSubjectPrefix) subject = EventsSubjectPrefix then Inr subject
         else Inr (EventsSubjectPrefix @ subject))"

definition set_header :: "string \<Rightarrow> string \<Rightarrow> (string \<times> string) list \<Rightarrow> (string \<times> string) list" where
  "set_header k v hs = AList.update k v hs"

text \<open>
  \<^verbatim>\<open>Publisher.Publish\<close> followed by the client's \<^verbatim>\<open>PublishWithOptions\<close>: the message reaches the
  bus or an error comes back (or both).
\<close>

definition MaxMessageSize :: int where
  "MaxMessageSize = 64 * 1024"

definition bus_publish :: "env \<Rightarrow> message \<Rightarrow> (world, goerr + unit) state" where
  "bus_publish E m =
     (if payload_size E (m_payload m) > MaxMessageSize
      then State_Monad.return (Inl (ErrorString ''NATS message payload exceeds the maximum''))
      else external E (\<lambda>t w. (Inr (), w\<lparr>bus := bus w @ [m]\<rparr>)))"

text \<open>The headers column holds the map of strings that the insert marshalled, so decoding it cannot fail here.\<close>

definition Publish :: "env \<Rightarrow> outbox_event \<Rightarrow> (world, goerr + unit) state" where
  "Publish E e =
     (case eventSubject (ob_subject e) of
        Inl err \<Rightarrow> State_Monad.return (Inl err)
      | Inr subject \<Rightarrow>
          let headers =
                set_header ''X-Leamout-Aggregate-ID'' (uuid_string E (ob_aggregate_id e))
                  (set_header ''X-Leamout-Aggregate-Type'' (ob_aggregate_type e)
                    (set_header ''X-Leamout-Event-ID'' (uuid_string E (ob_id e)) (ob_headers e)))
          in do {
            r \<leftarrow> bus_publish E \<lparr>m_subject = subject, m_payload = ob_payload e, m_headers = headers,
                                 m_id = uuid_string E (ob_id e)\<rparr>;
            case r of
              Inl err \<Rightarrow> State_Monad.return (Inl (Wrap ''publish outbox event'' err))
            | Inr _ \<Rightarrow> State_Monad.return (Inr ())
          })"

section \<open>The publisher job\<close>

record publisher_config =
  WorkerID :: string
  BatchSize :: int
  PollInterval :: int
  LockTimeout :: int
  StaleLockInterval :: int
  RetryBaseDelay :: int
  RetryMaxDelay :: int

definition DefaultPublisherJobConfig :: "string \<Rightarrow> publisher_config" where
  "DefaultPublisherJobConfig worker =
     \<lparr>WorkerID = worker, BatchSize = 100, PollInterval = 500 * millisecond,
      LockTimeout = 60 * second, StaleLockInterval = 30 * second,
      RetryBaseDelay = 2 * second, RetryMaxDelay = 300 * second\<rparr>"

text \<open>\<^verbatim>\<open>NewPublisherJob\<close>: the two dependencies are present or \<^verbatim>\<open>nil\<close>; the configuration is defaulted.\<close>

definition default_if :: "bool \<Rightarrow> int \<Rightarrow> int \<Rightarrow> int" where
  "default_if missing v dflt = (if missing then dflt else v)"

definition NewPublisherJob :: "bool \<Rightarrow> bool \<Rightarrow> publisher_config \<Rightarrow> goerr + publisher_config" where
  "NewPublisherJob has_repo has_publisher c =
     (if \<not> has_repo then Inl (ErrorString ''outbox repository is required'')
      else if \<not> has_publisher then Inl (ErrorString ''outbox publisher is required'')
      else if WorkerID c = [] then Inl (ErrorString ''outbox publisher worker id is required'')
      else
        let base = default_if (RetryBaseDelay c \<le> 0) (RetryBaseDelay c) (2 * second)
        in Inr \<lparr>WorkerID = WorkerID c,
             BatchSize = default_if (BatchSize c \<le> 0) (BatchSize c) 100,
             PollInterval = default_if (PollInterval c \<le> 0) (PollInterval c) (500 * millisecond),
             LockTimeout = default_if (LockTimeout c \<le> 0) (LockTimeout c) (60 * second),
             StaleLockInterval = default_if (StaleLockInterval c \<le> 0) (StaleLockInterval c) (30 * second),
             RetryBaseDelay = base,
             RetryMaxDelay = default_if (RetryMaxDelay c < base) (RetryMaxDelay c) (300 * second)\<rparr>)"

function retry_loop :: "int \<Rightarrow> int \<Rightarrow> int \<Rightarrow> int \<Rightarrow> int" where
  "retry_loop mx attempt i delay =
     (if i < attempt \<and> delay < mx
      then let delay' = wrap64 (delay * 2)
           in if delay' \<ge> mx then mx else retry_loop mx attempt (i + 1) delay'
      else if delay > mx then mx else delay)"
  by pat_completeness auto
termination
  by (relation "measure (\<lambda>(mx, attempt, i, delay). nat (attempt - i))") auto

declare retry_loop.simps [simp del]

definition retryDelay :: "publisher_config \<Rightarrow> int \<Rightarrow> int" where
  "retryDelay c attempt = retry_loop (RetryMaxDelay c) attempt 1 (RetryBaseDelay c)"

definition durationSeconds :: "int \<Rightarrow> int" where
  "durationSeconds v =
     (let seconds = go_div v second
      in if seconds < 1 then 1 else if seconds > 2 ^ 31 - 1 then 2 ^ 31 - 1 else seconds)"

fun publish_events :: "env \<Rightarrow> publisher_config \<Rightarrow> outbox_event list \<Rightarrow> (world, goerr + unit) state" where
  "publish_events E c [] = State_Monad.return (Inr ())"
| "publish_events E c (e # es) = do {
     r \<leftarrow> Publish E e;
     case r of
       Inl err \<Rightarrow> do {
         m \<leftarrow> exec E (MarkEventFailed (error_text E err) (durationSeconds (retryDelay c (ob_attempts e))) (ob_id e));
         case m of
           Inl merr \<Rightarrow> State_Monad.return (Inl (Wrap ''mark outbox event failed after publish error'' merr))
         | Inr _ \<Rightarrow> publish_events E c es
       }
     | Inr _ \<Rightarrow> do {
         m \<leftarrow> exec E (MarkEventPublished (ob_id e));
         case m of
           Inl merr \<Rightarrow> State_Monad.return (Inl (Wrap ''mark outbox event published'' merr))
         | Inr _ \<Rightarrow> publish_events E c es
       }
   }"

definition publishBatch :: "env \<Rightarrow> publisher_config \<Rightarrow> (world, goerr + unit) state" where
  "publishBatch E c = do {
     r \<leftarrow> exec E (ClaimPendingEvents (WorkerID c) (BatchSize c));
     case r of
       Inl err \<Rightarrow> State_Monad.return (Inl (Wrap ''claim pending outbox events'' err))
     | Inr events \<Rightarrow> publish_events E c events
   }"

definition releaseStaleLocks :: "env \<Rightarrow> publisher_config \<Rightarrow> (world, goerr + unit) state" where
  "releaseStaleLocks E c = do {
     r \<leftarrow> exec E (ReleaseStaleLocks (durationSeconds (LockTimeout c)));
     case r of
       Inl err \<Rightarrow> State_Monad.return (Inl (Wrap ''release stale outbox locks'' err))
     | Inr _ \<Rightarrow> State_Monad.return (Inr ())
   }"

text \<open>
  \<^verbatim>\<open>Run\<close>: the select statement wakes up on the context, on the poll ticker or on the stale ticker; the
  argument lists the wake-ups in their order. The result says whether the loop has returned.
\<close>

datatype wake = CtxDone | PollTick | StaleTick

fun publisher_loop :: "env \<Rightarrow> publisher_config \<Rightarrow> wake list \<Rightarrow> (world, goerr + bool) state" where
  "publisher_loop E c wakes = do {
     r \<leftarrow> publishBatch E c;
     case r of
       Inl err \<Rightarrow> State_Monad.return (Inl err)
     | Inr _ \<Rightarrow>
         (case wakes of
            [] \<Rightarrow> State_Monad.return (Inr False)
          | CtxDone # _ \<Rightarrow> State_Monad.return (Inr True)
          | PollTick # ws \<Rightarrow> publisher_loop E c ws
          | StaleTick # ws \<Rightarrow> do {
              x \<leftarrow> releaseStaleLocks E c;
              case x of
                Inl err \<Rightarrow> State_Monad.return (Inl err)
              | Inr _ \<Rightarrow> publisher_loop E c ws
            })
   }"

declare publisher_loop.simps [simp del]

definition publisher_Run :: "env \<Rightarrow> publisher_config \<Rightarrow> wake list \<Rightarrow> (world, goerr + bool) state" where
  "publisher_Run E c wakes = do {
     r \<leftarrow> releaseStaleLocks E c;
     case r of
       Inl err \<Rightarrow> State_Monad.return (Inl err)
     | Inr _ \<Rightarrow> publisher_loop E c wakes
   }"

section \<open>The retry back-off\<close>

lemma retry_loop_closed_form:
  "0 < delay \<Longrightarrow> mx \<le> 2 ^ 62 \<Longrightarrow>
   retry_loop mx attempt i delay = min mx (delay * 2 ^ nat (attempt - i))"
proof (induction mx attempt i delay rule: retry_loop.induct)
  case (1 mx attempt i delay)
  show ?case
  proof (cases "i < attempt \<and> delay < mx")
    case True
    then have w: "wrap64 (delay * 2) = delay * 2"
      using 1 by (intro wrap64_id) auto
    have n: "nat (attempt - i) = Suc (nat (attempt - (i + 1)))"
      using True by auto
    show ?thesis
    proof (cases "delay * 2 \<ge> mx")
      case big: True
      have "delay * 2 * 1 \<le> delay * 2 * 2 ^ nat (attempt - (i + 1))"
        using "1.prems"(1) by (intro mult_left_mono) auto
      with big n have "mx \<le> delay * 2 ^ nat (attempt - i)" by simp
      with big True w show ?thesis
        by (simp add: retry_loop.simps [of mx attempt i delay] Let_def min_absorb1)
    next
      case False
      with True w 1 n show ?thesis
        by (simp add: retry_loop.simps [of mx attempt i delay] Let_def ac_simps)
    qed
  next
    case False
    have "delay * 1 \<le> delay * 2 ^ nat (attempt - i)"
      using "1.prems"(1) by (intro mult_left_mono) auto
    with False show ?thesis
      by (auto simp: retry_loop.simps [of mx attempt i delay])
  qed
qed

lemma NewPublisherJob_config:
  "NewPublisherJob r p c = Inr c' \<Longrightarrow>
   0 < BatchSize c' \<and> 0 < LockTimeout c' \<and> 0 < RetryBaseDelay c' \<and> 0 < RetryMaxDelay c'"
  by (auto simp: NewPublisherJob_def default_if_def Let_def split: if_splits)

lemma durationSeconds_bounds: "1 \<le> durationSeconds v \<and> durationSeconds v \<le> 2 ^ 31 - 1"
  by (simp add: durationSeconds_def Let_def)

section \<open>Rows are never lost\<close>

definition outbox_row_evolves :: "outbox_event \<Rightarrow> outbox_event \<Rightarrow> bool" where
  "outbox_row_evolves e e' \<longleftrightarrow>
     ob_id e' = ob_id e \<and> ob_subject e' = ob_subject e \<and> ob_aggregate_type e' = ob_aggregate_type e \<and>
     ob_aggregate_id e' = ob_aggregate_id e \<and> ob_payload e' = ob_payload e \<and>
     ob_headers e' = ob_headers e \<and> ob_created_at e' = ob_created_at e \<and>
     (ob_published_at e \<noteq> None \<longrightarrow> ob_published_at e' = ob_published_at e) \<and>
     ob_attempts e \<le> ob_attempts e'"

definition outbox_evolves :: "world \<Rightarrow> world \<Rightarrow> bool" where
  "outbox_evolves w w' \<longleftrightarrow> grows outbox_row_evolves (outbox (database w)) (outbox (database w'))"

lemma outbox_row_evolves_refl: "outbox_row_evolves e e"
  by (simp add: outbox_row_evolves_def)

lemma outbox_row_evolves_trans:
  "outbox_row_evolves a b \<Longrightarrow> outbox_row_evolves b c \<Longrightarrow> outbox_row_evolves a c"
  by (auto simp: outbox_row_evolves_def)

interpretation outbox_history: world_history outbox_evolves
  by unfold_locales
     (auto simp: outbox_evolves_def intro: grows_refl grows_trans outbox_row_evolves_refl
       outbox_row_evolves_trans)

lemma outbox_evolvesI:
  "grows outbox_row_evolves (outbox (database w)) (outbox d) \<Longrightarrow> outbox_evolves w (w\<lparr>database := d\<rparr>)"
  by (simp add: outbox_evolves_def)

lemma outbox_queries_grow:
  "grows outbox_row_evolves (outbox d) (outbox (snd (ClaimPendingEvents l b now d)))"
  "grows outbox_row_evolves (outbox d) (outbox (snd (MarkEventPublished i now d)))"
  "grows outbox_row_evolves (outbox d) (outbox (snd (MarkEventFailed er s i now d)))"
  "grows outbox_row_evolves (outbox d) (outbox (snd (ReleaseStaleLocks s now d)))"
  by (auto simp: ClaimPendingEvents_def MarkEventPublished_def MarkEventFailed_def
        ReleaseStaleLocks_def Let_def outbox_row_evolves_def intro!: grows_update_where)

lemma InsertOutboxEvent_appends:
  assumes "InsertOutboxEvent i now sub aty aid pl hs av d = Inr (e, d')"
  shows "d' = d\<lparr>outbox := outbox d @ [e]\<rparr>" "ob_id e = i" "ob_subject e = sub"
    "ob_aggregate_id e = aid" "ob_payload e = pl" "ob_published_at e = None" "ob_locked_at e = None"
    "i \<notin> ob_id ` set (outbox d)"
  using assms
  by (auto simp: InsertOutboxEvent_def Let_def outbox_row_ok_def list_all_iff split: if_splits)

lemma Publish_keeps_outbox:
  assumes "outbox_history.rely E"
  shows "outbox_history.moves (Publish E e)"
  unfolding Publish_def bus_publish_def Let_def using assms
  by (intro outbox_history.moves_intros outbox_history.external_moves)
     (auto simp: outbox_evolves_def intro: grows_refl outbox_row_evolves_refl split: sum.splits)

lemma publish_events_keeps_outbox:
  assumes "outbox_history.rely E"
  shows "outbox_history.moves (publish_events E c es)"
  by (induction es)
     (auto intro!: outbox_history.moves_intros outbox_history.exec_moves Publish_keeps_outbox
       outbox_evolvesI outbox_queries_grow simp: assms)

lemma publishBatch_keeps_outbox:
  assumes "outbox_history.rely E"
  shows "outbox_history.moves (publishBatch E c)"
  unfolding publishBatch_def
  by (auto intro!: outbox_history.moves_intros outbox_history.exec_moves publish_events_keeps_outbox
       outbox_evolvesI outbox_queries_grow simp: assms)

lemma releaseStaleLocks_keeps_outbox:
  assumes "outbox_history.rely E"
  shows "outbox_history.moves (releaseStaleLocks E c)"
  unfolding releaseStaleLocks_def
  by (auto intro!: outbox_history.moves_intros outbox_history.exec_moves
       outbox_evolvesI outbox_queries_grow simp: assms)


section \<open>Published means on the bus\<close>

definition on_bus :: "env \<Rightarrow> uuid \<Rightarrow> world \<Rightarrow> bool" where
  "on_bus E i w \<longleftrightarrow> (\<exists>m \<in> set (bus w). m_id m = uuid_string E i)"

definition published_on_bus :: "env \<Rightarrow> world \<Rightarrow> bool" where
  "published_on_bus E w \<longleftrightarrow>
     (\<forall>e \<in> set (outbox (database w)). ob_published_at e \<noteq> None \<longrightarrow> on_bus E (ob_id e) w)"

definition bus_evolves :: "env \<Rightarrow> world \<Rightarrow> world \<Rightarrow> bool" where
  "bus_evolves E w w' \<longleftrightarrow>
     set (bus w) \<subseteq> set (bus w') \<and> (published_on_bus E w \<longrightarrow> published_on_bus E w')"

interpretation bus_history: world_history "bus_evolves E" for E
  by unfold_locales (auto simp: bus_evolves_def published_on_bus_def on_bus_def)

lemma bus_evolves_database:
  "(\<And>e. e \<in> set (outbox d) \<Longrightarrow> ob_published_at e \<noteq> None \<Longrightarrow>
      on_bus E (ob_id e) w \<or> (\<exists>e' \<in> set (outbox (database w)). ob_id e' = ob_id e \<and> ob_published_at e' \<noteq> None))
   \<Longrightarrow> bus_evolves E w (w\<lparr>database := d\<rparr>)"
  unfolding bus_evolves_def published_on_bus_def on_bus_def by fastforce

lemma Publish_result:
  assumes "bus_history.rely E E" and "run_state (Publish E e) w = (r, w')"
  shows "bus_evolves E w w' \<and> (r = Inr () \<longrightarrow> on_bus E (ob_id e) w')"
proof -
  have "bus_evolves E w (w\<lparr>bus := bus w @ [m]\<rparr>)" for w m
    by (auto simp: bus_evolves_def published_on_bus_def on_bus_def)
  then have "bus_history.moves E (Publish E e)"
    unfolding Publish_def bus_publish_def Let_def using assms(1)
    by (intro bus_history.moves_intros bus_history.external_moves) (auto split: sum.splits)
  moreover have "r = Inr () \<longrightarrow> on_bus E (ob_id e) w'"
    using assms(2)
    by (auto simp: Publish_def bus_publish_def external_def Let_def on_bus_def
        split: sum.splits fault.splits prod.splits if_splits)
  ultimately show ?thesis using assms(2) by (auto dest: state_io_relD)
qed

lemma mark_published_moves:
  assumes "bus_history.rely E E" and "on_bus E i w"
  shows "bus_evolves E w (snd (run_state (exec E (MarkEventPublished i)) w))"
proof -
  let ?w = "\<lambda>n. (interference E (tick w) w)\<lparr>tick := n\<rparr>"
  have w: "bus_evolves E w (?w n)" for n
    using assms(1) by (simp add: bus_history.tick_free)
  have mark: "bus_evolves E w (?w n\<lparr>database := snd (MarkEventPublished i now (database (?w n)))\<rparr>)" for n now
  proof (rule bus_history.trans [OF w])
    have "on_bus E i (?w n)" using w assms(2) by (auto simp: bus_evolves_def on_bus_def)
    then show "bus_evolves E (?w n) (?w n\<lparr>database := snd (MarkEventPublished i now (database (?w n)))\<rparr>)"
      by (intro bus_evolves_database)
         (auto simp: MarkEventPublished_def set_update_where split: if_splits)
  qed
  show ?thesis
    using w mark by (simp add: exec_def external_def Let_def case_prod_unfold split: fault.split)
qed

lemma other_marks_move:
  "bus_evolves E w (w\<lparr>database := snd (MarkEventFailed er s i now (database w))\<rparr>)"
  "bus_evolves E w (w\<lparr>database := snd (ClaimPendingEvents l b now (database w))\<rparr>)"
  "bus_evolves E w (w\<lparr>database := snd (ReleaseStaleLocks s now (database w))\<rparr>)"
  by (intro bus_evolves_database;
      auto simp: MarkEventFailed_def ClaimPendingEvents_def ReleaseStaleLocks_def Let_def
        set_update_where split: if_splits)+

lemma publish_events_published_on_bus:
  assumes rely: "bus_history.rely E E"
  shows "bus_history.moves E (publish_events E c es)"
proof (induction es)
  case Nil
  show ?case by (simp add: bus_history.return_moves)
next
  case (Cons e es)
  let ?fail = "\<lambda>err. exec E (MarkEventFailed (error_text E err)
      (durationSeconds (retryDelay c (ob_attempts e))) (ob_id e))"
  have cont: "bus_history.moves E (case m of Inl merr \<Rightarrow> State_Monad.return (Inl (Wrap x merr))
      | Inr _ \<Rightarrow> publish_events E c es)" for m :: "goerr + unit" and x
    by (intro bus_history.moves_intros Cons.IH)
  have fail: "bus_history.moves E (?fail err)" for err
    using rely other_marks_move by (intro bus_history.exec_moves) auto
  have "bus_evolves E s (snd (run_state (publish_events E c (e # es)) s))" for s
    unfolding publish_events.simps
  proof (rule bus_history.bind_moves_from, rule conjI)
    fix r s1
    assume "run_state (Publish E e) s = (r, s1)"
    note P = Publish_result [OF rely this]
    then show "bus_evolves E s s1" by blast
    show "bus_evolves E s1 (snd (run_state (case r of
         Inl err \<Rightarrow> ?fail err \<bind> (\<lambda>m. case m of
             Inl merr \<Rightarrow> State_Monad.return (Inl (Wrap ''mark outbox event failed after publish error'' merr))
           | Inr _ \<Rightarrow> publish_events E c es)
       | Inr _ \<Rightarrow> exec E (MarkEventPublished (ob_id e)) \<bind> (\<lambda>m. case m of
             Inl merr \<Rightarrow> State_Monad.return (Inl (Wrap ''mark outbox event published'' merr))
           | Inr _ \<Rightarrow> publish_events E c es)) s1))"
    proof (cases r)
      case (Inl err)
      have "bus_history.moves E (?fail err \<bind> (\<lambda>m. case m of
          Inl merr \<Rightarrow> State_Monad.return (Inl (Wrap ''mark outbox event failed after publish error'' merr))
        | Inr _ \<Rightarrow> publish_events E c es))"
        by (intro bus_history.bind_moves fail cont)
      with Inl show ?thesis by (simp only: sum.case bus_history.movesD)
    next
      case (Inr u)
      with P have "bus_evolves E s1 (snd (run_state (exec E (MarkEventPublished (ob_id e))) s1))"
        by (intro mark_published_moves rely) simp
      with Inr show ?thesis
        by (simp only: sum.case) (rule bus_history.bind_moves_from, simp add: bus_history.movesD cont)
    qed
  qed
  then show ?case by (simp add: state_io_rel_def)
qed

lemma publishBatch_published_on_bus:
  assumes "bus_history.rely E E"
  shows "bus_history.moves E (publishBatch E c)"
  unfolding publishBatch_def
  by (intro bus_history.bind_moves bus_history.case_sum_moves bus_history.return_moves
       bus_history.exec_moves publish_events_published_on_bus assms other_marks_move)

lemma releaseStaleLocks_published_on_bus:
  assumes "bus_history.rely E E"
  shows "bus_history.moves E (releaseStaleLocks E c)"
  unfolding releaseStaleLocks_def
  by (intro bus_history.bind_moves bus_history.case_sum_moves bus_history.return_moves
       bus_history.exec_moves assms other_marks_move)

text \<open>The job moves along every relation that its two operations move along.\<close>

context world_history
begin

lemma publisher_loop_moves:
  assumes "moves (publishBatch E c)" and "moves (releaseStaleLocks E c)"
  shows "moves (publisher_loop E c wakes)"
proof (induction wakes)
  case Nil
  show ?case by (subst publisher_loop.simps) (auto intro!: moves_intros assms)
next
  case (Cons a ws)
  show ?case
    by (subst publisher_loop.simps, cases a) (auto intro!: moves_intros assms Cons.IH)
qed

lemma publisher_Run_moves:
  assumes "moves (publishBatch E c)" and "moves (releaseStaleLocks E c)"
  shows "moves (publisher_Run E c wakes)"
  unfolding publisher_Run_def by (intro moves_intros publisher_loop_moves assms)

end

section \<open>Claims\<close>

lemma claimable_subset: "set (claimable now b rows) \<subseteq> ob_id ` {e \<in> set rows. pending now e}"
proof
  fix i assume "i \<in> set (claimable now b rows)"
  then obtain e where "i = ob_id e" and
    "e \<in> set (sort_key ob_available_at (sort_key ob_created_at (filter (pending now) rows)))"
    unfolding claimable_def by (metis image_iff in_set_takeD list.set_map)
  then show "i \<in> ob_id ` {e \<in> set rows. pending now e}" by simp
qed

lemma claimed_ids:
  assumes "ClaimPendingEvents l b now d = (Inr es, d')"
  shows "ob_id ` set es \<subseteq> set (claimable now b (outbox d))"
  using assms unfolding ClaimPendingEvents_def Let_def by fastforce

lemma claim_locks:
  assumes "ClaimPendingEvents l b now d = (Inr es, d')" and "e \<in> set (outbox d')"
    and "ob_id e \<in> set (claimable now b (outbox d))"
  shows "ob_locked_at e = Some now"
proof -
  have "d' = snd (ClaimPendingEvents l b now d)" using assms(1) by simp
  then have "outbox d' = update_where (\<lambda>e. ob_id e \<in> set (claimable now b (outbox d)))
     (\<lambda>e. e\<lparr>ob_locked_at := Some now, ob_locked_by := Some l, ob_attempts := ob_attempts e + 1,
             ob_updated_at := now\<rparr>) (outbox d)"
    by (simp add: ClaimPendingEvents_def Let_def)
  with assms(2) have "e \<in> set (update_where (\<lambda>e. ob_id e \<in> set (claimable now b (outbox d)))
     (\<lambda>e. e\<lparr>ob_locked_at := Some now, ob_locked_by := Some l, ob_attempts := ob_attempts e + 1,
             ob_updated_at := now\<rparr>) (outbox d))"
    by (simp only:)
  then show ?thesis
    by (rule in_update_whereE) (use assms(3) in simp_all)
qed

lemma claim_bounded:
  assumes "distinct (map ob_id (outbox d))" and "ClaimPendingEvents l b now d = (Inr es, d')" and "0 \<le> b"
  shows "int (length es) \<le> b"
proof -
  let ?rows = "update_where (\<lambda>e. ob_id e \<in> set (claimable now b (outbox d)))
     (\<lambda>e. e\<lparr>ob_locked_at := Some now, ob_locked_by := Some l, ob_attempts := ob_attempts e + 1,
             ob_updated_at := now\<rparr>) (outbox d)"
  have "Inr es = fst (ClaimPendingEvents l b now d)" using assms(2) by simp
  then have es: "es = filter (\<lambda>e. ob_id e \<in> set (claimable now b (outbox d))) ?rows"
    by (simp add: ClaimPendingEvents_def Let_def)
  have "map ob_id ?rows = map ob_id (outbox d)" by (rule map_update_where) simp
  with assms(1) have "distinct (map ob_id ?rows)" by (simp only:)
  then have d: "distinct (map ob_id es)" unfolding es by (rule distinct_map_filter)
  have "card (ob_id ` set es) \<le> card (set (claimable now b (outbox d)))"
    by (intro card_mono claimed_ids [OF assms(2)]) simp
  also have "\<dots> \<le> length (claimable now b (outbox d))" by (rule card_length)
  also have "\<dots> \<le> nat b" by (simp add: claimable_def)
  finally have "card (set (map ob_id es)) \<le> nat b" by simp
  with d have "length es \<le> nat b" by (simp only: distinct_card length_map)
  with assms(3) show ?thesis by linarith
qed

section \<open>A quiet pass\<close>

lemma run_Publish_quiet:
  assumes "quiet E" and "eventSubject (ob_subject e) = Inr s" and "payload_size E (ob_payload e) \<le> MaxMessageSize"
  shows "\<exists>m. run_state (Publish E e) w = (Inr (), w\<lparr>tick := Suc (tick w), bus := bus w @ [m]\<rparr>)"
  using assms by (simp add: Publish_def Let_def bus_publish_def run_external_quiet) (rule exI, rule refl)

lemma MarkEventPublished_marks:
  assumes "e \<in> set (outbox d)" and "ob_id e = i"
  shows "\<exists>e' \<in> set (outbox (snd (MarkEventPublished i now d))).
    outbox_row_evolves e e' \<and> ob_published_at e' \<noteq> None"
proof (cases "ob_published_at e")
  case None
  let ?f = "\<lambda>e. e\<lparr>ob_published_at := Some now, ob_locked_at := None, ob_locked_by := None,
                ob_last_error := None, ob_updated_at := now\<rparr>"
  have "?f e \<in> set (outbox (snd (MarkEventPublished i now d)))"
    using assms None by (auto simp: MarkEventPublished_def set_update_where intro!: image_eqI [of _ _ e])
  then show ?thesis by (rule rev_bexI) (simp add: outbox_row_evolves_def None)
next
  case (Some a)
  have "e \<in> set (outbox (snd (MarkEventPublished i now d)))"
    using assms Some by (auto simp: MarkEventPublished_def set_update_where intro!: image_eqI [of _ _ e])
  with Some outbox_row_evolves_refl show ?thesis by blast
qed

lemma quiet_rely [simp]:
  "quiet E \<Longrightarrow> outbox_history.rely E" "quiet E \<Longrightarrow> bus_history.rely E E"
  by (simp_all add: outbox_history.refl bus_history.refl)

lemma publish_events_quiet:
  assumes "quiet E"
    and "\<forall>e \<in> set es. (\<exists>s. eventSubject (ob_subject e) = Inr s) \<and> payload_size E (ob_payload e) \<le> MaxMessageSize"
  shows "fst (run_state (publish_events E c es) w) = Inr () \<and>
    (\<forall>e \<in> set es. \<forall>row \<in> set (outbox (database w)). ob_id row = ob_id e \<longrightarrow>
       (\<exists>row' \<in> set (outbox (database (snd (run_state (publish_events E c es) w)))).
          outbox_row_evolves row row' \<and> ob_published_at row' \<noteq> None))"
  using assms(2)
proof (induction es arbitrary: w)
  case (Cons e es)
  then obtain s where "eventSubject (ob_subject e) = Inr s" "payload_size E (ob_payload e) \<le> MaxMessageSize" by auto
  from run_Publish_quiet [OF assms(1) this, of w] obtain m
    where m: "run_state (Publish E e) w = (Inr (), w\<lparr>tick := Suc (tick w), bus := bus w @ [m]\<rparr>)" by blast
  define w1 where "w1 = w\<lparr>tick := Suc (Suc (tick w)), bus := bus w @ [m],
     database := snd (MarkEventPublished (ob_id e) (clock E (Suc (tick w))) (database w))\<rparr>"
  have run: "run_state (publish_events E c (e # es)) w = run_state (publish_events E c es) w1"
    using m assms(1) by (cases w) (simp add: w1_def MarkEventPublished_def)
  let ?w2 = "snd (run_state (publish_events E c es) w1)"
  have keep: "grows outbox_row_evolves (outbox (database w1)) (outbox (database ?w2))"
    using outbox_history.movesD [OF publish_events_keeps_outbox [OF quiet_rely(1) [OF assms(1)]]]
    by (simp only: outbox_evolves_def)
  have first: "\<exists>row' \<in> set (outbox (database ?w2)). outbox_row_evolves row row' \<and> ob_published_at row' \<noteq> None"
    if "row \<in> set (outbox (database w))" "ob_id row = ob_id e" for row
  proof -
    from MarkEventPublished_marks [OF that, of "clock E (Suc (tick w))"] obtain r1 where
      r1: "r1 \<in> set (outbox (database w1))" "outbox_row_evolves row r1" "ob_published_at r1 \<noteq> None"
      by (auto simp: w1_def)
    from growsD [OF keep r1(1)] obtain r2 where
      "r2 \<in> set (outbox (database ?w2))" "outbox_row_evolves r1 r2" by blast
    moreover from this(2) r1(3) have "ob_published_at r2 \<noteq> None" by (simp add: outbox_row_evolves_def)
    ultimately show ?thesis using r1(2) outbox_row_evolves_trans by blast
  qed
  have rest: "\<exists>row' \<in> set (outbox (database ?w2)). outbox_row_evolves row row' \<and> ob_published_at row' \<noteq> None"
    if "e' \<in> set es" "row \<in> set (outbox (database w))" "ob_id row = ob_id e'" for e' row
  proof -
    have "grows outbox_row_evolves (outbox (database w)) (outbox (database w1))"
      by (simp add: w1_def outbox_queries_grow)
    from growsD [OF this that(2)] obtain r1 where
      r1: "r1 \<in> set (outbox (database w1))" "outbox_row_evolves row r1" by blast
    then have "ob_id r1 = ob_id e'" using that(3) by (simp add: outbox_row_evolves_def)
    with Cons.IH [of w1] Cons.prems that(1) r1(1) obtain r2 where
      "r2 \<in> set (outbox (database ?w2))" "outbox_row_evolves r1 r2" "ob_published_at r2 \<noteq> None"
      by (metis list.set_intros(2))
    with r1(2) outbox_row_evolves_trans show ?thesis by blast
  qed
  have "fst (run_state (publish_events E c es) w1) = Inr ()" using Cons by simp
  with first rest show ?case unfolding run by auto
qed simp

section \<open>Properties\<close>

text \<open>
  C36: Whatever the environment does (faults, lost acknowledgements, other workers that keep to the same
  discipline) and however the tickers fire, the publisher job loses no outbox row, changes no row's
  content, and never unmarks a published one.
\<close>

theorem outbox_rows_never_lost:
  assumes "\<forall>t w. outbox_evolves w (interference E t w)"
  shows "outbox_evolves w (snd (run_state (publisher_Run E c wakes) w))"
  by (intro outbox_history.movesD outbox_history.publisher_Run_moves publishBatch_keeps_outbox
      releaseStaleLocks_keeps_outbox assms)

definition sample_event :: "uuid \<Rightarrow> outbox_event" where
  "sample_event i =
     \<lparr>ob_id = i, ob_subject = ''call.initiated'', ob_aggregate_type = ''call'', ob_aggregate_id = 3,
      ob_payload = RawPayload ''{}'', ob_headers = [], ob_available_at = 0, ob_published_at = None,
      ob_attempts = 0, ob_last_error = None, ob_locked_at = None, ob_locked_by = None, ob_created_at = 0,
      ob_updated_at = 0\<rparr>"

abbreviation event_world :: world where
  "event_world \<equiv> empty_world\<lparr>database := empty_db\<lparr>outbox := [sample_event 1, sample_event 2]\<rparr>\<rparr>"

theorem outbox_rows_never_lost_witness:
  "outbox_evolves event_world (snd (run_state
     (publisher_Run sample_env (DefaultPublisherJobConfig ''w'') [StaleTick, PollTick, CtxDone]) event_world))"
  by (rule outbox_rows_never_lost) (simp add: sample_env_def outbox_history.refl)

text \<open>
  C6: In every reachable state a row marked published has its message on the bus: the mark is set
  only after the broker took the message, whatever fails in between (at-least-once delivery).
\<close>

theorem published_only_after_bus:
  assumes "\<forall>t w. bus_evolves E w (interference E t w)" and "published_on_bus E w"
  shows "published_on_bus E (snd (run_state (publisher_Run E c wakes) w))"
proof -
  have "bus_evolves E w (snd (run_state (publisher_Run E c wakes) w))"
    by (intro bus_history.movesD bus_history.publisher_Run_moves publishBatch_published_on_bus
        releaseStaleLocks_published_on_bus assms(1))
  with assms(2) show ?thesis by (simp add: bus_evolves_def)
qed

theorem published_only_after_bus_witness:
  "published_on_bus sample_env
     (snd (run_state (publisher_Run sample_env (DefaultPublisherJobConfig ''w'') [PollTick]) event_world))"
  by (rule published_only_after_bus)
     (simp_all add: sample_env_def bus_history.refl published_on_bus_def sample_event_def)

text \<open>
  Two workers never hold the same row: a claim returns at most a batch of rows, and rows claimed
  by one worker are not returned to the next, at any time, as long as nobody released them.
\<close>

theorem outbox_claims_disjoint:
  assumes "distinct (map ob_id (outbox d))" and "0 \<le> b" and "0 \<le> b'"
    and "ClaimPendingEvents l b now d = (Inr es, d')" and "ClaimPendingEvents l' b' now' d' = (Inr es', d'')"
  shows "ob_id ` set es \<inter> ob_id ` set es' = {} \<and> int (length es) \<le> b \<and>
    (\<forall>e \<in> set es. ob_locked_by e = Some l)"
proof (intro conjI)
  show "ob_id ` set es \<inter> ob_id ` set es' = {}"
  proof (rule ccontr)
    assume "ob_id ` set es \<inter> ob_id ` set es' \<noteq> {}"
    then obtain i where i: "i \<in> ob_id ` set es" "i \<in> ob_id ` set es'" by blast
    from i(1) have mine: "i \<in> set (claimable now b (outbox d))"
      by (rule subsetD [OF claimed_ids [OF assms(4)]])
    from i(2) have "i \<in> set (claimable now' b' (outbox d'))"
      by (rule subsetD [OF claimed_ids [OF assms(5)]])
    then have "i \<in> ob_id ` {e \<in> set (outbox d'). pending now' e}"
      by (rule subsetD [OF claimable_subset])
    then obtain e where "e \<in> set (outbox d')" "ob_id e = i" "ob_locked_at e = None"
      by (auto simp: pending_def)
    with claim_locks [OF assms(4), of e] mine show False by simp
  qed
  show "int (length es) \<le> b" by (rule claim_bounded [OF assms(1,4,2)])
  show "\<forall>e \<in> set es. ob_locked_by e = Some l"
  proof
    fix e assume "e \<in> set es"
    moreover have "Inr es = fst (ClaimPendingEvents l b now d)" using assms(4) by simp
    ultimately have "ob_id e \<in> set (claimable now b (outbox d))"
      "e \<in> set (update_where (\<lambda>e. ob_id e \<in> set (claimable now b (outbox d)))
         (\<lambda>e. e\<lparr>ob_locked_at := Some now, ob_locked_by := Some l, ob_attempts := ob_attempts e + 1,
                 ob_updated_at := now\<rparr>) (outbox d))"
      by (simp_all add: ClaimPendingEvents_def Let_def)
    then show "ob_locked_by e = Some l" by (elim in_update_whereE) simp_all
  qed
qed

lemma ClaimPendingEvents_pair:
  "ClaimPendingEvents l b now d =
     (Inr (projr (fst (ClaimPendingEvents l b now d))), snd (ClaimPendingEvents l b now d))"
  by (simp add: ClaimPendingEvents_def Let_def)

theorem outbox_claims_disjoint_witness:
  "let d = empty_db\<lparr>outbox := [sample_event 1, sample_event 2]\<rparr>;
       r = ClaimPendingEvents ''a'' 1 5 d; r' = ClaimPendingEvents ''b'' 1 6 (snd r)
   in ob_id ` set (projr (fst r)) \<inter> ob_id ` set (projr (fst r')) = {} \<and> int (length (projr (fst r))) \<le> 1"
  unfolding Let_def
  using outbox_claims_disjoint [OF _ _ _ ClaimPendingEvents_pair [of "''a''" 1 5
      "empty_db\<lparr>outbox := [sample_event 1, sample_event 2]\<rparr>"] ClaimPendingEvents_pair [of "''b''" 1 6]]
  by (simp add: sample_event_def)

text \<open>
  A pass without faults makes progress: it returns without an error and every row it claimed whose
  subject is valid and whose payload fits a message is marked published, with its content unchanged.
\<close>

theorem outbox_quiet_pass_publishes:
  assumes "quiet E"
    and "ClaimPendingEvents (WorkerID c) (BatchSize c) (clock E (tick w)) (database w) = (Inr es, d')"
    and "\<forall>e \<in> set es. (\<exists>s. eventSubject (ob_subject e) = Inr s) \<and> payload_size E (ob_payload e) \<le> MaxMessageSize"
  shows "fst (run_state (publishBatch E c) w) = Inr () \<and>
    (\<forall>e \<in> set es. \<exists>e' \<in> set (outbox (database (snd (run_state (publishBatch E c) w)))).
       outbox_row_evolves e e' \<and> ob_published_at e' \<noteq> None)"
proof -
  let ?w = "w\<lparr>tick := Suc (tick w), database := d'\<rparr>"
  have run: "run_state (publishBatch E c) w = run_state (publish_events E c es) ?w"
    using assms(1,2) by (simp add: publishBatch_def)
  have "e \<in> set (outbox d')" if "e \<in> set es" for e
  proof -
    have "Inr es = fst (ClaimPendingEvents (WorkerID c) (BatchSize c) (clock E (tick w)) (database w))"
      and "d' = snd (ClaimPendingEvents (WorkerID c) (BatchSize c) (clock E (tick w)) (database w))"
      using assms(2) by simp_all
    with that show ?thesis by (simp add: ClaimPendingEvents_def Let_def)
  qed
  with publish_events_quiet [OF assms(1,3), of c ?w] show ?thesis unfolding run by force
qed

theorem outbox_quiet_pass_publishes_witness:
  "fst (run_state (publishBatch sample_env (DefaultPublisherJobConfig ''w'')) event_world) = Inr ()"
proof -
  let ?r = "ClaimPendingEvents ''w'' 100 (clock sample_env 0) (database event_world)"
  have s: "eventSubject ''call.initiated'' = Inr ''leamout.event.call.initiated''" by code_simp
  obtain es d' where c: "?r = (Inr es, d')" by (auto simp: ClaimPendingEvents_def Let_def)
  then have "es = projr (fst ?r)" by simp
  then have "\<forall>e \<in> set es. ob_subject e = ''call.initiated''"
    by (simp add: ClaimPendingEvents_def Let_def update_where_def sample_event_def sample_env_def)
  moreover have "payload_size sample_env p \<le> MaxMessageSize" for p by (simp add: sample_env_def MaxMessageSize_def)
  ultimately show ?thesis
    using c s by (intro outbox_quiet_pass_publishes [THEN conjunct1, of _ _ _ es d'])
       (simp_all add: DefaultPublisherJobConfig_def)
qed

text \<open>
  The retry delay of attempt \<open>n\<close> is the base delay doubled \<open>n - 1\<close> times and capped, computed without
  overflow for every accepted configuration whose cap is at most \<open>2 ^ 62\<close> nanoseconds; in seconds it
  fits the \<^verbatim>\<open>int32\<close> column.
\<close>

theorem outbox_backoff_capped_exponential:
  assumes "NewPublisherJob r p c = Inr c'" and "RetryMaxDelay c' \<le> 2 ^ 62"
  shows "retryDelay c' attempt = min (RetryMaxDelay c') (RetryBaseDelay c' * 2 ^ nat (attempt - 1)) \<and>
    1 \<le> durationSeconds (retryDelay c' attempt) \<and> durationSeconds (retryDelay c' attempt) < 2 ^ 31"
  using NewPublisherJob_config [OF assms(1)] assms(2) durationSeconds_bounds [of "retryDelay c' attempt"]
    retry_loop_closed_form [of "RetryBaseDelay c'" "RetryMaxDelay c'" attempt 1]
  by (simp add: retryDelay_def)

theorem outbox_backoff_capped_exponential_witness:
  "retryDelay (DefaultPublisherJobConfig ''w'') 5 = 32 * second \<and>
   retryDelay (DefaultPublisherJobConfig ''w'') 40 = 300 * second"
  using outbox_backoff_capped_exponential [of True True "DefaultPublisherJobConfig ''w''" "DefaultPublisherJobConfig ''w''"]
  by (simp add: NewPublisherJob_def DefaultPublisherJobConfig_def default_if_def)

end
