(* ===== verification/CallStore.thy ===== *)
theory CallStore
  imports Outbox
begin

text \<open>
  The calls table: the queries of \<^verbatim>\<open>sqlc/calls.sql.go\<close> with the constraints of the table, and
  \<^verbatim>\<open>telephony/calls/repository.go\<close>, whose \<^verbatim>\<open>mutate\<close> commits a change of a call together with its
  outbox event. Shown, under every fault and lost acknowledgement: a call row changes only along the
  call state machine, terminal states are final, identity and tenant never change, and the outbox
  events of each call form a run of the state machine that ends in the state of its row.
\<close>

section \<open>Constraints\<close>

text \<open>\<^verbatim>\<open>length(trim(x)) > 0\<close>: SQL \<^verbatim>\<open>trim\<close> strips spaces only.\<close>

definition not_blank :: "string \<Rightarrow> bool" where
  "not_blank s \<longleftrightarrow> list_ex (\<lambda>ch. ch \<noteq> CHR '' '') s"

definition at_or_after :: "int option \<Rightarrow> int option \<Rightarrow> bool" where
  "at_or_after a b \<longleftrightarrow> (case (a, b) of (Some x, Some y) \<Rightarrow> x \<ge> y | _ \<Rightarrow> True)"

definition call_checks :: "call \<Rightarrow> bool" where
  "call_checks c \<longleftrightarrow> not_blank (c_from_uri c) \<and> not_blank (c_to_uri c) \<and>
     at_or_after (c_answered_at c) (c_started_at c) \<and> at_or_after (c_ended_at c) (c_started_at c)"

definition call_references :: "db \<Rightarrow> call \<Rightarrow> bool" where
  "call_references d c \<longleftrightarrow>
     list_ex (\<lambda>r. o_id r = c_organization_id c) (organizations d) \<and>
     (case c_voice_agent_id c of None \<Rightarrow> True
      | Some a \<Rightarrow> list_ex (\<lambda>r. a_id r = a \<and> a_organization_id r = c_organization_id c) (voice_agents d)) \<and>
     (case c_trunk_id c of None \<Rightarrow> True
      | Some t \<Rightarrow> list_ex (\<lambda>r. t_id r = t \<and> t_organization_id r = c_organization_id c) (trunks d)) \<and>
     (case c_trunk_endpoint_id c of None \<Rightarrow> True
      | Some e \<Rightarrow> list_ex (\<lambda>r. e_id r = e \<and> e_organization_id r = c_organization_id c) (trunk_endpoints d))"

definition call_unique :: "call list \<Rightarrow> call \<Rightarrow> bool" where
  "call_unique rows c \<longleftrightarrow>
     list_all (\<lambda>r. c_id r \<noteq> c_id c) rows \<and>
     (case c_sip_call_id c of None \<Rightarrow> True | Some s \<Rightarrow> list_all (\<lambda>r. c_sip_call_id r \<noteq> Some s) rows)"

section \<open>Queries\<close>

definition CreateCall ::
  "uuid \<Rightarrow> uuid option \<Rightarrow> direction \<Rightarrow> call_state option \<Rightarrow> string \<Rightarrow> string \<Rightarrow> string option
     \<Rightarrow> uuid \<Rightarrow> int \<Rightarrow> db \<Rightarrow> goerr + call \<times> db" where
  "CreateCall org agent dir state from to sip i now d =
     (let c = \<lparr>c_id = i, c_organization_id = org, c_voice_agent_id = agent, c_trunk_id = None,
               c_trunk_endpoint_id = None, c_direction = dir,
               c_state = (case state of None \<Rightarrow> Initiating | Some s \<Rightarrow> s), c_media_state = MediaActive,
               c_from_uri = from, c_to_uri = to, c_sip_call_id = sip, c_started_at = None,
               c_answered_at = None, c_ended_at = None, c_hangup_reason = None, c_created_at = now,
               c_updated_at = now\<rparr>
      in if call_checks c \<and> call_references d c \<and> call_unique (calls d) c
         then Inr (c, d\<lparr>calls := calls d @ [c]\<rparr>) else Inl (ConstraintError ''calls''))"

text \<open>
  An \<^verbatim>\<open>UPDATE calls ... RETURNING\<close>; the trigger sets \<^verbatim>\<open>updated_at\<close>. Foreign keys are checked where a
  statement assigns their columns.
\<close>

definition update_call ::
  "(call \<Rightarrow> bool) \<Rightarrow> (call \<Rightarrow> call) \<Rightarrow> int \<Rightarrow> db \<Rightarrow> goerr + call \<times> db" where
  "update_call P f now d =
     (case update_one P (\<lambda>c. (f c)\<lparr>c_updated_at := now\<rparr>) (calls d) of
        Inl e \<Rightarrow> Inl e
      | Inr (c, rows) \<Rightarrow>
          if call_checks c then Inr (c, d\<lparr>calls := rows\<rparr>)
          else Inl (ConstraintError ''calls''))"

definition scoped :: "uuid \<Rightarrow> uuid \<Rightarrow> call \<Rightarrow> bool" where
  "scoped org i c \<longleftrightarrow> c_organization_id c = org \<and> c_id c = i"

definition MarkCallRinging :: "uuid \<Rightarrow> uuid \<Rightarrow> int \<Rightarrow> db \<Rightarrow> goerr + call \<times> db" where
  "MarkCallRinging org i =
     update_call (\<lambda>c. scoped org i c \<and> c_state c = Initiating) (\<lambda>c. c\<lparr>c_state := Ringing\<rparr>)"

definition MarkCallAnswered :: "uuid \<Rightarrow> uuid \<Rightarrow> int \<Rightarrow> db \<Rightarrow> goerr + call \<times> db" where
  "MarkCallAnswered org i now =
     update_call (\<lambda>c. scoped org i c \<and> c_state c \<in> {Initiating, Ringing})
       (\<lambda>c. c\<lparr>c_state := Answered,
               c_answered_at := (case c_answered_at c of None \<Rightarrow> Some now | Some a \<Rightarrow> Some a)\<rparr>) now"

definition MarkCallActive :: "uuid \<Rightarrow> uuid \<Rightarrow> int \<Rightarrow> db \<Rightarrow> goerr + call \<times> db" where
  "MarkCallActive org i =
     update_call (\<lambda>c. scoped org i c \<and> c_state c \<in> {Answered, Ringing}) (\<lambda>c. c\<lparr>c_state := Active\<rparr>)"

definition MarkCallHeld :: "uuid \<Rightarrow> uuid \<Rightarrow> int \<Rightarrow> db \<Rightarrow> goerr + call \<times> db" where
  "MarkCallHeld org i =
     update_call (\<lambda>c. scoped org i c \<and> c_state c \<in> {Answered, Active} \<and> c_media_state c = MediaActive)
       (\<lambda>c. c\<lparr>c_media_state := MediaHeld\<rparr>)"

definition MarkCallResumed :: "uuid \<Rightarrow> uuid \<Rightarrow> int \<Rightarrow> db \<Rightarrow> goerr + call \<times> db" where
  "MarkCallResumed org i =
     update_call (\<lambda>c. scoped org i c \<and> c_state c \<in> {Answered, Active} \<and> c_media_state c = MediaHeld)
       (\<lambda>c. c\<lparr>c_media_state := MediaActive\<rparr>)"

text \<open>The assignments that the three terminal transitions share.\<close>

definition end_call :: "call_state \<Rightarrow> string option \<Rightarrow> int \<Rightarrow> call \<Rightarrow> call" where
  "end_call s reason now c =
     c\<lparr>c_state := s,
       c_ended_at := (case c_ended_at c of None \<Rightarrow> Some now | Some a \<Rightarrow> Some a),
       c_hangup_reason := (case reason of None \<Rightarrow> c_hangup_reason c | Some r \<Rightarrow> Some r)\<rparr>"

definition MarkCallCompleted :: "string option \<Rightarrow> uuid \<Rightarrow> uuid \<Rightarrow> int \<Rightarrow> db \<Rightarrow> goerr + call \<times> db" where
  "MarkCallCompleted reason org i now =
     update_call (\<lambda>c. scoped org i c \<and> c_state c \<notin> {Completed, Failed, Cancelled}) (end_call Completed reason now) now"

definition MarkCallFailed :: "string option \<Rightarrow> uuid \<Rightarrow> uuid \<Rightarrow> int \<Rightarrow> db \<Rightarrow> goerr + call \<times> db" where
  "MarkCallFailed reason org i now =
     update_call (\<lambda>c. scoped org i c \<and> c_state c \<notin> {Completed, Failed, Cancelled}) (end_call Failed reason now) now"

definition MarkCallCancelled :: "string option \<Rightarrow> uuid \<Rightarrow> uuid \<Rightarrow> int \<Rightarrow> db \<Rightarrow> goerr + call \<times> db" where
  "MarkCallCancelled reason org i now =
     update_call (\<lambda>c. scoped org i c \<and> c_state c \<in> {Initiating, Ringing}) (end_call Cancelled reason now) now"

definition SetCallRouteAttribution ::
  "uuid option \<Rightarrow> uuid option \<Rightarrow> uuid \<Rightarrow> uuid \<Rightarrow> int \<Rightarrow> db \<Rightarrow> goerr + call \<times> db" where
  "SetCallRouteAttribution trunk endpoint org i now d =
     (case update_call (scoped org i) (\<lambda>c. c\<lparr>c_trunk_id := trunk, c_trunk_endpoint_id := endpoint\<rparr>) now d of
        Inl e \<Rightarrow> Inl e
      | Inr (c, d') \<Rightarrow> if call_references d c then Inr (c, d') else Inl (ConstraintError ''calls''))"

text \<open>
  The unique index on \<^verbatim>\<open>sip_call_id\<close> is checked against the other rows; the trigger overrides the
  \<^verbatim>\<open>CASE\<close> of the statement and always sets \<^verbatim>\<open>updated_at\<close>.
\<close>

definition SetOutboundCallSIPCallID :: "string \<Rightarrow> uuid \<Rightarrow> uuid \<Rightarrow> int \<Rightarrow> db \<Rightarrow> goerr + uuid \<times> db" where
  "SetOutboundCallSIPCallID sip org i now d =
     (case update_call
             (\<lambda>c. scoped org i c \<and> c_direction c = Outbound \<and> (c_sip_call_id c = None \<or> c_sip_call_id c = Some sip))
             (\<lambda>c. c\<lparr>c_sip_call_id := Some sip\<rparr>) now d of
        Inl e \<Rightarrow> Inl e
      | Inr (c, d') \<Rightarrow>
          if list_ex (\<lambda>r. c_id r \<noteq> i \<and> c_sip_call_id r = Some sip) (calls d)
          then Inl (ConstraintError ''uq_calls_sip_call_id'') else Inr (c_id c, d'))"

definition GetCall :: "uuid \<Rightarrow> uuid \<Rightarrow> db \<Rightarrow> goerr + call" where
  "GetCall org i d = select_one (scoped org i) (calls d)"

definition GetCallBySIPCallIDGlobal :: "string \<Rightarrow> db \<Rightarrow> goerr + call" where
  "GetCallBySIPCallIDGlobal sip d = select_one (\<lambda>c. c_sip_call_id c = Some sip) (calls d)"

record snapshot =
  s_organization_id :: uuid
  s_trunk_id :: "uuid option"
  s_direction :: direction
  s_state :: call_state
  s_media_state :: media_state
  s_answered_at :: "int option"

definition snapshot_of :: "call \<Rightarrow> snapshot" where
  "snapshot_of c =
     \<lparr>s_organization_id = c_organization_id c, s_trunk_id = c_trunk_id c, s_direction = c_direction c,
      s_state = c_state c, s_media_state = c_media_state c, s_answered_at = c_answered_at c\<rparr>"

definition GetCallLifecycleSnapshot :: "uuid \<Rightarrow> db \<Rightarrow> goerr + snapshot" where
  "GetCallLifecycleSnapshot i d = map_sum id snapshot_of (select_one (\<lambda>c. c_id c = i) (calls d))"

definition ListActiveCallsForAdmissionReconciliation :: "db \<Rightarrow> goerr + (uuid \<times> uuid option) list" where
  "ListActiveCallsForAdmissionReconciliation d =
     Inr (map (\<lambda>c. (c_id c, c_trunk_id c))
       (sort_key c_created_at
         (filter (\<lambda>c. c_state c \<in> {Initiating, Ringing, Answered, Active} \<and> c_trunk_id c \<noteq> None) (calls d))))"

text \<open>\<^verbatim>\<open>ORDER BY created_at DESC LIMIT ... OFFSET ...\<close>; the state filter compares the column's text.\<close>

fun state_text :: "call_state \<Rightarrow> string" where
  "state_text Initiating = ''initiating''"
| "state_text Ringing = ''ringing''"
| "state_text Answered = ''answered''"
| "state_text Active = ''active''"
| "state_text Completed = ''completed''"
| "state_text Failed = ''failed''"
| "state_text Cancelled = ''cancelled''"

definition ListCalls :: "uuid \<Rightarrow> string option \<Rightarrow> int \<Rightarrow> int \<Rightarrow> db \<Rightarrow> goerr + call list" where
  "ListCalls org state offset limit d =
     Inr (take (nat limit) (drop (nat offset)
       (sort_key (\<lambda>c. - c_created_at c)
         (filter (\<lambda>c. c_organization_id c = org \<and>
              (case state of None \<Rightarrow> True | Some s \<Rightarrow> state_text (c_state c) = s)) (calls d)))))"

section \<open>The repository\<close>

definition call_event :: "env \<Rightarrow> string \<Rightarrow> nat \<Rightarrow> int \<Rightarrow> call \<Rightarrow> db \<Rightarrow> goerr + outbox_event \<times> db" where
  "call_event E event_type t now c =
     InsertOutboxEvent (new_uuid E (Suc t)) now event_type ''call'' (c_id c)
       (CallPayload event_type (c_organization_id c) (c_id c) c (clock E t))
       [(''event_type'', event_type), (''organization_id'', uuid_string E (c_organization_id c)),
        (''schema_version'', ''1'')] None"

text \<open>
  \<^verbatim>\<open>mutate\<close> takes the mutation as a function of the fresh id, the transaction time and the database.
\<close>

definition mutate ::
  "env \<Rightarrow> string \<Rightarrow> (uuid \<Rightarrow> int \<Rightarrow> db \<Rightarrow> goerr + call \<times> db) \<Rightarrow> (world, goerr + call) state" where
  "mutate E event_type mutation =
     transaction E ''call transaction'' (\<lambda>now t d.
       case mutation (new_uuid E t) now d of
         Inl e \<Rightarrow> Inl e
       | Inr (c, d1) \<Rightarrow>
           (case call_event E event_type t now c d1 of
              Inl e \<Rightarrow> Inl (Wrap ''insert call outbox event'' e)
            | Inr (_, d2) \<Rightarrow> Inr (c, d2)))"

record create_request =
  r_voice_agent_id :: "uuid option"
  r_trunk_id :: "uuid option"
  r_from_uri :: string
  r_to_uri :: string
  r_privacy :: bool
  r_dtmf_mode :: string
  r_media_encryption :: string
  r_direction :: direction
  r_sip_call_id :: "string option"

record inbound_request =
  i_channel_id :: string
  i_sip_call_id :: string
  i_organization_id :: uuid
  i_voice_agent_id :: uuid
  i_phone_number_id :: uuid
  i_voice_agent_binding_id :: uuid
  i_trunk_id :: uuid
  i_from_uri :: string
  i_to_uri :: string

definition repo_Create :: "env \<Rightarrow> uuid \<Rightarrow> create_request \<Rightarrow> (world, goerr + call) state" where
  "repo_Create E org req =
     mutate E ''call.initiated''
       (CreateCall org (r_voice_agent_id req) (r_direction req) None (r_from_uri req) (r_to_uri req) (r_sip_call_id req))"

definition repo_CreateInbound :: "env \<Rightarrow> inbound_request \<Rightarrow> (world, goerr + call) state" where
  "repo_CreateInbound E req =
     mutate E ''call.ringing''
       (CreateCall (i_organization_id req) (Some (i_voice_agent_id req)) Inbound (Some Ringing)
         (i_from_uri req) (i_to_uri req) (Some (i_sip_call_id req)))"

definition update_exec :: "env \<Rightarrow> (int \<Rightarrow> db \<Rightarrow> goerr + 'a \<times> db) \<Rightarrow> (world, goerr + 'a) state" where
  "update_exec E q =
     exec E (\<lambda>now d. case q now d of Inl e \<Rightarrow> (Inl e, d) | Inr (x, d') \<Rightarrow> (Inr x, d'))"

definition repo_BindOutboundSIPCallID :: "env \<Rightarrow> uuid \<Rightarrow> uuid \<Rightarrow> string \<Rightarrow> (world, goerr + uuid) state" where
  "repo_BindOutboundSIPCallID E org i sip = update_exec E (SetOutboundCallSIPCallID sip org i)"

definition repo_GetBySIPCallIDGlobal :: "env \<Rightarrow> string \<Rightarrow> (world, goerr + call) state" where
  "repo_GetBySIPCallIDGlobal E sip = query E (GetCallBySIPCallIDGlobal sip)"

definition repo_Get :: "env \<Rightarrow> uuid \<Rightarrow> uuid \<Rightarrow> (world, goerr + call) state" where
  "repo_Get E org i = query E (GetCall org i)"

definition repo_GetLifecycleSnapshot :: "env \<Rightarrow> uuid \<Rightarrow> (world, goerr + snapshot) state" where
  "repo_GetLifecycleSnapshot E i = query E (GetCallLifecycleSnapshot i)"

definition repo_ListActive :: "env \<Rightarrow> (world, goerr + (uuid \<times> uuid) list) state" where
  "repo_ListActive E = do {
     r \<leftarrow> query E ListActiveCallsForAdmissionReconciliation;
     case r of
       Inl e \<Rightarrow> State_Monad.return (Inl e)
     | Inr rows \<Rightarrow>
         State_Monad.return (Inr (List.map_filter (\<lambda>(i, t). case t of None \<Rightarrow> None | Some x \<Rightarrow> Some (i, x)) rows))
   }"

definition repo_List :: "env \<Rightarrow> uuid \<Rightarrow> string option \<Rightarrow> int \<Rightarrow> int \<Rightarrow> (world, goerr + call list) state" where
  "repo_List E org state offset limit = query E (ListCalls org state offset limit)"

definition repo_SetRouteAttribution ::
  "env \<Rightarrow> uuid \<Rightarrow> uuid \<Rightarrow> uuid option \<Rightarrow> uuid option \<Rightarrow> (world, goerr + call) state" where
  "repo_SetRouteAttribution E org i trunk endpoint = update_exec E (SetCallRouteAttribution trunk endpoint org i)"

definition repo_MarkRinging :: "env \<Rightarrow> uuid \<Rightarrow> uuid \<Rightarrow> (world, goerr + call) state" where
  "repo_MarkRinging E org i = mutate E ''call.ringing'' (\<lambda>_. MarkCallRinging org i)"

definition repo_MarkAnswered :: "env \<Rightarrow> uuid \<Rightarrow> uuid \<Rightarrow> (world, goerr + call) state" where
  "repo_MarkAnswered E org i = mutate E ''call.answered'' (\<lambda>_. MarkCallAnswered org i)"

definition repo_MarkActive :: "env \<Rightarrow> uuid \<Rightarrow> uuid \<Rightarrow> (world, goerr + call) state" where
  "repo_MarkActive E org i = mutate E ''call.active'' (\<lambda>_. MarkCallActive org i)"

definition repo_MarkHeld :: "env \<Rightarrow> uuid \<Rightarrow> uuid \<Rightarrow> (world, goerr + call) state" where
  "repo_MarkHeld E org i = mutate E ''call.held'' (\<lambda>_. MarkCallHeld org i)"

definition repo_MarkResumed :: "env \<Rightarrow> uuid \<Rightarrow> uuid \<Rightarrow> (world, goerr + call) state" where
  "repo_MarkResumed E org i = mutate E ''call.resumed'' (\<lambda>_. MarkCallResumed org i)"

definition repo_MarkCompleted :: "env \<Rightarrow> uuid \<Rightarrow> uuid \<Rightarrow> string option \<Rightarrow> (world, goerr + call) state" where
  "repo_MarkCompleted E org i reason = mutate E ''call.completed'' (\<lambda>_. MarkCallCompleted reason org i)"

definition repo_MarkFailed :: "env \<Rightarrow> uuid \<Rightarrow> uuid \<Rightarrow> string option \<Rightarrow> (world, goerr + call) state" where
  "repo_MarkFailed E org i reason = mutate E ''call.failed'' (\<lambda>_. MarkCallFailed reason org i)"

definition repo_MarkCancelled :: "env \<Rightarrow> uuid \<Rightarrow> uuid \<Rightarrow> string option \<Rightarrow> (world, goerr + call) state" where
  "repo_MarkCancelled E org i reason = mutate E ''call.cancelled'' (\<lambda>_. MarkCallCancelled reason org i)"

section \<open>The call state machine\<close>

type_synonym phase = "call_state \<times> media_state"

definition phase_of :: "call \<Rightarrow> phase" where
  "phase_of c = (c_state c, c_media_state c)"

definition terminal :: "call_state \<Rightarrow> bool" where
  "terminal s \<longleftrightarrow> s \<in> {Completed, Failed, Cancelled}"

inductive call_move :: "phase \<Rightarrow> phase \<Rightarrow> bool" where
  ring: "call_move (Initiating, m) (Ringing, m)"
| answer: "s \<in> {Initiating, Ringing} \<Longrightarrow> call_move (s, m) (Answered, m)"
| activate: "s \<in> {Ringing, Answered} \<Longrightarrow> call_move (s, m) (Active, m)"
| hold: "s \<in> {Answered, Active} \<Longrightarrow> call_move (s, MediaActive) (s, MediaHeld)"
| resume: "s \<in> {Answered, Active} \<Longrightarrow> call_move (s, MediaHeld) (s, MediaActive)"
| complete: "\<not> terminal s \<Longrightarrow> call_move (s, m) (Completed, m)"
| fail: "\<not> terminal s \<Longrightarrow> call_move (s, m) (Failed, m)"
| cancel: "s \<in> {Initiating, Ringing} \<Longrightarrow> call_move (s, m) (Cancelled, m)"

code_pred call_move .

inductive_cases call_moveE: "call_move (s, m) (s', m')"

inductive_simps call_move_terminal: "call_move (Completed, m) p" "call_move (Failed, m) p" "call_move (Cancelled, m) p"

text \<open>A run of the machine from one of the two states in which a call is created.\<close>

inductive call_run :: "phase list \<Rightarrow> bool" where
  created_outbound: "call_run [(Initiating, MediaActive)]"
| created_inbound: "call_run [(Ringing, MediaActive)]"
| moved: "call_run (ps @ [p]) \<Longrightarrow> call_move p q \<Longrightarrow> call_run (ps @ [p, q])"

lemma call_run_snoc: "call_run ps \<Longrightarrow> ps \<noteq> [] \<Longrightarrow> call_move (last ps) q \<Longrightarrow> call_run (ps @ [q])"
  using moved [of "butlast ps" "last ps" q] by (cases ps rule: rev_cases) simp_all

lemma call_moves_terminal:
  assumes "call_move\<^sup>*\<^sup>* p q" and "terminal (fst p)"
  shows "q = p"
  using assms
proof (induction rule: rtranclp_induct)
  case (step y z)
  then have "call_move p z" by simp
  with step.prems show ?case
    by (cases p) (auto simp: terminal_def call_move_terminal terminal_def)
qed simp

text \<open>How a row of the table may change.\<close>

definition row_keeps :: "call \<Rightarrow> call \<Rightarrow> bool" where
  "row_keeps c c' \<longleftrightarrow>
     c_id c' = c_id c \<and> c_organization_id c' = c_organization_id c \<and> c_direction c' = c_direction c \<and>
     c_from_uri c' = c_from_uri c \<and> c_to_uri c' = c_to_uri c \<and> c_created_at c' = c_created_at c \<and>
     (c_sip_call_id c \<noteq> None \<longrightarrow> c_sip_call_id c' = c_sip_call_id c) \<and>
     (c_answered_at c \<noteq> None \<longrightarrow> c_answered_at c' = c_answered_at c) \<and>
     (c_ended_at c \<noteq> None \<longrightarrow> c_ended_at c' = c_ended_at c)"

definition call_row_evolves :: "call \<Rightarrow> call \<Rightarrow> bool" where
  "call_row_evolves c c' \<longleftrightarrow> row_keeps c c' \<and> call_move\<^sup>*\<^sup>* (phase_of c) (phase_of c')"

definition calls_evolve :: "world \<Rightarrow> world \<Rightarrow> bool" where
  "calls_evolve w w' \<longleftrightarrow> grows call_row_evolves (calls (database w)) (calls (database w'))"

lemma call_row_evolves_refl: "call_row_evolves c c"
  by (simp add: call_row_evolves_def row_keeps_def)

lemma call_row_evolves_trans: "call_row_evolves a b \<Longrightarrow> call_row_evolves b c \<Longrightarrow> call_row_evolves a c"
  unfolding call_row_evolves_def row_keeps_def by (auto intro: rtranclp_trans)

interpretation call_history: world_history calls_evolve
  by unfold_locales
     (auto simp: calls_evolve_def intro: grows_refl grows_trans call_row_evolves_refl call_row_evolves_trans)

section \<open>Mutations\<close>

text \<open>
  What \<^verbatim>\<open>mutate\<close> relies on: a mutation creates one row in a start state, or moves one row by one
  step of the machine.
\<close>

definition creates :: "db \<Rightarrow> call \<Rightarrow> db \<Rightarrow> bool" where
  "creates d c d' \<longleftrightarrow>
     c_id c \<notin> c_id ` set (calls d) \<and> phase_of c \<in> {(Initiating, MediaActive), (Ringing, MediaActive)} \<and>
     d' = d\<lparr>calls := calls d @ [c]\<rparr>"

definition moves_one :: "db \<Rightarrow> call \<Rightarrow> db \<Rightarrow> bool" where
  "moves_one d c' d' \<longleftrightarrow>
     (\<exists>P f c. c \<in> set (calls d) \<and> P c \<and> c' = f c \<and> d' = d\<lparr>calls := update_where P f (calls d)\<rparr> \<and>
        (\<forall>x. P x \<longrightarrow> c_id x = c_id c' \<and> call_row_evolves x (f x) \<and> call_move (phase_of x) (phase_of (f x))))"

locale call_mutation =
  fixes q :: "uuid \<Rightarrow> int \<Rightarrow> db \<Rightarrow> goerr + call \<times> db"
  assumes shape: "q i now d = Inr (c, d') \<Longrightarrow> creates d c d' \<or> moves_one d c d'"

lemma update_call_moves_one:
  assumes "update_call P f now d = Inr (c', d')"
    and keeps: "\<And>x. P x \<Longrightarrow> c_id x = i \<and> row_keeps x (f x)"
    and move: "\<And>x. P x \<Longrightarrow> call_move (phase_of x) (phase_of (f x))"
  shows "moves_one d c' d'"
proof -
  let ?f = "\<lambda>c. (f c)\<lparr>c_updated_at := now\<rparr>"
  from assms(1) obtain rows where "update_one P ?f (calls d) = Inr (c', rows)" "d' = d\<lparr>calls := rows\<rparr>"
    by (auto simp: update_call_def split: sum.splits if_splits prod.splits)
  from this(1) obtain c where c: "c \<in> set (calls d)" "P c" "c' = ?f c" "rows = update_where P ?f (calls d)"
    by (rule update_one_Inr)
  have e: "call_row_evolves x (?f x) \<and> call_move (phase_of x) (phase_of (?f x))" if "P x" for x
    using keeps [OF that] move [OF that] by (simp add: call_row_evolves_def row_keeps_def phase_of_def)
  moreover have "c_id x = c_id c'" if "P x" for x
    using keeps [OF that] keeps [OF c(2)] c(3) by (simp add: row_keeps_def)
  ultimately show ?thesis
    unfolding moves_one_def using c \<open>d' = d\<lparr>calls := rows\<rparr>\<close>
    by (intro exI [of _ P] exI [of _ ?f] exI [of _ c]) simp
qed

lemma CreateCall_creates:
  assumes "CreateCall org agent dir state from to sip i now d = Inr (c, d')" and "state \<in> {None, Some Ringing}"
  shows "creates d c d'"
  using assms
  by (auto simp: CreateCall_def Let_def creates_def phase_of_def call_unique_def list_all_iff
      split: if_splits option.splits)

interpretation create_outbound: call_mutation "CreateCall org agent dir None from to sip"
  for org agent dir "from" to sip
  by unfold_locales (simp add: CreateCall_creates)

interpretation create_inbound: call_mutation "CreateCall org agent dir (Some Ringing) from to sip"
  for org agent dir "from" to sip
  by unfold_locales (simp add: CreateCall_creates)

text \<open>Each guarded update is one step of the machine.\<close>

lemma mark_moves_one:
  "MarkCallRinging org i now d = Inr (c, d') \<Longrightarrow> moves_one d c d'"
  "MarkCallAnswered org i now d = Inr (c, d') \<Longrightarrow> moves_one d c d'"
  "MarkCallActive org i now d = Inr (c, d') \<Longrightarrow> moves_one d c d'"
  "MarkCallHeld org i now d = Inr (c, d') \<Longrightarrow> moves_one d c d'"
  "MarkCallResumed org i now d = Inr (c, d') \<Longrightarrow> moves_one d c d'"
  "MarkCallCompleted reason org i now d = Inr (c, d') \<Longrightarrow> moves_one d c d'"
  "MarkCallFailed reason org i now d = Inr (c, d') \<Longrightarrow> moves_one d c d'"
  "MarkCallCancelled reason org i now d = Inr (c, d') \<Longrightarrow> moves_one d c d'"
  unfolding MarkCallRinging_def MarkCallAnswered_def MarkCallActive_def MarkCallHeld_def MarkCallResumed_def
    MarkCallCompleted_def MarkCallFailed_def MarkCallCancelled_def
  by (erule update_call_moves_one [where i = i];
      force simp: scoped_def row_keeps_def phase_of_def end_call_def terminal_def intro: call_move.intros)+

interpretation mark_ringing: call_mutation "\<lambda>_. MarkCallRinging org i" for org i
  by unfold_locales (simp add: mark_moves_one)

interpretation mark_answered: call_mutation "\<lambda>_. MarkCallAnswered org i" for org i
  by unfold_locales (simp add: mark_moves_one)

interpretation mark_active: call_mutation "\<lambda>_. MarkCallActive org i" for org i
  by unfold_locales (simp add: mark_moves_one)

interpretation mark_held: call_mutation "\<lambda>_. MarkCallHeld org i" for org i
  by unfold_locales (simp add: mark_moves_one)

interpretation mark_resumed: call_mutation "\<lambda>_. MarkCallResumed org i" for org i
  by unfold_locales (simp add: mark_moves_one)

interpretation mark_completed: call_mutation "\<lambda>_. MarkCallCompleted reason org i" for reason org i
  by unfold_locales (simp add: mark_moves_one)

interpretation mark_failed: call_mutation "\<lambda>_. MarkCallFailed reason org i" for reason org i
  by unfold_locales (simp add: mark_moves_one)

interpretation mark_cancelled: call_mutation "\<lambda>_. MarkCallCancelled reason org i" for reason org i
  by unfold_locales (simp add: mark_moves_one)

section \<open>The event log of a call\<close>

definition logged_phase :: "uuid \<Rightarrow> outbox_event \<Rightarrow> phase option" where
  "logged_phase i e =
     (case ob_payload e of
        CallPayload ev org j c at \<Rightarrow> if j = i then Some (phase_of c) else None
      | _ \<Rightarrow> None)"

definition call_log :: "outbox_event list \<Rightarrow> uuid \<Rightarrow> phase list" where
  "call_log es i = List.map_filter (logged_phase i) es"

text \<open>Every call has a log that is a run of the machine and ends in the phase of its row.\<close>

definition log_ok :: "db \<Rightarrow> bool" where
  "log_ok d \<longleftrightarrow> distinct (map c_id (calls d)) \<and>
     (\<forall>c \<in> set (calls d). call_run (call_log (outbox d) (c_id c)) \<and> last (call_log (outbox d) (c_id c)) = phase_of c) \<and>
     (\<forall>i. i \<notin> c_id ` set (calls d) \<longrightarrow> call_log (outbox d) i = [])"

definition log_kept :: "world \<Rightarrow> world \<Rightarrow> bool" where
  "log_kept w w' \<longleftrightarrow> (log_ok (database w) \<longrightarrow> log_ok (database w'))"

interpretation log_history: world_history log_kept
  by unfold_locales (auto simp: log_kept_def)

lemma call_log_snoc:
  "call_log (es @ [e]) i = call_log es i @ (case logged_phase i e of None \<Rightarrow> [] | Some p \<Rightarrow> [p])"
  by (simp add: call_log_def List.map_filter_def split: option.split)

lemma call_log_payloads: "map ob_payload es = map ob_payload es' \<Longrightarrow> call_log es i = call_log es' i"
proof (induction es arbitrary: es')
  case (Cons e es)
  then obtain e' es'' where "es' = e' # es''" "ob_payload e = ob_payload e'" "map ob_payload es = map ob_payload es''"
    by (cases es') auto
  with Cons.IH [of es''] show ?case
    by (simp add: call_log_def logged_phase_def List.map_filter_def)
qed simp

lemma call_run_nonempty: "call_run ps \<Longrightarrow> ps \<noteq> []"
  by (induction rule: call_run.induct) simp_all

lemma call_event_appends:
  assumes "call_event E ev t now c d = Inr (e, d')"
  shows "d' = d\<lparr>outbox := outbox d @ [e]\<rparr>" "logged_phase i e = (if i = c_id c then Some (phase_of c) else None)"
    "outbox_row_evolves e e" "ob_published_at e = None"
  using InsertOutboxEvent_appends [OF assms [unfolded call_event_def]]
  by (simp_all add: logged_phase_def outbox_row_evolves_refl)

lemma update_where_ids:
  assumes "\<And>x. P x \<Longrightarrow> call_row_evolves x (f x)"
  shows "map c_id (update_where P f rows) = map c_id rows"
  using assms by (simp add: update_where_def call_row_evolves_def row_keeps_def)

lemma log_ok_create:
  assumes "log_ok d" and "creates d c d1" and "call_event E ev t now c d1 = Inr (e, d2)"
  shows "log_ok d2"
proof -
  note A = call_event_appends [OF assms(3)]
  have d2: "calls d2 = calls d @ [c]" "outbox d2 = outbox d @ [e]"
    using assms(2) A(1) by (simp_all add: creates_def)
  have new: "c_id c \<notin> c_id ` set (calls d)" "call_run [phase_of c]"
    using assms(2) by (auto simp: creates_def intro: call_run.intros)
  have log: "call_log (outbox d2) i = call_log (outbox d) i @ (if i = c_id c then [phase_of c] else [])" for i
    by (simp add: d2 call_log_snoc A(2))
  have "call_log (outbox d) (c_id c) = []" using assms(1) new(1) by (simp add: log_ok_def)
  moreover have "c_id x \<noteq> c_id c" if "x \<in> set (calls d)" for x
    using new(1) imageI [OF that, of c_id] by metis
  ultimately show ?thesis using assms(1) new unfolding log_ok_def d2(1) log by auto
qed

lemma log_ok_move:
  assumes "log_ok d" and "moves_one d c' d1" and "call_event E ev t now c' d1 = Inr (e, d2)"
  shows "log_ok d2"
proof -
  note A = call_event_appends [OF assms(3)]
  from assms(2) obtain P f c where c: "c \<in> set (calls d)" "P c" "c' = f c"
    and d1: "d1 = d\<lparr>calls := update_where P f (calls d)\<rparr>"
    and P: "\<And>x. P x \<Longrightarrow> c_id x = c_id c' \<and> call_row_evolves x (f x) \<and> call_move (phase_of x) (phase_of (f x))"
    unfolding moves_one_def by blast
  have d2: "calls d2 = update_where P f (calls d)" "outbox d2 = outbox d @ [e]"
    using d1 A(1) by simp_all
  have ids: "map c_id (calls d2) = map c_id (calls d)"
    unfolding d2 by (rule update_where_ids) (use P in blast)
  have log: "call_log (outbox d2) i = call_log (outbox d) i @ (if i = c_id c' then [phase_of c'] else [])" for i
    by (simp add: d2 call_log_snoc A(2))
  have d: "distinct (map c_id (calls d))" using assms(1) by (simp add: log_ok_def)
  have row: "call_run (call_log (outbox d2) (c_id x)) \<and> last (call_log (outbox d2) (c_id x)) = phase_of x"
    if "x \<in> set (calls d2)" for x
    using that unfolding d2(1)
  proof (rule in_update_whereE)
    fix r assume r: "r \<in> set (calls d)" "P r" "x = f r"
    have "c_id r = c_id c" using P [OF r(2)] P [OF c(2)] by simp
    with d r(1) c(1) have "r = c" by (auto simp: distinct_map dest: inj_onD)
    with r c have x: "x = c'" by simp
    have L: "call_run (call_log (outbox d) (c_id c))" "last (call_log (outbox d) (c_id c)) = phase_of c"
      using assms(1) c(1) by (simp_all add: log_ok_def)
    have "c_id c = c_id c'" using P [OF c(2)] by simp
    then show ?thesis
      using L call_run_snoc [OF L(1) call_run_nonempty [OF L(1)], of "phase_of c'"] P [OF c(2)] c(3) x
      by (simp add: log)
  next
    assume x: "x \<in> set (calls d)" "\<not> P x"
    have "c_id x \<noteq> c_id c'"
    proof
      assume "c_id x = c_id c'"
      then have "c_id x = c_id c" using P [OF c(2)] by simp
      with d x(1) c(1) have "x = c" by (auto simp: distinct_map dest: inj_onD)
      with x(2) c(2) show False by simp
    qed
    then show ?thesis using assms(1) x(1) by (simp add: log log_ok_def)
  qed
  have "call_log (outbox d2) i = []" if i: "i \<notin> c_id ` set (calls d2)" for i
  proof -
    have "i \<notin> c_id ` set (calls d)" using i arg_cong [OF ids, of set] by simp
    moreover from this have "i \<noteq> c_id c'" using P [OF c(2)] imageI [OF c(1), of c_id] by metis
    ultimately show ?thesis using assms(1) by (simp add: log log_ok_def)
  qed
  with row d ids show ?thesis by (simp add: log_ok_def)
qed

section \<open>Updates that keep the phase\<close>

definition keeps_phases :: "db \<Rightarrow> db \<Rightarrow> bool" where
  "keeps_phases d d' \<longleftrightarrow>
     grows call_row_evolves (calls d) (calls d') \<and> outbox d' = outbox d \<and>
     map c_id (calls d') = map c_id (calls d) \<and> map phase_of (calls d') = map phase_of (calls d)"

lemma keeps_phases_refl: "keeps_phases d d"
  by (simp add: keeps_phases_def grows_refl call_row_evolves_refl)

lemma keeps_phases_trans: "keeps_phases a b \<Longrightarrow> keeps_phases b c \<Longrightarrow> keeps_phases a c"
  by (auto simp: keeps_phases_def intro: grows_trans call_row_evolves_trans)

lemma update_call_keeps_phases:
  assumes "update_call P f now d = Inr (c', d')"
    and "\<And>x. P x \<Longrightarrow> row_keeps x (f x) \<and> phase_of (f x) = phase_of x"
  shows "keeps_phases d d'"
proof -
  let ?f = "\<lambda>c. (f c)\<lparr>c_updated_at := now\<rparr>"
  have e: "call_row_evolves x (?f x) \<and> phase_of (?f x) = phase_of x" if "P x" for x
    using assms(2) [OF that] by (simp add: call_row_evolves_def row_keeps_def phase_of_def)
  have "d' = d\<lparr>calls := update_where P ?f (calls d)\<rparr>"
    using assms(1) by (auto simp: update_call_def elim!: update_one_Inr split: sum.splits if_splits prod.splits)
  moreover have "map c_id (update_where P ?f (calls d)) = map c_id (calls d)"
    by (rule update_where_ids) (use e in blast)
  moreover have "map phase_of (update_where P ?f (calls d)) = map phase_of (calls d)"
    using e by (simp add: update_where_def)
  ultimately show ?thesis
    using e by (simp add: keeps_phases_def grows_update_where call_row_evolves_refl)
qed

lemma SetCallRouteAttribution_keeps:
  "SetCallRouteAttribution t e org i now d = Inr (c, d') \<Longrightarrow> keeps_phases d d'"
  unfolding SetCallRouteAttribution_def
  by (auto simp: row_keeps_def phase_of_def split: sum.splits if_splits prod.splits
      intro!: update_call_keeps_phases)

lemma SetOutboundCallSIPCallID_keeps:
  "SetOutboundCallSIPCallID sip org i now d = Inr (u, d') \<Longrightarrow> keeps_phases d d'"
  unfolding SetOutboundCallSIPCallID_def
  by (auto simp: row_keeps_def phase_of_def split: sum.splits if_splits prod.splits
      intro!: update_call_keeps_phases)

lemma keeps_phases_log:
  assumes "keeps_phases d d'" and "log_ok d"
  shows "log_ok d'"
proof -
  have ids: "map c_id (calls d') = map c_id (calls d)" and ph: "map phase_of (calls d') = map phase_of (calls d)"
    and o: "outbox d' = outbox d"
    using assms(1) by (simp_all add: keeps_phases_def)
  have "call_run (call_log (outbox d) (c_id x)) \<and> last (call_log (outbox d) (c_id x)) = phase_of x"
    if "x \<in> set (calls d')" for x
  proof -
    from that obtain n where n: "n < length (calls d')" "x = calls d' ! n" by (auto simp: in_set_conv_nth)
    have len: "length (calls d') = length (calls d)" using ids by (metis length_map)
    have "c_id x = c_id (calls d ! n)" "phase_of x = phase_of (calls d ! n)"
      using n len ids ph by (metis nth_map)+
    moreover have "calls d ! n \<in> set (calls d)" using n len by simp
    ultimately show ?thesis using assms(2) by (simp add: log_ok_def)
  qed
  moreover have "c_id ` set (calls d') = c_id ` set (calls d)" using ids by (metis list.set_map)
  ultimately show ?thesis using assms(2) ids o by (simp add: log_ok_def)
qed

lemmas mutations =
  create_outbound.call_mutation_axioms create_inbound.call_mutation_axioms
  mark_ringing.call_mutation_axioms mark_answered.call_mutation_axioms mark_active.call_mutation_axioms
  mark_held.call_mutation_axioms mark_resumed.call_mutation_axioms mark_completed.call_mutation_axioms
  mark_failed.call_mutation_axioms mark_cancelled.call_mutation_axioms

section \<open>Relations every call handler moves along\<close>

text \<open>
  The calls component changes the world in four ways: an update that keeps the phases, a change of the
  Redis key space, a mutation of a call with its event, a command to FreeSWITCH. A relation that
  these steps respect holds of every handler built from the repository, the channel store, the limiter
  and the FreeSWITCH client; the handlers are shown to move along it once, here and in the theories of
  the services.
\<close>

locale data_effects = world_history +
  assumes phase_step: "keeps_phases (database w) d \<Longrightarrow> R w (w\<lparr>database := d\<rparr>)"
    and cache_step: "R w (w\<lparr>cache := r\<rparr>)"
begin

lemma update_exec_moves:
  assumes "rely E" and "\<And>now d x d'. q now d = Inr (x, d') \<Longrightarrow> keeps_phases d d'"
  shows "moves (update_exec E q)"
  unfolding update_exec_def
  by (intro exec_moves assms(1)) (auto split: sum.split intro: phase_step refl assms(2))

lemma redis_call_moves: "rely E \<Longrightarrow> moves (redis_call E f)"
  by (intro redis_moves cache_step)

lemma repo_reads_move:
  assumes "rely E"
  shows "moves (repo_BindOutboundSIPCallID E org i sip)" "moves (repo_GetBySIPCallIDGlobal E sip)"
    "moves (repo_Get E org i)" "moves (repo_GetLifecycleSnapshot E i)"
    "moves (repo_List E org st off lim)" "moves (repo_SetRouteAttribution E org i t e)"
    "moves (repo_ListActive E)"
  unfolding repo_BindOutboundSIPCallID_def repo_GetBySIPCallIDGlobal_def repo_Get_def
    repo_GetLifecycleSnapshot_def repo_List_def repo_SetRouteAttribution_def repo_ListActive_def
  by (intro moves_intros query_moves assms
      update_exec_moves [OF _ SetCallRouteAttribution_keeps] update_exec_moves [OF _ SetOutboundCallSIPCallID_keeps];
      assumption)+

end

locale data_platform = data_effects +
  assumes mutation_step:
      "creates (database w) c d1 \<or> moves_one (database w) c d1 \<Longrightarrow> call_event E ev t now c d1 = Inr (e, d2) \<Longrightarrow>
       R w (w\<lparr>database := d2\<rparr>)"
begin

lemma mutate_moves:
  assumes "rely E" and "call_mutation q"
  shows "moves (mutate E ev q)"
  unfolding mutate_def
  by (intro transaction_moves assms(1))
     (auto split: sum.splits prod.splits intro: mutation_step dest: call_mutation.shape [OF assms(2)])

lemma repo_writes_move:
  assumes "rely E"
  shows "moves (repo_Create E org req)" "moves (repo_CreateInbound E ireq)"
    "moves (repo_MarkRinging E org i)" "moves (repo_MarkAnswered E org i)"
    "moves (repo_MarkActive E org i)" "moves (repo_MarkHeld E org i)"
    "moves (repo_MarkResumed E org i)" "moves (repo_MarkCompleted E org i rs)"
    "moves (repo_MarkFailed E org i rs)" "moves (repo_MarkCancelled E org i rs)"
  unfolding repo_Create_def repo_CreateInbound_def repo_MarkRinging_def repo_MarkAnswered_def
    repo_MarkActive_def repo_MarkHeld_def repo_MarkResumed_def repo_MarkCompleted_def repo_MarkFailed_def
    repo_MarkCancelled_def
  by (intro mutate_moves mutations assms)+

lemmas repo_moves = repo_reads_move repo_writes_move

end

locale call_effects = data_effects +
  assumes command_step: "R w (w\<lparr>fs_log := l\<rparr>)"
begin

lemma command_moves: "rely E \<Longrightarrow> moves (fs_send E c)"
  by (intro fs_send_moves command_step)

end

locale call_platform = call_effects R + data_platform R for R

lemma log_ok_payloads:
  "calls d' = calls d \<Longrightarrow> map ob_payload (outbox d') = map ob_payload (outbox d) \<Longrightarrow> log_ok d \<Longrightarrow> log_ok d'"
  using call_log_payloads [of "outbox d'" "outbox d"] by (simp add: log_ok_def)

lemma mutation_grows: "creates d c d1 \<or> moves_one d c d1 \<Longrightarrow> grows call_row_evolves (calls d) (calls d1)"
  by (auto simp: creates_def moves_one_def
      intro!: grows_append grows_update_where call_row_evolves_refl)

lemma mutation_outbox: "creates d c d1 \<or> moves_one d c d1 \<Longrightarrow> outbox d1 = outbox d"
  by (auto simp: creates_def moves_one_def)

interpretation call_changes: call_platform calls_evolve
  by unfold_locales
     (auto simp: calls_evolve_def keeps_phases_def grows_refl call_row_evolves_refl
       dest!: call_event_appends(1) mutation_grows)

interpretation outbox_changes: call_platform outbox_evolves
  by unfold_locales
     (auto simp: outbox_evolves_def keeps_phases_def grows_refl outbox_row_evolves_refl
       dest!: call_event_appends(1) mutation_outbox intro!: grows_append)

interpretation log_changes: call_platform log_kept
  by unfold_locales
     (auto simp: log_kept_def intro: log_ok_create log_ok_move keeps_phases_log)

text \<open>The handlers that mutate no call keep the phases and the outbox.\<close>

definition phases_kept :: "world \<Rightarrow> world \<Rightarrow> bool" where
  "phases_kept w w' \<longleftrightarrow> keeps_phases (database w) (database w')"

interpretation phase_changes: call_effects phases_kept
  by unfold_locales (auto simp: phases_kept_def intro: keeps_phases_refl keeps_phases_trans)

text \<open>Nothing but the FreeSWITCH client writes commands.\<close>

definition commands_kept :: "world \<Rightarrow> world \<Rightarrow> bool" where
  "commands_kept w w' \<longleftrightarrow> fs_log w' = fs_log w"

interpretation silent_changes: data_platform commands_kept
  by unfold_locales (auto simp: commands_kept_def)

end
