(* ===== verification/CallRequests.thy ===== *)
theory CallRequests
  imports CallStore
begin

text \<open>
  Validation and normalisation of the requests of the calls service:
  \<^verbatim>\<open>telephony/calls/validation.go\<close> and the error translations of \<^verbatim>\<open>telephony/calls/service.go\<close>.
  Shown: normalisation is idempotent and establishes what the database and FreeSWITCH rely on, the
  validators accept exactly the documented requests, and a list filter with surrounding spaces is
  accepted although it matches no row.
\<close>

section \<open>Validators\<close>

definition validateOrganizationID :: "uuid \<Rightarrow> goerr + unit" where
  "validateOrganizationID i =
     (if i = uuid_Nil then Inl (NewBadRequest ''organization_id is required'') else Inr ())"

definition validateCallID :: "uuid \<Rightarrow> goerr + unit" where
  "validateCallID i = (if i = uuid_Nil then Inl (NewBadRequest ''call id is required'') else Inr ())"

definition validateIDs :: "uuid \<Rightarrow> uuid \<Rightarrow> goerr + unit" where
  "validateIDs org i =
     (case validateOrganizationID org of Inl e \<Rightarrow> Inl e | Inr _ \<Rightarrow> validateCallID i)"

definition normalizeCreateRequest :: "create_request \<Rightarrow> goerr + create_request" where
  "normalizeCreateRequest req0 =
     (let req = req0\<lparr>r_direction := Outbound, r_from_uri := trim_space (r_from_uri req0),
                      r_to_uri := trim_space (r_to_uri req0),
                      r_dtmf_mode := to_lower (trim_space (r_dtmf_mode req0)),
                      r_media_encryption := to_lower (trim_space (r_media_encryption req0))\<rparr>
      in if r_from_uri req = [] then Inl (NewBadRequest ''from_uri is required'')
         else if r_to_uri req = [] then Inl (NewBadRequest ''to_uri is required'')
         else if r_voice_agent_id req = Some uuid_Nil then Inl (NewBadRequest ''voice_agent_id is invalid'')
         else if r_trunk_id req = Some uuid_Nil then Inl (NewBadRequest ''trunk_id is invalid'')
         else if r_dtmf_mode req \<notin> {[], ''rfc2833'', ''info'', ''none''}
         then Inl (NewBadRequest ''dtmf_mode is invalid'')
         else if r_media_encryption req \<notin> {[], ''none'', ''sdes_srtp''}
         then Inl (NewBadRequest ''media_encryption is invalid'')
         else Inr req)"

definition call_state_texts :: "string list" where
  "call_state_texts = map state_text [Initiating, Ringing, Answered, Active, Completed, Failed, Cancelled]"

record list_request =
  l_state :: "string option"
  l_offset :: int
  l_limit :: int

definition validateListRequest :: "list_request \<Rightarrow> goerr + unit" where
  "validateListRequest req =
     (if l_offset req < 0 then Inl (NewBadRequest ''offset must not be negative'')
      else if l_limit req < 1 \<or> l_limit req > 200 then Inl (NewBadRequest ''limit must be between 1 and 200'')
      else case l_state req of
        None \<Rightarrow> Inr ()
      | Some s \<Rightarrow>
          if trim_space s \<in> set call_state_texts then Inr () else Inl (NewBadRequest ''invalid call state''))"

definition validateRouteAttribution :: "uuid option \<Rightarrow> uuid option \<Rightarrow> goerr + unit" where
  "validateRouteAttribution trunk endpoint =
     (if trunk = Some uuid_Nil then Inl (NewBadRequest ''trunk_id is invalid'')
      else if endpoint = Some uuid_Nil then Inl (NewBadRequest ''trunk_endpoint_id is invalid'')
      else Inr ())"

definition normalizeOptionalReason :: "string option \<Rightarrow> string option" where
  "normalizeOptionalReason reason =
     (case reason of None \<Rightarrow> None | Some r \<Rightarrow> if trim_space r = [] then None else Some (trim_space r))"

definition normalizeTransfer :: "string \<Rightarrow> goerr + string" where
  "normalizeTransfer destination =
     (if trim_space destination = [] then Inl (NewBadRequest ''destination is required'')
      else Inr (trim_space destination))"

definition normalizePlay :: "string \<Rightarrow> goerr + string" where
  "normalizePlay path =
     (if trim_space path = [] then Inl (NewBadRequest ''path is required'') else Inr (trim_space path))"

definition normalizeRecord :: "string \<Rightarrow> string \<Rightarrow> goerr + string \<times> string" where
  "normalizeRecord path0 action0 =
     (let path = trim_space path0; action = to_lower (trim_space action0)
      in if path = [] then Inl (NewBadRequest ''path is required'')
         else let action = (if action = [] then ''start'' else action)
              in if action \<noteq> ''start'' \<and> action \<noteq> ''stop'' then Inl (NewBadRequest ''action must be start or stop'')
                 else Inr (path, action))"

definition normalizeDTMF :: "string \<Rightarrow> goerr + string" where
  "normalizeDTMF digits =
     (if trim_space digits = [] then Inl (NewBadRequest ''digits are required'') else Inr (trim_space digits))"

definition validateInboundAdmission :: "inbound_request \<Rightarrow> goerr + unit" where
  "validateInboundAdmission req =
     (if trim_space (i_channel_id req) = [] then Inl (NewBadRequest ''inbound channel id is required'')
      else if trim_space (i_sip_call_id req) = [] then Inl (NewBadRequest ''inbound SIP Call-ID is required'')
      else if i_organization_id req = uuid_Nil then Inl (NewBadRequest ''organization_id is required'')
      else if i_voice_agent_id req = uuid_Nil then Inl (NewBadRequest ''voice_agent_id is required'')
      else if i_phone_number_id req = uuid_Nil then Inl (NewBadRequest ''phone_number_id is required'')
      else if i_voice_agent_binding_id req = uuid_Nil then Inl (NewBadRequest ''voice_agent_binding_id is required'')
      else if i_trunk_id req = uuid_Nil then Inl (NewBadRequest ''trunk_id is required'')
      else if trim_space (i_from_uri req) = [] then Inl (NewBadRequest ''from_uri is required'')
      else if trim_space (i_to_uri req) = [] then Inl (NewBadRequest ''to_uri is required'')
      else Inr ())"

definition isTerminalState :: "call_state \<Rightarrow> bool" where
  "isTerminalState s \<longleftrightarrow> s = Completed \<or> s = Failed \<or> s = Cancelled"

definition validateExistingInbound :: "call \<Rightarrow> inbound_request \<Rightarrow> goerr + unit" where
  "validateExistingInbound c req =
     (if c_direction c \<noteq> Inbound \<or> c_organization_id c \<noteq> i_organization_id req \<or>
         c_voice_agent_id c \<noteq> Some (i_voice_agent_id req) \<or> c_to_uri c \<noteq> i_to_uri req
      then Inl (NewConflict ''SIP Call-ID is already associated with a different call'')
      else if c_trunk_id c \<noteq> None \<and> c_trunk_id c \<noteq> Some (i_trunk_id req)
      then Inl (NewConflict ''SIP Call-ID trunk attribution does not match'')
      else if isTerminalState (c_state c) then Inl (NewConflict ''inbound SIP call is already terminal'')
      else Inr ())"

section \<open>Error translation\<close>

definition translateReadError :: "goerr \<Rightarrow> goerr" where
  "translateReadError e =
     (if error_is e ErrNoRows then NewNotFound ''call not found'' else NewInternal ''get call'' e)"

definition translateMutationError :: "goerr \<Rightarrow> goerr" where
  "translateMutationError e =
     (if error_is e ErrNoRows then NewConflict ''call state transition or route attribution is not allowed''
      else NewInternal ''update call'' e)"

section \<open>Lemmas\<close>

lemma validateIDs_Inr: "validateIDs org i = Inr () \<longleftrightarrow> org \<noteq> uuid_Nil \<and> i \<noteq> uuid_Nil"
  by (simp add: validateIDs_def validateOrganizationID_def validateCallID_def)

lemma fixed_modes:
  "m \<in> {[], ''rfc2833'', ''info'', ''none''} \<Longrightarrow> to_lower (trim_space m) = m"
  "m \<in> {[], ''none'', ''sdes_srtp''} \<Longrightarrow> to_lower (trim_space m) = m"
proof -
  have "to_lower (trim_space ''rfc2833'') = ''rfc2833''" "to_lower (trim_space ''info'') = ''info''"
    "to_lower (trim_space ''none'') = ''none''" "to_lower (trim_space ''sdes_srtp'') = ''sdes_srtp''"
    by code_simp+
  then show "m \<in> {[], ''rfc2833'', ''info'', ''none''} \<Longrightarrow> to_lower (trim_space m) = m"
    and "m \<in> {[], ''none'', ''sdes_srtp''} \<Longrightarrow> to_lower (trim_space m) = m"
    by auto
qed

lemma normalizeCreateRequest_fields:
  assumes "normalizeCreateRequest req = Inr r"
  shows "r_direction r = Outbound" "r_from_uri r = trim_space (r_from_uri req)" "r_from_uri r \<noteq> []"
    "r_to_uri r = trim_space (r_to_uri req)" "r_to_uri r \<noteq> []"
    "r_dtmf_mode r \<in> {[], ''rfc2833'', ''info'', ''none''}" "r_media_encryption r \<in> {[], ''none'', ''sdes_srtp''}"
    "r_voice_agent_id r = r_voice_agent_id req" "r_voice_agent_id r \<noteq> Some uuid_Nil"
    "r_trunk_id r = r_trunk_id req" "r_trunk_id r \<noteq> Some uuid_Nil"
    "r_privacy r = r_privacy req" "r_sip_call_id r = r_sip_call_id req"
  using assms by (auto simp: normalizeCreateRequest_def Let_def split: if_splits)

lemma normalize_idem:
  assumes "normalizeCreateRequest req = Inr r"
  shows "normalizeCreateRequest r = Inr r"
proof -
  note F = normalizeCreateRequest_fields [OF assms]
  have "r\<lparr>r_direction := Outbound, r_from_uri := trim_space (r_from_uri r), r_to_uri := trim_space (r_to_uri r),
      r_dtmf_mode := to_lower (trim_space (r_dtmf_mode r)),
      r_media_encryption := to_lower (trim_space (r_media_encryption r))\<rparr> = r"
  proof -
    have "trim_space (r_from_uri r) = r_from_uri r" "trim_space (r_to_uri r) = r_to_uri r"
      "to_lower (trim_space (r_dtmf_mode r)) = r_dtmf_mode r"
      "to_lower (trim_space (r_media_encryption r)) = r_media_encryption r"
      by (simp_all only: F(2,4) trim_space_idem fixed_modes(1) [OF F(6)] fixed_modes(2) [OF F(7)])
    with F(1) show ?thesis by (cases r) simp
  qed
  with F(3,5,6,7,9,11) show ?thesis by (simp only: normalizeCreateRequest_def Let_def if_False) simp
qed

section \<open>Properties\<close>

text \<open>
  Normalising an outbound request is idempotent, and an accepted request has trimmed, non-empty
  URIs, the outbound direction, a known DTMF mode and encryption, and no nil identifiers.
\<close>

theorem normalized_request_stable:
  assumes "normalizeCreateRequest req = Inr r"
  shows "normalizeCreateRequest r = Inr r \<and> r_direction r = Outbound \<and>
    r_from_uri r = trim_space (r_from_uri req) \<and> r_from_uri r \<noteq> [] \<and> r_to_uri r \<noteq> [] \<and>
    r_dtmf_mode r \<in> {[], ''rfc2833'', ''info'', ''none''} \<and>
    r_media_encryption r \<in> {[], ''none'', ''sdes_srtp''} \<and>
    r_voice_agent_id r \<noteq> Some uuid_Nil \<and> r_trunk_id r \<noteq> Some uuid_Nil"
  using normalize_idem [OF assms] normalizeCreateRequest_fields [OF assms] by simp

definition sample_request :: create_request where
  "sample_request =
     \<lparr>r_voice_agent_id = Some 5, r_trunk_id = None, r_from_uri = '' sip:a@x '', r_to_uri = ''+15550100'',
      r_privacy = False, r_dtmf_mode = '' INFO'', r_media_encryption = ''None '', r_direction = Inbound,
      r_sip_call_id = None\<rparr>"

definition normalized_sample :: create_request where
  "normalized_sample =
     \<lparr>r_voice_agent_id = Some 5, r_trunk_id = None, r_from_uri = ''sip:a@x'', r_to_uri = ''+15550100'',
      r_privacy = False, r_dtmf_mode = ''info'', r_media_encryption = ''none'', r_direction = Outbound,
      r_sip_call_id = None\<rparr>"

lemma normalize_sample: "normalizeCreateRequest sample_request = Inr normalized_sample"
proof -
  have "trim_space '' sip:a@x '' = ''sip:a@x''" "trim_space ''+15550100'' = ''+15550100''"
    "to_lower (trim_space '' INFO'') = ''info''" "to_lower (trim_space ''None '') = ''none''"
    by code_simp+
  then show ?thesis by (simp add: normalizeCreateRequest_def sample_request_def normalized_sample_def Let_def)
qed

theorem normalized_request_stable_witness:
  "normalizeCreateRequest normalized_sample = Inr normalized_sample"
  using normalized_request_stable [OF normalize_sample] by blast

text \<open>
  A list request whose state filter has surrounding spaces passes validation although the query,
  which gets the filter as it was sent, returns no call of any organization.
\<close>

theorem padded_state_filter_accepted_but_empty:
  assumes "0 \<le> offset" and "1 \<le> limit" and "limit \<le> 200"
  shows "validateListRequest \<lparr>l_state = Some '' ringing '', l_offset = offset, l_limit = limit\<rparr> = Inr () \<and>
    ListCalls org (Some '' ringing '') offset limit d = Inr []"
proof -
  have "trim_space '' ringing '' = ''ringing''" by code_simp
  moreover have "state_text s \<noteq> '' ringing ''" for s by (cases s) simp_all
  ultimately show ?thesis
    using assms by (simp add: validateListRequest_def call_state_texts_def ListCalls_def)
qed

theorem padded_state_filter_accepted_but_empty_witness:
  "validateListRequest \<lparr>l_state = Some '' ringing '', l_offset = 0, l_limit = 50\<rparr> = Inr ()"
  using padded_state_filter_accepted_but_empty [of 0 50] by simp

end
