(* ===== verification/Admission.thy ===== *)
theory Admission
  imports Store
begin

text \<open>
  Trunk admission: the lease scripts of \<^verbatim>\<open>integrations/redis/cache.go\<close> and the channel store
  and admission limiter of \<^verbatim>\<open>runtime/calling/channel.go\<close> that call them. A lease is a member of
  the sorted set of its trunk, scored with the time it runs out. Shown: a granted lease never takes
  a trunk over its concurrent-call limit nor a one-second window over its CPS limit, a lease moved
  from a channel to its call and released leaves the other leases as they were, and the trunks do
  not affect each other.
\<close>

section \<open>Sorted sets\<close>

text \<open>
  The members of a sorted set that exist at time \<open>now\<close>: none once the key has expired. The
  commands \<^verbatim>\<open>ZSCORE\<close>, \<^verbatim>\<open>ZADD\<close>, \<^verbatim>\<open>ZREM\<close>, \<^verbatim>\<open>ZCARD\<close>, \<^verbatim>\<open>ZREMRANGEBYSCORE key -inf x\<close> and
  \<^verbatim>\<open>PEXPIRE\<close> on it; a set that becomes empty loses its key and its expiry.
\<close>

definition live_zset :: "redis \<Rightarrow> string \<Rightarrow> int \<Rightarrow> zset" where
  "live_zset r key now =
     (case r_zsets r key of
        None \<Rightarrow> \<lparr>z_members = [], z_expires = None\<rparr>
      | Some z \<Rightarrow>
          if (case z_expires z of None \<Rightarrow> False | Some x \<Rightarrow> x \<le> now)
          then \<lparr>z_members = [], z_expires = None\<rparr> else z)"

definition members :: "redis \<Rightarrow> string \<Rightarrow> int \<Rightarrow> (string \<times> int) list" where
  "members r key now = z_members (live_zset r key now)"

definition put_zset :: "redis \<Rightarrow> string \<Rightarrow> zset \<Rightarrow> redis" where
  "put_zset r key z =
     r\<lparr>r_zsets := (if z_members z = [] then (r_zsets r)(key := None) else (r_zsets r)(key \<mapsto> z))\<rparr>"

definition drop_empty :: "zset \<Rightarrow> zset" where
  "drop_empty z = (if z_members z = [] then z\<lparr>z_expires := None\<rparr> else z)"

definition ZREMRANGEBYSCORE :: "int \<Rightarrow> zset \<Rightarrow> zset" where
  "ZREMRANGEBYSCORE x z = drop_empty (z\<lparr>z_members := filter (\<lambda>(m, s). \<not> s \<le> x) (z_members z)\<rparr>)"

definition ZSCORE :: "zset \<Rightarrow> string \<Rightarrow> int option" where
  "ZSCORE z m = map_of (z_members z) m"

definition ZADD :: "int \<Rightarrow> string \<Rightarrow> zset \<Rightarrow> zset" where
  "ZADD s m z = z\<lparr>z_members := AList.update m s (z_members z)\<rparr>"

definition ZREM :: "string \<Rightarrow> zset \<Rightarrow> zset" where
  "ZREM m z = drop_empty (z\<lparr>z_members := AList.delete m (z_members z)\<rparr>)"

definition ZCARD :: "zset \<Rightarrow> int" where
  "ZCARD z = int (length (z_members z))"

definition PEXPIRE :: "int \<Rightarrow> zset \<Rightarrow> zset" where
  "PEXPIRE x z = z\<lparr>z_expires := Some x\<rparr>"

text \<open>\<^verbatim>\<open>INCR\<close> followed by \<^verbatim>\<open>PEXPIRE\<close> when the counter was created: the new count and the key space.\<close>

definition incr_window :: "redis \<Rightarrow> string \<Rightarrow> int \<Rightarrow> int \<Rightarrow> int \<times> redis" where
  "incr_window r key window now =
     (case r_counters r key of
        Some (n, x) \<Rightarrow>
          if x \<le> now then (1, r\<lparr>r_counters := (r_counters r)(key \<mapsto> (1, now + window))\<rparr>)
          else (n + 1, r\<lparr>r_counters := (r_counters r)(key \<mapsto> (n + 1, x))\<rparr>)
      | None \<Rightarrow> (1, r\<lparr>r_counters := (r_counters r)(key \<mapsto> (1, now + window))\<rparr>))"

section \<open>The scripts\<close>

definition fixed_window_script :: "string \<Rightarrow> int \<Rightarrow> int \<Rightarrow> int \<Rightarrow> redis \<Rightarrow> bool \<times> redis" where
  "fixed_window_script key window limit now r =
     (case incr_window r key window now of (current, r') \<Rightarrow> (current \<le> limit, r'))"

definition AllowFixedWindow :: "env \<Rightarrow> string \<Rightarrow> int \<Rightarrow> int \<Rightarrow> (world, goerr + bool) state" where
  "AllowFixedWindow E key limit window =
     (if key = [] then State_Monad.return (Inl (ErrorString ''redis key is required''))
      else if limit \<le> 0 then State_Monad.return (Inl (ErrorString ''rate limit must be positive''))
      else if window \<le> 0 then State_Monad.return (Inl (ErrorString ''rate limit window must be positive''))
      else do {
        r \<leftarrow> redis_call E (\<lambda>now c.
               case fixed_window_script key (go_div window millisecond) limit now c of (b, c') \<Rightarrow> (Inr b, c'));
        case r of
          Inl e \<Rightarrow> State_Monad.return (Inl (Wrap ''apply Redis fixed-window rate limit'' e))
        | Inr b \<Rightarrow> State_Monad.return (Inr b)
      })"

definition acquire_script ::
  "string \<Rightarrow> string \<Rightarrow> int \<Rightarrow> int \<Rightarrow> int \<Rightarrow> int \<Rightarrow> redis \<Rightarrow> string \<times> redis" where
  "acquire_script prefix lease maxCPS maxConcurrent ttl now r =
     (let leases = prefix @ '':leases'';
          z = ZREMRANGEBYSCORE now (live_zset r leases now);
          grant = PEXPIRE (now + ttl) (ZADD (now + ttl) lease z)
      in if ZSCORE z lease \<noteq> None then (''ok'', put_zset r leases grant)
         else case incr_window (put_zset r leases z) (prefix @ '':cps'') 1000 now of (cps, r') \<Rightarrow>
           if cps > maxCPS then (''cps'', r')
           else if ZCARD z \<ge> maxConcurrent then (''concurrent'', r')
           else (''ok'', put_zset r' leases grant))"

definition AcquireCallLease ::
  "env \<Rightarrow> string \<Rightarrow> string \<Rightarrow> int \<Rightarrow> int \<Rightarrow> int \<Rightarrow> (world, goerr + bool \<times> string) state" where
  "AcquireCallLease E prefix lease maxCPS maxConcurrent ttl =
     (if prefix = [] then State_Monad.return (Inl (ErrorString ''redis key is required''))
      else if lease = [] \<or> maxCPS \<le> 0 \<or> maxConcurrent \<le> 0 \<or> ttl \<le> 0
      then State_Monad.return (Inl (ErrorString ''valid call lease context, id, limits, and TTL are required''))
      else do {
        r \<leftarrow> redis_call E (\<lambda>now c.
               case acquire_script prefix lease maxCPS maxConcurrent (go_div ttl millisecond) now c of
                 (reason, c') \<Rightarrow> (Inr reason, c'));
        case r of
          Inl e \<Rightarrow> State_Monad.return (Inl (Wrap ''acquire Redis call lease'' e))
        | Inr reason \<Rightarrow> State_Monad.return (Inr (reason = ''ok'', reason))
      })"

definition bind_script :: "string \<Rightarrow> string \<Rightarrow> string \<Rightarrow> int \<Rightarrow> redis \<Rightarrow> bool \<times> redis" where
  "bind_script prefix lease callID now r =
     (let leases = prefix @ '':leases''; z = live_zset r leases now
      in case ZSCORE z lease of
           None \<Rightarrow> (False, r)
         | Some score \<Rightarrow> (True, put_zset r leases (ZADD score callID (ZREM lease z))))"

definition BindCallLease :: "env \<Rightarrow> string \<Rightarrow> string \<Rightarrow> string \<Rightarrow> (world, goerr + unit) state" where
  "BindCallLease E prefix lease callID =
     (if prefix = [] then State_Monad.return (Inl (ErrorString ''redis key is required''))
      else if lease = [] \<or> callID = []
      then State_Monad.return (Inl (ErrorString ''call lease context, lease id, and call id are required''))
      else do {
        r \<leftarrow> redis_call E (\<lambda>now c. case bind_script prefix lease callID now c of (b, c') \<Rightarrow> (Inr b, c'));
        case r of
          Inl e \<Rightarrow> State_Monad.return (Inl (Wrap ''bind Redis call lease'' e))
        | Inr bound \<Rightarrow>
            if bound then State_Monad.return (Inr ())
            else State_Monad.return (Inl (ErrorString ''call lease expired before binding''))
      })"

definition release_command :: "string \<Rightarrow> string \<Rightarrow> int \<Rightarrow> redis \<Rightarrow> redis" where
  "release_command prefix member now r =
     (let leases = prefix @ '':leases'' in put_zset r leases (ZREM member (live_zset r leases now)))"

definition ReleaseCallLease :: "env \<Rightarrow> string \<Rightarrow> string \<Rightarrow> (world, goerr + unit) state" where
  "ReleaseCallLease E prefix callOrLeaseID =
     (if prefix = [] then State_Monad.return (Inl (ErrorString ''redis key is required''))
      else if callOrLeaseID = []
      then State_Monad.return (Inl (ErrorString ''call lease context and id are required''))
      else do {
        r \<leftarrow> redis_call E (\<lambda>now c. (Inr (), release_command prefix callOrLeaseID now c));
        case r of
          Inl e \<Rightarrow> State_Monad.return (Inl (Wrap ''release Redis call lease'' e))
        | Inr _ \<Rightarrow> State_Monad.return (Inr ())
      })"

definition refresh_add :: "string \<Rightarrow> string \<Rightarrow> int \<Rightarrow> int \<Rightarrow> redis \<Rightarrow> redis" where
  "refresh_add prefix callID ttl now r =
     (let leases = prefix @ '':leases'' in put_zset r leases (ZADD (now + ttl) callID (live_zset r leases now)))"

definition refresh_expire :: "string \<Rightarrow> int \<Rightarrow> int \<Rightarrow> redis \<Rightarrow> redis" where
  "refresh_expire prefix ttl now r =
     (let leases = prefix @ '':leases'' in put_zset r leases (PEXPIRE (now + ttl) (live_zset r leases now)))"

definition RefreshCallLease :: "env \<Rightarrow> string \<Rightarrow> string \<Rightarrow> int \<Rightarrow> (world, goerr + unit) state" where
  "RefreshCallLease E prefix callID ttl =
     (if prefix = [] then State_Monad.return (Inl (ErrorString ''redis key is required''))
      else if callID = [] \<or> ttl \<le> 0
      then State_Monad.return (Inl (ErrorString ''call lease context, id, and TTL are required''))
      else do {
        r \<leftarrow> redis_call E (\<lambda>now c. (Inr (), refresh_add prefix callID (go_div ttl millisecond) now c));
        case r of
          Inl e \<Rightarrow> State_Monad.return (Inl (Wrap ''refresh Redis call lease'' e))
        | Inr _ \<Rightarrow> do {
            x \<leftarrow> redis_call E (\<lambda>now c. (Inr (), refresh_expire prefix (go_div ttl millisecond) now c));
            case x of
              Inl e \<Rightarrow> State_Monad.return (Inl (Wrap ''expire refreshed Redis call leases'' e))
            | Inr _ \<Rightarrow> State_Monad.return (Inr ())
          }
      })"

section \<open>The channel store\<close>

definition channelKey :: "env \<Rightarrow> uuid \<Rightarrow> string" where
  "channelKey E callID = ''telecom:calls:channel:'' @ uuid_string E callID"

abbreviation ErrChannelUnavailable :: goerr where
  "ErrChannelUnavailable \<equiv> Sentinel ''calling.ErrChannelUnavailable''"

abbreviation ErrAdmissionCPS :: goerr where
  "ErrAdmissionCPS \<equiv> Sentinel ''calling.ErrAdmissionCPS''"

abbreviation ErrAdmissionConcurrent :: goerr where
  "ErrAdmissionConcurrent \<equiv> Sentinel ''calling.ErrAdmissionConcurrent''"

definition set_string :: "string \<Rightarrow> string \<Rightarrow> int \<Rightarrow> int \<Rightarrow> redis \<Rightarrow> (goerr + unit) \<times> redis" where
  "set_string key v ttl now r = (Inr (), r\<lparr>r_strings := (r_strings r)(key \<mapsto> (v, now + ttl))\<rparr>)"

definition get_string :: "string \<Rightarrow> int \<Rightarrow> redis \<Rightarrow> string option" where
  "get_string key now r =
     (case r_strings r key of None \<Rightarrow> None | Some (v, x) \<Rightarrow> if x \<le> now then None else Some v)"

definition channels_Bind :: "env \<Rightarrow> uuid \<Rightarrow> string \<Rightarrow> (world, goerr + unit) state" where
  "channels_Bind E callID raw =
     (let channelID = trim_space raw
      in if callID = uuid_Nil \<or> channelID = []
         then State_Monad.return (Inl (ErrorString ''call id and channel id are required''))
         else redis_call E (set_string (channelKey E callID) channelID (24 * 3600 * 1000)))"

definition channels_Get :: "env \<Rightarrow> uuid \<Rightarrow> (world, goerr + string) state" where
  "channels_Get E callID =
     (if callID = uuid_Nil then State_Monad.return (Inl (ErrorString ''call id is required''))
      else do {
        r \<leftarrow> redis_call E (\<lambda>now c. (Inr (get_string (channelKey E callID) now c), c));
        case r of
          Inl e \<Rightarrow> State_Monad.return (Inl e)
        | Inr None \<Rightarrow> State_Monad.return (Inl ErrChannelUnavailable)
        | Inr (Some v) \<Rightarrow>
            if trim_space v = [] then State_Monad.return (Inl ErrChannelUnavailable)
            else State_Monad.return (Inr (trim_space v))
      })"

definition channels_Delete :: "env \<Rightarrow> uuid \<Rightarrow> (world, goerr + unit) state" where
  "channels_Delete E callID =
     (if callID = uuid_Nil then State_Monad.return (Inl (ErrorString ''call id is required''))
      else redis_call E (\<lambda>now c. (Inr (), c\<lparr>r_strings := (r_strings c)(channelKey E callID := None)\<rparr>)))"

section \<open>The admission limiter\<close>

record limits =
  MaxCPS :: int
  MaxConcurrentCalls :: int

definition callAdmissionLeaseTTL :: int where
  "callAdmissionLeaseTTL = 26 * 3600 * second"

definition admissionPrefix :: "env \<Rightarrow> uuid \<Rightarrow> string" where
  "admissionPrefix E trunkID = ''telecom:admission:trunk:'' @ uuid_string E trunkID"

definition admission_Acquire :: "env \<Rightarrow> uuid \<Rightarrow> string \<Rightarrow> limits \<Rightarrow> (world, goerr + unit) state" where
  "admission_Acquire E trunkID leaseID lim =
     (if trunkID = uuid_Nil \<or> leaseID = []
      then State_Monad.return (Inl (ErrorString ''trunk id and lease id are required''))
      else if MaxCPS lim < 1 \<or> MaxConcurrentCalls lim < 1
      then State_Monad.return (Inl (ErrorString ''trunk admission limits must be positive''))
      else do {
        r \<leftarrow> AcquireCallLease E (admissionPrefix E trunkID) leaseID (MaxCPS lim) (MaxConcurrentCalls lim)
               callAdmissionLeaseTTL;
        case r of
          Inl e \<Rightarrow> State_Monad.return (Inl (Wrap ''acquire trunk call lease'' e))
        | Inr (allowed, reason) \<Rightarrow>
            if allowed then State_Monad.return (Inr ())
            else if reason = ''cps'' then State_Monad.return (Inl ErrAdmissionCPS)
            else if reason = ''concurrent'' then State_Monad.return (Inl ErrAdmissionConcurrent)
            else State_Monad.return (Inl (ErrorString ''trunk admission rejected''))
      })"

definition admission_Bind :: "env \<Rightarrow> uuid \<Rightarrow> string \<Rightarrow> uuid \<Rightarrow> (world, goerr + unit) state" where
  "admission_Bind E trunkID leaseID callID =
     (if trunkID = uuid_Nil \<or> leaseID = [] \<or> callID = uuid_Nil
      then State_Monad.return (Inl (ErrorString ''trunk id, lease id, and call id are required''))
      else BindCallLease E (admissionPrefix E trunkID) leaseID (uuid_string E callID))"

definition admission_Release :: "env \<Rightarrow> uuid \<Rightarrow> string \<Rightarrow> (world, goerr + unit) state" where
  "admission_Release E trunkID callOrLeaseID =
     (if trunkID = uuid_Nil \<or> callOrLeaseID = []
      then State_Monad.return (Inl (ErrorString ''trunk id and call or lease id are required''))
      else ReleaseCallLease E (admissionPrefix E trunkID) callOrLeaseID)"

definition admission_Refresh :: "env \<Rightarrow> uuid \<Rightarrow> uuid \<Rightarrow> (world, goerr + unit) state" where
  "admission_Refresh E trunkID callID =
     (if trunkID = uuid_Nil \<or> callID = uuid_Nil
      then State_Monad.return (Inl (ErrorString ''trunk id and call id are required''))
      else RefreshCallLease E (admissionPrefix E trunkID) (uuid_string E callID) callAdmissionLeaseTTL)"


section \<open>Leases held at a time\<close>

definition leases_ok :: "string \<Rightarrow> redis \<Rightarrow> bool" where
  "leases_ok prefix r \<longleftrightarrow>
     (case r_zsets r (prefix @ '':leases'') of None \<Rightarrow> True | Some z \<Rightarrow> distinct (map fst (z_members z)))"

definition held :: "string \<Rightarrow> redis \<Rightarrow> int \<Rightarrow> string set" where
  "held prefix r now = {m. \<exists>s > now. map_of (members r (prefix @ '':leases'') now) m = Some s}"

definition fresh_zset :: "int \<Rightarrow> zset \<Rightarrow> bool" where
  "fresh_zset now z \<longleftrightarrow> (case z_expires z of None \<Rightarrow> True | Some x \<Rightarrow> now < x)"

lemma fresh_live_zset: "fresh_zset now (live_zset r key now)"
  by (auto simp: live_zset_def fresh_zset_def split: option.splits)

lemma fresh_zset_ops [simp]:
  "fresh_zset now (ZADD s m z) = fresh_zset now z"
  "fresh_zset now z \<Longrightarrow> fresh_zset now (ZREM m z)"
  "fresh_zset now z \<Longrightarrow> fresh_zset now (ZREMRANGEBYSCORE x z)"
  "fresh_zset now (PEXPIRE x z) \<longleftrightarrow> now < x"
  by (simp_all add: fresh_zset_def ZADD_def ZREM_def ZREMRANGEBYSCORE_def PEXPIRE_def drop_empty_def)

lemma zset_op_members [simp]:
  "z_members (ZADD s m z) = AList.update m s (z_members z)"
  "z_members (ZREM m z) = AList.delete m (z_members z)"
  "z_members (ZREMRANGEBYSCORE x z) = filter (\<lambda>(m, s). \<not> s \<le> x) (z_members z)"
  "z_members (PEXPIRE x z) = z_members z"
  by (simp_all add: ZADD_def ZREM_def ZREMRANGEBYSCORE_def PEXPIRE_def drop_empty_def)

lemma members_put: "fresh_zset now z \<Longrightarrow> members (put_zset r key z) key now = z_members z"
  by (auto simp: members_def live_zset_def put_zset_def fresh_zset_def split: option.splits)

lemma members_put_other: "key' \<noteq> key \<Longrightarrow> members (put_zset r key z) key' now = members r key' now"
  by (simp add: members_def live_zset_def put_zset_def)

lemma incr_window_zsets [simp]: "r_zsets (snd (incr_window r k win now)) = r_zsets r"
  by (simp add: incr_window_def split: option.split prod.split)

lemma members_cong: "r_zsets r = r_zsets r' \<Longrightarrow> members r key now = members r' key now"
  by (simp add: members_def live_zset_def)

lemma leases_ok_distinct: "leases_ok prefix r \<Longrightarrow> distinct (map fst (members r (prefix @ '':leases'') now))"
  by (auto simp: leases_ok_def members_def live_zset_def split: option.splits)

lemma leases_ok_put: "distinct (map fst (z_members z)) \<Longrightarrow> leases_ok prefix (put_zset r (prefix @ '':leases'') z)"
  by (simp add: leases_ok_def put_zset_def)

lemma map_of_filter_scores:
  "distinct (map fst al) \<Longrightarrow>
   map_of (filter (\<lambda>(m, s). P s) al) k = (case map_of al k of None \<Rightarrow> None | Some v \<Rightarrow> if P v then Some v else None)"
proof (induction al)
  case (Cons a al)
  obtain m v where a: "a = (m, v)" by (cases a)
  have "map_of al m = None" using Cons.prems a by (auto simp: map_of_eq_None_iff)
  with Cons a show ?case by (auto split: option.splits)
qed simp

lemma purge_members:
  fixes now :: int
  assumes "leases_ok prefix r"
  defines "z \<equiv> ZREMRANGEBYSCORE now (live_zset r (prefix @ '':leases'') now)"
  shows "dom (map_of (z_members z)) = held prefix r now" "distinct (map fst (z_members z))"
    "ZCARD z = int (card (held prefix r now))"
proof -
  let ?al = "members r (prefix @ '':leases'') now"
  have z: "z_members z = filter (\<lambda>(m, s). \<not> s \<le> now) ?al"
    by (simp add: z_def members_def)
  have d: "distinct (map fst ?al)" using assms(1) by (rule leases_ok_distinct)
  show dom: "dom (map_of (z_members z)) = held prefix r now"
    unfolding z dom_def map_of_filter_scores [OF d] held_def
    by (auto simp: not_le split: option.splits if_splits)
  show dz: "distinct (map fst (z_members z))" unfolding z using d by (rule distinct_map_filter)
  have "card (dom (map_of (z_members z))) = length (z_members z)"
    using distinct_card [OF dz] by (simp add: dom_map_of_conv_image_fst)
  with dom show "ZCARD z = int (card (held prefix r now))" by (simp add: ZCARD_def)
qed

lemma held_dom:
  assumes "\<And>m s. map_of (members r (prefix @ '':leases'') now) m = Some s \<Longrightarrow> now < s"
  shows "held prefix r now = dom (map_of (members r (prefix @ '':leases'') now))"
  using assms by (auto simp: held_def dom_def)

lemma acquire_script_cases:
  assumes "leases_ok prefix r" and "0 < ttl"
    and "acquire_script prefix lease maxCPS cap ttl now r = (reason, r')"
  shows "leases_ok prefix r' \<and>
    held prefix r' now = (if reason = ''ok'' then insert lease (held prefix r now) else held prefix r now) \<and>
    (reason = ''ok'' \<longrightarrow> lease \<notin> held prefix r now \<longrightarrow> int (card (held prefix r now)) < cap)"
proof -
  let ?k = "prefix @ '':leases''"
  define z where "z = ZREMRANGEBYSCORE now (live_zset r ?k now)"
  define g where "g = PEXPIRE (now + ttl) (ZADD (now + ttl) lease z)"
  note P = purge_members [OF assms(1), of now, folded z_def]
  have fresh: "fresh_zset now z" by (simp add: z_def fresh_live_zset)
  have zm: "map_of (z_members z) m = Some s \<Longrightarrow> now < s" for m s
    using map_of_SomeD [of "z_members z" m s] by (auto simp: z_def)
  have gm: "z_members g = AList.update lease (now + ttl) (z_members z)"
    by (simp add: g_def)
  have held_z: "held prefix r0 now = held prefix r now" if "members r0 ?k now = z_members z" for r0
    using held_dom [of r0 prefix now] zm P(1) by (simp only: that)
  have held_g: "held prefix (put_zset r0 ?k g) now = insert lease (held prefix r now)" for r0
  proof -
    have m: "members (put_zset r0 ?k g) ?k now = z_members g"
      using assms(2) by (intro members_put) (simp add: g_def)
    have "held prefix (put_zset r0 ?k g) now = dom (map_of (z_members g))"
      by (rule held_dom [of "put_zset r0 ?k g" prefix now, unfolded m])
         (use zm assms(2) in \<open>auto simp: gm update_conv' split: if_splits\<close>)
    also have "\<dots> = insert lease (held prefix r now)" by (simp add: gm update_conv' P(1))
    finally show ?thesis .
  qed
  have ok_g: "leases_ok prefix (put_zset r0 ?k g)" for r0
    using P(2) by (intro leases_ok_put) (simp add: gm distinct_update)
  obtain cps r1 where I: "incr_window (put_zset r ?k z) (prefix @ '':cps'') 1000 now = (cps, r1)"
    by fastforce
  then have zs: "r_zsets r1 = r_zsets (put_zset r ?k z)" by (metis incr_window_zsets snd_conv)
  then have r1: "held prefix r1 now = held prefix r now" "leases_ok prefix r1"
    using held_z [of r1] members_cong [OF zs] members_put [OF fresh] leases_ok_put [OF P(2), of prefix r]
    by (simp_all add: leases_ok_def)
  have A: "acquire_script prefix lease maxCPS cap ttl now r =
      (if ZSCORE z lease \<noteq> None then (''ok'', put_zset r ?k g)
       else if cps > maxCPS then (''cps'', r1)
       else if ZCARD z \<ge> cap then (''concurrent'', r1) else (''ok'', put_zset r1 ?k g))"
    using I by (simp add: acquire_script_def Let_def z_def g_def)
  have "ZSCORE z lease \<noteq> None \<longleftrightarrow> lease \<in> held prefix r now"
    using P(1) by (auto simp: ZSCORE_def dom_def)
  with A assms(3) r1 held_g ok_g P(3) show ?thesis
    by (auto split: if_splits)
qed


lemma held_put:
  "fresh_zset now z \<Longrightarrow>
   held prefix (put_zset r (prefix @ '':leases'') z) now = {m. \<exists>s > now. map_of (z_members z) m = Some s}"
  by (simp add: held_def members_put)

lemma held_live:
  "held prefix r now = {m. \<exists>s > now. map_of (z_members (live_zset r (prefix @ '':leases'') now)) m = Some s}"
  by (simp add: held_def members_def)

lemma live_zset_distinct:
  "leases_ok prefix r \<Longrightarrow> distinct (map fst (z_members (live_zset r (prefix @ '':leases'') now)))"
  using leases_ok_distinct by (simp add: members_def)

lemma held_finite [simp]: "finite (held prefix r now)"
proof (rule finite_subset)
  show "held prefix r now \<subseteq> dom (map_of (members r (prefix @ '':leases'') now))"
    by (auto simp: held_def)
qed (rule finite_dom_map_of)

lemma held_expiry: "t \<le> t' \<Longrightarrow> held prefix r t' \<subseteq> held prefix r t"
  by (auto simp: held_def members_def live_zset_def split: option.splits if_splits)

lemma bind_script_held:
  fixes lease callID :: string and now :: int
  assumes "leases_ok prefix r"
  defines "r' \<equiv> snd (bind_script prefix lease callID now r)"
  shows "leases_ok prefix r'"
    and "lease \<in> held prefix r now \<Longrightarrow>
      fst (bind_script prefix lease callID now r) \<and>
      held prefix r' now = insert callID (held prefix r now - {lease})"
    and "lease \<notin> held prefix r now \<Longrightarrow> held prefix r' now \<subseteq> held prefix r now"
proof -
  let ?k = "prefix @ '':leases''"
  let ?z = "live_zset r ?k now"
  let ?z' = "\<lambda>s. ZADD s callID (ZREM lease ?z)"
  have d: "distinct (map fst (z_members ?z))" using assms(1) by (rule live_zset_distinct)
  have b: "bind_script prefix lease callID now r =
      (case map_of (z_members ?z) lease of None \<Rightarrow> (False, r) | Some s \<Rightarrow> (True, put_zset r ?k (?z' s)))"
    by (simp add: bind_script_def Let_def ZSCORE_def)
  have h: "held prefix (put_zset r ?k (?z' s)) now =
      {m. \<exists>x > now. ((map_of (z_members ?z))(lease := None, callID := Some s)) m = Some x}" for s
    by (subst held_put) (simp_all add: fresh_live_zset update_conv' delete_conv')
  show "leases_ok prefix r'"
    using d assms(1) by (auto simp: r'_def b distinct_update distinct_delete intro!: leases_ok_put split: option.split)
  show "fst (bind_script prefix lease callID now r) \<and>
      held prefix r' now = insert callID (held prefix r now - {lease})" if "lease \<in> held prefix r now"
    using that unfolding held_live [of prefix r] by (auto simp: r'_def b h split: if_splits)
  show "held prefix r' now \<subseteq> held prefix r now" if "lease \<notin> held prefix r now"
    using that unfolding held_live [of prefix r] r'_def b
    by (auto simp: h held_live [of prefix r] split: option.splits if_splits)
qed

lemma release_command_held:
  assumes "leases_ok prefix r"
  shows "leases_ok prefix (release_command prefix m now r)"
    and "held prefix (release_command prefix m now r) now = held prefix r now - {m}"
  using live_zset_distinct [OF assms, of now]
  by (auto simp: release_command_def Let_def held_put fresh_live_zset delete_conv' held_live [of prefix r]
      distinct_delete intro!: leases_ok_put split: if_splits)

lemma refresh_held:
  assumes "leases_ok prefix r" and "0 < ttl"
  shows "leases_ok prefix (refresh_add prefix m ttl now r)"
    and "held prefix (refresh_add prefix m ttl now r) now = insert m (held prefix r now)"
    and "leases_ok prefix (refresh_expire prefix ttl now r)"
    and "held prefix (refresh_expire prefix ttl now r) now = held prefix r now"
  using live_zset_distinct [OF assms(1), of now] assms(2)
  by (auto simp: refresh_add_def refresh_expire_def Let_def held_put fresh_live_zset update_conv'
      held_live [of prefix r] distinct_update intro!: leases_ok_put split: if_splits)

section \<open>The pool of leases of a trunk\<close>

text \<open>
  What the callers of the scripts rely on: leases only run out as time passes, an acquired lease is new
  only below the cap, moving a lease to another name and releasing it never add one. Only a refresh can
  add a lease beyond the cap, and only the lease of a call that had lost it.
\<close>

datatype lease_op =
    AcquireOp string int int
  | BindOp string string
  | ReleaseOp string
  | RefreshOp string
  | ExpireOp

locale lease_pool =
  fixes step :: "lease_op \<Rightarrow> int \<Rightarrow> 's \<Rightarrow> 's"
    and held_at :: "'s \<Rightarrow> int \<Rightarrow> string set"
    and good :: "'s \<Rightarrow> bool"
  assumes finite_held: "finite (held_at s t)"
    and expiry: "t \<le> t' \<Longrightarrow> held_at s t' \<subseteq> held_at s t"
    and good_step: "good s \<Longrightarrow> good (step op t s)"
    and acquire: "good s \<Longrightarrow> held_at (step (AcquireOp l cps cap) t s) t = held_at s t \<or>
      held_at (step (AcquireOp l cps cap) t s) t = insert l (held_at s t) \<and>
      (l \<in> held_at s t \<or> int (card (held_at s t)) < cap)"
    and bind_held: "good s \<Longrightarrow> l \<in> held_at s t \<Longrightarrow>
      held_at (step (BindOp l c) t s) t = insert c (held_at s t - {l})"
    and bind_missing: "good s \<Longrightarrow> l \<notin> held_at s t \<Longrightarrow> held_at (step (BindOp l c) t s) t \<subseteq> held_at s t"
    and release: "good s \<Longrightarrow> held_at (step (ReleaseOp l) t s) t = held_at s t - {l}"
    and refresh: "good s \<Longrightarrow> held_at (step (RefreshOp l) t s) t = insert l (held_at s t)"
    and expire: "good s \<Longrightarrow> held_at (step ExpireOp t s) t = held_at s t"
begin

fun trace :: "(int \<times> lease_op) list \<Rightarrow> 's \<Rightarrow> 's" where
  "trace [] s = s"
| "trace ((t, op) # ops) s = trace ops (step op t s)"

text \<open>The refreshes of a trace that give back a lease that was not held.\<close>

fun restored :: "(int \<times> lease_op) list \<Rightarrow> 's \<Rightarrow> nat" where
  "restored [] s = 0"
| "restored ((t, op) # ops) s =
     (case op of RefreshOp l \<Rightarrow> (if l \<in> held_at s t then 0 else 1) | _ \<Rightarrow> 0) + restored ops (step op t s)"

lemma step_card:
  assumes "good s" and "int (card (held_at s t)) \<le> n"
    and "\<And>l cps cap. op = AcquireOp l cps cap \<Longrightarrow> cap \<le> n"
  shows "int (card (held_at (step op t s) t)) \<le> n + int (restored [(t, op)] s)"
proof (cases op)
  case (AcquireOp l cps cap)
  then have "cap \<le> n" by (rule assms(3))
  then show ?thesis
    using acquire [OF assms(1), of l cps cap t] assms(2) finite_held [of s t] AcquireOp
    by (auto simp: card_insert_if insert_absorb)
next
  case (BindOp l c)
  show ?thesis
  proof (cases "l \<in> held_at s t")
    case True
    have "card (insert c (held_at s t - {l})) \<le> Suc (card (held_at s t - {l}))"
      using finite_held [of s t] by (simp add: card_insert_if)
    also have "\<dots> = card (held_at s t)" by (rule card.remove [OF finite_held True, symmetric])
    finally show ?thesis using BindOp bind_held [OF assms(1) True] assms(2) by simp
  next
    case False
    from card_mono [OF finite_held bind_missing [OF assms(1) False, of c]] show ?thesis
      using BindOp assms(2) by simp
  qed
next
  case (ReleaseOp l)
  then show ?thesis
    using assms(2) release [OF assms(1), of l t] card_Diff1_le [of "held_at s t" l] by simp
next
  case (RefreshOp l)
  then show ?thesis
    using assms(2) refresh [OF assms(1), of l t] finite_held [of s t] by (simp add: card_insert_if)
next
  case ExpireOp
  then show ?thesis using assms(2) expire [OF assms(1)] by simp
qed

lemma trace_card:
  assumes "good s" and "sorted (t0 # map fst ops @ [t1])" and "int (card (held_at s t0)) \<le> n"
    and "\<And>t l cps cap. (t, AcquireOp l cps cap) \<in> set ops \<Longrightarrow> cap \<le> n"
  shows "int (card (held_at (trace ops s) t1)) \<le> n + int (restored ops s)"
  using assms
proof (induction ops arbitrary: s t0 n)
  case Nil
  then have "card (held_at s t1) \<le> card (held_at s t0)"
    by (intro card_mono finite_held expiry) simp
  with Nil show ?case by simp
next
  case (Cons a ops)
  obtain t op where a: "a = (t, op)" by (cases a)
  let ?r = "int (restored [(t, op)] s)"
  have "card (held_at s t) \<le> card (held_at s t0)"
    using Cons.prems(2) a by (intro card_mono finite_held expiry) simp
  then have "int (card (held_at (step op t s) t)) \<le> n + ?r"
    using Cons.prems a by (intro step_card) auto
  then have "int (card (held_at (trace ops (step op t s)) t1)) \<le> (n + ?r) + int (restored ops (step op t s))"
    using Cons.prems a by (intro Cons.IH [of _ t] good_step) force+
  with a show ?case by (cases op) auto
qed

end

abbreviation leaseMillis :: int where
  "leaseMillis \<equiv> go_div callAdmissionLeaseTTL millisecond"

fun lease_step :: "string \<Rightarrow> lease_op \<Rightarrow> int \<Rightarrow> redis \<Rightarrow> redis" where
  "lease_step prefix (AcquireOp l cps cap) now r = snd (acquire_script prefix l cps cap leaseMillis now r)"
| "lease_step prefix (BindOp l c) now r = snd (bind_script prefix l c now r)"
| "lease_step prefix (ReleaseOp l) now r = release_command prefix l now r"
| "lease_step prefix (RefreshOp l) now r = refresh_add prefix l leaseMillis now r"
| "lease_step prefix ExpireOp now r = refresh_expire prefix leaseMillis now r"

lemma leaseMillis_value [simp]: "go_div callAdmissionLeaseTTL 1000000 = 93600000"
  by (simp add: callAdmissionLeaseTTL_def go_div_nonneg)

lemma lease_step_ok: "leases_ok prefix r \<Longrightarrow> leases_ok prefix (lease_step prefix op now r)"
proof (cases op)
  case (AcquireOp l cps cap)
  assume "leases_ok prefix r"
  then show ?thesis
    using acquire_script_cases [of prefix r leaseMillis l cps cap now] AcquireOp by (simp add: prod_eq_iff)
qed (simp_all add: bind_script_held release_command_held refresh_held)

interpretation trunk_leases: lease_pool "lease_step prefix" "held prefix" "leases_ok prefix" for prefix
proof
  fix l cps cap t and r :: redis
  assume "leases_ok prefix r"
  then show "held prefix (lease_step prefix (AcquireOp l cps cap) t r) t = held prefix r t \<or>
      held prefix (lease_step prefix (AcquireOp l cps cap) t r) t = insert l (held prefix r t) \<and>
      (l \<in> held prefix r t \<or> int (card (held prefix r t)) < cap)"
    using acquire_script_cases [of prefix r leaseMillis l cps cap t]
    by (cases "acquire_script prefix l cps cap leaseMillis t r") auto
qed (auto simp: held_expiry [THEN subsetD] lease_step_ok bind_script_held release_command_held refresh_held
      dest: bind_script_held(3))

section \<open>The calls-per-second window\<close>

text \<open>The acquisitions of a trace that grant a lease not held before.\<close>

fun new_lease :: "string \<Rightarrow> lease_op \<Rightarrow> int \<Rightarrow> redis \<Rightarrow> bool" where
  "new_lease prefix (AcquireOp l cps cap) now r \<longleftrightarrow>
     fst (acquire_script prefix l cps cap leaseMillis now r) = ''ok'' \<and>
     ZSCORE (ZREMRANGEBYSCORE now (live_zset r (prefix @ '':leases'') now)) l = None"
| "new_lease prefix op now r \<longleftrightarrow> False"

fun new_leases :: "string \<Rightarrow> (int \<times> lease_op) list \<Rightarrow> redis \<Rightarrow> nat" where
  "new_leases prefix [] r = 0"
| "new_leases prefix ((t, op) # ops) r =
     (if new_lease prefix op t r then 1 else 0) + new_leases prefix ops (lease_step prefix op t r)"

text \<open>The window counter at a time, and the property that it counts one window that ends at \<open>x\<close>.\<close>

definition window_count :: "string \<Rightarrow> redis \<Rightarrow> int \<Rightarrow> int" where
  "window_count prefix r x =
     (case r_counters r (prefix @ '':cps'') of None \<Rightarrow> 0 | Some (n, y) \<Rightarrow> if y < x then 0 else n)"

definition window_ends :: "string \<Rightarrow> redis \<Rightarrow> int \<Rightarrow> bool" where
  "window_ends prefix r x \<longleftrightarrow>
     (case r_counters r (prefix @ '':cps'') of None \<Rightarrow> True | Some (n, y) \<Rightarrow> y \<le> x - 1000 \<or> x \<le> y)"

definition cps_limit :: "lease_op \<Rightarrow> int \<Rightarrow> bool" where
  "cps_limit op m \<longleftrightarrow> (case op of AcquireOp l c k \<Rightarrow> c \<le> m | _ \<Rightarrow> True)"

definition cap_limit :: "lease_op \<Rightarrow> int \<Rightarrow> bool" where
  "cap_limit op m \<longleftrightarrow> (case op of AcquireOp l c k \<Rightarrow> k \<le> m | _ \<Rightarrow> True)"

lemma put_zset_counters [simp]: "r_counters (put_zset r k z) = r_counters r"
  by (simp add: put_zset_def)

lemma window_put [simp]:
  "window_count prefix (put_zset r k z) x = window_count prefix r x"
  "window_ends prefix (put_zset r k z) x = window_ends prefix r x"
  by (simp_all add: window_count_def window_ends_def)

lemma incr_window_count:
  assumes "incr_window r (prefix @ '':cps'') 1000 now = (cps, r')" and "x - 1000 \<le> now" and "now < x"
    and "window_ends prefix r x"
  shows "window_count prefix r' x = window_count prefix r x + 1" "cps = window_count prefix r' x"
    "window_ends prefix r' x"
  using assms
  by (auto simp: incr_window_def window_count_def window_ends_def split: option.splits if_splits prod.splits)

lemma lease_step_window:
  assumes "x - 1000 \<le> now" and "now < x" and "window_ends prefix r x" and "cps_limit op m"
  shows "window_ends prefix (lease_step prefix op now r) x \<and>
    window_count prefix r x \<le> window_count prefix (lease_step prefix op now r) x \<and>
    (new_lease prefix op now r \<longrightarrow>
      window_count prefix (lease_step prefix op now r) x = window_count prefix r x + 1 \<and>
      window_count prefix (lease_step prefix op now r) x \<le> m)"
proof (cases op)
  case (AcquireOp l c k)
  define z where "z = ZREMRANGEBYSCORE now (live_zset r (prefix @ '':leases'') now)"
  obtain cps r1 where I: "incr_window (put_zset r (prefix @ '':leases'') z) (prefix @ '':cps'') 1000 now = (cps, r1)"
    by fastforce
  note J = incr_window_count [OF I assms(1,2)]
  show ?thesis
    using J I assms(3,4) by (auto simp: AcquireOp cps_limit_def acquire_script_def Let_def z_def [symmetric])
next
  case (BindOp l c)
  with assms(3) show ?thesis by (auto simp: bind_script_def Let_def split: option.split)
qed (use assms(3) in \<open>simp_all add: release_command_def refresh_add_def refresh_expire_def Let_def\<close>)

lemma new_leases_window:
  assumes "\<forall>(t, op) \<in> set ops. x - 1000 \<le> t \<and> t < x \<and> cps_limit op m" and "window_ends prefix r x"
  shows "int (new_leases prefix ops r) \<le> max 0 (m - window_count prefix r x)"
  using assms
proof (induction ops arbitrary: r)
  case (Cons a ops)
  obtain t op where a: "a = (t, op)" by (cases a)
  have "x - 1000 \<le> t" "t < x" "cps_limit op m" using Cons.prems(1) a by auto
  note L = lease_step_window [OF this(1,2) Cons.prems(2) this(3)]
  have "int (new_leases prefix ops (lease_step prefix op t r)) \<le>
      max 0 (m - window_count prefix (lease_step prefix op t r) x)"
    using Cons L by simp
  then show ?case using L a by auto
qed simp

section \<open>Isolation of trunks\<close>

text \<open>The admission state of a trunk: its leases and its window counter.\<close>

definition trunk_state :: "string \<Rightarrow> redis \<Rightarrow> zset option \<times> (int \<times> int) option" where
  "trunk_state prefix r = (r_zsets r (prefix @ '':leases''), r_counters r (prefix @ '':cps''))"

definition trunk_kept :: "string \<Rightarrow> world \<Rightarrow> world \<Rightarrow> bool" where
  "trunk_kept prefix w w' \<longleftrightarrow> trunk_state prefix (cache w') = trunk_state prefix (cache w)"

interpretation trunk_history: world_history "trunk_kept prefix" for prefix
  by unfold_locales (auto simp: trunk_kept_def)

lemma incr_window_other: "k \<noteq> k' \<Longrightarrow> r_counters (snd (incr_window r k win now)) k' = r_counters r k'"
  by (auto simp: incr_window_def split: option.split)

lemma trunk_state_put [simp]: "p \<noteq> q \<Longrightarrow> trunk_state p (put_zset r (q @ '':leases'') z) = trunk_state p r"
  by (simp add: trunk_state_def put_zset_def)

lemma trunk_state_incr:
  "p \<noteq> q \<Longrightarrow> trunk_state p (snd (incr_window r (q @ '':cps'') win now)) = trunk_state p r"
  by (simp add: trunk_state_def incr_window_other)

lemma scripts_other_trunk:
  assumes "p \<noteq> q"
  shows "trunk_state p (snd (acquire_script q l c k ttl now r)) = trunk_state p r"
    and "trunk_state p (snd (bind_script q l i now r)) = trunk_state p r"
    and "trunk_state p (release_command q l now r) = trunk_state p r"
    and "trunk_state p (refresh_add q l ttl now r) = trunk_state p r"
    and "trunk_state p (refresh_expire q ttl now r) = trunk_state p r"
  using assms trunk_state_incr [OF assms]
  by (simp_all add: acquire_script_def bind_script_def release_command_def refresh_add_def refresh_expire_def
      Let_def case_prod_unfold split: option.split)

lemma admission_other_trunk:
  assumes "admissionPrefix E b \<noteq> admissionPrefix E a" and "trunk_history.rely (admissionPrefix E b) E"
  shows "trunk_history.moves (admissionPrefix E b) (admission_Acquire E a l lim)"
    and "trunk_history.moves (admissionPrefix E b) (admission_Bind E a l c)"
    and "trunk_history.moves (admissionPrefix E b) (admission_Release E a l)"
    and "trunk_history.moves (admissionPrefix E b) (admission_Refresh E a c)"
  unfolding admission_Acquire_def AcquireCallLease_def admission_Bind_def BindCallLease_def
    admission_Release_def ReleaseCallLease_def admission_Refresh_def RefreshCallLease_def
  by (auto intro!: trunk_history.moves_intros trunk_history.redis_moves
      simp: assms(1) assms(2) [unfolded trunk_kept_def] trunk_kept_def scripts_other_trunk case_prod_unfold)

section \<open>The limiter as a specification\<close>

text \<open>
  What a trunk promises, in terms of the leases held and the attempts counted in the current window:
  a lease that is held is renewed, otherwise the attempt is counted and refused over the CPS limit or
  at the concurrent limit.
\<close>

definition admit_spec :: "limits \<Rightarrow> nat \<Rightarrow> int \<Rightarrow> bool \<Rightarrow> goerr + unit" where
  "admit_spec lim live attempts renewal =
     (if renewal then Inr ()
      else if attempts + 1 > MaxCPS lim then Inl ErrAdmissionCPS
      else if int live \<ge> MaxConcurrentCalls lim then Inl ErrAdmissionConcurrent
      else Inr ())"

definition attempts_at :: "string \<Rightarrow> redis \<Rightarrow> int \<Rightarrow> int" where
  "attempts_at prefix r now =
     (case r_counters r (prefix @ '':cps'') of None \<Rightarrow> 0 | Some (n, x) \<Rightarrow> if x \<le> now then 0 else n)"

lemma acquire_script_reason:
  assumes "leases_ok prefix r"
  shows "fst (acquire_script prefix lease cps cap ttl now r) =
    (if lease \<in> held prefix r now then ''ok''
     else if attempts_at prefix r now + 1 > cps then ''cps''
     else if int (card (held prefix r now)) \<ge> cap then ''concurrent'' else ''ok'')"
proof -
  let ?k = "prefix @ '':leases''"
  define z where "z = ZREMRANGEBYSCORE now (live_zset r ?k now)"
  note P = purge_members [OF assms(1), of now, folded z_def]
  have "ZSCORE z lease \<noteq> None \<longleftrightarrow> lease \<in> held prefix r now"
    using P(1) by (auto simp: ZSCORE_def dom_def)
  moreover have "fst (incr_window (put_zset r ?k z) (prefix @ '':cps'') 1000 now) = attempts_at prefix r now + 1"
    by (auto simp: incr_window_def attempts_at_def split: option.split)
  ultimately show ?thesis
    using P(3) by (simp add: acquire_script_def Let_def z_def [symmetric] case_prod_unfold)
qed

lemma admission_Acquire_quiet:
  assumes "quiet E" and "trunk \<noteq> uuid_Nil" and "lease \<noteq> []" and "1 \<le> MaxCPS lim" and "1 \<le> MaxConcurrentCalls lim"
  shows "run_state (admission_Acquire E trunk lease lim) w =
    (let s = acquire_script (admissionPrefix E trunk) lease (MaxCPS lim) (MaxConcurrentCalls lim) leaseMillis
               (clock E (tick w) div 1000) (cache w)
     in (if fst s = ''ok'' then Inr () else if fst s = ''cps'' then Inl ErrAdmissionCPS
         else if fst s = ''concurrent'' then Inl ErrAdmissionConcurrent
         else Inl (ErrorString ''trunk admission rejected''),
         w\<lparr>tick := Suc (tick w), cache := snd s\<rparr>))"
proof -
  have "admissionPrefix E trunk \<noteq> []" by (simp add: admissionPrefix_def)
  moreover have "0 < callAdmissionLeaseTTL" by (simp add: callAdmissionLeaseTTL_def)
  ultimately show ?thesis
    using assms by (simp add: admission_Acquire_def AcquireCallLease_def Let_def case_prod_unfold)
qed

section \<open>Properties\<close>

text \<open>
  C2: Whatever the order of acquisitions, moves of a lease to its call, releases and refreshes on a
  trunk, the number of leases held never exceeds the concurrent-call limit of the acquisitions, except
  for the leases that reconciliation gave back to calls that had lost theirs.
\<close>

theorem trunk_concurrency_bounded:
  assumes "leases_ok prefix r" and "sorted (t0 # map fst ops @ [t1])"
    and "int (card (held prefix r t0)) \<le> n" and "\<forall>(t, op) \<in> set ops. cap_limit op n"
  shows "int (card (held prefix (trunk_leases.trace prefix ops r) t1)) \<le>
    n + int (trunk_leases.restored prefix ops r)"
  by (rule trunk_leases.trace_card [OF assms(1-3)]) (use assms(4) in \<open>auto simp: cap_limit_def\<close>)

theorem trunk_concurrency_bounded_witness:
  "int (card (held ''t'' (trunk_leases.trace ''t''
      [(1, AcquireOp ''a'' 5 1), (2, AcquireOp ''b'' 5 1), (3, BindOp ''a'' ''c''), (4, RefreshOp ''c''),
       (5, AcquireOp ''d'' 5 1)] empty_redis) 6)) \<le> 1 + int (trunk_leases.restored ''t''
      [(1, AcquireOp ''a'' 5 1), (2, AcquireOp ''b'' 5 1), (3, BindOp ''a'' ''c''), (4, RefreshOp ''c''),
       (5, AcquireOp ''d'' 5 1)] empty_redis)"
  by (rule trunk_concurrency_bounded [of _ _ 0])
     (simp_all add: leases_ok_def cap_limit_def held_def members_def live_zset_def)

text \<open>
  During one window of the calls-per-second counter, acquisitions with limit \<open>m\<close> grant at most \<open>m\<close>
  leases that were not held before, whatever releases, moves and refreshes happen in between.
\<close>

theorem trunk_cps_bounded:
  assumes "\<forall>(t, op) \<in> set ops. x - 1000 \<le> t \<and> t < x \<and> cps_limit op m"
    and "window_ends prefix r x" and "0 \<le> window_count prefix r x" and "0 \<le> m"
  shows "int (new_leases prefix ops r) \<le> m"
  using new_leases_window [OF assms(1,2)] assms(3,4) by linarith

theorem trunk_cps_bounded_witness:
  "int (new_leases ''t'' [(1, AcquireOp ''a'' 1 9), (2, ReleaseOp ''a''), (3, AcquireOp ''b'' 1 9)] empty_redis) \<le> 1"
  by (rule trunk_cps_bounded [of _ 1000])
     (simp_all add: cps_limit_def window_ends_def window_count_def)

text \<open>
  C33: The limiter implements its specification: for valid arguments and a reachable Redis, the
  result of \<^verbatim>\<open>Acquire\<close> is the one the number of leases held and of attempts in the window call for.
\<close>

theorem admission_Acquire_meets_spec:
  assumes "quiet E" and "trunk \<noteq> uuid_Nil" and "lease \<noteq> []" and "1 \<le> MaxCPS lim"
    and "1 \<le> MaxConcurrentCalls lim" and "leases_ok (admissionPrefix E trunk) (cache w)"
  defines "now \<equiv> clock E (tick w) div 1000"
  shows "fst (run_state (admission_Acquire E trunk lease lim) w) =
    admit_spec lim (card (held (admissionPrefix E trunk) (cache w) now))
      (attempts_at (admissionPrefix E trunk) (cache w) now)
      (lease \<in> held (admissionPrefix E trunk) (cache w) now)"
  unfolding admission_Acquire_quiet [OF assms(1-5)] acquire_script_reason [OF assms(6)] Let_def fst_conv
  by (simp add: admit_spec_def now_def)

theorem admission_Acquire_meets_spec_witness:
  "fst (run_state (admission_Acquire sample_env 7 ''lease'' \<lparr>MaxCPS = 1, MaxConcurrentCalls = 2\<rparr>) empty_world) = Inr ()"
  by (subst admission_Acquire_meets_spec)
     (simp_all add: quiet_sample leases_ok_def held_def members_def live_zset_def admit_spec_def attempts_at_def)

text \<open>
  An operation of the limiter on one trunk never touches the leases or the window of another,
  whatever fails during it.
\<close>

theorem admission_trunks_isolated:
  assumes "inj (uuid_string E)" and "a \<noteq> b" and "\<forall>t w. trunk_kept (admissionPrefix E b) w (interference E t w)"
  shows "trunk_kept (admissionPrefix E b) w (snd (run_state (admission_Acquire E a l lim) w)) \<and>
    trunk_kept (admissionPrefix E b) w (snd (run_state (admission_Bind E a l c) w)) \<and>
    trunk_kept (admissionPrefix E b) w (snd (run_state (admission_Release E a l) w)) \<and>
    trunk_kept (admissionPrefix E b) w (snd (run_state (admission_Refresh E a c) w))"
proof -
  have "admissionPrefix E b \<noteq> admissionPrefix E a"
    using assms(1,2) by (auto simp: admissionPrefix_def dest: injD)
  note M = admission_other_trunk [OF this assms(3)]
  show ?thesis by (intro conjI trunk_history.movesD M)
qed

theorem admission_trunks_isolated_witness:
  "trunk_kept (admissionPrefix sample_env 2) empty_world
     (snd (run_state (admission_Acquire sample_env 1 ''l'' \<lparr>MaxCPS = 1, MaxConcurrentCalls = 2\<rparr>) empty_world))"
  using admission_trunks_isolated [OF inj_sample, of 1 2 empty_world] by (simp add: sample_env_def trunk_kept_def)

end
