(* ===== verification/Lifecycle.thy ===== *)
theory Lifecycle
  imports CallRequests Admission
begin

text \<open>
  Lifecycle events of calls: \<^verbatim>\<open>telephony/calls/lifecycle.go\<close>, the reconciliation job
  (\<^verbatim>\<open>jobs.go\<close>) and the consumer of lifecycle events (\<^verbatim>\<open>consumer.go\<close>). Shown: an event applies
  exactly when the state machine allows its transition, a replayed event is acknowledged without a
  second transition or outbox event, and a terminal event frees the channel and the trunk lease.
\<close>

section \<open>Operations\<close>

datatype lifecycle_type =
    LifecycleInitiated | LifecycleRinging | LifecycleAnswered | LifecycleActive | LifecycleHeld
  | LifecycleResumed | LifecycleCompleted | LifecycleFailed | LifecycleCancelled
  | LifecycleOther string

record lifecycle_event =
  v_call_id :: uuid
  v_channel_id :: string
  v_sip_call_id :: string
  v_type :: lifecycle_type
  v_occurred_at :: int
  v_hangup_reason :: "string option"

definition isTerminalLifecycle :: "lifecycle_type \<Rightarrow> bool" where
  "isTerminalLifecycle t \<longleftrightarrow> t = LifecycleCompleted \<or> t = LifecycleFailed \<or> t = LifecycleCancelled"

fun lifecycleAlreadyApplied :: "snapshot \<Rightarrow> lifecycle_type \<Rightarrow> bool" where
  "lifecycleAlreadyApplied s LifecycleInitiated \<longleftrightarrow> True"
| "lifecycleAlreadyApplied s LifecycleRinging \<longleftrightarrow> s_state s \<noteq> Initiating"
| "lifecycleAlreadyApplied s LifecycleAnswered \<longleftrightarrow>
     s_state s = Answered \<or> s_state s = Active \<or> isTerminalState (s_state s)"
| "lifecycleAlreadyApplied s LifecycleActive \<longleftrightarrow> s_state s = Active \<or> isTerminalState (s_state s)"
| "lifecycleAlreadyApplied s LifecycleHeld \<longleftrightarrow> s_media_state s = MediaHeld \<or> isTerminalState (s_state s)"
| "lifecycleAlreadyApplied s LifecycleResumed \<longleftrightarrow> s_media_state s = MediaActive \<or> isTerminalState (s_state s)"
| "lifecycleAlreadyApplied s LifecycleCompleted \<longleftrightarrow> isTerminalState (s_state s)"
| "lifecycleAlreadyApplied s LifecycleFailed \<longleftrightarrow> isTerminalState (s_state s)"
| "lifecycleAlreadyApplied s LifecycleCancelled \<longleftrightarrow> isTerminalState (s_state s)"
| "lifecycleAlreadyApplied s (LifecycleOther x) \<longleftrightarrow> False"

definition translated :: "(world, goerr + call) state \<Rightarrow> (world, goerr + call) state" where
  "translated m = do {
     r \<leftarrow> m;
     case r of
       Inl e \<Rightarrow> State_Monad.return (Inl (translateMutationError e))
     | Inr c \<Rightarrow> State_Monad.return (Inr c)
   }"

definition transition ::
  "env \<Rightarrow> uuid \<Rightarrow> uuid \<Rightarrow> (uuid \<Rightarrow> uuid \<Rightarrow> (world, goerr + call) state) \<Rightarrow> (world, goerr + call) state" where
  "transition E org i fn =
     (case validateIDs org i of
        Inl e \<Rightarrow> State_Monad.return (Inl e)
      | Inr _ \<Rightarrow> translated (fn org i))"

definition svc_MarkRinging :: "env \<Rightarrow> uuid \<Rightarrow> uuid \<Rightarrow> (world, goerr + call) state" where
  "svc_MarkRinging E org i = transition E org i (repo_MarkRinging E)"

definition svc_MarkAnswered :: "env \<Rightarrow> uuid \<Rightarrow> uuid \<Rightarrow> (world, goerr + call) state" where
  "svc_MarkAnswered E org i = transition E org i (repo_MarkAnswered E)"

definition svc_MarkActive :: "env \<Rightarrow> uuid \<Rightarrow> uuid \<Rightarrow> (world, goerr + call) state" where
  "svc_MarkActive E org i = transition E org i (repo_MarkActive E)"

definition svc_MarkHeld :: "env \<Rightarrow> uuid \<Rightarrow> uuid \<Rightarrow> (world, goerr + call) state" where
  "svc_MarkHeld E org i = transition E org i (repo_MarkHeld E)"

definition svc_MarkResumed :: "env \<Rightarrow> uuid \<Rightarrow> uuid \<Rightarrow> (world, goerr + call) state" where
  "svc_MarkResumed E org i = transition E org i (repo_MarkResumed E)"

definition svc_MarkCompleted :: "env \<Rightarrow> uuid \<Rightarrow> uuid \<Rightarrow> string option \<Rightarrow> (world, goerr + call) state" where
  "svc_MarkCompleted E org i reason =
     (case validateIDs org i of
        Inl e \<Rightarrow> State_Monad.return (Inl e)
      | Inr _ \<Rightarrow> translated (repo_MarkCompleted E org i (normalizeOptionalReason reason)))"

definition svc_MarkFailed :: "env \<Rightarrow> uuid \<Rightarrow> uuid \<Rightarrow> string option \<Rightarrow> (world, goerr + call) state" where
  "svc_MarkFailed E org i reason =
     (case validateIDs org i of
        Inl e \<Rightarrow> State_Monad.return (Inl e)
      | Inr _ \<Rightarrow> translated (repo_MarkFailed E org i (normalizeOptionalReason reason)))"

definition svc_MarkCancelled :: "env \<Rightarrow> uuid \<Rightarrow> uuid \<Rightarrow> string option \<Rightarrow> (world, goerr + call) state" where
  "svc_MarkCancelled E org i reason =
     (case validateIDs org i of
        Inl e \<Rightarrow> State_Monad.return (Inl e)
      | Inr _ \<Rightarrow> translated (repo_MarkCancelled E org i (normalizeOptionalReason reason)))"

text \<open>The channel and the lease are given back when a call has ended; failures are ignored.\<close>

definition free_call :: "env \<Rightarrow> uuid option \<Rightarrow> uuid \<Rightarrow> (world, unit) state" where
  "free_call E trunk i = do {
     _ \<leftarrow> channels_Delete E i;
     case trunk of
       None \<Rightarrow> State_Monad.return ()
     | Some t \<Rightarrow> do { _ \<leftarrow> admission_Release E t (uuid_string E i); State_Monad.return () }
   }"

text \<open>The switch of \<^verbatim>\<open>ObserveLifecycle\<close>: \<open>None\<close> where it returns without a transition.\<close>

definition apply_transition :: "env \<Rightarrow> uuid \<Rightarrow> lifecycle_event \<Rightarrow> (world, (goerr + call) option) state" where
  "apply_transition E org v =
     (let i = v_call_id v; some = (\<lambda>m. do { r \<leftarrow> m; State_Monad.return (Some r) })
      in case v_type v of
           LifecycleInitiated \<Rightarrow> State_Monad.return None
         | LifecycleRinging \<Rightarrow> some (svc_MarkRinging E org i)
         | LifecycleAnswered \<Rightarrow> some (svc_MarkAnswered E org i)
         | LifecycleActive \<Rightarrow> some (svc_MarkActive E org i)
         | LifecycleHeld \<Rightarrow> some (svc_MarkHeld E org i)
         | LifecycleResumed \<Rightarrow> some (svc_MarkResumed E org i)
         | LifecycleCompleted \<Rightarrow> some (svc_MarkCompleted E org i (v_hangup_reason v))
         | LifecycleFailed \<Rightarrow> some (svc_MarkFailed E org i (v_hangup_reason v))
         | LifecycleCancelled \<Rightarrow> some (svc_MarkCancelled E org i (v_hangup_reason v))
         | LifecycleOther _ \<Rightarrow>
             State_Monad.return (Some (Inl (NewBadRequest ''unsupported call lifecycle event''))))"

definition finish_transition :: "env \<Rightarrow> snapshot \<Rightarrow> lifecycle_event \<Rightarrow> (world, goerr + unit) state" where
  "finish_transition E s v = do {
     r \<leftarrow> apply_transition E (s_organization_id s) v;
     case r of
       None \<Rightarrow> State_Monad.return (Inr ())
     | Some (Inl e) \<Rightarrow> State_Monad.return (Inl e)
     | Some (Inr _) \<Rightarrow>
         if isTerminalLifecycle (v_type v)
         then do { _ \<leftarrow> free_call E (s_trunk_id s) (v_call_id v); State_Monad.return (Inr ()) }
         else State_Monad.return (Inr ())
   }"

text \<open>From the refresh of the lease on, with the snapshot read and the SIP Call-ID bound.\<close>

definition observe_apply :: "env \<Rightarrow> snapshot \<Rightarrow> lifecycle_event \<Rightarrow> (world, goerr + unit) state" where
  "observe_apply E s v =
     (let i = v_call_id v; terminal_event = isTerminalLifecycle (v_type v);
          continue =
            (if lifecycleAlreadyApplied s (v_type v)
             then if terminal_event
                  then do { _ \<leftarrow> free_call E (s_trunk_id s) i; State_Monad.return (Inr ()) }
                  else State_Monad.return (Inr ())
             else finish_transition E s v)
      in case s_trunk_id s of
           None \<Rightarrow> continue
         | Some t \<Rightarrow>
             if terminal_event then continue
             else do {
               r \<leftarrow> admission_Refresh E t i;
               case r of
                 Inl e \<Rightarrow> State_Monad.return (Inl (NewServiceUnavailable ''refresh trunk call lease'' e))
               | Inr _ \<Rightarrow> continue
             })"

definition observe_snapshot :: "env \<Rightarrow> lifecycle_event \<Rightarrow> (world, goerr + unit) state" where
  "observe_snapshot E v = do {
     r \<leftarrow> repo_GetLifecycleSnapshot E (v_call_id v);
     case r of
       Inl e \<Rightarrow>
         if error_is e ErrNoRows then State_Monad.return (Inr ())
         else State_Monad.return (Inl (NewInternal ''resolve lifecycle call'' e))
     | Inr s \<Rightarrow>
         let sip = trim_space (v_sip_call_id v)
         in if s_direction s = Outbound \<and> sip \<noteq> []
            then do {
              b \<leftarrow> repo_BindOutboundSIPCallID E (s_organization_id s) (v_call_id v) sip;
              case b of
                Inl e \<Rightarrow>
                  if error_is e ErrNoRows
                  then State_Monad.return (Inl (NewConflict ''outbound SIP Call-ID conflicts with existing call identity''))
                  else State_Monad.return (Inl (NewInternal ''persist outbound SIP Call-ID'' e))
              | Inr _ \<Rightarrow> observe_apply E s v
            }
            else observe_apply E s v
   }"

definition ObserveLifecycle :: "env \<Rightarrow> lifecycle_event \<Rightarrow> (world, goerr + unit) state" where
  "ObserveLifecycle E v =
     (if v_call_id v = uuid_Nil
      then State_Monad.return (Inl (NewBadRequest ''call lifecycle event requires call id''))
      else if v_channel_id v \<noteq> [] \<and> \<not> isTerminalLifecycle (v_type v)
      then do {
        r \<leftarrow> channels_Bind E (v_call_id v) (v_channel_id v);
        case r of
          Inl e \<Rightarrow> State_Monad.return (Inl (NewInternal ''bind call channel'' e))
        | Inr _ \<Rightarrow> observe_snapshot E v
      }
      else observe_snapshot E v)"

text \<open>\<^verbatim>\<open>ResolveLifecycleCall\<close>: \<open>None\<close> stands for the zero call it returns for an unknown id.\<close>

definition ResolveLifecycleCall :: "env \<Rightarrow> uuid \<Rightarrow> (world, goerr + call option) state" where
  "ResolveLifecycleCall E i =
     (if i = uuid_Nil then State_Monad.return (Inl (NewBadRequest ''call lifecycle event requires call id''))
      else do {
        r \<leftarrow> repo_GetLifecycleSnapshot E i;
        case r of
          Inl e \<Rightarrow>
            if error_is e ErrNoRows then State_Monad.return (Inr None)
            else State_Monad.return (Inl (NewInternal ''resolve lifecycle call'' e))
        | Inr s \<Rightarrow> do {
            c \<leftarrow> repo_Get E (s_organization_id s) i;
            case c of
              Inl e \<Rightarrow>
                if error_is e ErrNoRows then State_Monad.return (Inr None)
                else State_Monad.return (Inl (NewInternal ''get lifecycle call'' e))
            | Inr x \<Rightarrow> State_Monad.return (Inr (Some x))
          }
      })"

definition HandleLifecycle :: "env \<Rightarrow> lifecycle_event \<Rightarrow> (world, goerr + unit) state" where
  "HandleLifecycle E v = do {
     r \<leftarrow> ObserveLifecycle E v;
     case r of
       Inl e \<Rightarrow> State_Monad.return (Inl (Wrap ''handle call lifecycle event'' e))
     | Inr _ \<Rightarrow> State_Monad.return (Inr ())
   }"

section \<open>Reconciliation\<close>

fun refresh_all :: "env \<Rightarrow> (uuid \<times> uuid) list \<Rightarrow> (world, goerr + unit) state" where
  "refresh_all E [] = State_Monad.return (Inr ())"
| "refresh_all E ((i, t) # rest) = do {
     r \<leftarrow> admission_Refresh E t i;
     case r of
       Inl e \<Rightarrow> State_Monad.return (Inl (Wrap ''refresh admission lease for call'' e))
     | Inr _ \<Rightarrow> refresh_all E rest
   }"

definition Reconcile :: "env \<Rightarrow> (world, goerr + unit) state" where
  "Reconcile E = do {
     r \<leftarrow> repo_ListActive E;
     case r of
       Inl e \<Rightarrow> State_Monad.return (Inl (Wrap ''list calls for admission reconciliation'' e))
     | Inr active \<Rightarrow> refresh_all E active
   }"

text \<open>\<^verbatim>\<open>NewReconciliationJob\<close> defaults the interval; \<^verbatim>\<open>Run\<close> makes one pass and one more per tick, logging errors.\<close>

definition NewReconciliationJob :: "bool \<Rightarrow> bool \<Rightarrow> int \<Rightarrow> goerr + int" where
  "NewReconciliationJob has_repo has_service interval =
     (if \<not> has_repo then Inl (ErrorString ''call reconciliation repository is required'')
      else if \<not> has_service then Inl (ErrorString ''call reconciliation service is required'')
      else Inr (if interval \<le> 0 then 30 * second else interval))"

fun reconciliation_Run :: "env \<Rightarrow> nat \<Rightarrow> (world, goerr + unit) state" where
  "reconciliation_Run E 0 = do { _ \<leftarrow> Reconcile E; State_Monad.return (Inr ()) }"
| "reconciliation_Run E (Suc ticks) = do { _ \<leftarrow> Reconcile E; reconciliation_Run E ticks }"

section \<open>Every handler moves along the platform relations\<close>

context data_effects
begin

lemma channel_moves:
  assumes "rely E"
  shows "moves (channels_Bind E i c)" "moves (channels_Get E i)" "moves (channels_Delete E i)"
  unfolding channels_Bind_def channels_Get_def channels_Delete_def Let_def
  by (auto intro!: moves_intros redis_call_moves assms split: option.split)

lemma admission_moves:
  assumes "rely E"
  shows "moves (admission_Acquire E t l lim)" "moves (admission_Bind E t l i)"
    "moves (admission_Release E t l)" "moves (admission_Refresh E t i)"
  unfolding admission_Acquire_def AcquireCallLease_def admission_Bind_def BindCallLease_def
    admission_Release_def ReleaseCallLease_def admission_Refresh_def RefreshCallLease_def
  by (auto intro!: moves_intros redis_call_moves assms)

lemma free_call_moves: "rely E \<Longrightarrow> moves (free_call E t i)"
  unfolding free_call_def by (intro moves_intros channel_moves admission_moves)

lemma refresh_all_moves: "rely E \<Longrightarrow> moves (refresh_all E xs)"
  by (induction xs rule: refresh_all.induct) (auto intro!: moves_intros admission_moves)

lemma Reconcile_moves: "rely E \<Longrightarrow> moves (Reconcile E)"
  unfolding Reconcile_def by (intro moves_intros repo_reads_move refresh_all_moves)

lemma reconciliation_Run_moves: "rely E \<Longrightarrow> moves (reconciliation_Run E n)"
  by (induction n) (auto intro!: moves_intros Reconcile_moves)

end

context data_platform
begin

lemma translated_moves: "moves m \<Longrightarrow> moves (translated m)"
  unfolding translated_def by (intro moves_intros)

lemma service_marks_move:
  assumes "rely E"
  shows "moves (svc_MarkRinging E org i)" "moves (svc_MarkAnswered E org i)" "moves (svc_MarkActive E org i)"
    "moves (svc_MarkHeld E org i)" "moves (svc_MarkResumed E org i)" "moves (svc_MarkCompleted E org i rs)"
    "moves (svc_MarkFailed E org i rs)" "moves (svc_MarkCancelled E org i rs)"
  unfolding svc_MarkRinging_def svc_MarkAnswered_def svc_MarkActive_def svc_MarkHeld_def svc_MarkResumed_def
    svc_MarkCompleted_def svc_MarkFailed_def svc_MarkCancelled_def transition_def
  by (intro moves_intros translated_moves repo_moves assms)+

lemma apply_transition_moves: "rely E \<Longrightarrow> moves (apply_transition E org v)"
  unfolding apply_transition_def Let_def
  by (cases "v_type v") (auto intro!: moves_intros service_marks_move)

lemma finish_transition_moves: "rely E \<Longrightarrow> moves (finish_transition E s v)"
  unfolding finish_transition_def
  by (intro moves_intros apply_transition_moves free_call_moves)

lemma observe_apply_moves: "rely E \<Longrightarrow> moves (observe_apply E s v)"
  unfolding observe_apply_def Let_def
  by (intro moves_intros admission_moves finish_transition_moves free_call_moves)

lemma ObserveLifecycle_moves: "rely E \<Longrightarrow> moves (ObserveLifecycle E v)"
  unfolding ObserveLifecycle_def observe_snapshot_def Let_def
  by (intro moves_intros channel_moves repo_moves observe_apply_moves)

lemma HandleLifecycle_moves: "rely E \<Longrightarrow> moves (HandleLifecycle E v)"
  unfolding HandleLifecycle_def by (intro moves_intros ObserveLifecycle_moves)

end

section \<open>Replayed events\<close>

text \<open>An environment in which no other process writes the database during the handler.\<close>

definition database_alone :: "env \<Rightarrow> bool" where
  "database_alone E \<longleftrightarrow> (\<forall>t w. database (interference E t w) = database w)"

lemma database_alone_rely: "database_alone E \<Longrightarrow> phase_changes.rely E"
  by (simp add: database_alone_def phases_kept_def keeps_phases_refl)

lemma query_alone:
  assumes "database_alone E" and "run_state (query E f) w = (r, w')"
  shows "r = f (database w) \<or> r = Inl (IOError (tick w))"
  using assms by (auto simp: query_def external_def Let_def database_alone_def split: fault.splits)

lemma channels_Bind_database:
  assumes "database_alone E" and "run_state (channels_Bind E i c) w = (r, w')"
  shows "database w' = database w"
  using assms
  by (auto simp: channels_Bind_def Let_def redis_call_def external_def database_alone_def
      split: if_splits fault.splits prod.splits)

lemma observe_apply_applied:
  assumes "phase_changes.rely E" and "lifecycleAlreadyApplied s (v_type v)"
  shows "phase_changes.moves (observe_apply E s v)"
  using assms unfolding observe_apply_def Let_def
  by (auto intro!: phase_changes.moves_intros phase_changes.admission_moves phase_changes.free_call_moves)

lemma observe_snapshot_applied:
  assumes "database_alone E" and "\<And>s. GetCallLifecycleSnapshot (v_call_id v) (database w) = Inr s \<Longrightarrow>
      lifecycleAlreadyApplied s (v_type v)"
  shows "phases_kept w (snd (run_state (observe_snapshot E v) w))"
  unfolding observe_snapshot_def
proof (rule phase_changes.bind_moves_from, rule conjI)
  fix r w1
  assume run: "run_state (repo_GetLifecycleSnapshot E (v_call_id v)) w = (r, w1)"
  note rely = database_alone_rely [OF assms(1)]
  show "phases_kept w w1"
    using phase_changes.movesD [OF phase_changes.repo_reads_move(4) [OF rely], of w] run by (metis snd_conv)
  have app: "lifecycleAlreadyApplied s (v_type v)" if "r = Inr s" for s
    using query_alone [OF assms(1) run [unfolded repo_GetLifecycleSnapshot_def]] assms(2) [of s] that by auto
  show "phases_kept w1 (snd (run_state (case r of
        Inl e \<Rightarrow> if error_is e ErrNoRows then State_Monad.return (Inr ())
           else State_Monad.return (Inl (NewInternal ''resolve lifecycle call'' e))
      | Inr s \<Rightarrow> let sip = trim_space (v_sip_call_id v)
         in if s_direction s = Outbound \<and> sip \<noteq> []
            then repo_BindOutboundSIPCallID E (s_organization_id s) (v_call_id v) sip \<bind> (\<lambda>b. case b of
                Inl e \<Rightarrow> if error_is e ErrNoRows
                  then State_Monad.return (Inl (NewConflict ''outbound SIP Call-ID conflicts with existing call identity''))
                  else State_Monad.return (Inl (NewInternal ''persist outbound SIP Call-ID'' e))
              | Inr _ \<Rightarrow> observe_apply E s v)
            else observe_apply E s v) w1))"
  proof (cases r)
    case (Inr s)
    show ?thesis
      unfolding Inr sum.case Let_def
      by (intro phase_changes.movesD phase_changes.moves_intros phase_changes.repo_reads_move rely
          observe_apply_applied app [OF Inr])
  qed (simp add: phase_changes.refl)
qed

lemma ObserveLifecycle_applied:
  assumes "database_alone E" and "\<And>s. GetCallLifecycleSnapshot (v_call_id v) (database w) = Inr s \<Longrightarrow>
      lifecycleAlreadyApplied s (v_type v)"
  shows "phases_kept w (snd (run_state (ObserveLifecycle E v) w))"
proof -
  let ?bind = "channels_Bind E (v_call_id v) (v_channel_id v)"
  have "phases_kept w (snd (run_state (?bind \<bind> (\<lambda>r. case r of
      Inl e \<Rightarrow> State_Monad.return (Inl (NewInternal ''bind call channel'' e))
    | Inr _ \<Rightarrow> observe_snapshot E v)) w))"
  proof (rule phase_changes.bind_moves_from, rule conjI)
    fix r w1 assume run: "run_state ?bind w = (r, w1)"
    then have d: "database w1 = database w" by (rule channels_Bind_database [OF assms(1)])
    then show "phases_kept w w1" by (simp add: phases_kept_def keeps_phases_refl)
    show "phases_kept w1 (snd (run_state (case r of
        Inl e \<Rightarrow> State_Monad.return (Inl (NewInternal ''bind call channel'' e))
      | Inr _ \<Rightarrow> observe_snapshot E v) w1))"
      using observe_snapshot_applied [OF assms(1), of v w1] assms(2) d
      by (simp add: phase_changes.refl split: sum.split)
  qed
  with observe_snapshot_applied [OF assms] show ?thesis
    unfolding ObserveLifecycle_def by (simp add: phase_changes.refl)
qed

section \<open>Transitions of a fault-free run\<close>

lemma snapshot_in_table:
  assumes "distinct (map c_id (calls d))" and "c \<in> set (calls d)"
  shows "GetCallLifecycleSnapshot (c_id c) d = Inr (snapshot_of c)"
proof -
  obtain x where x: "find (\<lambda>y. c_id y = c_id c) (calls d) = Some x"
    using assms(2) by (cases "find (\<lambda>y. c_id y = c_id c) (calls d)") (auto simp: find_None_iff)
  then have "x \<in> set (calls d)" "c_id x = c_id c" by (auto simp: find_Some_iff)
  then have "x = c" using assms by (auto simp: distinct_map dest: inj_onD)
  with x show ?thesis by (simp add: GetCallLifecycleSnapshot_def select_one_def)
qed

lemma snapshot_missing:
  "GetCallLifecycleSnapshot i d = Inl e \<Longrightarrow> e = ErrNoRows \<and> i \<notin> c_id ` set (calls d)"
  by (auto simp: GetCallLifecycleSnapshot_def map_sum_def split: sum.splits dest!: select_one_Inl)

lemma moves_one_snapshot:
  assumes "moves_one d c' d'" and "distinct (map c_id (calls d))"
  shows "distinct (map c_id (calls d'))" and "GetCallLifecycleSnapshot (c_id c') d' = Inr (snapshot_of c')"
proof -
  from assms(1) obtain P f c where c: "c \<in> set (calls d)" "P c" "c' = f c"
    and d': "d' = d\<lparr>calls := update_where P f (calls d)\<rparr>"
    and P: "\<And>x. P x \<Longrightarrow> call_row_evolves x (f x)"
    unfolding moves_one_def by blast
  have "map c_id (calls d') = map c_id (calls d)" unfolding d' by (simp add: update_where_ids P)
  with assms(2) show dd: "distinct (map c_id (calls d'))" by simp
  have "c' \<in> set (calls d')" using c d' by (simp add: set_update_where)
  with dd show "GetCallLifecycleSnapshot (c_id c') d' = Inr (snapshot_of c')" by (rule snapshot_in_table)
qed

text \<open>The phase a successful transition leaves behind makes the event an applied one.\<close>

lemma update_call_row:
  assumes "update_call P f now d = Inr (c', d')"
  obtains c where "P c" "c' = (f c)\<lparr>c_updated_at := now\<rparr>"
  using assms by (auto simp: update_call_def elim!: update_one_Inr split: sum.splits if_splits prod.splits)

lemma marks_apply:
  "MarkCallRinging org i now d = Inr (c, d') \<Longrightarrow> c_id c = i \<and> lifecycleAlreadyApplied (snapshot_of c) LifecycleRinging"
  "MarkCallAnswered org i now d = Inr (c, d') \<Longrightarrow> c_id c = i \<and> lifecycleAlreadyApplied (snapshot_of c) LifecycleAnswered"
  "MarkCallActive org i now d = Inr (c, d') \<Longrightarrow> c_id c = i \<and> lifecycleAlreadyApplied (snapshot_of c) LifecycleActive"
  "MarkCallHeld org i now d = Inr (c, d') \<Longrightarrow> c_id c = i \<and> lifecycleAlreadyApplied (snapshot_of c) LifecycleHeld"
  "MarkCallResumed org i now d = Inr (c, d') \<Longrightarrow> c_id c = i \<and> lifecycleAlreadyApplied (snapshot_of c) LifecycleResumed"
  "MarkCallCompleted rs org i now d = Inr (c, d') \<Longrightarrow> c_id c = i \<and> lifecycleAlreadyApplied (snapshot_of c) LifecycleCompleted"
  "MarkCallFailed rs org i now d = Inr (c, d') \<Longrightarrow> c_id c = i \<and> lifecycleAlreadyApplied (snapshot_of c) LifecycleFailed"
  "MarkCallCancelled rs org i now d = Inr (c, d') \<Longrightarrow> c_id c = i \<and> lifecycleAlreadyApplied (snapshot_of c) LifecycleCancelled"
  unfolding MarkCallRinging_def MarkCallAnswered_def MarkCallActive_def MarkCallHeld_def MarkCallResumed_def
    MarkCallCompleted_def MarkCallFailed_def MarkCallCancelled_def
  by (erule update_call_row; simp add: scoped_def snapshot_of_def isTerminalState_def end_call_def)+

definition applied_after :: "lifecycle_event \<Rightarrow> db \<Rightarrow> bool" where
  "applied_after v d \<longleftrightarrow> distinct (map c_id (calls d)) \<and>
     (\<forall>s. GetCallLifecycleSnapshot (v_call_id v) d = Inr s \<longrightarrow> lifecycleAlreadyApplied s (v_type v))"

lemma applied_phase:
  "s_state s = s_state s' \<Longrightarrow> s_media_state s = s_media_state s' \<Longrightarrow>
   lifecycleAlreadyApplied s t = lifecycleAlreadyApplied s' t"
  by (cases t) simp_all

lemma snapshot_row:
  assumes "GetCallLifecycleSnapshot i d = Inr s"
  obtains n where "n < length (calls d)" "c_id (calls d ! n) = i" "s = snapshot_of (calls d ! n)"
  using assms that
  by (auto simp: GetCallLifecycleSnapshot_def map_sum_def in_set_conv_nth split: sum.splits dest!: select_one_Inr)

lemma applied_after_phases:
  assumes "applied_after v d" and "keeps_phases d d'"
  shows "applied_after v d'"
proof -
  have ids: "map c_id (calls d') = map c_id (calls d)" and ph: "map phase_of (calls d') = map phase_of (calls d)"
    using assms(2) by (simp_all add: keeps_phases_def)
  have len: "length (calls d') = length (calls d)" using ids by (metis length_map)
  have "lifecycleAlreadyApplied s' (v_type v)" if "GetCallLifecycleSnapshot (v_call_id v) d' = Inr s'" for s'
    using that
  proof (rule snapshot_row)
    fix n assume n: "n < length (calls d')" "c_id (calls d' ! n) = v_call_id v" "s' = snapshot_of (calls d' ! n)"
    have c: "c_id (calls d ! n) = v_call_id v" "phase_of (calls d ! n) = phase_of (calls d' ! n)"
      using n(1,2) len ids ph by (metis nth_map)+
    have "GetCallLifecycleSnapshot (v_call_id v) d = Inr (snapshot_of (calls d ! n))"
      using snapshot_in_table [of d "calls d ! n"] assms(1) n(1) len c(1) by (simp add: applied_after_def)
    then have "lifecycleAlreadyApplied (snapshot_of (calls d ! n)) (v_type v)"
      using assms(1) by (simp add: applied_after_def)
    then show ?thesis
      using c(2) n(3) applied_phase [of "snapshot_of (calls d ! n)" s' "v_type v"]
      by (simp add: phase_of_def snapshot_of_def)
  qed
  then show ?thesis using assms(1) ids by (simp add: applied_after_def)
qed

lemma mutate_quiet:
  assumes "quiet E" and "run_state (mutate E ev q) w = (Inr c, w')"
  obtains i now d1 where "q i now (database w) = Inr (c, d1)" "calls (database w') = calls d1"
  using assms that
  by (auto simp: mutate_def split: sum.splits prod.splits dest!: call_event_appends(1))

lemma mark_applies:
  assumes "quiet E" and "run_state (mutate E ev (\<lambda>_. q)) w = (Inr c, w')"
    and "distinct (map c_id (calls (database w)))"
    and "\<And>now d c d'. q now d = Inr (c, d') \<Longrightarrow> moves_one d c d'"
    and "\<And>now d c d'. q now d = Inr (c, d') \<Longrightarrow> c_id c = v_call_id v \<and> lifecycleAlreadyApplied (snapshot_of c) (v_type v)"
  shows "applied_after v (database w')"
proof -
  from mutate_quiet [OF assms(1,2)] obtain now d1
    where q: "q now (database w) = Inr (c, d1)" and d1: "calls (database w') = calls d1" by blast
  note M = moves_one_snapshot [OF assms(4) [OF q] assms(3)]
  note A = assms(5) [OF q]
  have "GetCallLifecycleSnapshot i (database w') = GetCallLifecycleSnapshot i d1" for i
    using d1 by (simp add: GetCallLifecycleSnapshot_def)
  with M A d1 show ?thesis by (simp add: applied_after_def)
qed

lemma translated_Inr: "run_state (translated m) w = (Inr c, w') \<Longrightarrow> run_state m w = (Inr c, w')"
  by (auto simp: translated_def split: sum.splits prod.splits)

lemma svc_Inr:
  "run_state (svc_MarkRinging E org i) w = (Inr c, w') \<Longrightarrow> run_state (mutate E ''call.ringing'' (\<lambda>_. MarkCallRinging org i)) w = (Inr c, w')"
  "run_state (svc_MarkAnswered E org i) w = (Inr c, w') \<Longrightarrow> run_state (mutate E ''call.answered'' (\<lambda>_. MarkCallAnswered org i)) w = (Inr c, w')"
  "run_state (svc_MarkActive E org i) w = (Inr c, w') \<Longrightarrow> run_state (mutate E ''call.active'' (\<lambda>_. MarkCallActive org i)) w = (Inr c, w')"
  "run_state (svc_MarkHeld E org i) w = (Inr c, w') \<Longrightarrow> run_state (mutate E ''call.held'' (\<lambda>_. MarkCallHeld org i)) w = (Inr c, w')"
  "run_state (svc_MarkResumed E org i) w = (Inr c, w') \<Longrightarrow> run_state (mutate E ''call.resumed'' (\<lambda>_. MarkCallResumed org i)) w = (Inr c, w')"
  "run_state (svc_MarkCompleted E org i rs) w = (Inr c, w') \<Longrightarrow>
     run_state (mutate E ''call.completed'' (\<lambda>_. MarkCallCompleted (normalizeOptionalReason rs) org i)) w = (Inr c, w')"
  "run_state (svc_MarkFailed E org i rs) w = (Inr c, w') \<Longrightarrow>
     run_state (mutate E ''call.failed'' (\<lambda>_. MarkCallFailed (normalizeOptionalReason rs) org i)) w = (Inr c, w')"
  "run_state (svc_MarkCancelled E org i rs) w = (Inr c, w') \<Longrightarrow>
     run_state (mutate E ''call.cancelled'' (\<lambda>_. MarkCallCancelled (normalizeOptionalReason rs) org i)) w = (Inr c, w')"
  unfolding svc_MarkRinging_def svc_MarkAnswered_def svc_MarkActive_def svc_MarkHeld_def svc_MarkResumed_def
    svc_MarkCompleted_def svc_MarkFailed_def svc_MarkCancelled_def transition_def
    repo_MarkRinging_def repo_MarkAnswered_def repo_MarkActive_def repo_MarkHeld_def repo_MarkResumed_def
    repo_MarkCompleted_def repo_MarkFailed_def repo_MarkCancelled_def
  by (auto split: sum.splits dest: translated_Inr)

lemma apply_transition_applies:
  assumes "quiet E" and "run_state (apply_transition E org v) w = (Some (Inr c), w')"
    and "distinct (map c_id (calls (database w)))"
  shows "applied_after v (database w')"
proof (cases "v_type v")
  case LifecycleRinging
  with assms(2) have "run_state (svc_MarkRinging E org (v_call_id v)) w = (Inr c, w')"
    by (auto simp: apply_transition_def split: prod.splits)
  then show ?thesis
    by (rule mark_applies [OF assms(1) svc_Inr(1) assms(3)])
       (erule mark_moves_one(1), unfold LifecycleRinging, erule marks_apply(1))
next
  case LifecycleAnswered
  with assms(2) have "run_state (svc_MarkAnswered E org (v_call_id v)) w = (Inr c, w')"
    by (auto simp: apply_transition_def split: prod.splits)
  then show ?thesis
    by (rule mark_applies [OF assms(1) svc_Inr(2) assms(3)])
       (erule mark_moves_one(2), unfold LifecycleAnswered, erule marks_apply(2))
next
  case LifecycleActive
  with assms(2) have "run_state (svc_MarkActive E org (v_call_id v)) w = (Inr c, w')"
    by (auto simp: apply_transition_def split: prod.splits)
  then show ?thesis
    by (rule mark_applies [OF assms(1) svc_Inr(3) assms(3)])
       (erule mark_moves_one(3), unfold LifecycleActive, erule marks_apply(3))
next
  case LifecycleHeld
  with assms(2) have "run_state (svc_MarkHeld E org (v_call_id v)) w = (Inr c, w')"
    by (auto simp: apply_transition_def split: prod.splits)
  then show ?thesis
    by (rule mark_applies [OF assms(1) svc_Inr(4) assms(3)])
       (erule mark_moves_one(4), unfold LifecycleHeld, erule marks_apply(4))
next
  case LifecycleResumed
  with assms(2) have "run_state (svc_MarkResumed E org (v_call_id v)) w = (Inr c, w')"
    by (auto simp: apply_transition_def split: prod.splits)
  then show ?thesis
    by (rule mark_applies [OF assms(1) svc_Inr(5) assms(3)])
       (erule mark_moves_one(5), unfold LifecycleResumed, erule marks_apply(5))
next
  case LifecycleCompleted
  with assms(2) have "run_state (svc_MarkCompleted E org (v_call_id v) (v_hangup_reason v)) w = (Inr c, w')"
    by (auto simp: apply_transition_def split: prod.splits)
  then show ?thesis
    by (rule mark_applies [OF assms(1) svc_Inr(6) assms(3)])
       (erule mark_moves_one(6), unfold LifecycleCompleted, erule marks_apply(6))
next
  case LifecycleFailed
  with assms(2) have "run_state (svc_MarkFailed E org (v_call_id v) (v_hangup_reason v)) w = (Inr c, w')"
    by (auto simp: apply_transition_def split: prod.splits)
  then show ?thesis
    by (rule mark_applies [OF assms(1) svc_Inr(7) assms(3)])
       (erule mark_moves_one(7), unfold LifecycleFailed, erule marks_apply(7))
next
  case LifecycleCancelled
  with assms(2) have "run_state (svc_MarkCancelled E org (v_call_id v) (v_hangup_reason v)) w = (Inr c, w')"
    by (auto simp: apply_transition_def split: prod.splits)
  then show ?thesis
    by (rule mark_applies [OF assms(1) svc_Inr(8) assms(3)])
       (erule mark_moves_one(8), unfold LifecycleCancelled, erule marks_apply(8))
qed (use assms(2) in \<open>simp_all add: apply_transition_def\<close>)

lemma finish_transition_applies:
  assumes "quiet E" and "run_state (finish_transition E s v) w = (Inr (), w')"
    and "distinct (map c_id (calls (database w)))" and "v_type v \<noteq> LifecycleInitiated"
  shows "applied_after v (database w')"
proof -
  obtain r w1 where run: "run_state (apply_transition E (s_organization_id s) v) w = (r, w1)" by fastforce
  have "r \<noteq> None"
    using run assms(4) by (cases "v_type v") (auto simp: apply_transition_def split: prod.splits)
  moreover have "r \<noteq> Some (Inl e)" for e using run assms(2) by (auto simp: finish_transition_def)
  ultimately obtain c where r: "r = Some (Inr c)" by (metis option.exhaust sum.exhaust)
  with run have A: "applied_after v (database w1)" by (auto intro: apply_transition_applies assms(1,3))
  have "phase_changes.moves (free_call E t i)" for t i
    using assms(1) by (intro phase_changes.free_call_moves) (simp add: phase_changes.refl)
  then have F: "phases_kept w1 (snd (run_state (free_call E t i) w1))" for t i
    by (rule phase_changes.movesD)
  have "phases_kept w1 w'"
    using assms(2) run r F [of "s_trunk_id s" "v_call_id v"]
    by (auto simp: finish_transition_def phase_changes.refl split: if_splits prod.splits)
  with A show ?thesis by (auto simp: phases_kept_def intro: applied_after_phases)
qed

lemma redis_only_database:
  assumes "quiet E"
  shows "database (snd (run_state (admission_Refresh E t i) w)) = database w"
    and "database (snd (run_state (channels_Bind E i ch) w)) = database w"
  using assms
  by (simp_all add: admission_Refresh_def RefreshCallLease_def channels_Bind_def Let_def set_string_def
      split: sum.split prod.split)

lemma observe_apply_applies:
  assumes "quiet E" and run: "run_state (observe_apply E s v) w = (Inr (), w')"
    and d: "distinct (map c_id (calls (database w)))"
    and already: "lifecycleAlreadyApplied s (v_type v) \<Longrightarrow> applied_after v (database w)"
  shows "applied_after v (database w')"
proof (cases "lifecycleAlreadyApplied s (v_type v)")
  case True
  have "phase_changes.moves (observe_apply E s v)"
    using assms(1) True by (intro observe_apply_applied) (simp_all add: phase_changes.refl)
  then have "phases_kept w w'" using phase_changes.movesD [of "observe_apply E s v" w] run by simp
  with already [OF True] show ?thesis by (auto simp: phases_kept_def intro: applied_after_phases)
next
  case False
  then have ni: "v_type v \<noteq> LifecycleInitiated" by auto
  show ?thesis
  proof (cases "s_trunk_id s = None \<or> isTerminalLifecycle (v_type v)")
    case True
    with run False have "run_state (finish_transition E s v) w = (Inr (), w')"
      by (auto simp: observe_apply_def Let_def split: option.splits)
    with d ni show ?thesis by (intro finish_transition_applies [OF assms(1)])
  next
    case nt: False
    then obtain t where t: "s_trunk_id s = Some t" by auto
    obtain r w1 where R: "run_state (admission_Refresh E t (v_call_id v)) w = (r, w1)" by fastforce
    with redis_only_database(1) [OF assms(1), of t "v_call_id v" w] have "database w1 = database w" by simp
    moreover have "run_state (finish_transition E s v) w1 = (Inr (), w')"
      using run R t nt False by (auto simp: observe_apply_def Let_def split: sum.splits)
    ultimately show ?thesis using d ni by (intro finish_transition_applies [OF assms(1), of s v w1]) simp_all
  qed
qed

lemma observe_snapshot_applies:
  assumes "quiet E" and run: "run_state (observe_snapshot E v) w = (Inr (), w')"
    and d: "distinct (map c_id (calls (database w)))"
  shows "applied_after v (database w')"
proof (cases "GetCallLifecycleSnapshot (v_call_id v) (database w)")
  case (Inl e)
  then have "database w' = database w"
    using run assms(1) snapshot_missing [OF Inl]
    by (auto simp: observe_snapshot_def repo_GetLifecycleSnapshot_def)
  with Inl d show ?thesis by (simp add: applied_after_def)
next
  case (Inr s)
  let ?w = "w\<lparr>tick := Suc (tick w)\<rparr>" and ?sip = "trim_space (v_sip_call_id v)"
  have app: "applied_after v (database w)" if "lifecycleAlreadyApplied s (v_type v)"
    using that Inr d by (simp add: applied_after_def)
  show ?thesis
  proof (cases "s_direction s = Outbound \<and> ?sip \<noteq> []")
    case True
    let ?bind = "repo_BindOutboundSIPCallID E (s_organization_id s) (v_call_id v) ?sip"
    obtain r w1 where R: "run_state ?bind ?w = (r, w1)" by fastforce
    have "phase_changes.moves ?bind"
      using assms(1) by (intro phase_changes.repo_reads_move) (simp add: phase_changes.refl)
    from phase_changes.movesD [OF this, of ?w] R have k: "keeps_phases (database w) (database w1)"
      by (simp add: phases_kept_def)
    then have d1: "distinct (map c_id (calls (database w1)))" using d by (simp add: keeps_phases_def)
    have "run_state (observe_apply E s v) w1 = (Inr (), w')"
      using run R True Inr assms(1)
      by (auto simp: observe_snapshot_def repo_GetLifecycleSnapshot_def Let_def split: sum.splits if_splits)
    then show ?thesis
      by (rule observe_apply_applies [OF assms(1) _ d1]) (use app k applied_after_phases in blast)
  next
    case False
    have "run_state (observe_apply E s v) ?w = (Inr (), w')"
      using run False Inr assms(1)
      by (auto simp: observe_snapshot_def repo_GetLifecycleSnapshot_def Let_def split: if_splits)
    then show ?thesis by (rule observe_apply_applies [OF assms(1)]) (use d app in simp_all)
  qed
qed

lemma ObserveLifecycle_applies:
  assumes "quiet E" and run: "run_state (ObserveLifecycle E v) w = (Inr (), w')"
    and d: "distinct (map c_id (calls (database w)))"
  shows "applied_after v (database w')"
proof (cases "v_channel_id v \<noteq> [] \<and> \<not> isTerminalLifecycle (v_type v)")
  case True
  obtain r w1 where R: "run_state (channels_Bind E (v_call_id v) (v_channel_id v)) w = (r, w1)" by fastforce
  with redis_only_database(2) [OF assms(1), of "v_call_id v" "v_channel_id v" w] have "database w1 = database w" by simp
  moreover have "run_state (observe_snapshot E v) w1 = (Inr (), w')"
    using run R True by (auto simp: ObserveLifecycle_def split: sum.splits if_splits)
  ultimately show ?thesis using d by (intro observe_snapshot_applies [OF assms(1), of v w1]) simp_all
next
  case False
  with run have "run_state (observe_snapshot E v) w = (Inr (), w')"
    by (auto simp: ObserveLifecycle_def split: if_splits)
  with d show ?thesis by (intro observe_snapshot_applies [OF assms(1)])
qed

section \<open>Properties\<close>

text \<open>
  A replayed lifecycle event changes nothing: once an event has been handled successfully, handling
  it again (with any faults) makes no transition and writes no outbox event.
\<close>

theorem lifecycle_replay_no_duplicate:
  assumes "quiet E" and "distinct (map c_id (calls (database w)))"
    and "run_state (ObserveLifecycle E v) w = (Inr (), w1)" and "database_alone E'"
  shows "phases_kept w1 (snd (run_state (ObserveLifecycle E' v) w1))"
  using ObserveLifecycle_applies [OF assms(1,3,2)] ObserveLifecycle_applied [OF assms(4), of v w1]
  by (auto simp: applied_after_def)

definition sample_call :: "uuid \<Rightarrow> call_state \<Rightarrow> call" where
  "sample_call i s =
     \<lparr>c_id = i, c_organization_id = 1, c_voice_agent_id = None, c_trunk_id = Some 7, c_trunk_endpoint_id = None,
      c_direction = Outbound, c_state = s, c_media_state = MediaActive, c_from_uri = ''a'', c_to_uri = ''b'',
      c_sip_call_id = None, c_started_at = None, c_answered_at = None, c_ended_at = None,
      c_hangup_reason = None, c_created_at = 0, c_updated_at = 0\<rparr>"

abbreviation call_world :: world where
  "call_world \<equiv> empty_world\<lparr>database := empty_db\<lparr>calls := [sample_call 2 Initiating, sample_call 3 Ringing]\<rparr>\<rparr>"

definition sample_lifecycle :: "lifecycle_type \<Rightarrow> lifecycle_event" where
  "sample_lifecycle t =
     \<lparr>v_call_id = 2, v_channel_id = [], v_sip_call_id = [], v_type = t, v_occurred_at = 0, v_hangup_reason = None\<rparr>"

lemma sample_answered:
  "fst (run_state (ObserveLifecycle sample_env (sample_lifecycle LifecycleAnswered)) call_world) = Inr ()"
  by code_simp

theorem lifecycle_replay_no_duplicate_witness:
  "let w1 = snd (run_state (ObserveLifecycle sample_env (sample_lifecycle LifecycleAnswered)) call_world)
   in phases_kept w1 (snd (run_state (ObserveLifecycle sample_env (sample_lifecycle LifecycleAnswered)) w1))"
  unfolding Let_def
proof (rule lifecycle_replay_no_duplicate [of sample_env call_world])
  show "database_alone sample_env" by (simp add: database_alone_def)
qed (use sample_answered in \<open>simp_all add: prod_eq_iff sample_call_def\<close>)

text \<open>
  Every lifecycle handler and the reconciliation job, under any fault and next to other processes
  that keep to the same rules, moves each call only along the state machine: identity, tenant and
  direction never change, terminal calls stay as they are, answer and end times are set once.
\<close>

theorem lifecycle_respects_state_machine:
  assumes "\<forall>t w. calls_evolve w (interference E t w)"
  shows "calls_evolve w (snd (run_state (HandleLifecycle E v) w)) \<and>
    calls_evolve w (snd (run_state (reconciliation_Run E n) w))"
  by (intro conjI call_history.movesD call_changes.HandleLifecycle_moves call_changes.reconciliation_Run_moves assms)

theorem lifecycle_respects_state_machine_witness:
  "calls_evolve call_world (snd (run_state (HandleLifecycle sample_env (sample_lifecycle LifecycleFailed)) call_world))"
  using lifecycle_respects_state_machine [of sample_env call_world] by (simp add: call_history.refl)

text \<open>
  The events of the outbox tell the history of each call: after any lifecycle handler, faulty or not,
  the events of every call form a run of the state machine that ends in the state of its row.
\<close>

theorem lifecycle_log_complete:
  assumes "\<forall>t w. log_kept w (interference E t w)" and "log_ok (database w)"
  shows "log_ok (database (snd (run_state (HandleLifecycle E v) w)))"
  using log_history.movesD [OF log_changes.HandleLifecycle_moves [OF assms(1)], of w v] assms(2)
  by (simp add: log_kept_def)

theorem lifecycle_log_complete_witness:
  "log_ok (database (snd (run_state (HandleLifecycle sample_env (sample_lifecycle LifecycleFailed)) empty_world)))"
  by (rule lifecycle_log_complete) (simp_all add: log_history.refl log_ok_def call_log_def List.map_filter_def)

end
