(* ===== verification/FreeSwitch.thy ===== *)
theory FreeSwitch
  imports Lifecycle "HOL-Library.List_Lexorder" "HOL-Library.Char_ord"
begin

text \<open>
  The FreeSWITCH event-socket client: the frames, requests and events of
  \<^verbatim>\<open>integrations/freeswitch/model.go\<close> and \<^verbatim>\<open>events.go\<close>, the wire format of \<^verbatim>\<open>client.go\<close>, the
  commands of \<^verbatim>\<open>commands.go\<close>, \<^verbatim>\<open>channel.go\<close> and \<^verbatim>\<open>call.go\<close>. Shown: whatever the arguments, the client
  writes one-line commands only, so that no argument can smuggle a second command into the socket,
  and the frame reader recovers exactly the frames that were sent.
\<close>

section \<open>Escapes\<close>

text \<open>\<^verbatim>\<open>url.PathUnescape\<close>: percent decoding; an incomplete or invalid escape is an error.\<close>

definition hex_value :: "char \<Rightarrow> nat option" where
  "hex_value c =
     (let n = of_char c
      in if 48 \<le> n \<and> n \<le> 57 then Some (n - 48) else if 97 \<le> n \<and> n \<le> 102 then Some (n - 87)
         else if 65 \<le> n \<and> n \<le> 70 then Some (n - 55) else None)"

fun path_unescape :: "string \<Rightarrow> string option" where
  "path_unescape [] = Some []"
| "path_unescape (c # cs) =
     (if c = CHR ''%'' then
        (case cs of
           a # b # rest \<Rightarrow>
             (case (hex_value a, hex_value b) of
                (Some x, Some y) \<Rightarrow> map_option ((#) (char_of (16 * x + y))) (path_unescape rest)
              | _ \<Rightarrow> None)
         | _ \<Rightarrow> None)
      else map_option ((#) c) (path_unescape cs))"

section \<open>Frames and events\<close>

record fs_event =
  ev_name :: string
  ev_headers :: "(string \<times> string) list"
  ev_body :: string

definition lookup :: "(string \<times> string) list \<Rightarrow> string \<Rightarrow> string" where
  "lookup hs name = (case map_of hs name of None \<Rightarrow> [] | Some v \<Rightarrow> v)"

fun plain_header_lines :: "string list \<Rightarrow> string \<Rightarrow> string" where
  "plain_header_lines [] name = []"
| "plain_header_lines (l # ls) name =
     (case cut_at '': '' (trim_right_chars [CHR 0x0D] l) of
        None \<Rightarrow> plain_header_lines ls name
      | Some (key, v) \<Rightarrow>
          if key \<noteq> name then plain_header_lines ls name
          else (case path_unescape v of None \<Rightarrow> v | Some d \<Rightarrow> d))"

definition plainEventHeader :: "string \<Rightarrow> string \<Rightarrow> string" where
  "plainEventHeader body name = plain_header_lines (split_lines body) name"

definition frame_Header :: "frame \<Rightarrow> string \<Rightarrow> string" where
  "frame_Header f name =
     (let v = lookup (f_headers f) name
      in if v \<noteq> [] then v
         else if f_content_type f = ''text/event-plain'' then plainEventHeader (f_body f) name else [])"

definition ReplyText :: "frame \<Rightarrow> string" where
  "ReplyText f = frame_Header f ''Reply-Text''"

definition frame_OK :: "frame \<Rightarrow> bool" where
  "frame_OK f \<longleftrightarrow> has_prefix ''+OK'' (to_upper (ReplyText f))"

definition event_Header :: "fs_event \<Rightarrow> string \<Rightarrow> string" where
  "event_Header e name =
     (let v = lookup (ev_headers e) name in if v \<noteq> [] then v else plainEventHeader (ev_body e) name)"

definition dispatched_event :: "frame \<Rightarrow> fs_event" where
  "dispatched_event f = \<lparr>ev_name = frame_Header f ''Event-Name'', ev_headers = f_headers f, ev_body = f_body f\<rparr>"

text \<open>
  \<^verbatim>\<open>readFrame\<close> on the bytes of the stream: a frame and the rest of the stream, or an error. A missing
  newline or a short body is the end of the stream.
\<close>

fun read_headers :: "string list \<Rightarrow> (string \<times> string) list \<Rightarrow> goerr + (string \<times> string) list \<times> string list" where
  "read_headers [] hs = Inl (Sentinel ''io.EOF'')"
| "read_headers [_] hs = Inl (Sentinel ''io.EOF'')"
| "read_headers (l # l' # ls) hs =
     (let line = trim_right_chars [CHR 0x0D, CHR 0x0A] l
      in if line = [] then Inr (hs, l' # ls)
         else case cut_at '': '' line of
           None \<Rightarrow> Inl (ErrorString ''invalid FreeSWITCH header'')
         | Some (k, v) \<Rightarrow> read_headers (l' # ls) (AList.update k v hs))"

fun unlines :: "string list \<Rightarrow> string" where
  "unlines [] = []"
| "unlines [l] = l"
| "unlines (l # l' # ls) = l @ CHR 0x0A # unlines (l' # ls)"

definition readFrame :: "string \<Rightarrow> goerr + frame \<times> string" where
  "readFrame s =
     (case read_headers (split_lines s) [] of
        Inl e \<Rightarrow> Inl e
      | Inr (hs, ls) \<Rightarrow>
          let rest = unlines ls; raw = lookup hs ''Content-Length'';
              len = (if raw = [] then Some 0 else parse_int64 raw)
          in case len of
               None \<Rightarrow> Inl (ErrorString ''invalid FreeSWITCH content length'')
             | Some n \<Rightarrow>
                 if n < 0 then Inl (ErrorString ''invalid FreeSWITCH content length'')
                 else if nat n > length rest then Inl (Wrap ''read FreeSWITCH frame body'' (Sentinel ''io.EOF''))
                 else Inr (\<lparr>f_content_type = lookup hs ''Content-Type'', f_headers = hs,
                            f_body = take (nat n) rest\<rparr>, drop (nat n) rest))"

section \<open>Commands\<close>

definition writeCommand :: "env \<Rightarrow> string \<Rightarrow> (world, goerr + frame) state" where
  "writeCommand E raw =
     (let command = trim_space raw
      in if contains_any command [CHR 0x0D, CHR 0x0A]
         then State_Monad.return (Inl (ErrorString ''FreeSWITCH command cannot contain line breaks''))
         else fs_send E command)"

text \<open>\<^verbatim>\<open>Client.command\<close>: one write and the frame that answers it.\<close>

definition client_command :: "env \<Rightarrow> string \<Rightarrow> (world, goerr + frame) state" where
  "client_command E raw =
     (let command = trim_space raw
      in if command = [] then State_Monad.return (Inl (ErrorString ''FreeSWITCH command is required''))
         else do {
           r \<leftarrow> writeCommand E command;
           case r of
             Inl e \<Rightarrow> State_Monad.return (Inl (Wrap ''FreeSWITCH command'' e))
           | Inr f \<Rightarrow> State_Monad.return (Inr f)
         })"

record reply =
  reply_text :: string
  reply_body :: string

definition fs_Command :: "env \<Rightarrow> string \<Rightarrow> (world, goerr + reply) state" where
  "fs_Command E raw =
     (let command = trim_space raw
      in if command = [] then State_Monad.return (Inl (ErrorString ''FreeSWITCH command is required''))
         else do {
           r \<leftarrow> client_command E (''api '' @ command);
           case r of
             Inl e \<Rightarrow> State_Monad.return (Inl e)
           | Inr f \<Rightarrow>
               if f_content_type f \<noteq> ''api/response''
               then State_Monad.return (Inl (ErrorString ''unexpected FreeSWITCH command response''))
               else State_Monad.return (Inr \<lparr>reply_text = ReplyText f, reply_body = f_body f\<rparr>)
         })"

definition BGAPI :: "env \<Rightarrow> string \<Rightarrow> (world, goerr + string) state" where
  "BGAPI E raw =
     (let command = trim_space raw
      in if command = [] then State_Monad.return (Inl (ErrorString ''FreeSWITCH background command is required''))
         else do {
           r \<leftarrow> client_command E (''bgapi '' @ command);
           case r of
             Inl e \<Rightarrow> State_Monad.return (Inl e)
           | Inr f \<Rightarrow>
               if \<not> frame_OK f
               then State_Monad.return (Inl (ErrorString ''FreeSWITCH background command failed''))
               else
                 let header = trim_space (frame_Header f ''Job-UUID'');
                     job = (if header \<noteq> [] then header
                            else case cut_at ''Job-UUID:'' (ReplyText f) of None \<Rightarrow> [] | Some (_, v) \<Rightarrow> trim_space v)
                 in if job = []
                    then State_Monad.return (Inl (ErrorString ''FreeSWITCH background command returned an empty job UUID''))
                    else State_Monad.return (Inr job)
         })"

definition commandReplyError :: "reply \<Rightarrow> goerr + unit" where
  "commandReplyError r =
     (if has_prefix ''-ERR'' (to_upper (trim_space (reply_body r)))
      then Inl (ErrorString ''FreeSWITCH command failed'') else Inr ())"

definition commandOK :: "env \<Rightarrow> string \<Rightarrow> (world, goerr + unit) state" where
  "commandOK E command = do {
     r \<leftarrow> fs_Command E command;
     case r of
       Inl e \<Rightarrow> State_Monad.return (Inl e)
     | Inr x \<Rightarrow> State_Monad.return (commandReplyError x)
   }"

definition requiredArgument :: "string \<Rightarrow> string \<Rightarrow> goerr + string" where
  "requiredArgument name v =
     (if trim_space v = [] then Inl (ErrorString (''FreeSWITCH '' @ name @ '' is required'')) else Inr (trim_space v))"

definition commandWord :: "string \<Rightarrow> string" where
  "commandWord v =
     (if contains_any v [CHR '' '', CHR 0x09, CHR 0x0D, CHR 0x0A, CHR 0x22, CHR 0x27]
      then CHR 0x22 # concat (map (\<lambda>c. if c = CHR 0x22 then [CHR 0x5C, CHR 0x22] else [c]) v) @ [CHR 0x22]
      else v)"

definition commandWords :: "string list \<Rightarrow> string" where
  "commandWords vs = join '' '' (map commandWord vs)"

definition formatVariables :: "(string \<times> string) list \<Rightarrow> string" where
  "formatVariables vs =
     (if vs = [] then []
      else ''{'' @ join '','' (map (\<lambda>(k, v). k @ ''='' @ commandWord v) (sort_key fst vs)) @ ''}'')"

section \<open>Channel variables\<close>

definition fs_SetVariable :: "env \<Rightarrow> string \<Rightarrow> string \<Rightarrow> string \<Rightarrow> (world, goerr + unit) state" where
  "fs_SetVariable E callID name v =
     (if trim_space callID = [] \<or> trim_space name = []
      then State_Monad.return (Inl (ErrorString ''FreeSWITCH call ID and variable name are required''))
      else commandOK E (''uuid_setvar '' @ commandWords [callID, name, v]))"

definition fs_UnsetVariable :: "env \<Rightarrow> string \<Rightarrow> string \<Rightarrow> (world, goerr + unit) state" where
  "fs_UnsetVariable E callID name =
     (if trim_space callID = [] \<or> trim_space name = []
      then State_Monad.return (Inl (ErrorString ''FreeSWITCH call ID and variable name are required''))
      else commandOK E (''uuid_setvar '' @ commandWords [callID, name]))"

definition fs_GetVariable :: "env \<Rightarrow> string \<Rightarrow> string \<Rightarrow> (world, goerr + string) state" where
  "fs_GetVariable E callID name =
     (if trim_space callID = [] \<or> trim_space name = []
      then State_Monad.return (Inl (ErrorString ''FreeSWITCH call ID and variable name are required''))
      else do {
        r \<leftarrow> fs_Command E (''uuid_getvar '' @ commandWords [callID, name]);
        case r of
          Inl e \<Rightarrow> State_Monad.return (Inl e)
        | Inr x \<Rightarrow> State_Monad.return (Inr (trim_space (reply_body x)))
      })"

section \<open>Call commands\<close>

definition required :: "string \<Rightarrow> string \<Rightarrow> (string \<Rightarrow> (world, goerr + 'a) state) \<Rightarrow> (world, goerr + 'a) state" where
  "required name v k =
     (case requiredArgument name v of Inl e \<Rightarrow> State_Monad.return (Inl e) | Inr x \<Rightarrow> k x)"

definition fs_Answer :: "env \<Rightarrow> string \<Rightarrow> (world, goerr + unit) state" where
  "fs_Answer E callID =
     required ''call ID'' callID (\<lambda>i. commandOK E (''uuid_answer '' @ commandWord i))"

definition fs_Hangup :: "env \<Rightarrow> string \<Rightarrow> (world, goerr + unit) state" where
  "fs_Hangup E callID =
     required ''call ID'' callID (\<lambda>i. commandOK E (''uuid_kill '' @ commandWord i))"

definition fs_Hold :: "env \<Rightarrow> string \<Rightarrow> (world, goerr + unit) state" where
  "fs_Hold E callID =
     required ''call ID'' callID (\<lambda>i. commandOK E (''uuid_hold '' @ commandWord i))"

definition fs_Unhold :: "env \<Rightarrow> string \<Rightarrow> (world, goerr + unit) state" where
  "fs_Unhold E callID =
     required ''call ID'' callID (\<lambda>i. commandOK E (''uuid_hold '' @ commandWords [''off'', i]))"

definition stopDisplace :: "env \<Rightarrow> string \<Rightarrow> string \<Rightarrow> (world, goerr + unit) state" where
  "stopDisplace E callID path = do {
     r \<leftarrow> fs_Command E (''uuid_displace '' @ commandWords [callID, ''stop'', path]);
     case r of
       Inl e \<Rightarrow> State_Monad.return (Inl e)
     | Inr x \<Rightarrow>
         if contains_sub (to_lower (reply_body x)) ''cannot stop displace session''
         then State_Monad.return (Inr ()) else State_Monad.return (commandReplyError x)
   }"

definition playbackPathVariable :: string where
  "playbackPathVariable = ''leamout_playback_path''"

definition displaceHangupOnErrorVar :: string where
  "displaceHangupOnErrorVar = ''DISPLACE_HANGUP_ON_ERROR''"

text \<open>\<^verbatim>\<open>errors.Join\<close> drops nil errors.\<close>

definition joined :: "goerr \<Rightarrow> goerr + 'a \<Rightarrow> goerr" where
  "joined e r = (case r of Inl e' \<Rightarrow> Joined e e' | Inr _ \<Rightarrow> e)"

definition fs_PlayAudio :: "env \<Rightarrow> string \<Rightarrow> string \<Rightarrow> (world, goerr + unit) state" where
  "fs_PlayAudio E callID filePath =
     required ''call ID'' callID (\<lambda>i. required ''audio file path'' filePath (\<lambda>path. do {
       a \<leftarrow> fs_SetVariable E i displaceHangupOnErrorVar ''false'';
       case a of
         Inl e \<Rightarrow> State_Monad.return (Inl e)
       | Inr _ \<Rightarrow> do {
           b \<leftarrow> commandOK E (''uuid_displace '' @ commandWords [i, ''start'', path, ''0'', ''mux'']);
           case b of
             Inl e \<Rightarrow> State_Monad.return (Inl e)
           | Inr _ \<Rightarrow> do {
               c \<leftarrow> fs_SetVariable E i playbackPathVariable path;
               case c of
                 Inl e \<Rightarrow> do { x \<leftarrow> stopDisplace E i path; State_Monad.return (Inl (joined e x)) }
               | Inr _ \<Rightarrow> State_Monad.return (Inr ())
             }
         }
     }))"

definition fs_StopAudio :: "env \<Rightarrow> string \<Rightarrow> (world, goerr + unit) state" where
  "fs_StopAudio E callID =
     required ''call ID'' callID (\<lambda>i. do {
       r \<leftarrow> fs_GetVariable E i playbackPathVariable;
       case r of
         Inl e \<Rightarrow> State_Monad.return (Inl e)
       | Inr path \<Rightarrow>
           if path = [] \<or> path = ''_undef_'' then State_Monad.return (Inr ())
           else do {
             x \<leftarrow> stopDisplace E i path;
             case x of
               Inl e \<Rightarrow> State_Monad.return (Inl e)
             | Inr _ \<Rightarrow> fs_UnsetVariable E i playbackPathVariable
           }
     })"

definition fs_SendDTMF :: "env \<Rightarrow> string \<Rightarrow> string \<Rightarrow> (world, goerr + unit) state" where
  "fs_SendDTMF E callID digits =
     required ''call ID'' callID (\<lambda>i. required ''DTMF digits'' digits (\<lambda>ds.
       commandOK E (''uuid_send_dtmf '' @ commandWords [i, ds])))"

definition fs_Break :: "env \<Rightarrow> string \<Rightarrow> (world, goerr + unit) state" where
  "fs_Break E callID =
     required ''call ID'' callID (\<lambda>i. do {
       r \<leftarrow> BGAPI E (''uuid_break '' @ commandWord i);
       case r of Inl e \<Rightarrow> State_Monad.return (Inl e) | Inr _ \<Rightarrow> State_Monad.return (Inr ())
     })"

definition fs_Transfer :: "env \<Rightarrow> string \<Rightarrow> string \<Rightarrow> string \<Rightarrow> string \<Rightarrow> (world, goerr + unit) state" where
  "fs_Transfer E callID destination dialplan context =
     (if trim_space callID = [] then State_Monad.return (Inl (ErrorString ''FreeSWITCH transfer call ID is required''))
      else if trim_space destination = []
      then State_Monad.return (Inl (ErrorString ''FreeSWITCH transfer destination is required''))
      else commandOK E (''uuid_transfer '' @ commandWords
             ([callID, destination] @ (if dialplan \<noteq> [] then [dialplan] else []) @
              (if context \<noteq> [] then [context] else []))))"

definition fs_Record :: "env \<Rightarrow> string \<Rightarrow> string \<Rightarrow> string \<Rightarrow> (world, goerr + unit) state" where
  "fs_Record E callID path action =
     (if trim_space callID = [] then State_Monad.return (Inl (ErrorString ''FreeSWITCH record call ID is required''))
      else if trim_space path = [] then State_Monad.return (Inl (ErrorString ''FreeSWITCH record path is required''))
      else if action \<noteq> [] \<and> action \<noteq> ''start'' \<and> action \<noteq> ''stop''
      then State_Monad.return (Inl (ErrorString ''FreeSWITCH record action must be start or stop''))
      else commandOK E (''uuid_record '' @ commandWords [callID, if action = [] then ''start'' else action, path]))"

definition fs_StartAudioClock :: "env \<Rightarrow> string \<Rightarrow> (world, goerr + unit) state" where
  "fs_StartAudioClock E callID =
     required ''audio clock call ID'' callID (\<lambda>i.
       commandOK E (''uuid_broadcast '' @ commandWords [i, ''silence_stream://-1'', ''aleg'']))"

definition fs_StopAudioFork :: "env \<Rightarrow> string \<Rightarrow> (world, goerr + unit) state" where
  "fs_StopAudioFork E channelID =
     required ''audio fork channel ID'' channelID (\<lambda>i. do {
       r \<leftarrow> fs_Command E (''uuid_audio_fork '' @ commandWords [i, ''stop'']);
       case r of
         Inl e \<Rightarrow> State_Monad.return (Inl e)
       | Inr x \<Rightarrow>
           if contains_sub (to_lower (reply_body x)) ''no fork running''
           then State_Monad.return (Inr ()) else State_Monad.return (commandReplyError x)
     })"

text \<open>
  \<^verbatim>\<open>StartAudioForkWithReply\<close>: \<^verbatim>\<open>url.Parse\<close> and \<^verbatim>\<open>json.Valid\<close> are parameters (whether the URL has a host
  and the scheme ws or wss, whether the metadata is JSON).
\<close>

record fork_request =
  k_channel_id :: string
  k_url :: string
  k_mix_type :: string
  k_sample_rate :: int
  k_metadata :: string

definition fork_Validate :: "env \<Rightarrow> (string \<Rightarrow> bool) \<Rightarrow> (string \<Rightarrow> bool) \<Rightarrow> fork_request \<Rightarrow> goerr + unit" where
  "fork_Validate E ws_url json_valid r =
     (if uuid_parse E (trim_space (k_channel_id r)) = None
      then Inl (ErrorString ''FreeSWITCH audio fork channel ID must be a UUID'')
      else if \<not> ws_url (trim_space (k_url r)) then Inl (ErrorString ''FreeSWITCH audio fork URL must use ws or wss'')
      else if k_mix_type r \<notin> {''mono'', ''mixed'', ''stereo''}
      then Inl (ErrorString ''FreeSWITCH audio fork mix type must be mono, mixed, or stereo'')
      else if k_sample_rate r \<notin> {8000, 16000, 24000, 48000}
      then Inl (ErrorString ''FreeSWITCH audio fork sample rate is unsupported'')
      else if trim_space (k_metadata r) \<noteq> [] \<and> \<not> json_valid (trim_space (k_metadata r))
      then Inl (ErrorString ''FreeSWITCH audio fork metadata must be valid JSON'')
      else Inr ())"

definition fs_StartAudioForkWithReply ::
  "env \<Rightarrow> (string \<Rightarrow> bool) \<Rightarrow> (string \<Rightarrow> bool) \<Rightarrow> fork_request \<Rightarrow> (world, goerr + reply) state" where
  "fs_StartAudioForkWithReply E ws_url json_valid req =
     (case fork_Validate E ws_url json_valid req of
        Inl e \<Rightarrow> State_Monad.return (Inl e)
      | Inr _ \<Rightarrow> do {
          r \<leftarrow> fs_Command E (''uuid_audio_fork '' @ commandWords
                 ([k_channel_id req, ''start'', k_url req, k_mix_type req, itoa (k_sample_rate req)] @
                  (if trim_space (k_metadata req) \<noteq> [] then [trim_space (k_metadata req)] else [])));
          case r of
            Inl e \<Rightarrow> State_Monad.return (Inl e)
          | Inr x \<Rightarrow>
              (case commandReplyError x of
                 Inl e \<Rightarrow> State_Monad.return (Inl e)
               | Inr _ \<Rightarrow> State_Monad.return (Inr x))
        })"

text \<open>\<^verbatim>\<open>Originate\<close> returns the channel id it generated; the id is the oracle's next fresh UUID.\<close>

definition originateCommand :: "string \<Rightarrow> string \<Rightarrow> (string \<times> string) list \<Rightarrow> string \<Rightarrow> string" where
  "originateCommand endpoint callerID variables channelID =
     (let prefix = formatVariables (AList.update ''origination_uuid'' channelID variables);
          callerIDVar = ''origination_caller_id_number='' @ commandWord callerID;
          target = (if callerID \<noteq> []
                    then (if prefix \<noteq> [] then butlast prefix @ '','' @ callerIDVar @ ''}'' @ endpoint
                          else ''{'' @ callerIDVar @ ''}'' @ endpoint)
                    else prefix @ endpoint)
      in ''originate '' @ commandWords [target, ''&park()''])"

definition originate_as :: "env \<Rightarrow> string \<Rightarrow> string \<Rightarrow> (string \<times> string) list \<Rightarrow> string \<Rightarrow> (world, goerr + string) state" where
  "originate_as E endpoint callerID variables channelID = do {
     r \<leftarrow> BGAPI E (originateCommand endpoint callerID variables channelID);
     case r of
       Inl e \<Rightarrow> State_Monad.return (Inl e)
     | Inr _ \<Rightarrow> State_Monad.return (Inr channelID)
   }"

definition originate_fresh :: "env \<Rightarrow> string \<Rightarrow> string \<Rightarrow> (string \<times> string) list \<Rightarrow> world \<Rightarrow> (world, goerr + string) state" where
  "originate_fresh E endpoint callerID variables w =
     originate_as E endpoint callerID variables (uuid_string E (new_uuid E (tick w)))"

definition fs_Originate ::
  "env \<Rightarrow> string \<Rightarrow> string \<Rightarrow> string \<Rightarrow> (string \<times> string) list \<Rightarrow> (world, goerr + string) state" where
  "fs_Originate E endpoint destination callerID variables =
     (if trim_space endpoint = []
      then State_Monad.return (Inl (ErrorString ''FreeSWITCH originate endpoint is required''))
      else if trim_space destination = []
      then State_Monad.return (Inl (ErrorString ''FreeSWITCH originate destination is required''))
      else State_Monad.bind State_Monad.get (originate_fresh E endpoint callerID variables))"

section \<open>Client methods only write commands\<close>

text \<open>A relation along which one command and its reply move, every method of the client moves along.\<close>

locale command_client = world_history +
  assumes client_command_moves: "rely E \<Longrightarrow> moves (client_command E c)"
begin

lemma required_moves: "(\<And>x. moves (k x)) \<Longrightarrow> moves (required name v k)"
  unfolding required_def by (intro moves_intros)

lemma fs_Command_moves: "rely E \<Longrightarrow> moves (fs_Command E c)"
  unfolding fs_Command_def Let_def by (intro moves_intros client_command_moves)

lemma BGAPI_moves: "rely E \<Longrightarrow> moves (BGAPI E c)"
  unfolding BGAPI_def Let_def by (intro moves_intros client_command_moves)

lemma commandOK_moves: "rely E \<Longrightarrow> moves (commandOK E c)"
  unfolding commandOK_def by (intro moves_intros fs_Command_moves)

lemma variable_moves:
  assumes "rely E"
  shows "moves (fs_SetVariable E i n v)" "moves (fs_UnsetVariable E i n)" "moves (fs_GetVariable E i n)"
  unfolding fs_SetVariable_def fs_UnsetVariable_def fs_GetVariable_def
  by (intro moves_intros commandOK_moves fs_Command_moves assms)+

lemma stopDisplace_moves: "rely E \<Longrightarrow> moves (stopDisplace E i p)"
  unfolding stopDisplace_def by (intro moves_intros fs_Command_moves)

lemma client_moves:
  assumes "rely E"
  shows "moves (fs_Answer E i)" "moves (fs_Hangup E i)" "moves (fs_Hold E i)" "moves (fs_Unhold E i)"
    "moves (fs_PlayAudio E i p)" "moves (fs_StopAudio E i)" "moves (fs_SendDTMF E i p)" "moves (fs_Break E i)"
    "moves (fs_Transfer E i p dp cx)" "moves (fs_Record E i p ac)" "moves (fs_StartAudioClock E i)"
    "moves (fs_StopAudioFork E i)" "moves (fs_StartAudioForkWithReply E u js fr)"
    "moves (fs_Originate E ep ds cid vs)"
  unfolding fs_Answer_def fs_Hangup_def fs_Hold_def fs_Unhold_def fs_PlayAudio_def fs_StopAudio_def
    fs_SendDTMF_def fs_Break_def fs_Transfer_def fs_Record_def fs_StartAudioClock_def fs_StopAudioFork_def
    fs_StartAudioForkWithReply_def fs_Originate_def originate_as_def originate_fresh_def Let_def
  by (intro moves_intros required_moves commandOK_moves fs_Command_moves BGAPI_moves variable_moves
      stopDisplace_moves assms)+

end

sublocale call_effects < command_client R
proof
  show "moves (client_command E c)" if "rely E" for E c
    unfolding client_command_def writeCommand_def Let_def
    by (intro moves_intros command_moves that)
qed

section \<open>Commands are single lines\<close>

definition one_line :: "string \<Rightarrow> bool" where
  "one_line s \<longleftrightarrow> s \<noteq> [] \<and> CHR 0x0A \<notin> set s \<and> CHR 0x0D \<notin> set s"

definition socket_safe :: "world \<Rightarrow> world \<Rightarrow> bool" where
  "socket_safe w w' \<longleftrightarrow> (list_all one_line (fs_log w) \<longrightarrow> list_all one_line (fs_log w'))"

interpretation socket_history: world_history socket_safe
  by unfold_locales (auto simp: socket_safe_def)

lemma client_command_socket:
  assumes "socket_history.rely E"
  shows "socket_history.moves (client_command E c)"
proof (cases "trim_space c = []")
  case True
  then show ?thesis by (simp add: client_command_def socket_history.return_moves)
next
  case False
  have "socket_history.moves (writeCommand E (trim_space c))"
    unfolding writeCommand_def Let_def trim_space_idem using False
    by (intro socket_history.moves_intros socket_history.fs_send_moves assms)
       (auto simp: socket_safe_def one_line_def contains_any_def list_ex_iff)
  with False show ?thesis
    unfolding client_command_def Let_def by (auto intro!: socket_history.moves_intros)
qed

interpretation socket_client: command_client socket_safe
  by unfold_locales (rule client_command_socket)

section \<open>The frame reader\<close>

lemma split_lines_nonempty: "split_lines s \<noteq> []"
  by (induction s) (auto split: list.split)

lemma unlines_split [simp]: "unlines (split_lines s) = s"
proof (induction s)
  case (Cons c cs)
  then show ?case
    using split_lines_nonempty [of cs] by (cases "split_lines cs" rule: unlines.cases) auto
qed simp

lemma split_lines_append: "CHR 0x0A \<notin> set a \<Longrightarrow> split_lines (a @ CHR 0x0A # b) = a # split_lines b"
  by (induction a) (auto split: list.split)

lemma cut_at_separator: "CHR '':'' \<notin> set k \<Longrightarrow> cut_at '': '' (k @ '': '' @ v) = Some (k, v)"
  by (induction k) (auto simp: has_prefix_def)

lemma trim_right_chars_id: "last s \<notin> set cs \<Longrightarrow> trim_right_chars cs s = s"
  by (cases s rule: rev_cases) (auto simp: trim_right_chars_def)

lemma update_fresh: "k \<notin> fst ` set hs \<Longrightarrow> AList.update k v hs = hs @ [(k, v)]"
  by (induction hs) auto

text \<open>A header that survives the line format, and the text of headers and of a frame.\<close>

definition header_ok :: "string \<times> string \<Rightarrow> bool" where
  "header_ok h \<longleftrightarrow> CHR '':'' \<notin> set (fst h) \<and> CHR 0x0A \<notin> set (fst h @ snd h) \<and>
     (snd h \<noteq> [] \<longrightarrow> last (snd h) \<noteq> CHR 0x0D)"

definition header_line :: "string \<times> string \<Rightarrow> string" where
  "header_line h = fst h @ '': '' @ snd h"

definition render_frame :: "frame \<Rightarrow> string" where
  "render_frame f = concat (map (\<lambda>h. header_line h @ [CHR 0x0A]) (f_headers f)) @ CHR 0x0A # f_body f"

lemma header_line_trim:
  "header_ok h \<Longrightarrow> trim_right_chars [CHR 0x0D, CHR 0x0A] (header_line h) = header_line h"
proof (rule trim_right_chars_id)
  assume h: "header_ok h"
  then have "snd h \<noteq> [] \<Longrightarrow> last (snd h) \<noteq> CHR 0x0A" by (metis UnI2 header_ok_def last_in_set set_append)
  with h show "last (header_line h) \<notin> set [CHR 0x0D, CHR 0x0A]"
    by (cases "snd h = []") (auto simp: header_ok_def header_line_def)
qed

lemma read_rendered:
  assumes "\<forall>h \<in> set hs. header_ok h" and "distinct (map fst (acc @ hs))"
  shows "read_headers (split_lines (concat (map (\<lambda>h. header_line h @ [CHR 0x0A]) hs) @ CHR 0x0A # rest)) acc =
    Inr (acc @ hs, split_lines rest)"
  using assms
proof (induction hs arbitrary: acc)
  case Nil
  then show ?case
    using split_lines_nonempty [of rest] by (cases "split_lines rest") (simp_all add: trim_right_chars_def)
next
  case (Cons h hs)
  let ?rest = "concat (map (\<lambda>h. header_line h @ [CHR 0x0A]) hs) @ CHR 0x0A # rest"
  have h: "header_ok h" using Cons.prems by simp
  have "CHR 0x0A \<notin> set (header_line h)" using h by (auto simp: header_ok_def header_line_def)
  then have split: "split_lines (header_line h @ CHR 0x0A # ?rest) = header_line h # split_lines ?rest"
    by (rule split_lines_append)
  have cut: "cut_at '': '' (header_line h) = Some h"
    using h cut_at_separator [of "fst h" "snd h"] by (simp add: header_line_def header_ok_def)
  have ne: "header_line h \<noteq> []" by (simp add: header_line_def)
  have upd: "AList.update (fst h) (snd h) acc = acc @ [h]"
    using Cons.prems(2) by (subst update_fresh) auto
  have IH: "read_headers (split_lines ?rest) (acc @ [h]) = Inr (acc @ h # hs, split_lines rest)"
    using Cons.IH [of "acc @ [h]"] Cons.prems by simp
  show ?case
    using split_lines_nonempty [of ?rest] IH
    by (cases "split_lines ?rest") (simp_all add: split header_line_trim [OF h] cut ne upd split_def)
qed

lemma digits_value_append: "digits_value acc (s @ [c]) = 10 * digits_value acc s + (int (of_char c) - 48)"
  by (induction s arbitrary: acc) simp_all

lemma is_digit_char: "0 \<le> k \<Longrightarrow> (k :: int) < 10 \<Longrightarrow> is_digit (char_of (48 + k))"
proof -
  assume k: "0 \<le> k" "k < 10"
  have "int (of_char (char_of (48 + k) :: char)) = (of_char (char_of (48 + k) :: char) :: int)"
    by (rule of_nat_of_char)
  also have "\<dots> = 48 + k" using k by simp
  finally show ?thesis using k unfolding is_digit_def by linarith
qed

lemma itoa_pos_digits: "0 \<le> n \<Longrightarrow> list_all is_digit (itoa_pos n) \<and> itoa_pos n \<noteq> []"
proof (induction n rule: itoa_pos.induct)
  case (1 n)
  then show ?case by (subst (1 2) itoa_pos.simps) (auto simp: is_digit_char)
qed

lemma itoa_pos_value: "0 \<le> n \<Longrightarrow> digits_value 0 (itoa_pos n) = n"
proof (induction n rule: itoa_pos.induct)
  case (1 n)
  show ?case
  proof (cases "n < 10")
    case False
    then have "digits_value 0 (itoa_pos n) = 10 * (n div 10) + n mod 10"
      using 1 by (subst itoa_pos.simps) (simp add: digits_value_append of_nat_of_char)
    also have "\<dots> = n" by presburger
    finally show ?thesis .
  qed (subst itoa_pos.simps, use 1 in \<open>simp add: of_nat_of_char\<close>)
qed

lemma parse_itoa:
  assumes "0 \<le> n" and "n < 2 ^ 63"
  shows "parse_int64 (itoa_pos n) = Some n"
proof -
  obtain c cs where c: "itoa_pos n = c # cs" using itoa_pos_digits [OF assms(1)] by (cases "itoa_pos n") auto
  with itoa_pos_digits [OF assms(1)] have "is_digit c" by simp
  then have "c \<noteq> CHR ''-''" "c \<noteq> CHR ''+''" by (auto simp: is_digit_def)
  then show ?thesis
    using itoa_pos_digits [OF assms(1)] itoa_pos_value [OF assms(1)] c assms(2) by (simp add: parse_int64_def)
qed

definition frame_ok :: "frame \<Rightarrow> bool" where
  "frame_ok f \<longleftrightarrow> list_all header_ok (f_headers f) \<and> distinct (map fst (f_headers f)) \<and>
     f_content_type f = lookup (f_headers f) ''Content-Type'' \<and> int (length (f_body f)) < 2 ^ 63 \<and>
     lookup (f_headers f) ''Content-Length'' =
       (if f_body f = [] then [] else itoa_pos (int (length (f_body f))))"

lemma readFrame_render:
  assumes "frame_ok f"
  shows "readFrame (render_frame f @ rest) = Inr (f, rest)"
proof -
  have hs: "\<forall>h \<in> set (f_headers f). header_ok h" "distinct (map fst (f_headers f))"
    using assms by (simp_all add: frame_ok_def list_all_iff)
  have R: "read_headers (split_lines (render_frame f @ rest)) [] = Inr (f_headers f, split_lines (f_body f @ rest))"
    using read_rendered [of "f_headers f" "[]" "f_body f @ rest"] hs by (simp add: render_frame_def)
  have "(if lookup (f_headers f) ''Content-Length'' = [] then Some 0
      else parse_int64 (lookup (f_headers f) ''Content-Length'')) = Some (int (length (f_body f)))"
    using assms parse_itoa [of "int (length (f_body f))"] itoa_pos_digits [of "int (length (f_body f))"]
    by (simp add: frame_ok_def)
  moreover have "\<lparr>f_content_type = lookup (f_headers f) ''Content-Type'', f_headers = f_headers f,
      f_body = f_body f\<rparr> = f" using assms by (cases f) (simp add: frame_ok_def)
  ultimately show ?thesis by (simp add: readFrame_def R Let_def)
qed

section \<open>Properties\<close>



text \<open>
  C37: The frame reader is exact: a well-formed frame followed by any further bytes is read back as it was
  sent, and exactly the further bytes are left in the stream.
\<close>

theorem frame_round_trip:
  assumes "frame_ok f"
  shows "readFrame (render_frame f @ rest) = Inr (f, rest)"
  using assms by (rule readFrame_render)

definition sample_frame :: frame where
  "sample_frame = \<lparr>f_content_type = ''api/response'',
     f_headers = [(''Content-Type'', ''api/response''), (''Content-Length'', ''3'')], f_body = ''+OK''\<rparr>"

theorem frame_round_trip_witness:
  "readFrame (render_frame sample_frame @ ''tail'') = Inr (sample_frame, ''tail'')"
proof (rule frame_round_trip)
  have "itoa_pos 3 = ''3''" by code_simp
  then show "frame_ok sample_frame" by (simp add: sample_frame_def frame_ok_def header_ok_def lookup_def)
qed

end
