(* ===== verification/Translator.thy ===== *)
theory Translator
  imports FreeSwitch
begin

text \<open>
  Translation of FreeSWITCH events into call events: \<^verbatim>\<open>runtime/calling/translator.go\<close> and the
  inbound half of \<^verbatim>\<open>telephony/calls/consumer.go\<close>'s input. Shown: every supported event is translated
  to the lifecycle event its name and answer state call for, an admitted inbound event passes the
  validation of the calls service, and no event is both an inbound admission and a lifecycle event.
\<close>

section \<open>Header helpers\<close>

abbreviation ErrUnsupportedEvent :: goerr where
  "ErrUnsupportedEvent \<equiv> Sentinel ''calling.ErrUnsupportedEvent''"

abbreviation ErrUncorrelatedEvent :: goerr where
  "ErrUncorrelatedEvent \<equiv> Sentinel ''calling.ErrUncorrelatedEvent''"

abbreviation ErrNotInboundAdmission :: goerr where
  "ErrNotInboundAdmission \<equiv> Sentinel ''calling.ErrNotInboundAdmission''"

fun firstNonEmpty :: "string list \<Rightarrow> string" where
  "firstNonEmpty [] = []"
| "firstNonEmpty (v # vs) = (if trim_space v \<noteq> [] then trim_space v else firstNonEmpty vs)"

text \<open>\<^verbatim>\<open>strings.EqualFold(v, "true")\<close>: none of the letters has a fold outside ASCII.\<close>

definition eventAnswered :: "fs_event \<Rightarrow> bool" where
  "eventAnswered e \<longleftrightarrow>
     list_ex (\<lambda>h. map ascii_lower (trim_space (event_Header e h)) = ''true'') [''Answered'', ''variable_answered''] \<or>
     list_ex (\<lambda>h. case parse_int64 (trim_space (event_Header e h)) of None \<Rightarrow> False | Some n \<Rightarrow> n > 0)
       [''variable_answer_epoch'', ''answer_epoch'', ''billmsec'', ''variable_billmsec'']"

definition hangup_cause :: "fs_event \<Rightarrow> string" where
  "hangup_cause e = firstNonEmpty [event_Header e ''Hangup-Cause'', event_Header e ''variable_hangup_cause'']"

definition lifecycleEventType :: "fs_event \<Rightarrow> goerr + lifecycle_type" where
  "lifecycleEventType e =
     (if ev_name e = ''CHANNEL_CREATE'' then Inr LifecycleInitiated
      else if ev_name e = ''CHANNEL_PROGRESS'' \<or> ev_name e = ''CHANNEL_PROGRESS_MEDIA'' then Inr LifecycleRinging
      else if ev_name e = ''CHANNEL_ANSWER'' then Inr LifecycleAnswered
      else if ev_name e = ''CHANNEL_HOLD'' then Inr LifecycleHeld
      else if ev_name e = ''CHANNEL_UNHOLD'' then Inr LifecycleResumed
      else if ev_name e = ''CHANNEL_HANGUP_COMPLETE'' then
        (if eventAnswered e then Inr LifecycleCompleted
         else let cause = to_upper (trim_space (hangup_cause e))
              in if cause = ''ORIGINATOR_CANCEL'' \<or> cause = ''NORMAL_CLEARING'' then Inr LifecycleCancelled
                 else Inr LifecycleFailed)
      else Inl (Wrap (ev_name e) ErrUnsupportedEvent))"

text \<open>Microseconds since the epoch; the current time when the event carries none.\<close>

definition freeSWITCHEventTime :: "int \<Rightarrow> fs_event \<Rightarrow> goerr + int" where
  "freeSWITCHEventTime now e =
     (let raw = trim_space (event_Header e ''Event-Date-Timestamp'')
      in if raw = [] then Inr now
         else case parse_int64 raw of
           None \<Rightarrow> Inl (ErrorString ''parse FreeSWITCH event timestamp'')
         | Some micros \<Rightarrow> Inr micros)"

definition FreeSWITCHEvents :: "string list" where
  "FreeSWITCHEvents =
     [''CHANNEL_CREATE'', ''CHANNEL_PROGRESS'', ''CHANNEL_PROGRESS_MEDIA'', ''CHANNEL_ANSWER'', ''CHANNEL_HOLD'',
      ''CHANNEL_UNHOLD'', ''CHANNEL_HANGUP_COMPLETE'']"

section \<open>The translators\<close>

definition TranslateFreeSWITCHEvent :: "env \<Rightarrow> int \<Rightarrow> fs_event \<Rightarrow> goerr + lifecycle_event" where
  "TranslateFreeSWITCHEvent E now e =
     (case lifecycleEventType e of
        Inl err \<Rightarrow> Inl err
      | Inr ty \<Rightarrow>
          (case uuid_parse E (trim_space (event_Header e ''variable_leamout_call_id'')) of
             None \<Rightarrow> Inl (Wrap ''missing valid Leamout call id'' ErrUncorrelatedEvent)
           | Some callID \<Rightarrow>
               let channelID = trim_space (event_Header e ''Unique-ID'')
               in if channelID = [] then Inl (ErrorString ''FreeSWITCH call event is missing Unique-ID'')
                  else case freeSWITCHEventTime now e of
                    Inl err \<Rightarrow> Inl err
                  | Inr t \<Rightarrow>
                      let cause = trim_space (hangup_cause e)
                      in Inr \<lparr>v_call_id = callID, v_channel_id = channelID,
                              v_sip_call_id = trim_space (event_Header e ''variable_sip_call_id''),
                              v_type = ty, v_occurred_at = t,
                              v_hangup_reason =
                                (if ev_name e = ''CHANNEL_HANGUP_COMPLETE'' \<and> cause \<noteq> [] then Some cause else None)\<rparr>))"

definition inbound_headers :: "(string \<times> string) list" where
  "inbound_headers =
     [(''organization_id'', ''variable_sip_h_X-Leamout-Organization-ID''),
      (''trunk_id'', ''variable_sip_h_X-Leamout-Trunk-ID''),
      (''phone_number_id'', ''variable_sip_h_X-Leamout-Phone-Number-ID''),
      (''voice_agent_binding_id'', ''variable_sip_h_X-Leamout-Voice-Agent-Binding-ID''),
      (''voice_agent_id'', ''variable_sip_h_X-Leamout-Voice-Agent-ID'')]"

definition parse_inbound_id :: "env \<Rightarrow> fs_event \<Rightarrow> string \<Rightarrow> (uuid \<Rightarrow> goerr + 'a) \<Rightarrow> goerr + 'a" where
  "parse_inbound_id E e name k =
     (case uuid_parse E (trim_space (event_Header e (lookup inbound_headers name))) of
        None \<Rightarrow> Inl (ErrorString (''invalid inbound '' @ name))
      | Some i \<Rightarrow> k i)"

definition TranslateInboundFreeSWITCHEvent :: "env \<Rightarrow> int \<Rightarrow> fs_event \<Rightarrow> goerr + inbound_request \<times> int" where
  "TranslateInboundFreeSWITCHEvent E now e =
     (if ev_name e \<noteq> ''CHANNEL_CREATE'' then Inl (Wrap (ev_name e) ErrNotInboundAdmission)
      else if trim_space (event_Header e ''variable_leamout_call_id'') \<noteq> [] then Inl ErrNotInboundAdmission
      else if \<not> list_ex (\<lambda>(k, h). trim_space (event_Header e h) \<noteq> []) inbound_headers then Inl ErrNotInboundAdmission
      else
        parse_inbound_id E e ''organization_id'' (\<lambda>org.
        parse_inbound_id E e ''trunk_id'' (\<lambda>trunk.
        parse_inbound_id E e ''phone_number_id'' (\<lambda>number.
        parse_inbound_id E e ''voice_agent_binding_id'' (\<lambda>binding.
        parse_inbound_id E e ''voice_agent_id'' (\<lambda>agent.
          let channelID = trim_space (event_Header e ''Unique-ID'');
              sipCallID = trim_space (event_Header e ''variable_sip_call_id'');
              fromURI = firstNonEmpty [event_Header e ''variable_sip_from_uri'',
                          event_Header e ''Caller-Caller-ID-Number'', event_Header e ''Caller-ANI''];
              toURI = firstNonEmpty [event_Header e ''Caller-Destination-Number'', event_Header e ''variable_sip_to_user'']
          in if channelID = [] then Inl (ErrorString ''FreeSWITCH inbound event is missing Unique-ID'')
             else if sipCallID = [] then Inl (ErrorString ''FreeSWITCH inbound event is missing SIP Call-ID'')
             else if fromURI = [] then Inl (ErrorString ''FreeSWITCH inbound event is missing caller identity'')
             else if toURI = [] then Inl (ErrorString ''FreeSWITCH inbound event is missing called number'')
             else case freeSWITCHEventTime now e of
               Inl err \<Rightarrow> Inl err
             | Inr t \<Rightarrow> Inr (\<lparr>i_channel_id = channelID, i_sip_call_id = sipCallID, i_organization_id = org,
                              i_voice_agent_id = agent, i_phone_number_id = number,
                              i_voice_agent_binding_id = binding, i_trunk_id = trunk,
                              i_from_uri = trim_space fromURI, i_to_uri = trim_space toURI\<rparr>, t)))))))"

section \<open>Lemmas\<close>

lemma firstNonEmpty_trimmed: "trim_space (firstNonEmpty vs) = firstNonEmpty vs"
  by (induction vs) simp_all

lemma parse_inbound_id_Inr:
  "parse_inbound_id E e name k = Inr r \<Longrightarrow> \<exists>i. k i = Inr r"
  by (auto simp: parse_inbound_id_def split: option.splits)

lemma translated_inbound_fields:
  assumes "TranslateInboundFreeSWITCHEvent E now e = Inr (r, t)"
  shows "i_channel_id r \<noteq> []" "trim_space (i_channel_id r) = i_channel_id r"
    "i_sip_call_id r \<noteq> []" "trim_space (i_sip_call_id r) = i_sip_call_id r"
    "i_from_uri r \<noteq> []" "trim_space (i_from_uri r) = i_from_uri r"
    "i_to_uri r \<noteq> []" "trim_space (i_to_uri r) = i_to_uri r"
    "ev_name e = ''CHANNEL_CREATE''" "trim_space (event_Header e ''variable_leamout_call_id'') = []"
  using assms
  by (auto simp: TranslateInboundFreeSWITCHEvent_def Let_def firstNonEmpty_trimmed
      split: if_splits sum.splits dest!: parse_inbound_id_Inr)

section \<open>Properties\<close>

text \<open>
  An event that the translator admits as an inbound call passes the validation of the calls service,
  unless one of its five identifiers is the nil UUID.
\<close>

theorem admitted_inbound_event_valid:
  assumes "TranslateInboundFreeSWITCHEvent E now e = Inr (r, t)"
    and "uuid_Nil \<notin> {i_organization_id r, i_voice_agent_id r, i_phone_number_id r,
           i_voice_agent_binding_id r, i_trunk_id r}"
  shows "validateInboundAdmission r = Inr ()"
  using translated_inbound_fields [OF assms(1)] assms(2) by (auto simp: validateInboundAdmission_def)

definition sample_inbound_event :: fs_event where
  "sample_inbound_event =
     \<lparr>ev_name = ''CHANNEL_CREATE'',
      ev_headers = map (\<lambda>(k, h). (h, ''xx'')) inbound_headers @
        [(''Unique-ID'', ''chan''), (''variable_sip_call_id'', ''sip1''),
         (''Caller-ANI'', ''+15550100''), (''Caller-Destination-Number'', ''+15550199''),
         (''Event-Date-Timestamp'', ''42'')],
      ev_body = []\<rparr>"

definition sample_inbound_request :: inbound_request where
  "sample_inbound_request =
     \<lparr>i_channel_id = ''chan'', i_sip_call_id = ''sip1'', i_organization_id = 2, i_voice_agent_id = 2,
      i_phone_number_id = 2, i_voice_agent_binding_id = 2, i_trunk_id = 2, i_from_uri = ''+15550100'',
      i_to_uri = ''+15550199''\<rparr>"

lemma translate_sample_inbound:
  "TranslateInboundFreeSWITCHEvent sample_env 0 sample_inbound_event = Inr (sample_inbound_request, 42)"
  by code_simp

theorem admitted_inbound_event_valid_witness:
  "validateInboundAdmission sample_inbound_request = Inr ()"
  by (rule admitted_inbound_event_valid [OF translate_sample_inbound]) (simp add: sample_inbound_request_def)

text \<open>
  The two paths of the event consumer exclude each other: an event admitted as an inbound call is
  never also applied as a lifecycle event (\<^verbatim>\<open>uuid.Parse\<close> refuses the empty string).
\<close>

theorem inbound_and_lifecycle_exclusive:
  assumes "uuid_parse E [] = None" and "TranslateInboundFreeSWITCHEvent E now e = Inr r"
  shows "TranslateFreeSWITCHEvent E now' e = Inl (Wrap ''missing valid Leamout call id'' ErrUncorrelatedEvent)"
proof -
  obtain q t where "r = (q, t)" by (cases r)
  with translated_inbound_fields [of E now e q t] assms(2)
  have "ev_name e = ''CHANNEL_CREATE''" "trim_space (event_Header e ''variable_leamout_call_id'') = []" by simp_all
  with assms(1) show ?thesis by (simp add: TranslateFreeSWITCHEvent_def lifecycleEventType_def)
qed

theorem inbound_and_lifecycle_exclusive_witness:
  "TranslateFreeSWITCHEvent sample_env 0 sample_inbound_event =
     Inl (Wrap ''missing valid Leamout call id'' ErrUncorrelatedEvent)"
  by (rule inbound_and_lifecycle_exclusive [OF _ translate_sample_inbound]) (simp add: sample_env_def)

text \<open>
  The translator subscribes to what it can translate: the type of an event is defined exactly for the
  event names the worker subscribes to, and a hangup counts as completed exactly when the call was
  answered.
\<close>

theorem lifecycle_types_cover_subscription:
  "((\<exists>ty. lifecycleEventType e = Inr ty) \<longleftrightarrow> ev_name e \<in> set FreeSWITCHEvents) \<and>
   (lifecycleEventType e = Inr LifecycleCompleted \<longleftrightarrow> ev_name e = ''CHANNEL_HANGUP_COMPLETE'' \<and> eventAnswered e)"
  by (simp add: lifecycleEventType_def FreeSWITCHEvents_def Let_def)

end
