(* ===== verification/Routing.thy ===== *)
theory Routing
  imports Translator
begin

text \<open>
  Route resolution: \<^verbatim>\<open>telephony/routing\<close> (requests, validation, policy, repository, service) and the
  queries it uses. Shown: a resolved route stays within the organization that asked for it and uses only
  active, enabled, healthy rows, outbound routes come in priority order, and every refusal is one of the
  documented errors.
\<close>

section \<open>Queries\<close>

definition active_agent :: "db \<Rightarrow> uuid \<Rightarrow> uuid \<Rightarrow> bool" where
  "active_agent d agent org \<longleftrightarrow>
     list_ex (\<lambda>a. a_id a = agent \<and> a_organization_id a = org \<and> a_status a = ''active'') (voice_agents d)"

definition active_organization :: "db \<Rightarrow> uuid \<Rightarrow> bool" where
  "active_organization d org \<longleftrightarrow>
     list_ex (\<lambda>r. o_id r = org \<and> o_status r = ''active'' \<and> \<not> o_deleted r) (organizations d)"

definition GetVoiceAgentBindingByID :: "uuid \<Rightarrow> uuid \<Rightarrow> db \<Rightarrow> goerr + voice_agent_binding" where
  "GetVoiceAgentBindingByID i org d =
     select_one (\<lambda>b. b_id b = i \<and> b_organization_id b = org \<and>
        active_agent d (b_voice_agent_id b) (b_organization_id b) \<and> active_organization d (b_organization_id b))
       (voice_agent_bindings d)"

definition GetInboundCallContext ::
  "uuid \<Rightarrow> uuid \<Rightarrow> string \<Rightarrow> uuid \<Rightarrow> uuid \<Rightarrow> uuid \<Rightarrow> db \<Rightarrow> goerr + limits" where
  "GetInboundCallContext number_id org called trunk_id binding_id agent_id d =
     map_sum id (\<lambda>t. \<lparr>MaxCPS = t_max_cps t, MaxConcurrentCalls = t_max_concurrent_calls t\<rparr>)
       (select_one (\<lambda>t. t_id t = trunk_id \<and> t_status t = ''active'' \<and> t_inbound_enabled t \<and> t_organization_id t = org \<and>
          list_ex (\<lambda>pn. p_id pn = number_id \<and> p_organization_id pn = org \<and> p_number pn = called \<and>
             p_trunk_id pn = Some trunk_id \<and> p_status pn = ''active'' \<and> p_voice_enabled pn) (phone_numbers d) \<and>
          list_ex (\<lambda>b. b_id b = binding_id \<and> b_phone_number_id b = number_id \<and> b_organization_id b = org \<and>
             b_voice_agent_id b = agent_id) (voice_agent_bindings d) \<and>
          active_agent d agent_id org \<and> active_organization d org) (trunks d))"

definition GetTrunkByID :: "uuid \<Rightarrow> uuid \<Rightarrow> db \<Rightarrow> goerr + trunk" where
  "GetTrunkByID i org d = select_one (\<lambda>t. t_id t = i \<and> t_organization_id t = org) (trunks d)"

definition outbound_direction :: "string \<Rightarrow> bool" where
  "outbound_direction s \<longleftrightarrow> s = ''outbound'' \<or> s = ''bidirectional''"

definition ListActiveOutboundTrunkEndpoints :: "uuid \<Rightarrow> uuid \<Rightarrow> db \<Rightarrow> goerr + trunk_endpoint list" where
  "ListActiveOutboundTrunkEndpoints trunk_id org d =
     Inr (sort_key e_priority (sort_key (\<lambda>e. - e_weight e) (sort_key e_created_at
       (filter (\<lambda>e. e_trunk_id e = trunk_id \<and> e_organization_id e = org \<and> e_enabled e \<and>
           outbound_direction (e_direction e) \<and>
           list_ex (\<lambda>t. t_id t = trunk_id \<and> t_organization_id t = org \<and> t_status t = ''active'' \<and>
             outbound_direction (t_direction t)) (trunks d))
         (trunk_endpoints d)))))"

section \<open>Requests\<close>

record inbound_route_request =
  ir_organization_id :: uuid
  ir_voice_agent_id :: uuid
  ir_phone_number_id :: uuid
  ir_voice_agent_binding_id :: uuid
  ir_trunk_id :: uuid
  ir_called_number :: string

record inbound_decision =
  id_organization_id :: uuid
  id_voice_agent_id :: uuid
  id_phone_number_id :: uuid
  id_voice_agent_binding_id :: uuid
  id_trunk_id :: uuid
  id_called_number :: string
  id_limits :: limits

record outbound_route =
  or_trunk_id :: uuid
  or_trunk_endpoint_id :: uuid
  or_host :: string
  or_port :: int
  or_transport :: string
  or_limits :: limits

definition normalizeInboundRequest :: "inbound_route_request \<Rightarrow> inbound_route_request" where
  "normalizeInboundRequest req = req\<lparr>ir_called_number := trim_space (ir_called_number req)\<rparr>"

definition validateInboundRequest :: "inbound_route_request \<Rightarrow> goerr + unit" where
  "validateInboundRequest req =
     (if ir_organization_id req = uuid_Nil then Inl (NewBadRequest ''organization_id is required'')
      else if ir_voice_agent_id req = uuid_Nil then Inl (NewBadRequest ''voice_agent_id is required'')
      else if ir_phone_number_id req = uuid_Nil then Inl (NewBadRequest ''phone_number_id is required'')
      else if ir_voice_agent_binding_id req = uuid_Nil then Inl (NewBadRequest ''voice_agent_binding_id is required'')
      else if ir_trunk_id req = uuid_Nil then Inl (NewBadRequest ''trunk_id is required'')
      else if ir_called_number req = [] then Inl (NewBadRequest ''called_number is required'')
      else Inr ())"

definition validateOutboundRequest :: "uuid \<Rightarrow> uuid option \<Rightarrow> string \<Rightarrow> goerr + unit" where
  "validateOutboundRequest org trunk destination =
     (if org = uuid_Nil then Inl (NewBadRequest ''organization_id is required'')
      else if trunk = Some uuid_Nil then Inl (NewBadRequest ''trunk_id is invalid'')
      else if destination = [] then Inl (NewBadRequest ''destination is required'')
      else Inr ())"

text \<open>The regular expression \<^verbatim>\<open>^\+[1-9][0-9]{6,14}$\<close> and \<^verbatim>\<open>managedDestination\<close>.\<close>

definition managedE164 :: "string \<Rightarrow> bool" where
  "managedE164 s \<longleftrightarrow>
     (case s of
        p # d # ds \<Rightarrow> p = CHR ''+'' \<and> is_digit d \<and> d \<noteq> CHR ''0'' \<and> list_all is_digit ds \<and>
          6 \<le> length ds \<and> length ds \<le> 14
      | _ \<Rightarrow> False)"

definition before :: "char \<Rightarrow> string \<Rightarrow> string" where
  "before c s = takeWhile (\<lambda>x. x \<noteq> c) s"

definition managedDestination :: "string \<Rightarrow> goerr + string \<times> string" where
  "managedDestination raw =
     (let v = trim_space raw; lower = to_lower v;
          v = (if has_prefix ''sip:'' lower \<or> has_prefix ''tel:'' lower then drop 4 v else v);
          v = before (CHR '';'') (before (CHR ''@'') v)
      in if managedE164 v then Inr (v, tl v)
         else Inl (NewBadRequest ''managed destination must be an E.164 number''))"

section \<open>Repository and service\<close>

definition GetInboundContext :: "env \<Rightarrow> inbound_route_request \<Rightarrow> (world, goerr + limits) state" where
  "GetInboundContext E req = do {
     b \<leftarrow> query E (GetVoiceAgentBindingByID (ir_voice_agent_binding_id req) (ir_organization_id req));
     case b of
       Inl e \<Rightarrow> State_Monad.return (Inl e)
     | Inr binding \<Rightarrow>
         if b_voice_agent_id binding \<noteq> ir_voice_agent_id req \<or> b_phone_number_id binding \<noteq> ir_phone_number_id req
         then State_Monad.return (Inl ErrNoRows)
         else query E (GetInboundCallContext (ir_phone_number_id req) (ir_organization_id req) (ir_called_number req)
                (ir_trunk_id req) (ir_voice_agent_binding_id req) (ir_voice_agent_id req))
   }"

definition route_of :: "trunk \<Rightarrow> trunk_endpoint \<Rightarrow> outbound_route" where
  "route_of t e =
     \<lparr>or_trunk_id = t_id t, or_trunk_endpoint_id = e_id e, or_host = e_host e, or_port = e_port e,
      or_transport = e_transport e,
      or_limits = \<lparr>MaxCPS = t_max_cps t, MaxConcurrentCalls = t_max_concurrent_calls t\<rparr>\<rparr>"

fun build_routes :: "trunk \<Rightarrow> trunk_endpoint list \<Rightarrow> outbound_route list \<Rightarrow> goerr + outbound_route list" where
  "build_routes t [] acc = Inr acc"
| "build_routes t (e # es) acc =
     (if e_health_status e = ''unhealthy'' then build_routes t es acc
      else if e_port e < 1 \<or> e_port e > 65535 then Inl (ErrorString ''invalid trunk endpoint port'')
      else build_routes t es (acc @ [route_of t e]))"

definition ResolveBYOCOutbound :: "env \<Rightarrow> uuid \<Rightarrow> uuid \<Rightarrow> (world, goerr + outbound_route list) state" where
  "ResolveBYOCOutbound E org trunk_id = do {
     r \<leftarrow> query E (GetTrunkByID trunk_id org);
     case r of
       Inl e \<Rightarrow> State_Monad.return (Inl e)
     | Inr t \<Rightarrow>
         if t_status t \<noteq> ''active'' \<or> (t_direction t \<noteq> ''outbound'' \<and> t_direction t \<noteq> ''bidirectional'')
         then State_Monad.return (Inl ErrNoRows)
         else do {
           es \<leftarrow> query E (ListActiveOutboundTrunkEndpoints trunk_id org);
           case es of
             Inl e \<Rightarrow> State_Monad.return (Inl e)
           | Inr endpoints \<Rightarrow>
               (case build_routes t endpoints [] of
                  Inl e \<Rightarrow> State_Monad.return (Inl e)
                | Inr routes \<Rightarrow>
                    if routes = [] then State_Monad.return (Inl ErrNoRows) else State_Monad.return (Inr routes))
         }
   }"

definition ResolveInbound :: "env \<Rightarrow> inbound_route_request \<Rightarrow> (world, goerr + inbound_decision) state" where
  "ResolveInbound E req0 =
     (let req = normalizeInboundRequest req0
      in case validateInboundRequest req of
           Inl e \<Rightarrow> State_Monad.return (Inl e)
         | Inr _ \<Rightarrow> do {
             r \<leftarrow> GetInboundContext E req;
             case r of
               Inl e \<Rightarrow>
                 if error_is e ErrNoRows then State_Monad.return (Inl (NewNotFound ''no eligible inbound route''))
                 else State_Monad.return (Inl (NewInternal ''resolve inbound route'' e))
             | Inr lim \<Rightarrow>
                 State_Monad.return (Inr
                   \<lparr>id_organization_id = ir_organization_id req, id_voice_agent_id = ir_voice_agent_id req,
                    id_phone_number_id = ir_phone_number_id req,
                    id_voice_agent_binding_id = ir_voice_agent_binding_id req, id_trunk_id = ir_trunk_id req,
                    id_called_number = ir_called_number req, id_limits = lim\<rparr>)
           })"

definition ResolveOutbound :: "env \<Rightarrow> uuid \<Rightarrow> uuid option \<Rightarrow> string \<Rightarrow> (world, goerr + outbound_route list) state" where
  "ResolveOutbound E org trunk destination =
     (case validateOutboundRequest org trunk (trim_space destination) of
        Inl e \<Rightarrow> State_Monad.return (Inl e)
      | Inr _ \<Rightarrow>
          (case trunk of
             None \<Rightarrow> State_Monad.return (Inl (NewBadRequest ''trunk_id is required for outbound calls''))
           | Some t \<Rightarrow> do {
               r \<leftarrow> ResolveBYOCOutbound E org t;
               case r of
                 Inl e \<Rightarrow>
                   if error_is e ErrNoRows then State_Monad.return (Inl (NewNotFound ''no eligible outbound route''))
                   else State_Monad.return (Inl (NewInternal ''resolve outbound route'' e))
               | Inr routes \<Rightarrow> State_Monad.return (Inr routes)
             }))"

section \<open>Lemmas\<close>

context world_history
begin

lemma routing_moves:
  assumes "rely E"
  shows "moves (GetInboundContext E req)" "moves (ResolveBYOCOutbound E org t)" "moves (ResolveInbound E req)"
    "moves (ResolveOutbound E org tr dst)"
  unfolding GetInboundContext_def ResolveBYOCOutbound_def ResolveInbound_def ResolveOutbound_def Let_def
  by (intro moves_intros query_moves assms)+

end

lemma build_routes_Inr:
  "build_routes t es acc = Inr rs \<Longrightarrow>
   rs = acc @ map (route_of t) (filter (\<lambda>e. e_health_status e \<noteq> ''unhealthy'') es) \<and>
   (\<forall>e \<in> set es. e_health_status e \<noteq> ''unhealthy'' \<longrightarrow> 1 \<le> e_port e \<and> e_port e \<le> 65535)"
  by (induction t es acc rule: build_routes.induct) (auto split: if_splits)

text \<open>The rows an outbound route may be built from.\<close>

definition eligible_endpoint :: "db \<Rightarrow> uuid \<Rightarrow> trunk \<Rightarrow> trunk_endpoint \<Rightarrow> bool" where
  "eligible_endpoint d org t e \<longleftrightarrow>
     t \<in> set (trunks d) \<and> e \<in> set (trunk_endpoints d) \<and> t_organization_id t = org \<and> t_status t = ''active'' \<and>
     outbound_direction (t_direction t) \<and> e_trunk_id e = t_id t \<and> e_organization_id e = org \<and> e_enabled e \<and>
     outbound_direction (e_direction e) \<and> e_health_status e \<noteq> ''unhealthy'' \<and> 1 \<le> e_port e \<and> e_port e \<le> 65535"

lemma ResolveBYOCOutbound_quiet:
  assumes "quiet E" and "fst (run_state (ResolveBYOCOutbound E org i) w) = Inr routes"
  obtains t es where "t_id t = i" "routes = map (route_of t) es" "es \<noteq> []" "sorted (map e_priority es)"
    "\<forall>e \<in> set es. eligible_endpoint (database w) org t e"
proof -
  obtain t where t: "GetTrunkByID i org (database w) = Inr t"
    using assms by (cases "GetTrunkByID i org (database w)") (auto simp: ResolveBYOCOutbound_def)
  then have T: "t \<in> set (trunks (database w))" "t_id t = i" "t_organization_id t = org"
    by (auto simp: GetTrunkByID_def dest!: select_one_Inr)
  obtain eps where eps: "ListActiveOutboundTrunkEndpoints i org (database w) = Inr eps"
    by (simp add: ListActiveOutboundTrunkEndpoints_def)
  from assms t eps have st: "t_status t = ''active''" "outbound_direction (t_direction t)"
    and b: "build_routes t eps [] = Inr routes" "routes \<noteq> []"
    by (auto simp: ResolveBYOCOutbound_def outbound_direction_def split: if_splits sum.splits)
  let ?es = "filter (\<lambda>e. e_health_status e \<noteq> ''unhealthy'') eps"
  have set_eps: "e \<in> set (trunk_endpoints (database w))" "e_trunk_id e = i" "e_organization_id e = org" "e_enabled e"
    "outbound_direction (e_direction e)" if "e \<in> set eps" for e
    using eps that by (auto simp: ListActiveOutboundTrunkEndpoints_def)
  have "sorted (map e_priority eps)"
    using eps by (auto simp: ListActiveOutboundTrunkEndpoints_def)
  then have "sorted (map e_priority ?es)" by (rule sorted_filter)
  moreover have "routes = map (route_of t) ?es" using build_routes_Inr [OF b(1)] by simp
  moreover have "\<forall>e \<in> set ?es. eligible_endpoint (database w) org t e"
    using build_routes_Inr [OF b(1)] T st set_eps by (auto simp: eligible_endpoint_def)
  ultimately show ?thesis using that [of t ?es] T(2) b(2) by simp
qed

section \<open>Properties\<close>

text \<open>
  C26: Outbound routing never leaves the tenant: every route returned for an organization is built from
  an active outbound trunk and an enabled, not unhealthy outbound endpoint of that same organization and
  trunk, with a valid port; the routes come in the order of the endpoint priorities and there is at
  least one.
\<close>

theorem outbound_routes_within_tenant:
  assumes "quiet E" and "fst (run_state (ResolveOutbound E org trunk dst) w) = Inr routes"
  shows "\<exists>t es. trunk = Some (t_id t) \<and> routes = map (route_of t) es \<and> es \<noteq> [] \<and> sorted (map e_priority es) \<and>
    (\<forall>e \<in> set es. eligible_endpoint (database w) org t e)"
proof -
  obtain i where i: "trunk = Some i"
    using assms(2) by (cases trunk) (auto simp: ResolveOutbound_def split: sum.splits)
  have "fst (run_state (ResolveBYOCOutbound E org i) w) = Inr routes"
    using assms(2) i
    by (auto simp: ResolveOutbound_def case_prod_unfold split: sum.splits if_splits)
  with assms(1) obtain t es where "t_id t = i" "routes = map (route_of t) es" "es \<noteq> []"
    "sorted (map e_priority es)" "\<forall>e \<in> set es. eligible_endpoint (database w) org t e"
    by (rule ResolveBYOCOutbound_quiet)
  with i show ?thesis by blast
qed

definition sample_trunk :: trunk where
  "sample_trunk = \<lparr>t_id = 7, t_organization_id = 1, t_name = ''carrier'', t_direction = ''outbound'', t_status = ''active'',
     t_outbound_auth_method = ''none'', t_auth_username = None, t_auth_realm = None, t_auth_secret_ciphertext = None,
     t_inbound_enabled = False, t_inbound_auth_method = ''ip'', t_inbound_username = None, t_inbound_realm = None,
     t_inbound_secret_ciphertext = None, t_max_cps = 5, t_max_concurrent_calls = 10, t_codecs = [''PCMU''],
     t_supports_video = False, t_supports_fax = False, t_created_at = 0, t_updated_at = 0\<rparr>"

definition sample_endpoint :: "uuid \<Rightarrow> int \<Rightarrow> trunk_endpoint" where
  "sample_endpoint i prio = \<lparr>e_id = i, e_organization_id = 1, e_trunk_id = 7, e_host = ''carrier'', e_port = 5060,
     e_transport = ''udp'', e_direction = ''outbound'', e_priority = prio, e_weight = 1, e_enabled = True,
     e_health_status = ''healthy'', e_consecutive_failures = 0, e_last_checked_at = None, e_last_response_code = None,
     e_last_latency_ms = None, e_last_error = None, e_cooldown_until = None, e_created_at = 0, e_updated_at = 0\<rparr>"

definition sample_organization :: organization where
  "sample_organization = \<lparr>o_id = 1, o_status = ''active'', o_deleted = False\<rparr>"

definition route_world :: world where
  "route_world = empty_world\<lparr>database := empty_db\<lparr>trunks := [sample_trunk], organizations := [sample_organization],
     trunk_endpoints := [sample_endpoint 8 20, sample_endpoint 9 10]\<rparr>\<rparr>"

lemma sample_routes:
  "fst (run_state (ResolveOutbound sample_env 1 (Some 7) ''+15550199'') route_world) =
     Inr [route_of sample_trunk (sample_endpoint 9 10), route_of sample_trunk (sample_endpoint 8 20)]"
  by code_simp

theorem outbound_routes_within_tenant_witness:
  "\<exists>t es. Some (7 :: uuid) = Some (t_id t) \<and>
    [route_of sample_trunk (sample_endpoint 9 10), route_of sample_trunk (sample_endpoint 8 20)] = map (route_of t) es \<and>
    es \<noteq> [] \<and> sorted (map e_priority es) \<and> (\<forall>e \<in> set es. eligible_endpoint (database route_world) 1 t e)"
  by (rule outbound_routes_within_tenant [OF quiet_sample sample_routes])

text \<open>
  Inbound routing admits a call only on a consistent tuple: the number, its trunk, the binding and the
  agent all exist, are active and belong to the organization of the request, and the limits are those of
  that trunk.
\<close>

theorem inbound_route_within_tenant:
  assumes "quiet E" and "fst (run_state (ResolveInbound E req) w) = Inr dec"
  shows "\<exists>t \<in> set (trunks (database w)). \<exists>pn \<in> set (phone_numbers (database w)). \<exists>b \<in> set (voice_agent_bindings (database w)).
    id_trunk_id dec = t_id t \<and> t_organization_id t = id_organization_id dec \<and> t_status t = ''active'' \<and> t_inbound_enabled t \<and>
    p_id pn = id_phone_number_id dec \<and> p_organization_id pn = id_organization_id dec \<and> p_trunk_id pn = Some (t_id t) \<and>
    p_number pn = trim_space (ir_called_number req) \<and> p_voice_enabled pn \<and>
    b_id b = id_voice_agent_binding_id dec \<and> b_organization_id b = id_organization_id dec \<and>
    b_voice_agent_id b = id_voice_agent_id dec \<and> b_phone_number_id b = p_id pn \<and>
    active_agent (database w) (id_voice_agent_id dec) (id_organization_id dec) \<and>
    active_organization (database w) (id_organization_id dec) \<and>
    id_limits dec = \<lparr>MaxCPS = t_max_cps t, MaxConcurrentCalls = t_max_concurrent_calls t\<rparr>"
proof -
  let ?req = "normalizeInboundRequest req"
  obtain lim where lim: "GetInboundCallContext (ir_phone_number_id ?req) (ir_organization_id ?req)
      (ir_called_number ?req) (ir_trunk_id ?req) (ir_voice_agent_binding_id ?req) (ir_voice_agent_id ?req) (database w) = Inr lim"
    and dec: "dec = \<lparr>id_organization_id = ir_organization_id ?req, id_voice_agent_id = ir_voice_agent_id ?req,
      id_phone_number_id = ir_phone_number_id ?req, id_voice_agent_binding_id = ir_voice_agent_binding_id ?req,
      id_trunk_id = ir_trunk_id ?req, id_called_number = ir_called_number ?req, id_limits = lim\<rparr>"
    using assms
    by (auto simp: ResolveInbound_def GetInboundContext_def Let_def split: sum.splits if_splits prod.splits)
  from lim obtain t where t: "t \<in> set (trunks (database w))"
    "lim = \<lparr>MaxCPS = t_max_cps t, MaxConcurrentCalls = t_max_concurrent_calls t\<rparr>"
    "t_id t = ir_trunk_id ?req" "t_status t = ''active''" "t_inbound_enabled t" "t_organization_id t = ir_organization_id ?req"
    "active_agent (database w) (ir_voice_agent_id ?req) (ir_organization_id ?req)"
    "active_organization (database w) (ir_organization_id ?req)"
    and pn: "list_ex (\<lambda>pn. p_id pn = ir_phone_number_id ?req \<and> p_organization_id pn = ir_organization_id ?req \<and>
       p_number pn = ir_called_number ?req \<and> p_trunk_id pn = Some (ir_trunk_id ?req) \<and> p_status pn = ''active'' \<and>
       p_voice_enabled pn) (phone_numbers (database w))"
    and b: "list_ex (\<lambda>b. b_id b = ir_voice_agent_binding_id ?req \<and> b_phone_number_id b = ir_phone_number_id ?req \<and>
       b_organization_id b = ir_organization_id ?req \<and> b_voice_agent_id b = ir_voice_agent_id ?req) (voice_agent_bindings (database w))"
    by (auto simp: GetInboundCallContext_def map_sum_def split: sum.splits dest!: select_one_Inr)
  from pn obtain n where n: "n \<in> set (phone_numbers (database w))" "p_id n = ir_phone_number_id ?req"
    "p_organization_id n = ir_organization_id ?req" "p_number n = ir_called_number ?req"
    "p_trunk_id n = Some (ir_trunk_id ?req)" "p_voice_enabled n" by (auto simp: list_ex_iff)
  from b obtain c where c: "c \<in> set (voice_agent_bindings (database w))" "b_id c = ir_voice_agent_binding_id ?req"
    "b_phone_number_id c = ir_phone_number_id ?req" "b_organization_id c = ir_organization_id ?req"
    "b_voice_agent_id c = ir_voice_agent_id ?req" by (auto simp: list_ex_iff)
  have "ir_called_number ?req = trim_space (ir_called_number req)" by (simp add: normalizeInboundRequest_def)
  with t n c show ?thesis
    by (intro bexI [of _ t] bexI [of _ n] bexI [of _ c]) (simp_all add: dec)
qed

definition inbound_world :: world where
  "inbound_world = empty_world\<lparr>database := empty_db\<lparr>
     trunks := [sample_trunk\<lparr>t_inbound_enabled := True\<rparr>], organizations := [sample_organization],
     phone_numbers := [\<lparr>p_id = 4, p_organization_id = 1, p_number = ''+15550199'', p_trunk_id = Some 7,
       p_voice_enabled = True, p_status = ''active'', p_country_code = ''US'',
       p_created_at = 0, p_updated_at = 0\<rparr>],
     voice_agent_bindings := [\<lparr>b_id = 6, b_organization_id = 1, b_voice_agent_id = 5, b_phone_number_id = 4\<rparr>],
     voice_agents := [\<lparr>a_id = 5, a_organization_id = 1, a_status = ''active''\<rparr>]\<rparr>\<rparr>"

definition sample_inbound_route :: inbound_route_request where
  "sample_inbound_route = \<lparr>ir_organization_id = 1, ir_voice_agent_id = 5, ir_phone_number_id = 4,
     ir_voice_agent_binding_id = 6, ir_trunk_id = 7, ir_called_number = '' +15550199''\<rparr>"

definition sample_decision :: inbound_decision where
  "sample_decision = \<lparr>id_organization_id = 1, id_voice_agent_id = 5, id_phone_number_id = 4,
     id_voice_agent_binding_id = 6, id_trunk_id = 7, id_called_number = ''+15550199'',
     id_limits = \<lparr>MaxCPS = 5, MaxConcurrentCalls = 10\<rparr>\<rparr>"

lemma sample_inbound_decision:
  "fst (run_state (ResolveInbound sample_env sample_inbound_route) inbound_world) = Inr sample_decision"
  by code_simp

theorem inbound_route_within_tenant_witness:
  "\<exists>t \<in> set (trunks (database inbound_world)). id_trunk_id sample_decision = t_id t \<and>
     t_organization_id t = id_organization_id sample_decision"
  using inbound_route_within_tenant [OF quiet_sample sample_inbound_decision] by blast

end
