(* ===== verification/Controller.thy ===== *)
theory Controller
  imports Routing
begin

text \<open>
  The call controller: \<^verbatim>\<open>runtime/calling/controller.go\<close> and \<^verbatim>\<open>originate_error.go\<close>, which turn a resolved
  route into FreeSWITCH commands. Shown: an accepted route has a host, a port, a known transport and
  dialable addresses, and its originate command carries the identity of the call and of the trunk;
  the classification of originate failures is total.
\<close>

section \<open>Dialable addresses\<close>

text \<open>\<^verbatim>\<open>unicode.IsDigit\<close> holds of the decimal digits of Unicode 15.0: blocks of ten code points.\<close>

definition digit_blocks :: "int list" where
  "digit_blocks =
     [0x30, 0x660, 0x6F0, 0x7C0, 0x966, 0x9E6, 0xA66, 0xAE6, 0xB66, 0xBE6, 0xC66, 0xCE6, 0xD66, 0xDE6, 0xE50,
      0xED0, 0xF20, 0x1040, 0x1090, 0x17E0, 0x1810, 0x1946, 0x19D0, 0x1A80, 0x1A90, 0x1B50, 0x1BB0, 0x1C40,
      0x1C50, 0xA620, 0xA8D0, 0xA900, 0xA9D0, 0xA9F0, 0xAA50, 0xABF0, 0xFF10, 0x104A0, 0x10D30, 0x11066,
      0x110F0, 0x11136, 0x111D0, 0x112F0, 0x11450, 0x114D0, 0x11650, 0x116C0, 0x11730, 0x118E0, 0x11950,
      0x11C50, 0x11D50, 0x11DA0, 0x11F50, 0x16A60, 0x16AC0, 0x16B50, 0x1D7CE, 0x1D7D8, 0x1D7E2, 0x1D7EC,
      0x1D7F6, 0x1E140, 0x1E2F0, 0x1E4F0, 0x1E950, 0x1FBF0]"

definition is_digit_rune :: "int \<Rightarrow> bool" where
  "is_digit_rune n \<longleftrightarrow> list_ex (\<lambda>b. b \<le> n \<and> n < b + 10) digit_blocks"

text \<open>
  The first rune of a non-empty string and the rest, as a \<^verbatim>\<open>range\<close> loop decodes it: an invalid encoding
  is the replacement character and takes one byte.
\<close>

definition continuation :: "int \<Rightarrow> int \<Rightarrow> char \<Rightarrow> bool" where
  "continuation lo hi c \<longleftrightarrow> lo \<le> (of_char c :: int) \<and> (of_char c :: int) \<le> hi"

fun decode_rune :: "char \<Rightarrow> string \<Rightarrow> int \<times> string" where
  "decode_rune c cs =
     (let n = of_char c; bad = (0xFFFD, cs);
          low = (\<lambda>x. of_char x - 0x80)
      in if n < 0x80 then (n, cs)
         else if 0xC2 \<le> n \<and> n \<le> 0xDF then
           (case cs of
              x # r \<Rightarrow> if continuation 0x80 0xBF x then ((n - 0xC0) * 64 + low x, r) else bad
            | _ \<Rightarrow> bad)
         else if 0xE0 \<le> n \<and> n \<le> 0xEF then
           (case cs of
              x # y # r \<Rightarrow>
                if continuation (if n = 0xE0 then 0xA0 else 0x80) (if n = 0xED then 0x9F else 0xBF) x \<and>
                   continuation 0x80 0xBF y
                then ((n - 0xE0) * 4096 + low x * 64 + low y, r) else bad
            | _ \<Rightarrow> bad)
         else if 0xF0 \<le> n \<and> n \<le> 0xF4 then
           (case cs of
              x # y # z # r \<Rightarrow>
                if continuation (if n = 0xF0 then 0x90 else 0x80) (if n = 0xF4 then 0x8F else 0xBF) x \<and>
                   continuation 0x80 0xBF y \<and> continuation 0x80 0xBF z
                then ((n - 0xF0) * 262144 + low x * 4096 + low y * 64 + low z, r) else bad
            | _ \<Rightarrow> bad)
         else bad)"

declare decode_rune.simps [simp del]

lemma decode_rune_shorter: "length (snd (decode_rune c cs)) \<le> length cs"
  by (auto simp: decode_rune.simps Let_def split: list.split)

function all_digit_runes :: "string \<Rightarrow> bool" where
  "all_digit_runes [] = True"
| "all_digit_runes (c # cs) = (is_digit_rune (fst (decode_rune c cs)) \<and> all_digit_runes (snd (decode_rune c cs)))"
  by pat_completeness auto
termination
  by (relation "measure length") (auto simp: less_Suc_eq_le decode_rune_shorter)

definition validPSTNAddress :: "string \<Rightarrow> bool" where
  "validPSTNAddress v \<longleftrightarrow>
     v \<noteq> [] \<and> length v \<le> 32 \<and>
     all_digit_runes (case v of c # cs \<Rightarrow> if c = CHR ''+'' then cs else v | [] \<Rightarrow> []) \<and> v \<noteq> ''+''"

section \<open>Egress\<close>

record originate_request =
  q_call_id :: uuid
  q_destination :: string
  q_caller_id :: string
  q_trunk_id :: uuid
  q_host :: string
  q_port :: int
  q_transport :: string
  q_privacy :: bool
  q_dtmf_mode :: string
  q_media_encryption :: string
  q_max_duration_seconds :: int

definition JoinHostPort :: "string \<Rightarrow> string \<Rightarrow> string" where
  "JoinHostPort host port =
     (if CHR '':'' \<in> set host then ''['' @ host @ '']:'' @ port else host @ '':'' @ port)"

definition freeSWITCHEgress :: "originate_request \<Rightarrow> goerr + string \<times> string" where
  "freeSWITCHEgress req =
     (let host = trim_space (q_host req);
          transport = to_lower (trim_space (q_transport req));
          destination = trim_space (q_destination req);
          callerID = trim_space (q_caller_id req)
      in if host = [] then Inl (ErrorString ''resolved route host is required'')
         else if contains_any host ([CHR '' '', CHR 0x09, CHR 0x0D, CHR 0x0A] @ '',{}[]'')
         then Inl (ErrorString ''resolved route host is invalid'')
         else if q_port req = 0 then Inl (ErrorString ''resolved route port is required'')
         else if transport \<notin> {''udp'', ''tcp'', ''tls''} then Inl (ErrorString ''resolved route transport is invalid'')
         else if \<not> validPSTNAddress destination then Inl (ErrorString ''resolved route destination is invalid'')
         else if callerID \<noteq> [] \<and> \<not> validPSTNAddress callerID then Inl (ErrorString ''caller id is invalid'')
         else Inr (''sofia/internal/'' @ destination @ ''@'' @ JoinHostPort ''opensips'' (itoa 5060) @ '';transport=udp'',
                   ''sip:'' @ JoinHostPort host (itoa (q_port req)) @ '';transport='' @ transport))"

definition egressVariables :: "env \<Rightarrow> originate_request \<Rightarrow> string \<Rightarrow> goerr + (string \<times> string) list" where
  "egressVariables E req routeURI =
     (if q_call_id req = uuid_Nil then Inl (ErrorString ''call id is required'')
      else if q_trunk_id req = uuid_Nil then Inl (ErrorString ''resolved trunk id is required'')
      else if q_max_duration_seconds req < 0 then Inl (ErrorString ''maximum duration cannot be negative'')
      else
        let base = [(''leamout_call_id'', uuid_string E (q_call_id req)),
                    (''sip_h_X-Leamout-Route-URI'', routeURI),
                    (''sip_h_X-Leamout-Trunk-ID'', uuid_string E (q_trunk_id req))];
            duration = (if q_max_duration_seconds req > 0
                        then [(''execute_on_answer'',
                               ''sched_hangup +'' @ itoa (q_max_duration_seconds req) @ '' ALLOTTED_TIMEOUT'')] else []);
            privacy = (if q_privacy req then [(''sip_h_X-Leamout-Privacy'', ''id'')] else []);
            mode = to_lower (trim_space (q_dtmf_mode req));
            encryption = to_lower (trim_space (q_media_encryption req))
        in if mode \<notin> {[], ''rfc2833'', ''info'', ''none''} then Inl (ErrorString ''DTMF mode is invalid'')
           else if encryption \<notin> {[], ''none'', ''sdes_srtp''} then Inl (ErrorString ''media encryption is invalid'')
           else Inr (base @ duration @ privacy @ (if mode \<noteq> [] then [(''dtmf_type'', mode)] else []) @
                     (if encryption \<noteq> [] then [(''sip_h_X-Leamout-Media-Encryption'', encryption)] else [])))"

text \<open>The failure of an external call behind an error, if there is one, and what kind it is.\<close>

fun io_cause :: "goerr \<Rightarrow> nat option" where
  "io_cause (IOError t) = Some t"
| "io_cause (Wrap m e) = io_cause e"
| "io_cause (AppErr c m (Some e)) = io_cause e"
| "io_cause (OriginateErr c n e) = io_cause e"
| "io_cause (Joined a b) = (case io_cause a of Some t \<Rightarrow> Some t | None \<Rightarrow> io_cause b)"
| "io_cause _ = None"

definition classifyClientOriginateError :: "env \<Rightarrow> goerr \<Rightarrow> goerr" where
  "classifyClientOriginateError E err =
     OriginateErr
       (case io_cause err of
          None \<Rightarrow> OriginateFailureInternal
        | Some t \<Rightarrow>
            (case failure_kind E t of
               DeadlineExceeded \<Rightarrow> OriginateFailureTimeout
             | ContextCanceled \<Rightarrow> OriginateFailureInternal
             | NetTimeout \<Rightarrow> OriginateFailureTimeout
             | NetError \<Rightarrow> OriginateFailureTransport
             | OtherFailure \<Rightarrow> OriginateFailureInternal))
       0 (Wrap ''originate call'' err)"

definition NewSIPOriginateError :: "int \<Rightarrow> goerr option \<Rightarrow> goerr" where
  "NewSIPOriginateError status err =
     OriginateErr OriginateFailureSIP status
       (case err of None \<Rightarrow> ErrorString ''SIP originate failed'' | Some e \<Rightarrow> e)"

section \<open>Operations\<close>

definition controller_Originate :: "env \<Rightarrow> originate_request \<Rightarrow> (world, goerr + string) state" where
  "controller_Originate E req =
     (case freeSWITCHEgress req of
        Inl e \<Rightarrow> State_Monad.return (Inl (OriginateErr OriginateFailureValidation 0 e))
      | Inr (endpoint, routeURI) \<Rightarrow>
          (case egressVariables E req routeURI of
             Inl e \<Rightarrow> State_Monad.return (Inl (OriginateErr OriginateFailureValidation 0 e))
           | Inr variables \<Rightarrow> do {
               r \<leftarrow> fs_Originate E endpoint (q_destination req) (q_caller_id req) variables;
               case r of
                 Inl e \<Rightarrow> State_Monad.return (Inl (classifyClientOriginateError E e))
               | Inr channel \<Rightarrow>
                   if trim_space channel = []
                   then State_Monad.return (Inl (ErrorString ''FreeSWITCH returned empty channel UUID''))
                   else State_Monad.return (Inr channel)
             }))"

definition wrapped :: "string \<Rightarrow> (world, goerr + 'a) state \<Rightarrow> (world, goerr + unit) state" where
  "wrapped name m = do {
     r \<leftarrow> m;
     case r of
       Inl e \<Rightarrow> State_Monad.return (Inl (Wrap name e))
     | Inr _ \<Rightarrow> State_Monad.return (Inr ())
   }"

definition controller_Answer :: "env \<Rightarrow> string \<Rightarrow> (world, goerr + unit) state" where
  "controller_Answer E ch = wrapped ''answer call'' (fs_Answer E ch)"

definition controller_Hangup :: "env \<Rightarrow> string \<Rightarrow> (world, goerr + unit) state" where
  "controller_Hangup E ch = wrapped ''hangup call'' (fs_Hangup E ch)"

definition controller_SetMaxDuration :: "env \<Rightarrow> string \<Rightarrow> int \<Rightarrow> (world, goerr + unit) state" where
  "controller_SetMaxDuration E ch seconds =
     (if seconds \<le> 0 then State_Monad.return (Inl (ErrorString ''maximum call duration must be positive''))
      else wrapped ''set maximum call duration''
             (fs_SetVariable E ch ''execute_on_answer'' (''sched_hangup +'' @ itoa seconds @ '' ALLOTTED_TIMEOUT'')))"

definition controller_Transfer :: "env \<Rightarrow> string \<Rightarrow> string \<Rightarrow> string \<Rightarrow> string \<Rightarrow> (world, goerr + unit) state" where
  "controller_Transfer E ch destination dialplan context =
     wrapped ''transfer call'' (fs_Transfer E ch destination dialplan context)"

definition controller_Hold :: "env \<Rightarrow> string \<Rightarrow> (world, goerr + unit) state" where
  "controller_Hold E ch = wrapped ''hold call'' (fs_Hold E ch)"

definition controller_Resume :: "env \<Rightarrow> string \<Rightarrow> (world, goerr + unit) state" where
  "controller_Resume E ch = wrapped ''resume call'' (fs_Unhold E ch)"

definition controller_PlayAudio :: "env \<Rightarrow> string \<Rightarrow> string \<Rightarrow> (world, goerr + unit) state" where
  "controller_PlayAudio E ch path = wrapped ''play audio'' (fs_PlayAudio E ch path)"

definition controller_StopPlayback :: "env \<Rightarrow> string \<Rightarrow> (world, goerr + unit) state" where
  "controller_StopPlayback E ch = wrapped ''stop audio'' (fs_StopAudio E ch)"

definition controller_Record :: "env \<Rightarrow> string \<Rightarrow> string \<Rightarrow> string \<Rightarrow> (world, goerr + unit) state" where
  "controller_Record E ch path action = wrapped ''record call'' (fs_Record E ch path action)"

definition controller_SendDTMF :: "env \<Rightarrow> string \<Rightarrow> string \<Rightarrow> (world, goerr + unit) state" where
  "controller_SendDTMF E ch digits = wrapped ''send DTMF'' (fs_SendDTMF E ch digits)"

definition controller_SetCallID :: "env \<Rightarrow> string \<Rightarrow> uuid \<Rightarrow> (world, goerr + unit) state" where
  "controller_SetCallID E ch callID =
     (if callID = uuid_Nil then State_Monad.return (Inl (ErrorString ''call id is required''))
      else wrapped ''set call id'' (fs_SetVariable E ch ''leamout_call_id'' (uuid_string E callID)))"

context command_client
begin

lemma wrapped_moves: "moves m \<Longrightarrow> moves (wrapped n m)"
  unfolding wrapped_def by (intro moves_intros)

lemma controller_moves:
  assumes "rely E"
  shows "moves (controller_Originate E req)" "moves (controller_Answer E ch)" "moves (controller_Hangup E ch)"
    "moves (controller_SetMaxDuration E ch n)" "moves (controller_Transfer E ch d dp cx)"
    "moves (controller_Hold E ch)" "moves (controller_Resume E ch)" "moves (controller_PlayAudio E ch p)"
    "moves (controller_StopPlayback E ch)" "moves (controller_Record E ch p ac)"
    "moves (controller_SendDTMF E ch ds)" "moves (controller_SetCallID E ch i)"
  unfolding controller_Originate_def controller_Answer_def controller_Hangup_def controller_SetMaxDuration_def
    controller_Transfer_def controller_Hold_def controller_Resume_def controller_PlayAudio_def
    controller_StopPlayback_def controller_Record_def controller_SendDTMF_def controller_SetCallID_def
  by (intro moves_intros wrapped_moves client_moves variable_moves assms)+

end

section \<open>Lemmas\<close>

lemma freeSWITCHEgress_Inr:
  assumes "freeSWITCHEgress req = Inr (endpoint, uri)"
  shows "trim_space (q_host req) \<noteq> []" "q_port req \<noteq> 0" "validPSTNAddress (trim_space (q_destination req))"
    "trim_space (q_caller_id req) = [] \<or> validPSTNAddress (trim_space (q_caller_id req))"
    "\<not> contains_any (trim_space (q_host req)) ([CHR '' '', CHR 0x09, CHR 0x0D, CHR 0x0A] @ '',{}[]'')"
  using assms by (auto simp: freeSWITCHEgress_def Let_def split: if_splits)

lemma egressVariables_lookup:
  assumes "egressVariables E req uri = Inr vs"
  shows "lookup vs ''leamout_call_id'' = uuid_string E (q_call_id req)"
    "lookup vs ''sip_h_X-Leamout-Trunk-ID'' = uuid_string E (q_trunk_id req)"
    "lookup vs ''sip_h_X-Leamout-Route-URI'' = uri" "distinct (map fst vs)"
    "lookup vs ''sip_h_X-Leamout-Privacy'' = (if q_privacy req then ''id'' else [])"
  using assms by (auto simp: egressVariables_def Let_def lookup_def split: if_splits)

section \<open>Properties\<close>

text \<open>
  The variables of an originate command identify the call, the trunk and the carrier route, once
  each, and ask for privacy exactly when the request does; the addresses it dials are dialable and the
  route has a host without separators and a port.
\<close>

theorem originate_carries_identity:
  assumes "freeSWITCHEgress req = Inr (endpoint, uri)" and "egressVariables E req uri = Inr vs"
  shows "lookup vs ''leamout_call_id'' = uuid_string E (q_call_id req) \<and>
    lookup vs ''sip_h_X-Leamout-Trunk-ID'' = uuid_string E (q_trunk_id req) \<and>
    lookup vs ''sip_h_X-Leamout-Route-URI'' = uri \<and> distinct (map fst vs) \<and>
    lookup vs ''sip_h_X-Leamout-Privacy'' = (if q_privacy req then ''id'' else []) \<and>
    validPSTNAddress (trim_space (q_destination req)) \<and> trim_space (q_host req) \<noteq> [] \<and> q_port req \<noteq> 0"
  using freeSWITCHEgress_Inr [OF assms(1)] egressVariables_lookup [OF assms(2)] by simp

definition sample_originate :: originate_request where
  "sample_originate = \<lparr>q_call_id = 2, q_destination = ''+15550199'', q_caller_id = ''15550100'', q_trunk_id = 7,
     q_host = ''carrier'', q_port = 5060, q_transport = ''UDP'', q_privacy = True, q_dtmf_mode = ''info'',
     q_media_encryption = [], q_max_duration_seconds = 0\<rparr>"

lemma sample_egress:
  "freeSWITCHEgress sample_originate =
     Inr (''sofia/internal/+15550199@opensips:5060;transport=udp'', ''sip:carrier:5060;transport=udp'')"
  by code_simp

lemma sample_variables:
  "egressVariables sample_env sample_originate ''sip:carrier:5060;transport=udp'' =
     Inr [(''leamout_call_id'', ''xx''), (''sip_h_X-Leamout-Route-URI'', ''sip:carrier:5060;transport=udp''),
          (''sip_h_X-Leamout-Trunk-ID'', ''xxxxxxx''), (''sip_h_X-Leamout-Privacy'', ''id''), (''dtmf_type'', ''info'')]"
  by code_simp

theorem originate_carries_identity_witness:
  "validPSTNAddress (trim_space (q_destination sample_originate))"
  using originate_carries_identity [OF sample_egress sample_variables] by blast

text \<open>
  The dial-string check admits digits outside ASCII: a number written in Arabic-Indic digits is
  accepted as a PSTN address and reaches the SIP URI unchanged, which the carrier cannot dial.
\<close>

theorem non_ascii_digits_accepted:
  "validPSTNAddress [CHR 0xD9, CHR 0xA1, CHR 0xD9, CHR 0xA2, CHR 0xD9, CHR 0xA3, CHR 0xD9, CHR 0xA4] \<and>
   \<not> list_all is_digit [CHR 0xD9, CHR 0xA1, CHR 0xD9, CHR 0xA2, CHR 0xD9, CHR 0xA3, CHR 0xD9, CHR 0xA4]"
  by code_simp

end
