(* ===== verification/Metrics.thy ===== *)
theory Metrics
  imports FreeSwitch
begin

text \<open>
  The shared telecom metrics: the bounded hash scripts of \<^verbatim>\<open>integrations/redis/cache.go\<close> and
  \<^verbatim>\<open>platform/metrics/metrics.go\<close>. Shown: the number of series stays within its bound whatever callers
  report, a counter never decreases, and the name of a series parses back into its labels.
\<close>

section \<open>The scripts\<close>

definition increment_script :: "string \<Rightarrow> int \<Rightarrow> redis \<Rightarrow> redis" where
  "increment_script field maxSeries r =
     (let h = r_metric_counters r
      in case map_of h field of
           None \<Rightarrow> if int (length h) \<ge> maxSeries then r else r\<lparr>r_metric_counters := AList.update field 1 h\<rparr>
         | Some n \<Rightarrow> r\<lparr>r_metric_counters := AList.update field (n + 1) h\<rparr>)"

definition gauge_script :: "string \<Rightarrow> gauge_value \<Rightarrow> int \<Rightarrow> redis \<Rightarrow> redis" where
  "gauge_script field v maxSeries r =
     (let h = r_metric_gauges r
      in if map_of h field = None \<and> int (length h) \<ge> maxSeries then r
         else r\<lparr>r_metric_gauges := AList.update field v h\<rparr>)"

definition IncrementMetric :: "env \<Rightarrow> string \<Rightarrow> int \<Rightarrow> (world, goerr + unit) state" where
  "IncrementMetric E field maxSeries =
     (if field = [] \<or> maxSeries \<le> 0
      then State_Monad.return (Inl (ErrorString ''metric context, field, and series limit are required''))
      else do {
        r \<leftarrow> redis_call E (\<lambda>now c. (Inr (), increment_script field maxSeries c));
        case r of
          Inl e \<Rightarrow> State_Monad.return (Inl (Wrap ''increment shared telecom metric'' e))
        | Inr _ \<Rightarrow> State_Monad.return (Inr ())
      })"

definition SetMetricGauge :: "env \<Rightarrow> string \<Rightarrow> gauge_value \<Rightarrow> int \<Rightarrow> (world, goerr + unit) state" where
  "SetMetricGauge E field v maxSeries =
     (if field = [] \<or> maxSeries \<le> 0
      then State_Monad.return (Inl (ErrorString ''metric context, field, and series limit are required''))
      else do {
        r \<leftarrow> redis_call E (\<lambda>now c. (Inr (), gauge_script field v maxSeries c));
        case r of
          Inl e \<Rightarrow> State_Monad.return (Inl (Wrap ''set shared telecom metric gauge'' e))
        | Inr _ \<Rightarrow> State_Monad.return (Inr ())
      })"

section \<open>The registry\<close>

definition maxTelecomSeries :: int where
  "maxTelecomSeries = 10000"

definition metric_id :: "env \<Rightarrow> uuid \<Rightarrow> string" where
  "metric_id E i = (if i = uuid_Nil then [] else uuid_string E i)"

definition series :: "env \<Rightarrow> string \<Rightarrow> uuid \<Rightarrow> uuid \<Rightarrow> string \<Rightarrow> string" where
  "series E name trunk endpoint result = join ''|'' [name, metric_id E trunk, metric_id E endpoint, result]"

definition metrics_increment :: "env \<Rightarrow> string \<Rightarrow> (world, unit) state" where
  "metrics_increment E field = do { _ \<leftarrow> IncrementMetric E field maxTelecomSeries; State_Monad.return () }"

definition metrics_gauge :: "env \<Rightarrow> string \<Rightarrow> gauge_value \<Rightarrow> (world, unit) state" where
  "metrics_gauge E field v = do { _ \<leftarrow> SetMetricGauge E field v maxTelecomSeries; State_Monad.return () }"

definition metrics_Call :: "env \<Rightarrow> string \<Rightarrow> uuid \<Rightarrow> uuid \<Rightarrow> (world, unit) state" where
  "metrics_Call E state trunk endpoint = metrics_increment E (series E (''calls_'' @ state @ ''_total'') trunk endpoint [])"

definition LimitRejection :: "env \<Rightarrow> string \<Rightarrow> uuid \<Rightarrow> (world, unit) state" where
  "LimitRejection E reason trunk = metrics_increment E (series E ''limit_rejections_total'' trunk uuid_Nil reason)"

definition EndpointSelection :: "env \<Rightarrow> uuid \<Rightarrow> uuid \<Rightarrow> bool \<Rightarrow> (world, unit) state" where
  "EndpointSelection E trunk endpoint failover =
     metrics_increment E (series E ''endpoint_selections_total'' trunk endpoint (if failover then ''failover'' else ''primary''))"

definition RouteAttempt :: "env \<Rightarrow> uuid \<Rightarrow> uuid \<Rightarrow> string \<Rightarrow> string \<Rightarrow> int \<Rightarrow> (world, unit) state" where
  "RouteAttempt E trunk endpoint outcome failureClass attempt =
     metrics_increment E (series E ''route_attempts_total'' trunk endpoint (join '':'' [outcome, failureClass, itoa attempt]))"

definition Probe :: "env \<Rightarrow> uuid \<Rightarrow> uuid \<Rightarrow> bool \<Rightarrow> int \<Rightarrow> (world, unit) state" where
  "Probe E trunk endpoint healthy latencySeconds = do {
     metrics_increment E (series E ''endpoint_probes_total'' trunk endpoint (if healthy then ''success'' else ''failure''));
     metrics_gauge E (series E ''endpoint_probe_healthy'' trunk endpoint []) (Level (if healthy then 1 else 0));
     metrics_gauge E (series E ''endpoint_probe_latency_seconds'' trunk endpoint []) (Seconds latencySeconds)
   }"

fun split_on :: "char \<Rightarrow> string \<Rightarrow> string list" where
  "split_on c [] = [[]]"
| "split_on c (x # xs) =
     (if x = c then [] # split_on c xs
      else case split_on c xs of [] \<Rightarrow> [[x]] | l # ls \<Rightarrow> (x # l) # ls)"

definition ParseSeries :: "string \<Rightarrow> goerr + string \<times> string \<times> string \<times> string" where
  "ParseSeries field =
     (case split_on (CHR ''|'') field of
        [a, b, c, d] \<Rightarrow> if a = [] then Inl (ErrorString ''invalid telecom metric series'') else Inr (a, b, c, d)
      | _ \<Rightarrow> Inl (ErrorString ''invalid telecom metric series''))"

section \<open>Lemmas\<close>

context data_effects
begin

lemma metrics_moves:
  assumes "rely E"
  shows "moves (metrics_increment E f)" "moves (metrics_gauge E f v)"
  unfolding metrics_increment_def IncrementMetric_def metrics_gauge_def SetMetricGauge_def
  by (intro moves_intros redis_call_moves assms)+

lemma registry_moves:
  assumes "rely E"
  shows "moves (metrics_Call E s t e)" "moves (LimitRejection E rs t)" "moves (EndpointSelection E t e fo)"
    "moves (RouteAttempt E t e oc fc at)" "moves (Probe E t e h l)"
  unfolding metrics_Call_def LimitRejection_def EndpointSelection_def RouteAttempt_def Probe_def
  by (intro moves_intros metrics_moves assms)+

end

text \<open>The bound on the series, and counters that only grow.\<close>

definition metrics_ok :: "redis \<Rightarrow> bool" where
  "metrics_ok r \<longleftrightarrow> distinct (map fst (r_metric_counters r)) \<and> int (length (r_metric_counters r)) \<le> maxTelecomSeries \<and>
     distinct (map fst (r_metric_gauges r)) \<and> int (length (r_metric_gauges r)) \<le> maxTelecomSeries"

definition metrics_grow :: "redis \<Rightarrow> redis \<Rightarrow> bool" where
  "metrics_grow r r' \<longleftrightarrow> (metrics_ok r \<longrightarrow> metrics_ok r') \<and>
     (\<forall>f n. map_of (r_metric_counters r) f = Some n \<longrightarrow> (\<exists>m \<ge> n. map_of (r_metric_counters r') f = Some m))"

definition metrics_evolve :: "world \<Rightarrow> world \<Rightarrow> bool" where
  "metrics_evolve w w' \<longleftrightarrow> metrics_grow (cache w) (cache w')"

lemma metrics_grow_trans: "metrics_grow a b \<Longrightarrow> metrics_grow b c \<Longrightarrow> metrics_grow a c"
  unfolding metrics_grow_def by (meson order_trans)

interpretation metrics_history: world_history metrics_evolve
proof
  show "metrics_evolve s s" for s by (auto simp: metrics_evolve_def metrics_grow_def)
  show "metrics_evolve s u" if "metrics_evolve s t" "metrics_evolve t u" for s t u
    using that by (auto simp: metrics_evolve_def intro: metrics_grow_trans)
qed (simp add: metrics_evolve_def)

lemma length_update: "length (AList.update k v h) = (if map_of h k = None then Suc (length h) else length h)"
  by (induction h) auto

lemma increment_grows: "metrics_grow r (increment_script f maxTelecomSeries r)"
  by (auto simp: metrics_grow_def metrics_ok_def increment_script_def Let_def distinct_update length_update
      update_conv' split: option.split)

lemma gauge_grows: "metrics_grow r (gauge_script f v maxTelecomSeries r)"
  by (auto simp: metrics_grow_def metrics_ok_def gauge_script_def Let_def distinct_update length_update)

lemma metrics_evolve_moves:
  assumes "metrics_history.rely E"
  shows "metrics_history.moves (metrics_increment E f)" "metrics_history.moves (metrics_gauge E f v)"
  unfolding metrics_increment_def IncrementMetric_def metrics_gauge_def SetMetricGauge_def
  by (intro metrics_history.moves_intros metrics_history.redis_moves assms;
      simp add: metrics_evolve_def increment_grows gauge_grows)+

lemma split_on_nonempty: "split_on c s \<noteq> []"
  by (induction s) (auto split: list.split)

lemma split_on_piece: "c \<notin> set a \<Longrightarrow> split_on c (a @ c # b) = a # split_on c b"
  by (induction a) (auto split: list.split)

lemma split_on_last: "c \<notin> set a \<Longrightarrow> split_on c a = [a]"
  by (induction a) auto

section \<open>Properties\<close>

text \<open>
  The shared metrics stay bounded: whatever series the callers report, under any fault, the two hashes
  never hold more than ten thousand series, and a counter that exists never decreases.
\<close>

theorem metric_series_bounded:
  assumes "\<forall>t w. metrics_evolve w (interference E t w)"
  shows "metrics_evolve w (snd (run_state (Probe E trunk endpoint healthy latency) w)) \<and>
    metrics_evolve w (snd (run_state (RouteAttempt E trunk endpoint outcome cls attempt) w))"
  unfolding Probe_def RouteAttempt_def
  by (intro conjI metrics_history.movesD metrics_history.moves_intros metrics_evolve_moves assms)

theorem metric_series_bounded_witness:
  "metrics_evolve empty_world (snd (run_state (Probe sample_env 1 2 True 0) empty_world))"
  using metric_series_bounded [of sample_env empty_world] by (simp add: metrics_history.refl)

text \<open>
  The name of a series parses back into the name, trunk, endpoint and result it was built from, when
  none of them contains the separator.
\<close>

theorem series_round_trip:
  assumes "CHR ''|'' \<notin> set (name @ uuid_string E trunk @ uuid_string E endpoint @ result)" and "name \<noteq> []"
  shows "ParseSeries (series E name trunk endpoint result) =
    Inr (name, metric_id E trunk, metric_id E endpoint, result)"
proof -
  have "CHR ''|'' \<notin> set (metric_id E trunk)" "CHR ''|'' \<notin> set (metric_id E endpoint)"
    using assms(1) by (simp_all add: metric_id_def)
  with assms show ?thesis
    by (simp add: ParseSeries_def series_def split_on_piece split_on_last)
qed

theorem series_round_trip_witness:
  "ParseSeries (series sample_env ''probes'' 1 2 ''ok'') = Inr (''probes'', ''x'', ''xx'', ''ok'')"
proof -
  have "uuid_string sample_env 1 = ''x''" "uuid_string sample_env 2 = ''xx''" by code_simp+
  then show ?thesis using series_round_trip [of "''probes''" sample_env 1 2 "''ok''"] by (simp add: metric_id_def)
qed

end
