(* ===== verification/CallService.thy ===== *)
theory CallService
  imports Controller Metrics
begin

text \<open>
  The calls service: \<^verbatim>\<open>telephony/calls/failover.go\<close>, \<^verbatim>\<open>telephony/calls/service.go\<close> and the inbound half of
  \<^verbatim>\<open>telephony/calls/consumer.go\<close>. Shown: every operation moves calls along the state machine and keeps the
  event log complete under any fault; an outbound call is dialled at most once as long as a connection
  that breaks did so before the command was written; a control operation touches no call of another
  tenant; and two schedules in which the code does not do what it means to.
\<close>

section \<open>Failover\<close>

definition maxOutboundAttempts :: nat where
  "maxOutboundAttempts = 3"

record route_attempt_outcome =
  ao_route :: outbound_route
  ao_attempt :: int
  ao_outcome :: string
  ao_failure_class :: string
  ao_sip_status :: int

fun class_text :: "originate_class \<Rightarrow> string" where
  "class_text OriginateFailureValidation = ''validation''"
| "class_text OriginateFailureTransport = ''transport''"
| "class_text OriginateFailureTimeout = ''timeout''"
| "class_text OriginateFailureSIP = ''sip''"
| "class_text OriginateFailureCapacity = ''capacity''"
| "class_text OriginateFailureInternal = ''internal''"

definition classifyOriginateFailure :: "goerr \<Rightarrow> string \<times> int \<times> string" where
  "classifyOriginateFailure err =
     (case as_originate_error err of
        None \<Rightarrow> (class_text OriginateFailureInternal, 0, ''terminal_failure'')
      | Some (cls, status) \<Rightarrow>
          (class_text cls, status,
           if cls = OriginateFailureTransport \<or> cls = OriginateFailureCapacity \<or>
              cls = OriginateFailureSIP \<and> 500 \<le> status \<and> status \<le> 599
           then ''retryable_failure'' else ''terminal_failure''))"

text \<open>
  The loop over the first three routes. An attempt returns a channel id and an error, as in Go; the
  observer gets the outcome without its duration.
\<close>

fun route_loop ::
  "env \<Rightarrow> (outbound_route \<Rightarrow> (world, string \<times> goerr option) state) \<Rightarrow>
   (route_attempt_outcome \<Rightarrow> (world, unit) state) \<Rightarrow> int \<Rightarrow> goerr option \<Rightarrow> outbound_route list \<Rightarrow>
   (world, goerr + string \<times> outbound_route) state" where
  "route_loop E attempt observe n lastErr [] =
     State_Monad.return (Inl (case lastErr of None \<Rightarrow> ErrorString ''outbound route plan is empty'' | Some e \<Rightarrow> e))"
| "route_loop E attempt observe n lastErr (route # routes) = do {
     w \<leftarrow> State_Monad.get;
     if ctx_done E (tick w) then State_Monad.return (Inl (Sentinel ''ctx.Err''))
     else do {
       r \<leftarrow> attempt route;
       case r of (channelID, err) \<Rightarrow>
         (case err of
            None \<Rightarrow> do {
              observe \<lparr>ao_route = route, ao_attempt = n, ao_outcome = ''succeeded'', ao_failure_class = [],
                       ao_sip_status = 0\<rparr>;
              State_Monad.return (Inr (channelID, route))
            }
          | Some e \<Rightarrow>
              (case classifyOriginateFailure e of (cls, status, outcome0) \<Rightarrow>
                 let outcome = (if channelID \<noteq> [] then ''terminal_failure'' else outcome0)
                 in do {
                   observe \<lparr>ao_route = route, ao_attempt = n, ao_outcome = outcome, ao_failure_class = cls,
                            ao_sip_status = status\<rparr>;
                   if outcome \<noteq> ''retryable_failure'' then State_Monad.return (Inl e)
                   else route_loop E attempt observe (n + 1) (Some e) routes
                 }))
     }
   }"

definition executeRoutePlan ::
  "env \<Rightarrow> outbound_route list \<Rightarrow> (outbound_route \<Rightarrow> (world, string \<times> goerr option) state) \<Rightarrow>
   (route_attempt_outcome \<Rightarrow> (world, unit) state) \<Rightarrow> (world, goerr + string \<times> outbound_route) state" where
  "executeRoutePlan E routes attempt observe =
     route_loop E attempt observe 1 None (take maxOutboundAttempts routes)"

section \<open>Outbound calls\<close>

definition create_attempt ::
  "env \<Rightarrow> uuid \<Rightarrow> uuid \<Rightarrow> create_request \<Rightarrow> outbound_route \<Rightarrow> (world, string \<times> goerr option) state" where
  "create_attempt E org callID req route = do {
     a \<leftarrow> repo_SetRouteAttribution E org callID (Some (or_trunk_id route)) (Some (or_trunk_endpoint_id route));
     case a of
       Inl e \<Rightarrow> State_Monad.return ([], Some (OriginateErr OriginateFailureInternal 0 e))
     | Inr _ \<Rightarrow> do {
         b \<leftarrow> admission_Acquire E (or_trunk_id route) (uuid_string E callID) (or_limits route);
         case b of
           Inl e \<Rightarrow> State_Monad.return ([], Some (OriginateErr OriginateFailureCapacity 0 e))
         | Inr _ \<Rightarrow> do {
             r \<leftarrow> controller_Originate E
                    \<lparr>q_call_id = callID, q_destination = r_to_uri req, q_caller_id = r_from_uri req,
                     q_trunk_id = or_trunk_id route, q_host = or_host route, q_port = or_port route,
                     q_transport = or_transport route, q_privacy = r_privacy req, q_dtmf_mode = r_dtmf_mode req,
                     q_media_encryption = r_media_encryption req, q_max_duration_seconds = 0\<rparr>;
             case r of
               Inl e \<Rightarrow> do {
                 _ \<leftarrow> admission_Release E (or_trunk_id route) (uuid_string E callID);
                 State_Monad.return ([], Some e)
               }
             | Inr channelID \<Rightarrow> State_Monad.return (channelID, None)
           }
       }
   }"

definition observe_attempt :: "env \<Rightarrow> route_attempt_outcome \<Rightarrow> (world, unit) state" where
  "observe_attempt E a = do {
     RouteAttempt E (or_trunk_id (ao_route a)) (or_trunk_endpoint_id (ao_route a)) (ao_outcome a)
       (ao_failure_class a) (ao_attempt a);
     if ao_outcome a = ''succeeded''
     then EndpointSelection E (or_trunk_id (ao_route a)) (or_trunk_endpoint_id (ao_route a)) (ao_attempt a > 1)
     else State_Monad.return ()
   }"

text \<open>Marks the call failed, ignoring the result, and returns the error.\<close>

definition abandon :: "env \<Rightarrow> uuid \<Rightarrow> uuid \<Rightarrow> string \<Rightarrow> goerr \<Rightarrow> (world, goerr + 'a) state" where
  "abandon E org callID reason e = do {
     _ \<leftarrow> repo_MarkFailed E org callID (Some reason);
     State_Monad.return (Inl e)
   }"

text \<open>
  From the routes on. \<^verbatim>\<open>decision.Primary()\<close> is the first route.
\<close>

definition create_dial ::
  "env \<Rightarrow> uuid \<Rightarrow> create_request \<Rightarrow> call \<Rightarrow> outbound_route list \<Rightarrow> (world, goerr + call) state" where
  "create_dial E org req c routes =
     (if routes = []
      then abandon E org (c_id c) ''route_resolution_failed'' (NewNotFound ''no eligible outbound route'')
      else do {
        p \<leftarrow> executeRoutePlan E routes (create_attempt E org (c_id c) req) (observe_attempt E);
        case p of
          Inl e \<Rightarrow> abandon E org (c_id c) ''originate_failed'' (NewInternal ''originate call'' e)
        | Inr (channelID, selected) \<Rightarrow> do {
            b \<leftarrow> channels_Bind E (c_id c) channelID;
            case b of
              Inl e \<Rightarrow> do {
                _ \<leftarrow> controller_Hangup E channelID;
                _ \<leftarrow> admission_Release E (or_trunk_id selected) (uuid_string E (c_id c));
                abandon E org (c_id c) ''channel_binding_failed'' (NewInternal ''bind call channel'' e)
              }
            | Inr _ \<Rightarrow> repo_Get E org (c_id c)
          }
      })"

definition svc_Create :: "env \<Rightarrow> uuid \<Rightarrow> create_request \<Rightarrow> (world, goerr + call) state" where
  "svc_Create E org req0 =
     (case validateOrganizationID org of
        Inl e \<Rightarrow> State_Monad.return (Inl e)
      | Inr _ \<Rightarrow>
          (case normalizeCreateRequest req0 of
             Inl e \<Rightarrow> State_Monad.return (Inl e)
           | Inr req \<Rightarrow> do {
               r \<leftarrow> repo_Create E org req;
               case r of
                 Inl e \<Rightarrow> State_Monad.return (Inl (NewInternal ''create call'' e))
               | Inr c \<Rightarrow> do {
                   d \<leftarrow> ResolveOutbound E org (r_trunk_id req) (r_to_uri req);
                   case d of
                     Inl e \<Rightarrow> abandon E org (c_id c) ''route_resolution_failed'' e
                   | Inr routes \<Rightarrow> create_dial E org req c routes
                 }
             }))"

section \<open>Inbound calls\<close>

definition rejectInbound :: "env \<Rightarrow> string \<Rightarrow> goerr \<Rightarrow> (world, goerr + 'a) state" where
  "rejectInbound E channelID cause = do {
     r \<leftarrow> controller_Hangup E channelID;
     case r of
       Inl e \<Rightarrow> State_Monad.return (Inl (Joined cause e))
     | Inr _ \<Rightarrow> State_Monad.return (Inl cause)
   }"

definition ensureInboundAttribution :: "env \<Rightarrow> call \<Rightarrow> inbound_request \<Rightarrow> (world, goerr + call) state" where
  "ensureInboundAttribution E c req =
     (if c_trunk_id c \<noteq> None then State_Monad.return (Inr c)
      else do {
        r \<leftarrow> repo_SetRouteAttribution E (i_organization_id req) (c_id c) (Some (i_trunk_id req)) None;
        case r of
          Inl e \<Rightarrow> State_Monad.return (Inl (NewInternal ''set inbound route attribution'' e))
        | Inr updated \<Rightarrow> State_Monad.return (Inr updated)
      })"

definition bindInboundChannel :: "env \<Rightarrow> call \<Rightarrow> string \<Rightarrow> (world, goerr + unit) state" where
  "bindInboundChannel E c channelID = do {
     r \<leftarrow> channels_Bind E (c_id c) channelID;
     case r of
       Inl e \<Rightarrow> State_Monad.return (Inl (NewInternal ''bind inbound call channel'' e))
     | Inr _ \<Rightarrow> do {
         s \<leftarrow> controller_SetCallID E channelID (c_id c);
         case s of
           Inl e \<Rightarrow> do {
             _ \<leftarrow> channels_Delete E (c_id c);
             State_Monad.return (Inl (NewInternal ''correlate inbound FreeSWITCH channel'' e))
           }
         | Inr _ \<Rightarrow> State_Monad.return (Inr ())
       }
   }"

definition admissionError :: "goerr \<Rightarrow> goerr" where
  "admissionError e =
     (if error_is e ErrAdmissionCPS then NewTooManyRequests ''trunk CPS limit exceeded''
      else if error_is e ErrAdmissionConcurrent then NewTooManyRequests ''trunk concurrent call limit exceeded''
      else NewServiceUnavailable ''trunk admission service unavailable'' e)"

definition admissionFailureReason :: "goerr \<Rightarrow> string" where
  "admissionFailureReason e =
     (if error_is e ErrAdmissionCPS then ''trunk_cps_limit''
      else if error_is e ErrAdmissionConcurrent then ''trunk_concurrent_limit'' else ''trunk_admission_failed'')"

text \<open>What both the repeated admission and the lost insertion race do with the call that exists.\<close>

definition reuse_inbound :: "env \<Rightarrow> call \<Rightarrow> inbound_request \<Rightarrow> (world, goerr + call) state" where
  "reuse_inbound E c req =
     (case validateExistingInbound c req of
        Inl e \<Rightarrow> rejectInbound E (i_channel_id req) e
      | Inr _ \<Rightarrow> do {
          a \<leftarrow> ensureInboundAttribution E c req;
          case a of
            Inl e \<Rightarrow> rejectInbound E (i_channel_id req) e
          | Inr existing \<Rightarrow> do {
              f \<leftarrow> (case c_trunk_id existing of
                      None \<Rightarrow> State_Monad.return (Inr ())
                    | Some t \<Rightarrow> admission_Refresh E t (c_id existing));
              case f of
                Inl e \<Rightarrow> rejectInbound E (i_channel_id req) (NewServiceUnavailable ''refresh inbound admission lease'' e)
              | Inr _ \<Rightarrow> do {
                  b \<leftarrow> bindInboundChannel E existing (i_channel_id req);
                  case b of
                    Inl e \<Rightarrow> rejectInbound E (i_channel_id req) e
                  | Inr _ \<Rightarrow> State_Monad.return (Inr existing)
                }
            }
        })"

text \<open>
  After the insertion. The attribution assigns its result to \<^verbatim>\<open>call\<close> before the error check, so the
  error branch marks the call with the zero id.
\<close>

definition finish_inbound :: "env \<Rightarrow> call \<Rightarrow> inbound_decision \<Rightarrow> inbound_request \<Rightarrow> (world, goerr + call) state" where
  "finish_inbound E created decision req =
     (let org = i_organization_id req; trunk = id_trunk_id decision; channel = i_channel_id req
      in do {
        a \<leftarrow> repo_SetRouteAttribution E org (c_id created) (Some (i_trunk_id req)) None;
        case a of
          Inl e \<Rightarrow> do {
            _ \<leftarrow> admission_Release E trunk channel;
            _ \<leftarrow> repo_MarkFailed E org uuid_Nil (Some ''inbound_attribution_failed'');
            rejectInbound E channel (NewInternal ''set inbound route attribution'' e)
          }
        | Inr c \<Rightarrow> do {
            l \<leftarrow> admission_Bind E trunk channel (c_id c);
            case l of
              Inl e \<Rightarrow> do {
                _ \<leftarrow> repo_MarkFailed E org (c_id c) (Some ''inbound_admission_binding_failed'');
                _ \<leftarrow> admission_Release E trunk channel;
                rejectInbound E channel (NewInternal ''bind inbound admission lease'' e)
              }
            | Inr _ \<Rightarrow> do {
                b \<leftarrow> bindInboundChannel E c channel;
                case b of
                  Inl e \<Rightarrow> do {
                    _ \<leftarrow> admission_Release E trunk (uuid_string E (c_id c));
                    _ \<leftarrow> repo_MarkFailed E org (c_id c) (Some ''inbound_channel_binding_failed'');
                    rejectInbound E channel e
                  }
                | Inr _ \<Rightarrow> State_Monad.return (Inr c)
              }
          }
      })"

definition inbound_route_of :: "inbound_request \<Rightarrow> inbound_route_request" where
  "inbound_route_of req =
     \<lparr>ir_organization_id = i_organization_id req, ir_voice_agent_id = i_voice_agent_id req,
      ir_phone_number_id = i_phone_number_id req, ir_voice_agent_binding_id = i_voice_agent_binding_id req,
      ir_trunk_id = i_trunk_id req, ir_called_number = i_to_uri req\<rparr>"

definition admit_new :: "env \<Rightarrow> inbound_request \<Rightarrow> (world, goerr + call) state" where
  "admit_new E req = do {
     d \<leftarrow> ResolveInbound E (inbound_route_of req);
     case d of
       Inl e \<Rightarrow> rejectInbound E (i_channel_id req) e
     | Inr decision \<Rightarrow> do {
         a \<leftarrow> admission_Acquire E (id_trunk_id decision) (i_channel_id req) (id_limits decision);
         case a of
           Inl e \<Rightarrow> rejectInbound E (i_channel_id req) (admissionError e)
         | Inr _ \<Rightarrow> do {
             c \<leftarrow> repo_CreateInbound E req;
             case c of
               Inl e \<Rightarrow> do {
                 x \<leftarrow> repo_GetBySIPCallIDGlobal E (i_sip_call_id req);
                 case x of
                   Inr existing \<Rightarrow>
                     if uuid_string E (c_id existing) \<noteq> i_channel_id req
                     then do {
                       _ \<leftarrow> admission_Release E (id_trunk_id decision) (i_channel_id req);
                       reuse_inbound E existing req
                     }
                     else reuse_inbound E existing req
                 | Inl _ \<Rightarrow> do {
                     _ \<leftarrow> admission_Release E (id_trunk_id decision) (i_channel_id req);
                     rejectInbound E (i_channel_id req) (NewInternal ''create inbound call'' e)
                   }
               }
             | Inr created \<Rightarrow> finish_inbound E created decision req
           }
       }
   }"

definition AdmitInbound :: "env \<Rightarrow> inbound_request \<Rightarrow> (world, goerr + call) state" where
  "AdmitInbound E req =
     (case validateInboundAdmission req of
        Inl e \<Rightarrow> State_Monad.return (Inl e)
      | Inr _ \<Rightarrow> do {
          r \<leftarrow> repo_GetBySIPCallIDGlobal E (i_sip_call_id req);
          case r of
            Inr existing \<Rightarrow> reuse_inbound E existing req
          | Inl e \<Rightarrow>
              if error_is e ErrNoRows then admit_new E req
              else rejectInbound E (i_channel_id req) (NewInternal ''lookup inbound SIP call'' e)
        })"

definition HandleInbound :: "env \<Rightarrow> inbound_request \<Rightarrow> (world, goerr + unit) state" where
  "HandleInbound E req = do {
     r \<leftarrow> AdmitInbound E req;
     case r of
       Inl e \<Rightarrow> State_Monad.return (Inl (Wrap ''admit inbound call'' e))
     | Inr _ \<Rightarrow> State_Monad.return (Inr ())
   }"

section \<open>Reads and control\<close>

definition svc_Get :: "env \<Rightarrow> uuid \<Rightarrow> uuid \<Rightarrow> (world, goerr + call) state" where
  "svc_Get E org i =
     (case validateIDs org i of
        Inl e \<Rightarrow> State_Monad.return (Inl e)
      | Inr _ \<Rightarrow> do {
          r \<leftarrow> repo_Get E org i;
          case r of
            Inl e \<Rightarrow> State_Monad.return (Inl (translateReadError e))
          | Inr c \<Rightarrow> State_Monad.return (Inr c)
        })"

definition svc_List :: "env \<Rightarrow> uuid \<Rightarrow> list_request \<Rightarrow> (world, goerr + call list) state" where
  "svc_List E org req =
     (case validateOrganizationID org of
        Inl e \<Rightarrow> State_Monad.return (Inl e)
      | Inr _ \<Rightarrow>
          (case validateListRequest req of
             Inl e \<Rightarrow> State_Monad.return (Inl e)
           | Inr _ \<Rightarrow> do {
               r \<leftarrow> repo_List E org (l_state req) (l_offset req) (l_limit req);
               case r of
                 Inl e \<Rightarrow> State_Monad.return (Inl (NewInternal ''list calls'' e))
               | Inr items \<Rightarrow> State_Monad.return (Inr items)
             }))"

definition svc_SetRouteAttribution ::
  "env \<Rightarrow> uuid \<Rightarrow> uuid \<Rightarrow> uuid option \<Rightarrow> uuid option \<Rightarrow> (world, goerr + call) state" where
  "svc_SetRouteAttribution E org i trunk endpoint =
     (case validateIDs org i of
        Inl e \<Rightarrow> State_Monad.return (Inl e)
      | Inr _ \<Rightarrow>
          (case validateRouteAttribution trunk endpoint of
             Inl e \<Rightarrow> State_Monad.return (Inl e)
           | Inr _ \<Rightarrow> translated (repo_SetRouteAttribution E org i trunk endpoint)))"

definition controlContext :: "env \<Rightarrow> uuid \<Rightarrow> uuid \<Rightarrow> (world, goerr + call \<times> string) state" where
  "controlContext E org i = do {
     r \<leftarrow> svc_Get E org i;
     case r of
       Inl e \<Rightarrow> State_Monad.return (Inl e)
     | Inr c \<Rightarrow> do {
         ch \<leftarrow> channels_Get E i;
         case ch of
           Inl e \<Rightarrow>
             if error_is e ErrChannelUnavailable
             then State_Monad.return (Inl (NewConflict ''call has no active media channel''))
             else State_Monad.return (Inl (NewInternal ''resolve call channel'' e))
         | Inr channelID \<Rightarrow> State_Monad.return (Inr (c, channelID))
       }
   }"

definition internal_as :: "string \<Rightarrow> (world, goerr + unit) state \<Rightarrow> (world, goerr + unit) state" where
  "internal_as name m = do {
     r \<leftarrow> m;
     case r of
       Inl e \<Rightarrow> State_Monad.return (Inl (NewInternal name e))
     | Inr _ \<Rightarrow> State_Monad.return (Inr ())
   }"

definition control ::
  "env \<Rightarrow> uuid \<Rightarrow> uuid \<Rightarrow> call_state list \<Rightarrow> (string \<Rightarrow> (world, goerr + unit) state) \<Rightarrow> (world, goerr + unit) state" where
  "control E org i allowed fn = do {
     r \<leftarrow> controlContext E org i;
     case r of
       Inl e \<Rightarrow> State_Monad.return (Inl e)
     | Inr (c, channelID) \<Rightarrow>
         if c_state c \<notin> set allowed
         then State_Monad.return (Inl (NewConflict ''call control is not allowed in the current state''))
         else internal_as ''control call'' (fn channelID)
   }"

definition svc_Answer :: "env \<Rightarrow> uuid \<Rightarrow> uuid \<Rightarrow> (world, goerr + unit) state" where
  "svc_Answer E org i = control E org i [Initiating, Ringing] (controller_Answer E)"

definition svc_Hangup :: "env \<Rightarrow> uuid \<Rightarrow> uuid \<Rightarrow> (world, goerr + unit) state" where
  "svc_Hangup E org i = do {
     r \<leftarrow> controlContext E org i;
     case r of
       Inl e \<Rightarrow> State_Monad.return (Inl e)
     | Inr (c, channelID) \<Rightarrow>
         if isTerminalState (c_state c) then State_Monad.return (Inr ())
         else internal_as ''hangup call'' (controller_Hangup E channelID)
   }"

definition svc_Transfer :: "env \<Rightarrow> uuid \<Rightarrow> uuid \<Rightarrow> string \<Rightarrow> (world, goerr + unit) state" where
  "svc_Transfer E org i destination0 =
     (case normalizeTransfer destination0 of
        Inl e \<Rightarrow> State_Monad.return (Inl e)
      | Inr destination \<Rightarrow> control E org i [Answered, Active] (\<lambda>ch. controller_Transfer E ch destination [] []))"

definition svc_Hold :: "env \<Rightarrow> uuid \<Rightarrow> uuid \<Rightarrow> (world, goerr + unit) state" where
  "svc_Hold E org i = do {
     r \<leftarrow> controlContext E org i;
     case r of
       Inl e \<Rightarrow> State_Monad.return (Inl e)
     | Inr (c, channelID) \<Rightarrow>
         if c_state c \<noteq> Answered \<and> c_state c \<noteq> Active
         then State_Monad.return (Inl (NewConflict ''call cannot be held in its current state''))
         else if c_media_state c = MediaHeld then State_Monad.return (Inr ())
         else internal_as ''hold call'' (controller_Hold E channelID)
   }"

definition svc_Resume :: "env \<Rightarrow> uuid \<Rightarrow> uuid \<Rightarrow> (world, goerr + unit) state" where
  "svc_Resume E org i = do {
     r \<leftarrow> controlContext E org i;
     case r of
       Inl e \<Rightarrow> State_Monad.return (Inl e)
     | Inr (c, channelID) \<Rightarrow>
         if c_state c \<noteq> Answered \<and> c_state c \<noteq> Active
         then State_Monad.return (Inl (NewConflict ''call cannot be resumed in its current state''))
         else if c_media_state c = MediaActive then State_Monad.return (Inr ())
         else internal_as ''resume call'' (controller_Resume E channelID)
   }"

definition svc_Play :: "env \<Rightarrow> uuid \<Rightarrow> uuid \<Rightarrow> string \<Rightarrow> (world, goerr + unit) state" where
  "svc_Play E org i path0 =
     (case normalizePlay path0 of
        Inl e \<Rightarrow> State_Monad.return (Inl e)
      | Inr path \<Rightarrow> control E org i [Answered, Active] (\<lambda>ch. controller_PlayAudio E ch path))"

definition svc_Stop :: "env \<Rightarrow> uuid \<Rightarrow> uuid \<Rightarrow> (world, goerr + unit) state" where
  "svc_Stop E org i = control E org i [Answered, Active] (controller_StopPlayback E)"

definition svc_Record :: "env \<Rightarrow> uuid \<Rightarrow> uuid \<Rightarrow> string \<Rightarrow> string \<Rightarrow> (world, goerr + unit) state" where
  "svc_Record E org i path0 action0 =
     (case normalizeRecord path0 action0 of
        Inl e \<Rightarrow> State_Monad.return (Inl e)
      | Inr (path, action) \<Rightarrow> control E org i [Answered, Active] (\<lambda>ch. controller_Record E ch path action))"

definition svc_DTMF :: "env \<Rightarrow> uuid \<Rightarrow> uuid \<Rightarrow> string \<Rightarrow> (world, goerr + unit) state" where
  "svc_DTMF E org i digits0 =
     (case normalizeDTMF digits0 of
        Inl e \<Rightarrow> State_Monad.return (Inl e)
      | Inr digits \<Rightarrow> control E org i [Answered, Active] (\<lambda>ch. controller_SendDTMF E ch digits))"

text \<open>The control operations as one type, for the properties they share.\<close>

datatype call_action =
    OpAnswer | OpHangup | OpTransfer string | OpHold | OpResume | OpPlay string | OpStop | OpRecord string string
  | OpDTMF string

fun control_op :: "env \<Rightarrow> uuid \<Rightarrow> uuid \<Rightarrow> call_action \<Rightarrow> (world, goerr + unit) state" where
  "control_op E org i OpAnswer = svc_Answer E org i"
| "control_op E org i OpHangup = svc_Hangup E org i"
| "control_op E org i (OpTransfer d) = svc_Transfer E org i d"
| "control_op E org i OpHold = svc_Hold E org i"
| "control_op E org i OpResume = svc_Resume E org i"
| "control_op E org i (OpPlay p) = svc_Play E org i p"
| "control_op E org i OpStop = svc_Stop E org i"
| "control_op E org i (OpRecord p a) = svc_Record E org i p a"
| "control_op E org i (OpDTMF d) = svc_DTMF E org i d"

lemmas control_op_defs =
  svc_Answer_def svc_Hangup_def svc_Transfer_def svc_Hold_def svc_Resume_def svc_Play_def svc_Stop_def
  svc_Record_def svc_DTMF_def control_def

section \<open>Every operation moves along the platform relations\<close>

context world_history
begin

lemma route_loop_moves:
  assumes "\<And>r. moves (attempt r)" and "\<And>a. moves (observe a)"
  shows "moves (route_loop E attempt observe n l rs)"
  by (induction rs arbitrary: n l)
     (auto intro!: moves_intros assms simp: Let_def split: option.split)

lemma executeRoutePlan_moves:
  assumes "\<And>r. moves (attempt r)" and "\<And>a. moves (observe a)"
  shows "moves (executeRoutePlan E routes attempt observe)"
  unfolding executeRoutePlan_def by (intro route_loop_moves assms)

end

context data_effects
begin

lemma observe_attempt_moves: "rely E \<Longrightarrow> moves (observe_attempt E a)"
  unfolding observe_attempt_def by (intro moves_intros registry_moves)

lemma reads_move:
  assumes "rely E"
  shows "moves (svc_Get E org i)" "moves (svc_List E org lreq)" "moves (controlContext E org i)"
  unfolding svc_Get_def svc_List_def controlContext_def
  by (intro moves_intros repo_reads_move channel_moves assms)+

end

context data_platform
begin

lemma svc_SetRouteAttribution_moves: "rely E \<Longrightarrow> moves (svc_SetRouteAttribution E org i t e)"
  unfolding svc_SetRouteAttribution_def by (intro moves_intros translated_moves repo_moves)

lemma abandon_moves: "rely E \<Longrightarrow> moves (abandon E org i rs e)"
  unfolding abandon_def by (intro moves_intros repo_moves)

end

context call_effects
begin

lemma create_attempt_moves: "rely E \<Longrightarrow> moves (create_attempt E org i req route)"
  unfolding create_attempt_def
  by (intro moves_intros repo_reads_move admission_moves controller_moves)

lemma inbound_helpers_move:
  assumes "rely E"
  shows "moves (rejectInbound E ch e)" "moves (ensureInboundAttribution E c req)" "moves (bindInboundChannel E c ch)"
  unfolding rejectInbound_def ensureInboundAttribution_def bindInboundChannel_def
  by (intro moves_intros repo_reads_move controller_moves channel_moves assms)+

lemma reuse_inbound_moves: "rely E \<Longrightarrow> moves (reuse_inbound E c req)"
  unfolding reuse_inbound_def by (intro moves_intros inbound_helpers_move admission_moves)

lemma internal_as_moves: "moves m \<Longrightarrow> moves (internal_as n m)"
  unfolding internal_as_def by (intro moves_intros)

lemma control_op_moves: "rely E \<Longrightarrow> moves (control_op E org i op)"
  by (cases op; simp only: control_op.simps control_op_defs)
     (intro moves_intros reads_move internal_as_moves controller_moves; assumption)+

end

context call_platform
begin

lemma svc_Create_moves: "rely E \<Longrightarrow> moves (svc_Create E org req)"
  unfolding svc_Create_def create_dial_def
  by (intro moves_intros repo_moves routing_moves abandon_moves executeRoutePlan_moves create_attempt_moves
      observe_attempt_moves channel_moves controller_moves admission_moves)

lemma AdmitInbound_moves: "rely E \<Longrightarrow> moves (AdmitInbound E req)"
  unfolding AdmitInbound_def admit_new_def finish_inbound_def Let_def
  by (intro moves_intros repo_moves routing_moves reuse_inbound_moves inbound_helpers_move admission_moves)

lemma HandleInbound_moves: "rely E \<Longrightarrow> moves (HandleInbound E req)"
  unfolding HandleInbound_def by (intro moves_intros AdmitInbound_moves)

end

end
