(* ===== verification/CallGuarantees.thy ===== *)
theory CallGuarantees
  imports CallService
begin

text \<open>
  What the calls service guarantees: the state machine and the event log under any fault, one dialled
  call per outbound request, tenant isolation of control operations, attribution of inbound calls, and
  the two schedules in which the service falls short of what it means to do.
\<close>

section \<open>Results of handlers\<close>

text \<open>A postcondition on result and world that holds from every start.\<close>

definition ensures :: "(world, 'a) state \<Rightarrow> ('a \<Rightarrow> world \<Rightarrow> bool) \<Rightarrow> bool" where
  "ensures m Q \<longleftrightarrow> (\<forall>w. wp m Q w)"

lemma ensures_return: "(\<And>w. Q x w) \<Longrightarrow> ensures (State_Monad.return x) Q"
  by (simp add: ensures_def wp_return)

lemma ensures_bind:
  "ensures m P \<Longrightarrow> (\<And>a. (\<exists>w. P a w) \<Longrightarrow> ensures (f a) Q) \<Longrightarrow> ensures (State_Monad.bind m f) Q"
  unfolding ensures_def wp_bind by (blast intro: wp_mono)

lemma ensures_then: "(\<And>a. ensures (f a) Q) \<Longrightarrow> ensures (State_Monad.bind m f) Q"
  by (fastforce simp: ensures_def wp_def split: prod.splits)

lemma ensures_cases:
  "(\<And>e. x = Inl e \<Longrightarrow> ensures (g e) Q) \<Longrightarrow> (\<And>y. x = Inr y \<Longrightarrow> ensures (h y) Q) \<Longrightarrow>
   ensures (case x of Inl e \<Rightarrow> g e | Inr y \<Rightarrow> h y) Q"
  "(b \<Longrightarrow> ensures m Q) \<Longrightarrow> (\<not> b \<Longrightarrow> ensures n Q) \<Longrightarrow> ensures (if b then m else n) Q"
  "(x' = None \<Longrightarrow> ensures m Q) \<Longrightarrow> (\<And>z. x' = Some z \<Longrightarrow> ensures (k z) Q) \<Longrightarrow>
   ensures (case x' of None \<Rightarrow> m | Some z \<Rightarrow> k z) Q"
  by (simp_all split: sum.split option.split)

lemma ensuresD: "ensures m Q \<Longrightarrow> run_state m w = (r, w') \<Longrightarrow> Q r w'"
  by (auto simp: ensures_def wp_def split: prod.splits)

section \<open>Inbound attribution\<close>

definition attributed :: "inbound_request \<Rightarrow> call \<Rightarrow> bool" where
  "attributed req c \<longleftrightarrow> c_organization_id c = i_organization_id req \<and> c_trunk_id c = Some (i_trunk_id req)"

lemma SetCallRouteAttribution_row:
  assumes "SetCallRouteAttribution trunk endpoint org i now d = Inr (c, d')"
  shows "c_organization_id c = org" "c_id c = i" "c_trunk_id c = trunk" "c_trunk_endpoint_id c = endpoint"
proof -
  from assms obtain d1 where "update_call (scoped org i) (\<lambda>c. c\<lparr>c_trunk_id := trunk, c_trunk_endpoint_id := endpoint\<rparr>) now d = Inr (c, d1)"
    by (auto simp: SetCallRouteAttribution_def split: sum.splits if_splits prod.splits)
  then show "c_organization_id c = org" "c_id c = i" "c_trunk_id c = trunk" "c_trunk_endpoint_id c = endpoint"
    by (auto simp: scoped_def elim!: update_call_row)
qed

lemma attribution_ensures:
  "ensures (repo_SetRouteAttribution E org i trunk endpoint) (\<lambda>r _. \<forall>c. r = Inr c \<longrightarrow>
     c_organization_id c = org \<and> c_id c = i \<and> c_trunk_id c = trunk)"
  by (auto simp: ensures_def wp_def repo_SetRouteAttribution_def update_exec_def exec_def external_def Let_def
      split: fault.splits sum.splits prod.splits dest: SetCallRouteAttribution_row)

definition attributed_result :: "inbound_request \<Rightarrow> goerr + call \<Rightarrow> world \<Rightarrow> bool" where
  "attributed_result req r w \<longleftrightarrow> (\<forall>c. r = Inr c \<longrightarrow> attributed req c)"

lemma reject_attributed: "ensures (rejectInbound E ch e) (attributed_result req)"
  unfolding rejectInbound_def
  by (intro ensures_then ensures_cases ensures_return) (simp_all add: attributed_result_def)

lemma validated_attribution:
  assumes "validateExistingInbound c req = Inr ()"
  shows "ensures (ensureInboundAttribution E c req) (attributed_result req)"
proof (cases "c_trunk_id c")
  case None
  then have "c_organization_id c = i_organization_id req" "\<not> c_trunk_id c \<noteq> None"
    using assms by (auto simp: validateExistingInbound_def split: if_splits)
  then show ?thesis
    unfolding ensureInboundAttribution_def if_not_P [OF \<open>\<not> c_trunk_id c \<noteq> None\<close>]
    by (intro ensures_bind [OF attribution_ensures] ensures_cases ensures_return)
       (simp_all add: attributed_result_def attributed_def)
next
  case (Some t)
  with assms have "attributed req c"
    by (auto simp: validateExistingInbound_def attributed_def split: if_splits)
  with Some show ?thesis
    by (simp add: ensureInboundAttribution_def attributed_result_def ensures_return)
qed

lemma reuse_attributed: "ensures (reuse_inbound E c req) (attributed_result req)"
  unfolding reuse_inbound_def
  by (intro ensures_cases reject_attributed ensures_bind [OF validated_attribution] ensures_then ensures_return)
     (simp_all add: attributed_result_def)

lemma finish_attributed: "ensures (finish_inbound E c d req) (attributed_result req)"
  unfolding finish_inbound_def Let_def
  by (intro ensures_bind [OF attribution_ensures] ensures_cases ensures_then reject_attributed ensures_return)
     (simp_all add: attributed_result_def attributed_def)

lemma AdmitInbound_attributed: "ensures (AdmitInbound E req) (attributed_result req)"
  unfolding AdmitInbound_def admit_new_def
  by (intro ensures_cases ensures_then reject_attributed reuse_attributed finish_attributed ensures_return)
     (simp add: attributed_result_def)

section \<open>Rejected calls are hung up\<close>

lemma strip_prefix_of_parts: "strip_prefix_of ps s = Some r \<Longrightarrow> \<exists>p \<in> set ps. s = p @ r"
  by (induction ps) (auto split: if_splits, metis append_take_drop_id)

lemma trim_with_keeps:
  assumes "\<forall>p \<in> set ps. c \<notin> set p" and "c \<in> set s"
  shows "c \<in> set (trim_with ps s)"
  using assms
proof (induction ps s rule: trim_with.induct)
  case (1 ps s)
  show ?case
  proof (cases "strip_prefix_of ps s")
    case (Some r)
    then obtain p where "p \<in> set ps" "s = p @ r" using strip_prefix_of_parts by blast
    with "1.prems" have "c \<in> set r" by auto
    with 1 Some show ?thesis by (subst trim_with.simps) simp
  qed (use 1 in \<open>simp add: trim_with.simps [of ps s]\<close>)
qed

lemma strip_prefix_of_head: "list_all (\<lambda>p. p \<noteq> [] \<and> hd p \<noteq> c) ps \<Longrightarrow> strip_prefix_of ps (c # s) = None"
proof (induction ps)
  case (Cons p ps)
  then show ?case by (cases p) auto
qed simp

definition plain_letter :: "char \<Rightarrow> bool" where
  "plain_letter c \<longleftrightarrow> list_all (\<lambda>p. p \<noteq> [] \<and> hd p \<noteq> c) go_spaces \<and> list_all (\<lambda>p. c \<notin> set p) (map rev go_spaces)"

lemma plain_letters: "plain_letter (CHR ''a'')" "plain_letter (CHR ''b'')" "plain_letter (CHR ''u'')"
  by code_simp+

lemma trim_keeps_head:
  assumes "plain_letter c"
  shows "\<exists>s'. trim_space (c # s) = c # s'"
proof -
  have c: "\<forall>p \<in> set (map rev go_spaces). c \<notin> set p" "strip_prefix_of go_spaces (c # s) = None"
    using assms by (simp_all only: plain_letter_def list_all_iff [symmetric] strip_prefix_of_head)
  then have l: "trim_left (c # s) = c # s" by (simp add: trim_left_def trim_with_id)
  have "c \<in> set (trim_right (c # s))"
    using trim_with_keeps [OF c(1), of "rev (c # s)"] by (simp add: trim_right_def)
  moreover obtain n where "trim_right (c # s) = take n (c # s)" using trim_right_take by blast
  ultimately show ?thesis by (cases n) (auto simp: trim_space_def l)
qed

lemma trim_api: "\<exists>s'. trim_space (''api '' @ s) = CHR ''a'' # s'" "\<exists>s'. trim_space (''uuid_kill '' @ s) = CHR ''u'' # s'"
  using trim_keeps_head [OF plain_letters(1), of "''pi '' @ s"]
    trim_keeps_head [OF plain_letters(3), of "''uid_kill '' @ s"] by simp_all

definition hangup_command :: "string \<Rightarrow> string" where
  "hangup_command ch = trim_space (''api '' @ trim_space (''uuid_kill '' @ commandWord (trim_space ch)))"

definition rejected_hung_up :: "string \<Rightarrow> goerr + call \<Rightarrow> world \<Rightarrow> bool" where
  "rejected_hung_up ch r w \<longleftrightarrow> (\<forall>e. r = Inl e \<longrightarrow> fs_log w \<noteq> [] \<and> last (fs_log w) = hangup_command ch)"


lemma run_command_quiet:
  assumes "quiet E" and "trim_space raw \<noteq> []" and "one_line (trim_space (''api '' @ trim_space raw))"
  shows "fs_log (snd (run_state (commandOK E raw) w)) = fs_log w @ [trim_space (''api '' @ trim_space raw)]"
proof -
  define c where "c = trim_space (''api '' @ trim_space raw)"
  have "c \<noteq> []" "\<not> contains_any c [CHR 0x0D, CHR 0x0A]" "trim_space c = c"
    using assms(3) unfolding c_def [symmetric] by (auto simp: one_line_def contains_any_def list_ex_iff c_def)
  with assms(1,2) show ?thesis
    unfolding commandOK_def fs_Command_def client_command_def writeCommand_def Let_def c_def [symmetric]
    by (simp split: sum.splits)
qed

lemma reject_hangs_up:
  assumes "quiet E" and "trim_space ch \<noteq> []" and "one_line (hangup_command ch)"
  shows "ensures (rejectInbound E ch e) (rejected_hung_up ch)"
proof -
  have raw: "trim_space (''uuid_kill '' @ commandWord (trim_space ch)) \<noteq> []"
    using trim_api(2) [of "commandWord (trim_space ch)"] by auto
  note log = run_command_quiet [OF assms(1) raw assms(3) [unfolded hangup_command_def], folded hangup_command_def]
  have hang: "fs_log (snd (run_state (controller_Hangup E ch) w)) = fs_log w @ [hangup_command ch]" for w
    using assms(2) log [of w]
    by (cases "run_state (commandOK E (''uuid_kill '' @ commandWord (trim_space ch))) w")
       (simp add: controller_Hangup_def wrapped_def fs_Hangup_def required_def requiredArgument_def split: sum.split)
  show ?thesis
    unfolding ensures_def wp_def
  proof
    fix w
    show "case run_state (rejectInbound E ch e) w of (r, w') \<Rightarrow> rejected_hung_up ch r w'"
      using hang [of w]
      by (cases "run_state (controller_Hangup E ch) w")
         (simp add: rejectInbound_def rejected_hung_up_def split: sum.split)
  qed
qed

lemma AdmitInbound_hangs_up:
  assumes "quiet E" and "one_line (hangup_command (i_channel_id req))" and "validateInboundAdmission req = Inr ()"
  shows "ensures (AdmitInbound E req) (rejected_hung_up (i_channel_id req))"
proof -
  have ch: "trim_space (i_channel_id req) \<noteq> []"
    using assms(3) by (auto simp: validateInboundAdmission_def split: if_splits)
  note R = reject_hangs_up [OF assms(1) ch assms(2)]
  have ok: "ensures (State_Monad.return (Inr c)) (rejected_hung_up (i_channel_id req))" for c
    by (rule ensures_return) (simp add: rejected_hung_up_def)
  have reuse: "ensures (reuse_inbound E c req) (rejected_hung_up (i_channel_id req))" for c
    unfolding reuse_inbound_def by (intro ensures_cases ensures_then R ok)
  have finish: "ensures (finish_inbound E c d req) (rejected_hung_up (i_channel_id req))" for c d
    unfolding finish_inbound_def Let_def by (intro ensures_cases ensures_then R ok)
  show ?thesis
    unfolding AdmitInbound_def admit_new_def assms(3) sum.case
    by (intro ensures_cases ensures_then R reuse finish)
qed

section \<open>One dialled call per request\<close>

text \<open>
  Originate is the only background command of the client. A connection that breaks (a network error
  that is no timeout) is assumed to break before the command reaches FreeSWITCH.
\<close>

definition dialled :: "world \<Rightarrow> nat" where
  "dialled w = length (filter (has_prefix ''bgapi '') (fs_log w))"

definition breaks_before_write :: "env \<Rightarrow> bool" where
  "breaks_before_write E \<longleftrightarrow> (\<forall>t. failure_kind E t = NetError \<longrightarrow> fault_at E t \<noteq> FailAfter)"

definition no_dial :: "world \<Rightarrow> world \<Rightarrow> bool" where
  "no_dial w w' \<longleftrightarrow> dialled w' = dialled w"

definition retryable :: "string \<times> goerr option \<Rightarrow> bool" where
  "retryable r \<longleftrightarrow> fst r = [] \<and> (\<exists>e. snd r = Some e \<and> snd (snd (classifyOriginateFailure e)) = ''retryable_failure'')"


interpretation dial_history: world_history no_dial
  by unfold_locales (auto simp: no_dial_def dialled_def)

lemma commands_kept_no_dial: "commands_kept w w' \<Longrightarrow> no_dial w w'"
  by (simp add: commands_kept_def no_dial_def dialled_def)

lemma silent_no_dial: "silent_changes.moves m \<Longrightarrow> dial_history.moves m"
  unfolding state_io_rel_def by (auto split: prod.splits dest: commands_kept_no_dial)

text \<open>What a background command does to the log, and when its failure is a broken connection.\<close>

lemma fs_send_run:
  assumes "silent_changes.rely E" and "run_state (fs_send E c) w = (r, w')"
  shows "fs_log w' = fs_log w @ [c] \<or>
    fs_log w' = fs_log w \<and> r = Inl (IOError (tick w)) \<and> fault_at E (tick w) = FailBefore"
    "r = Inl e \<Longrightarrow> e = IOError (tick w) \<and> fault_at E (tick w) \<noteq> NoFault"
    "r = Inl e \<Longrightarrow> fs_log w' \<noteq> fs_log w \<Longrightarrow> fault_at E (tick w) = FailAfter"
  using assms by (auto simp: fs_send_def external_def Let_def commands_kept_def split: fault.splits)

definition dials_once :: "env \<Rightarrow> (world, goerr + 'a) state \<Rightarrow> bool" where
  "dials_once E m \<longleftrightarrow> (\<forall>w r w'. run_state m w = (r, w') \<longrightarrow> dialled w' \<le> dialled w + 1 \<and>
     (\<forall>e t. r = Inl e \<longrightarrow> io_cause e = Some t \<longrightarrow> failure_kind E t = NetError \<longrightarrow> dialled w' = dialled w))"

lemma dials_once_return: "(\<And>e. x = Inl e \<Longrightarrow> io_cause e = None) \<Longrightarrow> dials_once E (State_Monad.return x)"
  by (auto simp: dials_once_def)

lemma dials_once_if: "dials_once E m \<Longrightarrow> dials_once E n \<Longrightarrow> dials_once E (if b then m else n)"
  by simp

lemma dials_once_fs_send:
  assumes "silent_changes.rely E" and "breaks_before_write E"
  shows "dials_once E (fs_send E c)"
  unfolding dials_once_def
proof (intro allI impI, rule conjI)
  fix w r w' assume run: "run_state (fs_send E c) w = (r, w')"
  note F = fs_send_run [OF assms(1) run]
  show "dialled w' \<le> dialled w + 1" using F(1) by (auto simp: dialled_def)
  show "\<forall>e t. r = Inl e \<longrightarrow> io_cause e = Some t \<longrightarrow> failure_kind E t = NetError \<longrightarrow> dialled w' = dialled w"
  proof (intro allI impI)
    fix e t assume e: "r = Inl e" "io_cause e = Some t" "failure_kind E t = NetError"
    with F(2) have "t = tick w" by simp
    with F(3) [OF e(1)] assms(2) e(3) have "fs_log w' = fs_log w" by (auto simp: breaks_before_write_def)
    then show "dialled w' = dialled w" by (simp add: dialled_def)
  qed
qed

text \<open>Checking and translating the reply dials nothing.\<close>

definition checks :: "('a \<Rightarrow> (world, goerr + 'b) state) \<Rightarrow> bool" where
  "checks k \<longleftrightarrow> (\<forall>x. \<exists>y. k x = State_Monad.return y \<and> (\<forall>e. y = Inl e \<longrightarrow> io_cause e = None))"

definition pass_on :: "(goerr \<Rightarrow> goerr) \<Rightarrow> ('a \<Rightarrow> (world, goerr + 'b) state) \<Rightarrow> goerr + 'a \<Rightarrow> (world, goerr + 'b) state" where
  "pass_on tr k r = (case r of Inl e \<Rightarrow> State_Monad.return (Inl (tr e)) | Inr x \<Rightarrow> k x)"

lemma dials_once_check:
  assumes "dials_once E m" and "\<And>e. io_cause (tr e) = io_cause e" and "checks k"
  shows "dials_once E (State_Monad.bind m (pass_on tr k))"
  unfolding dials_once_def
proof (intro allI impI)
  fix w r w' assume run: "run_state (State_Monad.bind m (pass_on tr k)) w = (r, w')"
  obtain r1 w1 where m: "run_state m w = (r1, w1)" by fastforce
  have D: "dialled w1 \<le> dialled w + 1"
    "\<And>e t. r1 = Inl e \<Longrightarrow> io_cause e = Some t \<Longrightarrow> failure_kind E t = NetError \<Longrightarrow> dialled w1 = dialled w"
    using assms(1) m unfolding dials_once_def by blast+
  show "dialled w' \<le> dialled w + 1 \<and>
    (\<forall>e t. r = Inl e \<longrightarrow> io_cause e = Some t \<longrightarrow> failure_kind E t = NetError \<longrightarrow> dialled w' = dialled w)"
  proof (cases r1)
    case (Inl e)
    with run m have "r = Inl (tr e)" "w' = w1" by (simp_all add: pass_on_def)
    with D Inl assms(2) show ?thesis by simp
  next
    case (Inr x)
    obtain y where y: "k x = State_Monad.return y" "\<And>e. y = Inl e \<Longrightarrow> io_cause e = None"
      using assms(3) unfolding checks_def by blast
    with run m Inr have "r = y" "w' = w1" by (simp_all add: pass_on_def)
    with D(1) y(2) show ?thesis by auto
  qed
qed

lemma checks_intros:
  "(\<And>x e. g x = Inl e \<Longrightarrow> io_cause e = None) \<Longrightarrow> checks (\<lambda>x. State_Monad.return (g x))"
  "checks k \<Longrightarrow> checks l \<Longrightarrow> checks (\<lambda>x. if b x then k x else l x)"
  unfolding checks_def by auto

lemma dials_once_client:
  assumes "silent_changes.rely E" and "breaks_before_write E"
  shows "dials_once E (client_command E raw)"
proof -
  have "dials_once E (writeCommand E c)" for c
    unfolding writeCommand_def Let_def using dials_once_fs_send [OF assms] by (auto intro: dials_once_return)
  then have "dials_once E (State_Monad.bind (writeCommand E c) (pass_on (Wrap n) (\<lambda>f. State_Monad.return (Inr f))))" for c n
    by (rule dials_once_check) (auto intro!: checks_intros)
  then show ?thesis
    unfolding client_command_def Let_def pass_on_def by (auto intro: dials_once_return)
qed

lemma dials_once_BGAPI:
  assumes "silent_changes.rely E" and "breaks_before_write E"
  shows "dials_once E (BGAPI E raw)"
proof -
  have "dials_once E (State_Monad.bind (client_command E c) (pass_on (\<lambda>e. e) k))" if "checks k"
    for c and k :: "frame \<Rightarrow> (world, goerr + string) state"
    by (rule dials_once_check [OF dials_once_client [OF assms]]) (use that in simp_all)
  note bound = this [unfolded pass_on_def]
  show ?thesis
    unfolding BGAPI_def Let_def
    by (auto intro!: dials_once_return bound checks_intros)
qed

lemma dials_once_Originate:
  assumes "silent_changes.rely E" and "breaks_before_write E"
  shows "dials_once E (fs_Originate E ep dst cid vs)"
proof -
  have get: "dials_once E (State_Monad.bind State_Monad.get f)" if "\<And>w. dials_once E (f w)"
    for f :: "world \<Rightarrow> (world, goerr + string) state"
    using that unfolding dials_once_def by simp
  have "dials_once E (State_Monad.bind (BGAPI E c) (pass_on (\<lambda>e. e) (\<lambda>_. State_Monad.return (Inr ch))))"
    for c ch :: string
    by (rule dials_once_check [OF dials_once_BGAPI [OF assms]]) (auto intro!: checks_intros)
  note bound = this [unfolded pass_on_def]
  show ?thesis
    unfolding fs_Originate_def originate_fresh_def originate_as_def
    by (intro dials_once_if dials_once_return get bound) simp_all
qed

lemma if_Inl: "(if b then Inl x else y) = Inl e \<longleftrightarrow> b \<and> x = e \<or> \<not> b \<and> y = Inl e"
  by auto

lemma egress_errors:
  "freeSWITCHEgress req = Inl e \<Longrightarrow> io_cause e = None"
  "egressVariables E req uri = Inl e \<Longrightarrow> io_cause e = None"
  by (auto simp only: freeSWITCHEgress_def egressVariables_def Let_def if_Inl io_cause.simps sum.distinct)

lemma dials_once_controller:
  assumes "silent_changes.rely E" and "breaks_before_write E"
  shows "dials_once E (controller_Originate E req)"
proof -
  have "dials_once E (State_Monad.bind (fs_Originate E ep d cid vs) (pass_on (classifyClientOriginateError E) k))"
    if "checks k" for ep d cid vs and k :: "string \<Rightarrow> (world, goerr + string) state"
    by (rule dials_once_check [OF dials_once_Originate [OF assms]])
       (use that in \<open>simp_all add: classifyClientOriginateError_def\<close>)
  note bound = this [unfolded pass_on_def]
  show ?thesis
    unfolding controller_Originate_def
    by (auto intro!: dials_once_return bound checks_intros dest: egress_errors split: sum.split prod.split)
qed

lemma client_retry_cause:
  assumes "as_originate_error (classifyClientOriginateError E x) = Some (c, n)"
    and "c = OriginateFailureTransport \<or> c = OriginateFailureCapacity \<or> c = OriginateFailureSIP"
  shows "\<exists>t. io_cause x = Some t \<and> failure_kind E t = NetError"
proof (cases "io_cause x")
  case None
  with assms show ?thesis by (auto simp: classifyClientOriginateError_def)
next
  case (Some t)
  with assms show ?thesis by (cases "failure_kind E t") (auto simp: classifyClientOriginateError_def)
qed

lemma client_retryable:
  "retryable ([], Some (classifyClientOriginateError E x)) \<Longrightarrow>
   \<exists>t. io_cause (classifyClientOriginateError E x) = Some t \<and> failure_kind E t = NetError"
  using client_retry_cause [of E x]
  by (auto simp: retryable_def classifyOriginateFailure_def classifyClientOriginateError_def split: if_splits)

lemma controller_retry_cause:
  assumes "run_state (controller_Originate E req) w = (Inl e, w')" and "retryable ([], Some e)"
  shows "\<exists>t. io_cause e = Some t \<and> failure_kind E t = NetError"
proof -
  have "as_originate_error e = None \<or> (\<exists>x. e = OriginateErr OriginateFailureValidation 0 x) \<or>
      (\<exists>x. e = classifyClientOriginateError E x)"
    using assms(1) unfolding controller_Originate_def
    by (auto split: sum.splits prod.splits if_splits)
  then show ?thesis
  proof (elim disjE exE)
    fix x assume "e = classifyClientOriginateError E x"
    with assms(2) show ?thesis by (simp add: client_retryable)
  qed (use assms(2) in \<open>simp_all add: retryable_def classifyOriginateFailure_def\<close>)
qed

lemma fs_Command_no_dial: "silent_changes.rely E \<Longrightarrow> dial_history.moves (fs_Command E raw)"
proof -
  assume rely: "silent_changes.rely E"
  define c where "c = trim_space (''api '' @ trim_space raw)"
  obtain s' where "c = CHR ''a'' # s'" using trim_api(1) unfolding c_def by blast
  then have "dial_history.moves (fs_send E c)"
    using rely by (intro dial_history.fs_send_moves) (auto simp: no_dial_def dialled_def has_prefix_def commands_kept_def)
  then have "dial_history.moves (writeCommand E (trim_space c))"
    unfolding writeCommand_def Let_def c_def trim_space_idem by (intro dial_history.moves_intros)
  then have "dial_history.moves (client_command E (''api '' @ trim_space raw))"
    unfolding client_command_def Let_def c_def trim_space_idem by (intro dial_history.moves_intros)
  then show ?thesis
    unfolding fs_Command_def Let_def by (intro dial_history.moves_intros)
qed

lemma Hangup_no_dial: "silent_changes.rely E \<Longrightarrow> dial_history.moves (controller_Hangup E ch)"
  unfolding controller_Hangup_def wrapped_def fs_Hangup_def required_def commandOK_def
  by (intro dial_history.moves_intros fs_Command_no_dial)

definition attempt_dials :: "(world, string \<times> goerr option) state \<Rightarrow> bool" where
  "attempt_dials m \<longleftrightarrow> (\<forall>w r w'. run_state m w = (r, w') \<longrightarrow> dialled w' \<le> dialled w + 1 \<and>
     (retryable r \<longrightarrow> dialled w' = dialled w))"

lemma silent_run:
  assumes "silent_changes.moves m" and "run_state m w = (r, w')"
  shows "dialled w' = dialled w"
  using dial_history.movesD [OF silent_no_dial [OF assms(1)], of w] assms(2) by (simp add: no_dial_def)

lemma attempt_dials_bind:
  assumes "silent_changes.moves m" and "\<And>x. attempt_dials (k x)"
  shows "attempt_dials (State_Monad.bind m k)"
  unfolding attempt_dials_def
proof (intro allI impI)
  fix w r w' assume run: "run_state (State_Monad.bind m k) w = (r, w')"
  obtain x w1 where m: "run_state m w = (x, w1)" by fastforce
  with run have "run_state (k x) w1 = (r, w')" by simp
  with assms(2) silent_run [OF assms(1) m] show "dialled w' \<le> dialled w + 1 \<and> (retryable r \<longrightarrow> dialled w' = dialled w)"
    unfolding attempt_dials_def by metis
qed

lemma attempt_dials_return: "attempt_dials (State_Monad.return x)"
  by (simp add: attempt_dials_def)

lemma attempt_dials_originate:
  assumes "silent_changes.rely E" and "breaks_before_write E"
  shows "attempt_dials (State_Monad.bind (controller_Originate E req) (\<lambda>r. case r of
      Inl e \<Rightarrow> State_Monad.bind (admission_Release E t l) (\<lambda>_. State_Monad.return ([], Some e))
    | Inr ch \<Rightarrow> State_Monad.return (ch, None)))"
  unfolding attempt_dials_def
proof (intro allI impI)
  fix w r w'
  assume run: "run_state (State_Monad.bind (controller_Originate E req) (\<lambda>r. case r of
      Inl e \<Rightarrow> State_Monad.bind (admission_Release E t l) (\<lambda>_. State_Monad.return ([], Some e))
    | Inr ch \<Rightarrow> State_Monad.return (ch, None))) w = (r, w')"
  obtain x w1 where m: "run_state (controller_Originate E req) w = (x, w1)" by fastforce
  have D: "dialled w1 \<le> dialled w + 1"
    "\<And>e t. x = Inl e \<Longrightarrow> io_cause e = Some t \<Longrightarrow> failure_kind E t = NetError \<Longrightarrow> dialled w1 = dialled w"
    using dials_once_controller [OF assms] m unfolding dials_once_def by blast+
  show "dialled w' \<le> dialled w + 1 \<and> (retryable r \<longrightarrow> dialled w' = dialled w)"
  proof (cases x)
    case (Inl e)
    obtain y w2 where rel: "run_state (admission_Release E t l) w1 = (y, w2)" by fastforce
    with run m Inl have r: "r = ([], Some e)" "w' = w2" by simp_all
    have "dialled w' = dialled w1"
      using silent_run [OF silent_changes.admission_moves(3) [OF assms(1)] rel] r(2) by simp
    with D Inl m controller_retry_cause [of E req w e w1] r(1) show ?thesis by auto
  next
    case (Inr ch)
    with run m have "r = (ch, None)" "w' = w1" by simp_all
    with D(1) show ?thesis by (simp add: retryable_def)
  qed
qed

lemma create_attempt_dials:
  assumes "silent_changes.rely E" and "breaks_before_write E"
  shows "attempt_dials (create_attempt E org i req route)"
proof -
  have case_sum: "attempt_dials (case x of Inl e \<Rightarrow> f e | Inr y \<Rightarrow> g y)"
    if "\<And>e. attempt_dials (f e)" "\<And>y. attempt_dials (g y)" for x :: "goerr + 'z" and f g
    using that by (cases x) simp_all
  show ?thesis
    unfolding create_attempt_def
    by (intro attempt_dials_bind case_sum attempt_dials_return attempt_dials_originate assms
        silent_changes.repo_reads_move silent_changes.admission_moves)
qed

lemma unit_run: "\<exists>w'. run_state (m :: (world, unit) state) w = ((), w')"
  by (cases "run_state m w") simp

lemma route_loop_dials:
  assumes "\<And>route. attempt_dials (attempt route)" and "\<And>a. silent_changes.moves (observe a)"
    and "run_state (route_loop E attempt observe n l routes) w = (r, w')"
  shows "dialled w' \<le> dialled w + 1"
  using assms(3)
proof (induction routes arbitrary: n l w)
  case (Cons route routes)
  show ?case
  proof (cases "ctx_done E (tick w)")
    case False
    obtain p w1 where "run_state (attempt route) w = (p, w1)" by fastforce
    then obtain ch err where a: "run_state (attempt route) w = ((ch, err), w1)" by (cases p) simp
    have A: "dialled w1 \<le> dialled w + 1" "retryable (ch, err) \<Longrightarrow> dialled w1 = dialled w"
      using assms(1) a unfolding attempt_dials_def by blast+
    show ?thesis
    proof (cases err)
      case None
      obtain w2 where o: "run_state (observe \<lparr>ao_route = route, ao_attempt = n, ao_outcome = ''succeeded'',
          ao_failure_class = [], ao_sip_status = 0\<rparr>) w1 = ((), w2)" using unit_run by blast
      with Cons.prems False a None have "w' = w2" by simp
      with silent_run [OF assms(2) o] A(1) show ?thesis by simp
    next
      case (Some e)
      obtain cls st out0 where c: "classifyOriginateFailure e = (cls, st, out0)" by (metis prod_cases3)
      define out where "out = (if ch \<noteq> [] then ''terminal_failure'' else out0)"
      obtain w2 where o: "run_state (observe \<lparr>ao_route = route, ao_attempt = n, ao_outcome = out,
          ao_failure_class = cls, ao_sip_status = st\<rparr>) w1 = ((), w2)" using unit_run by blast
      note D = silent_run [OF assms(2) o]
      show ?thesis
      proof (cases "out = ''retryable_failure''")
        case True
        then have "retryable (ch, err)" using Some c by (auto simp: retryable_def out_def split: if_splits)
        moreover have "run_state (route_loop E attempt observe (n + 1) (Some e) routes) w2 = (r, w')"
          using Cons.prems False a Some c o True by (simp add: out_def [symmetric])
        ultimately show ?thesis using Cons.IH [of "n + 1" "Some e" w2] A(2) D by simp
      next
        case False
        with Cons.prems \<open>\<not> ctx_done E (tick w)\<close> a Some c o have "w' = w2" by (simp add: out_def [symmetric])
        with D A(1) show ?thesis by simp
      qed
    qed
  qed (use Cons.prems in simp)
qed simp

text \<open>After the plan the service only hangs up, which is not a background command.\<close>

definition dial_limit :: "world \<Rightarrow> (world, 'a) state \<Rightarrow> bool" where
  "dial_limit w m \<longleftrightarrow> dialled (snd (run_state m w)) \<le> dialled w + 1"

lemma dial_limit_moves: "dial_history.moves m \<Longrightarrow> dial_limit w m"
  using dial_history.movesD [of m w] by (simp add: dial_limit_def no_dial_def)

lemma dial_limit_after:
  assumes "dial_history.moves m" and "\<And>x w1. dialled w1 = dialled w \<Longrightarrow> dial_limit w1 (k x)"
  shows "dial_limit w (State_Monad.bind m k)"
proof -
  obtain x w1 where m: "run_state m w = (x, w1)" by fastforce
  then have "dialled w1 = dialled w" using dial_history.movesD [OF assms(1), of w] by (simp add: no_dial_def)
  with assms(2) [of w1 x] m show ?thesis by (simp add: dial_limit_def)
qed

lemma dial_limit_before:
  assumes "dialled (snd (run_state m w)) \<le> dialled w + 1" and "\<And>x. dial_history.moves (k x)"
  shows "dial_limit w (State_Monad.bind m k)"
proof -
  obtain x w1 where m: "run_state m w = (x, w1)" by fastforce
  show ?thesis
    using dial_history.movesD [OF assms(2), of w1 x] assms(1) m by (simp add: dial_limit_def no_dial_def)
qed

lemma create_dial_limit:
  assumes "silent_changes.rely E" and "breaks_before_write E"
  shows "dial_limit w (create_dial E org req c routes)"
proof (cases "routes = []")
  case True
  show ?thesis
    unfolding create_dial_def if_P [OF True]
    by (intro dial_limit_moves silent_no_dial silent_changes.abandon_moves assms)
next
  case False
  have plan: "dialled (snd (run_state (executeRoutePlan E routes (create_attempt E org (c_id c) req) (observe_attempt E)) w))
      \<le> dialled w + 1"
    unfolding executeRoutePlan_def
    by (rule route_loop_dials [OF create_attempt_dials [OF assms] silent_changes.observe_attempt_moves [OF assms(1)]])
       (rule surjective_pairing)
  note quiet_steps =
    silent_no_dial [OF silent_changes.abandon_moves [OF assms(1)]]
    silent_no_dial [OF silent_changes.channel_moves(1) [OF assms(1)]]
    silent_no_dial [OF silent_changes.admission_moves(3) [OF assms(1)]]
    silent_no_dial [OF silent_changes.repo_reads_move(3) [OF assms(1)]]
    Hangup_no_dial [OF assms(1)]
  show ?thesis
    unfolding create_dial_def if_not_P [OF False]
    by (rule dial_limit_before [OF plan]) (intro dial_history.moves_intros quiet_steps)
qed

lemma svc_Create_limit:
  assumes "silent_changes.rely E" and "breaks_before_write E"
  shows "dial_limit w (svc_Create E org req)"
proof -
  have pure: "dial_limit w (State_Monad.return x)" for w and x :: "goerr + call" by (simp add: dial_limit_def)
  have cs: "dial_limit w (case x of Inl e \<Rightarrow> f e | Inr y \<Rightarrow> g y)"
    if "\<And>e. dial_limit w (f e)" "\<And>y. dial_limit w (g y)"
    for w and x :: "goerr + 'z" and f :: "goerr \<Rightarrow> (world, goerr + call) state" and g
    using that by (cases x) simp_all
  note steps = silent_no_dial [OF silent_changes.repo_writes_move(1) [OF assms(1)]]
    silent_no_dial [OF silent_changes.routing_moves(4) [OF assms(1)]]
  show ?thesis
    unfolding svc_Create_def
    by (intro cs pure dial_limit_moves [OF silent_no_dial [OF silent_changes.abandon_moves]] dial_limit_after steps create_dial_limit assms)
qed

section \<open>Tenant isolation of control operations\<close>

definition foreign :: "uuid \<Rightarrow> uuid \<Rightarrow> world \<Rightarrow> bool" where
  "foreign org i w \<longleftrightarrow> (\<forall>c \<in> set (calls (database w)). \<not> scoped org i c)"

definition refused :: "goerr + 'a \<Rightarrow> bool" where
  "refused r \<longleftrightarrow> (\<exists>code m cause. r = Inl (AppErr code m cause) \<and> code \<in> {BAD_REQUEST, NOT_FOUND, INTERNAL_ERROR})"

lemma svc_Get_foreign:
  assumes "database_alone E" and "foreign org i w" and "run_state (svc_Get E org i) w = (r, w')"
  shows "refused r"
proof (cases "validateIDs org i")
  case (Inl e)
  with assms(3) show ?thesis
    by (auto simp: svc_Get_def refused_def validateIDs_def validateOrganizationID_def validateCallID_def
        split: sum.splits if_splits)
next
  case (Inr u)
  obtain x w1 where q: "run_state (repo_Get E org i) w = (x, w1)" by fastforce
  have "GetCall org i (database w) = Inl ErrNoRows"
    using assms(2) by (simp add: GetCall_def select_one_def foreign_def find_None_iff [THEN iffD2])
  then obtain e where "x = Inl e"
    using query_alone [OF assms(1) q [unfolded repo_Get_def]] by (cases x) auto
  with assms(3) q Inr show ?thesis
    by (auto simp: svc_Get_def refused_def translateReadError_def)
qed

lemma controlContext_foreign:
  assumes "database_alone E" and "foreign org i w" and "run_state (controlContext E org i) w = (r, w')"
  shows "refused r"
proof -
  obtain x w1 where g: "run_state (svc_Get E org i) w = (x, w1)" by fastforce
  then have "refused x" by (rule svc_Get_foreign [OF assms(1,2)])
  then obtain code m cause where "x = Inl (AppErr code m cause)" "code \<in> {BAD_REQUEST, NOT_FOUND, INTERNAL_ERROR}"
    by (auto simp: refused_def)
  with g assms(3) show ?thesis by (auto simp: controlContext_def refused_def)
qed

text \<open>An operation that first resolves its context and does nothing when that fails.\<close>

definition guarded :: "env \<Rightarrow> uuid \<Rightarrow> uuid \<Rightarrow> (world, goerr + unit) state \<Rightarrow> bool" where
  "guarded E org i m \<longleftrightarrow> (\<forall>w. foreign org i w \<longrightarrow>
     refused (fst (run_state m w)) \<and> commands_kept w (snd (run_state m w)))"

lemma guarded_context:
  assumes "database_alone E" and "silent_changes.rely E"
  shows "guarded E org i (State_Monad.bind (controlContext E org i) (\<lambda>r. case r of Inl e \<Rightarrow> State_Monad.return (Inl e) | Inr x \<Rightarrow> k x))"
  unfolding guarded_def
proof (intro allI impI)
  fix w assume f: "foreign org i w"
  obtain r w1 where c: "run_state (controlContext E org i) w = (r, w1)" by fastforce
  have "refused r" by (rule controlContext_foreign [OF assms(1) f c])
  moreover have "commands_kept w w1"
    using silent_changes.movesD [OF silent_changes.reads_move(3) [OF assms(2)], of w org i] c by simp
  ultimately show "refused (fst (run_state (State_Monad.bind (controlContext E org i)
        (\<lambda>r. case r of Inl e \<Rightarrow> State_Monad.return (Inl e) | Inr x \<Rightarrow> k x)) w)) \<and>
      commands_kept w (snd (run_state (State_Monad.bind (controlContext E org i)
        (\<lambda>r. case r of Inl e \<Rightarrow> State_Monad.return (Inl e) | Inr x \<Rightarrow> k x)) w))"
    using c by (auto simp: refused_def)
qed

lemma guarded_refusal: "guarded E org i (State_Monad.return (Inl (NewBadRequest m)))"
  by (simp add: guarded_def refused_def commands_kept_def)

lemma control_op_guarded:
  assumes "database_alone E" and "silent_changes.rely E"
  shows "guarded E org i (control_op E org i op)"
  using guarded_context [OF assms] guarded_refusal
  by (cases op)
     (simp_all add: control_op_defs normalizeTransfer_def normalizePlay_def normalizeRecord_def normalizeDTMF_def Let_def)

section \<open>Sample requests\<close>

definition route_request :: create_request where
  "route_request =
     \<lparr>r_voice_agent_id = None, r_trunk_id = Some 7, r_from_uri = ''+15550100'', r_to_uri = ''+15550199'',
      r_privacy = False, r_dtmf_mode = [], r_media_encryption = [], r_direction = Outbound, r_sip_call_id = None\<rparr>"

definition admitted_request :: inbound_request where
  "admitted_request =
     \<lparr>i_channel_id = ''chan'', i_sip_call_id = ''sip1'', i_organization_id = 1, i_voice_agent_id = 5,
      i_phone_number_id = 4, i_voice_agent_binding_id = 6, i_trunk_id = 7, i_from_uri = ''+15550100'',
      i_to_uri = ''+15550199''\<rparr>"

text \<open>The connection breaks after the first originate command; the attribution query fails.\<close>

definition broken_env :: env where
  "broken_env = sample_env\<lparr>fault_at := (\<lambda>t. if t = 7 then FailAfter else NoFault), failure_kind := (\<lambda>_. NetError)\<rparr>"

definition attribution_lost_env :: env where
  "attribution_lost_env = sample_env\<lparr>fault_at := (\<lambda>t. if t = 7 then FailBefore else NoFault)\<rparr>"

lemma sample_rely: "silent_changes.rely sample_env" "database_alone sample_env" "breaks_before_write sample_env"
  by (simp_all add: commands_kept_def database_alone_def breaks_before_write_def sample_env_def)

section \<open>Properties\<close>

text \<open>
  Everything the calls service does to the table of calls: the requests of its users and of FreeSWITCH, the
  lifecycle events, the single marks behind them, and the reconciliation job for some ticks.
\<close>

datatype call_mark =
    Mark_ringing | Mark_answered | Mark_active | Mark_held | Mark_resumed | Mark_completed "string option"
  | Mark_failed "string option" | Mark_cancelled "string option"

datatype call_operation =
    Create_op uuid create_request | Inbound_op inbound_request | Attribution_op uuid uuid "uuid option" "uuid option"
  | Control_op uuid uuid call_action | Observe_op lifecycle_event | Handle_op lifecycle_event
  | Mark_op uuid uuid call_mark | Reconcile_op nat

fun mark_call :: "env \<Rightarrow> uuid \<Rightarrow> uuid \<Rightarrow> call_mark \<Rightarrow> (world, goerr + call) state" where
  "mark_call E org i Mark_ringing = svc_MarkRinging E org i"
| "mark_call E org i Mark_answered = svc_MarkAnswered E org i"
| "mark_call E org i Mark_active = svc_MarkActive E org i"
| "mark_call E org i Mark_held = svc_MarkHeld E org i"
| "mark_call E org i Mark_resumed = svc_MarkResumed E org i"
| "mark_call E org i (Mark_completed rs) = svc_MarkCompleted E org i rs"
| "mark_call E org i (Mark_failed rs) = svc_MarkFailed E org i rs"
| "mark_call E org i (Mark_cancelled rs) = svc_MarkCancelled E org i rs"

fun call_operate :: "env \<Rightarrow> call_operation \<Rightarrow> (world, unit) state" where
  "call_operate E (Create_op org req) = do { _ \<leftarrow> svc_Create E org req; State_Monad.return () }"
| "call_operate E (Inbound_op req) = do { _ \<leftarrow> HandleInbound E req; State_Monad.return () }"
| "call_operate E (Attribution_op org i trunk endpoint) =
     do { _ \<leftarrow> svc_SetRouteAttribution E org i trunk endpoint; State_Monad.return () }"
| "call_operate E (Control_op org i a) = do { _ \<leftarrow> control_op E org i a; State_Monad.return () }"
| "call_operate E (Observe_op v) = do { _ \<leftarrow> ObserveLifecycle E v; State_Monad.return () }"
| "call_operate E (Handle_op v) = do { _ \<leftarrow> HandleLifecycle E v; State_Monad.return () }"
| "call_operate E (Mark_op org i m) = do { _ \<leftarrow> mark_call E org i m; State_Monad.return () }"
| "call_operate E (Reconcile_op ticks) = do { _ \<leftarrow> reconciliation_Run E ticks; State_Monad.return () }"

fun call_operations :: "env \<Rightarrow> call_operation list \<Rightarrow> (world, unit) state" where
  "call_operations E [] = State_Monad.return ()"
| "call_operations E (a # as) = do { _ \<leftarrow> call_operate E a; call_operations E as }"

lemma mark_call_moves: "call_history.rely E \<Longrightarrow> call_history.moves (mark_call E org i m)"
  by (cases m) (simp_all add: call_changes.service_marks_move)

lemma call_operate_moves: "call_history.rely E \<Longrightarrow> call_history.moves (call_operate E a)"
  by (cases a)
     (auto intro!: call_history.moves_intros call_changes.svc_Create_moves call_changes.HandleInbound_moves
       call_changes.svc_SetRouteAttribution_moves call_changes.control_op_moves call_changes.ObserveLifecycle_moves
       call_changes.HandleLifecycle_moves mark_call_moves call_changes.reconciliation_Run_moves)

lemma call_operations_moves: "call_history.rely E \<Longrightarrow> call_history.moves (call_operations E as)"
  by (induction as) (auto intro!: call_history.moves_intros call_operate_moves)

lemma ended_call_keeps_phase:
  assumes "calls_evolve w w'" and "n < length (calls (database w))" and "terminal (c_state (calls (database w) ! n))"
  shows "phase_of (calls (database w') ! n) = phase_of (calls (database w) ! n)"
  using assms call_moves_terminal
  by (fastforce simp: calls_evolve_def grows_def call_row_evolves_def phase_of_def)

text \<open>
  C1: Whatever sequence of operations the calls service executes, creating, admitting and controlling calls,
  lifecycle events, marks, route attribution and reconciliation, each call moves only along the state
  machine, under any fault and next to other processes that do the same: no row is lost, identity, tenant,
  direction, addresses and the times once set never change, and a call that has ended keeps its state and
  its media state. Its route attribution may still change, see below.
\<close>

theorem call_service_respects_state_machine:
  assumes "\<forall>t w. calls_evolve w (interference E t w)"
  shows "let w' = snd (run_state (call_operations E as) w) in calls_evolve w w' \<and>
    (\<forall>n < length (calls (database w)). terminal (c_state (calls (database w) ! n)) \<longrightarrow>
       phase_of (calls (database w') ! n) = phase_of (calls (database w) ! n))"
  using call_history.movesD [OF call_operations_moves [OF assms], of w as] ended_call_keeps_phase by (simp add: Let_def)

definition ended_world :: world where
  "ended_world = route_world\<lparr>database := (database route_world)\<lparr>calls := [sample_call 2 Completed]\<rparr>\<rparr>"

theorem call_service_respects_state_machine_witness:
  "phase_of (calls (database (snd (run_state (call_operations broken_env [Create_op 1 route_request,
     Mark_op 1 2 (Mark_failed None), Control_op 1 2 OpHangup]) ended_world))) ! 0) = (Completed, MediaActive)"
proof -
  have rely: "\<forall>t w. calls_evolve w (interference broken_env t w)" by (simp add: broken_env_def sample_env_def call_history.refl)
  have c: "calls (database ended_world) = [sample_call 2 Completed]" by (simp add: ended_world_def)
  have "terminal (c_state (sample_call 2 Completed))" "phase_of (sample_call 2 Completed) = (Completed, MediaActive)"
    by (simp_all add: terminal_def sample_call_def phase_of_def)
  with call_service_respects_state_machine [OF rely, where w = ended_world]
  show ?thesis by (simp add: Let_def c del: call_operations.simps)
qed

text \<open>
  What an ended call does not keep is its route: the statement that sets it has no guard on the state, so
  the trunk and the endpoint of a completed call can be rewritten.
\<close>

theorem ended_call_rerouted:
  "case run_state (svc_SetRouteAttribution sample_env 1 2 (Some 7) (Some 9)) ended_world of (r, w') \<Rightarrow>
     map (\<lambda>c. (c_state c, c_trunk_endpoint_id c)) (calls (database ended_world)) = [(Completed, None)] \<and>
     map (\<lambda>c. (c_state c, c_trunk_endpoint_id c)) (calls (database w')) = [(Completed, Some 9)]"
  by code_simp



text \<open>
  C9: One request dials at most one call, over all of its at most three attempts: no second originate
  command is written, provided a connection that breaks without a timeout breaks before the command is
  written.
\<close>

theorem create_dials_at_most_once:
  assumes "\<forall>t w. commands_kept w (interference E t w)" and "breaks_before_write E"
  shows "dialled (snd (run_state (svc_Create E org req) w)) \<le> dialled w + 1"
  using svc_Create_limit [OF assms] by (simp add: dial_limit_def)

theorem create_dials_at_most_once_witness:
  "dialled (snd (run_state (svc_Create sample_env 1 route_request) route_world)) \<le> 1"
proof -
  have "dialled route_world = 0" by code_simp
  then show ?thesis using create_dials_at_most_once [OF sample_rely(1,3), of 1 route_request route_world] by simp
qed

text \<open>
  Without that proviso it does not hold: when the connection is reset after the originate command
  reached FreeSWITCH, the failure counts as a transport failure and the next route is dialled, so two
  calls for one request can connect.
\<close>

theorem lost_reply_dials_twice:
  "dialled (snd (run_state (svc_Create broken_env 1 route_request) route_world)) = 2"
  by code_simp

text \<open>
  C32: A control operation on a call that its organization does not own is refused as not found (or as a
  bad request or an internal error) and writes no command to FreeSWITCH, whatever else fails.
\<close>

theorem control_within_tenant:
  assumes "\<forall>t w. database (interference E t w) = database w" and "\<forall>t w. commands_kept w (interference E t w)"
    and "\<forall>c \<in> set (calls (database w)). \<not> scoped org i c"
  shows "refused (fst (run_state (control_op E org i op) w)) \<and>
    fs_log (snd (run_state (control_op E org i op) w)) = fs_log w"
  using control_op_guarded [of E org i op] assms
  by (simp add: guarded_def foreign_def database_alone_def commands_kept_def)

theorem control_within_tenant_witness:
  "refused (fst (run_state (control_op sample_env 9 2 OpHangup) call_world))"
  using control_within_tenant [of sample_env call_world 9 2 OpHangup]
  by (simp add: sample_env_def commands_kept_def scoped_def sample_call_def)

text \<open>
  An admitted inbound call belongs to the organization of the request and is attributed to the trunk
  it arrived on, on every path (new call, repeated event, lost insertion race) and under any fault.
\<close>

theorem admitted_call_attributed:
  assumes "fst (run_state (AdmitInbound E req) w) = Inr c"
  shows "c_organization_id c = i_organization_id req \<and> c_trunk_id c = Some (i_trunk_id req)"
  using ensuresD [OF AdmitInbound_attributed, of E req w "Inr c"] assms
  by (metis attributed_def attributed_result_def surjective_pairing)

lemma sample_admitted:
  "map_sum id c_trunk_id (fst (run_state (AdmitInbound sample_env admitted_request) inbound_world)) = Inr (Some 7)"
  by code_simp

theorem admitted_call_attributed_witness:
  "\<exists>c. fst (run_state (AdmitInbound sample_env admitted_request) inbound_world) = Inr c \<and> c_organization_id c = 1"
  using sample_admitted admitted_call_attributed [of sample_env admitted_request inbound_world]
  by (cases "fst (run_state (AdmitInbound sample_env admitted_request) inbound_world)")
     (auto simp: admitted_request_def)

text \<open>
  An inbound call that is not admitted is hung up: when no external call fails, an admission that
  returns an error has sent the hangup command for the caller's channel last.
\<close>

theorem rejected_inbound_hung_up:
  assumes "quiet E" and "validateInboundAdmission req = Inr ()" and "one_line (hangup_command (i_channel_id req))"
    and "run_state (AdmitInbound E req) w = (Inl e, w')"
  shows "fs_log w' \<noteq> [] \<and> last (fs_log w') = hangup_command (i_channel_id req)"
  using ensuresD [OF AdmitInbound_hangs_up [OF assms(1,3,2)] assms(4)] by (simp add: rejected_hung_up_def)

lemma sample_rejected:
  "isl (fst (run_state (AdmitInbound sample_env admitted_request) empty_world))"
  "validateInboundAdmission admitted_request = Inr ()" "one_line (hangup_command ''chan'')"
  by code_simp+

theorem rejected_inbound_hung_up_witness:
  "last (fs_log (snd (run_state (AdmitInbound sample_env admitted_request) empty_world))) = hangup_command ''chan''"
proof -
  obtain e w' where run: "run_state (AdmitInbound sample_env admitted_request) empty_world = (Inl e, w')"
    using sample_rejected(1) by (cases "run_state (AdmitInbound sample_env admitted_request) empty_world") (auto simp: isl_def)
  have "i_channel_id admitted_request = ''chan''" by (simp add: admitted_request_def)
  with rejected_inbound_hung_up [OF quiet_sample sample_rejected(2) _ run] sample_rejected(3) run show ?thesis by simp
qed

text \<open>
  When the attribution of a new inbound call fails, the call is rejected, hung up and its lease freed,
  but its row stays in the ringing state: the handler marks the zero call id instead of the call.
\<close>

theorem failed_attribution_leaves_call_ringing:
  "let (r, w) = run_state (AdmitInbound attribution_lost_env admitted_request) inbound_world
   in isl r \<and> map c_state (calls (database w)) = [Ringing] \<and> fs_log w = [hangup_command ''chan''] \<and>
      members (cache w) (admissionPrefix attribution_lost_env 7 @ '':leases'') 9000 = []"
  by code_simp

end
