(* ===== verification/Idempotency.thy ===== *)
theory Idempotency
  imports Store
begin

text \<open>
  Idempotent HTTP mutations: the queries of \<^verbatim>\<open>sqlc/idempotency.sql.go\<close>, \<^verbatim>\<open>platform/idempotency\<close> and
  \<^verbatim>\<open>platform/middleware/idempotency.go\<close>. Shown: a recorded response is final until it expires, whatever
  fails; a repeated request gets that response and its handler is not run; while a request is being
  processed no other request with its key runs; and a completion that is lost makes the mutation run a
  second time once the lock has timed out.
\<close>

section \<open>Queries\<close>

definition idempotency_checks :: "idempotency_row \<Rightarrow> bool" where
  "idempotency_checks r \<longleftrightarrow>
     length (k_request_hash r) = 64 \<and>
     (case k_response_status r of None \<Rightarrow> True | Some s \<Rightarrow> 100 \<le> s \<and> s \<le> 599) \<and>
     (if k_status r = Processing then k_response_status r = None \<and> k_completed_at r = None
      else k_response_status r \<noteq> None \<and> k_completed_at r \<noteq> None) \<and>
     k_created_at r < k_expires_at r \<and> k_locked_until r \<le> k_expires_at r"

definition keyed :: "string \<Rightarrow> string \<Rightarrow> idempotency_row \<Rightarrow> bool" where
  "keyed scope key r \<longleftrightarrow> k_scope r = scope \<and> k_key r = key"

definition same_request :: "string \<Rightarrow> string \<Rightarrow> string \<Rightarrow> idempotency_row \<Rightarrow> bool" where
  "same_request method path hash r \<longleftrightarrow> k_method r = method \<and> k_path r = path \<and> k_request_hash r = hash"

text \<open>The condition of \<^verbatim>\<open>ON CONFLICT ... DO UPDATE ... WHERE\<close>.\<close>

definition key_claimable :: "string \<Rightarrow> string \<Rightarrow> string \<Rightarrow> int \<Rightarrow> idempotency_row \<Rightarrow> bool" where
  "key_claimable method path hash now r \<longleftrightarrow>
     k_expires_at r \<le> now \<or>
     k_status r = Processing \<and> k_locked_until r \<le> now \<and> same_request method path hash r"

definition ClaimIdempotencyKey ::
  "string \<Rightarrow> string \<Rightarrow> string \<Rightarrow> string \<Rightarrow> string \<Rightarrow> int \<Rightarrow> int \<Rightarrow> int \<Rightarrow> db \<Rightarrow> goerr + idempotency_row \<times> db" where
  "ClaimIdempotencyKey scope key method path hash locked expires now d =
     (case find (keyed scope key) (idempotency_keys d) of
        None \<Rightarrow>
          let r = \<lparr>k_scope = scope, k_key = key, k_method = method, k_path = path, k_request_hash = hash,
                   k_status = Processing, k_response_status = None, k_response_body = None,
                   k_response_content_type = None, k_response_headers = [], k_locked_until = locked,
                   k_completed_at = None, k_expires_at = expires, k_created_at = now, k_updated_at = now\<rparr>
          in if idempotency_checks r then Inr (r, d\<lparr>idempotency_keys := idempotency_keys d @ [r]\<rparr>)
             else Inl (ConstraintError ''idempotency'')
      | Some old \<Rightarrow>
          if \<not> key_claimable method path hash now old then Inl ErrNoRows
          else
            let r = old\<lparr>k_method := method, k_path := path, k_request_hash := hash, k_status := Processing,
                        k_response_status := None, k_response_body := None, k_response_content_type := None,
                        k_response_headers := [], k_locked_until := locked, k_completed_at := None,
                        k_expires_at := expires, k_updated_at := now\<rparr>
            in if idempotency_checks r
               then Inr (r, d\<lparr>idempotency_keys := update_where (keyed scope key) (\<lambda>_. r) (idempotency_keys d)\<rparr>)
               else Inl (ConstraintError ''idempotency''))"

definition GetIdempotencyKey :: "string \<Rightarrow> string \<Rightarrow> db \<Rightarrow> goerr + idempotency_row" where
  "GetIdempotencyKey scope key d = select_one (keyed scope key) (idempotency_keys d)"

text \<open>The values a completion stores.\<close>

record stored_response =
  rs_status :: int
  rs_body :: string
  rs_content_type :: string
  rs_headers :: "(string \<times> string list) list"

definition completed_row :: "stored_response \<Rightarrow> int \<Rightarrow> idempotency_row \<Rightarrow> idempotency_row" where
  "completed_row resp now r =
     r\<lparr>k_status := Done, k_response_status := Some (rs_status resp), k_response_body := Some (rs_body resp),
       k_response_content_type := Some (rs_content_type resp), k_response_headers := rs_headers resp,
       k_completed_at := Some now, k_locked_until := now, k_updated_at := now\<rparr>"

definition CompleteIdempotencyKey ::
  "stored_response \<Rightarrow> string \<Rightarrow> string \<Rightarrow> string \<Rightarrow> string \<Rightarrow> string \<Rightarrow> int \<Rightarrow> int \<Rightarrow> db \<Rightarrow> goerr + idempotency_row \<times> db" where
  "CompleteIdempotencyKey resp scope key method path hash lease now d =
     (case update_one (\<lambda>r. keyed scope key r \<and> same_request method path hash r \<and> k_status r = Processing \<and>
                            k_locked_until r = lease)
             (completed_row resp now) (idempotency_keys d) of
        Inl e \<Rightarrow> Inl e
      | Inr (r, rows) \<Rightarrow>
          if idempotency_checks r then Inr (r, d\<lparr>idempotency_keys := rows\<rparr>) else Inl (ConstraintError ''idempotency''))"

definition DeleteExpiredIdempotencyKeys :: "int \<Rightarrow> db \<Rightarrow> int \<times> db" where
  "DeleteExpiredIdempotencyKeys now d =
     (int (length (filter (\<lambda>r. k_expires_at r \<le> now) (idempotency_keys d))),
      d\<lparr>idempotency_keys := filter (\<lambda>r. \<not> k_expires_at r \<le> now) (idempotency_keys d)\<rparr>)"

section \<open>Repository and service\<close>

abbreviation ErrKeyConflict :: goerr where
  "ErrKeyConflict \<equiv> Sentinel ''idempotency.ErrKeyConflict''"

abbreviation ErrInProgress :: goerr where
  "ErrInProgress \<equiv> Sentinel ''idempotency.ErrInProgress''"

record idempotency_request =
  ir_scope :: string
  ir_key :: string
  ir_method :: string
  ir_path :: string
  ir_hash :: string

record idempotency_config =
  LockTTL :: int
  RecordTTL :: int

definition DefaultIdempotencyConfig :: idempotency_config where
  "DefaultIdempotencyConfig = \<lparr>LockTTL = 300 * second, RecordTTL = 24 * 3600 * second\<rparr>"

definition idem_repo_Claim ::
  "env \<Rightarrow> idempotency_request \<Rightarrow> int \<Rightarrow> int \<Rightarrow> (world, goerr + idempotency_row \<times> bool) state" where
  "idem_repo_Claim E req locked expires = do {
     r \<leftarrow> exec E (statement (ClaimIdempotencyKey (ir_scope req) (ir_key req) (ir_method req) (ir_path req) (ir_hash req)
            locked expires));
     case r of
       Inr row \<Rightarrow> State_Monad.return (Inr (row, True))
     | Inl e \<Rightarrow>
         if \<not> error_is e ErrNoRows then State_Monad.return (Inl e)
         else do {
           g \<leftarrow> query E (GetIdempotencyKey (ir_scope req) (ir_key req));
           case g of
             Inl e \<Rightarrow> State_Monad.return (Inl e)
           | Inr row \<Rightarrow> State_Monad.return (Inr (row, False))
         }
   }"

datatype claim = Replay stored_response | Leased int

text \<open>The response of a completed record; the column checks make the status present.\<close>

definition stored_of :: "idempotency_row \<Rightarrow> stored_response" where
  "stored_of r =
     \<lparr>rs_status = (case k_response_status r of Some s \<Rightarrow> s | None \<Rightarrow> 0),
      rs_body = (case k_response_body r of Some b \<Rightarrow> b | None \<Rightarrow> []),
      rs_content_type = (case k_response_content_type r of Some c \<Rightarrow> c | None \<Rightarrow> []),
      rs_headers = k_response_headers r\<rparr>"

definition idem_Claim :: "env \<Rightarrow> idempotency_config \<Rightarrow> idempotency_request \<Rightarrow> (world, goerr + claim) state" where
  "idem_Claim E cfg req = do {
     w \<leftarrow> State_Monad.get;
     let now = clock E (tick w);
         locked = now + go_div (LockTTL cfg) 1000; expires = now + go_div (RecordTTL cfg) 1000
     in do {
       r \<leftarrow> idem_repo_Claim E req locked expires;
       case r of
         Inl e \<Rightarrow> State_Monad.return (Inl e)
       | Inr (row, claimed) \<Rightarrow>
           if claimed then State_Monad.return (Inr (Leased (k_locked_until row)))
           else if \<not> same_request (ir_method req) (ir_path req) (ir_hash req) row
           then State_Monad.return (Inl ErrKeyConflict)
           else if k_status row \<noteq> Done then State_Monad.return (Inl ErrInProgress)
           else State_Monad.return (Inr (Replay (stored_of row)))
     }
   }"

definition idem_Complete ::
  "env \<Rightarrow> idempotency_request \<Rightarrow> int \<Rightarrow> stored_response \<Rightarrow> (world, goerr + unit) state" where
  "idem_Complete E req lease resp = do {
     r \<leftarrow> exec E (statement (CompleteIdempotencyKey resp (ir_scope req) (ir_key req) (ir_method req) (ir_path req)
            (ir_hash req) lease));
     case r of
       Inl e \<Rightarrow> State_Monad.return (Inl (if error_is e ErrNoRows then ErrInProgress else e))
     | Inr _ \<Rightarrow> State_Monad.return (Inr ())
   }"

text \<open>The cleanup job: one pass at the start and one per tick, stopping at the first error.\<close>

definition idem_DeleteExpired :: "env \<Rightarrow> (world, goerr + int) state" where
  "idem_DeleteExpired E = exec E (\<lambda>now d. case DeleteExpiredIdempotencyKeys now d of (n, d') \<Rightarrow> (Inr n, d'))"

definition NewCleanupJob :: "int \<Rightarrow> goerr + int" where
  "NewCleanupJob interval =
     (if interval \<le> 0 then Inl (ErrorString ''idempotency cleanup interval must be positive'') else Inr interval)"

fun cleanup_Run :: "env \<Rightarrow> nat \<Rightarrow> (world, goerr + unit) state" where
  "cleanup_Run E ticks = do {
     r \<leftarrow> idem_DeleteExpired E;
     case r of
       Inl e \<Rightarrow> State_Monad.return (Inl (Wrap ''delete expired idempotency keys'' e))
     | Inr _ \<Rightarrow> (case ticks of 0 \<Rightarrow> State_Monad.return (Inr ()) | Suc n \<Rightarrow> cleanup_Run E n)
   }"

declare cleanup_Run.simps [simp del]

section \<open>The middleware\<close>

text \<open>
  A request as the middleware sees it: the values of the headers and the context it reads, and the body
  (\<open>None\<close>: reading it fails). Responses keep each header's values under its canonical name.
\<close>

record http_request =
  hq_method :: string
  hq_uri :: string
  hq_key_header :: string
  hq_organization :: "uuid option"
  hq_principal :: "(string \<times> uuid) option"
  hq_body :: "string option"

record http_response =
  hr_status :: int
  hr_headers :: "(string \<times> string list) list"
  hr_body :: string

definition add_header :: "string \<Rightarrow> string list \<Rightarrow> (string \<times> string list) list \<Rightarrow> (string \<times> string list) list" where
  "add_header name vs hs = (if vs = [] then hs else AList.update name ((case map_of hs name of None \<Rightarrow> [] | Some us \<Rightarrow> us) @ vs) hs)"

definition add_headers :: "(string \<times> string list) list \<Rightarrow> (string \<times> string list) list \<Rightarrow> (string \<times> string list) list" where
  "add_headers hs base = fold (\<lambda>(n, vs). add_header n vs) hs base"

definition get_header :: "string \<Rightarrow> (string \<times> string list) list \<Rightarrow> string" where
  "get_header name hs = (case map_of hs name of Some (v # _) \<Rightarrow> v | _ \<Rightarrow> [])"

text \<open>\<^verbatim>\<open>httputil.Error\<close>: the status of the application error; the JSON body holds its code and message.\<close>

definition error_status :: "goerr \<Rightarrow> int" where
  "error_status e = (case e of AppErr c _ _ \<Rightarrow> int (app_status c) | _ \<Rightarrow> 500)"

definition error_response :: "env \<Rightarrow> (string \<times> string list) list \<Rightarrow> goerr \<Rightarrow> http_response" where
  "error_response E hs e =
     \<lparr>hr_status = error_status e, hr_headers = AList.update ''Content-Type'' [''application/json''] hs,
      hr_body = error_text E e\<rparr>"

definition mutationMethod :: "string \<Rightarrow> bool" where
  "mutationMethod m \<longleftrightarrow> m \<in> {''POST'', ''PUT'', ''PATCH'', ''DELETE''}"

definition idempotencyScope :: "env \<Rightarrow> http_request \<Rightarrow> string option" where
  "idempotencyScope E r =
     (case hq_organization r of
        Some org \<Rightarrow> Some (''organization:'' @ uuid_string E org)
      | None \<Rightarrow>
          (case hq_principal r of
             None \<Rightarrow> None
           | Some (ty, i) \<Rightarrow> Some (ty @ '':'' @ uuid_string E i)))"

definition maxIdempotentRequestBody :: int where
  "maxIdempotentRequestBody = 1048576"

definition readIdempotentBody :: "http_request \<Rightarrow> goerr + string" where
  "readIdempotentBody r =
     (case hq_body r of
        None \<Rightarrow> Inl (NewBadRequest ''invalid request body'')
      | Some b \<Rightarrow>
          if int (length b) > maxIdempotentRequestBody
          then Inl (AppErr PAYLOAD_TOO_LARGE ''idempotent request body exceeds 1 MiB'' None) else Inr b)"

definition hop_headers :: "string list" where
  "hop_headers = [''Connection'', ''Content-Length'', ''Content-Type'', ''Set-Cookie'', ''Transfer-Encoding'']"

definition replayHeaders :: "(string \<times> string list) list \<Rightarrow> (string \<times> string list) list" where
  "replayHeaders hs = filter (\<lambda>(n, vs). n \<notin> set hop_headers) hs"

definition writeReplay :: "(string \<times> string list) list \<Rightarrow> stored_response \<Rightarrow> http_response" where
  "writeReplay base resp =
     (let hs = add_headers (rs_headers resp) base;
          hs = (if rs_content_type resp \<noteq> [] then AList.update ''Content-Type'' [rs_content_type resp] hs else hs)
      in \<lparr>hr_status = rs_status resp, hr_headers = AList.update ''Idempotency-Replayed'' [''true''] hs,
          hr_body = rs_body resp\<rparr>)"

definition writeIdempotencyError :: "env \<Rightarrow> (string \<times> string list) list \<Rightarrow> goerr \<Rightarrow> http_response" where
  "writeIdempotencyError E base e =
     (if error_is e ErrKeyConflict then error_response E base (NewConflict (error_text E e))
      else if error_is e ErrInProgress
      then error_response E (AList.update ''Retry-After'' [''1''] base) (NewConflict (error_text E e))
      else error_response E base (NewServiceUnavailable ''idempotency service unavailable'' e))"

definition writeBuffered :: "(string \<times> string list) list \<Rightarrow> http_response \<Rightarrow> http_response" where
  "writeBuffered base captured =
     \<lparr>hr_status = hr_status captured, hr_headers = add_headers (hr_headers captured) base, hr_body = hr_body captured\<rparr>"

definition captured_response :: "http_response \<Rightarrow> stored_response" where
  "captured_response c =
     \<lparr>rs_status = hr_status c, rs_body = hr_body c, rs_content_type = get_header ''Content-Type'' (hr_headers c),
      rs_headers = replayHeaders (hr_headers c)\<rparr>"

definition request_of :: "env \<Rightarrow> string \<Rightarrow> string \<Rightarrow> http_request \<Rightarrow> string \<Rightarrow> idempotency_request" where
  "request_of E scope key r body =
     \<lparr>ir_scope = scope, ir_key = key, ir_method = hq_method r, ir_path = hq_uri r, ir_hash = sha256_hex E body\<rparr>"

text \<open>\<open>run\<close> is the next handler; it gets the request with the body that was read.\<close>

definition idem_Handle ::
  "env \<Rightarrow> idempotency_config \<Rightarrow> (http_request \<Rightarrow> (world, http_response) state) \<Rightarrow> http_request \<Rightarrow> (world, http_response) state" where
  "idem_Handle E cfg run r =
     (let key = trim_space (hq_key_header r); base = [(''Idempotency-Key'', [key])]
      in if key = [] \<or> \<not> mutationMethod (hq_method r) then run r
         else if int (length key) > 255
         then State_Monad.return (error_response E [] (NewBadRequest ''idempotency key must not exceed 255 characters''))
         else case idempotencyScope E r of
           None \<Rightarrow> State_Monad.return (error_response E base (AppErr UNAUTHORIZED ''authenticated idempotency scope required'' None))
         | Some scope \<Rightarrow>
             (case readIdempotentBody r of
                Inl e \<Rightarrow> State_Monad.return (error_response E base e)
              | Inr body \<Rightarrow>
                  let req = request_of E scope key r body
                  in do {
                    c \<leftarrow> idem_Claim E cfg req;
                    case c of
                      Inl e \<Rightarrow> State_Monad.return (writeIdempotencyError E base e)
                    | Inr (Replay resp) \<Rightarrow> State_Monad.return (writeReplay base resp)
                    | Inr (Leased lease) \<Rightarrow> do {
                        captured \<leftarrow> run r;
                        _ \<leftarrow> idem_Complete E req lease (captured_response captured);
                        State_Monad.return (writeBuffered base captured)
                      }
                  }))"

section \<open>Recorded responses are final\<close>

definition row_key :: "idempotency_row \<Rightarrow> string \<times> string" where
  "row_key r = (k_scope r, k_key r)"

definition keys_ok :: "db \<Rightarrow> bool" where
  "keys_ok d \<longleftrightarrow> distinct (map row_key (idempotency_keys d))"

definition recorded :: "int \<Rightarrow> db \<Rightarrow> idempotency_row set" where
  "recorded T d = {r \<in> set (idempotency_keys d). k_status r = Done \<and> T < k_expires_at r}"

text \<open>Up to time \<open>T\<close>: keys stay unique and the responses recorded beyond \<open>T\<close> stay as they are.\<close>

definition responses_kept :: "int \<Rightarrow> world \<Rightarrow> world \<Rightarrow> bool" where
  "responses_kept T w w' \<longleftrightarrow> (keys_ok (database w) \<longrightarrow>
     keys_ok (database w') \<and> recorded T (database w) \<subseteq> recorded T (database w'))"

interpretation response_history: world_history "responses_kept T" for T
  by unfold_locales (auto simp: responses_kept_def)

lemma keyed_row_key: "keyed scope key r \<longleftrightarrow> row_key r = (scope, key)"
  by (auto simp: keyed_def row_key_def)

lemma find_keyed:
  assumes "keys_ok d" and "find (keyed scope key) (idempotency_keys d) = Some r"
  shows "r \<in> set (idempotency_keys d)" "keyed scope key r"
    "\<And>x. x \<in> set (idempotency_keys d) \<Longrightarrow> keyed scope key x \<Longrightarrow> x = r"
proof -
  show r: "r \<in> set (idempotency_keys d)" "keyed scope key r" using assms(2) by (auto simp: find_Some_iff)
  show "x = r" if "x \<in> set (idempotency_keys d)" "keyed scope key x" for x
    using assms(1) that r by (auto simp: keys_ok_def keyed_row_key distinct_map inj_on_def)
qed

lemma keyed_fresh:
  assumes "find (keyed scope key) (idempotency_keys d) = None"
  shows "(scope, key) \<notin> row_key ` set (idempotency_keys d)"
  using assms unfolding find_None_iff keyed_row_key by (metis imageE)

lemma keys_ok_update:
  assumes "keys_ok d" and "\<And>r. P r \<Longrightarrow> row_key (f r) = row_key r"
  shows "keys_ok (d\<lparr>idempotency_keys := update_where P f (idempotency_keys d)\<rparr>)"
proof -
  have "map row_key (update_where P f (idempotency_keys d)) = map row_key (idempotency_keys d)"
    using assms(2) by (simp add: update_where_def)
  with assms(1) show ?thesis by (simp add: keys_ok_def)
qed

lemma claim_kept:
  assumes "ClaimIdempotencyKey scope key m p h locked expires now d = Inr (r, d')" and "now \<le> T" and "keys_ok d"
  shows "keys_ok d' \<and> recorded T d \<subseteq> recorded T d'"
proof (cases "find (keyed scope key) (idempotency_keys d)")
  case None
  with assms(1) have d': "d' = d\<lparr>idempotency_keys := idempotency_keys d @ [r]\<rparr>" "row_key r = (scope, key)"
    by (auto simp: ClaimIdempotencyKey_def Let_def row_key_def split: if_splits)
  with keyed_fresh [OF None] assms(3) show ?thesis by (auto simp: keys_ok_def recorded_def)
next
  case (Some old)
  note F = find_keyed [OF assms(3) Some]
  from assms(1) Some have c: "key_claimable m p h now old"
    and d': "d' = d\<lparr>idempotency_keys := update_where (keyed scope key) (\<lambda>_. r) (idempotency_keys d)\<rparr>"
    and k: "row_key r = row_key old"
    by (auto simp: ClaimIdempotencyKey_def Let_def row_key_def split: if_splits)
  have "keys_ok d'" unfolding d' by (rule keys_ok_update [OF assms(3)]) (use F(2) k in \<open>simp add: keyed_row_key\<close>)
  moreover have "x \<in> set (idempotency_keys d')" if "x \<in> recorded T d" for x
  proof -
    have x: "x \<in> set (idempotency_keys d)" "k_status x = Done" "T < k_expires_at x"
      using that by (simp_all add: recorded_def)
    have "\<not> keyed scope key x" using F(3) [OF x(1)] c x(2,3) assms(2) by (auto simp: key_claimable_def)
    with x(1) show ?thesis by (force simp: d' set_update_where)
  qed
  ultimately show ?thesis by (auto simp: recorded_def)
qed

lemma complete_kept:
  assumes "CompleteIdempotencyKey resp scope key m p h lease now d = Inr (r, d')" and "keys_ok d"
  shows "keys_ok d' \<and> recorded T d \<subseteq> recorded T d'"
proof -
  let ?P = "\<lambda>r. keyed scope key r \<and> same_request m p h r \<and> k_status r = Processing \<and> k_locked_until r = lease"
  have d': "d' = d\<lparr>idempotency_keys := update_where ?P (completed_row resp now) (idempotency_keys d)\<rparr>"
    using assms(1) by (auto simp: CompleteIdempotencyKey_def elim!: update_one_Inr split: sum.splits prod.splits if_splits)
  have "keys_ok d'" unfolding d' by (rule keys_ok_update [OF assms(2)]) (simp add: completed_row_def row_key_def)
  moreover have "x \<in> set (idempotency_keys d')" if "x \<in> recorded T d" for x
    using that by (force simp: d' set_update_where recorded_def)
  ultimately show ?thesis by (auto simp: recorded_def)
qed

lemma delete_kept:
  assumes "now \<le> T" and "keys_ok d"
  shows "keys_ok (snd (DeleteExpiredIdempotencyKeys now d)) \<and>
    recorded T d \<subseteq> recorded T (snd (DeleteExpiredIdempotencyKeys now d))"
  using assms by (auto simp: DeleteExpiredIdempotencyKeys_def keys_ok_def recorded_def distinct_map
      intro: inj_on_subset)

section \<open>The service keeps recorded responses\<close>

lemma statement_kept:
  assumes "\<And>x d'. q now d = Inr (x, d') \<Longrightarrow> keys_ok d \<Longrightarrow> keys_ok d' \<and> recorded T d \<subseteq> recorded T d'"
  shows "keys_ok d \<Longrightarrow> keys_ok (snd (statement q now d)) \<and> recorded T d \<subseteq> recorded T (snd (statement q now d))"
  using assms by (auto simp: statement_def split: sum.split)

lemma idem_service_moves:
  assumes "response_history.rely T E" and "\<forall>t. clock E t \<le> T"
  shows "response_history.moves T (idem_Claim E cfg req)" "response_history.moves T (idem_Complete E req lease resp)"
    "response_history.moves T (idem_DeleteExpired E)"
proof -
  have step: "response_history.moves T (exec E f)"
    if "\<And>t d. keys_ok d \<Longrightarrow> keys_ok (snd (f (clock E t) d)) \<and> recorded T d \<subseteq> recorded T (snd (f (clock E t) d))"
    for f :: "int \<Rightarrow> db \<Rightarrow> (goerr + 'z) \<times> db"
    using assms(1) that
    by (intro response_history.exec_moves_timed) (simp_all add: responses_kept_def)
  have claim: "response_history.moves T (exec E (statement (ClaimIdempotencyKey sc k m p h l x)))" for sc k m p h l x
    by (rule step, rule statement_kept) (use assms(2) in \<open>auto dest: claim_kept\<close>)
  have complete: "response_history.moves T (exec E (statement (CompleteIdempotencyKey rs sc k m p h l)))" for rs sc k m p h l
    by (rule step, rule statement_kept) (auto dest: complete_kept)
  show "response_history.moves T (idem_Claim E cfg req)"
    unfolding idem_Claim_def idem_repo_Claim_def Let_def
    by (intro response_history.moves_intros response_history.query_moves claim assms(1))
  show "response_history.moves T (idem_Complete E req lease resp)"
    unfolding idem_Complete_def by (intro response_history.moves_intros complete)
  show "response_history.moves T (idem_DeleteExpired E)"
    unfolding idem_DeleteExpired_def
    by (rule step) (simp add: case_prod_unfold delete_kept [OF assms(2) [THEN spec]])
qed

lemma cleanup_moves:
  assumes "response_history.rely T E" and "\<forall>t. clock E t \<le> T"
  shows "response_history.moves T (cleanup_Run E n)"
  by (induction n; subst cleanup_Run.simps)
     (auto intro!: response_history.moves_intros idem_service_moves assms)

lemma idem_Handle_moves:
  assumes "response_history.rely T E" and "\<forall>t. clock E t \<le> T" and "\<And>r. response_history.moves T (run r)"
  shows "response_history.moves T (idem_Handle E cfg run r)"
  unfolding idem_Handle_def Let_def
  by (intro response_history.moves_intros idem_service_moves assms(3) assms(1,2); simp split: claim.split)
     (intro conjI allI impI response_history.moves_intros idem_service_moves assms)

section \<open>Fault-free requests\<close>

text \<open>The request reaches the claim: it is a mutation with a usable key, a scope and a body.\<close>

definition keyed_request :: "env \<Rightarrow> http_request \<Rightarrow> idempotency_request \<Rightarrow> bool" where
  "keyed_request E r req \<longleftrightarrow>
     (\<exists>scope body. trim_space (hq_key_header r) \<noteq> [] \<and> mutationMethod (hq_method r) \<and>
        int (length (trim_space (hq_key_header r))) \<le> 255 \<and> idempotencyScope E r = Some scope \<and>
        readIdempotentBody r = Inr body \<and> req = request_of E scope (trim_space (hq_key_header r)) r body)"

definition base_headers :: "http_request \<Rightarrow> (string \<times> string list) list" where
  "base_headers r = [(''Idempotency-Key'', [trim_space (hq_key_header r)])]"

lemma idem_Handle_keyed:
  assumes "keyed_request E r req"
  shows "idem_Handle E cfg run r = State_Monad.bind (idem_Claim E cfg req) (\<lambda>c. case c of
      Inl e \<Rightarrow> State_Monad.return (writeIdempotencyError E (base_headers r) e)
    | Inr (Replay resp) \<Rightarrow> State_Monad.return (writeReplay (base_headers r) resp)
    | Inr (Leased lease) \<Rightarrow> State_Monad.bind (run r) (\<lambda>captured.
        State_Monad.bind (idem_Complete E req lease (captured_response captured)) (\<lambda>_.
          State_Monad.return (writeBuffered (base_headers r) captured))))"
  using assms unfolding base_headers_def by (auto simp: idem_Handle_def keyed_request_def Let_def)

text \<open>What the claim decides from the row of the key.\<close>

lemma claim_existing:
  assumes "quiet E" and "find (keyed (ir_scope req) (ir_key req)) (idempotency_keys (database w)) = Some row"
    and "\<not> key_claimable (ir_method req) (ir_path req) (ir_hash req) (clock E (tick w)) row"
  shows "run_state (idem_Claim E cfg req) w =
    (if \<not> same_request (ir_method req) (ir_path req) (ir_hash req) row then Inl ErrKeyConflict
     else if k_status row \<noteq> Done then Inl ErrInProgress else Inr (Replay (stored_of row)),
     w\<lparr>tick := Suc (Suc (tick w))\<rparr>)"
  using assms
  by (simp add: idem_Claim_def idem_repo_Claim_def statement_def ClaimIdempotencyKey_def GetIdempotencyKey_def
      select_one_def Let_def)

text \<open>A new key is leased until the lock times out.\<close>

definition fresh_row :: "idempotency_request \<Rightarrow> idempotency_config \<Rightarrow> int \<Rightarrow> idempotency_row" where
  "fresh_row req cfg now =
     \<lparr>k_scope = ir_scope req, k_key = ir_key req, k_method = ir_method req, k_path = ir_path req,
      k_request_hash = ir_hash req, k_status = Processing, k_response_status = None, k_response_body = None,
      k_response_content_type = None, k_response_headers = [], k_locked_until = now + go_div (LockTTL cfg) 1000,
      k_completed_at = None, k_expires_at = now + go_div (RecordTTL cfg) 1000, k_created_at = now, k_updated_at = now\<rparr>"

definition config_ok :: "idempotency_config \<Rightarrow> bool" where
  "config_ok cfg \<longleftrightarrow> go_div (LockTTL cfg) 1000 \<le> go_div (RecordTTL cfg) 1000 \<and> 0 < go_div (RecordTTL cfg) 1000"

lemma claim_fresh:
  assumes "quiet E" and "find (keyed (ir_scope req) (ir_key req)) (idempotency_keys (database w)) = None"
    and "length (ir_hash req) = 64" and "config_ok cfg"
  shows "run_state (idem_Claim E cfg req) w =
    (Inr (Leased (clock E (tick w) + go_div (LockTTL cfg) 1000)),
     w\<lparr>tick := Suc (tick w),
       database := (database w)\<lparr>idempotency_keys := idempotency_keys (database w) @ [fresh_row req cfg (clock E (tick w))]\<rparr>\<rparr>)"
  using assms
  by (simp add: idem_Claim_def idem_repo_Claim_def statement_def ClaimIdempotencyKey_def Let_def
      idempotency_checks_def fresh_row_def config_ok_def)

lemma find_snoc: "find P xs = None \<Longrightarrow> find P (xs @ [x]) = (if P x then Some x else None)"
  by (induction xs) (auto split: if_splits)

lemma update_where_snoc: "find P xs = None \<Longrightarrow> update_where P f (xs @ [x]) = xs @ [if P x then f x else x]"
  by (induction xs) (auto simp: update_where_def split: if_splits)

lemma find_None_weaken: "find P xs = None \<Longrightarrow> (\<And>x. Q x \<Longrightarrow> P x) \<Longrightarrow> find Q xs = None"
  by (auto simp: find_None_iff)

lemma complete_fresh:
  assumes "quiet E" and "idempotency_keys (database w) = rows @ [fresh_row req cfg now]"
    and "find (keyed (ir_scope req) (ir_key req)) rows = None" and "length (ir_hash req) = 64" and "config_ok cfg"
    and "100 \<le> rs_status resp" and "rs_status resp \<le> 599" and "clock E (tick w) \<le> now + go_div (RecordTTL cfg) 1000"
  shows "run_state (idem_Complete E req (now + go_div (LockTTL cfg) 1000) resp) w =
    (Inr (), w\<lparr>tick := Suc (tick w), database := (database w)\<lparr>idempotency_keys :=
       rows @ [completed_row resp (clock E (tick w)) (fresh_row req cfg now)]\<rparr>\<rparr>)"
proof -
  let ?P = "\<lambda>r. keyed (ir_scope req) (ir_key req) r \<and> same_request (ir_method req) (ir_path req) (ir_hash req) r \<and>
    k_status r = Processing \<and> k_locked_until r = now + go_div (LockTTL cfg) 1000"
  have none: "find ?P rows = None" by (rule find_None_weaken [OF assms(3)]) simp
  have P: "?P (fresh_row req cfg now)" by (simp add: fresh_row_def keyed_def same_request_def)
  have c: "idempotency_checks (completed_row resp (clock E (tick w)) (fresh_row req cfg now))"
    using assms(4-8) by (simp add: idempotency_checks_def completed_row_def fresh_row_def config_ok_def)
  have "update_one ?P (completed_row resp (clock E (tick w))) (idempotency_keys (database w)) =
      Inr (completed_row resp (clock E (tick w)) (fresh_row req cfg now),
           rows @ [completed_row resp (clock E (tick w)) (fresh_row req cfg now)])"
    using find_snoc [OF none, of "fresh_row req cfg now"] update_where_snoc [OF none, of _ "fresh_row req cfg now"] P
    by (simp add: update_one_def assms(2))
  with c assms(1) show ?thesis
    by (simp add: idem_Complete_def statement_def CompleteIdempotencyKey_def)
qed

lemma stored_completed: "stored_of (completed_row resp now r) = resp"
  by (simp add: stored_of_def completed_row_def)

section \<open>Properties\<close>

text \<open>
  A recorded response is final: until its record expires no request handled by the middleware, no
  completion and no cleanup pass changes or removes it, under any fault and next to other processes
  that do the same; keys stay unique.
\<close>

theorem recorded_response_final:
  assumes "\<forall>t w. responses_kept T w (interference E t w)" and "\<forall>t. clock E t \<le> T"
    and "\<forall>r w. responses_kept T w (snd (run_state (run r) w))"
  shows "responses_kept T w (snd (run_state (idem_Handle E cfg run r) w)) \<and>
    responses_kept T w (snd (run_state (cleanup_Run E n) w))"
proof -
  have run: "response_history.moves T (run r)" for r using assms(3) by (simp add: state_io_rel_def)
  show ?thesis
    by (intro conjI response_history.movesD idem_Handle_moves cleanup_moves run assms(1,2))
qed

definition charge_handler :: "http_request \<Rightarrow> (world, http_response) state" where
  "charge_handler r = State (\<lambda>w. (\<lparr>hr_status = 201, hr_headers = [(''Content-Type'', [''application/json''])], hr_body = ''made''\<rparr>,
     w\<lparr>fs_log := fs_log w @ [''charge'']\<rparr>))"

definition charge_request :: http_request where
  "charge_request = \<lparr>hq_method = ''POST'', hq_uri = ''/v1/calls'', hq_key_header = '' k1 '', hq_organization = Some 1,
     hq_principal = None, hq_body = Some ''body''\<rparr>"

definition charge_key :: idempotency_request where
  "charge_key = \<lparr>ir_scope = ''organization:x'', ir_key = ''k1'', ir_method = ''POST'', ir_path = ''/v1/calls'',
     ir_hash = ''body'' @ replicate 60 (CHR ''0'')\<rparr>"

definition noon_env :: env where
  "noon_env = sample_env\<lparr>clock := (\<lambda>_. 5000000)\<rparr>"

lemma noon_quiet: "quiet noon_env" "clock noon_env t = 5000000" "interference noon_env t w = w"
  by (simp_all add: noon_env_def quiet_def sample_env_def)

theorem recorded_response_final_witness:
  "responses_kept 5000000 empty_world (snd (run_state (cleanup_Run noon_env 2) empty_world))"
  by (rule recorded_response_final [of 5000000 noon_env charge_handler, THEN conjunct2])
     (simp_all add: noon_quiet charge_handler_def responses_kept_def)

text \<open>
  C16: A request that was answered is answered again from the record: the second request with the same
  key, method, path and body gets the captured status, body, content type and headers, whatever handler
  stands behind it, and changes nothing.
\<close>

theorem repeated_request_replayed:
  assumes "quiet E" and "keyed_request E r req" and "config_ok cfg" and "length (ir_hash req) = 64"
    and "find (keyed (ir_scope req) (ir_key req)) (idempotency_keys (database w)) = None"
    and "\<forall>w. idempotency_keys (database (snd (run_state (run r) w))) = idempotency_keys (database w) \<and>
           100 \<le> hr_status (fst (run_state (run r) w)) \<and> hr_status (fst (run_state (run r) w)) \<le> 599"
    and "\<forall>t. clock E t < clock E (tick w) + go_div (RecordTTL cfg) 1000"
    and "run_state (idem_Handle E cfg run r) w = (resp, w1)"
  shows "\<exists>c. resp = writeBuffered (base_headers r) c \<and>
    run_state (idem_Handle E cfg other r) w1 =
      (writeReplay (base_headers r) (captured_response c), w1\<lparr>tick := Suc (Suc (tick w1))\<rparr>)"
proof -
  let ?now = "clock E (tick w)" and ?rows = "idempotency_keys (database w)"
  let ?w0 = "w\<lparr>tick := Suc (tick w), database := (database w)\<lparr>idempotency_keys := ?rows @ [fresh_row req cfg ?now]\<rparr>\<rparr>"
  obtain c w2 where run: "run_state (run r) ?w0 = (c, w2)" by fastforce
  have rows: "idempotency_keys (database w2) = ?rows @ [fresh_row req cfg ?now]"
    and st: "100 \<le> hr_status c" "hr_status c \<le> 599"
    using assms(6) [THEN spec, of ?w0] run by simp_all
  let ?done = "completed_row (captured_response c) (clock E (tick w2)) (fresh_row req cfg ?now)"
  have "run_state (idem_Complete E req (?now + go_div (LockTTL cfg) 1000) (captured_response c)) w2 =
      (Inr (), w2\<lparr>tick := Suc (tick w2), database := (database w2)\<lparr>idempotency_keys := ?rows @ [?done]\<rparr>\<rparr>)"
    by (rule complete_fresh [OF assms(1) rows assms(5,4,3)])
       (use st assms(7) in \<open>simp_all add: captured_response_def less_imp_le\<close>)
  with assms(8) run have resp: "resp = writeBuffered (base_headers r) c"
    and w1: "w1 = w2\<lparr>tick := Suc (tick w2), database := (database w2)\<lparr>idempotency_keys := ?rows @ [?done]\<rparr>\<rparr>"
    by (simp_all add: idem_Handle_keyed [OF assms(2)] claim_fresh [OF assms(1,5,4,3)])
  have d: "keyed (ir_scope req) (ir_key req) ?done" "same_request (ir_method req) (ir_path req) (ir_hash req) ?done"
    "k_status ?done = Done" "k_expires_at ?done = ?now + go_div (RecordTTL cfg) 1000"
    by (simp_all add: completed_row_def fresh_row_def keyed_def same_request_def)
  have "find (keyed (ir_scope req) (ir_key req)) (idempotency_keys (database w1)) = Some ?done"
    using find_snoc [OF assms(5), of ?done] d(1) by (simp add: w1)
  moreover have "\<not> key_claimable (ir_method req) (ir_path req) (ir_hash req) (clock E (tick w1)) ?done"
    using d(3,4) assms(7) by (simp add: key_claimable_def not_le)
  ultimately show ?thesis
    using claim_existing [OF assms(1), of req w1 ?done cfg] d(2,3) resp
    by (intro exI [of _ c]) (simp add: idem_Handle_keyed [OF assms(2)] stored_completed)
qed

lemma charge_keyed: "keyed_request noon_env charge_request charge_key"
proof -
  have "trim_space '' k1 '' = ''k1''" "idempotencyScope noon_env charge_request = Some ''organization:x''"
    "readIdempotentBody charge_request = Inr ''body''"
    "request_of noon_env ''organization:x'' ''k1'' charge_request ''body'' = charge_key"
    by code_simp+
  then show ?thesis
    unfolding keyed_request_def
    by (intro exI [of _ "''organization:x''"] exI [of _ "''body''"])
       (simp add: charge_request_def mutationMethod_def)
qed

theorem repeated_request_replayed_witness:
  "\<exists>c. fst (run_state (idem_Handle noon_env DefaultIdempotencyConfig charge_handler charge_request)
      (snd (run_state (idem_Handle noon_env DefaultIdempotencyConfig charge_handler charge_request) empty_world))) =
    writeReplay (base_headers charge_request) (captured_response c)"
proof -
  obtain resp w1 where run: "run_state (idem_Handle noon_env DefaultIdempotencyConfig charge_handler charge_request) empty_world = (resp, w1)"
    by fastforce
  have "config_ok DefaultIdempotencyConfig" "length (ir_hash charge_key) = 64"
    "go_div (RecordTTL DefaultIdempotencyConfig) 1000 = 86400000000"
    by code_simp+
  with repeated_request_replayed [OF noon_quiet(1) charge_keyed _ _ _ _ _ run, of charge_handler] run show ?thesis
    by (auto simp: charge_handler_def noon_quiet)
qed

text \<open>
  C30: While a request holds the lock of its key no other request with that key runs: the same request is
  told to come back (409 with Retry-After), a different one that the key is taken (409), and the handler
  behind the middleware does not run.
\<close>

theorem concurrent_request_excluded:
  assumes "quiet E" and "keyed_request E r req"
    and "find (keyed (ir_scope req) (ir_key req)) (idempotency_keys (database w)) = Some row"
    and "k_status row = Processing" and "clock E (tick w) < k_locked_until row" and "clock E (tick w) < k_expires_at row"
  shows "run_state (idem_Handle E cfg run r) w =
    (writeIdempotencyError E (base_headers r)
       (if same_request (ir_method req) (ir_path req) (ir_hash req) row then ErrInProgress else ErrKeyConflict),
     w\<lparr>tick := Suc (Suc (tick w))\<rparr>) \<and>
    hr_status (fst (run_state (idem_Handle E cfg run r) w)) = 409"
proof -
  have "\<not> key_claimable (ir_method req) (ir_path req) (ir_hash req) (clock E (tick w)) row"
    using assms(4-6) by (simp add: key_claimable_def)
  note claim = claim_existing [OF assms(1,3) this, of cfg]
  show ?thesis
    using assms(4)
    by (simp add: idem_Handle_keyed [OF assms(2)] claim writeIdempotencyError_def error_response_def error_status_def)
qed

definition locked_world :: world where
  "locked_world = empty_world\<lparr>database := empty_db\<lparr>idempotency_keys := [fresh_row charge_key DefaultIdempotencyConfig 4000000]\<rparr>\<rparr>"

theorem concurrent_request_excluded_witness:
  "hr_status (fst (run_state (idem_Handle noon_env DefaultIdempotencyConfig charge_handler charge_request) locked_world)) = 409"
proof -
  have "k_locked_until (fresh_row charge_key DefaultIdempotencyConfig 4000000) = 304000000"
    "k_expires_at (fresh_row charge_key DefaultIdempotencyConfig 4000000) = 86404000000"
    by code_simp+
  then show ?thesis
    by (intro concurrent_request_excluded [where row = "fresh_row charge_key DefaultIdempotencyConfig 4000000",
          OF noon_quiet(1) charge_keyed, THEN conjunct2])
       (simp_all add: locked_world_def keyed_def fresh_row_def noon_quiet)
qed

text \<open>
  C39: The middleware ignores a failed completion: when recording the response fails (the client has gone
  and cancelled the request context), the repeated request runs the handler a second time as soon as the
  lock of five minutes is over.
\<close>

definition lost_completion_env :: env where
  "lost_completion_env = sample_env\<lparr>fault_at := (\<lambda>t. if t = 1 then FailBefore else NoFault),
     clock := (\<lambda>t. if t < 2 then 0 else 301000000)\<rparr>"

theorem lost_completion_runs_twice:
  "fs_log (snd (run_state
     (do { _ \<leftarrow> idem_Handle lost_completion_env DefaultIdempotencyConfig charge_handler charge_request;
           idem_Handle lost_completion_env DefaultIdempotencyConfig charge_handler charge_request }) empty_world)) =
   [''charge'', ''charge'']"
  by code_simp

end
