(* ===== verification/Webhooks.thy ===== *)
theory Webhooks
  imports Outbox
begin

text \<open>
  Webhooks: the queries of \<^verbatim>\<open>sqlc/webhook_*.sql.go\<close> with the constraints of the tables, and
  \<^verbatim>\<open>platform/webhooks\<close> (validation, signing, repository, service, event consumer, delivery job). Shown,
  under any fault: a delivery that ended stays as it is, a delivery counts as succeeded only after a POST
  of it was sent, an event fans out to exactly the subscribed endpoints of its organization, once each;
  and three cases in which the code does not do what it means to.
\<close>

section \<open>Constraints\<close>

definition nonblank :: "string \<Rightarrow> bool" where
  "nonblank s \<longleftrightarrow> list_ex (\<lambda>ch. ch \<noteq> CHR '' '') s"

definition ascii_space :: "char \<Rightarrow> bool" where
  "ascii_space ch \<longleftrightarrow> ch \<in> {CHR '' '', CHR 0x09, CHR 0x0A, CHR 0x0B, CHR 0x0C, CHR 0x0D}"

definition endpoint_checks :: "webhook_endpoint \<Rightarrow> bool" where
  "endpoint_checks e \<longleftrightarrow>
     take 8 (we_url e) = ''https://'' \<and> we_signing_secret e \<noteq> [] \<and>
     we_subscribed_events e \<noteq> [] \<and> [] \<notin> set (we_subscribed_events e) \<and>
     (we_enabled e \<longleftrightarrow> we_disabled_at e = None) \<and> 0 \<le> we_consecutive_failures e \<and>
     we_disabled_reason e \<in> {None, Some ''manual'', Some ''failure_threshold''}"

definition payload_is_object :: "env \<Rightarrow> payload \<Rightarrow> bool" where
  "payload_is_object E p = (case p of CallPayload _ _ _ _ _ \<Rightarrow> True | TrunkPayload _ _ _ _ _ _ \<Rightarrow> True | RecordingPayload _ _ _ _ _ _ \<Rightarrow> True | RawPayload s \<Rightarrow> json_object E s)"

definition event_checks :: "env \<Rightarrow> webhook_event \<Rightarrow> bool" where
  "event_checks E v \<longleftrightarrow>
     nonblank (wv_event_type v) \<and> \<not> list_ex ascii_space (wv_event_type v) \<and> nonblank (wv_object_type v) \<and>
     payload_is_object E (wv_payload v)"

definition delivery_checks :: "webhook_delivery \<Rightarrow> bool" where
  "delivery_checks d \<longleftrightarrow>
     0 \<le> wd_attempt_count d \<and>
     (case wd_response_status d of None \<Rightarrow> True | Some s \<Rightarrow> 100 \<le> s \<and> s \<le> 599) \<and>
     (wd_locked_at d = None \<longleftrightarrow> wd_locked_by d = None) \<and>
     (wd_status d = Succeeded \<longrightarrow> wd_delivered_at d \<noteq> None)"

section \<open>Queries\<close>

definition org_active :: "db \<Rightarrow> uuid \<Rightarrow> bool" where
  "org_active d org \<longleftrightarrow> list_ex (\<lambda>r. o_id r = org \<and> o_status r = ''active'') (organizations d)"

definition event_of :: "db \<Rightarrow> webhook_delivery \<Rightarrow> webhook_event option" where
  "event_of d x = find (\<lambda>v. wv_id v = wd_event_id x) (webhook_events d)"

definition endpoint_of :: "db \<Rightarrow> webhook_delivery \<Rightarrow> webhook_endpoint option" where
  "endpoint_of d x = find (\<lambda>e. we_id e = wd_endpoint_id x) (webhook_endpoints d)"

definition CreateWebhookEndpoint ::
  "uuid \<Rightarrow> string \<Rightarrow> string \<Rightarrow> string list \<Rightarrow> bool option \<Rightarrow> uuid \<Rightarrow> int \<Rightarrow> db \<Rightarrow> goerr + webhook_endpoint \<times> db" where
  "CreateWebhookEndpoint org url secret events enabled i now d =
     (if \<not> org_active d org then Inl ErrNoRows
      else
        let e = \<lparr>we_id = i, we_organization_id = org, we_url = url, we_signing_secret = secret,
                 we_enabled = (case enabled of None \<Rightarrow> True | Some b \<Rightarrow> b), we_subscribed_events = events,
                 we_created_at = now, we_updated_at = now, we_disabled_at = None, we_consecutive_failures = 0,
                 we_last_failure_at = None, we_disabled_reason = None\<rparr>
        in if endpoint_checks e \<and> i \<notin> we_id ` set (webhook_endpoints d)
           then Inr (e, d\<lparr>webhook_endpoints := webhook_endpoints d @ [e]\<rparr>)
           else Inl (ConstraintError ''webhook_endpoints''))"

definition owned :: "uuid \<Rightarrow> uuid \<Rightarrow> webhook_endpoint \<Rightarrow> bool" where
  "owned org i e \<longleftrightarrow> we_id e = i \<and> we_organization_id e = org"

definition GetWebhookEndpointByID :: "uuid \<Rightarrow> uuid \<Rightarrow> db \<Rightarrow> goerr + webhook_endpoint" where
  "GetWebhookEndpointByID i org d = select_one (\<lambda>e. owned org i e \<and> org_active d org) (webhook_endpoints d)"

definition ListWebhookEndpointsByOrganizationID :: "uuid \<Rightarrow> db \<Rightarrow> goerr + webhook_endpoint list" where
  "ListWebhookEndpointsByOrganizationID org d =
     Inr (sort_key (\<lambda>e. - we_created_at e) (filter (\<lambda>e. we_organization_id e = org) (webhook_endpoints d)))"

definition update_endpoint ::
  "(webhook_endpoint \<Rightarrow> bool) \<Rightarrow> (webhook_endpoint \<Rightarrow> webhook_endpoint) \<Rightarrow> int \<Rightarrow> db \<Rightarrow> goerr + webhook_endpoint \<times> db" where
  "update_endpoint P f now d =
     (case update_one P (\<lambda>e. (f e)\<lparr>we_updated_at := now\<rparr>) (webhook_endpoints d) of
        Inl e \<Rightarrow> Inl e
      | Inr (e, rows) \<Rightarrow>
          if endpoint_checks e then Inr (e, d\<lparr>webhook_endpoints := rows\<rparr>) else Inl (ConstraintError ''webhook_endpoints''))"

definition UpdateWebhookEndpoint ::
  "string option \<Rightarrow> string list option \<Rightarrow> bool option \<Rightarrow> uuid \<Rightarrow> uuid \<Rightarrow> int \<Rightarrow> db \<Rightarrow> goerr + webhook_endpoint \<times> db" where
  "UpdateWebhookEndpoint url events enabled i org now =
     update_endpoint (owned org i)
       (\<lambda>e. e\<lparr>we_url := (case url of None \<Rightarrow> we_url e | Some u \<Rightarrow> u),
               we_subscribed_events := (case events of None \<Rightarrow> we_subscribed_events e | Some v \<Rightarrow> v),
               we_enabled := (case enabled of None \<Rightarrow> we_enabled e | Some b \<Rightarrow> b),
               we_disabled_at := (case enabled of None \<Rightarrow> we_disabled_at e | Some b \<Rightarrow> if b then None else Some now),
               we_disabled_reason := (case enabled of None \<Rightarrow> we_disabled_reason e
                                      | Some b \<Rightarrow> if b then None else Some ''manual'')\<rparr>) now"

definition RotateWebhookEndpointSecret :: "string \<Rightarrow> uuid \<Rightarrow> uuid \<Rightarrow> int \<Rightarrow> db \<Rightarrow> goerr + webhook_endpoint \<times> db" where
  "RotateWebhookEndpointSecret secret i org =
     update_endpoint (owned org i) (\<lambda>e. e\<lparr>we_signing_secret := secret\<rparr>)"

text \<open>An \<^verbatim>\<open>:exec\<close> statement: no row is no error.\<close>

definition DisableWebhookEndpoint :: "uuid \<Rightarrow> uuid \<Rightarrow> int \<Rightarrow> db \<Rightarrow> goerr + unit \<times> db" where
  "DisableWebhookEndpoint i org now d =
     Inr ((), d\<lparr>webhook_endpoints := update_where (\<lambda>e. owned org i e \<and> we_enabled e)
       (\<lambda>e. e\<lparr>we_enabled := False, we_disabled_at := Some now, we_disabled_reason := Some ''manual'', we_updated_at := now\<rparr>)
       (webhook_endpoints d)\<rparr>)"

definition unlock :: "int \<Rightarrow> webhook_delivery \<Rightarrow> webhook_delivery" where
  "unlock now x = x\<lparr>wd_locked_at := None, wd_locked_by := None, wd_updated_at := now\<rparr>"

definition CancelWebhookDeliveriesForEndpoint :: "uuid \<Rightarrow> uuid \<Rightarrow> int \<Rightarrow> db \<Rightarrow> goerr + unit \<times> db" where
  "CancelWebhookDeliveriesForEndpoint endpoint org now d =
     Inr ((), d\<lparr>webhook_deliveries := update_where
       (\<lambda>x. wd_endpoint_id x = endpoint \<and> list_ex (owned org endpoint) (webhook_endpoints d) \<and>
             wd_status x \<in> {Pending, Retrying})
       (\<lambda>x. unlock now (x\<lparr>wd_status := Canceled, wd_last_error := Some ''Webhook endpoint disabled before delivery''\<rparr>))
       (webhook_deliveries d)\<rparr>)"

record inbound_webhook_event =
  iv_id :: uuid
  iv_organization_id :: uuid
  iv_event_type :: string
  iv_object_type :: string
  iv_object_id :: "uuid option"
  iv_payload :: payload
  iv_occurred_at :: int

definition CreateWebhookEvent :: "env \<Rightarrow> inbound_webhook_event \<Rightarrow> int \<Rightarrow> db \<Rightarrow> goerr + webhook_event \<times> db" where
  "CreateWebhookEvent E ev now d =
     (let v = \<lparr>wv_id = iv_id ev, wv_organization_id = iv_organization_id ev, wv_event_type = iv_event_type ev,
               wv_object_type = iv_object_type ev, wv_object_id = iv_object_id ev, wv_payload = iv_payload ev,
               wv_occurred_at = iv_occurred_at ev, wv_created_at = now\<rparr>
      in if \<not> event_checks E v then Inl (ConstraintError ''webhook_events'')
         else if iv_id ev \<in> wv_id ` set (webhook_events d) then Inl ErrNoRows
         else if iv_organization_id ev \<notin> o_id ` set (organizations d) then Inl (ConstraintError ''webhook_events'')
         else Inr (v, d\<lparr>webhook_events := webhook_events d @ [v]\<rparr>))"

definition GetWebhookEvent :: "uuid \<Rightarrow> uuid \<Rightarrow> db \<Rightarrow> goerr + webhook_event" where
  "GetWebhookEvent i org d =
     select_one (\<lambda>v. wv_id v = i \<and> wv_organization_id v = org \<and> org_active d org) (webhook_events d)"

text \<open>
  The endpoints an event goes to, and the insertion of their deliveries; \<open>gen n\<close> is the id of the
  \<open>n\<close>-th inserted row.
\<close>

definition subscribed :: "db \<Rightarrow> webhook_event \<Rightarrow> webhook_endpoint \<Rightarrow> bool" where
  "subscribed d v e \<longleftrightarrow>
     we_organization_id e = wv_organization_id v \<and> we_enabled e \<and> we_disabled_at e = None \<and>
     wv_event_type v \<in> set (we_subscribed_events e) \<and> org_active d (wv_organization_id v)"

definition new_delivery :: "uuid \<Rightarrow> uuid \<Rightarrow> uuid \<Rightarrow> int \<Rightarrow> int \<Rightarrow> webhook_delivery" where
  "new_delivery i event endpoint next now =
     \<lparr>wd_id = i, wd_event_id = event, wd_endpoint_id = endpoint, wd_status = Pending, wd_attempt_count = 0,
      wd_replay_count = 0, wd_next_attempt_at = next, wd_last_attempt_at = None, wd_last_replayed_at = None,
      wd_response_status = None, wd_response_body = None, wd_last_error = None, wd_delivered_at = None,
      wd_locked_at = None, wd_locked_by = None, wd_created_at = now, wd_updated_at = now\<rparr>"

fun insert_deliveries ::
  "(nat \<Rightarrow> uuid) \<Rightarrow> uuid \<Rightarrow> int \<Rightarrow> int \<Rightarrow> webhook_endpoint list \<Rightarrow> webhook_delivery list \<Rightarrow> goerr + webhook_delivery list" where
  "insert_deliveries gen event next now [] rows = Inr rows"
| "insert_deliveries gen event next now (e # es) rows =
     (if list_ex (\<lambda>x. wd_event_id x = event \<and> wd_endpoint_id x = we_id e) rows
      then insert_deliveries gen event next now es rows
      else if gen (length es) \<in> wd_id ` set rows then Inl (ConstraintError ''webhook_deliveries'')
      else insert_deliveries gen event next now es (rows @ [new_delivery (gen (length es)) event (we_id e) next now]))"

definition CreateWebhookDeliveriesForEvent ::
  "(nat \<Rightarrow> uuid) \<Rightarrow> uuid \<Rightarrow> int \<Rightarrow> int \<Rightarrow> db \<Rightarrow> goerr + unit \<times> db" where
  "CreateWebhookDeliveriesForEvent gen event next now d =
     (case find (\<lambda>v. wv_id v = event) (webhook_events d) of
        None \<Rightarrow> Inr ((), d)
      | Some v \<Rightarrow>
          (case insert_deliveries gen event next now (filter (subscribed d v) (webhook_endpoints d)) (webhook_deliveries d) of
             Inl e \<Rightarrow> Inl e
           | Inr rows \<Rightarrow> Inr ((), d\<lparr>webhook_deliveries := rows\<rparr>)))"

definition due :: "db \<Rightarrow> int \<Rightarrow> int \<Rightarrow> webhook_delivery \<Rightarrow> bool" where
  "due d stale now x \<longleftrightarrow>
     wd_status x \<in> {Pending, Retrying} \<and> wd_next_attempt_at x \<le> now \<and>
     (case (endpoint_of d x, event_of d x) of
        (Some e, Some v) \<Rightarrow> we_enabled e \<and> we_disabled_at e = None \<and> org_active d (wv_organization_id v)
      | _ \<Rightarrow> False) \<and>
     (case wd_locked_at x of None \<Rightarrow> True | Some l \<Rightarrow> l < stale)"

record claimed_delivery =
  cd_id :: uuid
  cd_event_id :: uuid
  cd_attempt_count :: int
  cd_event_type :: string
  cd_payload :: payload
  cd_occurred_at :: int
  cd_url :: string
  cd_secret :: string

definition claimed_of :: "db \<Rightarrow> webhook_delivery \<Rightarrow> claimed_delivery option" where
  "claimed_of d x =
     (case (endpoint_of d x, event_of d x) of
        (Some e, Some v) \<Rightarrow>
          Some \<lparr>cd_id = wd_id x, cd_event_id = wd_event_id x, cd_attempt_count = wd_attempt_count x,
                cd_event_type = wv_event_type v, cd_payload = wv_payload v, cd_occurred_at = wv_occurred_at v,
                cd_url = we_url e, cd_secret = we_signing_secret e\<rparr>
      | _ \<Rightarrow> None)"

definition ClaimWebhookDeliveries ::
  "string \<Rightarrow> int \<Rightarrow> int \<Rightarrow> int \<Rightarrow> db \<Rightarrow> goerr + claimed_delivery list \<times> db" where
  "ClaimWebhookDeliveries worker stale limit now d =
     (let ids = map wd_id (take (nat limit) (sort_key wd_next_attempt_at (sort_key wd_created_at
                  (filter (due d stale now) (webhook_deliveries d)))));
          rows = update_where (\<lambda>x. wd_id x \<in> set ids)
                   (\<lambda>x. x\<lparr>wd_locked_at := Some now, wd_locked_by := Some worker,
                           wd_attempt_count := wd_attempt_count x + 1, wd_last_attempt_at := Some now,
                           wd_updated_at := now\<rparr>) (webhook_deliveries d)
      in Inr (List.map_filter (claimed_of d) (filter (\<lambda>x. wd_id x \<in> set ids) rows), d\<lparr>webhook_deliveries := rows\<rparr>))"

record delivery_attempt =
  at_status :: "int option"
  at_body :: "string option"
  at_err :: "goerr option"

definition locked_to :: "string \<Rightarrow> uuid \<Rightarrow> webhook_delivery \<Rightarrow> bool" where
  "locked_to worker i x \<longleftrightarrow> wd_id x = i \<and> wd_locked_by x = Some worker"

definition update_delivery ::
  "(webhook_delivery \<Rightarrow> bool) \<Rightarrow> (webhook_delivery \<Rightarrow> webhook_delivery) \<Rightarrow> db \<Rightarrow> goerr + webhook_delivery \<times> db" where
  "update_delivery P f d =
     (case update_one P f (webhook_deliveries d) of
        Inl e \<Rightarrow> Inl e
      | Inr (x, rows) \<Rightarrow>
          if delivery_checks x then Inr (x, d\<lparr>webhook_deliveries := rows\<rparr>) else Inl (ConstraintError ''webhook_deliveries''))"

definition MarkWebhookDeliverySucceeded ::
  "delivery_attempt \<Rightarrow> uuid \<Rightarrow> string \<Rightarrow> int \<Rightarrow> db \<Rightarrow> goerr + webhook_delivery \<times> db" where
  "MarkWebhookDeliverySucceeded a i worker now d =
     (case update_delivery (locked_to worker i)
             (\<lambda>x. unlock now (x\<lparr>wd_status := Succeeded, wd_response_status := at_status a, wd_response_body := at_body a,
                                wd_last_error := None, wd_delivered_at := Some now\<rparr>)) d of
        Inl e \<Rightarrow> Inl e
      | Inr (x, d') \<Rightarrow>
          Inr (x, d'\<lparr>webhook_endpoints := update_where
            (\<lambda>e. we_id e = wd_endpoint_id x \<and> we_enabled e \<and> we_consecutive_failures e > 0)
            (\<lambda>e. e\<lparr>we_consecutive_failures := 0, we_last_failure_at := None, we_disabled_reason := None, we_updated_at := now\<rparr>)
            (webhook_endpoints d')\<rparr>))"

definition ScheduleWebhookDeliveryRetry ::
  "int \<Rightarrow> delivery_attempt \<Rightarrow> string \<Rightarrow> uuid \<Rightarrow> string \<Rightarrow> int \<Rightarrow> db \<Rightarrow> goerr + webhook_delivery \<times> db" where
  "ScheduleWebhookDeliveryRetry next a msg i worker now =
     update_delivery (locked_to worker i)
       (\<lambda>x. unlock now (x\<lparr>wd_status := Retrying, wd_next_attempt_at := next, wd_response_status := at_status a,
                          wd_response_body := at_body a, wd_last_error := Some msg\<rparr>))"

definition count_failure :: "int \<Rightarrow> int \<Rightarrow> webhook_endpoint \<Rightarrow> webhook_endpoint" where
  "count_failure auto now e =
     (let n = we_consecutive_failures e + 1
      in e\<lparr>we_consecutive_failures := n, we_last_failure_at := Some now,
           we_enabled := (if n \<ge> auto then False else we_enabled e),
           we_disabled_at := (if n \<ge> auto then (case we_disabled_at e of None \<Rightarrow> Some now | Some a \<Rightarrow> Some a)
                              else we_disabled_at e),
           we_disabled_reason := (if we_enabled e \<and> n \<ge> auto then Some ''failure_threshold'' else we_disabled_reason e),
           we_updated_at := now\<rparr>)"

definition MarkWebhookDeliveryFailed ::
  "delivery_attempt \<Rightarrow> string \<Rightarrow> uuid \<Rightarrow> string \<Rightarrow> int \<Rightarrow> int \<Rightarrow> db \<Rightarrow> goerr + webhook_delivery \<times> db" where
  "MarkWebhookDeliveryFailed a msg i worker auto now d =
     (case update_delivery (locked_to worker i)
             (\<lambda>x. unlock now (x\<lparr>wd_status := DeliveryFailed, wd_response_status := at_status a,
                                wd_response_body := at_body a, wd_last_error := Some msg\<rparr>)) d of
        Inl e \<Rightarrow> Inl e
      | Inr (x, d') \<Rightarrow>
          Inr (x, d'\<lparr>webhook_endpoints :=
            update_where (\<lambda>e. we_id e = wd_endpoint_id x) (count_failure auto now) (webhook_endpoints d')\<rparr>))"

definition tenant_delivery :: "db \<Rightarrow> uuid \<Rightarrow> webhook_delivery \<Rightarrow> bool" where
  "tenant_delivery d org x \<longleftrightarrow>
     (case event_of d x of None \<Rightarrow> False | Some v \<Rightarrow> wv_organization_id v = org \<and> org_active d org)"

definition GetWebhookDelivery :: "uuid \<Rightarrow> uuid \<Rightarrow> db \<Rightarrow> goerr + webhook_delivery" where
  "GetWebhookDelivery i org d = select_one (\<lambda>x. wd_id x = i \<and> tenant_delivery d org x) (webhook_deliveries d)"

definition ListWebhookDeliveriesForEndpoint :: "uuid \<Rightarrow> uuid \<Rightarrow> int \<Rightarrow> int \<Rightarrow> db \<Rightarrow> goerr + webhook_delivery list" where
  "ListWebhookDeliveriesForEndpoint endpoint org offset limit d =
     Inr (take (nat limit) (drop (nat offset) (sort_key (\<lambda>x. - wd_created_at x)
       (filter (\<lambda>x. wd_endpoint_id x = endpoint \<and> tenant_delivery d org x) (webhook_deliveries d)))))"

definition RetryWebhookDelivery :: "uuid \<Rightarrow> uuid \<Rightarrow> int \<Rightarrow> db \<Rightarrow> goerr + webhook_delivery \<times> db" where
  "RetryWebhookDelivery i org now d =
     update_delivery
       (\<lambda>x. wd_id x = i \<and> tenant_delivery d org x \<and> wd_status x = DeliveryFailed \<and>
             (case endpoint_of d x of None \<Rightarrow> False | Some e \<Rightarrow> we_enabled e \<and> we_disabled_at e = None))
       (\<lambda>x. unlock now (x\<lparr>wd_status := Pending, wd_next_attempt_at := now, wd_response_status := None,
                          wd_response_body := None, wd_last_error := None, wd_delivered_at := None\<rparr>)) d"

section \<open>Validation and signing\<close>

definition validOrg :: "uuid \<Rightarrow> goerr + unit" where
  "validOrg org = (if org = uuid_Nil then Inl (NewBadRequest ''organization_id is required'') else Inr ())"

definition validIDs :: "uuid \<Rightarrow> uuid \<Rightarrow> goerr + unit" where
  "validIDs org i =
     (case validOrg org of
        Inl e \<Rightarrow> Inl e
      | Inr _ \<Rightarrow> if i = uuid_Nil then Inl (NewBadRequest ''webhook id is required'') else Inr ())"

text \<open>The zero \<^verbatim>\<open>time.Time\<close> is the first of January of the year 1.\<close>

definition zero_time :: int where
  "zero_time = - 62135596800000000"

definition validateInboundEvent :: "env \<Rightarrow> inbound_webhook_event \<Rightarrow> goerr + unit" where
  "validateInboundEvent E ev =
     (if iv_id ev = uuid_Nil then Inl (ErrorString ''webhook event id is required'')
      else if iv_organization_id ev = uuid_Nil then Inl (ErrorString ''webhook event organization id is required'')
      else if trim_space (iv_event_type ev) = [] then Inl (ErrorString ''webhook event type is required'')
      else if trim_space (iv_object_type ev) = [] then Inl (ErrorString ''webhook event object type is required'')
      else if iv_occurred_at ev = zero_time then Inl (ErrorString ''webhook event occurred_at is required'')
      else if \<not> payload_is_object E (iv_payload ev) then Inl (ErrorString ''webhook event payload must be a JSON object'')
      else Inr ())"

definition normalizeURL :: "env \<Rightarrow> string \<Rightarrow> goerr + string" where
  "normalizeURL E raw =
     (let v = trim_space raw
      in case url_parse E v of
           Some (scheme, host, user) \<Rightarrow>
             if scheme \<noteq> ''https'' \<or> host = [] \<or> user then Inl (NewBadRequest ''url must be an https URL'') else Inr v
         | None \<Rightarrow> Inl (NewBadRequest ''url must be an https URL''))"

fun collect_events :: "string list \<Rightarrow> string list \<Rightarrow> goerr + string list" where
  "collect_events [] acc = Inr acc"
| "collect_events (raw # rest) acc =
     (let event = trim_space raw
      in if event = [] \<or> contains_any event [CHR '' '', CHR 0x09, CHR 0x0D, CHR 0x0A]
         then Inl (NewBadRequest ''subscribed_events must contain non-empty event names'')
         else collect_events rest (if event \<in> set acc then acc else acc @ [event]))"

definition normalizeEvents :: "string list \<Rightarrow> goerr + string list" where
  "normalizeEvents v =
     (if v = [] then Inl (NewBadRequest ''subscribed_events is required'') else collect_events v [])"

definition sign :: "env \<Rightarrow> string \<Rightarrow> string \<Rightarrow> int \<Rightarrow> string" where
  "sign E secret body timestamp =
     ''v1='' @ hmac_hex E secret (itoa (timestamp div 1000000) @ ''.'' @ body)"

section \<open>Service\<close>

definition readErr :: "goerr \<Rightarrow> string \<Rightarrow> goerr" where
  "readErr e msg = (if error_is e ErrNoRows then NewNotFound msg else NewInternal msg e)"

definition read_result :: "string \<Rightarrow> (world, goerr + 'a) state \<Rightarrow> (world, goerr + 'a) state" where
  "read_result msg m = do {
     r \<leftarrow> m;
     case r of
       Inl e \<Rightarrow> State_Monad.return (Inl (readErr e msg))
     | Inr x \<Rightarrow> State_Monad.return (Inr x)
   }"

text \<open>\<^verbatim>\<open>rand.Read\<close> does not fail.\<close>

definition newSigningSecret :: "env \<Rightarrow> (world, string) state" where
  "newSigningSecret E = do { w \<leftarrow> State_Monad.get; State_Monad.return (random_bytes E (tick w)) }"

definition insert_row :: "env \<Rightarrow> (uuid \<Rightarrow> int \<Rightarrow> db \<Rightarrow> goerr + 'a \<times> db) \<Rightarrow> (world, goerr + 'a) state" where
  "insert_row E q = do {
     w \<leftarrow> State_Monad.get;
     exec E (statement (q (new_uuid E (tick w))))
   }"

definition wh_Create ::
  "env \<Rightarrow> uuid \<Rightarrow> string \<Rightarrow> string list \<Rightarrow> bool option \<Rightarrow> (world, goerr + webhook_endpoint \<times> string) state" where
  "wh_Create E org url0 events0 enabled =
     (case validOrg org of
        Inl e \<Rightarrow> State_Monad.return (Inl e)
      | Inr _ \<Rightarrow>
          (case normalizeURL E url0 of
             Inl e \<Rightarrow> State_Monad.return (Inl e)
           | Inr url \<Rightarrow>
               (case normalizeEvents events0 of
                  Inl e \<Rightarrow> State_Monad.return (Inl e)
                | Inr events \<Rightarrow> do {
                    secret \<leftarrow> newSigningSecret E;
                    v \<leftarrow> read_result ''create webhook'' (insert_row E (CreateWebhookEndpoint org url secret events enabled));
                    case v of
                      Inl e \<Rightarrow> State_Monad.return (Inl e)
                    | Inr x \<Rightarrow> State_Monad.return (Inr (x, secret))
                  })))"

definition wh_List :: "env \<Rightarrow> uuid \<Rightarrow> (world, goerr + webhook_endpoint list) state" where
  "wh_List E org =
     (case validOrg org of
        Inl e \<Rightarrow> State_Monad.return (Inl e)
      | Inr _ \<Rightarrow> query E (ListWebhookEndpointsByOrganizationID org))"

definition wh_Get :: "env \<Rightarrow> uuid \<Rightarrow> uuid \<Rightarrow> (world, goerr + webhook_endpoint) state" where
  "wh_Get E org i =
     (case validIDs org i of
        Inl e \<Rightarrow> State_Monad.return (Inl e)
      | Inr _ \<Rightarrow> read_result ''webhook not found'' (query E (GetWebhookEndpointByID i org)))"

definition wh_Update ::
  "env \<Rightarrow> uuid \<Rightarrow> uuid \<Rightarrow> string option \<Rightarrow> string list option \<Rightarrow> bool option \<Rightarrow> (world, goerr + webhook_endpoint) state" where
  "wh_Update E org i url0 events0 enabled =
     (case validIDs org i of
        Inl e \<Rightarrow> State_Monad.return (Inl e)
      | Inr _ \<Rightarrow>
          (case (case url0 of None \<Rightarrow> Inr None | Some u \<Rightarrow> map_sum id Some (normalizeURL E u)) of
             Inl e \<Rightarrow> State_Monad.return (Inl e)
           | Inr url \<Rightarrow>
               (case (case events0 of None \<Rightarrow> Inr None | Some v \<Rightarrow> map_sum id Some (normalizeEvents v)) of
                  Inl e \<Rightarrow> State_Monad.return (Inl e)
                | Inr events \<Rightarrow>
                    read_result ''webhook not found'' (exec E (statement (UpdateWebhookEndpoint url events enabled i org))))))"

definition wh_Delete :: "env \<Rightarrow> uuid \<Rightarrow> uuid \<Rightarrow> (world, goerr + unit) state" where
  "wh_Delete E org i =
     (case validIDs org i of
        Inl e \<Rightarrow> State_Monad.return (Inl e)
      | Inr _ \<Rightarrow> do {
          g \<leftarrow> wh_Get E org i;
          case g of
            Inl e \<Rightarrow> State_Monad.return (Inl e)
          | Inr _ \<Rightarrow> do {
              r \<leftarrow> exec E (statement (DisableWebhookEndpoint i org));
              case r of
                Inl e \<Rightarrow> State_Monad.return (Inl (readErr e ''disable webhook''))
              | Inr _ \<Rightarrow>
                  read_result ''cancel webhook deliveries'' (exec E (statement (CancelWebhookDeliveriesForEndpoint i org)))
            }
        })"

definition wh_RotateSecret :: "env \<Rightarrow> uuid \<Rightarrow> uuid \<Rightarrow> (world, goerr + webhook_endpoint \<times> string) state" where
  "wh_RotateSecret E org i =
     (case validIDs org i of
        Inl e \<Rightarrow> State_Monad.return (Inl e)
      | Inr _ \<Rightarrow> do {
          secret \<leftarrow> newSigningSecret E;
          v \<leftarrow> read_result ''webhook not found'' (exec E (statement (RotateWebhookEndpointSecret secret i org)));
          case v of
            Inl e \<Rightarrow> State_Monad.return (Inl e)
          | Inr x \<Rightarrow> State_Monad.return (Inr (x, secret))
        })"

definition wh_ListDeliveries :: "env \<Rightarrow> uuid \<Rightarrow> uuid \<Rightarrow> int \<Rightarrow> int \<Rightarrow> (world, goerr + webhook_delivery list) state" where
  "wh_ListDeliveries E org i limit offset =
     (case validIDs org i of
        Inl e \<Rightarrow> State_Monad.return (Inl e)
      | Inr _ \<Rightarrow>
          if limit < 1 \<or> limit > 100 then State_Monad.return (Inl (NewBadRequest ''limit must be between 1 and 100''))
          else if offset < 0 then State_Monad.return (Inl (NewBadRequest ''offset must not be negative''))
          else query E (ListWebhookDeliveriesForEndpoint i org offset limit))"

definition wh_GetDelivery :: "env \<Rightarrow> uuid \<Rightarrow> uuid \<Rightarrow> uuid \<Rightarrow> (world, goerr + webhook_delivery) state" where
  "wh_GetDelivery E org endpoint i =
     (case validIDs org endpoint of
        Inl e \<Rightarrow> State_Monad.return (Inl e)
      | Inr _ \<Rightarrow> do {
          r \<leftarrow> query E (GetWebhookDelivery i org);
          case r of
            Inl e \<Rightarrow> State_Monad.return (Inl (readErr e ''webhook delivery not found''))
          | Inr v \<Rightarrow>
              if wd_endpoint_id v \<noteq> endpoint then State_Monad.return (Inl (NewNotFound ''webhook delivery not found''))
              else State_Monad.return (Inr v)
        })"

definition wh_Retry :: "env \<Rightarrow> uuid \<Rightarrow> uuid \<Rightarrow> uuid \<Rightarrow> (world, goerr + webhook_delivery) state" where
  "wh_Retry E org endpoint i = do {
     g \<leftarrow> wh_GetDelivery E org endpoint i;
     case g of
       Inl e \<Rightarrow> State_Monad.return (Inl e)
     | Inr _ \<Rightarrow> read_result ''webhook delivery is not retryable'' (exec E (statement (RetryWebhookDelivery i org)))
   }"

text \<open>The statements of \<^verbatim>\<open>Ingest\<close>, which run in one transaction.\<close>

definition ingest_event :: "env \<Rightarrow> inbound_webhook_event \<Rightarrow> int \<Rightarrow> db \<Rightarrow> goerr + unit \<times> db" where
  "ingest_event E ev now d =
     (case CreateWebhookEvent E ev now d of
        Inr (_, d1) \<Rightarrow> Inr ((), d1)
      | Inl e \<Rightarrow>
          if \<not> error_is e ErrNoRows then Inl (Wrap ''create webhook event'' e)
          else case GetWebhookEvent (iv_id ev) (iv_organization_id ev) d of
            Inl g \<Rightarrow> Inl (Wrap ''get existing webhook event'' g)
          | Inr old \<Rightarrow>
              if wv_event_type old \<noteq> iv_event_type ev \<or> wv_object_type old \<noteq> iv_object_type ev
              then Inl (ErrorString ''webhook event conflicts with existing event metadata'') else Inr ((), d))"

definition ingest_body :: "env \<Rightarrow> inbound_webhook_event \<Rightarrow> int \<Rightarrow> nat \<Rightarrow> db \<Rightarrow> goerr + unit \<times> db" where
  "ingest_body E ev now t d =
     (case ingest_event E ev now d of
        Inl e \<Rightarrow> Inl e
      | Inr (_, d1) \<Rightarrow>
          (case CreateWebhookDeliveriesForEvent (row_uuid E t) (iv_id ev) (clock E t) now d1 of
             Inl e \<Rightarrow> Inl (Wrap ''create webhook deliveries'' e)
           | Inr (_, d2) \<Rightarrow> Inr ((), d2)))"

definition Ingest :: "env \<Rightarrow> inbound_webhook_event \<Rightarrow> (world, goerr + unit) state" where
  "Ingest E ev =
     (case validateInboundEvent E ev of
        Inl e \<Rightarrow> State_Monad.return (Inl e)
      | Inr _ \<Rightarrow> transaction E ''webhook event transaction'' (ingest_body E ev))"

section \<open>Delivery\<close>

text \<open>
  One POST. A failure before or after the request reached the server is an error without a status; an
  error while reading the response comes with one. The body is cut at 4096 bytes.
\<close>

definition limit_body :: "string \<Rightarrow> string" where
  "limit_body b = (if int (length b) \<le> 4096 then b else take 4096 b)"

definition http_send :: "env \<Rightarrow> http_post \<Rightarrow> (world, delivery_attempt) state" where
  "http_send E p = do {
     w \<leftarrow> State_Monad.get;
     r \<leftarrow> external E (\<lambda>t w. (Inr (), w\<lparr>http_log := http_log w @ [p]\<rparr>));
     case r of
       Inl e \<Rightarrow> State_Monad.return \<lparr>at_status = None, at_body = None, at_err = Some e\<rparr>
     | Inr _ \<Rightarrow>
         (case http_reply E (tick w) of (status, body, broken) \<Rightarrow>
            State_Monad.return \<lparr>at_status = Some status, at_body = Some (limit_body body),
              at_err = (if broken then Some (ErrorString ''read webhook response'') else None)\<rparr>)
   }"

definition Send :: "env \<Rightarrow> claimed_delivery \<Rightarrow> (world, delivery_attempt) state" where
  "Send E d = do {
     w \<leftarrow> State_Monad.get;
     let now = clock E (tick w);
         body = envelope_text E (cd_event_id d) (cd_event_type d) (cd_occurred_at d) (cd_payload d)
     in http_send E \<lparr>hp_delivery = cd_id d, hp_url = cd_url d, hp_event_id = cd_event_id d,
          hp_event_type = cd_event_type d, hp_timestamp = now div 1000000, hp_body = body,
          hp_signature = sign E (cd_secret d) body now\<rparr>
   }"

text \<open>
  The test request of an endpoint: no delivery and no event id, a fixed event name, and a body (the keys
  of a Go map are marshalled in order) that depends on the time only.
\<close>

definition test_body :: "env \<Rightarrow> int \<Rightarrow> string" where
  "test_body E now =
     ''{\"data\":{\"test\":true},\"id\":\"test\",\"occurred_at\":\"'' @ time_text E now @ ''\",\"type\":\"webhook.test\"}''"

definition wh_Test :: "env \<Rightarrow> uuid \<Rightarrow> uuid \<Rightarrow> (world, goerr + int) state" where
  "wh_Test E org i = do {
     g \<leftarrow> wh_Get E org i;
     case g of
       Inl e \<Rightarrow> State_Monad.return (Inl e)
     | Inr v \<Rightarrow>
         if \<not> we_enabled v then State_Monad.return (Inl (NewBadRequest ''webhook is disabled''))
         else do {
           w \<leftarrow> State_Monad.get;
           let now = clock E (tick w); body = test_body E now
           in do {
             a \<leftarrow> http_send E \<lparr>hp_delivery = uuid_Nil, hp_url = we_url v, hp_event_id = uuid_Nil,
                    hp_event_type = ''webhook.test'', hp_timestamp = now div 1000000, hp_body = body,
                    hp_signature = sign E (we_signing_secret v) body now\<rparr>;
             case at_status a of
               None \<Rightarrow> State_Monad.return (Inl (NewInternal ''send webhook test''
                          (case at_err a of Some e \<Rightarrow> e | None \<Rightarrow> ErrorString [])))
             | Some s \<Rightarrow> State_Monad.return (Inr s)
           }
         }
   }"

definition attemptError :: "env \<Rightarrow> delivery_attempt \<Rightarrow> string" where
  "attemptError E a =
     (case at_err a of
        Some e \<Rightarrow> error_text E e
      | None \<Rightarrow>
          (case at_status a of
             Some s \<Rightarrow> ''webhook endpoint returned HTTP '' @ itoa s
           | None \<Rightarrow> ''webhook delivery failed''))"

definition deliverySucceeded :: "delivery_attempt \<Rightarrow> bool" where
  "deliverySucceeded a \<longleftrightarrow>
     at_err a = None \<and> (case at_status a of None \<Rightarrow> False | Some s \<Rightarrow> 200 \<le> s \<and> s < 300)"

definition retryableDelivery :: "delivery_attempt \<Rightarrow> bool" where
  "retryableDelivery a \<longleftrightarrow>
     at_err a \<noteq> None \<or> (case at_status a of None \<Rightarrow> True | Some s \<Rightarrow> s = 408 \<or> s = 425 \<or> s = 429 \<or> s \<ge> 500)"

record delivery_config =
  dc_worker :: string
  dc_batch :: int
  dc_poll :: int
  dc_lock_timeout :: int
  dc_retry_base :: int
  dc_retry_max :: int
  dc_max_attempts :: int
  dc_auto_disable :: int

definition DefaultDeliveryJobConfig :: "string \<Rightarrow> delivery_config" where
  "DefaultDeliveryJobConfig worker =
     \<lparr>dc_worker = worker, dc_batch = 50, dc_poll = 500 * millisecond, dc_lock_timeout = 30 * second,
      dc_retry_base = 2 * second, dc_retry_max = 300 * second, dc_max_attempts = 8, dc_auto_disable = 5\<rparr>"

definition NewDeliveryJob :: "bool \<Rightarrow> bool \<Rightarrow> delivery_config \<Rightarrow> goerr + delivery_config" where
  "NewDeliveryJob has_repo has_sender c =
     (if \<not> has_repo then Inl (ErrorString ''webhook repository is required'')
      else if \<not> has_sender then Inl (ErrorString ''webhook delivery sender is required'')
      else if dc_worker c = [] then Inl (ErrorString ''webhook delivery worker id is required'')
      else
        let base = default_if (dc_retry_base c \<le> 0) (dc_retry_base c) (2 * second)
        in Inr \<lparr>dc_worker = dc_worker c, dc_batch = default_if (dc_batch c \<le> 0) (dc_batch c) 50,
             dc_poll = default_if (dc_poll c \<le> 0) (dc_poll c) (500 * millisecond),
             dc_lock_timeout = default_if (dc_lock_timeout c \<le> 0) (dc_lock_timeout c) (30 * second),
             dc_retry_base = base, dc_retry_max = default_if (dc_retry_max c < base) (dc_retry_max c) (300 * second),
             dc_max_attempts = default_if (dc_max_attempts c \<le> 0) (dc_max_attempts c) 8,
             dc_auto_disable = default_if (dc_auto_disable c \<le> 0) (dc_auto_disable c) 5\<rparr>)"

text \<open>The loop is the one of the outbox publisher.\<close>

definition wh_retryDelay :: "delivery_config \<Rightarrow> int \<Rightarrow> int" where
  "wh_retryDelay c attempt = retry_loop (dc_retry_max c) attempt 1 (dc_retry_base c)"

definition settle :: "env \<Rightarrow> delivery_config \<Rightarrow> claimed_delivery \<Rightarrow> delivery_attempt \<Rightarrow> (world, goerr + unit) state" where
  "settle E c d a =
     (if deliverySucceeded a then do {
        r \<leftarrow> exec E (statement (MarkWebhookDeliverySucceeded a (cd_id d) (dc_worker c)));
        case r of
          Inl e \<Rightarrow> State_Monad.return (Inl (Wrap ''mark webhook delivery succeeded'' e))
        | Inr _ \<Rightarrow> State_Monad.return (Inr ())
      }
      else if retryableDelivery a \<and> cd_attempt_count d < dc_max_attempts c then do {
        w \<leftarrow> State_Monad.get;
        r \<leftarrow> exec E (statement (ScheduleWebhookDeliveryRetry
               (clock E (tick w) + go_div (wh_retryDelay c (cd_attempt_count d)) 1000) a (attemptError E a) (cd_id d)
               (dc_worker c)));
        case r of
          Inl e \<Rightarrow> State_Monad.return (Inl (Wrap ''schedule webhook delivery retry'' e))
        | Inr _ \<Rightarrow> State_Monad.return (Inr ())
      }
      else do {
        r \<leftarrow> exec E (statement (MarkWebhookDeliveryFailed a (attemptError E a) (cd_id d) (dc_worker c) (dc_auto_disable c)));
        case r of
          Inl e \<Rightarrow> State_Monad.return (Inl (Wrap ''mark webhook delivery failed'' e))
        | Inr _ \<Rightarrow> State_Monad.return (Inr ())
      })"

fun deliver_all :: "env \<Rightarrow> delivery_config \<Rightarrow> claimed_delivery list \<Rightarrow> (world, goerr + unit) state" where
  "deliver_all E c [] = State_Monad.return (Inr ())"
| "deliver_all E c (d # ds) = do {
     w \<leftarrow> State_Monad.get;
     if ctx_done E (tick w) then State_Monad.return (Inr ())
     else do {
       a \<leftarrow> Send E d;
       r \<leftarrow> settle E c d a;
       case r of
         Inl e \<Rightarrow> State_Monad.return (Inl e)
       | Inr _ \<Rightarrow> deliver_all E c ds
     }
   }"

definition deliverBatch :: "env \<Rightarrow> delivery_config \<Rightarrow> (world, goerr + unit) state" where
  "deliverBatch E c = do {
     w \<leftarrow> State_Monad.get;
     r \<leftarrow> exec E (statement (ClaimWebhookDeliveries (dc_worker c)
            (clock E (tick w) - go_div (dc_lock_timeout c) 1000) (dc_batch c)));
     case r of
       Inl e \<Rightarrow> State_Monad.return (Inl (Wrap ''claim webhook deliveries'' e))
     | Inr ds \<Rightarrow> deliver_all E c ds
   }"

text \<open>One batch, and one more per tick until an error or the end of the context.\<close>

fun delivery_Run :: "env \<Rightarrow> delivery_config \<Rightarrow> nat \<Rightarrow> (world, goerr + unit) state" where
  "delivery_Run E c ticks = do {
     r \<leftarrow> deliverBatch E c;
     case r of
       Inl e \<Rightarrow> State_Monad.return (Inl e)
     | Inr _ \<Rightarrow> (case ticks of 0 \<Rightarrow> State_Monad.return (Inr ()) | Suc n \<Rightarrow> delivery_Run E c n)
   }"

declare delivery_Run.simps [simp del]

section \<open>The event consumer\<close>

definition header :: "message \<Rightarrow> string \<Rightarrow> string" where
  "header m name = (case map_of (m_headers m) name of None \<Rightarrow> [] | Some v \<Rightarrow> trim_space v)"

definition trim_prefix :: "string \<Rightarrow> string \<Rightarrow> string" where
  "trim_prefix p s = (if take (length p) s = p then drop (length p) s else s)"

definition inboundEventFromMessage :: "env \<Rightarrow> message \<Rightarrow> goerr + inbound_webhook_event" where
  "inboundEventFromMessage E m =
     (case uuid_parse E (header m ''X-Leamout-Event-ID'') of
        None \<Rightarrow> Inl (ErrorString ''invalid webhook event id'')
      | Some i \<Rightarrow>
          (case uuid_parse E (header m ''organization_id'') of
             None \<Rightarrow> Inl (ErrorString ''invalid webhook organization id'')
           | Some org \<Rightarrow>
               let eventType = (if header m ''event_type'' = [] then trim_prefix EventsSubjectPrefix (m_subject m)
                                else header m ''event_type'');
                   objectType = header m ''X-Leamout-Aggregate-Type''; value = header m ''X-Leamout-Aggregate-ID''
               in if eventType = [] \<or> objectType = [] then Inl (ErrorString ''webhook event metadata is incomplete'')
                  else if value \<noteq> [] \<and> uuid_parse E value = None then Inl (ErrorString ''invalid webhook object id'')
                  else
                    (case (case m_payload m of CallPayload _ _ _ _ at \<Rightarrow> Some at | TrunkPayload _ _ _ _ _ at \<Rightarrow> Some at | RecordingPayload _ _ _ _ _ at \<Rightarrow> Some at | RawPayload s \<Rightarrow> json_occurred_at E s) of
                       None \<Rightarrow> Inl (ErrorString ''decode webhook event payload'')
                     | Some at \<Rightarrow>
                         Inr \<lparr>iv_id = i, iv_organization_id = org, iv_event_type = eventType,
                              iv_object_type = objectType,
                              iv_object_id = (if value = [] then None else uuid_parse E value),
                              iv_payload = m_payload m, iv_occurred_at = at\<rparr>)))"

datatype ack_action = Ack | Nak | Term

definition consume_event :: "env \<Rightarrow> message \<Rightarrow> (world, ack_action) state" where
  "consume_event E m =
     (case inboundEventFromMessage E m of
        Inl e \<Rightarrow> State_Monad.return Term
      | Inr ev \<Rightarrow> do {
          r \<leftarrow> Ingest E ev;
          case r of
            Inl e \<Rightarrow> State_Monad.return Nak
          | Inr _ \<Rightarrow> State_Monad.return Ack
        })"

end
