(* ===== verification/WebhookGuarantees.thy ===== *)
theory WebhookGuarantees
  imports Webhooks
begin

text \<open>
  What the webhooks promise, under any fault and any interference that keeps to the same discipline:
  ended deliveries stay as they are, a delivery counts as succeeded only after a POST of it went out, a
  message fans out to exactly the subscribed endpoints, once each; and the cases where they do not do
  what they are meant to: an endpoint cannot be created disabled, and a slow batch is sent twice.
\<close>

section \<open>Deliveries keep their place\<close>

definition open_delivery :: "webhook_delivery \<Rightarrow> bool" where
  "open_delivery x \<longleftrightarrow> wd_status x \<in> {Pending, Retrying}"

definition delivery_key :: "webhook_delivery \<Rightarrow> uuid \<times> uuid" where
  "delivery_key x = (wd_event_id x, wd_endpoint_id x)"

definition delivery_table :: "webhook_delivery list \<Rightarrow> bool" where
  "delivery_table rows \<longleftrightarrow>
     distinct (map wd_id rows) \<and> distinct (map delivery_key rows) \<and>
     (\<forall>x \<in> set rows. wd_locked_by x \<noteq> None \<longrightarrow> open_delivery x)"

text \<open>How a delivery changes when the statuses in \<open>T\<close> are final.\<close>

definition delivery_evolves :: "delivery_status set \<Rightarrow> webhook_delivery \<Rightarrow> webhook_delivery \<Rightarrow> bool" where
  "delivery_evolves T x y \<longleftrightarrow>
     wd_id y = wd_id x \<and> delivery_key y = delivery_key x \<and> wd_created_at y = wd_created_at x \<and>
     wd_attempt_count x \<le> wd_attempt_count y \<and> (wd_status x \<in> T \<longrightarrow> y = x)"

definition deliveries_evolve :: "delivery_status set \<Rightarrow> world \<Rightarrow> world \<Rightarrow> bool" where
  "deliveries_evolve T w w' \<longleftrightarrow>
     (delivery_table (webhook_deliveries (database w)) \<longrightarrow>
      delivery_table (webhook_deliveries (database w')) \<and>
      grows (delivery_evolves T) (webhook_deliveries (database w)) (webhook_deliveries (database w')))"

lemma delivery_evolves_refl: "delivery_evolves T x x"
  by (simp add: delivery_evolves_def)

lemma delivery_evolves_trans: "delivery_evolves T x y \<Longrightarrow> delivery_evolves T y z \<Longrightarrow> delivery_evolves T x z"
  by (auto simp: delivery_evolves_def)

interpretation delivery_history: world_history "deliveries_evolve T" for T
proof unfold_locales
  show "deliveries_evolve T s s" for s
    by (simp add: deliveries_evolve_def grows_refl delivery_evolves_refl)
  show "deliveries_evolve T s t \<Longrightarrow> deliveries_evolve T t u \<Longrightarrow> deliveries_evolve T s u" for s t u
    unfolding deliveries_evolve_def by (blast intro: grows_trans delivery_evolves_trans)
  show "deliveries_evolve T w (w'\<lparr>tick := n\<rparr>) \<longleftrightarrow> deliveries_evolve T w w'" for w w' n
    by (simp add: deliveries_evolve_def)
qed

text \<open>The two ways the table changes: an update of some rows, and new rows.\<close>

lemma evolve_update:
  assumes rows: "webhook_deliveries d = update_where P f (webhook_deliveries (database w))"
    and keep: "\<And>x. wd_id (f x) = wd_id x" "\<And>x. delivery_key (f x) = delivery_key x"
    and step: "\<And>x. x \<in> set (webhook_deliveries (database w)) \<Longrightarrow> delivery_table (webhook_deliveries (database w)) \<Longrightarrow> P x \<Longrightarrow>
      delivery_evolves T x (f x) \<and> (wd_locked_by (f x) \<noteq> None \<longrightarrow> open_delivery (f x))"
  shows "deliveries_evolve T w (w\<lparr>database := d\<rparr>)"
  unfolding deliveries_evolve_def
proof (intro impI conjI)
  assume t: "delivery_table (webhook_deliveries (database w))"
  show "delivery_table (webhook_deliveries (database (w\<lparr>database := d\<rparr>)))"
    using t step [OF _ t] unfolding delivery_table_def
    by (simp add: rows map_update_where keep) (auto elim!: in_update_whereE)
  show "grows (delivery_evolves T) (webhook_deliveries (database w)) (webhook_deliveries (database (w\<lparr>database := d\<rparr>)))"
    using step [OF _ t] by (auto simp: rows grows_def delivery_evolves_refl)
qed

lemma evolve_same:
  "webhook_deliveries d = webhook_deliveries (database w) \<Longrightarrow> deliveries_evolve T w (w\<lparr>database := d\<rparr>)"
  by (simp add: deliveries_evolve_def grows_refl delivery_evolves_refl)

lemma insert_deliveries_table:
  assumes "insert_deliveries gen event next now es rows = Inr rows'"
  shows "\<exists>new. rows' = rows @ new \<and> (delivery_table rows \<longrightarrow> delivery_table rows') \<and>
    (\<forall>x \<in> set new. wd_status x = Pending)"
  using assms
proof (induction gen event "next" now es rows rule: insert_deliveries.induct)
  case (2 gen event "next" now e es rows)
  let ?n = "new_delivery (gen (length es)) event (we_id e) next now"
  show ?case
  proof (cases "list_ex (\<lambda>x. wd_event_id x = event \<and> wd_endpoint_id x = we_id e) rows")
    case False
    with "2.prems" have fresh: "gen (length es) \<notin> wd_id ` set rows"
      and rest: "insert_deliveries gen event next now es (rows @ [?n]) = Inr rows'"
      by (auto split: if_splits)
    have t: "delivery_table rows \<longrightarrow> delivery_table (rows @ [?n])"
      using fresh False
      by (auto simp: delivery_table_def new_delivery_def delivery_key_def list_ex_iff open_delivery_def)
    obtain new where "rows' = (rows @ [?n]) @ new" "delivery_table (rows @ [?n]) \<longrightarrow> delivery_table rows'"
      "\<forall>x \<in> set new. wd_status x = Pending"
      using "2.IH"(2) [OF False _ rest] fresh by blast
    with t show ?thesis by (intro exI [of _ "?n # new"]) (simp add: new_delivery_def)
  qed (use 2 in auto)
qed auto

lemma evolve_insert:
  assumes "CreateWebhookDeliveriesForEvent gen event next now d = Inr (u, d')"
    and "webhook_deliveries d = webhook_deliveries (database w)"
  shows "deliveries_evolve T w (w\<lparr>database := d'\<rparr>)"
  using assms
  by (auto simp: CreateWebhookDeliveriesForEvent_def deliveries_evolve_def split: option.splits sum.splits
      dest!: insert_deliveries_table simp: grows_refl grows_append delivery_evolves_refl)

section \<open>The statements\<close>

text \<open>The statuses that end a delivery, and the claims on them that each statement respects.\<close>

definition ended :: "delivery_status set" where
  "ended = {Succeeded, DeliveryFailed, Canceled}"

lemma update_delivery_rows:
  assumes "update_delivery P f d = Inr (x, d')"
  obtains r where "r \<in> set (webhook_deliveries d)" "P r" "x = f r"
    "d' = d\<lparr>webhook_deliveries := update_where P f (webhook_deliveries d)\<rparr>"
  using assms that unfolding update_delivery_def
  by (auto split: sum.splits if_splits elim!: update_one_Inr)

lemma mark_evolves:
  assumes "webhook_deliveries d = update_where (locked_to worker i) (\<lambda>x. unlock now (f x)) (webhook_deliveries (database w))"
    and "\<And>x. wd_id (f x) = wd_id x" "\<And>x. delivery_key (f x) = delivery_key x"
      "\<And>x. wd_created_at (f x) = wd_created_at x" "\<And>x. wd_attempt_count (f x) = wd_attempt_count x"
    and "T \<subseteq> ended"
  shows "deliveries_evolve T w (w\<lparr>database := d\<rparr>)"
  using assms(1)
proof (rule evolve_update)
  fix x assume "x \<in> set (webhook_deliveries (database w))" "delivery_table (webhook_deliveries (database w))" "locked_to worker i x"
  then have "open_delivery x" by (auto simp: delivery_table_def locked_to_def)
  with assms(6) show "delivery_evolves T x (unlock now (f x)) \<and>
      (wd_locked_by (unlock now (f x)) \<noteq> None \<longrightarrow> open_delivery (unlock now (f x)))"
    by (auto simp: delivery_evolves_def unlock_def open_delivery_def ended_def delivery_key_def assms
        assms(3) [unfolded delivery_key_def, simplified])
qed (use assms in \<open>simp_all add: unlock_def delivery_key_def\<close>)

lemma mark_statements_evolve:
  assumes "T \<subseteq> ended"
  shows "MarkWebhookDeliverySucceeded a i worker now (database w) = Inr (x, d) \<Longrightarrow> deliveries_evolve T w (w\<lparr>database := d\<rparr>)"
    and "ScheduleWebhookDeliveryRetry next a msg i worker now (database w) = Inr (x, d) \<Longrightarrow> deliveries_evolve T w (w\<lparr>database := d\<rparr>)"
    and "MarkWebhookDeliveryFailed a msg i worker auto now (database w) = Inr (x, d) \<Longrightarrow> deliveries_evolve T w (w\<lparr>database := d\<rparr>)"
  unfolding MarkWebhookDeliverySucceeded_def ScheduleWebhookDeliveryRetry_def MarkWebhookDeliveryFailed_def
  by (auto split: sum.splits elim!: update_delivery_rows
      intro!: mark_evolves [OF _ _ _ _ _ assms] simp: delivery_key_def)

lemma cancel_evolves:
  assumes "CancelWebhookDeliveriesForEndpoint endpoint org now (database w) = Inr (u, d)" and "T \<subseteq> ended"
  shows "deliveries_evolve T w (w\<lparr>database := d\<rparr>)"
  using assms
  by (intro evolve_update [where P = "\<lambda>x. wd_endpoint_id x = endpoint \<and> list_ex (owned org endpoint) (webhook_endpoints (database w)) \<and>
        wd_status x \<in> {Pending, Retrying}" and f = "\<lambda>x. unlock now (x\<lparr>wd_status := Canceled,
        wd_last_error := Some ''Webhook endpoint disabled before delivery''\<rparr>)"])
     (auto simp: CancelWebhookDeliveriesForEndpoint_def unlock_def delivery_key_def delivery_evolves_def ended_def)

lemma retry_evolves:
  assumes "RetryWebhookDelivery i org now (database w) = Inr (x, d)" and "T \<subseteq> {Succeeded, Canceled}"
  shows "deliveries_evolve T w (w\<lparr>database := d\<rparr>)"
  using assms(1) unfolding RetryWebhookDelivery_def
proof (rule update_delivery_rows)
  assume d: "d = (database w)\<lparr>webhook_deliveries := update_where
       (\<lambda>x. wd_id x = i \<and> tenant_delivery (database w) org x \<and> wd_status x = DeliveryFailed \<and>
          (case endpoint_of (database w) x of None \<Rightarrow> False | Some e \<Rightarrow> we_enabled e \<and> we_disabled_at e = None))
       (\<lambda>x. unlock now (x\<lparr>wd_status := Pending, wd_next_attempt_at := now, wd_response_status := None,
            wd_response_body := None, wd_last_error := None, wd_delivered_at := None\<rparr>)) (webhook_deliveries (database w))\<rparr>"
  show ?thesis
    unfolding d by (rule evolve_update, simp) (use assms(2) in \<open>auto simp: unlock_def delivery_key_def delivery_evolves_def\<close>)
qed

lemma claim_evolves:
  assumes "ClaimWebhookDeliveries worker stale limit now (database w) = Inr (ds, d)" and "T \<subseteq> ended"
  shows "deliveries_evolve T w (w\<lparr>database := d\<rparr>)"
proof -
  let ?rows = "webhook_deliveries (database w)"
  define ids where "ids = map wd_id (take (nat limit) (sort_key wd_next_attempt_at (sort_key wd_created_at
    (filter (due (database w) stale now) ?rows))))"
  have rows: "webhook_deliveries d = update_where (\<lambda>x. wd_id x \<in> set ids)
      (\<lambda>x. x\<lparr>wd_locked_at := Some now, wd_locked_by := Some worker, wd_attempt_count := wd_attempt_count x + 1,
             wd_last_attempt_at := Some now, wd_updated_at := now\<rparr>) ?rows"
    using assms(1) by (auto simp: ClaimWebhookDeliveries_def Let_def ids_def)
  have "open_delivery x \<and> wd_status x \<notin> T" if "x \<in> set ?rows" "delivery_table ?rows" "wd_id x \<in> set ids" for x
  proof -
    from that(3) obtain y where "y \<in> set (filter (due (database w) stale now) ?rows)" "wd_id y = wd_id x"
      by (auto simp: ids_def dest!: in_set_takeD)
    with that(1,2) have "y = x" "due (database w) stale now y"
      by (auto simp: delivery_table_def distinct_map dest: inj_onD)
    with assms(2) show ?thesis by (auto simp: due_def open_delivery_def ended_def)
  qed
  then show ?thesis
    by (intro evolve_update [OF rows]) (simp_all add: delivery_key_def delivery_evolves_def open_delivery_def)
qed

section \<open>Operations\<close>

text \<open>What the processes run: the requests of the API, the consumer of events, the delivery job.\<close>

datatype webhook_op =
    OpCreate uuid string "string list" "bool option"
  | OpUpdate uuid uuid "string option" "string list option" "bool option"
  | OpDelete uuid uuid
  | OpRotateSecret uuid uuid
  | OpTest uuid uuid
  | OpRetry uuid uuid uuid
  | OpConsume message
  | OpDeliver delivery_config nat

fun webhook_step :: "env \<Rightarrow> webhook_op \<Rightarrow> (world, unit) state" where
  "webhook_step E (OpCreate org url events enabled) = wh_Create E org url events enabled \<bind> (\<lambda>_. State_Monad.return ())"
| "webhook_step E (OpUpdate org i url events enabled) = wh_Update E org i url events enabled \<bind> (\<lambda>_. State_Monad.return ())"
| "webhook_step E (OpDelete org i) = wh_Delete E org i \<bind> (\<lambda>_. State_Monad.return ())"
| "webhook_step E (OpRotateSecret org i) = wh_RotateSecret E org i \<bind> (\<lambda>_. State_Monad.return ())"
| "webhook_step E (OpTest org i) = wh_Test E org i \<bind> (\<lambda>_. State_Monad.return ())"
| "webhook_step E (OpRetry org endpoint i) = wh_Retry E org endpoint i \<bind> (\<lambda>_. State_Monad.return ())"
| "webhook_step E (OpConsume m) = consume_event E m \<bind> (\<lambda>_. State_Monad.return ())"
| "webhook_step E (OpDeliver c ticks) = delivery_Run E c ticks \<bind> (\<lambda>_. State_Monad.return ())"

fun webhook_steps :: "env \<Rightarrow> webhook_op list \<Rightarrow> (world, unit) state" where
  "webhook_steps E [] = State_Monad.return ()"
| "webhook_steps E (op # ops) = webhook_step E op \<bind> (\<lambda>_. webhook_steps E ops)"

definition is_retry :: "webhook_op \<Rightarrow> bool" where
  "is_retry op = (case op of OpRetry _ _ _ \<Rightarrow> True | _ \<Rightarrow> False)"

text \<open>
  A relation that the statements respect, each in the context of its call; the operations move along
  every such relation. The job's marks come after the attempt that they record.
\<close>

locale webhook_platform = world_history R for R :: "world \<Rightarrow> world \<Rightarrow> bool" +
  fixes E :: env
  assumes endpoints: "webhook_deliveries d = webhook_deliveries (database w) \<Longrightarrow> R w (w\<lparr>database := d\<rparr>)"
    and posts: "R w (w\<lparr>http_log := http_log w @ [p]\<rparr>)"
    and cancels: "CancelWebhookDeliveriesForEndpoint i org now (database w) = Inr (u, d) \<Longrightarrow> R w (w\<lparr>database := d\<rparr>)"
    and inserts: "CreateWebhookDeliveriesForEvent gen event nx now d = Inr (v, d') \<Longrightarrow>
      webhook_deliveries d = webhook_deliveries (database w) \<Longrightarrow> R w (w\<lparr>database := d'\<rparr>)"
    and claims: "ClaimWebhookDeliveries worker stale limit now (database w) = Inr (ds, d) \<Longrightarrow> R w (w\<lparr>database := d\<rparr>)"
    and retries: "ScheduleWebhookDeliveryRetry nx a msg j worker now (database w) = Inr (x, d) \<Longrightarrow> R w (w\<lparr>database := d\<rparr>)"
    and failures: "MarkWebhookDeliveryFailed a msg j worker auto now (database w) = Inr (x, d) \<Longrightarrow> R w (w\<lparr>database := d\<rparr>)"
    and deliveries: "rely E \<Longrightarrow> run_state (Send E cd) w = (a, w1) \<Longrightarrow> deliverySucceeded a \<Longrightarrow>
      R w1 (snd (run_state (exec E (statement (MarkWebhookDeliverySucceeded a (cd_id cd) worker))) w1))"
begin

lemma endpoint_statement:
  assumes "rely E" and "\<And>now d x d'. q now d = Inr (x, d') \<Longrightarrow> webhook_deliveries d' = webhook_deliveries d"
  shows "moves (exec E (statement q))"
  by (rule statement_moves [OF assms(1)]) (auto intro!: endpoints dest: assms(2))

lemma update_endpoint_rows:
  "update_endpoint P f now d = Inr (x, d') \<Longrightarrow> webhook_deliveries d' = webhook_deliveries d"
  by (auto simp: update_endpoint_def split: sum.splits if_splits)

lemma read_result_moves: "moves m \<Longrightarrow> moves (read_result msg m)"
  unfolding read_result_def by (intro moves_intros)

lemma wh_Create_moves: "rely E \<Longrightarrow> moves (wh_Create E org url events enabled)"
  unfolding wh_Create_def newSigningSecret_def insert_row_def
  by (intro moves_intros read_result_moves endpoint_statement)
     (auto simp: CreateWebhookEndpoint_def Let_def split: if_splits)

lemma wh_Get_moves: "rely E \<Longrightarrow> moves (wh_Get E org i)"
  unfolding wh_Get_def by (intro moves_intros read_result_moves query_moves)

lemma wh_Update_moves: "rely E \<Longrightarrow> moves (wh_Update E org i url events enabled)"
  unfolding wh_Update_def
  by (intro moves_intros read_result_moves endpoint_statement)
     (auto simp: UpdateWebhookEndpoint_def dest: update_endpoint_rows)

lemma wh_RotateSecret_moves: "rely E \<Longrightarrow> moves (wh_RotateSecret E org i)"
  unfolding wh_RotateSecret_def newSigningSecret_def
  by (intro moves_intros read_result_moves endpoint_statement)
     (auto simp: RotateWebhookEndpointSecret_def dest: update_endpoint_rows)

lemma wh_Delete_moves: "rely E \<Longrightarrow> moves (wh_Delete E org i)"
  unfolding wh_Delete_def
  by (intro moves_intros read_result_moves wh_Get_moves endpoint_statement statement_moves cancels)
     (auto simp: DisableWebhookEndpoint_def)

lemma http_send_moves: "rely E \<Longrightarrow> moves (http_send E p)"
  unfolding http_send_def by (intro moves_intros external_moves) (simp_all add: posts)

lemma wh_Test_moves: "rely E \<Longrightarrow> moves (wh_Test E org i)"
  unfolding wh_Test_def Let_def by (intro moves_intros wh_Get_moves http_send_moves)

lemma Send_moves: "rely E \<Longrightarrow> moves (Send E cd)"
  unfolding Send_def Let_def by (intro moves_intros http_send_moves)

lemma ingest_moves:
  assumes "ingest_body E ev now t (database w) = Inr (x, d)"
  shows "R w (w\<lparr>database := d\<rparr>)"
proof -
  have "webhook_deliveries d1 = webhook_deliveries (database w)"
    if "ingest_event E ev now (database w) = Inr (v, d1)" for v d1
    using that by (auto simp: ingest_event_def CreateWebhookEvent_def Let_def split: sum.splits if_splits)
  with assms show ?thesis
    by (auto simp: ingest_body_def split: sum.splits intro: inserts)
qed

lemma consume_event_moves: "rely E \<Longrightarrow> moves (consume_event E m)"
  unfolding consume_event_def Ingest_def
  by (intro moves_intros transaction_moves ingest_moves)

lemma settle_moves_from:
  assumes "rely E" and "run_state (Send E cd) w = (a, w1)"
  shows "R w1 (snd (run_state (settle E c cd a) w1))"
proof (cases "deliverySucceeded a")
  case True
  have mark: "R w1 (snd (run_state (exec E (statement (MarkWebhookDeliverySucceeded a (cd_id cd) (dc_worker c)))) w1))"
    by (rule deliveries [OF assms True])
  show ?thesis
    unfolding settle_def using True
    by (simp only: if_True) (rule bind_moves_from, use mark in \<open>auto intro!: movesD moves_intros\<close>)
next
  case False
  have "moves (exec E (statement (ScheduleWebhookDeliveryRetry nx a msg (cd_id cd) worker)))" for nx msg worker
    using assms(1) retries by (rule statement_moves)
  moreover have "moves (exec E (statement (MarkWebhookDeliveryFailed a msg (cd_id cd) worker auto)))" for msg worker auto
    using assms(1) failures by (rule statement_moves)
  ultimately have "moves (settle E c cd a)"
    unfolding settle_def using False by (auto intro!: moves_intros)
  then show ?thesis by (rule movesD)
qed

lemma deliver_all_moves:
  assumes rely: "rely E" shows "moves (deliver_all E c cds)"
proof (induction cds)
  case (Cons cd cds)
  have "R w (snd (run_state (Send E cd \<bind> (\<lambda>a. settle E c cd a \<bind> (\<lambda>r. case r of
      Inl e \<Rightarrow> State_Monad.return (Inl e) | Inr _ \<Rightarrow> deliver_all E c cds))) w))" for w
  proof (rule bind_moves_from, rule conjI)
    fix a w1 assume run: "run_state (Send E cd) w = (a, w1)"
    show "R w w1" using movesD [OF Send_moves [OF rely], of w cd] run by simp
    have rest: "moves (case r of Inl e \<Rightarrow> State_Monad.return (Inl e) | Inr _ \<Rightarrow> deliver_all E c cds)" for r :: "goerr + unit"
      by (intro moves_intros Cons.IH)
    show "R w1 (snd (run_state (settle E c cd a \<bind> (\<lambda>r. case r of
        Inl e \<Rightarrow> State_Monad.return (Inl e) | Inr _ \<Rightarrow> deliver_all E c cds)) w1))"
      by (rule bind_moves_from) (use settle_moves_from [OF rely run, of c] movesD [OF rest] in auto)
  qed
  then have "moves (Send E cd \<bind> (\<lambda>a. settle E c cd a \<bind> (\<lambda>r. case r of
      Inl e \<Rightarrow> State_Monad.return (Inl e) | Inr _ \<Rightarrow> deliver_all E c cds)))"
    by (simp add: state_io_rel_def)
  then show ?case unfolding deliver_all.simps by (intro bind_moves [OF get_moves] if_moves return_moves)
qed (simp add: return_moves)

lemma delivery_Run_moves:
  assumes rely: "rely E" shows "moves (delivery_Run E c ticks)"
proof (induction ticks)
  case 0
  show ?case
    by (subst delivery_Run.simps)
       (auto simp: deliverBatch_def intro!: moves_intros statement_moves deliver_all_moves rely intro: claims)
next
  case (Suc n)
  then show ?case
    by (subst delivery_Run.simps)
       (auto simp: deliverBatch_def intro!: moves_intros statement_moves deliver_all_moves rely intro: claims)
qed

lemma webhook_step_moves:
  assumes "rely E" and "\<not> is_retry op" shows "moves (webhook_step E op)"
  using assms
  by (cases op)
     (auto simp: is_retry_def intro!: bind_moves return_moves wh_Create_moves wh_Update_moves wh_Delete_moves
       wh_RotateSecret_moves wh_Test_moves consume_event_moves delivery_Run_moves)

end

section \<open>Ended deliveries\<close>

lemma evolve_posts: "deliveries_evolve T w (w\<lparr>http_log := l\<rparr>)"
  by (simp add: deliveries_evolve_def grows_refl delivery_evolves_refl)

lemma success_evolves:
  assumes "\<forall>t w. deliveries_evolve T w (interference E t w)" and "T \<subseteq> ended"
  shows "deliveries_evolve T w (snd (run_state (exec E (statement (MarkWebhookDeliverySucceeded a i worker))) w))"
  using assms
  by (intro delivery_history.movesD delivery_history.statement_moves mark_statements_evolve(1))

lemma platform_evolves: "T \<subseteq> ended \<Longrightarrow> webhook_platform (deliveries_evolve T) E"
  by unfold_locales
     (auto intro: evolve_same evolve_posts evolve_insert cancel_evolves claim_evolves mark_statements_evolve success_evolves)

interpretation ended_final: webhook_platform "deliveries_evolve ended" E for E
  by (rule platform_evolves) simp

interpretation sent_final: webhook_platform "deliveries_evolve {Succeeded, Canceled}" E for E
  by (rule platform_evolves) (simp add: ended_def)

lemma wh_Retry_evolves:
  assumes "delivery_history.rely {Succeeded, Canceled} E"
  shows "delivery_history.moves {Succeeded, Canceled} (wh_Retry E org endpoint i)"
  unfolding wh_Retry_def wh_GetDelivery_def using assms
  by (intro delivery_history.moves_intros sent_final.read_result_moves delivery_history.query_moves
      delivery_history.statement_moves retry_evolves) simp_all

lemma webhook_step_evolves:
  assumes "delivery_history.rely {Succeeded, Canceled} E"
  shows "delivery_history.moves {Succeeded, Canceled} (webhook_step E op)"
proof (cases "is_retry op")
  case True
  with assms show ?thesis
    by (cases op) (auto simp: is_retry_def intro!: delivery_history.bind_moves delivery_history.return_moves wh_Retry_evolves)
qed (use assms in \<open>simp add: sent_final.webhook_step_moves\<close>)

section \<open>Succeeded means sent\<close>

definition posted :: "world \<Rightarrow> uuid \<Rightarrow> bool" where
  "posted w i \<longleftrightarrow> (\<exists>p \<in> set (http_log w). hp_delivery p = i)"

definition succeeded_posted :: "world \<Rightarrow> bool" where
  "succeeded_posted w \<longleftrightarrow>
     (\<forall>x \<in> set (webhook_deliveries (database w)). wd_status x = Succeeded \<longrightarrow> posted w (wd_id x))"

definition posts_evolve :: "world \<Rightarrow> world \<Rightarrow> bool" where
  "posts_evolve w w' \<longleftrightarrow>
     set (http_log w) \<subseteq> set (http_log w') \<and> (succeeded_posted w \<longrightarrow> succeeded_posted w')"

lemma posts_evolve_database:
  assumes "\<And>x. x \<in> set (webhook_deliveries d) \<Longrightarrow> wd_status x = Succeeded \<Longrightarrow>
     posted w (wd_id x) \<or> (\<exists>y \<in> set (webhook_deliveries (database w)). wd_id y = wd_id x \<and> wd_status y = Succeeded)"
  shows "posts_evolve w (w\<lparr>database := d\<rparr>)"
  using assms unfolding posts_evolve_def succeeded_posted_def posted_def by fastforce

lemma update_delivery_posts:
  assumes "update_delivery P f (database w) = Inr (x, d)"
    and "\<And>x. wd_status (f x) = Succeeded \<Longrightarrow> P x \<Longrightarrow> posted w (wd_id (f x))"
  shows "posts_evolve w (w\<lparr>database := d\<lparr>webhook_endpoints := es\<rparr>\<rparr>)"
  using assms(1)
  by (elim update_delivery_rows, intro posts_evolve_database)
     (auto elim!: in_update_whereE dest: assms(2))

interpretation post_history: world_history posts_evolve
  by unfold_locales (auto simp: posts_evolve_def succeeded_posted_def posted_def)

lemma success_posts:
  assumes rely: "post_history.rely E" and send: "run_state (Send E cd) w = (a, w1)" and ok: "deliverySucceeded a"
  shows "posts_evolve w1 (snd (run_state (exec E (statement (MarkWebhookDeliverySucceeded a (cd_id cd) worker))) w1))"
proof -
  have sent: "posted w1 (cd_id cd)"
    using send ok
    by (auto simp: Send_def http_send_def external_def Let_def posted_def deliverySucceeded_def
        split: fault.splits prod.splits)
  let ?w = "\<lambda>n. (interference E (tick w1) w1)\<lparr>tick := n\<rparr>"
  let ?q = "statement (MarkWebhookDeliverySucceeded a (cd_id cd) worker)"
  have i: "posts_evolve w1 (?w n)" for n using rely by (simp add: post_history.tick_free)
  have "posts_evolve w1 (?w n\<lparr>database := snd (?q now (database (?w n)))\<rparr>)" for n now
  proof (rule post_history.trans [OF i])
    have "posted (?w n) (cd_id cd)" using i [of n] sent by (auto simp: posts_evolve_def posted_def)
    then have "posts_evolve (?w n) (?w n\<lparr>database := d\<rparr>)"
      if "MarkWebhookDeliverySucceeded a (cd_id cd) worker now (database (?w n)) = Inr (x, d)" for x d
      using that unfolding MarkWebhookDeliverySucceeded_def
      by (auto split: sum.splits intro!: update_delivery_posts simp: unlock_def locked_to_def)
    then show "posts_evolve (?w n) (?w n\<lparr>database := snd (?q now (database (?w n)))\<rparr>)"
      by (auto simp: statement_def post_history.refl split: sum.split)
  qed
  with i show ?thesis by (simp add: exec_def external_def Let_def case_prod_unfold split: fault.split)
qed

interpretation posting: webhook_platform posts_evolve E for E
proof unfold_locales
  fix w d and d' d'' :: db and i org gen event nx now worker stale limit a msg j auto p cd w1
    and x :: webhook_delivery and u v :: unit and ds :: "claimed_delivery list"
  show "webhook_deliveries d = webhook_deliveries (database w) \<Longrightarrow> posts_evolve w (w\<lparr>database := d\<rparr>)"
    by (rule posts_evolve_database) auto
  show "posts_evolve w (w\<lparr>http_log := http_log w @ [p]\<rparr>)"
    by (auto simp: posts_evolve_def succeeded_posted_def posted_def)
  show "CancelWebhookDeliveriesForEndpoint i org now (database w) = Inr (u, d) \<Longrightarrow> posts_evolve w (w\<lparr>database := d\<rparr>)"
    by (rule posts_evolve_database)
       (auto simp: CancelWebhookDeliveriesForEndpoint_def unlock_def elim!: in_update_whereE)
  show "CreateWebhookDeliveriesForEvent gen event nx now d' = Inr (v, d'') \<Longrightarrow>
      webhook_deliveries d' = webhook_deliveries (database w) \<Longrightarrow> posts_evolve w (w\<lparr>database := d''\<rparr>)"
    by (rule posts_evolve_database)
       (auto simp: CreateWebhookDeliveriesForEvent_def split: option.splits sum.splits dest!: insert_deliveries_table)
  show "ClaimWebhookDeliveries worker stale limit now (database w) = Inr (ds, d) \<Longrightarrow> posts_evolve w (w\<lparr>database := d\<rparr>)"
    by (rule posts_evolve_database) (auto simp: ClaimWebhookDeliveries_def Let_def elim!: in_update_whereE)
  show "ScheduleWebhookDeliveryRetry nx a msg j worker now (database w) = Inr (x, d) \<Longrightarrow> posts_evolve w (w\<lparr>database := d\<rparr>)"
    unfolding ScheduleWebhookDeliveryRetry_def
    by (elim update_delivery_rows, rule posts_evolve_database) (auto simp: unlock_def elim!: in_update_whereE)
  show "MarkWebhookDeliveryFailed a msg j worker auto now (database w) = Inr (x, d) \<Longrightarrow> posts_evolve w (w\<lparr>database := d\<rparr>)"
    unfolding MarkWebhookDeliveryFailed_def
    by (auto split: sum.splits intro!: update_delivery_posts simp: unlock_def)
qed (rule success_posts)

lemma wh_Retry_posts:
  assumes "post_history.rely E"
  shows "post_history.moves (wh_Retry E org endpoint i)"
proof -
  have "posts_evolve w (w\<lparr>database := d\<rparr>)" if "RetryWebhookDelivery i org now (database w) = Inr (x, d)" for w d now x
    using that unfolding RetryWebhookDelivery_def
    by (elim update_delivery_rows, intro posts_evolve_database) (auto simp: unlock_def elim!: in_update_whereE)
  with assms show ?thesis
    unfolding wh_Retry_def wh_GetDelivery_def
    by (intro post_history.moves_intros posting.read_result_moves post_history.query_moves
        post_history.statement_moves) simp_all
qed

lemma webhook_step_posts:
  assumes "post_history.rely E"
  shows "post_history.moves (webhook_step E op)"
proof (cases "is_retry op")
  case True
  with assms show ?thesis
    by (cases op) (auto simp: is_retry_def intro!: post_history.bind_moves post_history.return_moves wh_Retry_posts)
qed (use assms in \<open>simp add: posting.webhook_step_moves\<close>)

text \<open>Sequences of operations.\<close>

context history
begin

lemma sequence_moves:
  assumes "\<And>op. op \<in> set ops \<Longrightarrow> moves (step op)"
    and "run [] = State_Monad.return ()" "\<And>op ops. run (op # ops) = step op \<bind> (\<lambda>_. run ops)"
  shows "moves (run ops)"
  using assms(1) by (induction ops) (auto simp: assms(2,3) intro!: return_moves bind_moves)

end

section \<open>Fan-out\<close>

definition fanned_out :: "inbound_webhook_event \<Rightarrow> db \<Rightarrow> db \<Rightarrow> bool" where
  "fanned_out ev d d' \<longleftrightarrow>
     (\<exists>new. webhook_deliveries d' = webhook_deliveries d @ new \<and>
        (\<forall>x \<in> set new. wd_status x = Pending \<and> wd_event_id x = iv_id ev)) \<and>
     delivery_table (webhook_deliveries d') \<and>
     {endpoint. (iv_id ev, endpoint) \<in> delivery_key ` set (webhook_deliveries d')} =
     {endpoint. (iv_id ev, endpoint) \<in> delivery_key ` set (webhook_deliveries d)} \<union>
     we_id ` {e \<in> set (webhook_endpoints d). we_organization_id e = iv_organization_id ev \<and> we_enabled e \<and>
       we_disabled_at e = None \<and> iv_event_type ev \<in> set (we_subscribed_events e) \<and> org_active d (iv_organization_id ev)}"

lemma insert_deliveries_keys:
  assumes "insert_deliveries gen event next now es rows = Inr rows'"
  shows "delivery_key ` set rows' = delivery_key ` set rows \<union> (\<lambda>e. (event, we_id e)) ` set es \<and>
    (\<exists>new. rows' = rows @ new \<and> (\<forall>x \<in> set new. wd_status x = Pending \<and> wd_event_id x = event))"
  using assms
proof (induction gen event "next" now es rows rule: insert_deliveries.induct)
  case (2 gen event "next" now e es rows)
  let ?n = "new_delivery (gen (length es)) event (we_id e) next now"
  show ?case
  proof (cases "list_ex (\<lambda>x. wd_event_id x = event \<and> wd_endpoint_id x = we_id e) rows")
    case True
    then have "(event, we_id e) \<in> delivery_key ` set rows" by (force simp: list_ex_iff delivery_key_def)
    with 2 True show ?thesis by (simp add: insert_absorb)
  next
    case False
    with 2 have "delivery_key ` set rows' = delivery_key ` set (rows @ [?n]) \<union> (\<lambda>e. (event, we_id e)) ` set es \<and>
      (\<exists>new. rows' = (rows @ [?n]) @ new \<and> (\<forall>x \<in> set new. wd_status x = Pending \<and> wd_event_id x = event))"
      by (auto split: if_splits)
    moreover have "delivery_key ?n = (event, we_id e)" "wd_status ?n = Pending" "wd_event_id ?n = event"
      by (simp_all add: delivery_key_def new_delivery_def)
    ultimately show ?thesis by (auto intro: exI [of _ "?n # _"])
  qed
qed auto

lemma insert_deliveries_again:
  assumes "(\<lambda>e. (event, we_id e)) ` set es \<subseteq> delivery_key ` set rows"
  shows "insert_deliveries gen event next now es rows = Inr rows"
  using assms by (induction es) (auto simp: list_ex_iff delivery_key_def)

lemma find_append: "find P (xs @ ys) = (case find P xs of None \<Rightarrow> find P ys | Some x \<Rightarrow> Some x)"
  by (induction xs) simp_all

lemma webhook_events_deliveries: "webhook_events (d\<lparr>webhook_deliveries := rows\<rparr>) = webhook_events d"
  by simp

text \<open>After the event step the event is in its table, under the metadata of the message.\<close>

lemma ingest_event_recorded:
  assumes "ingest_event E ev now d = Inr (u, d1)" and "distinct (map wv_id (webhook_events d))"
  shows "\<exists>v. find (\<lambda>v. wv_id v = iv_id ev) (webhook_events d1) = Some v \<and>
      wv_organization_id v = iv_organization_id ev \<and> wv_event_type v = iv_event_type ev \<and>
      webhook_deliveries d1 = webhook_deliveries d \<and> webhook_endpoints d1 = webhook_endpoints d \<and>
      organizations d1 = organizations d"
proof (cases "CreateWebhookEvent E ev now d")
  case (Inr p)
  then have fresh: "iv_id ev \<notin> wv_id ` set (webhook_events d)"
    by (auto simp: CreateWebhookEvent_def Let_def split: if_splits)
  then have "find (\<lambda>v. wv_id v = iv_id ev) (webhook_events d) = None"
    by (auto simp: find_None_iff image_iff)
  with Inr assms(1) show ?thesis
    by (auto simp: ingest_event_def CreateWebhookEvent_def Let_def find_append split: if_splits option.splits)
next
  case (Inl e)
  with assms(1) obtain old where d1: "d1 = d" and old: "GetWebhookEvent (iv_id ev) (iv_organization_id ev) d = Inr old"
    and same: "wv_event_type old = iv_event_type ev"
    by (auto simp: ingest_event_def split: if_splits sum.splits)
  from old have o: "old \<in> set (webhook_events d)" "wv_id old = iv_id ev" "wv_organization_id old = iv_organization_id ev"
    unfolding GetWebhookEvent_def by (auto dest!: select_one_Inr)
  obtain v where v: "find (\<lambda>v. wv_id v = iv_id ev) (webhook_events d) = Some v"
    using o(1,2) by (cases "find (\<lambda>v. wv_id v = iv_id ev) (webhook_events d)") (auto simp: find_None_iff)
  then have "v \<in> set (webhook_events d)" "wv_id v = iv_id ev" by (auto simp: find_Some_iff)
  with o assms(2) have "v = old" unfolding distinct_map by (metis inj_onD)
  with v o same d1 show ?thesis by auto
qed

lemma ingest_fans_out:
  assumes "ingest_body E ev now t d = Inr (u, d2)" and "distinct (map wv_id (webhook_events d))"
    and "delivery_table (webhook_deliveries d)"
  shows "fanned_out ev d d2 \<and> (ingest_body E ev now' t' d2 = Inr (u', d3) \<longrightarrow> d3 = d2)"
proof -
  from assms(1) obtain d1 where d1: "ingest_event E ev now d = Inr ((), d1)"
    and ins: "CreateWebhookDeliveriesForEvent (row_uuid E t) (iv_id ev) (clock E t) now d1 = Inr ((), d2)"
    by (auto simp: ingest_body_def split: sum.splits)
  from ingest_event_recorded [OF d1 assms(2)] obtain v where
    v: "find (\<lambda>v. wv_id v = iv_id ev) (webhook_events d1) = Some v" and
    meta: "wv_organization_id v = iv_organization_id ev" "wv_event_type v = iv_event_type ev" and
    same: "webhook_deliveries d1 = webhook_deliveries d" "webhook_endpoints d1 = webhook_endpoints d"
      "organizations d1 = organizations d" by blast
  define es where "es = filter (subscribed d1 v) (webhook_endpoints d1)"
  from ins v obtain rows where
    rows: "insert_deliveries (row_uuid E t) (iv_id ev) (clock E t) now es (webhook_deliveries d1) = Inr rows"
    and d2: "d2 = d1\<lparr>webhook_deliveries := rows\<rparr>"
    by (auto simp: CreateWebhookDeliveriesForEvent_def es_def split: sum.splits)
  have es: "set es = {e \<in> set (webhook_endpoints d). we_organization_id e = iv_organization_id ev \<and> we_enabled e \<and>
       we_disabled_at e = None \<and> iv_event_type ev \<in> set (we_subscribed_events e) \<and> org_active d (iv_organization_id ev)}"
    by (auto simp: es_def subscribed_def meta same org_active_def)
  note keys = insert_deliveries_keys [OF rows] and table = insert_deliveries_table [OF rows]
  have "delivery_table rows" using table assms(3) same by auto
  moreover have "{endpoint. (iv_id ev, endpoint) \<in> delivery_key ` set rows} =
    {endpoint. (iv_id ev, endpoint) \<in> delivery_key ` set (webhook_deliveries d)} \<union> we_id ` set es"
    using keys same by auto
  ultimately have "fanned_out ev d d2"
    using keys unfolding fanned_out_def by (simp add: d2 es same)
  moreover have "d3 = d2" if "ingest_body E ev now' t' d2 = Inr (u', d3)"
  proof -
    have "iv_id ev \<in> wv_id ` set (webhook_events d2)"
      using v unfolding find_Some_iff by (metis d2 image_eqI nth_mem webhook_events_deliveries)
    then have "\<exists>e. CreateWebhookEvent E ev now' d2 = Inl e" by (simp add: CreateWebhookEvent_def Let_def)
    with that have e: "ingest_event E ev now' d2 = Inr ((), d2)"
      by (auto simp: ingest_body_def ingest_event_def split: sum.splits if_splits)
    have "subscribed d2 v = subscribed d1 v" by (simp add: fun_eq_iff subscribed_def d2 org_active_def)
    with v have "CreateWebhookDeliveriesForEvent (row_uuid E t') (iv_id ev) (clock E t') now' d2 = Inr ((), d2)"
      using insert_deliveries_again [of "iv_id ev" es rows] keys
      by (simp add: CreateWebhookDeliveriesForEvent_def d2 es_def)
    with that e show ?thesis by (simp add: ingest_body_def)
  qed
  ultimately show ?thesis by blast
qed

text \<open>Without interference the transaction of an event happens as a whole or not at all.\<close>

lemma run_transaction_alone:
  assumes "\<forall>t w. interference E t w = w" and "run_state (transaction E name body) w = (r, w')"
  shows "(\<exists>e. r = Inl e) \<and> database w' = database w \<or>
    (\<exists>now t x d. body now t (database w) = Inr (x, d) \<and> database w' = d)"
  using assms
  by (auto simp: transaction_def transaction_with_def external_def Let_def split: fault.splits sum.splits prod.splits)

lemma consume_alone:
  assumes "\<forall>t w. interference E t w = w" and "inboundEventFromMessage E m = Inr ev"
    and "run_state (consume_event E m) w = (r, w')"
  shows "r \<noteq> Ack \<and> database w' = database w \<or>
    (\<exists>now t d. ingest_body E ev now t (database w) = Inr ((), d) \<and> database w' = d)"
proof (cases "validateInboundEvent E ev")
  case Inl
  with assms(2,3) show ?thesis by (auto simp: consume_event_def Ingest_def)
next
  case (Inr u)
  obtain r1 w1 where run: "run_state (transaction E ''webhook event transaction'' (ingest_body E ev)) w = (r1, w1)"
    by (meson surj_pair)
  from run_transaction_alone [OF assms(1) run] assms(2,3) Inr run show ?thesis
    by (auto simp: consume_event_def Ingest_def split: sum.splits)
qed

section \<open>Properties\<close>

text \<open>
  C7: Whatever fails and whatever other workers do within the same discipline, any sequence of API
  requests, consumed events and runs of the delivery job loses no delivery and duplicates none (one per
  event and endpoint), never lowers an attempt count, and leaves a succeeded or canceled delivery as it
  is; a failed one changes only by an explicit retry.
\<close>

theorem ended_deliveries_final:
  assumes "\<forall>t w. deliveries_evolve {Succeeded, Canceled} w (interference E t w)"
    and "\<forall>t w. deliveries_evolve ended w (interference E t w)"
  shows "deliveries_evolve {Succeeded, Canceled} w (snd (run_state (webhook_steps E ops) w)) \<and>
    (list_all (\<lambda>op. \<not> is_retry op) ops \<longrightarrow> deliveries_evolve ended w (snd (run_state (webhook_steps E ops) w)))"
proof (intro conjI impI)
  show "deliveries_evolve {Succeeded, Canceled} w (snd (run_state (webhook_steps E ops) w))"
    by (rule delivery_history.movesD,
        rule delivery_history.sequence_moves [where step = "webhook_step E" and run = "webhook_steps E"])
       (simp_all add: webhook_step_evolves assms(1))
  assume "list_all (\<lambda>op. \<not> is_retry op) ops"
  then show "deliveries_evolve ended w (snd (run_state (webhook_steps E ops) w))"
    by (intro delivery_history.movesD [OF delivery_history.sequence_moves [where step = "webhook_step E" and run = "webhook_steps E"]])
       (simp_all add: list_all_iff ended_final.webhook_step_moves assms(2))
qed

definition sample_endpoint :: "uuid \<Rightarrow> webhook_endpoint" where
  "sample_endpoint i =
     \<lparr>we_id = i, we_organization_id = 1, we_url = ''https://h'', we_signing_secret = ''s'', we_enabled = True,
      we_subscribed_events = [''call.completed''], we_created_at = 0, we_updated_at = 0, we_disabled_at = None,
      we_consecutive_failures = 0, we_last_failure_at = None, we_disabled_reason = None\<rparr>"

definition sample_webhook_event :: "uuid \<Rightarrow> webhook_event" where
  "sample_webhook_event i =
     \<lparr>wv_id = i, wv_organization_id = 1, wv_event_type = ''call.completed'', wv_object_type = ''call'',
      wv_object_id = None, wv_payload = RawPayload ''{}'', wv_occurred_at = 0, wv_created_at = 0\<rparr>"

definition webhook_db :: db where
  "webhook_db = empty_db\<lparr>organizations := [\<lparr>o_id = 1, o_status = ''active'', o_deleted = False\<rparr>],
     webhook_endpoints := [sample_endpoint 7], webhook_events := map sample_webhook_event [11, 12, 13, 14, 15],
     webhook_deliveries := map (\<lambda>i. new_delivery i (i + 10) 7 0 0) [1, 2, 3, 4, 5]\<rparr>"

abbreviation webhook_world :: world where
  "webhook_world \<equiv> empty_world\<lparr>database := webhook_db\<rparr>"

theorem ended_deliveries_final_witness:
  "deliveries_evolve ended webhook_world
     (snd (run_state (webhook_steps sample_env [OpDeliver (DefaultDeliveryJobConfig ''worker-webhooks'') 1, OpDelete 1 7]) webhook_world))"
  using ended_deliveries_final [of sample_env webhook_world
      "[OpDeliver (DefaultDeliveryJobConfig ''worker-webhooks'') 1, OpDelete 1 7]"]
  by (simp add: sample_env_def delivery_history.refl is_retry_def)

text \<open>
  C31: In every reachable state a delivery marked succeeded was sent: a POST that names it is among the
  requests that left the platform, whatever fails in between.
\<close>

theorem succeeded_only_after_post:
  assumes "\<forall>t w. posts_evolve w (interference E t w)" and "succeeded_posted w"
  shows "succeeded_posted (snd (run_state (webhook_steps E ops) w))"
proof -
  have "posts_evolve w (snd (run_state (webhook_steps E ops) w))"
    by (rule post_history.movesD,
        rule post_history.sequence_moves [where step = "webhook_step E" and run = "webhook_steps E"])
       (simp_all add: webhook_step_posts assms(1))
  with assms(2) show ?thesis by (simp add: posts_evolve_def)
qed

theorem succeeded_only_after_post_witness:
  "succeeded_posted (snd (run_state (webhook_steps sample_env [OpDeliver (DefaultDeliveryJobConfig ''worker-webhooks'') 1]) webhook_world))"
  by (rule succeeded_only_after_post)
     (simp_all add: sample_env_def post_history.refl succeeded_posted_def webhook_db_def new_delivery_def)

text \<open>
  C14: A consumed message is acknowledged only after its event was fanned out as a whole: exactly the
  enabled endpoints of the event's active organization that subscribe to its type have a delivery of it,
  one each, and nothing else changed. If it is not acknowledged, that happened as well or nothing did.
  Redelivering a message that was fanned out changes nothing, whatever fails.
\<close>

theorem message_fans_out_once:
  assumes "\<forall>t w. interference E t w = w" and "inboundEventFromMessage E m = Inr ev"
    and "distinct (map wv_id (webhook_events (database w)))" and "delivery_table (webhook_deliveries (database w))"
    and "run_state (consume_event E m) w = (r, w1)"
  shows "(r = Ack \<longrightarrow> fanned_out ev (database w) (database w1)) \<and>
    (fanned_out ev (database w) (database w1) \<or> database w1 = database w) \<and>
    (r = Ack \<longrightarrow> (\<forall>w2. database w2 = database w1 \<longrightarrow>
       database (snd (run_state (consume_event E m) w2)) = database w1))"
  using consume_alone [OF assms(1,2,5)]
proof (elim disjE exE conjE)
  fix now t d
  assume body: "ingest_body E ev now t (database w) = Inr ((), d)" and d: "database w1 = d"
  have again: "database (snd (run_state (consume_event E m) w2)) = d" if "database w2 = d" for w2
  proof -
    obtain r2 w3 where run: "run_state (consume_event E m) w2 = (r2, w3)" by (meson surj_pair)
    from consume_alone [OF assms(1,2) run] ingest_fans_out [OF body assms(3,4)] that show ?thesis
      by (auto simp: run)
  qed
  with ingest_fans_out [OF body assms(3,4)] d show ?thesis by auto
qed simp

definition completed_message :: message where
  "completed_message =
     \<lparr>m_subject = ''leamout.event.call.completed'', m_payload = RawPayload ''{}'',
      m_headers = [(''X-Leamout-Event-ID'', ''xx''), (''organization_id'', ''x''), (''event_type'', ''call.completed''),
        (''X-Leamout-Aggregate-Type'', ''call'')], m_id = ''xx''\<rparr>"

theorem message_fans_out_once_witness:
  "\<exists>ev w1. run_state (consume_event sample_env completed_message) webhook_world = (Ack, w1) \<and>
     fanned_out ev webhook_db (database w1)"
proof -
  obtain r w1 where run: "run_state (consume_event sample_env completed_message) webhook_world = (r, w1)"
    by (meson surj_pair)
  have "case inboundEventFromMessage sample_env completed_message of Inl _ \<Rightarrow> False | Inr _ \<Rightarrow> True" by code_simp
  then obtain ev where ev: "inboundEventFromMessage sample_env completed_message = Inr ev" by (auto split: sum.splits)
  have "fst (run_state (consume_event sample_env completed_message) webhook_world) = Ack" by code_simp
  then have "r = Ack" by (simp only: run fst_conv)
  moreover have "distinct (map wv_id (webhook_events webhook_db)) \<and> delivery_table (webhook_deliveries webhook_db)"
    by code_simp
  ultimately show ?thesis
    using message_fans_out_once [OF _ ev _ _ run] run by (auto simp: sample_env_def)
qed

text \<open>
  No request creates a disabled webhook endpoint: with \<^verbatim>\<open>enabled = false\<close> the inserted row has no
  \<^verbatim>\<open>disabled_at\<close>, which the table's check refuses, so \<^verbatim>\<open>Create\<close> fails on every input, environment and state.
\<close>

theorem create_disabled_endpoint_fails:
  "\<nexists>x. fst (run_state (wh_Create E org url events (Some False)) w) = Inr x"
proof -
  have "\<nexists>x. fst (run_state (exec E (statement (CreateWebhookEndpoint org u secret evs (Some False) i))) w) = Inr x" for u secret evs i
    by (auto simp: exec_def external_def statement_def CreateWebhookEndpoint_def endpoint_checks_def Let_def
        split: fault.splits sum.splits prod.splits if_splits)
  then show ?thesis
    by (auto simp: wh_Create_def newSigningSecret_def insert_row_def read_result_def split: sum.splits prod.splits)
       (metis fst_conv)+
qed

definition slow_env :: env where
  "slow_env = sample_env\<lparr>clock := \<lambda>t. 8000000 * int (t div 2)\<rparr>"

definition shared_env :: env where
  "shared_env = slow_env\<lparr>interference := \<lambda>t w.
     if t = 9 then snd (run_state (deliverBatch slow_env (DefaultDeliveryJobConfig ''worker-webhooks'')) w) else w\<rparr>"

text \<open>
  A slow batch is delivered twice. A worker \<open>a\<close> claims five deliveries to an endpoint that answers each
  POST after eight seconds, within the ten-second timeout. When it reaches the fifth its lock is older
  than the lock timeout of thirty seconds, a second worker claims, sends and settles that delivery, then
  \<open>a\<close> sends it again; its mark finds no row, and the error ends the job of \<open>a\<close>. (All
  workers run under the one id of \<^verbatim>\<open>runtime/worker\<close>.)
\<close>

theorem slow_batch_delivered_twice:
  "let r = run_state (deliverBatch shared_env (DefaultDeliveryJobConfig ''worker-webhooks'')) webhook_world
   in fst r = Inl (Wrap ''mark webhook delivery succeeded'' ErrNoRows) \<and>
      map hp_delivery (http_log (snd r)) = [1, 2, 3, 4, 5, 5]"
  by code_simp

text \<open>A status that the table refuses.\<close>

lemma unstorable_settle:
  assumes "quiet E" and "at_status a = Some s" and "s > 599" and "x \<in> set (webhook_deliveries (database w))"
    and "locked_to (dc_worker c) (cd_id cd) x"
  shows "\<exists>msg w'. run_state (settle E c cd a) w = (Inl (Wrap msg (ConstraintError ''webhook_deliveries'')), w') \<and>
    database w' = database w \<and> http_log w' = http_log w"
proof -
  have refused: "update_delivery (locked_to (dc_worker c) (cd_id cd)) f (database w) = Inl (ConstraintError ''webhook_deliveries'')"
    if "\<And>x. wd_response_status (f x) = Some s" for f
  proof -
    obtain y where "find (locked_to (dc_worker c) (cd_id cd)) (webhook_deliveries (database w)) = Some y"
      using assms(4,5) by (cases "find (locked_to (dc_worker c) (cd_id cd)) (webhook_deliveries (database w))")
        (auto simp: find_None_iff)
    with that assms(3) show ?thesis
      by (simp add: update_delivery_def update_one_def delivery_checks_def)
  qed
  have "\<not> deliverySucceeded a" using assms(2,3) by (simp add: deliverySucceeded_def)
  with assms(1,2) show ?thesis
    by (auto simp: settle_def statement_def ScheduleWebhookDeliveryRetry_def MarkWebhookDeliveryFailed_def
        refused unlock_def Let_def)
qed

lemma claimed_locked:
  assumes "ClaimWebhookDeliveries worker stale limit now d = Inr (cds, d')" and "cd \<in> set cds"
  shows "\<exists>x \<in> set (webhook_deliveries d'). locked_to worker (cd_id cd) x"
proof -
  define ids where "ids = map wd_id (take (nat limit) (sort_key wd_next_attempt_at (sort_key wd_created_at
    (filter (due d stale now) (webhook_deliveries d)))))"
  let ?lock = "\<lambda>x. x\<lparr>wd_locked_at := Some now, wd_locked_by := Some worker, wd_attempt_count := wd_attempt_count x + 1,
             wd_last_attempt_at := Some now, wd_updated_at := now\<rparr>"
  let ?rows = "update_where (\<lambda>x. wd_id x \<in> set ids) ?lock (webhook_deliveries d)"
  from assms(1) have d': "webhook_deliveries d' = ?rows"
    and cds: "cds = List.map_filter (claimed_of d) (filter (\<lambda>x. wd_id x \<in> set ids) ?rows)"
    by (auto simp: ClaimWebhookDeliveries_def Let_def ids_def)
  from cds assms(2) obtain x where x: "x \<in> set ?rows" "wd_id x \<in> set ids" "claimed_of d x = Some cd"
    by (auto simp: map_filter_def)
  from x(3) have i: "cd_id cd = wd_id x" by (auto simp: claimed_of_def split: option.splits)
  from x(1) have "wd_locked_by x = Some worker"
    by (rule in_update_whereE) (simp_all add: x(2))
  with i have "locked_to worker (cd_id cd) x" by (simp add: locked_to_def)
  then show ?thesis unfolding d' by (rule bexI [OF _ x(1)])
qed

text \<open>
  C39: One endpoint can stop the delivery job for everyone: \<^verbatim>\<open>net/http\<close> accepts any three-digit status,
  the column only 100 to 599. When the first claimed delivery is answered with a status above 599 the
  batch ends with an error after the POST, the error ends the job, and the delivery is left as it was
  claimed, to be claimed again after the lock timeout.
\<close>

theorem unstorable_status_stops_job:
  assumes "quiet E" and "\<not> ctx_done E (Suc (tick w))"
    and "http_reply E (Suc (tick w)) = (s, body, broken)" and "s > 599"
    and "ClaimWebhookDeliveries (dc_worker c) (clock E (tick w) - go_div (dc_lock_timeout c) 1000) (dc_batch c)
           (clock E (tick w)) (database w) = Inr (cd # cds, d')"
  shows "\<exists>msg w'. run_state (delivery_Run E c ticks) w = (Inl (Wrap msg (ConstraintError ''webhook_deliveries'')), w') \<and>
    database w' = d' \<and> length (http_log w') = Suc (length (http_log w))"
proof -
  obtain x where x: "x \<in> set (webhook_deliveries d')" "locked_to (dc_worker c) (cd_id cd) x"
    using claimed_locked [OF assms(5), of cd] by auto
  let ?w1 = "w\<lparr>tick := Suc (tick w), database := d'\<rparr>"
  obtain a p where send: "run_state (Send E cd) ?w1 = (a, ?w1\<lparr>tick := Suc (Suc (tick w)), http_log := http_log w @ [p]\<rparr>)"
    and a: "at_status a = Some s"
    using assms(1,3) by (simp add: Send_def http_send_def Let_def run_external_quiet)
  obtain msg w' where settle: "run_state (settle E c cd a) (?w1\<lparr>tick := Suc (Suc (tick w)), http_log := http_log w @ [p]\<rparr>) =
      (Inl (Wrap msg (ConstraintError ''webhook_deliveries'')), w')" "database w' = d'" "http_log w' = http_log w @ [p]"
    using unstorable_settle [OF assms(1) a assms(4), of x "?w1\<lparr>tick := Suc (Suc (tick w)), http_log := http_log w @ [p]\<rparr>" c cd] x
    by auto
  show ?thesis
    using assms(1,2,5) send settle
    by (subst delivery_Run.simps) (simp add: deliverBatch_def statement_def)
qed

definition odd_status_env :: env where
  "odd_status_env = sample_env\<lparr>http_reply := \<lambda>_. (700, ''ok'', False)\<rparr>"

theorem unstorable_status_stops_job_witness:
  "\<exists>msg w'. run_state (delivery_Run odd_status_env (DefaultDeliveryJobConfig ''worker-webhooks'') 3) webhook_world =
     (Inl (Wrap msg (ConstraintError ''webhook_deliveries'')), w')"
proof -
  let ?c = "DefaultDeliveryJobConfig ''worker-webhooks''"
  let ?r = "ClaimWebhookDeliveries (dc_worker ?c) (clock odd_status_env (tick webhook_world) - go_div (dc_lock_timeout ?c) 1000)
    (dc_batch ?c) (clock odd_status_env (tick webhook_world)) (database webhook_world)"
  have "(case ?r of Inl _ \<Rightarrow> 0 | Inr (cds, _) \<Rightarrow> length cds) = 5" by code_simp
  then obtain cd cds d' where claim: "?r = Inr (cd # cds, d')"
    by (cases ?r) (auto simp: length_Suc_conv eval_nat_numeral split: sum.splits)
  have "quiet odd_status_env" "\<not> ctx_done odd_status_env (Suc (tick webhook_world))"
    "http_reply odd_status_env (Suc (tick webhook_world)) = (700, ''ok'', False)" "(700 :: int) > 599"
    by (simp_all add: quiet_def odd_status_env_def sample_env_def)
  from unstorable_status_stops_job [OF this claim, of 3] show ?thesis by blast
qed

end
