(* ===== verification/EventFlow.thy ===== *)
theory EventFlow
  imports Lifecycle WebhookGuarantees
begin

text \<open>
  From a call to its webhooks: the transaction of a call change writes the outbox row, the publisher puts
  the message on the bus, the webhook consumer reads it back. The three components agree on the headers.
\<close>

text \<open>The event types of \<^verbatim>\<open>telephony/calls/repository.go\<close>.\<close>

definition call_event_types :: "string list" where
  "call_event_types =
     [''call.initiated'', ''call.ringing'', ''call.answered'', ''call.active'', ''call.held'', ''call.resumed'',
      ''call.completed'', ''call.failed'', ''call.cancelled'']"

text \<open>What is documented of \<^verbatim>\<open>uuid.UUID.String\<close> and \<^verbatim>\<open>uuid.Parse\<close>.\<close>

definition uuid_codec :: "env \<Rightarrow> bool" where
  "uuid_codec E \<longleftrightarrow> (\<forall>u. uuid_parse E (uuid_string E u) = Some u \<and> trim_space (uuid_string E u) = uuid_string E u \<and>
     uuid_string E u \<noteq> [])"

lemma call_event_type_text:
  assumes "ty \<in> set call_event_types"
  shows "trim_space ty = ty" "ty \<noteq> []" "eventSubject ty = Inr (EventsSubjectPrefix @ ty)"
proof -
  have "list_all (\<lambda>ty. trim_space ty = ty \<and> ty \<noteq> [] \<and> eventSubject ty = Inr (EventsSubjectPrefix @ ty)) call_event_types"
    by code_simp
  with assms show "trim_space ty = ty" "ty \<noteq> []" "eventSubject ty = Inr (EventsSubjectPrefix @ ty)"
    by (auto simp: list_all_iff)
qed

lemma call_headers:
  assumes "uuid_codec E"
  shows "header \<lparr>m_subject = s, m_payload = p, m_headers =
      set_header ''X-Leamout-Aggregate-ID'' aid (set_header ''X-Leamout-Aggregate-Type'' aty
        (set_header ''X-Leamout-Event-ID'' (uuid_string E i)
          [(''event_type'', ty), (''organization_id'', uuid_string E org), (''schema_version'', ''1'')])), m_id = mid\<rparr> name =
    (if name = ''X-Leamout-Aggregate-ID'' then trim_space aid
     else if name = ''X-Leamout-Aggregate-Type'' then trim_space aty
     else if name = ''X-Leamout-Event-ID'' then uuid_string E i
     else if name = ''event_type'' then trim_space ty
     else if name = ''organization_id'' then uuid_string E org
     else if name = ''schema_version'' then trim_space ''1'' else [])"
  using assms by (simp add: header_def set_header_def uuid_codec_def)

lemma trim_call: "trim_space ''call'' = ''call''"
  by code_simp

text \<open>
  C11: The event that a call change writes to the outbox reaches the webhooks when nothing fails and its
  payload fits a message: it is published under the event stream, and the consumer reads back from the
  headers the id of the outbox row, the organization of the call, the type and the call, with the payload
  unchanged, as an event that the webhooks service accepts. No call event can end up under another tenant.
  A payload over the 64 KiB of a message is refused with an error and nothing is put on the bus.
\<close>

theorem call_events_reach_webhooks:
  assumes "uuid_codec E" and "quiet E" and "call_event E ty t now c d = Inr (e, d')" and "ty \<in> set call_event_types"
    and "new_uuid E (Suc t) \<noteq> uuid_Nil" and "c_organization_id c \<noteq> uuid_Nil" and "clock E t \<noteq> zero_time"
  shows "if payload_size E (ob_payload e) \<le> 64 * 1024
    then \<exists>m ev. run_state (Publish E e) w = (Inr (), w\<lparr>tick := Suc (tick w), bus := bus w @ [m]\<rparr>) \<and>
      inboundEventFromMessage E m = Inr ev \<and> validateInboundEvent E ev = Inr () \<and>
      iv_id ev = ob_id e \<and> iv_organization_id ev = c_organization_id c \<and> iv_event_type ev = ty \<and>
      iv_object_type ev = ''call'' \<and> iv_object_id ev = Some (c_id c) \<and> iv_payload ev = ob_payload e
    else \<exists>err. run_state (Publish E e) w = (Inl err, w)"
proof -
  have e: "ob_id e = new_uuid E (Suc t)" "ob_subject e = ty" "ob_aggregate_type e = ''call''" "ob_aggregate_id e = c_id c"
    "ob_payload e = CallPayload ty (c_organization_id c) (c_id c) c (clock E t)"
    "ob_headers e = [(''event_type'', ty), (''organization_id'', uuid_string E (c_organization_id c)), (''schema_version'', ''1'')]"
    using assms(3) by (auto simp: call_event_def InsertOutboxEvent_def Let_def split: if_splits)
  note ty = call_event_type_text [OF assms(4)]
  define m where "m = \<lparr>m_subject = EventsSubjectPrefix @ ty, m_payload = ob_payload e, m_headers =
      set_header ''X-Leamout-Aggregate-ID'' (uuid_string E (c_id c)) (set_header ''X-Leamout-Aggregate-Type'' ''call''
        (set_header ''X-Leamout-Event-ID'' (uuid_string E (ob_id e)) (ob_headers e))), m_id = uuid_string E (ob_id e)\<rparr>"
  have publish: "run_state (Publish E e) w =
      (if payload_size E (ob_payload e) \<le> 64 * 1024 then (Inr (), w\<lparr>tick := Suc (tick w), bus := bus w @ [m]\<rparr>)
       else (Inl (Wrap ''publish outbox event'' (ErrorString ''NATS message payload exceeds the maximum'')), w))"
    using assms(2) ty by (simp add: Publish_def e Let_def bus_publish_def MaxMessageSize_def run_external_quiet m_def)
  have uuid: "uuid_parse E (uuid_string E u) = Some u" "trim_space (uuid_string E u) = uuid_string E u" "uuid_string E u \<noteq> []" for u
    using assms(1) by (simp_all add: uuid_codec_def)
  have h: "header m ''X-Leamout-Event-ID'' = uuid_string E (ob_id e)" "header m ''event_type'' = ty"
    "header m ''organization_id'' = uuid_string E (c_organization_id c)" "header m ''X-Leamout-Aggregate-Type'' = ''call''"
    "header m ''X-Leamout-Aggregate-ID'' = uuid_string E (c_id c)" "m_payload m = ob_payload e"
    unfolding m_def e(6) by (simp_all add: call_headers [OF assms(1)] trim_call ty uuid)
  have "inboundEventFromMessage E m = Inr \<lparr>iv_id = ob_id e, iv_organization_id = c_organization_id c, iv_event_type = ty,
      iv_object_type = ''call'', iv_object_id = Some (c_id c), iv_payload = ob_payload e, iv_occurred_at = clock E t\<rparr>"
    using uuid ty(2) by (simp add: inboundEventFromMessage_def h Let_def e(5))
  moreover have "validateInboundEvent E \<lparr>iv_id = ob_id e, iv_organization_id = c_organization_id c, iv_event_type = ty,
      iv_object_type = ''call'', iv_object_id = Some (c_id c), iv_payload = ob_payload e, iv_occurred_at = clock E t\<rparr> = Inr ()"
    using assms(5-7) ty by (simp add: validateInboundEvent_def e trim_call payload_is_object_def)
  ultimately show ?thesis unfolding publish by (auto intro!: exI [of _ m])
qed

definition printing_env :: env where
  "printing_env = sample_env\<lparr>uuid_string := \<lambda>u. replicate (Suc (unat u)) (CHR ''x''),
     uuid_parse := \<lambda>s. if s = [] then None else Some (word_of_nat (length s - 1))\<rparr>"

lemma printing_codec: "uuid_codec printing_env"
proof -
  have "strip_prefix_of go_spaces (CHR ''x'' # s) = None" "strip_prefix_of (map rev go_spaces) (CHR ''x'' # s) = None" for s
    by (simp_all add: go_spaces_def)
  then have "trim_space (replicate (Suc n) (CHR ''x'')) = replicate (Suc n) (CHR ''x'')" for n
    by (simp add: trim_space_def trim_left_def trim_right_def trim_with_id replicate_append_same)
  then show ?thesis by (simp add: uuid_codec_def printing_env_def)
qed

theorem call_events_reach_webhooks_witness:
  "\<exists>m ev. run_state (Publish printing_env (fst (projr (call_event printing_env ''call.completed'' 2 5 (sample_call 3 Completed) empty_db)))) empty_world =
      (Inr (), empty_world\<lparr>tick := 1, bus := [m]\<rparr>) \<and>
    inboundEventFromMessage printing_env m = Inr ev \<and> iv_organization_id ev = c_organization_id (sample_call 3 Completed)"
proof -
  let ?r = "call_event printing_env ''call.completed'' 2 5 (sample_call 3 Completed) empty_db"
  have "isl ?r = False" by code_simp
  then obtain e d' where r: "?r = Inr (e, d')" by (cases ?r) auto
  have "quiet printing_env" "new_uuid printing_env (Suc 2) \<noteq> uuid_Nil" "clock printing_env 2 \<noteq> zero_time"
    "c_organization_id (sample_call 3 Completed) \<noteq> uuid_Nil" "''call.completed'' \<in> set call_event_types"
    and size: "payload_size printing_env p \<le> 64 * 1024" for p
    by (simp_all add: quiet_def printing_env_def sample_env_def zero_time_def sample_call_def call_event_types_def)
  with call_events_reach_webhooks [OF printing_codec _ r, of empty_world] show ?thesis by (auto simp: r)
qed

text \<open>
  The publisher has no answer to such an event: nothing bounds the addresses of a call, and a pass over a
  row whose payload never fits only counts an attempt and releases the row for the next one.
\<close>

definition oversized_env :: env where
  "oversized_env = sample_env\<lparr>payload_size := \<lambda>_. 65537\<rparr>"

theorem oversized_event_left_pending:
  "case run_state (publishBatch oversized_env (DefaultPublisherJobConfig ''w'')) event_world of (r, w') \<Rightarrow>
     bus w' = [] \<and> list_all (\<lambda>e. ob_published_at e = None \<and> ob_attempts e = 1 \<and> ob_locked_by e = None) (outbox (database w'))"
  by code_simp

end
