(* ===== verification/MediaQueue.thy ===== *)
theory MediaQueue
  imports Prelude
begin

text \<open>
  The audio queues of a media session, \<^verbatim>\<open>media/session/queue.go\<close>, with the frames of
  \<^verbatim>\<open>media/session/session.go\<close>: a channel of 256 frames and a mutex-guarded sum of their durations.
  Goroutines take one step at a time in any order: a push holds the mutex from its check to its
  addition, a pop receives first and takes the mutex afterwards. Shown for every interleaving: the sum
  never drifts, the latency budget and the capacity hold, frames leave in the order they came.
\<close>

section \<open>Frames\<close>

record audio_format =
  SampleRateHz :: int
  Channels :: int

definition format_Validate :: "audio_format \<Rightarrow> goerr + unit" where
  "format_Validate f =
     (if SampleRateHz f \<noteq> 8000 \<and> SampleRateHz f \<noteq> 16000 \<and> SampleRateHz f \<noteq> 24000 \<and> SampleRateHz f \<noteq> 48000
      then Inl (ErrorString ''unsupported sample rate'')
      else if Channels f \<noteq> 1 then Inl (ErrorString ''unsupported channel count'')
      else Inr ())"

record audio_frame =
  Data :: string
  Format :: audio_format
  CapturedAt :: int

definition frame_Validate :: "audio_frame \<Rightarrow> goerr + unit" where
  "frame_Validate f =
     (case format_Validate (Format f) of
        Inl e \<Rightarrow> Inl e
      | Inr _ \<Rightarrow>
          if Data f = [] then Inl (ErrorString ''audio frame is empty'')
          else if length (Data f) mod 2 \<noteq> 0 then Inl (ErrorString ''PCM16 audio frame has odd byte length'')
          else Inr ())"

definition frame_Duration :: "audio_frame \<Rightarrow> int" where
  "frame_Duration f =
     (if SampleRateHz (Format f) \<le> 0 \<or> Channels (Format f) \<le> 0 \<or> Data f = [] then 0
      else go_div (wrap64 (go_div (int (length (Data f))) (wrap64 (2 * Channels (Format f))) * second))
             (SampleRateHz (Format f)))"

section \<open>The queue and its goroutines\<close>

text \<open>Where a goroutine is: outside, or between two steps of \<^verbatim>\<open>Push\<close>, \<^verbatim>\<open>Pop\<close> or \<^verbatim>\<open>Clear\<close>.\<close>

datatype queue_pc =
    QIdle
  | PushLock audio_frame
  | PushCheck audio_frame
  | PushSend audio_frame
  | PushAdd audio_frame
  | PopWait
  | ClearWait
  | TakeLock bool audio_frame
  | TakeSub bool audio_frame

text \<open>The histories \<open>q_sent\<close> and \<open>q_got\<close> of the channel are not part of the program.\<close>

record audio_queue =
  q_frames :: "audio_frame list"
  q_queued :: int
  q_max :: int
  q_locked :: bool
  q_pcs :: "queue_pc list"
  q_sent :: "audio_frame list"
  q_got :: "audio_frame list"

definition queue_capacity :: nat where
  "queue_capacity = 256"

definition newAudioQueue :: "int \<Rightarrow> nat \<Rightarrow> audio_queue" where
  "newAudioQueue limit goroutines =
     \<lparr>q_frames = [], q_queued = 0, q_max = limit, q_locked = False, q_pcs = replicate goroutines QIdle,
      q_sent = [], q_got = []\<rparr>"

definition goto :: "nat \<Rightarrow> queue_pc \<Rightarrow> audio_queue \<Rightarrow> audio_queue" where
  "goto i p q = q\<lparr>q_pcs := (q_pcs q)[i := p]\<rparr>"

definition lock :: "audio_queue \<Rightarrow> audio_queue" where
  "lock q = q\<lparr>q_locked := True\<rparr>"

definition unlock :: "audio_queue \<Rightarrow> audio_queue" where
  "unlock q = q\<lparr>q_locked := False\<rparr>"

definition receive :: "audio_frame \<Rightarrow> audio_frame list \<Rightarrow> audio_queue \<Rightarrow> audio_queue" where
  "receive f fs q = q\<lparr>q_frames := fs, q_got := q_got q @ [f]\<rparr>"

text \<open>
  One step of goroutine \<open>i\<close>; none when it is outside, waits for the mutex, or waits for a frame. The
  deferred unlock of a push is part of its last step.
\<close>

definition push_check :: "nat \<Rightarrow> audio_frame \<Rightarrow> audio_queue \<Rightarrow> audio_queue" where
  "push_check i f q =
     (if wrap64 (q_queued q + frame_Duration f) > q_max q then goto i QIdle (unlock q) else goto i (PushSend f) q)"

definition push_send :: "nat \<Rightarrow> audio_frame \<Rightarrow> audio_queue \<Rightarrow> audio_queue" where
  "push_send i f q =
     (if length (q_frames q) < queue_capacity
      then goto i (PushAdd f) (q\<lparr>q_frames := q_frames q @ [f], q_sent := q_sent q @ [f]\<rparr>)
      else goto i QIdle (unlock q))"

definition push_add :: "nat \<Rightarrow> audio_frame \<Rightarrow> audio_queue \<Rightarrow> audio_queue" where
  "push_add i f q = goto i QIdle (unlock (q\<lparr>q_queued := wrap64 (q_queued q + frame_Duration f)\<rparr>))"

definition take_sub :: "nat \<Rightarrow> bool \<Rightarrow> audio_frame \<Rightarrow> audio_queue \<Rightarrow> audio_queue" where
  "take_sub i clearing f q =
     (let n = wrap64 (q_queued q - frame_Duration f)
      in goto i (if clearing then ClearWait else QIdle) (unlock (q\<lparr>q_queued := (if n < 0 then 0 else n)\<rparr>)))"

definition queue_advance :: "nat \<Rightarrow> audio_queue \<Rightarrow> audio_queue option" where
  "queue_advance i q =
     (case q_pcs q ! i of
        QIdle \<Rightarrow> None
      | PushLock f \<Rightarrow> if q_locked q then None else Some (goto i (PushCheck f) (lock q))
      | PushCheck f \<Rightarrow> Some (push_check i f q)
      | PushSend f \<Rightarrow> Some (push_send i f q)
      | PushAdd f \<Rightarrow> Some (push_add i f q)
      | PopWait \<Rightarrow> (case q_frames q of [] \<Rightarrow> None | f # fs \<Rightarrow> Some (goto i (TakeLock False f) (receive f fs q)))
      | ClearWait \<Rightarrow> (case q_frames q of [] \<Rightarrow> Some (goto i QIdle q)
                      | f # fs \<Rightarrow> Some (goto i (TakeLock True f) (receive f fs q)))
      | TakeLock c f \<Rightarrow> if q_locked q then None else Some (goto i (TakeSub c f) (lock q))
      | TakeSub c f \<Rightarrow> Some (take_sub i c f q))"

datatype queue_action = Push nat audio_frame | Pop nat | PopDone nat | Clear nat | Advance nat

fun queue_step :: "audio_queue \<Rightarrow> queue_action \<Rightarrow> audio_queue option" where
  "queue_step q (Push i f) =
     (if i < length (q_pcs q) \<and> q_pcs q ! i = QIdle then Some (goto i (PushLock f) q) else None)"
| "queue_step q (Pop i) = (if i < length (q_pcs q) \<and> q_pcs q ! i = QIdle then Some (goto i PopWait q) else None)"
| "queue_step q (PopDone i) = (if i < length (q_pcs q) \<and> q_pcs q ! i = PopWait then Some (goto i QIdle q) else None)"
| "queue_step q (Clear i) = (if i < length (q_pcs q) \<and> q_pcs q ! i = QIdle then Some (goto i ClearWait q) else None)"
| "queue_step q (Advance i) = (if i < length (q_pcs q) then queue_advance i q else None)"

text \<open>A schedule: an action that is not enabled is skipped.\<close>

fun queue_run :: "audio_queue \<Rightarrow> queue_action list \<Rightarrow> audio_queue" where
  "queue_run q [] = q"
| "queue_run q (a # as) = queue_run (case queue_step q a of None \<Rightarrow> q | Some q' \<Rightarrow> q') as"

section \<open>Accounting\<close>

definition small_frame :: "audio_frame \<Rightarrow> bool" where
  "small_frame f \<longleftrightarrow> length (Data f) < 2 ^ 32 \<and> Channels (Format f) < 2 ^ 32"

fun pc_frames :: "queue_pc \<Rightarrow> audio_frame list" where
  "pc_frames (PushLock f) = [f]"
| "pc_frames (PushCheck f) = [f]"
| "pc_frames (PushSend f) = [f]"
| "pc_frames (PushAdd f) = [f]"
| "pc_frames (TakeLock c f) = [f]"
| "pc_frames (TakeSub c f) = [f]"
| "pc_frames _ = []"

text \<open>A frame sent but not yet added, and a frame received but not yet subtracted.\<close>

fun pc_debt :: "queue_pc \<Rightarrow> int" where
  "pc_debt (PushAdd f) = - frame_Duration f"
| "pc_debt (TakeLock c f) = frame_Duration f"
| "pc_debt (TakeSub c f) = frame_Duration f"
| "pc_debt _ = 0"

fun pc_holds :: "queue_pc \<Rightarrow> bool" where
  "pc_holds (PushCheck f) = True"
| "pc_holds (PushSend f) = True"
| "pc_holds (PushAdd f) = True"
| "pc_holds (TakeSub c f) = True"
| "pc_holds _ = False"

fun pc_fits :: "audio_queue \<Rightarrow> queue_pc \<Rightarrow> bool" where
  "pc_fits q (PushSend f) \<longleftrightarrow> q_queued q + frame_Duration f \<le> q_max q"
| "pc_fits q (PushAdd f) \<longleftrightarrow> q_queued q + frame_Duration f \<le> q_max q"
| "pc_fits q _ \<longleftrightarrow> True"

definition total :: "audio_frame list \<Rightarrow> int" where
  "total fs = sum_list (map frame_Duration fs)"

definition queue_inv :: "audio_queue \<Rightarrow> bool" where
  "queue_inv q \<longleftrightarrow>
     0 \<le> q_queued q \<and> q_queued q \<le> q_max q \<and> q_max q \<le> 2 ^ 62 \<and> length (q_frames q) \<le> queue_capacity \<and>
     q_queued q = total (q_frames q) + sum_list (map pc_debt (q_pcs q)) \<and>
     sum_list (map (\<lambda>p. of_bool (pc_holds p)) (q_pcs q)) = (of_bool (q_locked q) :: int) \<and>
     (\<forall>p \<in> set (q_pcs q). pc_fits q p \<and> list_all small_frame (pc_frames p)) \<and>
     list_all small_frame (q_frames q) \<and> q_sent q = q_got q @ q_frames q"

lemma duration_bounds:
  assumes "small_frame f"
  shows "0 \<le> frame_Duration f" "frame_Duration f < 2 ^ 62"
proof -
  let ?n = "int (length (Data f))" and ?c = "Channels (Format f)" and ?r = "SampleRateHz (Format f)"
  have "0 \<le> frame_Duration f \<and> frame_Duration f < 2 ^ 62"
  proof (cases "?r \<le> 0 \<or> ?c \<le> 0 \<or> Data f = []")
    case False
    then have c: "wrap64 (2 * ?c) = 2 * ?c" "0 < 2 * ?c"
      using assms by (auto simp: small_frame_def intro!: wrap64_id)
    define s where "s = ?n div (2 * ?c)"
    have "?n < 2 ^ 32" using assms by (simp add: small_frame_def)
    moreover have "s \<le> ?n div 2" using False unfolding s_def by (intro zdiv_mono2) auto
    ultimately have s: "0 \<le> s" "s < 2 ^ 31" using c(2) by (auto simp: s_def pos_imp_zdiv_nonneg_iff)
    then have w: "wrap64 (s * second) = s * second" by (intro wrap64_id) auto
    have "frame_Duration f = s * second div ?r"
      using False c s w by (simp add: frame_Duration_def go_div_nonneg s_def [symmetric])
    moreover have "s * second div ?r \<le> s * second" using zdiv_mono2 [of "s * second" 1 ?r] False s by simp
    ultimately show ?thesis using False s by (simp add: pos_imp_zdiv_nonneg_iff)
  qed (auto simp: frame_Duration_def)
  then show "0 \<le> frame_Duration f" "frame_Duration f < 2 ^ 62" by simp_all
qed

text \<open>Sums over the goroutines when one of them moves.\<close>

lemma sum_goto:
  fixes g :: "'a \<Rightarrow> int"
  assumes "i < length ps"
  shows "sum_list (map g (ps[i := p])) = sum_list (map g ps) - g (ps ! i) + g p"
  using assms
proof (induction ps arbitrary: i)
  case (Cons a ps)
  then show ?case by (cases i) simp_all
qed simp

lemma all_goto: "P p \<Longrightarrow> \<forall>x \<in> set ps. P x \<Longrightarrow> \<forall>x \<in> set (ps[i := p]). P x"
  using set_update_subset_insert [of ps i p] by auto

lemma goto_fields [simp]:
  "q_frames (goto i p q) = q_frames q" "q_queued (goto i p q) = q_queued q" "q_max (goto i p q) = q_max q"
  "q_locked (goto i p q) = q_locked q" "q_pcs (goto i p q) = (q_pcs q)[i := p]" "q_sent (goto i p q) = q_sent q"
  "q_got (goto i p q) = q_got q"
  by (simp_all add: goto_def)

text \<open>The holder of the mutex is alone; without it nobody is between a send and its addition.\<close>

lemma holder_alone:
  assumes "queue_inv q" and "i < length (q_pcs q)" and "pc_holds (q_pcs q ! i)"
  shows "\<forall>p \<in> set ((q_pcs q)[i := QIdle]). \<not> pc_holds p" "q_locked q"
proof -
  let ?h = "\<lambda>p. of_bool (pc_holds p) :: int"
  have nonneg: "0 \<le> sum_list (map ?h ps)" for ps by (intro sum_list_nonneg) auto
  have sum: "sum_list (map ?h ((q_pcs q)[i := QIdle])) = of_bool (q_locked q) - 1"
    using assms by (simp add: sum_goto queue_inv_def)
  with nonneg [of "(q_pcs q)[i := QIdle]"] show "q_locked q" by (cases "q_locked q") auto
  with sum have "\<forall>x \<in> set (map ?h ((q_pcs q)[i := QIdle])). x = 0"
    by (subst sum_list_nonneg_eq_0_iff [symmetric]) auto
  then show "\<forall>p \<in> set ((q_pcs q)[i := QIdle]). \<not> pc_holds p" by auto
qed

lemma debts_nonneg:
  assumes "\<forall>p \<in> set ps. \<not> pc_holds p \<and> list_all small_frame (pc_frames p)"
  shows "0 \<le> sum_list (map pc_debt ps)"
proof (rule sum_list_nonneg)
  fix x assume "x \<in> set (map pc_debt ps)"
  then obtain p where "p \<in> set ps" "x = pc_debt p" by auto
  with assms show "0 \<le> x" by (cases p) (auto simp: duration_bounds)
qed

lemma total_nonneg: "list_all small_frame fs \<Longrightarrow> 0 \<le> total fs"
  by (induction fs) (auto simp: total_def duration_bounds)

lemma not_holding_fits: "\<not> pc_holds p \<Longrightarrow> pc_fits q p"
  by (cases p) auto

lemma pc_fits_cong: "q_queued q' \<le> q_queued q \<Longrightarrow> q_max q' = q_max q \<Longrightarrow> pc_fits q p \<Longrightarrow> pc_fits q' p"
  by (cases p) auto

section \<open>Every step keeps the accounts\<close>

lemma pc_of:
  assumes "queue_inv q" and "i < length (q_pcs q)"
  shows "pc_fits q (q_pcs q ! i)" "list_all small_frame (pc_frames (q_pcs q ! i))"
  using assms by (auto simp: queue_inv_def)

text \<open>Moves that leave the sum and the mutex alone.\<close>

lemma inv_goto:
  assumes "queue_inv q" and "i < length (q_pcs q)" and "pc_debt p = pc_debt (q_pcs q ! i)"
    and "pc_holds p = pc_holds (q_pcs q ! i)" and "pc_fits q p" and "list_all small_frame (pc_frames p)"
  shows "queue_inv (goto i p q)"
  unfolding queue_inv_def
proof (intro conjI)
  show "\<forall>x \<in> set (q_pcs (goto i p q)). pc_fits (goto i p q) x \<and> list_all small_frame (pc_frames x)"
    unfolding goto_fields
    by (rule all_goto) (use assms in \<open>auto simp: queue_inv_def intro: pc_fits_cong [of _ q]\<close>)
qed (use assms in \<open>auto simp: queue_inv_def sum_goto\<close>)

lemma inv_lock:
  assumes "queue_inv q" and "i < length (q_pcs q)" and "\<not> q_locked q" and "pc_debt p = pc_debt (q_pcs q ! i)"
    and "pc_holds p" and "\<not> pc_holds (q_pcs q ! i)" and "pc_fits q p" and "list_all small_frame (pc_frames p)"
  shows "queue_inv (goto i p (lock q))"
  unfolding queue_inv_def
proof (intro conjI)
  show "\<forall>x \<in> set (q_pcs (goto i p (lock q))). pc_fits (goto i p (lock q)) x \<and> list_all small_frame (pc_frames x)"
    unfolding goto_fields
    by (rule all_goto) (use assms in \<open>auto simp: queue_inv_def lock_def intro: pc_fits_cong [of _ q]\<close>)
qed (use assms in \<open>auto simp: queue_inv_def sum_goto lock_def\<close>)

text \<open>The holder leaves, with a new sum.\<close>

lemma inv_leave:
  assumes q: "queue_inv q" "i < length (q_pcs q)" "pc_holds (q_pcs q ! i)"
    and n: "0 \<le> n" "n \<le> q_max q" "n = q_queued q - pc_debt (q_pcs q ! i)"
    and p: "pc_debt p = 0" "\<not> pc_holds p" "pc_frames p = []"
  shows "queue_inv (goto i p (unlock (q\<lparr>q_queued := n\<rparr>)))"
  unfolding queue_inv_def
proof (intro conjI)
  note alone = holder_alone [OF q]
  have small: "\<forall>x \<in> set ((q_pcs q)[i := QIdle]). list_all small_frame (pc_frames x)"
    by (rule all_goto) (use q in \<open>auto simp: queue_inv_def\<close>)
  have "\<forall>x \<in> set ((q_pcs q)[i := QIdle, i := p]). pc_fits (goto i p (unlock (q\<lparr>q_queued := n\<rparr>))) x \<and> list_all small_frame (pc_frames x)"
    by (rule all_goto) (use alone small p in \<open>auto simp: not_holding_fits\<close>)
  then show "\<forall>x \<in> set (q_pcs (goto i p (unlock (q\<lparr>q_queued := n\<rparr>)))).
      pc_fits (goto i p (unlock (q\<lparr>q_queued := n\<rparr>))) x \<and> list_all small_frame (pc_frames x)"
    by (simp add: unlock_def)
  show "sum_list (map (\<lambda>p. of_bool (pc_holds p)) (q_pcs (goto i p (unlock (q\<lparr>q_queued := n\<rparr>))))) =
      (of_bool (q_locked (goto i p (unlock (q\<lparr>q_queued := n\<rparr>)))) :: int)"
    using alone(2) q p by (simp add: unlock_def sum_goto queue_inv_def)
qed (use q n p in \<open>auto simp: queue_inv_def sum_goto unlock_def\<close>)

text \<open>A send and a receive on the channel.\<close>

lemma inv_send:
  assumes q: "queue_inv q" "i < length (q_pcs q)" "q_pcs q ! i = PushSend f" and "length (q_frames q) < queue_capacity"
  shows "queue_inv (goto i (PushAdd f) (q\<lparr>q_frames := q_frames q @ [f], q_sent := q_sent q @ [f]\<rparr>))" (is "queue_inv ?q")
  unfolding queue_inv_def
proof (intro conjI)
  show "\<forall>x \<in> set (q_pcs ?q). pc_fits ?q x \<and> list_all small_frame (pc_frames x)"
    unfolding goto_fields
    by (rule all_goto) (use pc_of [OF q(1,2)] q in \<open>auto simp: queue_inv_def intro: pc_fits_cong [of _ q]\<close>)
qed (use pc_of [OF q(1,2)] assms in \<open>auto simp: queue_inv_def sum_goto total_def\<close>)

lemma inv_receive:
  assumes q: "queue_inv q" "i < length (q_pcs q)" "q_pcs q ! i = PopWait \<or> q_pcs q ! i = ClearWait" and "q_frames q = f # fs"
  shows "queue_inv (goto i (TakeLock c f) (receive f fs q))" (is "queue_inv ?q")
  unfolding queue_inv_def
proof (intro conjI)
  show "\<forall>x \<in> set (q_pcs ?q). pc_fits ?q x \<and> list_all small_frame (pc_frames x)"
    unfolding goto_fields
    by (rule all_goto) (use assms in \<open>auto simp: queue_inv_def receive_def intro: pc_fits_cong [of _ q]\<close>)
qed (use assms in \<open>auto simp: queue_inv_def sum_goto total_def receive_def\<close>)

lemma no_wrap:
  assumes "queue_inv q" and "small_frame f"
  shows "wrap64 (q_queued q + frame_Duration f) = q_queued q + frame_Duration f"
    and "wrap64 (q_queued q - frame_Duration f) = q_queued q - frame_Duration f"
  using assms duration_bounds [OF assms(2)] by (auto simp: queue_inv_def intro!: wrap64_id)

text \<open>What a receiver subtracts is in the sum: the clamp at zero never acts.\<close>

lemma sub_covered:
  assumes "queue_inv q" and "i < length (q_pcs q)" and "q_pcs q ! i = TakeSub c f"
  shows "frame_Duration f \<le> q_queued q"
proof -
  have alone: "\<forall>x \<in> set ((q_pcs q)[i := QIdle]). \<not> pc_holds x"
    using assms by (intro holder_alone) auto
  have "\<forall>x \<in> set ((q_pcs q)[i := QIdle]). list_all small_frame (pc_frames x)"
    by (rule all_goto) (use assms in \<open>auto simp: queue_inv_def\<close>)
  with alone have "0 \<le> sum_list (map pc_debt ((q_pcs q)[i := QIdle]))" by (intro debts_nonneg) auto
  then have "frame_Duration f \<le> sum_list (map pc_debt (q_pcs q))" using assms by (simp add: sum_goto)
  moreover have "0 \<le> total (q_frames q)" using assms by (simp add: queue_inv_def total_nonneg)
  ultimately show ?thesis using assms by (simp add: queue_inv_def)
qed

lemma push_steps_inv:
  assumes q: "queue_inv q" "i < length (q_pcs q)"
  shows "q_pcs q ! i = PushCheck f \<Longrightarrow> queue_inv (push_check i f q)"
    and "q_pcs q ! i = PushSend f \<Longrightarrow> queue_inv (push_send i f q)"
    and "q_pcs q ! i = PushAdd f \<Longrightarrow> queue_inv (push_add i f q)"
proof -
  have leave: "queue_inv (goto i QIdle (unlock q))" if "pc_holds (q_pcs q ! i)" "pc_debt (q_pcs q ! i) = 0"
    using inv_leave [OF q that(1), of "q_queued q" QIdle] that q by (simp add: queue_inv_def)
  show "queue_inv (push_check i f q)" if pc: "q_pcs q ! i = PushCheck f"
  proof -
    have "small_frame f" using pc_of(2) [OF q] pc by simp
    from no_wrap(1) [OF q(1) this] leave pc pc_of [OF q] show ?thesis
      by (auto simp: push_check_def intro!: inv_goto q)
  qed
  show "queue_inv (push_send i f q)" if pc: "q_pcs q ! i = PushSend f"
    using inv_send [OF q pc] leave pc by (simp add: push_send_def)
  show "queue_inv (push_add i f q)" if pc: "q_pcs q ! i = PushAdd f"
  proof -
    have f: "small_frame f" "q_queued q + frame_Duration f \<le> q_max q" using pc_of [OF q] pc by simp_all
    show ?thesis
      unfolding push_add_def no_wrap(1) [OF q(1) f(1)]
      by (rule inv_leave [OF q]) (use pc f q duration_bounds [OF f(1)] in \<open>auto simp: queue_inv_def\<close>)
  qed
qed

lemma take_sub_inv:
  assumes q: "queue_inv q" "i < length (q_pcs q)" and pc: "q_pcs q ! i = TakeSub c f"
  shows "queue_inv (take_sub i c f q)"
proof -
  have f: "small_frame f" using pc_of(2) [OF q] pc by simp
  note covered = sub_covered [OF q pc]
  have "take_sub i c f q = goto i (if c then ClearWait else QIdle) (unlock (q\<lparr>q_queued := q_queued q - frame_Duration f\<rparr>))"
    using covered by (simp add: take_sub_def Let_def no_wrap(2) [OF q(1) f])
  also have "queue_inv \<dots>"
    by (rule inv_leave [OF q]) (use pc f q covered duration_bounds [OF f] in \<open>auto simp: queue_inv_def\<close>)
  finally show ?thesis .
qed

lemma queue_advance_inv:
  assumes q: "queue_inv q" "i < length (q_pcs q)" and step: "queue_advance i q = Some q'"
  shows "queue_inv q'"
proof (cases "q_pcs q ! i")
  case (PushLock f)
  with step pc_of [OF q] show ?thesis
    by (auto simp: queue_advance_def split: if_splits intro!: inv_lock q)
next
  case (TakeLock c f)
  with step pc_of [OF q] show ?thesis
    by (auto simp: queue_advance_def split: if_splits intro!: inv_lock q)
next
  case PopWait
  with step show ?thesis by (auto simp: queue_advance_def split: list.splits intro!: inv_receive q)
next
  case ClearWait
  with step show ?thesis by (auto simp: queue_advance_def split: list.splits intro!: inv_receive inv_goto q)
qed (use step push_steps_inv [OF q] take_sub_inv [OF q] in \<open>auto simp: queue_advance_def\<close>)

definition action_ok :: "queue_action \<Rightarrow> bool" where
  "action_ok a = (case a of Push _ f \<Rightarrow> small_frame f | _ \<Rightarrow> True)"

lemma queue_step_inv: "queue_inv q \<Longrightarrow> action_ok a \<Longrightarrow> queue_step q a = Some q' \<Longrightarrow> queue_inv q'"
  by (cases a) (auto simp: action_ok_def split: if_splits intro!: inv_goto intro: queue_advance_inv)

lemma queue_run_inv: "queue_inv q \<Longrightarrow> list_all action_ok as \<Longrightarrow> queue_inv (queue_run q as)"
proof (induction as arbitrary: q)
  case (Cons a as)
  then show ?case by (cases "queue_step q a") (auto dest: queue_step_inv)
qed simp

lemma new_queue_inv: "0 \<le> limit \<Longrightarrow> limit \<le> 2 ^ 62 \<Longrightarrow> queue_inv (newAudioQueue limit n)"
  by (auto simp: queue_inv_def newAudioQueue_def total_def sum_list_replicate queue_capacity_def)

section \<open>Operations end\<close>

text \<open>
  What is left to do when no operation starts any more: three steps per frame in the channel for a
  clearing goroutine, and the steps of each operation.
\<close>

fun pc_work :: "queue_pc \<Rightarrow> int" where
  "pc_work QIdle = 0"
| "pc_work (PushLock f) = 7"
| "pc_work (PushCheck f) = 6"
| "pc_work (PushSend f) = 5"
| "pc_work (PushAdd f) = 1"
| "pc_work PopWait = 1"
| "pc_work ClearWait = 1"
| "pc_work (TakeLock c f) = 3"
| "pc_work (TakeSub c f) = 2"

definition queue_work :: "audio_queue \<Rightarrow> int" where
  "queue_work q = 3 * int (length (q_frames q)) + sum_list (map pc_work (q_pcs q))"

lemma queue_work_nonneg: "0 \<le> queue_work q"
proof -
  have "0 \<le> pc_work p" for p by (cases p) auto
  then show ?thesis unfolding queue_work_def by (intro add_nonneg_nonneg sum_list_nonneg) auto
qed

lemma queue_advance_work:
  assumes "i < length (q_pcs q)" and "queue_advance i q = Some q'"
  shows "queue_work q' < queue_work q" "length (q_pcs q') = length (q_pcs q)"
  using assms
  by (auto simp: queue_advance_def queue_work_def push_check_def push_send_def push_add_def take_sub_def receive_def
      lock_def unlock_def Let_def sum_goto split: queue_pc.splits if_splits list.splits)

lemma holder_exists: "sum_list (map (\<lambda>p. of_bool (pc_holds p)) ps) = (1 :: int) \<Longrightarrow> \<exists>i < length ps. pc_holds (ps ! i)"
proof (induction ps)
  case (Cons p ps)
  then show ?case by (cases "pc_holds p") force+
qed simp

text \<open>A goroutine that holds the mutex is never blocked, and without a holder only an empty channel blocks.\<close>

lemma queue_progress:
  assumes "queue_inv q" and stuck: "\<forall>i < length (q_pcs q). queue_advance i q = None"
  shows "\<forall>p \<in> set (q_pcs q). p = QIdle \<or> p = PopWait \<and> q_frames q = []" "\<not> q_locked q"
proof -
  have free: "\<not> q_locked q"
  proof
    assume "q_locked q"
    with assms(1) have "sum_list (map (\<lambda>p. of_bool (pc_holds p)) (q_pcs q)) = (1 :: int)" by (simp add: queue_inv_def)
    from holder_exists [OF this] obtain i where i: "i < length (q_pcs q)" "pc_holds (q_pcs q ! i)" by blast
    then have "queue_advance i q \<noteq> None" by (cases "q_pcs q ! i") (auto simp: queue_advance_def)
    with stuck i show False by simp
  qed
  show "\<forall>p \<in> set (q_pcs q). p = QIdle \<or> p = PopWait \<and> q_frames q = []"
  proof
    fix p assume "p \<in> set (q_pcs q)"
    then obtain i where "i < length (q_pcs q)" "p = q_pcs q ! i" by (metis in_set_conv_nth)
    with stuck have "queue_advance i q = None" "p = q_pcs q ! i" by auto
    with free show "p = QIdle \<or> p = PopWait \<and> q_frames q = []"
      by (cases "q_pcs q ! i") (auto simp: queue_advance_def split: list.splits)
  qed
  show "\<not> q_locked q" by (rule free)
qed

fun queue_advances :: "audio_queue \<Rightarrow> nat list \<Rightarrow> audio_queue option" where
  "queue_advances q [] = Some q"
| "queue_advances q (i # is) =
     (if i < length (q_pcs q) then case queue_advance i q of None \<Rightarrow> None | Some q' \<Rightarrow> queue_advances q' is else None)"

lemma queue_advances_end:
  "queue_inv q \<Longrightarrow> queue_advances q is = Some q' \<Longrightarrow>
   queue_inv q' \<and> int (length is) + queue_work q' \<le> queue_work q \<and> length (q_pcs q') = length (q_pcs q)"
proof (induction "is" arbitrary: q)
  case (Cons i "is")
  then obtain q1 where i: "i < length (q_pcs q)" "queue_advance i q = Some q1" "queue_advances q1 is = Some q'"
    by (auto split: if_splits option.splits)
  with Cons.IH [OF queue_advance_inv [OF Cons.prems(1) i(1,2)]] queue_advance_work [OF i(1,2)] show ?case by auto
qed simp

lemma queue_run_goroutines: "length (q_pcs (queue_run q as)) = length (q_pcs q)"
proof (induction as arbitrary: q)
  case (Cons a as)
  have "length (q_pcs q') = length (q_pcs q)" if "queue_step q a = Some q'" for q'
    using that by (cases a) (auto split: if_splits dest: queue_advance_work(2))
  with Cons.IH show ?case by (auto split: option.splits)
qed simp

section \<open>Properties\<close>

text \<open>
  C17: Whatever goroutines push, pop and clear and however their steps interleave, the queue keeps its
  latency budget and its capacity, the sum of durations never goes negative (the clamp at zero never
  acts, so nothing is lost there) nor beyond the budget, the frames in the channel are exactly the
  accepted ones that were not received, in order, and when nobody is inside an operation the sum is
  the total duration of the frames in the channel.
\<close>

theorem audio_queue_accounts:
  assumes "0 \<le> limit" and "limit \<le> 2 ^ 62" and "list_all action_ok as"
    and "q = queue_run (newAudioQueue limit n) as"
  shows "length (q_frames q) \<le> queue_capacity \<and> 0 \<le> q_queued q \<and> q_queued q \<le> q_max q \<and>
    q_sent q = q_got q @ q_frames q \<and>
    (\<forall>i < length (q_pcs q). \<forall>c f. q_pcs q ! i = TakeSub c f \<longrightarrow> frame_Duration f \<le> q_queued q) \<and>
    (list_all (\<lambda>p. p = QIdle) (q_pcs q) \<longrightarrow> q_queued q = total (q_frames q))"
proof -
  have inv: "queue_inv q" using assms by (simp add: queue_run_inv new_queue_inv)
  have "sum_list (map pc_debt ps) = 0" if "list_all (\<lambda>p. p = QIdle) ps" for ps
    using that by (induction ps) auto
  with inv sub_covered [OF inv] show ?thesis by (auto simp: queue_inv_def)
qed

definition tone :: "nat \<Rightarrow> audio_frame" where
  "tone n = \<lparr>Data = replicate n (CHR ''x''), Format = \<lparr>SampleRateHz = 8000, Channels = 1\<rparr>, CapturedAt = 0\<rparr>"

definition tone_schedule :: "queue_action list" where
  "tone_schedule = [Push 0 (tone 320), Pop 1] @ replicate 4 (Advance 0) @ [Advance 1, Push 0 (tone 160), Advance 0, Advance 1]"

theorem audio_queue_accounts_witness:
  "let q = queue_run (newAudioQueue (400 * millisecond) 2) tone_schedule
   in length (q_frames q) \<le> queue_capacity \<and> 0 \<le> q_queued q \<and> q_queued q \<le> q_max q \<and> q_sent q = q_got q @ q_frames q"
proof -
  have "list_all action_ok tone_schedule"
    by (simp add: tone_schedule_def action_ok_def small_frame_def tone_def list_all_iff)
  from audio_queue_accounts [OF _ _ this refl, of "400 * millisecond" 2] show ?thesis
    by (simp only: Let_def) simp
qed

text \<open>
  C35: Every operation on a queue ends: once no operation starts any more, no sequence of goroutine steps is
  longer than the work that was left, and when no goroutine can take a step all of them are outside, or
  wait in \<^verbatim>\<open>Pop\<close> for a frame while the channel is empty. In particular the mutex is never left locked,
  and \<^verbatim>\<open>Clear\<close> does not loop for ever.
\<close>

theorem audio_queue_operations_end:
  assumes "0 \<le> limit" and "limit \<le> 2 ^ 62" and "list_all action_ok as"
    and "q = queue_run (newAudioQueue limit n) as" and "queue_advances q is = Some q'"
  shows "int (length is) \<le> queue_work q \<and>
    (list_all (\<lambda>i. queue_advance i q' = None) [0..<n] \<longrightarrow>
     list_all (\<lambda>p. p = QIdle \<or> p = PopWait \<and> q_frames q' = []) (q_pcs q') \<and> \<not> q_locked q')"
proof -
  have q: "queue_inv q" "length (q_pcs q) = n" using assms(1-4)
    by (simp_all add: queue_run_inv new_queue_inv queue_run_goroutines) (simp add: newAudioQueue_def)
  from queue_advances_end [OF q(1) assms(5)] q(2) queue_work_nonneg [of q'] queue_progress [of q']
  show ?thesis by (auto simp: list_all_iff)
qed

theorem audio_queue_operations_end_witness:
  "let q = queue_run (newAudioQueue (400 * millisecond) 2) [Push 0 (tone 320), Clear 1]
   in int (length [1, 0, 0, 0, 0 :: nat]) \<le> queue_work q"
proof -
  let ?q = "queue_run (newAudioQueue (400 * millisecond) 2) [Push 0 (tone 320), Clear 1]"
  have "queue_advances ?q [1, 0, 0, 0, 0] \<noteq> None" by code_simp
  then obtain q' where "queue_advances ?q [1, 0, 0, 0, 0] = Some q'" by auto
  from audio_queue_operations_end [OF _ _ _ refl this] show ?thesis
    by (simp add: action_ok_def small_frame_def tone_def)
qed

end
