(* ===== verification/MediaSession.thy ===== *)
theory MediaSession
  imports MediaQueue
begin

text \<open>
  The contracts of a media session, \<^verbatim>\<open>media/session/session.go\<close>: engines and their formats, the
  configuration with its validation and comparison, control commands. \<open>J\<close> stands for
  \<^verbatim>\<open>encoding/json\<close>: whether a text decodes to a JSON object.
\<close>

datatype engine = EngineEcho | EngineComposable | EngineIntegrated | OtherEngine string

record engine_profile =
  InputFormat :: audio_format
  OutputFormat :: audio_format

definition ProfileForEngine :: "engine \<Rightarrow> goerr + engine_profile" where
  "ProfileForEngine e =
     (let profile = (\<lambda>hz. \<lparr>InputFormat = \<lparr>SampleRateHz = hz, Channels = 1\<rparr>,
                            OutputFormat = \<lparr>SampleRateHz = hz, Channels = 1\<rparr>\<rparr>)
      in case e of
           EngineEcho \<Rightarrow> Inr (profile 16000)
         | EngineComposable \<Rightarrow> Inr (profile 16000)
         | EngineIntegrated \<Rightarrow> Inr (profile 24000)
         | OtherEngine _ \<Rightarrow> Inl (ErrorString ''unsupported media engine''))"

record provider_runtime =
  pr_role :: string
  pr_provider :: string
  pr_api_key :: string
  pr_config :: string

record tool_definition =
  td_id :: uuid
  td_name :: string
  td_description :: string
  td_parameters :: string

record media_config =
  mc_id :: uuid
  mc_organization_id :: uuid
  mc_call_id :: uuid
  mc_channel_id :: uuid
  mc_engine :: engine
  mc_input :: audio_format
  mc_output :: audio_format
  mc_language :: string
  mc_instructions :: string
  mc_voice :: string
  mc_engine_config :: string
  mc_tools :: "tool_definition list"
  mc_providers :: "provider_runtime list"

fun check_providers :: "(string \<Rightarrow> bool) \<Rightarrow> string list \<Rightarrow> provider_runtime list \<Rightarrow> goerr + unit" where
  "check_providers J roles [] = Inr ()"
| "check_providers J roles (p # ps) =
     (if pr_role p = [] \<or> pr_provider p = [] \<or> pr_api_key p = []
      then Inl (ErrorString ''media provider role, provider, and api_key are required'')
      else if pr_role p \<in> set roles then Inl (ErrorString ''duplicate media provider role'')
      else if pr_config p \<noteq> [] \<and> \<not> J (pr_config p)
      then Inl (ErrorString ''media provider config must be a JSON object'')
      else check_providers J (pr_role p # roles) ps)"

fun check_tools :: "(string \<Rightarrow> bool) \<Rightarrow> string list \<Rightarrow> tool_definition list \<Rightarrow> goerr + unit" where
  "check_tools J names [] = Inr ()"
| "check_tools J names (t # ts) =
     (if td_id t = uuid_Nil \<or> td_name t = [] then Inl (ErrorString ''media tool id and name are required'')
      else if td_name t \<in> set names then Inl (ErrorString ''duplicate media tool name'')
      else if \<not> J (td_parameters t) then Inl (ErrorString ''media tool parameters must be a JSON object'')
      else check_tools J (td_name t # names) ts)"

definition config_Validate :: "(string \<Rightarrow> bool) \<Rightarrow> media_config \<Rightarrow> goerr + unit" where
  "config_Validate J c =
     (if mc_id c = uuid_Nil then Inl (ErrorString ''session id is required'')
      else if mc_organization_id c = uuid_Nil then Inl (ErrorString ''organization id is required'')
      else if mc_call_id c = uuid_Nil then Inl (ErrorString ''call id is required'')
      else if mc_channel_id c = uuid_Nil then Inl (ErrorString ''channel id is required'')
      else case ProfileForEngine (mc_engine c) of
        Inl e \<Rightarrow> Inl e
      | Inr profile \<Rightarrow>
          (case format_Validate (mc_input c) of
             Inl e \<Rightarrow> Inl (Wrap ''input format'' e)
           | Inr _ \<Rightarrow>
               (case format_Validate (mc_output c) of
                  Inl e \<Rightarrow> Inl (Wrap ''output format'' e)
                | Inr _ \<Rightarrow>
                    if mc_input c \<noteq> InputFormat profile \<or> mc_output c \<noteq> OutputFormat profile
                    then Inl (ErrorString ''media engine requires another format'')
                    else if mc_engine_config c \<noteq> [] \<and> \<not> J (mc_engine_config c)
                    then Inl (ErrorString ''engine config must be a JSON object'')
                    else case check_providers J [] (mc_providers c) of
                      Inl e \<Rightarrow> Inl e
                    | Inr _ \<Rightarrow> check_tools J [] (mc_tools c))))"

definition toolDefinitionsEqual :: "tool_definition list \<Rightarrow> tool_definition list \<Rightarrow> bool" where
  "toolDefinitionsEqual l r \<longleftrightarrow>
     length l = length r \<and>
     list_all2 (\<lambda>a b. td_id a = td_id b \<and> td_name a = td_name b \<and> td_description a = td_description b \<and>
       td_parameters a = td_parameters b) l r"

definition providerRuntimesEqual :: "provider_runtime list \<Rightarrow> provider_runtime list \<Rightarrow> bool" where
  "providerRuntimesEqual l r \<longleftrightarrow>
     length l = length r \<and>
     list_all2 (\<lambda>a b. pr_role a = pr_role b \<and> pr_provider a = pr_provider b \<and> pr_api_key a = pr_api_key b \<and>
       pr_config a = pr_config b) l r"

definition config_Equal :: "media_config \<Rightarrow> media_config \<Rightarrow> bool" where
  "config_Equal c d \<longleftrightarrow>
     mc_id c = mc_id d \<and> mc_organization_id c = mc_organization_id d \<and> mc_call_id c = mc_call_id d \<and>
     mc_channel_id c = mc_channel_id d \<and> mc_engine c = mc_engine d \<and> mc_input c = mc_input d \<and>
     mc_output c = mc_output d \<and> mc_language c = mc_language d \<and> mc_instructions c = mc_instructions d \<and>
     mc_voice c = mc_voice d \<and> mc_engine_config c = mc_engine_config d \<and>
     toolDefinitionsEqual (mc_tools c) (mc_tools d) \<and> providerRuntimesEqual (mc_providers c) (mc_providers d)"

definition config_Provider :: "media_config \<Rightarrow> string \<Rightarrow> provider_runtime option" where
  "config_Provider c role = find (\<lambda>p. pr_role p = role) (mc_providers c)"

record tool_result =
  tr_tool_call_id :: string
  tr_name :: string
  tr_content :: string
  tr_is_error :: bool

datatype command_type = CommandInterrupt | CommandStop | CommandToolResult | OtherCommand string

record media_command =
  cm_type :: command_type
  cm_tool_result :: "tool_result option"

definition command_Validate :: "media_command \<Rightarrow> goerr + unit" where
  "command_Validate c =
     (case cm_type c of
        CommandInterrupt \<Rightarrow>
          if cm_tool_result c \<noteq> None then Inl (ErrorString ''media command does not accept a tool result'') else Inr ()
      | CommandStop \<Rightarrow>
          if cm_tool_result c \<noteq> None then Inl (ErrorString ''media command does not accept a tool result'') else Inr ()
      | CommandToolResult \<Rightarrow>
          (case cm_tool_result c of
             None \<Rightarrow> Inl (ErrorString ''tool_result is required'')
           | Some r \<Rightarrow> if tr_tool_call_id r = [] then Inl (ErrorString ''tool_call_id is required'') else Inr ())
      | OtherCommand _ \<Rightarrow> Inl (ErrorString ''unsupported media command''))"

section \<open>What a valid configuration is\<close>

lemma check_providers_Inr:
  "check_providers J roles ps = Inr () \<longleftrightarrow>
     list_all (\<lambda>p. pr_role p \<noteq> [] \<and> pr_provider p \<noteq> [] \<and> pr_api_key p \<noteq> [] \<and> (pr_config p \<noteq> [] \<longrightarrow> J (pr_config p))) ps \<and>
     distinct (map pr_role ps) \<and> set roles \<inter> pr_role ` set ps = {}"
  by (induction ps arbitrary: roles) auto

lemma check_tools_Inr:
  "check_tools J names ts = Inr () \<longleftrightarrow>
     list_all (\<lambda>t. td_id t \<noteq> uuid_Nil \<and> td_name t \<noteq> [] \<and> J (td_parameters t)) ts \<and>
     distinct (map td_name ts) \<and> set names \<inter> td_name ` set ts = {}"
  by (induction ts arbitrary: names) auto

text \<open>The formats of a valid configuration are the ones of its engine, and the same in both directions.\<close>

lemma valid_config_formats:
  assumes "config_Validate J c = Inr ()"
  shows "mc_input c = mc_output c" "\<exists>p. ProfileForEngine (mc_engine c) = Inr p \<and> mc_input c = InputFormat p"
    "mc_id c \<noteq> uuid_Nil"
  using assms
  by (auto simp: config_Validate_def ProfileForEngine_def Let_def split: if_splits sum.splits engine.splits)

lemma config_Equal_eq: "config_Equal c d \<longleftrightarrow> c = d"
proof
  assume e: "config_Equal c d"
  have "mc_tools c = mc_tools d"
    using e by (auto simp: config_Equal_def toolDefinitionsEqual_def intro!: list_all2_all_nthI nth_equalityI
        dest: list_all2_nthD)
  moreover have "mc_providers c = mc_providers d"
    using e by (auto simp: config_Equal_def providerRuntimesEqual_def intro!: nth_equalityI dest: list_all2_nthD)
  ultimately show "c = d" using e by (simp add: config_Equal_def)
qed (simp add: config_Equal_def toolDefinitionsEqual_def providerRuntimesEqual_def list_all2_refl)

end
