(* ===== verification/MediaManager.thy ===== *)
theory MediaManager
  imports MediaSession
begin

text \<open>
  The media session manager, \<^verbatim>\<open>media/session/manager.go\<close> with the failure reasons of \<^verbatim>\<open>metrics.go\<close>. A
  session is an object with a mutex, once-guards and channels that several goroutines work on: the one
  that attached and pumps audio, callers of \<^verbatim>\<open>Stop\<close> and \<^verbatim>\<open>Drain\<close>, the attach timer, the control
  connection. Each critical section, channel operation and once-guard is one step of a goroutine, steps
  interleave in any order. The pump itself (five goroutines between the connection and the stream) is
  represented by what it does to the session: it publishes events and returns with some error.
\<close>

section \<open>Errors\<close>

abbreviation ErrSessionNotFound :: goerr where "ErrSessionNotFound \<equiv> Sentinel ''session.ErrSessionNotFound''"
abbreviation ErrSessionAlreadyExists :: goerr where "ErrSessionAlreadyExists \<equiv> Sentinel ''session.ErrSessionAlreadyExists''"
abbreviation ErrSessionAlreadyAttached :: goerr where "ErrSessionAlreadyAttached \<equiv> Sentinel ''session.ErrSessionAlreadyAttached''"
abbreviation ErrControlAlreadyAttached :: goerr where "ErrControlAlreadyAttached \<equiv> Sentinel ''session.ErrControlAlreadyAttached''"
abbreviation ErrControlBackpressure :: goerr where "ErrControlBackpressure \<equiv> Sentinel ''session.ErrControlBackpressure''"
abbreviation ErrManagerDraining :: goerr where "ErrManagerDraining \<equiv> Sentinel ''session.ErrManagerDraining''"
abbreviation ErrCapacityExceeded :: goerr where "ErrCapacityExceeded \<equiv> Sentinel ''session.ErrCapacityExceeded''"
abbreviation ErrInputLatency :: goerr where "ErrInputLatency \<equiv> Sentinel ''session.ErrInputLatencyBudgetExceeded''"
abbreviation ErrOutputLatency :: goerr where "ErrOutputLatency \<equiv> Sentinel ''session.ErrOutputLatencyBudgetExceeded''"
abbreviation ErrFrameDuration :: goerr where "ErrFrameDuration \<equiv> Sentinel ''session.ErrFrameDurationExceeded''"
abbreviation ErrProviderStartTimeout :: goerr where "ErrProviderStartTimeout \<equiv> Sentinel ''session.ErrProviderStartTimeout''"
abbreviation ErrProviderWriteTimeout :: goerr where "ErrProviderWriteTimeout \<equiv> Sentinel ''session.ErrProviderWriteTimeout''"
abbreviation ErrPlaybackWriteTimeout :: goerr where "ErrPlaybackWriteTimeout \<equiv> Sentinel ''session.ErrPlaybackWriteTimeout''"
abbreviation ErrProviderFailure :: goerr where "ErrProviderFailure \<equiv> Sentinel ''session.ErrProviderFailure''"
abbreviation ErrCanceled :: goerr where "ErrCanceled \<equiv> Sentinel ''context.Canceled''"
abbreviation ErrEOF :: goerr where "ErrEOF \<equiv> Sentinel ''io.EOF''"

datatype failure_reason =
    FailureAttachTimeout | FailureInputBackpressure | FailureOutputBackpressure | FailureFrameTooLarge
  | FailureProviderTimeout | FailurePlaybackTimeout | FailureProvider | FailureControlBackpressure | FailureTransport

definition classifyFailure :: "goerr \<Rightarrow> failure_reason" where
  "classifyFailure e =
     (if error_is e ErrInputLatency then FailureInputBackpressure
      else if error_is e ErrOutputLatency then FailureOutputBackpressure
      else if error_is e ErrFrameDuration then FailureFrameTooLarge
      else if error_is e ErrProviderStartTimeout \<or> error_is e ErrProviderWriteTimeout then FailureProviderTimeout
      else if error_is e ErrPlaybackWriteTimeout then FailurePlaybackTimeout
      else if error_is e ErrProviderFailure then FailureProvider
      else if error_is e ErrControlBackpressure then FailureControlBackpressure
      else FailureTransport)"

definition isNormalDisconnect :: "goerr option \<Rightarrow> bool" where
  "isNormalDisconnect e = (case e of None \<Rightarrow> True | Some x \<Rightarrow> error_is x ErrCanceled \<or> error_is x ErrEOF)"

section \<open>A managed session and its goroutines\<close>

text \<open>An event of the control stream: a terminal failure of the media runtime, or one of the provider.\<close>

datatype media_event = TerminalFailure failure_reason | ProviderEvent nat

record control_chan =
  ch_events :: "media_event list"
  ch_closed :: bool

datatype attach_timer = Armed | Fired | Stopped

datatype once = OnceFree | OnceRunning | OnceDone

record connection_metadata =
  md_session :: uuid
  md_call :: uuid
  md_channel :: uuid
  md_organization :: uuid
  md_format :: audio_format

text \<open>
  What follows the \<^verbatim>\<open>finish\<close> of a session: the rest of \<^verbatim>\<open>Attach\<close> (with the error of the pump), of \<^verbatim>\<open>Stop\<close>, of the timer
  function, or nothing in a goroutine of \<^verbatim>\<open>Drain\<close>. \<open>CloseChan\<close> carries the channel taken from the session.
\<close>

datatype fin_cont = ThenAttach "goerr option" | ThenStop | ThenTimer | ThenNothing

datatype session_pc =
    SDone
  | AttachSection connection_metadata
  | Pumping
  | AttachFailed goerr
  | FinSection fin_cont
  | FinOnce fin_cont bool
  | FinCancel fin_cont bool
  | CloseTake fin_cont bool
  | CloseChan fin_cont bool "nat option"
  | FinStream fin_cont bool
  | FinMark fin_cont bool
  | Completing "goerr option"
  | WaitComplete
  | Removing
  | ControlSection
  | TimerPublish
  | TimerFinish

record managed =
  so_config :: media_config
  so_cancelled :: bool
  so_complete :: bool
  so_control :: "nat option"
  so_controlOpen :: bool
  so_controlDone :: bool
  so_attached :: bool
  so_timer :: attach_timer
  so_finished :: bool
  so_once :: once
  so_stream_closed :: nat
  so_connection :: bool
  so_chans :: "control_chan list"
  so_attachments :: "bool list"
  so_failures :: "failure_reason list"
  so_results :: "(goerr + unit) list"
  so_panic :: bool
  so_pcs :: "session_pc list"

definition new_session :: "media_config \<Rightarrow> managed" where
  "new_session cfg =
     \<lparr>so_config = cfg, so_cancelled = False, so_complete = False, so_control = None, so_controlOpen = False,
      so_controlDone = False, so_attached = False, so_timer = Armed, so_finished = False, so_once = OnceFree,
      so_stream_closed = 0, so_connection = False, so_chans = [], so_attachments = [], so_failures = [],
      so_results = [], so_panic = False, so_pcs = []\<rparr>"

definition moveto :: "nat \<Rightarrow> session_pc \<Rightarrow> managed \<Rightarrow> managed" where
  "moveto i p s = s\<lparr>so_pcs := (so_pcs s)[i := p]\<rparr>"

definition spawn :: "session_pc \<Rightarrow> managed \<Rightarrow> managed" where
  "spawn p s = s\<lparr>so_pcs := so_pcs s @ [p]\<rparr>"

definition returns :: "goerr + unit \<Rightarrow> managed \<Rightarrow> managed" where
  "returns r s = s\<lparr>so_results := so_results s @ [r]\<rparr>"

definition fails :: "failure_reason \<Rightarrow> managed \<Rightarrow> managed" where
  "fails r s = s\<lparr>so_failures := so_failures s @ [r]\<rparr>"

text \<open>Closing a channel and sending without blocking; a closed channel makes both panic.\<close>

definition close_chan :: "nat \<Rightarrow> managed \<Rightarrow> managed" where
  "close_chan c s =
     (if ch_closed (so_chans s ! c) then s\<lparr>so_panic := True\<rparr>
      else s\<lparr>so_chans := (so_chans s)[c := (so_chans s ! c)\<lparr>ch_closed := True\<rparr>]\<rparr>)"

definition control_capacity :: nat where
  "control_capacity = 64"

definition publish :: "media_event \<Rightarrow> managed \<Rightarrow> (goerr + unit) \<times> managed" where
  "publish ev s =
     (if \<not> so_controlOpen s then (Inr (), s)
      else case so_control s of
        None \<Rightarrow> (Inr (), s)
      | Some c \<Rightarrow>
          let ch = so_chans s ! c
          in if ch_closed ch then (Inr (), s\<lparr>so_panic := True\<rparr>)
             else if length (ch_events ch) < control_capacity
             then (Inr (), s\<lparr>so_chans := (so_chans s)[c := ch\<lparr>ch_events := ch_events ch @ [ev]\<rparr>]\<rparr>)
             else (Inl ErrControlBackpressure, s))"

definition stop_timer :: "managed \<Rightarrow> managed" where
  "stop_timer s = (if so_timer s = Armed then s\<lparr>so_timer := Stopped\<rparr> else s)"

section \<open>Steps of a goroutine\<close>

definition attach_section :: "nat \<Rightarrow> connection_metadata \<Rightarrow> managed \<Rightarrow> managed" where
  "attach_section i md s =
     (if md_call md \<noteq> mc_call_id (so_config s) \<or> md_channel md \<noteq> mc_channel_id (so_config s) \<or>
         md_organization md \<noteq> mc_organization_id (so_config s)
      then moveto i SDone (returns (Inl (ErrorString ''media connection identity does not match session'')) s)
      else if md_format md \<noteq> mc_input (so_config s) \<or> md_format md \<noteq> mc_output (so_config s)
      then moveto i SDone (returns (Inl (ErrorString ''media connection format does not match session'')) s)
      else if so_attached s then moveto i SDone (returns (Inl ErrSessionAlreadyAttached) s)
      else if so_finished s \<or> so_cancelled s then moveto i SDone (returns (Inl ErrSessionNotFound) s)
      else moveto i Pumping (stop_timer (s\<lparr>so_attached := True, so_connection := True\<rparr>)))"

definition after_pump :: "nat \<Rightarrow> goerr option \<Rightarrow> managed \<Rightarrow> managed" where
  "after_pump i e s =
     (case e of
        None \<Rightarrow> moveto i (FinSection (ThenAttach None)) s
      | Some x \<Rightarrow>
          if isNormalDisconnect e then moveto i (FinSection (ThenAttach e)) s
          else let s' = fails (classifyFailure x) s
               in if error_is x ErrProviderFailure then moveto i (FinSection (ThenAttach e)) s'
                  else moveto i (AttachFailed x) s')"

definition after_finish :: "nat \<Rightarrow> fin_cont \<Rightarrow> managed \<Rightarrow> managed" where
  "after_finish i k s =
     (case k of
        ThenAttach e \<Rightarrow> moveto i (Completing e) s
      | ThenStop \<Rightarrow> moveto i WaitComplete s
      | ThenTimer \<Rightarrow> moveto i Removing (fails FailureAttachTimeout s)
      | ThenNothing \<Rightarrow> moveto i SDone s)"

definition control_section :: "nat \<Rightarrow> managed \<Rightarrow> managed" where
  "control_section i s =
     (if so_finished s \<or> so_cancelled s then moveto i SDone (returns (Inl ErrSessionNotFound) s)
      else if so_controlOpen s then moveto i SDone (returns (Inl ErrControlAlreadyAttached) s)
      else moveto i SDone (returns (Inr ()) (s\<lparr>so_control := Some (length (so_chans s)), so_controlOpen := True,
             so_chans := so_chans s @ [\<lparr>ch_events = [], ch_closed = False\<rparr>],
             so_attachments := so_attachments s @ [False]\<rparr>)))"

definition finish_unattached :: "nat \<Rightarrow> managed \<Rightarrow> managed" where
  "finish_unattached i s =
     (if so_finished s \<or> so_attached s then moveto i SDone s
      else moveto i (FinOnce ThenTimer False) (s\<lparr>so_finished := True\<rparr>))"

datatype session_act = Proceed | CtxDone | PumpEvent media_event | PumpReturn "goerr option"

definition pump_step :: "nat \<Rightarrow> session_act \<Rightarrow> managed \<Rightarrow> managed option" where
  "pump_step i a s =
     (case a of
        PumpReturn e \<Rightarrow> Some (after_pump i e s)
      | PumpEvent ev \<Rightarrow> (case publish ev s of (Inl e, s') \<Rightarrow> Some (after_pump i (Some e) s') | (Inr _, s') \<Rightarrow> Some s')
      | _ \<Rightarrow> None)"

definition session_advance :: "nat \<Rightarrow> session_act \<Rightarrow> managed \<Rightarrow> managed option" where
  "session_advance i a s =
     (case so_pcs s ! i of
        SDone \<Rightarrow> None
      | AttachSection md \<Rightarrow> Some (attach_section i md s)
      | Pumping \<Rightarrow> pump_step i a s
      | AttachFailed e \<Rightarrow>
          Some (moveto i (FinSection (ThenAttach (Some e))) (snd (publish (TerminalFailure (classifyFailure e)) s)))
      | FinSection k \<Rightarrow> Some (moveto i (FinOnce k (so_attached s)) (stop_timer (s\<lparr>so_finished := True\<rparr>)))
      | FinOnce k b \<Rightarrow>
          (case so_once s of
             OnceFree \<Rightarrow> Some (moveto i (FinCancel k b) (s\<lparr>so_once := OnceRunning\<rparr>))
           | OnceRunning \<Rightarrow> None
           | OnceDone \<Rightarrow> Some (after_finish i k s))
      | FinCancel k b \<Rightarrow> Some (moveto i (CloseTake k b) (s\<lparr>so_cancelled := True\<rparr>))
      | CloseTake k b \<Rightarrow>
          Some (moveto i (CloseChan k b (so_control s)) (s\<lparr>so_controlOpen := False, so_control := None\<rparr>))
      | CloseChan k b c \<Rightarrow>
          Some (moveto i (FinStream k b) ((case c of None \<Rightarrow> s | Some c' \<Rightarrow> close_chan c' s)\<lparr>so_controlDone := True\<rparr>))
      | FinStream k b \<Rightarrow> Some (moveto i (FinMark k b) (s\<lparr>so_stream_closed := Suc (so_stream_closed s)\<rparr>))
      | FinMark k b \<Rightarrow> Some (after_finish i k (s\<lparr>so_complete := (so_complete s \<or> \<not> b), so_once := OnceDone\<rparr>))
      | Completing e \<Rightarrow>
          Some (moveto i Removing (returns (if isNormalDisconnect e then Inr () else Inl (the e)) (s\<lparr>so_complete := True\<rparr>)))
      | WaitComplete \<Rightarrow>
          (if a = CtxDone then Some (moveto i SDone s) else if so_complete s then Some (moveto i Removing s) else None)
      | Removing \<Rightarrow> None
      | ControlSection \<Rightarrow> Some (control_section i s)
      | TimerPublish \<Rightarrow> Some (moveto i TimerFinish (snd (publish (TerminalFailure FailureAttachTimeout) s)))
      | TimerFinish \<Rightarrow> Some (finish_unattached i s))"

text \<open>
  What reaches a session from outside: calls that begin, the timer, the client that reads the control
  channel, and \<^verbatim>\<open>ControlAttachment.Close\<close>, once per attachment.
\<close>

datatype session_call =
    CallAttach connection_metadata | CallStop | CallFinish | CallControl | CallClose nat | TimerFires | ReadControl nat

definition close_attachment :: "nat \<Rightarrow> managed \<Rightarrow> managed option" where
  "close_attachment a s =
     (if a < length (so_attachments s) \<and> \<not> so_attachments s ! a
      then let s1 = s\<lparr>so_attachments := (so_attachments s)[a := True]\<rparr>
           in Some (case so_control s of
                      Some c \<Rightarrow> if so_controlOpen s then close_chan c (s1\<lparr>so_controlOpen := False, so_control := None\<rparr>) else s1
                    | None \<Rightarrow> s1)
      else None)"

definition read_control :: "nat \<Rightarrow> managed \<Rightarrow> managed option" where
  "read_control c s =
     (if c < length (so_chans s) \<and> ch_events (so_chans s ! c) \<noteq> []
      then Some (s\<lparr>so_chans := (so_chans s)[c := (so_chans s ! c)\<lparr>ch_events := tl (ch_events (so_chans s ! c))\<rparr>]\<rparr>)
      else None)"

fun session_receive :: "session_call \<Rightarrow> managed \<Rightarrow> managed option" where
  "session_receive (CallAttach md) s = Some (spawn (AttachSection md) s)"
| "session_receive CallStop s = Some (spawn (FinSection ThenStop) s)"
| "session_receive CallFinish s = Some (spawn (FinSection ThenNothing) s)"
| "session_receive CallControl s = Some (spawn ControlSection s)"
| "session_receive (CallClose a) s = close_attachment a s"
| "session_receive TimerFires s = (if so_timer s = Armed then Some (spawn TimerPublish (s\<lparr>so_timer := Fired\<rparr>)) else None)"
| "session_receive (ReadControl c) s = read_control c s"

text \<open>
  \<^verbatim>\<open>ControlAttachment.Command\<close>: a command of the stream goes to it, with an outcome that the stream decides; a
  stop is a call of the manager.
\<close>

definition control_Command :: "media_command \<Rightarrow> goerr option \<Rightarrow> managed \<Rightarrow> (goerr + unit) \<times> session_call option" where
  "control_Command cmd outcome s =
     (case command_Validate cmd of
        Inl e \<Rightarrow> (Inl e, None)
      | Inr _ \<Rightarrow>
          if cm_type cmd = CommandStop then (Inr (), Some CallStop)
          else if so_finished s then (Inl ErrSessionNotFound, None)
          else (case outcome of None \<Rightarrow> Inr () | Some e \<Rightarrow> Inl e, None))"

section \<open>The manager\<close>

text \<open>
  The registry under the manager's mutex and the sessions it ever created (addresses are positions).
  \<open>mg_drains\<close> holds the calls of \<^verbatim>\<open>Drain\<close> in progress, each with the part of its snapshot it still waits for.
  A removal updates the metrics after it gave the mutex back: \<open>mg_unremoved\<close> and \<open>mg_uncompleted\<close> count the
  calls of \<^verbatim>\<open>sessionRemoved\<close> and \<^verbatim>\<open>sessionCompleted\<close> that are still to come. \<open>mg_timeouts\<close> counts the starts that
  timed out, \<open>mg_late_starters\<close> those whose goroutine still runs, \<open>mg_late_streams\<close> the streams that such a
  goroutine put into its channel, from which nobody reads any more.
\<close>

record manager =
  mg_capacity :: nat
  mg_engines :: "engine list"
  mg_draining :: bool
  mg_sessions :: "(uuid \<times> nat) list"
  mg_objs :: "managed list"
  mg_drains :: "(uuid \<times> nat) list option list"
  mg_active :: nat
  mg_started :: nat
  mg_completed :: nat
  mg_timeouts :: nat
  mg_unremoved :: nat
  mg_uncompleted :: nat
  mg_late_starters :: nat
  mg_late_streams :: nat

record runtime_limits =
  MaxFrameDuration :: int
  InputQueueDuration :: int
  OutputQueueDuration :: int
  ProviderStartTimeout :: int
  ProviderWriteTimeout :: int
  PlaybackWriteTimeout :: int

definition DefaultRuntimeLimits :: runtime_limits where
  "DefaultRuntimeLimits =
     \<lparr>MaxFrameDuration = 200 * millisecond, InputQueueDuration = 400 * millisecond,
      OutputQueueDuration = 800 * millisecond, ProviderStartTimeout = 10 * second,
      ProviderWriteTimeout = 2 * second, PlaybackWriteTimeout = 2 * second\<rparr>"

definition limits_validate :: "runtime_limits \<Rightarrow> goerr + unit" where
  "limits_validate l =
     (if MaxFrameDuration l \<le> 0 \<or> InputQueueDuration l \<le> 0 \<or> OutputQueueDuration l \<le> 0 \<or>
         ProviderStartTimeout l \<le> 0 \<or> ProviderWriteTimeout l \<le> 0 \<or> PlaybackWriteTimeout l \<le> 0
      then Inl (ErrorString ''media runtime limits must be positive'') else Inr ())"

text \<open>Starters are not nil; \<open>engines\<close> names the configured ones.\<close>

definition NewManager :: "int \<Rightarrow> int \<Rightarrow> engine list \<Rightarrow> runtime_limits option \<Rightarrow> goerr + manager" where
  "NewManager capacity attachTimeout engines limits =
     (if capacity \<le> 0 then Inl (ErrorString ''media session capacity must be positive'')
      else if engines = [] then Inl (ErrorString ''at least one media engine is required'')
      else if attachTimeout \<le> 0 then Inl (ErrorString ''media attachment timeout must be positive'')
      else case limits_validate (case limits of None \<Rightarrow> DefaultRuntimeLimits | Some l \<Rightarrow> l) of
        Inl e \<Rightarrow> Inl e
      | Inr _ \<Rightarrow>
          Inr \<lparr>mg_capacity = nat capacity, mg_engines = engines, mg_draining = False, mg_sessions = [], mg_objs = [],
               mg_drains = [], mg_active = 0, mg_started = 0, mg_completed = 0, mg_timeouts = 0,
               mg_unremoved = 0, mg_uncompleted = 0, mg_late_starters = 0, mg_late_streams = 0\<rparr>)"

text \<open>
  What the starter of an engine did within its timeout; the mutex is held meanwhile. After a timeout the
  goroutine that runs the starter goes on, with a cancelled context.
\<close>

datatype start_outcome = Started | StartFailed goerr | StartTimedOut

definition manager_Start :: "(string \<Rightarrow> bool) \<Rightarrow> media_config \<Rightarrow> start_outcome \<Rightarrow> manager \<Rightarrow> (goerr + unit) \<times> manager" where
  "manager_Start J cfg outcome m =
     (case config_Validate J cfg of
        Inl e \<Rightarrow> (Inl e, m)
      | Inr _ \<Rightarrow>
          if mg_draining m then (Inl ErrManagerDraining, m)
          else if map_of (mg_sessions m) (mc_id cfg) \<noteq> None then (Inl ErrSessionAlreadyExists, m)
          else if length (mg_sessions m) \<ge> mg_capacity m then (Inl ErrCapacityExceeded, m)
          else if mc_engine cfg \<notin> set (mg_engines m) then (Inl (ErrorString ''media engine is not configured''), m)
          else case outcome of
            StartFailed e \<Rightarrow> (Inl (Wrap ''start media engine'' e), m)
          | StartTimedOut \<Rightarrow>
              (Inl ErrProviderStartTimeout, m\<lparr>mg_timeouts := Suc (mg_timeouts m), mg_late_starters := Suc (mg_late_starters m)\<rparr>)
          | Started \<Rightarrow>
              (Inr (), m\<lparr>mg_sessions := (mc_id cfg, length (mg_objs m)) # mg_sessions m,
                         mg_objs := mg_objs m @ [new_session cfg],
                         mg_started := Suc (mg_started m), mg_active := Suc (mg_active m)\<rparr>))"

definition update_obj :: "nat \<Rightarrow> managed \<Rightarrow> manager \<Rightarrow> manager" where
  "update_obj r s m = m\<lparr>mg_objs := (mg_objs m)[r := s]\<rparr>"

text \<open>A call that looks its session up and then works on it.\<close>

definition lookup_call :: "uuid \<Rightarrow> session_call \<Rightarrow> manager \<Rightarrow> manager option" where
  "lookup_call i c m =
     (case map_of (mg_sessions m) i of
        None \<Rightarrow> None
      | Some r \<Rightarrow> (case session_receive c (mg_objs m ! r) of None \<Rightarrow> None | Some s \<Rightarrow> Some (update_obj r s m)))"

text \<open>A starter that returns after its timeout, with a stream or with an error.\<close>

definition late_start :: "bool \<Rightarrow> manager \<Rightarrow> manager option" where
  "late_start delivered m =
     (if mg_late_starters m = 0 then None
      else Some (m\<lparr>mg_late_starters := mg_late_starters m - 1,
                   mg_late_streams := (if delivered then Suc (mg_late_streams m) else mg_late_streams m)\<rparr>))"

text \<open>\<^verbatim>\<open>remove\<close>: the critical section, and the two updates of the metrics that follow it.\<close>

definition manager_remove :: "uuid \<Rightarrow> nat \<Rightarrow> manager \<Rightarrow> manager" where
  "manager_remove i r m =
     (if map_of (mg_sessions m) i = Some r
      then m\<lparr>mg_sessions := filter (\<lambda>(j, _). j \<noteq> i) (mg_sessions m), mg_unremoved := Suc (mg_unremoved m)\<rparr>
      else m)"

definition session_removed :: "manager \<Rightarrow> manager option" where
  "session_removed m =
     (if mg_unremoved m = 0 then None
      else Some (m\<lparr>mg_unremoved := mg_unremoved m - 1, mg_active := mg_active m - 1, mg_uncompleted := Suc (mg_uncompleted m)\<rparr>))"

definition session_completed :: "manager \<Rightarrow> manager option" where
  "session_completed m =
     (if mg_uncompleted m = 0 then None
      else Some (m\<lparr>mg_uncompleted := mg_uncompleted m - 1, mg_completed := Suc (mg_completed m)\<rparr>))"

definition manager_Drain :: "manager \<Rightarrow> manager" where
  "manager_Drain m =
     m\<lparr>mg_draining := True, mg_drains := mg_drains m @ [Some (mg_sessions m)],
       mg_objs := map (\<lambda>(r, s). if r \<in> snd ` set (mg_sessions m) then spawn (FinSection ThenNothing) s else s)
         (enumerate 0 (mg_objs m))\<rparr>"

text \<open>The wait of \<^verbatim>\<open>Drain\<close>: for each session of the snapshot, then for the registry to be empty.\<close>

definition drain_step :: "nat \<Rightarrow> bool \<Rightarrow> manager \<Rightarrow> manager option" where
  "drain_step k ctx_done m =
     (case mg_drains m ! k of
        None \<Rightarrow> None
      | Some rest \<Rightarrow>
          if ctx_done then Some (m\<lparr>mg_drains := (mg_drains m)[k := None]\<rparr>)
          else case rest of
            (i, r) # rest' \<Rightarrow>
              if so_complete (mg_objs m ! r) then Some ((manager_remove i r m)\<lparr>mg_drains := (mg_drains m)[k := Some rest']\<rparr>) else None
          | [] \<Rightarrow> if mg_sessions m = [] then Some (m\<lparr>mg_drains := (mg_drains m)[k := None]\<rparr>) else None)"

definition manager_Ready :: "manager \<Rightarrow> bool" where
  "manager_Ready m \<longleftrightarrow> \<not> mg_draining m \<and> length (mg_sessions m) < mg_capacity m"

definition manager_Active :: "manager \<Rightarrow> nat" where
  "manager_Active m = length (mg_sessions m)"

definition manager_Config :: "uuid \<Rightarrow> manager \<Rightarrow> media_config option" where
  "manager_Config i m = map_option (\<lambda>r. so_config (mg_objs m ! r)) (map_of (mg_sessions m) i)"

text \<open>
  One step of the process: a call of the manager, a goroutine of a session (the removal is the only one
  that touches the registry), the timer or the control client of a session, an update of the metrics
  that follows a removal, a starter that returns too late.
\<close>

datatype manager_action =
    MStart "string \<Rightarrow> bool" media_config start_outcome
  | MCall uuid session_call
  | MObject nat session_call
  | MStep nat nat session_act
  | MDrain
  | MDrainStep nat bool
  | MSessionRemoved
  | MSessionCompleted
  | MLateStart bool

definition object_call :: "session_call \<Rightarrow> bool" where
  "object_call c = (case c of CallClose _ \<Rightarrow> True | TimerFires \<Rightarrow> True | ReadControl _ \<Rightarrow> True | _ \<Rightarrow> False)"

definition registry_call :: "session_call \<Rightarrow> bool" where
  "registry_call c = (case c of CallAttach _ \<Rightarrow> True | CallStop \<Rightarrow> True | CallControl \<Rightarrow> True | _ \<Rightarrow> False)"

definition session_step :: "nat \<Rightarrow> nat \<Rightarrow> session_act \<Rightarrow> manager \<Rightarrow> manager option" where
  "session_step r i a m =
     (let s = mg_objs m ! r
      in if r < length (mg_objs m) \<and> i < length (so_pcs s)
         then if so_pcs s ! i = Removing
              then Some (update_obj r (moveto i SDone s) (manager_remove (mc_id (so_config s)) r m))
              else (case session_advance i a s of None \<Rightarrow> None | Some s' \<Rightarrow> Some (update_obj r s' m))
         else None)"

fun manager_step :: "manager_action \<Rightarrow> manager \<Rightarrow> manager option" where
  "manager_step (MStart J cfg outcome) m = Some (snd (manager_Start J cfg outcome m))"
| "manager_step (MCall i c) m = (if registry_call c then lookup_call i c m else None)"
| "manager_step (MObject r c) m =
     (if r < length (mg_objs m) \<and> object_call c
      then (case session_receive c (mg_objs m ! r) of None \<Rightarrow> None | Some s \<Rightarrow> Some (update_obj r s m)) else None)"
| "manager_step (MStep r i a) m = session_step r i a m"
| "manager_step MDrain m = Some (manager_Drain m)"
| "manager_step (MDrainStep k done) m = (if k < length (mg_drains m) then drain_step k done m else None)"
| "manager_step MSessionRemoved m = session_removed m"
| "manager_step MSessionCompleted m = session_completed m"
| "manager_step (MLateStart delivered) m = late_start delivered m"

fun manager_run :: "manager_action list \<Rightarrow> manager \<Rightarrow> manager" where
  "manager_run [] m = m"
| "manager_run (a # as) m = manager_run as (case manager_step a m of None \<Rightarrow> m | Some m' \<Rightarrow> m')"

end
