(* ===== verification/MediaGuarantees.thy ===== *)
theory MediaGuarantees
  imports MediaManager
begin

text \<open>
  What the media session manager promises under every interleaving: no goroutine panics on a channel,
  one goroutine pumps a session, its stream is closed exactly once and before the session leaves the
  registry, so the capacity bounds the streams of sessions that are open; and where it fails: a stream
  that its starter delivers after the start timed out is never closed, and the attach timer can report a
  terminal failure for a session that was attached.
\<close>

section \<open>The invariant of a session\<close>

fun holds_once :: "session_pc \<Rightarrow> bool" where
  "holds_once (FinCancel k b) = True"
| "holds_once (CloseTake k b) = True"
| "holds_once (CloseChan k b c) = True"
| "holds_once (FinStream k b) = True"
| "holds_once (FinMark k b) = True"
| "holds_once _ = False"

definition attach_cont :: "fin_cont \<Rightarrow> bool" where
  "attach_cont k = (case k of ThenAttach _ \<Rightarrow> True | _ \<Rightarrow> False)"

fun attaching :: "session_pc \<Rightarrow> bool" where
  "attaching Pumping = True"
| "attaching (AttachFailed e) = True"
| "attaching (FinSection k) = attach_cont k"
| "attaching (FinOnce k b) = attach_cont k"
| "attaching (FinCancel k b) = attach_cont k"
| "attaching (CloseTake k b) = attach_cont k"
| "attaching (CloseChan k b c) = attach_cont k"
| "attaching (FinStream k b) = attach_cont k"
| "attaching (FinMark k b) = attach_cont k"
| "attaching (Completing e) = True"
| "attaching _ = False"

fun marking :: "session_pc \<Rightarrow> bool" where
  "marking (FinMark k b) = True"
| "marking _ = False"

definition open_chan :: "managed \<Rightarrow> nat \<Rightarrow> bool" where
  "open_chan s c \<longleftrightarrow> c < length (so_chans s) \<and> \<not> ch_closed (so_chans s ! c)"

text \<open>A goroutine in \<^verbatim>\<open>finish\<close> saw whether the session was attached; the timer's only when it was not.\<close>

definition finishing :: "managed \<Rightarrow> fin_cont \<Rightarrow> bool \<Rightarrow> bool" where
  "finishing s k b \<longleftrightarrow> so_finished s \<and> (b \<longleftrightarrow> so_attached s) \<and> (k = ThenTimer \<longrightarrow> \<not> b)"

fun pc_ok :: "managed \<Rightarrow> session_pc \<Rightarrow> bool" where
  "pc_ok s (FinOnce k b) \<longleftrightarrow> finishing s k b"
| "pc_ok s (FinCancel k b) \<longleftrightarrow> finishing s k b"
| "pc_ok s (CloseTake k b) \<longleftrightarrow> finishing s k b \<and> so_cancelled s"
| "pc_ok s (CloseChan k b c) \<longleftrightarrow>
     finishing s k b \<and> so_cancelled s \<and> so_control s = None \<and> (\<forall>c'. c = Some c' \<longrightarrow> open_chan s c')"
| "pc_ok s (FinStream k b) \<longleftrightarrow> finishing s k b \<and> so_cancelled s \<and> so_control s = None"
| "pc_ok s (FinMark k b) \<longleftrightarrow> finishing s k b \<and> so_cancelled s \<and> so_control s = None"
| "pc_ok s (FinSection k) \<longleftrightarrow> k \<noteq> ThenTimer"
| "pc_ok s (Completing e) \<longleftrightarrow> so_once s = OnceDone"
| "pc_ok s Removing \<longleftrightarrow> so_complete s"
| "pc_ok s _ \<longleftrightarrow> True"

definition count :: "('a \<Rightarrow> bool) \<Rightarrow> 'a list \<Rightarrow> int" where
  "count P ps = sum_list (map (\<lambda>p. of_bool (P p)) ps)"

definition session_inv :: "managed \<Rightarrow> bool" where
  "session_inv s \<longleftrightarrow>
     \<not> so_panic s \<and> (so_controlOpen s \<longleftrightarrow> so_control s \<noteq> None) \<and> (\<forall>c. so_control s = Some c \<longrightarrow> open_chan s c) \<and>
     count holds_once (so_pcs s) = of_bool (so_once s = OnceRunning) \<and>
     count attaching (so_pcs s) \<le> of_bool (so_attached s) \<and>
     int (so_stream_closed s) = of_bool (so_once s = OnceDone) + count marking (so_pcs s) \<and>
     (so_once s \<noteq> OnceFree \<longrightarrow> so_finished s) \<and> (so_once s = OnceDone \<longrightarrow> so_cancelled s \<and> so_control s = None) \<and>
     (so_once s = OnceDone \<and> \<not> so_attached s \<longrightarrow> so_complete s) \<and>
     (so_complete s \<longrightarrow> so_once s = OnceDone \<and> count attaching (so_pcs s) = 0) \<and>
     (\<forall>p \<in> set (so_pcs s). pc_ok s p)"

lemma count_goto: "i < length ps \<Longrightarrow> count P (ps[i := p]) = count P ps - of_bool (P (ps ! i)) + of_bool (P p)"
  unfolding count_def by (rule sum_goto)

lemma count_snoc [simp]: "count P (ps @ [p]) = count P ps + of_bool (P p)"
  by (simp add: count_def)

lemma count_nonneg: "0 \<le> count P ps"
  unfolding count_def by (intro sum_list_nonneg) auto

lemma count_zero: "count P ps = 0 \<longleftrightarrow> (\<forall>p \<in> set ps. \<not> P p)"
  by (induction ps) (use count_nonneg [of P] in \<open>auto simp: count_def add_nonneg_eq_0_iff sum_list_nonneg\<close>)

lemma count_alone:
  assumes "count P ps \<le> 1" and "i < length ps" and "P (ps ! i)" and "j < length ps" and "j \<noteq> i" and "\<not> P d"
  shows "\<not> P (ps ! j)"
proof -
  have "count P (ps[i := d]) = count P ps - 1" using assms by (simp add: count_goto)
  with assms(1) count_nonneg [of P "ps[i := d]"] have "count P (ps[i := d]) = 0" by simp
  then have "\<not> P (ps[i := d] ! j)" using assms(2,4) by (simp add: count_zero)
  with assms(5) show ?thesis by simp
qed

lemma moveto_fields [simp]:
  "so_config (moveto i p s) = so_config s" "so_cancelled (moveto i p s) = so_cancelled s"
  "so_complete (moveto i p s) = so_complete s" "so_control (moveto i p s) = so_control s"
  "so_controlOpen (moveto i p s) = so_controlOpen s" "so_attached (moveto i p s) = so_attached s"
  "so_timer (moveto i p s) = so_timer s" "so_finished (moveto i p s) = so_finished s" "so_once (moveto i p s) = so_once s"
  "so_stream_closed (moveto i p s) = so_stream_closed s" "so_chans (moveto i p s) = so_chans s"
  "so_panic (moveto i p s) = so_panic s" "so_pcs (moveto i p s) = (so_pcs s)[i := p]"
  by (simp_all add: moveto_def)

text \<open>The step of one goroutine: its new place, and what the others keep.\<close>

lemma inv_move:
  assumes "i < length (so_pcs s)" and "so_pcs s' = (so_pcs s)[i := p]"
    and "\<not> so_panic s'" "so_controlOpen s' \<longleftrightarrow> so_control s' \<noteq> None" "\<And>c. so_control s' = Some c \<Longrightarrow> open_chan s' c"
    and "count holds_once (so_pcs s) - of_bool (holds_once (so_pcs s ! i)) + of_bool (holds_once p) = of_bool (so_once s' = OnceRunning)"
    and "count attaching (so_pcs s) - of_bool (attaching (so_pcs s ! i)) + of_bool (attaching p) \<le> of_bool (so_attached s')"
    and "int (so_stream_closed s') = of_bool (so_once s' = OnceDone) + (count marking (so_pcs s) - of_bool (marking (so_pcs s ! i)) + of_bool (marking p))"
    and "so_once s' \<noteq> OnceFree \<Longrightarrow> so_finished s'" "so_once s' = OnceDone \<Longrightarrow> so_cancelled s' \<and> so_control s' = None"
    and "so_once s' = OnceDone \<Longrightarrow> \<not> so_attached s' \<Longrightarrow> so_complete s'"
    and "so_complete s' \<Longrightarrow> so_once s' = OnceDone \<and> count attaching (so_pcs s) - of_bool (attaching (so_pcs s ! i)) + of_bool (attaching p) = 0"
    and "pc_ok s' p" and others: "\<And>j. j < length (so_pcs s) \<Longrightarrow> j \<noteq> i \<Longrightarrow> pc_ok s' (so_pcs s ! j)"
  shows "session_inv s'"
  unfolding session_inv_def assms(2) count_goto [OF assms(1)]
proof (intro conjI ballI)
  fix x assume "x \<in> set ((so_pcs s)[i := p])"
  then obtain j where "j < length (so_pcs s)" "x = (so_pcs s)[i := p] ! j" by (metis in_set_conv_nth length_list_update)
  with assms(13) others show "pc_ok s' x" by (cases "j = i") auto
qed (use assms in auto)

lemma pc_ok_mono:
  assumes "pc_ok s p" and "so_finished s \<Longrightarrow> so_finished s'" and "so_attached s' = so_attached s"
    and "so_cancelled s \<Longrightarrow> so_cancelled s'" and "so_control s = None \<Longrightarrow> so_control s' = None"
    and "\<And>k b c. p = CloseChan k b (Some c) \<Longrightarrow> open_chan s c \<Longrightarrow> open_chan s' c"
    and "so_once s = OnceDone \<Longrightarrow> so_once s' = OnceDone" and "so_complete s \<Longrightarrow> so_complete s'"
  shows "pc_ok s' p"
  using assms by (cases p) (auto simp: finishing_def)

lemma session_invD:
  assumes "session_inv s"
  shows "\<not> so_panic s" "so_controlOpen s \<longleftrightarrow> so_control s \<noteq> None" "\<And>c. so_control s = Some c \<Longrightarrow> open_chan s c"
    "count holds_once (so_pcs s) = of_bool (so_once s = OnceRunning)" "count attaching (so_pcs s) \<le> of_bool (so_attached s)"
    "int (so_stream_closed s) = of_bool (so_once s = OnceDone) + count marking (so_pcs s)"
    "so_once s \<noteq> OnceFree \<Longrightarrow> so_finished s" "so_once s = OnceDone \<Longrightarrow> so_cancelled s" "so_once s = OnceDone \<Longrightarrow> so_control s = None"
    "so_once s = OnceDone \<Longrightarrow> \<not> so_attached s \<Longrightarrow> so_complete s"
    "so_complete s \<Longrightarrow> so_once s = OnceDone" "so_complete s \<Longrightarrow> count attaching (so_pcs s) = 0"
    "\<And>i. i < length (so_pcs s) \<Longrightarrow> pc_ok s (so_pcs s ! i)"
  using assms by (auto simp: session_inv_def)

text \<open>Before \<^verbatim>\<open>finish\<close> nobody is in a place that depends on it.\<close>

lemma pc_ok_unfinished:
  assumes "session_inv s" and "\<not> so_finished s" and "j < length (so_pcs s)"
  shows "pc_ok s' (so_pcs s ! j)"
  using session_invD(13) [OF assms(1,3)] session_invD(7,11) [OF assms(1)] assms(2)
  by (cases "so_pcs s ! j") (auto simp: finishing_def)

text \<open>A goroutine that moves without touching what the others rely on.\<close>

lemma inv_quiet_move:
  assumes inv: "session_inv s" and i: "i < length (so_pcs s)" and pcs: "so_pcs s' = (so_pcs s)[i := p]"
    and same: "so_panic s' = so_panic s" "so_controlOpen s' = so_controlOpen s" "so_control s' = so_control s"
      "so_attached s' = so_attached s" "so_once s' = so_once s" "so_stream_closed s' = so_stream_closed s"
      "so_complete s' = so_complete s" "so_cancelled s \<Longrightarrow> so_cancelled s'" "so_finished s \<Longrightarrow> so_finished s'"
      "\<And>c. open_chan s c \<Longrightarrow> open_chan s' c"
    and p: "holds_once p = holds_once (so_pcs s ! i)" "marking p = marking (so_pcs s ! i)"
      "attaching p \<Longrightarrow> attaching (so_pcs s ! i)" "pc_ok s' p"
  shows "session_inv s'"
proof (rule inv_move [OF i pcs])
  note D = session_invD [OF inv]
  have a: "of_bool (attaching p) \<le> (of_bool (attaching (so_pcs s ! i)) :: int)" using p(3) by auto
  show "count attaching (so_pcs s) - of_bool (attaching (so_pcs s ! i)) + of_bool (attaching p) \<le> of_bool (so_attached s')"
    unfolding same(4) using D(5) a by linarith
  show "so_complete s' \<Longrightarrow> so_once s' = OnceDone \<and>
      count attaching (so_pcs s) - of_bool (attaching (so_pcs s ! i)) + of_bool (attaching p) = 0"
    using D(11,12) p(3) i by (auto simp: same count_zero)
  show "pc_ok s' (so_pcs s ! j)" if "j < length (so_pcs s)" "j \<noteq> i" for j
    by (rule pc_ok_mono [OF D(13) [OF that(1)]]) (use same in auto)
qed (use session_invD [OF inv] same p in auto)

lemma open_chan_moveto [simp]: "open_chan (moveto i p s) c = open_chan s c"
  by (simp add: open_chan_def)

lemma stop_timer_fields [simp]:
  "so_config (stop_timer s) = so_config s" "so_cancelled (stop_timer s) = so_cancelled s"
  "so_complete (stop_timer s) = so_complete s" "so_control (stop_timer s) = so_control s"
  "so_controlOpen (stop_timer s) = so_controlOpen s" "so_attached (stop_timer s) = so_attached s"
  "so_finished (stop_timer s) = so_finished s" "so_once (stop_timer s) = so_once s"
  "so_stream_closed (stop_timer s) = so_stream_closed s" "so_chans (stop_timer s) = so_chans s"
  "so_panic (stop_timer s) = so_panic s" "so_pcs (stop_timer s) = so_pcs s"
  by (simp_all add: stop_timer_def)

lemma aux_fields [simp]:
  "so_config (returns r s) = so_config s" "so_cancelled (returns r s) = so_cancelled s"
  "so_complete (returns r s) = so_complete s" "so_control (returns r s) = so_control s"
  "so_controlOpen (returns r s) = so_controlOpen s" "so_attached (returns r s) = so_attached s"
  "so_finished (returns r s) = so_finished s" "so_once (returns r s) = so_once s"
  "so_stream_closed (returns r s) = so_stream_closed s" "so_chans (returns r s) = so_chans s"
  "so_panic (returns r s) = so_panic s" "so_pcs (returns r s) = so_pcs s"
  "so_config (fails f s) = so_config s" "so_cancelled (fails f s) = so_cancelled s"
  "so_complete (fails f s) = so_complete s" "so_control (fails f s) = so_control s"
  "so_controlOpen (fails f s) = so_controlOpen s" "so_attached (fails f s) = so_attached s"
  "so_finished (fails f s) = so_finished s" "so_once (fails f s) = so_once s"
  "so_stream_closed (fails f s) = so_stream_closed s" "so_chans (fails f s) = so_chans s"
  "so_panic (fails f s) = so_panic s" "so_pcs (fails f s) = so_pcs s"
  by (simp_all add: returns_def fails_def)

section \<open>Every step keeps it\<close>

text \<open>Sending on the control channel does not panic, and changes nothing but the channel's content.\<close>

lemma publish_keeps:
  assumes "session_inv s"
  shows "snd (publish ev s) = s\<lparr>so_chans := so_chans (snd (publish ev s))\<rparr>"
    and "open_chan (snd (publish ev s)) c = open_chan s c"
proof -
  have "\<not> ch_closed (so_chans s ! c)" "c < length (so_chans s)" if "so_control s = Some c" for c
    using session_invD(3) [OF assms that] by (auto simp: open_chan_def)
  then show "snd (publish ev s) = s\<lparr>so_chans := so_chans (snd (publish ev s))\<rparr>"
    and "open_chan (snd (publish ev s)) c = open_chan s c"
    by (auto simp: publish_def Let_def open_chan_def nth_list_update split: option.split)
qed

lemma publish_refused:
  assumes "fst (publish ev s) = Inl e" shows "snd (publish ev s) = s"
proof -
  have "so_controlOpen s \<and> (\<exists>c. so_control s = Some c \<and> \<not> ch_closed (so_chans s ! c) \<and>
      \<not> length (ch_events (so_chans s ! c)) < control_capacity)"
    using assms unfolding publish_def Let_def by (auto split: option.splits if_split_asm)
  then show ?thesis by (auto simp: publish_def Let_def)
qed

lemma publish_move:
  assumes "session_inv s" and "i < length (so_pcs s)"
    and "holds_once p = holds_once (so_pcs s ! i)" "marking p = marking (so_pcs s ! i)"
      "attaching p \<Longrightarrow> attaching (so_pcs s ! i)" "\<And>s'. pc_ok s' p"
  shows "session_inv (moveto i p (snd (publish ev s)))"
proof -
  define s' where "s' = snd (publish ev s)"
  have eq: "s' = s\<lparr>so_chans := so_chans s'\<rparr>" and chans: "\<And>c. open_chan s' c = open_chan s c"
    using publish_keeps [OF assms(1), of ev] by (simp_all add: s'_def)
  have "so_pcs s' = so_pcs s" "so_panic s' = so_panic s" "so_controlOpen s' = so_controlOpen s" "so_control s' = so_control s"
    "so_attached s' = so_attached s" "so_once s' = so_once s" "so_stream_closed s' = so_stream_closed s"
    "so_complete s' = so_complete s" "so_cancelled s' = so_cancelled s" "so_finished s' = so_finished s"
    by (subst eq, simp)+
  then show ?thesis
    unfolding s'_def [symmetric] using assms chans
    by (intro inv_quiet_move [OF assms(1,2), where p = p]) simp_all
qed

lemma attach_section_inv:
  assumes inv: "session_inv s" and i: "i < length (so_pcs s)" and pc: "so_pcs s ! i = AttachSection md"
  shows "session_inv (attach_section i md s)"
proof -
  have out: "session_inv (moveto i SDone (returns r s))" for r
    by (rule inv_quiet_move [OF inv i, where p = SDone]) (use pc in \<open>simp_all add: open_chan_def\<close>)
  have "session_inv (moveto i Pumping (stop_timer (s\<lparr>so_attached := True, so_connection := True\<rparr>)))"
    if ok: "\<not> so_attached s" "\<not> so_finished s"
  proof (rule inv_move [OF i, where p = Pumping])
    show "pc_ok (moveto i Pumping (stop_timer (s\<lparr>so_attached := True, so_connection := True\<rparr>))) (so_pcs s ! j)"
      if "j < length (so_pcs s)" for j
      by (rule pc_ok_unfinished [OF inv ok(2) that])
  qed (use session_invD [OF inv] ok pc count_nonneg [of attaching "so_pcs s"] in \<open>auto simp: open_chan_def\<close>)
  with out show ?thesis by (simp add: attach_section_def)
qed

lemma control_section_inv:
  assumes inv: "session_inv s" and i: "i < length (so_pcs s)" and pc: "so_pcs s ! i = ControlSection"
  shows "session_inv (control_section i s)"
proof -
  have out: "session_inv (moveto i SDone (returns r s))" for r
    by (rule inv_quiet_move [OF inv i, where p = SDone]) (use pc in \<open>simp_all add: open_chan_def\<close>)
  let ?s = "moveto i SDone (returns (Inr ()) (s\<lparr>so_control := Some (length (so_chans s)), so_controlOpen := True,
             so_chans := so_chans s @ [\<lparr>ch_events = [], ch_closed = False\<rparr>], so_attachments := so_attachments s @ [False]\<rparr>))"
  have "session_inv ?s" if ok: "\<not> so_finished s"
  proof (rule inv_move [OF i, where p = SDone])
    show "pc_ok ?s (so_pcs s ! j)" if "j < length (so_pcs s)" for j by (rule pc_ok_unfinished [OF inv ok that])
  qed (use session_invD [OF inv] ok pc in \<open>auto simp: open_chan_def nth_append\<close>)
  with out show ?thesis by (simp add: control_section_def)
qed

lemma finish_move:
  assumes inv: "session_inv s" and i: "i < length (so_pcs s)" and pc: "so_pcs s ! i = FinOnce k b" and "so_once s = OnceDone"
  shows "session_inv (after_finish i k s)"
proof -
  note D = session_invD [OF inv]
  have "finishing s k b" using D(13) [OF i] pc by simp
  then have timer: "k = ThenTimer \<Longrightarrow> so_complete s" using D(10) assms(4) by (auto simp: finishing_def)
  have move: "session_inv (moveto i p s)" "session_inv (moveto i p (fails f s))"
    if "\<not> holds_once p" "\<not> marking p" "attaching p \<Longrightarrow> attach_cont k" "\<And>s'. so_complete s' = so_complete s \<Longrightarrow> so_once s' = OnceDone \<Longrightarrow> pc_ok s' p" for p f
    by (rule inv_quiet_move [OF inv i, where p = p]; use that pc assms(4) in \<open>simp add: open_chan_def\<close>)+
  show ?thesis using timer by (cases k) (auto simp: after_finish_def attach_cont_def intro!: move)
qed

lemma once_start_inv:
  assumes inv: "session_inv s" and i: "i < length (so_pcs s)" and pc: "so_pcs s ! i = FinOnce k b" and "so_once s = OnceFree"
  shows "session_inv (moveto i (FinCancel k b) (s\<lparr>so_once := OnceRunning\<rparr>))" (is "session_inv ?s")
proof (rule inv_move [OF i, where p = "FinCancel k b"])
  note D = session_invD [OF inv]
  show "pc_ok ?s (so_pcs s ! j)" if "j < length (so_pcs s)" for j
    by (rule pc_ok_mono [OF D(13) [OF that]]) (use assms(4) in \<open>simp_all add: open_chan_def\<close>)
  show "pc_ok ?s (FinCancel k b)" using D(13) [OF i] pc by (auto simp: finishing_def)
  show "so_finished ?s" using D(13) [OF i] pc by (auto simp: finishing_def)
  show "so_complete ?s \<Longrightarrow> so_once ?s = OnceDone \<and>
      count attaching (so_pcs s) - of_bool (attaching (so_pcs s ! i)) + of_bool (attaching (FinCancel k b)) = 0"
    using D(11) assms(4) by simp
qed (use session_invD [OF inv] pc assms(4) in \<open>simp_all add: open_chan_def\<close>)

text \<open>The goroutine inside the once-guard.\<close>

lemma running:
  assumes "session_inv s" and "i < length (so_pcs s)" and "holds_once (so_pcs s ! i)"
  shows "so_once s = OnceRunning" "\<not> so_complete s"
    "\<And>j. j < length (so_pcs s) \<Longrightarrow> j \<noteq> i \<Longrightarrow> \<not> holds_once (so_pcs s ! j)"
proof -
  note D = session_invD [OF assms(1)]
  have "count holds_once (so_pcs s) \<noteq> 0" unfolding count_zero using assms(2,3) by (metis nth_mem)
  then show r: "so_once s = OnceRunning" using D(4) by (cases "so_once s = OnceRunning") auto
  then show "\<not> so_complete s" using D(11) by auto
  show "\<And>j. j < length (so_pcs s) \<Longrightarrow> j \<noteq> i \<Longrightarrow> \<not> holds_once (so_pcs s ! j)"
    using count_alone [of holds_once "so_pcs s" i _ SDone] D(4) r assms(2,3) by auto
qed

lemma close_take_inv:
  assumes inv: "session_inv s" and i: "i < length (so_pcs s)" and pc: "so_pcs s ! i = CloseTake k b"
  shows "session_inv (moveto i (CloseChan k b (so_control s)) (s\<lparr>so_controlOpen := False, so_control := None\<rparr>))" (is "session_inv ?s")
proof (rule inv_move [OF i, where p = "CloseChan k b (so_control s)"])
  note D = session_invD [OF inv] and R = running [OF inv i]
  show "pc_ok ?s (so_pcs s ! j)" if "j < length (so_pcs s)" for j
    by (rule pc_ok_mono [OF D(13) [OF that]]) (simp_all add: open_chan_def)
  show "pc_ok ?s (CloseChan k b (so_control s))" using D(13) [OF i] D(3) pc by (auto simp: finishing_def open_chan_def)
qed (use session_invD [OF inv] running [OF inv i] pc in \<open>simp_all add: open_chan_def\<close>)

lemma close_chan_inv:
  assumes inv: "session_inv s" and i: "i < length (so_pcs s)" and pc: "so_pcs s ! i = CloseChan k b c"
  shows "session_inv (moveto i (FinStream k b) ((case c of None \<Rightarrow> s | Some c' \<Rightarrow> close_chan c' s)\<lparr>so_controlDone := True\<rparr>))"
    (is "session_inv ?s")
proof -
  note D = session_invD [OF inv] and R = running [OF inv i]
  have ok: "finishing s k b" "so_cancelled s" "so_control s = None" "\<And>c'. c = Some c' \<Longrightarrow> open_chan s c'"
    using D(13) [OF i] pc by simp_all
  define chans where "chans = so_chans ?s"
  have s: "?s = moveto i (FinStream k b) (s\<lparr>so_chans := chans, so_controlDone := True\<rparr>)"
    unfolding chans_def using ok(4) by (cases c) (auto simp: close_chan_def open_chan_def moveto_def)
  show ?thesis
    unfolding s
  proof (rule inv_move [OF i, where p = "FinStream k b"])
    fix j assume j: "j < length (so_pcs s)" "j \<noteq> i"
    show "pc_ok (moveto i (FinStream k b) (s\<lparr>so_chans := chans, so_controlDone := True\<rparr>)) (so_pcs s ! j)"
      by (rule pc_ok_mono [OF D(13) [OF j(1)]]) (use R(3) [OF _ j] pc in auto)
  qed (use D R pc ok in \<open>auto simp: finishing_def\<close>)
qed

lemma fin_stream_inv:
  assumes inv: "session_inv s" and i: "i < length (so_pcs s)" and pc: "so_pcs s ! i = FinStream k b"
  shows "session_inv (moveto i (FinMark k b) (s\<lparr>so_stream_closed := Suc (so_stream_closed s)\<rparr>))" (is "session_inv ?s")
proof (rule inv_move [OF i, where p = "FinMark k b"])
  note D = session_invD [OF inv]
  show "pc_ok ?s (so_pcs s ! j)" if "j < length (so_pcs s)" for j
    by (rule pc_ok_mono [OF D(13) [OF that]]) (simp_all add: open_chan_def)
  show "pc_ok ?s (FinMark k b)" using D(13) [OF i] pc by (auto simp: finishing_def)
qed (use session_invD [OF inv] running [OF inv i] pc in \<open>simp_all add: open_chan_def\<close>)

text \<open>The last step inside the guard, and the step after it.\<close>

definition next_pc :: "fin_cont \<Rightarrow> session_pc" where
  "next_pc k = (case k of ThenAttach e \<Rightarrow> Completing e | ThenStop \<Rightarrow> WaitComplete | ThenTimer \<Rightarrow> Removing | ThenNothing \<Rightarrow> SDone)"

lemma after_finish_next:
  "after_finish i k s = moveto i (next_pc k) (if k = ThenTimer then fails FailureAttachTimeout s else s)"
  by (cases k) (simp_all add: after_finish_def next_pc_def)

lemma fin_mark_inv:
  assumes inv: "session_inv s" and i: "i < length (so_pcs s)" and pc: "so_pcs s ! i = FinMark k b"
  shows "session_inv (after_finish i k (s\<lparr>so_complete := (so_complete s \<or> \<not> b), so_once := OnceDone\<rparr>))"
proof -
  note D = session_invD [OF inv] and R = running [OF inv i, unfolded pc holds_once.simps, OF TrueI]
  define s1 where "s1 = (if k = ThenTimer then fails FailureAttachTimeout (s\<lparr>so_complete := (so_complete s \<or> \<not> b), so_once := OnceDone\<rparr>)
     else s\<lparr>so_complete := (so_complete s \<or> \<not> b), so_once := OnceDone\<rparr>)"
  have s1: "so_pcs s1 = so_pcs s" "so_panic s1 = so_panic s" "so_controlOpen s1 = so_controlOpen s" "so_control s1 = so_control s"
    "so_attached s1 = so_attached s" "so_once s1 = OnceDone" "so_stream_closed s1 = so_stream_closed s"
    "so_complete s1 = (\<not> b)" "so_cancelled s1 = so_cancelled s" "so_finished s1 = so_finished s" "so_chans s1 = so_chans s"
    using R(2) by (auto simp: s1_def)
  have fin: "so_finished s" "b = so_attached s" "k = ThenTimer \<Longrightarrow> \<not> b" "so_cancelled s" "so_control s = None"
    using D(13) [OF i] pc by (auto simp: finishing_def)
  have att: "\<not> b \<Longrightarrow> count attaching (so_pcs s) = 0" using D(5) fin(2) count_nonneg [of attaching "so_pcs s"] by simp
  then have k: "\<not> b \<Longrightarrow> \<not> attach_cont k" unfolding count_zero using i pc by (metis attaching.simps(9) nth_mem)
  have p: "\<not> holds_once (next_pc k)" "\<not> marking (next_pc k)" "attaching (next_pc k) = attach_cont k"
    by (cases k; simp add: next_pc_def attach_cont_def)+
  have "session_inv (moveto i (next_pc k) s1)"
  proof (rule inv_move [OF i, where p = "next_pc k"])
    fix j assume j: "j < length (so_pcs s)" "j \<noteq> i"
    show "pc_ok (moveto i (next_pc k) s1) (so_pcs s ! j)"
      by (rule pc_ok_mono [OF D(13) [OF j(1)]]) (use s1 R in \<open>auto simp: open_chan_def\<close>)
  next
    show "pc_ok (moveto i (next_pc k) s1) (next_pc k)" using fin by (cases k) (auto simp: next_pc_def s1)
  qed (use D R pc fin att k p in \<open>auto simp: s1 open_chan_def\<close>)
  then show ?thesis by (simp add: after_finish_next s1_def if_distrib)
qed

lemma completing_inv:
  assumes inv: "session_inv s" and i: "i < length (so_pcs s)" and pc: "so_pcs s ! i = Completing e"
  shows "session_inv (moveto i Removing (returns r (s\<lparr>so_complete := True\<rparr>)))" (is "session_inv ?s")
proof (rule inv_move [OF i, where p = Removing])
  note D = session_invD [OF inv]
  have ended: "so_once s = OnceDone" using D(13) [OF i] pc by simp
  have "count attaching (so_pcs s) \<noteq> 0" using i pc unfolding count_zero by (metis attaching.simps(10) nth_mem)
  with D(5) count_nonneg [of attaching "so_pcs s"] have "count attaching (so_pcs s) = 1" by (cases "so_attached s") auto
  then show "so_complete ?s \<Longrightarrow> so_once ?s = OnceDone \<and>
      count attaching (so_pcs s) - of_bool (attaching (so_pcs s ! i)) + of_bool (attaching Removing) = 0"
    and "count attaching (so_pcs s) - of_bool (attaching (so_pcs s ! i)) + of_bool (attaching Removing) \<le> of_bool (so_attached ?s)"
    using pc ended by simp_all
  show "pc_ok ?s (so_pcs s ! j)" if "j < length (so_pcs s)" for j
    by (rule pc_ok_mono [OF D(13) [OF that]]) (simp_all add: open_chan_def)
qed (use session_invD [OF inv] pc in \<open>simp_all add: open_chan_def\<close>)

lemma pump_step_inv:
  assumes inv: "session_inv s" and i: "i < length (so_pcs s)" and pc: "so_pcs s ! i = Pumping" and "pump_step i a s = Some s'"
  shows "session_inv s'"
proof -
  have move: "session_inv (moveto i p s)" "session_inv (moveto i p (fails f s))"
    if "p = FinSection (ThenAttach e) \<or> p = AttachFailed x" for p f e x
    by (rule inv_quiet_move [OF inv i, where p = p]; use that pc in \<open>auto simp: open_chan_def\<close>)+
  then have after: "session_inv (after_pump i e s)" for e
    by (auto simp: after_pump_def Let_def split: option.split)
  have "session_inv (moveto i Pumping (snd (publish ev s)))" for ev
    by (rule publish_move [OF inv i]) (use pc in auto)
  moreover have "moveto i Pumping (snd (publish ev s)) = snd (publish ev s)" for ev
  proof -
    have "so_pcs (snd (publish ev s)) = so_pcs s" by (subst publish_keeps(1) [OF inv]) simp
    then have "(so_pcs (snd (publish ev s)))[i := Pumping] = so_pcs (snd (publish ev s))"
      by (metis list_update_id pc)
    then show ?thesis by (simp add: moveto_def)
  qed
  ultimately have sent: "session_inv (snd (publish ev s))" for ev by metis
  show ?thesis
  proof (cases a)
    case (PumpEvent ev)
    then show ?thesis
      using assms(4) after sent [of ev] publish_refused [of ev s]
      by (auto simp: pump_step_def split: prod.splits sum.splits)
  qed (use assms(4) after in \<open>auto simp: pump_step_def\<close>)
qed

lemma finish_unattached_inv:
  assumes inv: "session_inv s" and i: "i < length (so_pcs s)" and pc: "so_pcs s ! i = TimerFinish"
  shows "session_inv (finish_unattached i s)"
proof -
  have "session_inv (moveto i SDone s)"
    by (rule inv_quiet_move [OF inv i, where p = SDone]) (use pc in simp_all)
  moreover have "session_inv (moveto i (FinOnce ThenTimer False) (s\<lparr>so_finished := True\<rparr>))" if "\<not> so_attached s"
    by (rule inv_quiet_move [OF inv i, where p = "FinOnce ThenTimer False"])
       (use pc that in \<open>simp_all add: open_chan_def finishing_def attach_cont_def\<close>)
  ultimately show ?thesis by (simp add: finish_unattached_def)
qed

lemma quiet_steps_inv:
  assumes inv: "session_inv s" and i: "i < length (so_pcs s)"
  shows "so_pcs s ! i = FinSection k \<Longrightarrow> session_inv (moveto i (FinOnce k (so_attached s)) (stop_timer (s\<lparr>so_finished := True\<rparr>)))"
    and "so_pcs s ! i = FinCancel k b \<Longrightarrow> session_inv (moveto i (CloseTake k b) (s\<lparr>so_cancelled := True\<rparr>))"
    and "so_pcs s ! i = WaitComplete \<Longrightarrow> session_inv (moveto i SDone s)"
    and "so_pcs s ! i = WaitComplete \<Longrightarrow> so_complete s \<Longrightarrow> session_inv (moveto i Removing s)"
    and "so_pcs s ! i = Removing \<Longrightarrow> session_inv (moveto i SDone s)"
proof -
  note ok = session_invD(13) [OF inv i]
  show "session_inv (moveto i (FinOnce k (so_attached s)) (stop_timer (s\<lparr>so_finished := True\<rparr>)))" if "so_pcs s ! i = FinSection k"
    by (rule inv_quiet_move [OF inv i, where p = "FinOnce k (so_attached s)"])
       (use that ok in \<open>simp_all add: open_chan_def finishing_def\<close>)
  show "session_inv (moveto i (CloseTake k b) (s\<lparr>so_cancelled := True\<rparr>))" if "so_pcs s ! i = FinCancel k b"
    by (rule inv_quiet_move [OF inv i, where p = "CloseTake k b"])
       (use that ok in \<open>auto simp: open_chan_def finishing_def\<close>)
  show "session_inv (moveto i SDone s)" if "so_pcs s ! i = WaitComplete"
    by (rule inv_quiet_move [OF inv i, where p = SDone]) (use that in simp_all)
  show "session_inv (moveto i Removing s)" if "so_pcs s ! i = WaitComplete" "so_complete s"
    by (rule inv_quiet_move [OF inv i, where p = Removing]) (use that in simp_all)
  show "session_inv (moveto i SDone s)" if "so_pcs s ! i = Removing"
    by (rule inv_quiet_move [OF inv i, where p = SDone]) (use that in simp_all)
qed

lemma session_advance_inv:
  assumes inv: "session_inv s" and i: "i < length (so_pcs s)" and step: "session_advance i a s = Some s'"
  shows "session_inv s'"
proof (cases "so_pcs s ! i")
  case (AttachFailed e)
  with step show ?thesis
    by (auto simp: session_advance_def attach_cont_def intro!: publish_move [OF inv i])
next
  case TimerPublish
  with step show ?thesis by (auto simp: session_advance_def intro!: publish_move [OF inv i])
next
  case (FinOnce k b)
  with step finish_move [OF inv i] once_start_inv [OF inv i] show ?thesis
    by (auto simp: session_advance_def split: once.splits)
next
  case WaitComplete
  with step quiet_steps_inv [OF inv i] show ?thesis by (auto simp: session_advance_def split: if_splits)
qed (use step pump_step_inv [OF inv i] quiet_steps_inv [OF inv i] attach_section_inv [OF inv i] control_section_inv [OF inv i]
      close_take_inv [OF inv i] close_chan_inv [OF inv i] fin_stream_inv [OF inv i] fin_mark_inv [OF inv i]
      completing_inv [OF inv i] finish_unattached_inv [OF inv i] in \<open>auto simp: session_advance_def\<close>)

section \<open>Calls from outside\<close>

lemma spawn_inv:
  assumes "session_inv s" and "\<not> holds_once p" "\<not> attaching p" "\<not> marking p" "\<And>s'. pc_ok s' p"
  shows "session_inv (spawn p s)"
proof -
  have "pc_ok (spawn p s) x" if "pc_ok s x" for x
    by (rule pc_ok_mono [OF that]) (simp_all add: spawn_def open_chan_def)
  with assms show ?thesis by (auto simp: session_inv_def spawn_def open_chan_def)
qed

lemma inv_with:
  assumes "session_inv s" and "so_pcs s' = so_pcs s" "so_panic s' = so_panic s" "so_controlOpen s' \<longleftrightarrow> so_control s' \<noteq> None"
    "so_attached s' = so_attached s" "so_once s' = so_once s" "so_stream_closed s' = so_stream_closed s"
    "so_complete s' = so_complete s" "so_cancelled s' = so_cancelled s" "so_finished s' = so_finished s"
    and "\<And>c. so_control s' = Some c \<Longrightarrow> open_chan s' c" "so_control s = None \<Longrightarrow> so_control s' = None"
    and "\<And>c. so_control s = None \<Longrightarrow> open_chan s c \<Longrightarrow> open_chan s' c"
  shows "session_inv s'"
proof -
  have "pc_ok s' p" if "pc_ok s p" for p
    using that assms by (cases p) (auto simp: finishing_def)
  with assms show ?thesis by (auto simp: session_inv_def)
qed

lemma close_attachment_inv:
  assumes inv: "session_inv s" and "close_attachment a s = Some s'"
  shows "session_inv s'"
proof (cases "so_control s")
  case None
  with assms show ?thesis
    by (auto simp: close_attachment_def Let_def split: if_splits
        intro!: inv_with [OF inv] dest: session_invD(2) [OF inv, THEN iffD1] simp: open_chan_def)
next
  case (Some c)
  then have c: "c < length (so_chans s)" "\<not> ch_closed (so_chans s ! c)" "so_controlOpen s"
    using session_invD(2,3) [OF inv] by (auto simp: open_chan_def)
  then have "s' = s\<lparr>so_attachments := (so_attachments s)[a := True], so_controlOpen := False, so_control := None,
      so_chans := (so_chans s)[c := (so_chans s ! c)\<lparr>ch_closed := True\<rparr>]\<rparr>"
    using assms(2) Some by (simp add: close_attachment_def Let_def close_chan_def split: if_splits)
  then show ?thesis using Some by (intro inv_with [OF inv]) simp_all
qed

lemma read_control_inv:
  assumes inv: "session_inv s" and "read_control c s = Some s'"
  shows "session_inv s'"
proof -
  have "s' = s\<lparr>so_chans := (so_chans s)[c := (so_chans s ! c)\<lparr>ch_events := tl (ch_events (so_chans s ! c))\<rparr>]\<rparr>"
    using assms(2) by (simp add: read_control_def split: if_splits)
  moreover have "open_chan (s\<lparr>so_chans := (so_chans s)[c := (so_chans s ! c)\<lparr>ch_events := evs\<rparr>]\<rparr>) d = open_chan s d" for evs d
    by (cases "c = d") (auto simp: open_chan_def)
  ultimately show ?thesis using session_invD(2,3) [OF inv] by (intro inv_with [OF inv]) simp_all
qed

lemma session_receive_inv:
  assumes "session_inv s" and "session_receive c s = Some s'"
  shows "session_inv s'"
proof -
  have "session_inv (s\<lparr>so_timer := Fired\<rparr>)"
    using session_invD(2,3) [OF assms(1)] by (intro inv_with [OF assms(1)]) (simp_all add: open_chan_def)
  then show ?thesis
    using assms by (cases c) (auto split: if_splits intro!: spawn_inv intro: close_attachment_inv read_control_inv simp: attach_cont_def)
qed

lemma new_session_inv: "session_inv (new_session cfg)"
  by (simp add: session_inv_def new_session_def count_def open_chan_def)

text \<open>The configuration never changes and a complete session stays complete.\<close>

lemma publish_config: "so_config (snd (publish ev s)) = so_config s" "so_complete (snd (publish ev s)) = so_complete s"
  by (simp_all add: publish_def Let_def split: option.split)

lemma close_chan_config [simp]: "so_config (close_chan c s) = so_config s" "so_complete (close_chan c s) = so_complete s"
  by (simp_all add: close_chan_def)

lemma session_advance_keeps:
  assumes "session_advance i a s = Some s'"
  shows "so_config s' = so_config s \<and> (so_complete s \<longrightarrow> so_complete s')"
proof -
  have publish: "so_config s1 = so_config s \<and> so_complete s1 = so_complete s" if "publish ev s = (r, s1)" for ev r s1
    using publish_config [of ev s] that by simp
  show ?thesis
    using assms publish
    by (auto simp: session_advance_def pump_step_def attach_section_def after_pump_def after_finish_def
        control_section_def finish_unattached_def Let_def publish_config
        split: session_pc.splits session_act.splits once.splits fin_cont.splits option.splits if_splits prod.splits sum.splits)
qed

lemma session_receive_keeps:
  "session_receive c s = Some s' \<Longrightarrow> so_config s' = so_config s \<and> so_complete s' = so_complete s"
  by (cases c) (auto simp: spawn_def close_attachment_def read_control_def Let_def split: if_splits option.splits)

section \<open>The registry\<close>

definition manager_inv :: "manager \<Rightarrow> bool" where
  "manager_inv m \<longleftrightarrow>
     length (mg_sessions m) \<le> mg_capacity m \<and> distinct (map fst (mg_sessions m)) \<and>
     (\<forall>(i, r) \<in> set (mg_sessions m). r < length (mg_objs m) \<and> mc_id (so_config (mg_objs m ! r)) = i) \<and>
     (\<forall>s \<in> set (mg_objs m). session_inv s) \<and>
     (\<forall>r < length (mg_objs m). \<not> so_complete (mg_objs m ! r) \<longrightarrow> (mc_id (so_config (mg_objs m ! r)), r) \<in> set (mg_sessions m)) \<and>
     mg_active m = length (mg_sessions m) + mg_unremoved m \<and>
     mg_started m = mg_completed m + mg_uncompleted m + mg_active m \<and>
     mg_late_streams m + mg_late_starters m \<le> mg_timeouts m"

lemma manager_invD:
  assumes "manager_inv m"
  shows "length (mg_sessions m) \<le> mg_capacity m" "distinct (map fst (mg_sessions m))"
    "\<And>i r. (i, r) \<in> set (mg_sessions m) \<Longrightarrow> r < length (mg_objs m) \<and> mc_id (so_config (mg_objs m ! r)) = i"
    "\<And>r. r < length (mg_objs m) \<Longrightarrow> session_inv (mg_objs m ! r)"
    "\<And>r. r < length (mg_objs m) \<Longrightarrow> \<not> so_complete (mg_objs m ! r) \<Longrightarrow> (mc_id (so_config (mg_objs m ! r)), r) \<in> set (mg_sessions m)"
    "mg_active m = length (mg_sessions m) + mg_unremoved m" "mg_started m = mg_completed m + mg_uncompleted m + mg_active m"
    "mg_late_streams m + mg_late_starters m \<le> mg_timeouts m"
  using assms by (auto simp: manager_inv_def)

text \<open>One object changes, within its invariant.\<close>

lemma update_obj_inv:
  assumes inv: "manager_inv m" and "r < length (mg_objs m) \<Longrightarrow> session_inv s"
    and "so_config s = so_config (mg_objs m ! r)" and "so_complete (mg_objs m ! r) \<longrightarrow> so_complete s"
  shows "manager_inv (update_obj r s m)"
proof -
  note D = manager_invD [OF inv]
  have "\<forall>x \<in> set ((mg_objs m)[r := s]). session_inv x"
    using assms(2) inv set_update_subset_insert [of "mg_objs m" r s]
    by (cases "r < length (mg_objs m)") (auto simp: manager_inv_def list_update_beyond)
  moreover have "so_config ((mg_objs m)[r := s] ! j) = so_config (mg_objs m ! j)" for j
    using assms(3) by (cases "r < length (mg_objs m)") (auto simp: nth_list_update list_update_beyond)
  moreover have "(mc_id (so_config (mg_objs m ! j)), j) \<in> set (mg_sessions m)"
    if "j < length (mg_objs m)" "\<not> so_complete ((mg_objs m)[r := s] ! j)" for j
    using assms(4) that D(5) [OF that(1)] by (cases "r = j") auto
  ultimately show ?thesis
    using D unfolding manager_inv_def update_obj_def by auto
qed

lemma removed_length:
  assumes "distinct (map fst xs)" and "(i, r) \<in> set xs"
  shows "length (filter (\<lambda>(j, _). j \<noteq> i) xs) = length xs - 1"
proof -
  have "filter (\<lambda>(j, _). j = i) xs = [(i, r)]"
    using assms by (induction xs) (force simp: filter_empty_conv)+
  then have one: "length (filter (\<lambda>(j, _). j = i) xs) = 1" by simp
  have "length (filter (\<lambda>x. \<not> (case x of (j, _) \<Rightarrow> j \<noteq> i)) xs) = 1"
    using one by (simp add: case_prod_unfold)
  with sum_length_filter_compl [of "\<lambda>(j, _). j \<noteq> i" xs] show ?thesis by linarith
qed

lemma remove_inv:
  assumes inv: "manager_inv m" and complete: "r < length (mg_objs m) \<Longrightarrow> so_complete (mg_objs m ! r)"
  shows "manager_inv (manager_remove i r m)"
proof (cases "map_of (mg_sessions m) i = Some r")
  case True
  note D = manager_invD [OF inv]
  have mem: "(i, r) \<in> set (mg_sessions m)" using True by (rule map_of_SomeD)
  have keep: "(mc_id (so_config (mg_objs m ! j)), j) \<in> set (filter (\<lambda>(k, _). k \<noteq> i) (mg_sessions m))"
    if j: "j < length (mg_objs m)" "\<not> so_complete (mg_objs m ! j)" for j
  proof -
    have s: "(mc_id (so_config (mg_objs m ! j)), j) \<in> set (mg_sessions m)" by (rule D(5) [OF j])
    have "mc_id (so_config (mg_objs m ! j)) \<noteq> i"
    proof
      assume "mc_id (so_config (mg_objs m ! j)) = i"
      with s True D(2) have "j = r" by auto
      with j complete show False by simp
    qed
    with s show ?thesis by simp
  qed
  have len: "length (filter (\<lambda>(j, _). j \<noteq> i) (mg_sessions m)) = length (mg_sessions m) - 1" "length (mg_sessions m) > 0"
    using removed_length [OF D(2) mem] mem by (auto simp: length_pos_if_in_set)
  show ?thesis
    unfolding manager_inv_def manager_remove_def using True D inv keep len
    by (auto simp: distinct_map_filter manager_inv_def)
qed (use inv in \<open>simp add: manager_remove_def\<close>)

lemma session_step_inv:
  assumes inv: "manager_inv m" and step: "session_step r i a m = Some m'"
  shows "manager_inv m'"
proof -
  let ?s = "mg_objs m ! r"
  have r: "r < length (mg_objs m)" "i < length (so_pcs ?s)" using step by (auto simp: session_step_def Let_def split: if_splits)
  note s = manager_invD(4) [OF inv r(1)]
  show ?thesis
  proof (cases "so_pcs ?s ! i = Removing")
    case True
    have complete: "so_complete ?s" using session_invD(13) [OF s r(2)] True by simp
    let ?m = "manager_remove (mc_id (so_config ?s)) r m"
    have objs: "mg_objs ?m = mg_objs m" by (simp add: manager_remove_def)
    have "manager_inv (update_obj r (moveto i SDone ?s) ?m)"
      by (rule update_obj_inv [OF remove_inv [OF inv]])
         (use complete quiet_steps_inv(5) [OF s r(2) True] in \<open>simp_all add: objs\<close>)
    with True step r show ?thesis by (simp add: session_step_def Let_def)
  next
    case False
    then obtain s' where s': "session_advance i a ?s = Some s'" "m' = update_obj r s' m"
      using step r by (auto simp: session_step_def Let_def split: option.splits)
    show ?thesis
      unfolding s'(2) by (rule update_obj_inv [OF inv]) (use session_advance_inv [OF s r(2) s'(1)] session_advance_keeps [OF s'(1)] in auto)
  qed
qed

lemma start_inv:
  assumes inv: "manager_inv m"
  shows "manager_inv (snd (manager_Start J cfg outcome m))"
proof -
  note D = manager_invD [OF inv]
  have "manager_inv (m\<lparr>mg_sessions := (mc_id cfg, length (mg_objs m)) # mg_sessions m, mg_objs := mg_objs m @ [new_session cfg],
      mg_started := Suc (mg_started m), mg_active := Suc (mg_active m)\<rparr>)"
    if "map_of (mg_sessions m) (mc_id cfg) = None" "\<not> length (mg_sessions m) \<ge> mg_capacity m"
    using that D new_session_inv [of cfg] inv
    by (auto simp: manager_inv_def nth_append map_of_eq_None_iff new_session_def less_Suc_eq)
  moreover have "manager_inv (m\<lparr>mg_timeouts := Suc (mg_timeouts m), mg_late_starters := Suc (mg_late_starters m)\<rparr>)"
    using inv by (simp add: manager_inv_def)
  ultimately show ?thesis using inv by (auto simp: manager_Start_def split: sum.splits start_outcome.splits)
qed

lemma drain_objs:
  assumes "k < length (mg_objs m)"
  shows "\<exists>s. mg_objs (manager_Drain m) ! k = s \<and> (s = mg_objs m ! k \<or> s = spawn (FinSection ThenNothing) (mg_objs m ! k))"
  using assms by (simp add: manager_Drain_def nth_enumerate_eq)

lemma drain_inv:
  assumes inv: "manager_inv m"
  shows "manager_inv (manager_Drain m)"
proof -
  note D = manager_invD [OF inv]
  let ?m = "manager_Drain m"
  have len: "length (mg_objs ?m) = length (mg_objs m)" by (simp add: manager_Drain_def)
  have k: "session_inv (mg_objs ?m ! k) \<and> so_config (mg_objs ?m ! k) = so_config (mg_objs m ! k) \<and>
      so_complete (mg_objs ?m ! k) = so_complete (mg_objs m ! k)" if "k < length (mg_objs m)" for k
    using drain_objs [OF that] D(4) [OF that]
    by (auto intro!: spawn_inv simp: attach_cont_def) (auto simp: spawn_def)
  have "mg_sessions ?m = mg_sessions m" "mg_capacity ?m = mg_capacity m" "mg_active ?m = mg_active m"
    "mg_started ?m = mg_started m" "mg_completed ?m = mg_completed m" "mg_unremoved ?m = mg_unremoved m"
    "mg_uncompleted ?m = mg_uncompleted m" "mg_timeouts ?m = mg_timeouts m" "mg_late_starters ?m = mg_late_starters m"
    "mg_late_streams ?m = mg_late_streams m"
    by (simp_all add: manager_Drain_def)
  with D k show ?thesis
    unfolding manager_inv_def all_set_conv_all_nth [of "mg_objs ?m"] len by auto
qed

lemma drain_step_inv:
  assumes inv: "manager_inv m" and step: "drain_step k d m = Some m'"
  shows "manager_inv m'"
proof -
  have drains: "manager_inv (m1\<lparr>mg_drains := x\<rparr>)" if "manager_inv m1" for m1 x using that by (simp add: manager_inv_def)
  show ?thesis
    using step inv by (auto simp: drain_step_def split: option.splits if_splits list.splits intro!: drains remove_inv)
qed

lemma metric_steps_inv:
  assumes "manager_inv m"
  shows "session_removed m = Some m' \<Longrightarrow> manager_inv m'" "session_completed m = Some m' \<Longrightarrow> manager_inv m'"
    "late_start delivered m = Some m' \<Longrightarrow> manager_inv m'"
  using assms
  by (auto simp: session_removed_def session_completed_def late_start_def manager_inv_def split: if_splits)

lemma manager_step_inv:
  assumes "manager_inv m" and "manager_step a m = Some m'"
  shows "manager_inv m'"
proof -
  have call: "manager_inv (update_obj r s m)"
    if "session_receive c (mg_objs m ! r) = Some s" for c r s
    by (rule update_obj_inv [OF assms(1)])
       (use that session_receive_inv [OF _ that] manager_invD(4) [OF assms(1)] session_receive_keeps [OF that] in auto)
  show ?thesis
    using assms start_inv [OF assms(1)] drain_inv [OF assms(1)] drain_step_inv [OF assms(1)] session_step_inv [OF assms(1)] call
      metric_steps_inv [OF assms(1)]
    by (cases a) (auto simp: lookup_call_def split: if_splits option.splits)
qed

lemma manager_run_inv: "manager_inv m \<Longrightarrow> manager_inv (manager_run as m)"
proof (induction as arbitrary: m)
  case (Cons a as)
  then show ?case by (cases "manager_step a m") (auto dest: manager_step_inv)
qed simp

lemma new_manager_inv: "NewManager capacity timeout engines limits = Inr m \<Longrightarrow> manager_inv m \<and> mg_capacity m = nat capacity"
  by (auto simp: NewManager_def manager_inv_def split: if_splits sum.splits)

lemma manager_step_capacity: "manager_step a m = Some m' \<Longrightarrow> mg_capacity m' = mg_capacity m"
  by (cases a)
     (auto simp: manager_Start_def lookup_call_def update_obj_def session_step_def manager_remove_def manager_Drain_def
       drain_step_def session_removed_def session_completed_def late_start_def Let_def split: if_splits option.splits sum.splits list.splits start_outcome.splits)

lemma manager_run_capacity: "mg_capacity (manager_run as m) = mg_capacity m"
proof (induction as arbitrary: m)
  case (Cons a as)
  then show ?case by (cases "manager_step a m") (auto dest: manager_step_capacity)
qed simp

lemma manager_step_draining:
  assumes "manager_step a m = Some m'" and "mg_draining m"
  shows "mg_draining m' \<and> length (mg_objs m') = length (mg_objs m) \<and> mg_timeouts m' = mg_timeouts m"
  using assms
  by (cases a)
     (auto simp: manager_Start_def lookup_call_def update_obj_def session_step_def manager_remove_def manager_Drain_def
       drain_step_def session_removed_def session_completed_def late_start_def Let_def split: if_splits option.splits sum.splits list.splits)

lemma manager_run_draining:
  "mg_draining m \<Longrightarrow> mg_draining (manager_run as m) \<and> length (mg_objs (manager_run as m)) = length (mg_objs m) \<and>
     mg_timeouts (manager_run as m) = mg_timeouts m"
proof (induction as arbitrary: m)
  case (Cons a as)
  then show ?case by (cases "manager_step a m") (auto dest: manager_step_draining)
qed simp

text \<open>No step of the manager closes a late stream.\<close>

lemma manager_step_late: "manager_step a m = Some m' \<Longrightarrow> mg_late_streams m \<le> mg_late_streams m'"
  by (cases a)
     (auto simp: manager_Start_def lookup_call_def update_obj_def session_step_def manager_remove_def manager_Drain_def
       drain_step_def session_removed_def session_completed_def late_start_def Let_def
       split: if_splits option.splits sum.splits list.splits start_outcome.splits)

lemma manager_run_late: "mg_late_streams m \<le> mg_late_streams (manager_run as m)"
proof (induction as arbitrary: m)
  case (Cons a as)
  then show ?case by (cases "manager_step a m") (auto dest: manager_step_late intro: order_trans)
qed simp

section \<open>Properties\<close>

definition pumping :: "session_pc \<Rightarrow> bool" where
  "pumping p \<longleftrightarrow> p = Pumping"

lemma pumping_attaching: "count pumping ps \<le> count attaching ps"
  unfolding count_def pumping_def by (intro sum_list_mono) (auto simp: of_bool_def)

lemma session_safe:
  assumes "session_inv s"
  shows "\<not> so_panic s \<and> so_stream_closed s \<le> 1 \<and> count pumping (so_pcs s) \<le> 1 \<and>
    (so_complete s \<longrightarrow> so_stream_closed s = 1 \<and> so_cancelled s \<and> so_control s = None \<and> count pumping (so_pcs s) = 0)"
proof -
  note D = session_invD [OF assms]
  have marks: "count marking (so_pcs s) \<le> count holds_once (so_pcs s)"
    unfolding count_def
  proof (rule sum_list_mono)
    fix p show "of_bool (marking p) \<le> (of_bool (holds_once p) :: int)" by (cases p) auto
  qed
  with D(4,6) have "so_stream_closed s \<le> 1" by (cases "so_once s") auto
  moreover have "so_stream_closed s = 1" if "so_complete s"
    using D(4,6,11) that marks count_nonneg [of marking "so_pcs s"] by auto
  ultimately show ?thesis
    using D pumping_attaching [of "so_pcs s"] count_nonneg [of pumping "so_pcs s"]
    by (cases "so_attached s") auto
qed

lemma open_sessions_bounded:
  assumes "manager_inv m"
  shows "card {r. r < length (mg_objs m) \<and> so_stream_closed (mg_objs m ! r) = 0} \<le> length (mg_sessions m)"
proof -
  note D = manager_invD [OF assms]
  have "{r. r < length (mg_objs m) \<and> so_stream_closed (mg_objs m ! r) = 0} \<subseteq> snd ` set (mg_sessions m)"
  proof
    fix r assume r: "r \<in> {r. r < length (mg_objs m) \<and> so_stream_closed (mg_objs m ! r) = 0}"
    then have "\<not> so_complete (mg_objs m ! r)" using session_safe [OF D(4)] by auto
    with D(5) r show "r \<in> snd ` set (mg_sessions m)" by force
  qed
  then have "card {r. r < length (mg_objs m) \<and> so_stream_closed (mg_objs m ! r) = 0} \<le> card (snd ` set (mg_sessions m))"
    by (intro card_mono) auto
  also have "\<dots> \<le> length (mg_sessions m)" by (metis card_length length_map list.set_map)
  finally show ?thesis .
qed

text \<open>
  C15: Whatever the clients of the media manager do and however the goroutines of its sessions interleave,
  no goroutine sends on or closes a closed control channel (which would end the process), at most one
  goroutine pumps a session, the stream of a session is closed at most once, and a session that is
  complete has its stream closed exactly once, its context cancelled, its control connection detached
  and no pump running.
\<close>

theorem media_sessions_safe:
  assumes "NewManager capacity timeout engines limits = Inr m0" and "s \<in> set (mg_objs (manager_run as m0))"
  shows "\<not> so_panic s \<and> so_stream_closed s \<le> 1 \<and> count pumping (so_pcs s) \<le> 1 \<and>
    (so_complete s \<longrightarrow> so_stream_closed s = 1 \<and> so_cancelled s \<and> so_control s = None \<and> count pumping (so_pcs s) = 0)"
proof -
  have "manager_inv (manager_run as m0)" using assms(1) by (intro manager_run_inv) (auto dest: new_manager_inv)
  with assms(2) have "session_inv s" by (simp add: manager_inv_def)
  then show ?thesis by (rule session_safe)
qed

definition echo_config :: media_config where
  "echo_config =
     \<lparr>mc_id = 5, mc_organization_id = 1, mc_call_id = 2, mc_channel_id = 3, mc_engine = EngineEcho,
      mc_input = \<lparr>SampleRateHz = 16000, Channels = 1\<rparr>, mc_output = \<lparr>SampleRateHz = 16000, Channels = 1\<rparr>,
      mc_language = [], mc_instructions = [], mc_voice = [], mc_engine_config = [], mc_tools = [], mc_providers = []\<rparr>"

definition echo_connection :: connection_metadata where
  "echo_connection =
     \<lparr>md_session = 5, md_call = 2, md_channel = 3, md_organization = 1, md_format = \<lparr>SampleRateHz = 16000, Channels = 1\<rparr>\<rparr>"

definition echo_manager :: manager where
  "echo_manager =
     \<lparr>mg_capacity = 2, mg_engines = [EngineEcho], mg_draining = False, mg_sessions = [], mg_objs = [],
      mg_drains = [], mg_active = 0, mg_started = 0, mg_completed = 0, mg_timeouts = 0,
      mg_unremoved = 0, mg_uncompleted = 0, mg_late_starters = 0, mg_late_streams = 0\<rparr>"

lemma echo_manager_new: "NewManager 2 second [EngineEcho] None = Inr echo_manager"
  by (simp add: NewManager_def limits_validate_def DefaultRuntimeLimits_def echo_manager_def)

text \<open>A session is started, its control attached, its connection attached, and then stopped.\<close>

definition echo_calls :: "manager_action list" where
  "echo_calls = [MStart (\<lambda>_. True) echo_config Started, MCall 5 CallControl, MStep 0 0 Proceed, MCall 5 (CallAttach echo_connection),
     MStep 0 1 Proceed, MCall 5 CallStop, MStep 0 2 Proceed, MStep 0 2 Proceed, MStep 0 2 Proceed, MStep 0 2 Proceed]"

theorem media_sessions_safe_witness:
  "\<exists>s \<in> set (mg_objs (manager_run echo_calls echo_manager)). \<not> so_panic s \<and> so_stream_closed s \<le> 1"
proof -
  have "length (mg_objs (manager_run echo_calls echo_manager)) = 1" by code_simp
  then obtain s where "s \<in> set (mg_objs (manager_run echo_calls echo_manager))" by (cases "mg_objs (manager_run echo_calls echo_manager)") auto
  with media_sessions_safe [OF echo_manager_new this] show ?thesis by blast
qed

definition open_streams :: "manager \<Rightarrow> nat" where
  "open_streams m = card {r. r < length (mg_objs m) \<and> so_stream_closed (mg_objs m ! r) = 0}"

text \<open>
  C34: The capacity bounds not only the registered sessions but the streams of sessions that are open: a
  session leaves the registry only after its stream was closed, on every path (\<^verbatim>\<open>Stop\<close>, disconnect, attach
  timeout, drain). All streams of the process that are open are bounded by the capacity and one more for
  each start that timed out, whose stream nobody closes. The metrics agree with the registry up to the
  updates that goroutines past a removal have still to make.
\<close>

theorem media_capacity_bounds_streams:
  assumes "NewManager capacity timeout engines limits = Inr m0" and "m = manager_run as m0"
  shows "int (open_streams m) \<le> capacity \<and>
    int (open_streams m + mg_late_streams m) \<le> capacity + int (mg_timeouts m) \<and>
    mg_active m = manager_Active m + mg_unremoved m \<and> mg_started m = mg_completed m + mg_uncompleted m + mg_active m"
proof -
  have "manager_inv m" using assms(1,2) by (auto dest: new_manager_inv intro: manager_run_inv)
  note D = manager_invD [OF this] and O = open_sessions_bounded [OF this, folded open_streams_def]
  have "mg_capacity m = nat capacity" "0 < capacity"
    using new_manager_inv [OF assms(1)] manager_run_capacity [of as m0] assms by (auto simp: NewManager_def split: if_splits)
  with D(1) O have "int (open_streams m) \<le> capacity" by linarith
  with D(6,7,8) show ?thesis by (auto simp: manager_Active_def)
qed

theorem media_capacity_bounds_streams_witness:
  "int (open_streams (manager_run echo_calls echo_manager)) \<le> 2"
  using media_capacity_bounds_streams [OF echo_manager_new refl, of echo_calls] by blast

text \<open>
  C38: When a drain found the registry empty, every session the manager ever started is complete and its
  stream closed exactly once, and from then on no session starts. The only streams left open are those
  that starters delivered, or will still deliver, after their start timed out: at most one per timeout,
  and they stay.
\<close>

theorem media_drain_closes_all:
  assumes "NewManager capacity timeout engines limits = Inr m0" and "m = manager_run as m0"
    and "mg_draining m" and "mg_sessions m = []"
  shows "(\<forall>s \<in> set (mg_objs m). so_complete s \<and> so_stream_closed s = 1) \<and>
    length (mg_objs (manager_run later m)) = length (mg_objs m) \<and>
    mg_late_streams m \<le> mg_late_streams (manager_run later m) \<and> mg_late_streams (manager_run later m) \<le> mg_timeouts m"
proof -
  have inv: "manager_inv m" using assms(1,2) by (auto dest: new_manager_inv intro: manager_run_inv)
  note D = manager_invD [OF inv] and late = manager_invD(8) [OF manager_run_inv [OF inv], of later]
  have "so_complete (mg_objs m ! r)" if "r < length (mg_objs m)" for r
    using D(5) [OF that] assms(4) by auto
  then show ?thesis
    using session_safe [OF D(4)] manager_run_draining [OF assms(3), of later] late manager_run_late [of m later]
    by (auto simp: in_set_conv_nth)
qed

definition drain_calls :: "manager_action list" where
  "drain_calls = [MStart (\<lambda>_. True) echo_config StartTimedOut, MStart (\<lambda>_. True) echo_config Started, MDrain] @
     replicate 8 (MStep 0 0 Proceed) @ [MDrainStep 0 False, MDrainStep 0 False]"

theorem media_drain_closes_all_witness:
  "length (mg_objs (manager_run (MLateStart True # echo_calls) (manager_run drain_calls echo_manager))) = 1 \<and>
   mg_late_streams (manager_run (MLateStart True # echo_calls) (manager_run drain_calls echo_manager)) \<le> 1"
proof -
  let ?m = "manager_run drain_calls echo_manager"
  have "mg_draining ?m \<and> mg_sessions ?m = [] \<and> length (mg_objs ?m) = 1 \<and> mg_timeouts ?m = 1" by code_simp
  with media_drain_closes_all [OF echo_manager_new refl, of drain_calls "MLateStart True # echo_calls"] show ?thesis
    by (simp del: manager_run.simps)
qed

text \<open>
  Late streams are leaked: a start that timed out leaves a goroutine that may still deliver a stream into a
  channel nobody reads. Any number of them can pile up beside a manager whose registry is empty.
\<close>

theorem late_streams_leaked:
  "let m = manager_run (concat (replicate n [MStart (\<lambda>_. True) echo_config StartTimedOut, MLateStart True])) echo_manager
   in mg_late_streams m = n \<and> mg_sessions m = [] \<and> manager_Ready m"
proof -
  have valid: "config_Validate (\<lambda>_. True) echo_config = Inr ()" by code_simp
  have "manager_run (concat (replicate n [MStart (\<lambda>_. True) echo_config StartTimedOut, MLateStart True])) m =
      m\<lparr>mg_timeouts := mg_timeouts m + n, mg_late_streams := mg_late_streams m + n\<rparr>"
    if "mg_sessions m = []" "\<not> mg_draining m" "0 < mg_capacity m" "mc_engine echo_config \<in> set (mg_engines m)" for m
    using that by (induction n arbitrary: m) (simp_all add: manager_Start_def valid late_start_def)
  from this [of echo_manager] show ?thesis by (simp add: echo_manager_def manager_Ready_def echo_config_def)
qed

text \<open>
  A session that was attached in time can be reported as timed out: the timer function publishes its
  terminal failure before it looks whether the session was attached. When the timer fires and the
  connection attaches before the function runs, the control client receives a terminal
  \<^verbatim>\<open>attach_timeout\<close> failure of a session that is attached and pumping audio.
\<close>

theorem attached_session_reported_timed_out:
  "let s = mg_objs (manager_run
       [MStart (\<lambda>_. True) echo_config Started, MCall 5 CallControl, MStep 0 0 Proceed, MObject 0 TimerFires,
        MCall 5 (CallAttach echo_connection), MStep 0 2 Proceed, MStep 0 1 Proceed, MStep 0 1 Proceed] echo_manager) ! 0
   in so_attached s \<and> \<not> so_finished s \<and> so_pcs s = [SDone, SDone, Pumping] \<and>
      ch_events (so_chans s ! 0) = [TerminalFailure FailureAttachTimeout]"
  by code_simp

end
