(* ===== verification/NetAddr.thy ===== *)
theory NetAddr
  imports Store
begin

text \<open>
  Textual IP addresses and prefixes: what the repository uses of \<^verbatim>\<open>net/netip\<close> (\<^verbatim>\<open>ParseAddr\<close>,
  \<^verbatim>\<open>ParsePrefix\<close>, \<^verbatim>\<open>Prefix.Masked\<close>, \<^verbatim>\<open>Prefix.Contains\<close>, \<^verbatim>\<open>Addr.Unmap\<close>) and of \<^verbatim>\<open>net.ParseIP\<close>. Shown: masking is
  idempotent and keeps the addresses of a prefix, and a prefix holds exactly the addresses that agree
  with it in its leading bits.
\<close>

unbundle bit_operations_syntax

section \<open>Parsing\<close>

fun split_on :: "char \<Rightarrow> string \<Rightarrow> string list" where
  "split_on sep [] = [[]]"
| "split_on sep (c # cs) =
     (if c = sep then [] # split_on sep cs
      else case split_on sep cs of [] \<Rightarrow> [[c]] | l # ls \<Rightarrow> (c # l) # ls)"

text \<open>A decimal field of an IPv4 address: digits, no leading zero, at most 255.\<close>

definition parse_octet :: "string \<Rightarrow> int option" where
  "parse_octet s =
     (if s = [] \<or> \<not> list_all is_digit s \<or> (length s > 1 \<and> hd s = CHR ''0'') \<or> digits_value 0 s > 255 then None
      else Some (digits_value 0 s))"

definition parseIPv4 :: "string \<Rightarrow> (32 word) option" where
  "parseIPv4 s =
     (case map parse_octet (split_on (CHR ''.'') s) of
        [Some a, Some b, Some c, Some d] \<Rightarrow> Some (word_of_int (((a * 256 + b) * 256 + c) * 256 + d))
      | _ \<Rightarrow> None)"

definition hex_value :: "char \<Rightarrow> int option" where
  "hex_value c =
     (let n = int (of_char c)
      in if 48 \<le> n \<and> n \<le> 57 then Some (n - 48)
         else if 97 \<le> n \<and> n \<le> 102 then Some (n - 87)
         else if 65 \<le> n \<and> n \<le> 70 then Some (n - 55) else None)"

text \<open>
  The longest run of hexadecimal digits at the start, with its value. \<open>groups\<close> is the loop of
  \<^verbatim>\<open>parseIPv6\<close>: the sixteen-bit groups read so far, where the ellipsis was, and the rest. A group has
  one to four digits; an embedded IPv4 address is the last two groups.
\<close>

fun hex_run :: "nat \<Rightarrow> int \<Rightarrow> string \<Rightarrow> nat \<times> int \<times> string" where
  "hex_run n acc [] = (n, acc, [])"
| "hex_run n acc (c # cs) =
     (case hex_value c of None \<Rightarrow> (n, acc, c # cs) | Some d \<Rightarrow> hex_run (Suc n) (acc * 16 + d) cs)"

lemma hex_run_shorter: "hex_run n acc s = (n', acc', r) \<Longrightarrow> length r + (n' - n) = length s \<and> n \<le> n'"
  by (induction n acc s rule: hex_run.induct) (fastforce split: option.splits)+

function groups :: "int list \<Rightarrow> nat option \<Rightarrow> string \<Rightarrow> (int list \<times> nat option) option" where
  "groups gs ellipsis s =
     (if length gs \<ge> 8 then (if s = [] then Some (gs, ellipsis) else None)
      else
        case hex_run 0 0 s of (n, v, r) \<Rightarrow>
          if n = 0 \<or> n > 4 then None
          else
            case r of
              [] \<Rightarrow> Some (gs @ [v], ellipsis)
            | c # r1 \<Rightarrow>
                if c = CHR ''.''
                then (if (ellipsis = None \<and> length gs \<noteq> 6) \<or> length gs > 6 then None
                      else map_option (\<lambda>w. (gs @ [uint w div 65536, uint w mod 65536], ellipsis)) (parseIPv4 s))
                else if c \<noteq> CHR '':'' then None
                else
                  case r1 of
                    [] \<Rightarrow> None
                  | d # r2 \<Rightarrow>
                      if d = CHR '':''
                      then (if ellipsis \<noteq> None then None
                            else if r2 = [] then Some (gs @ [v], Some (Suc (length gs)))
                            else groups (gs @ [v]) (Some (Suc (length gs))) r2)
                      else groups (gs @ [v]) ellipsis r1)"
  by pat_completeness auto
termination
proof (relation "measure (\<lambda>(gs, e, s). length s)", goal_cases)
  case (2 gs ellipsis s x y xa ya)
  then have "hex_run 0 0 s = (x, xa, ya)" by simp
  from hex_run_shorter [OF this] 2 show ?case by simp
next
  case (3 gs ellipsis s x y xa ya)
  then have "hex_run 0 0 s = (x, xa, ya)" by simp
  from hex_run_shorter [OF this] 3 show ?case by simp
qed simp

declare groups.simps [simp del]

definition word_of_groups :: "int list \<Rightarrow> 128 word" where
  "word_of_groups gs = word_of_int (fold (\<lambda>g a. a * 65536 + g) gs 0)"

text \<open>
  Without a zone. A full address has eight groups and no ellipsis; an ellipsis stands for at least one
  group of zeros.
\<close>

definition parseIPv6 :: "string \<Rightarrow> (128 word) option" where
  "parseIPv6 s =
     (if s = ''::'' then Some 0
      else
        case (if take 2 s = ''::'' then groups [] (Some 0) (drop 2 s) else groups [] None s) of
          None \<Rightarrow> None
        | Some (gs, None) \<Rightarrow> if length gs = 8 then Some (word_of_groups gs) else None
        | Some (gs, Some k) \<Rightarrow>
            if length gs < 8
            then Some (word_of_groups (take k gs @ replicate (8 - length gs) 0 @ drop k gs)) else None)"

text \<open>
  \<^verbatim>\<open>ParseAddr\<close> decides on the first dot, colon or percent sign. An address with a zone (\<^verbatim>\<open>fe80::1%eth0\<close>)
  parses, but \<^verbatim>\<open>ParsePrefix\<close> and \<^verbatim>\<open>net.ParseIP\<close> refuse it, so here it does not.
\<close>

definition ParseAddr :: "string \<Rightarrow> ip_addr option" where
  "ParseAddr s =
     (case find (\<lambda>c. c = CHR ''.'' \<or> c = CHR '':'' \<or> c = CHR ''%'') s of
        None \<Rightarrow> None
      | Some c \<Rightarrow>
          if c = CHR ''.'' then map_option IP4 (parseIPv4 s)
          else if c = CHR '':'' then map_option IP6 (parseIPv6 s) else None)"

definition ParseIP :: "string \<Rightarrow> bool" where
  "ParseIP s \<longleftrightarrow> ParseAddr s \<noteq> None"

fun addr_bits :: "ip_addr \<Rightarrow> nat" where
  "addr_bits (IP4 _) = 32"
| "addr_bits (IP6 _) = 128"

definition after_last :: "char \<Rightarrow> string \<Rightarrow> (string \<times> string) option" where
  "after_last sep s =
     (if sep \<notin> set s then None
      else let r = rev s in Some (rev (tl (dropWhile (\<lambda>c. c \<noteq> sep) r)), rev (takeWhile (\<lambda>c. c \<noteq> sep) r)))"

definition ParsePrefix :: "string \<Rightarrow> ip_prefix option" where
  "ParsePrefix s =
     (case after_last (CHR ''/'') s of
        None \<Rightarrow> None
      | Some (a, b) \<Rightarrow>
          (case ParseAddr a of
             None \<Rightarrow> None
           | Some addr \<Rightarrow>
               if length b > 1 \<and> (\<not> is_digit (hd b) \<or> hd b = CHR ''0'') then None
               else
                 case parse_int64 b of
                   None \<Rightarrow> None
                 | Some n \<Rightarrow> if n < 0 \<or> n > int (addr_bits addr) then None else Some \<lparr>pf_addr = addr, pf_bits = nat n\<rparr>))"

section \<open>Prefixes\<close>

definition high_bits :: "nat \<Rightarrow> 'a::len word \<Rightarrow> 'a word" where
  "high_bits n w = push_bit (LENGTH('a) - n) (drop_bit (LENGTH('a) - n) w)"

fun mask_addr :: "nat \<Rightarrow> ip_addr \<Rightarrow> ip_addr" where
  "mask_addr n (IP4 w) = IP4 (high_bits n w)"
| "mask_addr n (IP6 w) = IP6 (high_bits n w)"

definition Masked :: "ip_prefix \<Rightarrow> ip_prefix" where
  "Masked p = p\<lparr>pf_addr := mask_addr (pf_bits p) (pf_addr p)\<rparr>"

text \<open>\<^verbatim>\<open>Contains\<close>: the families agree and so do the leading bits. \<^verbatim>\<open>Unmap\<close> turns \<^verbatim>\<open>::ffff:a.b.c.d\<close> into IPv4.\<close>

fun prefix_Contains :: "ip_prefix \<Rightarrow> ip_addr \<Rightarrow> bool" where
  "prefix_Contains p (IP4 w) =
     (case pf_addr p of IP4 v \<Rightarrow> drop_bit (32 - pf_bits p) (v XOR w) = 0 | IP6 _ \<Rightarrow> False)"
| "prefix_Contains p (IP6 w) =
     (case pf_addr p of IP6 v \<Rightarrow> drop_bit (128 - pf_bits p) (v XOR w) = 0 | IP4 _ \<Rightarrow> False)"

fun Unmap :: "ip_addr \<Rightarrow> ip_addr" where
  "Unmap (IP4 w) = IP4 w"
| "Unmap (IP6 w) = (if drop_bit 32 w = 0xffff then IP4 (ucast w) else IP6 w)"

definition prefix_ok :: "ip_prefix \<Rightarrow> bool" where
  "prefix_ok p \<longleftrightarrow> pf_bits p \<le> addr_bits (pf_addr p)"

section \<open>Lemmas\<close>

lemma ParsePrefix_ok: "ParsePrefix s = Some p \<Longrightarrow> prefix_ok p"
  by (auto simp: ParsePrefix_def prefix_ok_def split: option.splits if_splits)

lemma addr_bits_mask [simp]: "addr_bits (mask_addr n a) = addr_bits a"
  by (cases a) simp_all

lemma high_bits_idem [simp]: "high_bits n (high_bits n w) = high_bits n w"
  by (rule bit_word_eqI) (auto simp: high_bits_def bit_push_bit_iff bit_drop_bit_eq)

lemma Masked_idem [simp]: "Masked (Masked p) = Masked p"
  by (cases "pf_addr p") (simp_all add: Masked_def)

lemma drop_high_bits: "drop_bit (LENGTH('a) - n) (high_bits n w XOR v) = drop_bit (LENGTH('a) - n) (w XOR v)"
  for w v :: "'a::len word"
  by (rule bit_word_eqI) (auto simp: high_bits_def bit_push_bit_iff bit_drop_bit_eq bit_xor_iff dest: bit_imp_le_length)

lemma Masked_Contains [simp]: "prefix_Contains (Masked p) a = prefix_Contains p a"
  using drop_high_bits [where 'a = 32] drop_high_bits [where 'a = 128]
  by (cases a; cases "pf_addr p") (simp_all add: Masked_def)

text \<open>The leading bits, spelled out.\<close>

lemma drop_xor_zero:
  "drop_bit k (v XOR w) = 0 \<longleftrightarrow> (\<forall>i. k \<le> i \<and> i < LENGTH('a) \<longrightarrow> bit v i = bit w i)" for v w :: "'a::len word"
proof
  assume h: "drop_bit k (v XOR w) = 0"
  show "\<forall>i. k \<le> i \<and> i < LENGTH('a) \<longrightarrow> bit v i = bit w i"
  proof (intro allI impI)
    fix i assume i: "k \<le> i \<and> i < LENGTH('a)"
    have "\<not> bit (drop_bit k (v XOR w)) (i - k)" using h by simp
    with i show "bit v i = bit w i" by (simp add: bit_drop_bit_eq bit_xor_iff)
  qed
next
  assume "\<forall>i. k \<le> i \<and> i < LENGTH('a) \<longrightarrow> bit v i = bit w i"
  then have "bit v (k + n) = bit w (k + n)" for n
    by (metis bit_imp_le_length le_add1)
  then show "drop_bit k (v XOR w) = 0"
    by (intro bit_word_eqI) (simp add: bit_drop_bit_eq bit_xor_iff)
qed

end
