(* ===== verification/Networking.thy ===== *)
theory Networking
  imports NetAddr
begin

text \<open>
  Organization network policies: the queries of \<^verbatim>\<open>sqlc/networking.sql.go\<close>, \<^verbatim>\<open>platform/networking\<close>
  (validation, evaluation, repository, service) and the middleware \<^verbatim>\<open>platform/middleware/networking.go\<close>
  that finds the address of the client and enforces the policies. Shown: the decision depends on the set
  of active rules only, a client cannot choose its address by sending forwarding headers, and a rule
  written in IPv4-mapped notation never matches.
\<close>

section \<open>Queries\<close>

definition btrim :: "string \<Rightarrow> string" where
  "btrim s = rev (dropWhile (\<lambda>c. c = CHR '' '') (rev (dropWhile (\<lambda>c. c = CHR '' '') s)))"

text \<open>\<^verbatim>\<open>length\<close> counts the characters of a UTF-8 text: the bytes that are not continuation bytes.\<close>

definition char_length :: "string \<Rightarrow> int" where
  "char_length s = int (length (filter (\<lambda>c. \<not> (128 \<le> int (of_char c) \<and> int (of_char c) < 192)) s))"

definition policy_checks :: "network_policy \<Rightarrow> bool" where
  "policy_checks p \<longleftrightarrow>
     1 \<le> char_length (btrim (np_name p)) \<and> char_length (btrim (np_name p)) \<le> 128 \<and>
     np_action p \<in> {''allow'', ''deny''} \<and> np_status p \<in> {''active'', ''disabled''}"

definition policy_unique :: "network_policy list \<Rightarrow> network_policy \<Rightarrow> bool" where
  "policy_unique rows p \<longleftrightarrow>
     list_all (\<lambda>r. np_id r \<noteq> np_id p \<longrightarrow>
       \<not> (np_organization_id r = np_organization_id p \<and>
          (np_name r = np_name p \<or> np_action r = np_action p \<and> np_source_cidr r = np_source_cidr p))) rows"

definition CreateNetworkPolicy ::
  "uuid \<Rightarrow> uuid \<Rightarrow> string \<Rightarrow> string \<Rightarrow> ip_prefix \<Rightarrow> int \<Rightarrow> db \<Rightarrow> goerr + network_policy \<times> db" where
  "CreateNetworkPolicy i org name action cidr now d =
     (let p = \<lparr>np_id = i, np_organization_id = org, np_name = name, np_action = action, np_source_cidr = cidr,
               np_status = ''active'', np_created_at = now, np_updated_at = now\<rparr>
      in if \<not> policy_checks p then Inl (ConstraintError ''23514'')
         else if i \<in> np_id ` set (network_policies d) \<or> \<not> policy_unique (network_policies d) p
         then Inl (ConstraintError ''23505'')
         else if org \<notin> o_id ` set (organizations d) then Inl (ConstraintError ''23503'')
         else Inr (p, d\<lparr>network_policies := network_policies d @ [p]\<rparr>))"

definition ListNetworkPolicies :: "uuid \<Rightarrow> db \<Rightarrow> goerr + network_policy list" where
  "ListNetworkPolicies org d =
     Inr (sort_key (\<lambda>p. - np_created_at p) (filter (\<lambda>p. np_organization_id p = org) (network_policies d)))"

definition or_else :: "'a option \<Rightarrow> 'a \<Rightarrow> 'a" where
  "or_else a b = (case a of None \<Rightarrow> b | Some x \<Rightarrow> x)"

definition UpdateNetworkPolicy ::
  "string option \<Rightarrow> string option \<Rightarrow> ip_prefix option \<Rightarrow> string option \<Rightarrow> uuid \<Rightarrow> uuid \<Rightarrow> int \<Rightarrow> db
     \<Rightarrow> goerr + network_policy \<times> db" where
  "UpdateNetworkPolicy name action cidr status i org now d =
     (case update_one (\<lambda>p. np_id p = i \<and> np_organization_id p = org)
             (\<lambda>p. p\<lparr>np_name := or_else name (np_name p), np_action := or_else action (np_action p),
                     np_source_cidr := or_else cidr (np_source_cidr p),
                     np_status := or_else status (np_status p), np_updated_at := now\<rparr>) (network_policies d) of
        Inl e \<Rightarrow> Inl e
      | Inr (p, rows) \<Rightarrow>
          if \<not> policy_checks p then Inl (ConstraintError ''23514'')
          else if \<not> policy_unique (network_policies d) p then Inl (ConstraintError ''23505'')
          else Inr (p, d\<lparr>network_policies := rows\<rparr>))"

definition DeleteNetworkPolicy :: "uuid \<Rightarrow> uuid \<Rightarrow> int \<Rightarrow> db \<Rightarrow> (goerr + unit) \<times> db" where
  "DeleteNetworkPolicy i org now d =
     (Inr (), d\<lparr>network_policies :=
        filter (\<lambda>p. \<not> (np_id p = i \<and> np_organization_id p = org)) (network_policies d)\<rparr>)"

section \<open>Validation\<close>

record policy_create =
  pc_name :: string
  pc_action :: string
  pc_source_cidr :: string

record policy_update =
  pu_name :: "string option"
  pu_action :: "string option"
  pu_source_cidr :: "string option"
  pu_status :: "string option"

definition bad_request :: "bool \<Rightarrow> string \<Rightarrow> goerr + unit" where
  "bad_request wrong msg = (if wrong then Inl (NewBadRequest msg) else Inr ())"

definition policy_name_wrong :: "string \<Rightarrow> bool" where
  "policy_name_wrong v \<longleftrightarrow> v = [] \<or> length v > 128"

definition policy_validateCreate :: "policy_create \<Rightarrow> goerr + policy_create \<times> ip_prefix" where
  "policy_validateCreate req0 =
     (let req = req0\<lparr>pc_name := trim_space (pc_name req0), pc_action := trim_space (pc_action req0)\<rparr>
      in if policy_name_wrong (pc_name req)
         then Inl (NewBadRequest ''name must be between 1 and 128 characters'')
         else if pc_action req \<noteq> ''allow'' \<and> pc_action req \<noteq> ''deny''
         then Inl (NewBadRequest ''action must be allow or deny'')
         else
           case ParsePrefix (trim_space (pc_source_cidr req)) of
             None \<Rightarrow> Inl (NewBadRequest ''source_cidr must be a valid CIDR'')
           | Some p \<Rightarrow> Inr (req, Masked p))"

text \<open>The canonical text that replaces \<^verbatim>\<open>SourceCIDR\<close> of an update is not read any more; the prefix is.\<close>

definition policy_validateUpdate :: "policy_update \<Rightarrow> goerr + policy_update \<times> ip_prefix option" where
  "policy_validateUpdate req0 =
     (let req = req0\<lparr>pu_name := map_option trim_space (pu_name req0),
                     pu_action := map_option trim_space (pu_action req0),
                     pu_status := map_option trim_space (pu_status req0)\<rparr>
      in if pu_name req = None \<and> pu_action req = None \<and> pu_source_cidr req = None \<and> pu_status req = None
         then Inl (NewBadRequest ''at least one field is required'')
         else if (case pu_name req of None \<Rightarrow> False | Some v \<Rightarrow> policy_name_wrong v)
         then Inl (NewBadRequest ''name must be between 1 and 128 characters'')
         else if pu_action req \<notin> {None, Some ''allow'', Some ''deny''}
         then Inl (NewBadRequest ''action must be allow or deny'')
         else if pu_status req \<notin> {None, Some ''active'', Some ''disabled''}
         then Inl (NewBadRequest ''status must be active or disabled'')
         else
           case pu_source_cidr req of
             None \<Rightarrow> Inr (req, None)
           | Some v \<Rightarrow>
               (case ParsePrefix (trim_space v) of
                  None \<Rightarrow> Inl (NewBadRequest ''source_cidr must be a valid CIDR'')
                | Some p \<Rightarrow> Inr (req, Some (Masked p))))"

section \<open>Evaluation\<close>

text \<open>
  An address as a request has it, with its IPv6 zone. A prefix holds no address with a zone; unmapping
  drops the zone of an IPv4-mapped address.
\<close>

record source_addr =
  sa_addr :: ip_addr
  sa_zone :: string

definition source_matches :: "ip_prefix \<Rightarrow> source_addr \<Rightarrow> bool" where
  "source_matches p a \<longleftrightarrow> sa_zone a = [] \<and> prefix_Contains p (sa_addr a)"

definition source_Unmap :: "source_addr \<Rightarrow> source_addr" where
  "source_Unmap a =
     (if Unmap (sa_addr a) = sa_addr a then a else \<lparr>sa_addr = Unmap (sa_addr a), sa_zone = []\<rparr>)"

fun policies_Allows :: "bool \<Rightarrow> bool \<Rightarrow> network_policy list \<Rightarrow> source_addr \<Rightarrow> bool" where
  "policies_Allows hasAllow matchedAllow [] a = (if matchedAllow then True else \<not> hasAllow)"
| "policies_Allows hasAllow matchedAllow (p # ps) a =
     (if np_status p \<noteq> ''active'' then policies_Allows hasAllow matchedAllow ps a
      else
        let hasAllow' = (hasAllow \<or> np_action p = ''allow'')
        in if \<not> source_matches (np_source_cidr p) a then policies_Allows hasAllow' matchedAllow ps a
           else if np_action p = ''deny'' then False
           else policies_Allows hasAllow' (matchedAllow \<or> np_action p = ''allow'') ps a)"

section \<open>Service\<close>

definition internal :: "string \<Rightarrow> goerr + 'a \<Rightarrow> goerr + 'a" where
  "internal msg r = (case r of Inl e \<Rightarrow> Inl (NewInternal msg e) | Inr x \<Rightarrow> Inr x)"

definition policy_Create :: "env \<Rightarrow> uuid \<Rightarrow> policy_create \<Rightarrow> (world, goerr + network_policy) state" where
  "policy_Create E org req0 =
     (if org = uuid_Nil then State_Monad.return (Inl (NewBadRequest ''organization_id is required''))
      else
        case policy_validateCreate req0 of
          Inl e \<Rightarrow> State_Monad.return (Inl e)
        | Inr (req, prefix) \<Rightarrow> do {
            w \<leftarrow> State_Monad.get;
            r \<leftarrow> exec E (statement (CreateNetworkPolicy (new_uuid E (tick w)) org (pc_name req) (pc_action req) prefix));
            State_Monad.return (internal ''create network policy'' r)
          })"

definition policy_List :: "env \<Rightarrow> uuid \<Rightarrow> (world, goerr + network_policy list) state" where
  "policy_List E org =
     (if org = uuid_Nil then State_Monad.return (Inl (NewBadRequest ''organization_id is required''))
      else do {
        r \<leftarrow> query E (ListNetworkPolicies org);
        State_Monad.return (internal ''list network policies'' r)
      })"

definition policy_Allows :: "env \<Rightarrow> uuid \<Rightarrow> source_addr \<Rightarrow> (world, goerr + bool) state" where
  "policy_Allows E org a =
     (if org = uuid_Nil then State_Monad.return (Inl (NewBadRequest ''organization_id is required''))
      else do {
        r \<leftarrow> query E (ListNetworkPolicies org);
        State_Monad.return (case r of
          Inl e \<Rightarrow> Inl (NewInternal ''list network policies'' e)
        | Inr policies \<Rightarrow> Inr (policies_Allows False False policies (source_Unmap a)))
      })"

definition policy_Update :: "env \<Rightarrow> uuid \<Rightarrow> uuid \<Rightarrow> policy_update \<Rightarrow> (world, goerr + network_policy) state" where
  "policy_Update E org i req0 =
     (if org = uuid_Nil \<or> i = uuid_Nil
      then State_Monad.return (Inl (NewBadRequest ''organization and policy ids are required''))
      else
        case policy_validateUpdate req0 of
          Inl e \<Rightarrow> State_Monad.return (Inl e)
        | Inr (req, prefix) \<Rightarrow> do {
            r \<leftarrow> exec E (statement (UpdateNetworkPolicy (pu_name req) (pu_action req) prefix (pu_status req) i org));
            State_Monad.return (internal ''update network policy'' r)
          })"

definition policy_Delete :: "env \<Rightarrow> uuid \<Rightarrow> uuid \<Rightarrow> (world, goerr + unit) state" where
  "policy_Delete E org i =
     (if org = uuid_Nil \<or> i = uuid_Nil
      then State_Monad.return (Inl (NewBadRequest ''organization and policy ids are required''))
      else do {
        r \<leftarrow> exec E (DeleteNetworkPolicy i org);
        State_Monad.return (internal ''delete network policy'' r)
      })"

section \<open>Middleware\<close>

text \<open>\<^verbatim>\<open>net.SplitHostPort\<close> (the host) and \<^verbatim>\<open>netip.ParseAddr\<close> with zones.\<close>

definition SplitHostPort :: "string \<Rightarrow> string option" where
  "SplitHostPort s =
     (case after_last (CHR '':'') s of
        None \<Rightarrow> None
      | Some (a, b) \<Rightarrow>
          if take 1 s = ''[''
          then (let h = takeWhile (\<lambda>c. c \<noteq> CHR '']'') (tl s)
                in if a = CHR ''['' # h @ '']'' \<and> CHR ''['' \<notin> set (tl s) \<and> CHR '']'' \<notin> set b then Some h else None)
          else if CHR '':'' \<in> set a \<or> CHR ''['' \<in> set s \<or> CHR '']'' \<in> set s then None else Some a)"

definition parse_source :: "string \<Rightarrow> source_addr option" where
  "parse_source s =
     (case find (\<lambda>c. c = CHR ''.'' \<or> c = CHR '':'' \<or> c = CHR ''%'') s of
        None \<Rightarrow> None
      | Some c \<Rightarrow>
          if c = CHR ''.'' then map_option (\<lambda>w. \<lparr>sa_addr = IP4 w, sa_zone = []\<rparr>) (parseIPv4 s)
          else if c = CHR '':''
          then (let h = takeWhile (\<lambda>c. c \<noteq> CHR ''%'') s; z = tl (dropWhile (\<lambda>c. c \<noteq> CHR ''%'') s)
                in if CHR ''%'' \<notin> set s then map_option (\<lambda>w. \<lparr>sa_addr = IP6 w, sa_zone = []\<rparr>) (parseIPv6 s)
                   else if z = [] then None else map_option (\<lambda>w. \<lparr>sa_addr = IP6 w, sa_zone = z\<rparr>) (parseIPv6 h))
          else None)"

definition containsAddress :: "ip_prefix list \<Rightarrow> source_addr \<Rightarrow> bool" where
  "containsAddress prefixes a \<longleftrightarrow> list_ex (\<lambda>p. source_matches p a) prefixes"

text \<open>The loop over the forwarded addresses, from the last one.\<close>

fun forwarded_address :: "ip_prefix list \<Rightarrow> source_addr \<Rightarrow> string list \<Rightarrow> source_addr option" where
  "forwarded_address trusted peer [] = Some peer"
| "forwarded_address trusted peer (v # vs) =
     (case parse_source (trim_space v) of
        None \<Rightarrow> None
      | Some c \<Rightarrow>
          if \<not> containsAddress trusted (source_Unmap c) then Some (source_Unmap c)
          else forwarded_address trusted peer vs)"

text \<open>The peer of the connection, with or without a port.\<close>

definition peer_address :: "string \<Rightarrow> source_addr option" where
  "peer_address remoteAddr =
     (let remote = trim_space remoteAddr
      in parse_source (case SplitHostPort remote of Some h \<Rightarrow> h | None \<Rightarrow> remote))"

text \<open>
  \<^verbatim>\<open>Header.Get\<close>: the value of the first line of the header, empty if there is none. A request may carry
  several lines.
\<close>

definition first_line :: "string list \<Rightarrow> string" where
  "first_line lines = (case lines of [] \<Rightarrow> [] | l # _ \<Rightarrow> l)"

definition clientAddress :: "ip_prefix list \<Rightarrow> string \<Rightarrow> string list \<Rightarrow> source_addr option" where
  "clientAddress trusted remoteAddr forwardedFor =
     (case peer_address remoteAddr of
        None \<Rightarrow> None
      | Some p \<Rightarrow>
          let peer = source_Unmap p
          in if \<not> containsAddress trusted peer then Some peer
             else forwarded_address trusted peer (rev (split_on (CHR '','') (first_line forwardedFor))))"

text \<open>The answer of the middleware: the error it writes, or the request goes on to the next handler.\<close>

definition network_Enforce ::
  "env \<Rightarrow> ip_prefix list \<Rightarrow> uuid option \<Rightarrow> string \<Rightarrow> string list \<Rightarrow> (world, goerr + unit) state" where
  "network_Enforce E trusted organization remoteAddr forwardedFor =
     (case organization of
        None \<Rightarrow> State_Monad.return (Inl (NewBadRequest ''organization context required''))
      | Some org \<Rightarrow>
          (case clientAddress trusted remoteAddr forwardedFor of
             None \<Rightarrow> State_Monad.return (Inl (AppErr FORBIDDEN ''request source address is unavailable'' None))
           | Some a \<Rightarrow> do {
               r \<leftarrow> policy_Allows E org a;
               State_Monad.return (case r of
                 Inl e \<Rightarrow> Inl e
               | Inr allowed \<Rightarrow>
                   if allowed then Inr ()
                   else Inl (AppErr FORBIDDEN ''request source is blocked by organization network policy'' None))
             }))"

section \<open>Lemmas\<close>

definition active_rule :: "string \<Rightarrow> network_policy \<Rightarrow> bool" where
  "active_rule action p \<longleftrightarrow> np_status p = ''active'' \<and> np_action p = action"

lemma policies_Allows_list_ex:
  "policies_Allows h m ps a \<longleftrightarrow>
     \<not> list_ex (\<lambda>p. active_rule ''deny'' p \<and> source_matches (np_source_cidr p) a) ps \<and>
     (m \<or> list_ex (\<lambda>p. active_rule ''allow'' p \<and> source_matches (np_source_cidr p) a) ps \<or>
      \<not> h \<and> \<not> list_ex (active_rule ''allow'') ps)"
proof (induction ps arbitrary: h m)
  case (Cons p ps)
  show ?case
  proof (cases "np_status p = ''active''")
    case True
    then have "active_rule x p \<longleftrightarrow> np_action p = x" for x by (simp add: active_rule_def)
    with True Cons.IH show ?thesis
      by (cases "source_matches (np_source_cidr p) a"; cases "np_action p = ''deny''"; cases "np_action p = ''allow''")
         (simp_all add: Let_def)
  qed (simp add: Cons.IH active_rule_def)
qed simp

lemma Unmap_idem [simp]: "Unmap (Unmap a) = Unmap a"
  by (cases a) simp_all

lemma source_Unmap_addr [simp]: "sa_addr (source_Unmap a) = Unmap (sa_addr a)"
  by (simp add: source_Unmap_def)

lemma split_on_not_Nil [simp]: "split_on c s \<noteq> []"
  by (induction s) (auto split: list.splits)

lemma split_on_append:
  "split_on c (xs @ c # ys) = split_on c xs @ split_on c ys"
  by (induction xs) (auto split: list.splits)

lemma split_on_no_sep: "c \<notin> set s \<Longrightarrow> split_on c s = [s]"
  by (induction s) auto

text \<open>A prefix in \<^verbatim>\<open>::ffff:0:0/96\<close> holds no unmapped address.\<close>

lemma mapped_prefix_empty:
  assumes "pf_addr p = IP6 v" "drop_bit 32 v = 0xffff" "96 \<le> pf_bits p"
  shows "\<not> prefix_Contains p (Unmap a)"
proof (cases "Unmap a")
  case (IP6 w)
  then have nw: "drop_bit 32 w \<noteq> 0xffff" by (cases a) (auto split: if_splits)
  show ?thesis
  proof
    assume "prefix_Contains p (Unmap a)"
    with assms IP6 have "drop_bit (128 - pf_bits p) (v XOR w) = 0" by simp
    then have "\<forall>i. 128 - pf_bits p \<le> i \<and> i < 128 \<longrightarrow> bit v i = bit w i" using drop_xor_zero [of "128 - pf_bits p" v w] by simp
    then have eq: "bit v (32 + n) = bit w (32 + n)" for n
      using assms(3) by (cases "32 + n < 128") (auto dest: bit_imp_le_length)
    have "drop_bit 32 v = drop_bit 32 w"
      by (rule bit_word_eqI) (simp add: bit_drop_bit_eq eq)
    with assms(2) nw show False by simp
  qed
qed (simp add: assms)

lemma forwarded_address_stops:
  assumes "list_all (\<lambda>h. \<exists>c. parse_source (trim_space h) = Some c \<and> containsAddress trusted (source_Unmap c)) hops"
    and "parse_source (trim_space real) = Some r" "\<not> containsAddress trusted (source_Unmap r)"
  shows "forwarded_address trusted peer (hops @ real # rest) = Some (source_Unmap r)"
  using assms by (induction hops) auto

lemma split_on_join:
  "list_all (\<lambda>h. c \<notin> set h) (h # hs) \<Longrightarrow> split_on c (join [c] (h # hs)) = h # hs"
proof (induction hs arbitrary: h)
  case (Cons g gs)
  then show ?case using split_on_append [of c h "join [c] (g # gs)"] by (simp add: split_on_no_sep)
qed (simp add: split_on_no_sep)

section \<open>Properties\<close>

text \<open>The active rules of an organization that allow, or deny.\<close>

definition active_rules :: "db \<Rightarrow> uuid \<Rightarrow> string \<Rightarrow> network_policy set" where
  "active_rules d org action =
     {p \<in> set (network_policies d). np_organization_id p = org \<and> active_rule action p}"

text \<open>
  C12: The middleware lets a request of an organization through exactly when no active deny rule of the
  organization covers the address of the client, and either an active allow rule covers it or there is
  no active allow rule; the order of the rules and rules of other organizations play no role. A refused
  request gets a forbidden error.
\<close>

theorem network_policy_enforced:
  assumes "quiet E" and "org \<noteq> uuid_Nil" and "clientAddress trusted remote forwarded = Some a"
  shows "fst (run_state (network_Enforce E trusted (Some org) remote forwarded) w) =
    (if (\<exists>p \<in> active_rules (database w) org ''deny''. source_matches (np_source_cidr p) (source_Unmap a)) \<or>
        active_rules (database w) org ''allow'' \<noteq> {} \<and> \<not> (\<exists>p \<in> active_rules (database w) org ''allow''. source_matches (np_source_cidr p) (source_Unmap a))
     then Inl (AppErr FORBIDDEN ''request source is blocked by organization network policy'' None)
     else Inr ())"
proof -
  let ?ps = "sort_key (\<lambda>p. - np_created_at p) (filter (\<lambda>p. np_organization_id p = org) (network_policies (database w)))"
  have ex: "list_ex (\<lambda>p. active_rule x p \<and> Q p) ?ps \<longleftrightarrow> (\<exists>p \<in> active_rules (database w) org x. Q p)" for x Q
    by (auto simp: list_ex_iff active_rules_def active_rule_def)
  have ne: "list_ex (active_rule x) ?ps \<longleftrightarrow> active_rules (database w) org x \<noteq> {}" for x
    by (auto simp: list_ex_iff active_rules_def)
  have "fst (run_state (network_Enforce E trusted (Some org) remote forwarded) w) =
      (if policies_Allows False False ?ps (source_Unmap a) then Inr ()
       else Inl (AppErr FORBIDDEN ''request source is blocked by organization network policy'' None))"
    using assms(1-3) by (simp add: network_Enforce_def policy_Allows_def ListNetworkPolicies_def)
  then show ?thesis by (simp add: policies_Allows_list_ex ex ne)
qed

definition sample_policy :: "uuid \<Rightarrow> string \<Rightarrow> ip_prefix \<Rightarrow> network_policy" where
  "sample_policy i action p = \<lparr>np_id = i, np_organization_id = 1, np_name = ''rule'', np_action = action,
     np_source_cidr = p, np_status = ''active'', np_created_at = 0, np_updated_at = 0\<rparr>"

definition policy_world :: world where
  "policy_world = empty_world\<lparr>database := empty_db\<lparr>network_policies :=
     [sample_policy 5 ''deny'' \<lparr>pf_addr = IP4 0x0a000000, pf_bits = 8\<rparr>]\<rparr>\<rparr>"

lemma sample_client:
  "clientAddress [\<lparr>pf_addr = IP4 0x7f000000, pf_bits = 8\<rparr>] ''127.0.0.1:80'' [''10.1.2.3''] =
     Some \<lparr>sa_addr = IP4 0x0a010203, sa_zone = []\<rparr>"
  by code_simp

theorem network_policy_enforced_witness:
  "fst (run_state (network_Enforce sample_env [\<lparr>pf_addr = IP4 0x7f000000, pf_bits = 8\<rparr>] (Some 1) ''127.0.0.1:80'' [''10.1.2.3'']) policy_world) =
     Inl (AppErr FORBIDDEN ''request source is blocked by organization network policy'' None)"
proof -
  have "source_matches \<lparr>pf_addr = IP4 0x0a000000, pf_bits = 8\<rparr> (source_Unmap \<lparr>sa_addr = IP4 0x0a010203, sa_zone = []\<rparr>)"
    by code_simp
  then show ?thesis
    using network_policy_enforced [OF quiet_sample _ sample_client, of 1 policy_world]
    by (auto simp: policy_world_def sample_policy_def active_rules_def active_rule_def)
qed

text \<open>
  C27: A client behind trusted proxies cannot choose the address it is judged by, provided the proxies append
  to the first X-Forwarded-For line: when that line ends in the address that the first trusted proxy saw,
  an address outside the trusted ranges, followed by addresses of trusted proxies, the request is judged
  by that address, whatever a client wrote in front of it and whatever further lines there are.
\<close>

theorem forwarded_address_not_spoofed:
  assumes "list_all (\<lambda>h. CHR '','' \<notin> set h) (real # hops)"
    and "parse_source (trim_space real) = Some r" and "\<not> containsAddress trusted (source_Unmap r)"
    and "list_all (\<lambda>h. \<exists>c. parse_source (trim_space h) = Some c \<and> containsAddress trusted (source_Unmap c)) hops"
    and "peer_address remote = Some p" and "containsAddress trusted (source_Unmap p)"
  shows "clientAddress trusted remote ((forged @ '','' @ join '','' (real # hops)) # lines) = Some (source_Unmap r)"
proof -
  let ?t = "join '','' (real # hops)"
  have "split_on (CHR '','') (forged @ '','' @ ?t) = split_on (CHR '','') forged @ real # hops"
    using split_on_append [of "CHR '',''" forged ?t] split_on_join [OF assms(1)] by simp
  moreover have "forwarded_address trusted peer (rev hops @ real # rest) = Some (source_Unmap r)" for peer rest
    using assms(2-4) by (intro forwarded_address_stops) (simp_all add: list_all_iff)
  ultimately have "forwarded_address trusted peer (rev (split_on (CHR '','') (forged @ '','' @ ?t))) = Some (source_Unmap r)" for peer
    by simp
  with assms(5,6) show ?thesis by (simp add: clientAddress_def peer_address_def first_line_def Let_def)
qed

theorem forwarded_address_not_spoofed_witness:
  "clientAddress [\<lparr>pf_addr = IP4 0x7f000000, pf_bits = 8\<rparr>] ''127.0.0.1:80''
     [''8.8.8.8'' @ '','' @ ''10.1.2.3,127.0.0.9'', ''9.9.9.9''] =
   Some (source_Unmap \<lparr>sa_addr = IP4 0x0a010203, sa_zone = []\<rparr>)"
proof -
  let ?t = "[\<lparr>pf_addr = IP4 0x7f000000, pf_bits = 8\<rparr>]"
  have "parse_source (trim_space ''10.1.2.3'') = Some \<lparr>sa_addr = IP4 0x0a010203, sa_zone = []\<rparr>"
    "parse_source (trim_space ''127.0.0.9'') = Some \<lparr>sa_addr = IP4 0x7f000009, sa_zone = []\<rparr>"
    "\<not> containsAddress ?t (source_Unmap \<lparr>sa_addr = IP4 0x0a010203, sa_zone = []\<rparr>)"
    "containsAddress ?t (source_Unmap \<lparr>sa_addr = IP4 0x7f000009, sa_zone = []\<rparr>)"
    "peer_address ''127.0.0.1:80'' = Some \<lparr>sa_addr = IP4 0x7f000001, sa_zone = []\<rparr>"
    "containsAddress ?t (source_Unmap \<lparr>sa_addr = IP4 0x7f000001, sa_zone = []\<rparr>)"
    by code_simp+
  then show ?thesis
    using forwarded_address_not_spoofed [of "''10.1.2.3''" "[''127.0.0.9'']" _ ?t "''127.0.0.1:80''" _ "''8.8.8.8''" "[''9.9.9.9'']"]
    by simp
qed

text \<open>
  A proxy that adds a line of its own instead, as some do, leaves the line of the client in effect: only
  the first line is read, so the client chooses the address it is judged by.
\<close>

theorem forged_header_line_decides:
  assumes "CHR '','' \<notin> set forged" and "parse_source (trim_space forged) = Some f" and "\<not> containsAddress trusted (source_Unmap f)"
    and "peer_address remote = Some p" and "containsAddress trusted (source_Unmap p)"
  shows "clientAddress trusted remote (forged # lines) = Some (source_Unmap f)"
proof -
  have "split_on (CHR '','') forged = [forged]" using split_on_join [of "CHR '',''" forged "[]"] assms(1) by simp
  with assms(2-5) show ?thesis by (simp add: clientAddress_def peer_address_def first_line_def Let_def)
qed

text \<open>
  A deny rule written in IPv4-mapped notation is accepted but has no effect: the service unmaps the
  address of the client before it compares, and the stored prefix stays an IPv6 one, so with or without
  the rule the decision is the same for every address.
\<close>

theorem mapped_deny_rule_ignored:
  "\<exists>req p. policy_validateCreate \<lparr>pc_name = ''block'', pc_action = ''deny'', pc_source_cidr = ''::ffff:10.0.0.0/104''\<rparr> = Inr (req, p) \<and>
    (\<forall>ps r a. policies_Allows False False (ps @ [r\<lparr>np_action := ''deny'', np_source_cidr := p\<rparr>]) (source_Unmap a) =
       policies_Allows False False ps (source_Unmap a))"
proof -
  let ?p = "\<lparr>pf_addr = IP6 0xffff0a000000, pf_bits = 104\<rparr>"
  have "policy_validateCreate \<lparr>pc_name = ''block'', pc_action = ''deny'', pc_source_cidr = ''::ffff:10.0.0.0/104''\<rparr> =
      Inr (\<lparr>pc_name = ''block'', pc_action = ''deny'', pc_source_cidr = ''::ffff:10.0.0.0/104''\<rparr>, ?p)"
    by code_simp
  moreover have "\<not> source_matches ?p (source_Unmap a)" for a
    using mapped_prefix_empty [of ?p "0xffff0a000000" "sa_addr a"] by (simp add: source_matches_def)
  then have "policies_Allows False False (ps @ [r\<lparr>np_action := ''deny'', np_source_cidr := ?p\<rparr>]) (source_Unmap a) =
       policies_Allows False False ps (source_Unmap a)" for ps r a
    by (simp add: policies_Allows_list_ex active_rule_def)
  ultimately show ?thesis by blast
qed

end
