(* ===== verification/Encryption.thy ===== *)
theory Encryption
  imports Store
begin

text \<open>
  Encryption of stored secrets, \<^verbatim>\<open>security/encryption\<close>, with the unpadded URL-safe base64 of
  \<^verbatim>\<open>encoding/base64\<close> and the SIP digest of \<^verbatim>\<open>pkg/hasher\<close>. AES-GCM under the configured key is the pair
  \<open>aead_seal\<close> and \<open>aead_open\<close> of the environment. Shown: base64 decodes what it encodes, a secret
  decrypts under the scope it was encrypted for, and under no other.
\<close>

section \<open>Base64\<close>

definition b64_alphabet :: string where
  "b64_alphabet = ''ABCDEFGHIJKLMNOPQRSTUVWXYZabcdefghijklmnopqrstuvwxyz0123456789-_''"

definition b64_char :: "int \<Rightarrow> char" where
  "b64_char k = b64_alphabet ! nat k"

fun index_of :: "char \<Rightarrow> int \<Rightarrow> string \<Rightarrow> int option" where
  "index_of c k [] = None"
| "index_of c k (x # xs) = (if x = c then Some k else index_of c (k + 1) xs)"

definition b64_value :: "char \<Rightarrow> int option" where
  "b64_value c = index_of c 0 b64_alphabet"

definition byte :: "char \<Rightarrow> int" where
  "byte c = int (of_char c)"

fun b64_encode :: "string \<Rightarrow> string" where
  "b64_encode [] = []"
| "b64_encode [a] = (let n = byte a * 16 in [b64_char (n div 64), b64_char (n mod 64)])"
| "b64_encode [a, b] =
     (let n = (byte a * 256 + byte b) * 4
      in [b64_char (n div 4096), b64_char (n div 64 mod 64), b64_char (n mod 64)])"
| "b64_encode (a # b # c # s) =
     (let n = (byte a * 256 + byte b) * 256 + byte c
      in b64_char (n div 262144) # b64_char (n div 4096 mod 64) # b64_char (n div 64 mod 64) # b64_char (n mod 64) #
         b64_encode s)"

text \<open>\<^verbatim>\<open>DecodeString\<close> skips line breaks, refuses other characters and a single trailing one, and ignores the low bits of the last one.\<close>

fun b64_quads :: "int list \<Rightarrow> string option" where
  "b64_quads [] = Some []"
| "b64_quads [a] = None"
| "b64_quads [a, b] = Some [char_of ((a * 64 + b) div 16)]"
| "b64_quads [a, b, c] =
     (let n = ((a * 64 + b) * 64 + c) div 4 in Some [char_of (n div 256), char_of (n mod 256)])"
| "b64_quads (a # b # c # d # s) =
     (let n = ((a * 64 + b) * 64 + c) * 64 + d
      in map_option (\<lambda>r. char_of (n div 65536) # char_of (n div 256 mod 256) # char_of (n mod 256) # r) (b64_quads s))"

fun all_some :: "'a option list \<Rightarrow> 'a list option" where
  "all_some [] = Some []"
| "all_some (None # xs) = None"
| "all_some (Some x # xs) = map_option (\<lambda>r. x # r) (all_some xs)"

definition b64_decode :: "string \<Rightarrow> string option" where
  "b64_decode s =
     Option.bind (all_some (map b64_value (filter (\<lambda>c. c \<noteq> CHR 0x0D \<and> c \<noteq> CHR 0x0A) s))) b64_quads"

section \<open>The cipher\<close>

definition scopedEnvelopeVersion :: string where
  "scopedEnvelopeVersion = ''v1''"

definition scopedAssociatedData :: "string \<Rightarrow> goerr + string" where
  "scopedAssociatedData scope0 =
     (let scope = trim_space scope0
      in if scope = [] then Inl (ErrorString ''credential encryption scope is required'')
         else Inr (''leamout:credential:'' @ scopedEnvelopeVersion @ '':'' @ scope))"

text \<open>\<^verbatim>\<open>Seal(nonce, nonce, ...)\<close> appends the sealed text to the nonce. Reading the nonce is an external call.\<close>

definition NonceSize :: nat where
  "NonceSize = 12"

definition read_random :: "env \<Rightarrow> (world, goerr + string) state" where
  "read_random E = external E (\<lambda>t w. (Inr (random_bytes E t), w))"

definition seal_text :: "env \<Rightarrow> string \<Rightarrow> string \<Rightarrow> string \<Rightarrow> string" where
  "seal_text E nonce plaintext ad = b64_encode (nonce @ aead_seal E nonce plaintext ad)"

definition EncryptForScope :: "env \<Rightarrow> string \<Rightarrow> string \<Rightarrow> (world, goerr + string) state" where
  "EncryptForScope E scope plaintext =
     (case scopedAssociatedData scope of
        Inl e \<Rightarrow> State_Monad.return (Inl e)
      | Inr ad \<Rightarrow> do {
          r \<leftarrow> read_random E;
          State_Monad.return (case r of
            Inl e \<Rightarrow> Inl (Wrap ''generate credential nonce'' e)
          | Inr nonce \<Rightarrow> Inr (scopedEnvelopeVersion @ ''.'' @ seal_text E nonce plaintext ad))
        })"

definition Encrypt :: "env \<Rightarrow> string \<Rightarrow> (world, goerr + string) state" where
  "Encrypt E plaintext = do {
     r \<leftarrow> read_random E;
     State_Monad.return (case r of
       Inl e \<Rightarrow> Inl (Wrap ''generate credential nonce'' e)
     | Inr nonce \<Rightarrow> Inr (seal_text E nonce plaintext []))
   }"

definition decrypt :: "env \<Rightarrow> string \<Rightarrow> string \<Rightarrow> goerr + string" where
  "decrypt E encoded ad =
     (case b64_decode encoded of
        None \<Rightarrow> Inl (ErrorString ''decode encrypted credential'')
      | Some sealed \<Rightarrow>
          if length sealed < NonceSize then Inl (ErrorString ''encrypted credential is truncated'')
          else
            case aead_open E (take NonceSize sealed) (drop NonceSize sealed) ad of
              None \<Rightarrow> Inl (ErrorString ''decrypt credential'')
            | Some plaintext \<Rightarrow> Inr plaintext)"

definition Decrypt :: "env \<Rightarrow> string \<Rightarrow> goerr + string" where
  "Decrypt E encoded = decrypt E encoded []"

definition DecryptForScope :: "env \<Rightarrow> string \<Rightarrow> string \<Rightarrow> goerr + string" where
  "DecryptForScope E scope encoded =
     (case scopedAssociatedData scope of
        Inl e \<Rightarrow> Inl e
      | Inr ad \<Rightarrow>
          (case cut_at ''.'' encoded of
             None \<Rightarrow> Inl (ErrorString ''unsupported scoped credential envelope'')
           | Some (version, encoded_payload) \<Rightarrow>
               if version \<noteq> scopedEnvelopeVersion then Inl (ErrorString ''unsupported scoped credential envelope'')
               else decrypt E encoded_payload ad))"

definition ComputeHA1MD5 :: "env \<Rightarrow> string \<Rightarrow> string \<Rightarrow> string \<Rightarrow> string" where
  "ComputeHA1MD5 E username realm secret = md5_hex E (join '':'' [username, realm, secret])"

section \<open>Lemmas\<close>

lemma byte_nonneg: "0 \<le> byte c"
  by (simp add: byte_def del: of_nat_of_char)

lemma byte_less: "byte c < 256"
  using nat_of_char_less_256 [of c] by (simp add: byte_def del: of_nat_of_char)

lemmas byte_range = byte_nonneg byte_less

lemma char_byte [simp]: "char_of (byte c) = c"
  by (simp add: byte_def)

lemma char_low_byte: "char_of (256 * u + byte c) = c"
proof -
  have "(256 * u + byte c) mod 256 = byte c" using byte_range [of c] by simp
  then show ?thesis by (metis char_of_mod_256 char_byte)
qed

lemma b64_table: "list_all (\<lambda>k. b64_value (b64_char k) = Some k) [0..63]"
  by code_simp

lemma b64_value_char [simp]: "0 \<le> k \<Longrightarrow> k < 64 \<Longrightarrow> b64_value (b64_char k) = Some k"
  using b64_table by (auto simp: list_all_iff)

lemma b64_alphabet_plain: "CHR 0x0D \<notin> set b64_alphabet" "CHR 0x0A \<notin> set b64_alphabet" "CHR ''.'' \<notin> set b64_alphabet"
  by code_simp+

lemma length_alphabet: "length b64_alphabet = 64"
  by code_simp

lemma b64_char_in: "0 \<le> k \<Longrightarrow> k < 64 \<Longrightarrow> b64_char k \<in> set b64_alphabet"
  by (simp add: b64_char_def length_alphabet)

fun sextets :: "string \<Rightarrow> int list" where
  "sextets [] = []"
| "sextets [a] = (let n = byte a * 16 in [n div 64, n mod 64])"
| "sextets [a, b] = (let n = (byte a * 256 + byte b) * 4 in [n div 4096, n div 64 mod 64, n mod 64])"
| "sextets (a # b # c # s) =
     (let n = (byte a * 256 + byte b) * 256 + byte c
      in n div 262144 # n div 4096 mod 64 # n div 64 mod 64 # n mod 64 # sextets s)"

lemma b64_encode_sextets: "b64_encode s = map b64_char (sextets s)"
  by (induction s rule: b64_encode.induct) (simp_all add: Let_def)

lemma sextets_range: "\<forall>k \<in> set (sextets s). 0 \<le> k \<and> k < 64"
proof (induction s rule: sextets.induct)
  case (2 a)
  then show ?case using byte_range [of a] by (auto simp: Let_def)
next
  case (3 a b)
  then show ?case using byte_range [of a] byte_range [of b] by (auto simp: Let_def)
next
  case (4 a b c s)
  then show ?case using byte_range [of a] byte_range [of b] byte_range [of c] by (auto simp: Let_def)
qed simp

lemma all_some_values: "\<forall>k \<in> set ks. 0 \<le> k \<and> k < 64 \<Longrightarrow> all_some (map b64_value (map b64_char ks)) = Some ks"
  by (induction ks) simp_all

lemma quads_sextets: "b64_quads (sextets s) = Some s"
proof (induction s rule: sextets.induct)
  case (2 a)
  have "(x * 16 div 64 * 64 + x * 16 mod 64) div 16 = x" for x :: int by presburger
  then show ?case by (simp only: sextets.simps b64_quads.simps Let_def char_byte)
next
  case (3 a b)
  have "(x div 4096 * 64 + x div 64 mod 64) * 64 + x mod 64 = x" for x :: int
    using mult_div_mod_eq [of 64 x] mult_div_mod_eq [of 64 "x div 64"] zdiv_zmult2_eq [of 64 x 64] by simp
  then show ?case using byte_range [of b] by (simp add: Let_def char_low_byte)
next
  case (4 a b c s)
  have "((x div 262144 * 64 + x div 4096 mod 64) * 64 + x div 64 mod 64) * 64 + x mod 64 = x" for x :: int
  proof -
    have "x div 4096 = x div 64 div 64" "x div 262144 = x div 64 div 64 div 64"
      using zdiv_zmult2_eq [of 64 x 64] zdiv_zmult2_eq [of 64 "x div 64" 64] zdiv_zmult2_eq [of 64 x 4096] by simp_all
    then show ?thesis by (simp only: div_mult_mod_eq)
  qed
  moreover have "((u * 256 + v) * 256 + z) div 65536 = u" "((u * 256 + v) * 256 + z) div 256 mod 256 = v"
    "((u * 256 + v) * 256 + z) mod 256 = z" if "0 \<le> v" "v < 256" "0 \<le> z" "z < 256" for u v z :: int
  proof -
    have q: "((u * 256 + v) * 256 + z) div 256 = u * 256 + v" using that by simp
    have "((u * 256 + v) * 256 + z) div 65536 = ((u * 256 + v) * 256 + z) div 256 div 256"
      using zdiv_zmult2_eq [of 256 "(u * 256 + v) * 256 + z" 256] by simp
    then show "((u * 256 + v) * 256 + z) div 65536 = u" using that by (simp add: q)
    show "((u * 256 + v) * 256 + z) div 256 mod 256 = v" unfolding q using that by simp
    show "((u * 256 + v) * 256 + z) mod 256 = z"
      using that mod_mult_self3 [of "u * 256 + v" 256 z] by (simp only: mod_pos_pos_trivial)
  qed
  ultimately show ?case
    using 4 byte_range [of b] byte_range [of c]
    by (simp only: sextets.simps b64_quads.simps Let_def option.map char_byte)
qed simp

lemma b64_encode_set: "set (b64_encode s) \<subseteq> set b64_alphabet"
  using sextets_range [of s] by (auto simp: b64_encode_sextets b64_char_in)

lemma b64_round_trip [simp]: "b64_decode (b64_encode s) = Some s"
proof -
  have "filter (\<lambda>c. c \<noteq> CHR 0x0D \<and> c \<noteq> CHR 0x0A) (b64_encode s) = b64_encode s"
    using b64_encode_set [of s] b64_alphabet_plain by (auto simp: filter_id_conv)
  then show ?thesis
    by (simp add: b64_decode_def b64_encode_sextets all_some_values sextets_range quads_sextets del: map_map)
qed

lemma cut_at_version: "cut_at ''.'' (scopedEnvelopeVersion @ ''.'' @ s) = Some (scopedEnvelopeVersion, s)"
  by (simp add: scopedEnvelopeVersion_def has_prefix_def)

lemma decrypt_sealed:
  "length nonce = NonceSize \<Longrightarrow>
   decrypt E (seal_text E nonce p ad) ad' =
     (case aead_open E nonce (aead_seal E nonce p ad) ad' of
        None \<Rightarrow> Inl (ErrorString ''decrypt credential'') | Some x \<Rightarrow> Inr x)"
  by (simp add: decrypt_def seal_text_def)

text \<open>What AES-GCM promises: it opens what it sealed, and nothing that was sealed for other associated data.\<close>

definition aead_correct :: "env \<Rightarrow> bool" where
  "aead_correct E \<longleftrightarrow> (\<forall>nonce p ad. aead_open E nonce (aead_seal E nonce p ad) ad = Some p)"

definition aead_authentic :: "env \<Rightarrow> bool" where
  "aead_authentic E \<longleftrightarrow> (\<forall>nonce p ad ad'. ad \<noteq> ad' \<longrightarrow> aead_open E nonce (aead_seal E nonce p ad) ad' = None)"

lemma sample_aead_correct: "aead_correct sample_env"
  by (simp add: aead_correct_def sample_env_def)

lemma sample_aead_authentic: "aead_authentic sample_env"
  unfolding aead_authentic_def
proof (intro allI impI)
  fix nonce p ad ad' :: string
  have x: "length xs = length ys" if "replicate (length xs) (CHR ''x'') @ CHR ''y'' # us = replicate (length ys) (CHR ''x'') @ CHR ''y'' # vs"
    for xs ys us vs :: string
  proof -
    have "takeWhile (\<lambda>c. c = CHR ''x'') (replicate n (CHR ''x'') @ CHR ''y'' # zs) = replicate n (CHR ''x'')" for n zs
      by (induction n) auto
    with that show ?thesis by (metis length_replicate)
  qed
  assume ne: "ad \<noteq> ad'"
  have "take (Suc (2 * length ad')) (replicate (length ad) (CHR ''x'') @ CHR ''y'' # ad @ p) \<noteq>
      replicate (length ad') (CHR ''x'') @ CHR ''y'' # ad'"
  proof
    assume h: "take (Suc (2 * length ad')) (replicate (length ad) (CHR ''x'') @ CHR ''y'' # ad @ p) =
      replicate (length ad') (CHR ''x'') @ CHR ''y'' # ad'"
    then have full: "replicate (length ad) (CHR ''x'') @ CHR ''y'' # ad @ p =
      replicate (length ad') (CHR ''x'') @ CHR ''y'' # ad' @ drop (Suc (2 * length ad')) (replicate (length ad) (CHR ''x'') @ CHR ''y'' # ad @ p)"
      by (metis append_take_drop_id append_assoc append_Cons)
    then have "length ad = length ad'" by (rule x)
    with full ne show False by simp
  qed
  then show "aead_open sample_env nonce (aead_seal sample_env nonce p ad) ad' = None"
    by (simp add: sample_env_def)
qed

lemma EncryptForScope_form:
  assumes "fst (run_state (EncryptForScope E scope secret) w) = Inr envelope"
  obtains t ad where "scopedAssociatedData scope = Inr ad"
    "envelope = scopedEnvelopeVersion @ ''.'' @ seal_text E (random_bytes E t) secret ad"
proof -
  obtain ad where ad: "scopedAssociatedData scope = Inr ad"
    using assms by (cases "scopedAssociatedData scope") (auto simp: EncryptForScope_def)
  moreover from ad assms obtain t where "envelope = scopedEnvelopeVersion @ ''.'' @ seal_text E (random_bytes E t) secret ad"
    by (auto simp: EncryptForScope_def read_random_def external_def Let_def split: fault.splits)
  ultimately show ?thesis by (rule that)
qed

lemma EncryptForScope_opens:
  assumes "aead_correct E" and "\<forall>t. length (random_bytes E t) = NonceSize"
    and "fst (run_state (EncryptForScope E scope secret) w) = Inr envelope"
  shows "DecryptForScope E scope envelope = Inr secret"
proof -
  from assms(3) obtain t ad where "scopedAssociatedData scope = Inr ad"
    "envelope = scopedEnvelopeVersion @ ''.'' @ seal_text E (random_bytes E t) secret ad"
    by (rule EncryptForScope_form)
  with assms(1,2) show ?thesis
    by (simp add: DecryptForScope_def cut_at_version [simplified] decrypt_sealed aead_correct_def)
qed

section \<open>Properties\<close>

text \<open>
  C24: A secret encrypted for a scope is read back under that scope, and under no other one (spaces around
  a scope aside): an envelope copied to another tenant, resource or field does not decrypt.
\<close>

theorem scoped_secret_bound_to_scope:
  assumes "aead_correct E" and "aead_authentic E" and "\<forall>t. length (random_bytes E t) = NonceSize"
    and "fst (run_state (EncryptForScope E scope secret) w) = Inr envelope"
  shows "DecryptForScope E scope' envelope =
    (if trim_space scope' = trim_space scope then Inr secret
     else if trim_space scope' = [] then Inl (ErrorString ''credential encryption scope is required'')
     else Inl (ErrorString ''decrypt credential''))"
proof -
  from assms(4) obtain t ad where ad: "scopedAssociatedData scope = Inr ad"
    and env: "envelope = scopedEnvelopeVersion @ ''.'' @ seal_text E (random_bytes E t) secret ad"
    by (rule EncryptForScope_form)
  have open_ad: "decrypt E (seal_text E (random_bytes E t) secret ad) ad' =
      (if ad' = ad then Inr secret else Inl (ErrorString ''decrypt credential''))" for ad'
    using assms(1-3) by (simp add: decrypt_sealed aead_correct_def aead_authentic_def)
  have ad_iff: "ad' = ad \<longleftrightarrow> trim_space scope' = trim_space scope" if "scopedAssociatedData scope' = Inr ad'" for ad'
    using that ad by (auto simp: scopedAssociatedData_def Let_def split: if_splits)
  show ?thesis
  proof (cases "scopedAssociatedData scope'")
    case (Inl e)
    with ad show ?thesis by (auto simp: DecryptForScope_def scopedAssociatedData_def Let_def split: if_splits)
  next
    case (Inr ad')
    then have "trim_space scope' \<noteq> []" by (auto simp: scopedAssociatedData_def Let_def split: if_splits)
    with Inr show ?thesis
      by (simp add: DecryptForScope_def env cut_at_version [simplified] open_ad ad_iff)
  qed
qed

definition nonce_env :: env where
  "nonce_env = sample_env\<lparr>random_bytes := \<lambda>_. ''twelve bytes''\<rparr>"

theorem scoped_secret_bound_to_scope_witness:
  "\<exists>envelope. fst (run_state (EncryptForScope nonce_env ''trunk:a'' ''secret'') empty_world) = Inr envelope \<and>
     DecryptForScope nonce_env ''trunk:a'' envelope = Inr ''secret'' \<and>
     DecryptForScope nonce_env ''trunk:b'' envelope = Inl (ErrorString ''decrypt credential'')"
proof -
  have laws: "aead_correct nonce_env" "aead_authentic nonce_env" "\<forall>t. length (random_bytes nonce_env t) = NonceSize"
    using sample_aead_correct sample_aead_authentic
    by (simp_all add: nonce_env_def aead_correct_def aead_authentic_def NonceSize_def)
  have trims: "trim_space ''trunk:a'' = ''trunk:a''" "trim_space ''trunk:b'' = ''trunk:b''" by code_simp+
  have "quiet nonce_env" by (simp add: quiet_def nonce_env_def sample_env_def)
  then have ex: "fst (run_state (EncryptForScope nonce_env ''trunk:a'' ''secret'') empty_world) =
      Inr (scopedEnvelopeVersion @ ''.'' @ seal_text nonce_env ''twelve bytes'' ''secret'' (''leamout:credential:'' @ scopedEnvelopeVersion @ '':'' @ ''trunk:a''))"
    by (simp add: EncryptForScope_def read_random_def run_external_quiet scopedAssociatedData_def trims Let_def nonce_env_def)
  show ?thesis
    using ex scoped_secret_bound_to_scope [OF laws ex, of "''trunk:a''"] scoped_secret_bound_to_scope [OF laws ex, of "''trunk:b''"]
    by (intro exI) (auto simp: trims)
qed

end
