(* ===== verification/TrunkStore.thy ===== *)
theory TrunkStore
  imports Routing Networking Encryption
begin

text \<open>
  The trunk tables: the queries of \<^verbatim>\<open>sqlc/trunks.sql.go\<close> with the constraints of the tables. A violated
  constraint is reported with its SQLSTATE: \<^verbatim>\<open>23505\<close> for uniqueness, \<^verbatim>\<open>23514\<close> for a check.
\<close>

section \<open>Constraints\<close>

definition has_text :: "string \<Rightarrow> bool" where
  "has_text s \<longleftrightarrow> list_ex (\<lambda>c. c \<noteq> CHR '' '') s"

definition opt_text :: "string option \<Rightarrow> bool" where
  "opt_text o' = (case o' of None \<Rightarrow> False | Some s \<Rightarrow> has_text s)"

definition trunk_directions :: "string list" where
  "trunk_directions = [''inbound'', ''outbound'', ''bidirectional'']"

definition auth_fields_ok :: "string \<Rightarrow> string \<Rightarrow> string option \<Rightarrow> string option \<Rightarrow> string option \<Rightarrow> bool" where
  "auth_fields_ok without method user realm ciphertext \<longleftrightarrow>
     method = without \<and> user = None \<and> realm = None \<and> ciphertext = None \<or>
     method = ''digest'' \<and> opt_text user \<and> opt_text realm \<and> ciphertext \<notin> {None, Some []}"

definition trunk_checks :: "trunk \<Rightarrow> bool" where
  "trunk_checks t \<longleftrightarrow>
     has_text (t_name t) \<and> t_direction t \<in> set trunk_directions \<and> t_status t \<in> {''active'', ''disabled''} \<and>
     auth_fields_ok ''none'' (t_outbound_auth_method t) (t_auth_username t) (t_auth_realm t) (t_auth_secret_ciphertext t) \<and>
     auth_fields_ok ''ip'' (t_inbound_auth_method t) (t_inbound_username t) (t_inbound_realm t) (t_inbound_secret_ciphertext t) \<and>
     t_max_cps t > 0 \<and> t_max_concurrent_calls t > 0"

definition trunk_name_free :: "trunk list \<Rightarrow> trunk \<Rightarrow> bool" where
  "trunk_name_free rows t \<longleftrightarrow>
     list_all (\<lambda>r. t_id r \<noteq> t_id t \<longrightarrow> \<not> (t_organization_id r = t_organization_id t \<and> t_name r = t_name t)) rows"

definition sql_space :: "char \<Rightarrow> bool" where
  "sql_space c \<longleftrightarrow> c \<in> {CHR '' '', CHR 0x09, CHR 0x0A, CHR 0x0B, CHR 0x0C, CHR 0x0D}"

definition trunk_endpoint_checks :: "trunk_endpoint \<Rightarrow> bool" where
  "trunk_endpoint_checks e \<longleftrightarrow>
     has_text (e_host e) \<and> \<not> list_ex sql_space (e_host e) \<and> 1 \<le> e_port e \<and> e_port e \<le> 65535 \<and>
     e_transport e \<in> {''udp'', ''tcp'', ''tls''} \<and> e_direction e \<in> set trunk_directions \<and>
     0 \<le> e_priority e \<and> 0 < e_weight e \<and> e_health_status e \<in> {''unknown'', ''healthy'', ''unhealthy''} \<and>
     0 \<le> e_consecutive_failures e \<and>
     (case e_last_response_code e of None \<Rightarrow> True | Some c \<Rightarrow> 100 \<le> c \<and> c \<le> 699) \<and>
     (case e_last_latency_ms e of None \<Rightarrow> True | Some l \<Rightarrow> 0 \<le> l)"

definition same_target :: "trunk_endpoint \<Rightarrow> trunk_endpoint \<Rightarrow> bool" where
  "same_target a b \<longleftrightarrow>
     e_trunk_id a = e_trunk_id b \<and> e_host a = e_host b \<and> e_port a = e_port b \<and> e_transport a = e_transport b \<and>
     e_direction a = e_direction b"

definition hex_digest :: "string \<Rightarrow> bool" where
  "hex_digest s \<longleftrightarrow>
     length s = 32 \<and> list_all (\<lambda>c. is_digit c \<or> 97 \<le> (of_char c :: nat) \<and> (of_char c :: nat) \<le> 102) s"

definition digest_checks :: "trunk_digest_credential \<Rightarrow> bool" where
  "digest_checks g \<longleftrightarrow>
     g_direction g \<in> {''inbound'', ''outbound''} \<and> has_text (g_username g) \<and> has_text (g_realm g) \<and>
     hex_digest (g_ha1_md5 g)"

text \<open>The partial unique index: no two inbound credentials share user name and realm.\<close>

definition inbound_identity_free :: "trunk_digest_credential list \<Rightarrow> trunk_digest_credential \<Rightarrow> bool" where
  "inbound_identity_free rows g \<longleftrightarrow>
     g_direction g = ''inbound'' \<longrightarrow>
     list_all (\<lambda>r. \<not> (g_direction r = ''inbound'' \<and> g_trunk_id r \<noteq> g_trunk_id g \<and>
        g_username r = g_username g \<and> g_realm r = g_realm g)) rows"

section \<open>Trunks\<close>

record trunk_params =
  tp_name :: string
  tp_direction :: "string option"
  tp_status :: "string option"
  tp_outbound_auth_method :: "string option"
  tp_auth_username :: "string option"
  tp_auth_realm :: "string option"
  tp_auth_secret_ciphertext :: "string option"
  tp_inbound_enabled :: "bool option"
  tp_inbound_auth_method :: "string option"
  tp_inbound_username :: "string option"
  tp_inbound_realm :: "string option"
  tp_inbound_secret_ciphertext :: "string option"
  tp_max_cps :: "int option"
  tp_max_concurrent_calls :: "int option"
  tp_codecs :: "string list option"
  tp_supports_video :: "bool option"
  tp_supports_fax :: "bool option"

definition new_trunk :: "uuid \<Rightarrow> uuid \<Rightarrow> trunk_params \<Rightarrow> int \<Rightarrow> trunk" where
  "new_trunk i org p now =
     \<lparr>t_id = i, t_organization_id = org, t_name = tp_name p,
      t_direction = or_else (tp_direction p) ''bidirectional'', t_status = or_else (tp_status p) ''active'',
      t_outbound_auth_method = or_else (tp_outbound_auth_method p) ''none'',
      t_auth_username = tp_auth_username p, t_auth_realm = tp_auth_realm p,
      t_auth_secret_ciphertext = tp_auth_secret_ciphertext p,
      t_inbound_enabled = or_else (tp_inbound_enabled p) False,
      t_inbound_auth_method = or_else (tp_inbound_auth_method p) ''ip'',
      t_inbound_username = tp_inbound_username p, t_inbound_realm = tp_inbound_realm p,
      t_inbound_secret_ciphertext = tp_inbound_secret_ciphertext p,
      t_max_cps = or_else (tp_max_cps p) 10, t_max_concurrent_calls = or_else (tp_max_concurrent_calls p) 100,
      t_codecs = or_else (tp_codecs p) [''PCMU'', ''PCMA''],
      t_supports_video = or_else (tp_supports_video p) False, t_supports_fax = or_else (tp_supports_fax p) False,
      t_created_at = now, t_updated_at = now\<rparr>"

definition CreateTrunk :: "uuid \<Rightarrow> uuid \<Rightarrow> trunk_params \<Rightarrow> int \<Rightarrow> db \<Rightarrow> goerr + trunk \<times> db" where
  "CreateTrunk i org p now d =
     (if \<not> active_organization d org then Inl ErrNoRows
      else
        let t = new_trunk i org p now
        in if \<not> trunk_checks t then Inl (ConstraintError ''23514'')
           else if i \<in> t_id ` set (trunks d) \<or> \<not> trunk_name_free (trunks d) t then Inl (ConstraintError ''23505'')
           else Inr (t, d\<lparr>trunks := trunks d @ [t]\<rparr>))"

definition own_trunk :: "uuid \<Rightarrow> uuid \<Rightarrow> trunk \<Rightarrow> bool" where
  "own_trunk i org t \<longleftrightarrow> t_id t = i \<and> t_organization_id t = org"

definition ListTrunksByOrganizationID :: "uuid \<Rightarrow> db \<Rightarrow> goerr + trunk list" where
  "ListTrunksByOrganizationID org d =
     Inr (sort_key (\<lambda>t. - t_created_at t) (filter (\<lambda>t. t_organization_id t = org) (trunks d)))"

definition change_trunk :: "(trunk \<Rightarrow> bool) \<Rightarrow> (trunk \<Rightarrow> trunk) \<Rightarrow> int \<Rightarrow> db \<Rightarrow> goerr + trunk \<times> db" where
  "change_trunk P f now d =
     (case update_one P (\<lambda>t. (f t)\<lparr>t_updated_at := now\<rparr>) (trunks d) of
        Inl e \<Rightarrow> Inl e
      | Inr (t, rows) \<Rightarrow>
          if \<not> trunk_checks t then Inl (ConstraintError ''23514'')
          else if \<not> trunk_name_free (trunks d) t then Inl (ConstraintError ''23505'')
          else Inr (t, d\<lparr>trunks := rows\<rparr>))"

record trunk_update =
  ut_name :: "string option"
  ut_direction :: "string option"
  ut_status :: "string option"
  ut_inbound_enabled :: "bool option"
  ut_max_cps :: "int option"
  ut_max_concurrent_calls :: "int option"
  ut_codecs :: "string list option"
  ut_supports_video :: "bool option"
  ut_supports_fax :: "bool option"

definition updated_trunk :: "trunk_update \<Rightarrow> trunk \<Rightarrow> trunk" where
  "updated_trunk u t =
     t\<lparr>t_name := or_else (ut_name u) (t_name t), t_direction := or_else (ut_direction u) (t_direction t),
       t_status := or_else (ut_status u) (t_status t),
       t_inbound_enabled := or_else (ut_inbound_enabled u) (t_inbound_enabled t),
       t_max_cps := or_else (ut_max_cps u) (t_max_cps t),
       t_max_concurrent_calls := or_else (ut_max_concurrent_calls u) (t_max_concurrent_calls t),
       t_codecs := or_else (ut_codecs u) (t_codecs t),
       t_supports_video := or_else (ut_supports_video u) (t_supports_video t),
       t_supports_fax := or_else (ut_supports_fax u) (t_supports_fax t)\<rparr>"

definition UpdateTrunk :: "trunk_update \<Rightarrow> uuid \<Rightarrow> uuid \<Rightarrow> int \<Rightarrow> db \<Rightarrow> goerr + trunk \<times> db" where
  "UpdateTrunk u i org = change_trunk (own_trunk i org) (updated_trunk u)"

definition DisableTrunk :: "uuid \<Rightarrow> uuid \<Rightarrow> int \<Rightarrow> db \<Rightarrow> goerr + trunk \<times> db" where
  "DisableTrunk i org =
     change_trunk (\<lambda>t. own_trunk i org t \<and> t_status t = ''active'') (\<lambda>t. t\<lparr>t_status := ''disabled''\<rparr>)"

section \<open>Digest credentials\<close>

definition digest_row :: "uuid \<Rightarrow> uuid \<Rightarrow> string \<Rightarrow> string \<Rightarrow> string \<Rightarrow> string \<Rightarrow> int \<Rightarrow> trunk_digest_credential" where
  "digest_row i org dir username realm ha1 now =
     \<lparr>g_trunk_id = i, g_organization_id = org, g_direction = dir, g_username = username, g_realm = realm,
      g_ha1_md5 = ha1, g_created_at = now, g_updated_at = now\<rparr>"

definition has_digest :: "uuid \<Rightarrow> string \<Rightarrow> trunk_digest_credential \<Rightarrow> bool" where
  "has_digest i dir g \<longleftrightarrow> g_trunk_id g = i \<and> g_direction g = dir"

definition InsertTrunkDigestCredential ::
  "uuid \<Rightarrow> uuid \<Rightarrow> string \<Rightarrow> string \<Rightarrow> string \<Rightarrow> string \<Rightarrow> int \<Rightarrow> db \<Rightarrow> goerr + unit \<times> db" where
  "InsertTrunkDigestCredential i org dir username realm ha1 now d =
     (if \<not> list_ex (own_trunk i org) (trunks d) then Inr ((), d)
      else
        let g = digest_row i org dir username realm ha1 now
        in if \<not> digest_checks g then Inl (ConstraintError ''23514'')
           else if list_ex (has_digest i dir) (trunk_digest_credentials d) \<or>
                   \<not> inbound_identity_free (trunk_digest_credentials d) g then Inl (ConstraintError ''23505'')
           else Inr ((), d\<lparr>trunk_digest_credentials := trunk_digest_credentials d @ [g]\<rparr>))"

text \<open>\<^verbatim>\<open>INSERT ... ON CONFLICT (trunk_id, direction) DO UPDATE\<close>.\<close>

definition upsert_digest ::
  "uuid \<Rightarrow> uuid \<Rightarrow> string \<Rightarrow> string \<Rightarrow> string \<Rightarrow> string \<Rightarrow> int \<Rightarrow> trunk_digest_credential list
     \<Rightarrow> goerr + trunk_digest_credential list" where
  "upsert_digest i org dir username realm ha1 now rows =
     (let g = digest_row i org dir username realm ha1 now
      in if \<not> digest_checks g then Inl (ConstraintError ''23514'')
         else if \<not> inbound_identity_free rows g then Inl (ConstraintError ''23505'')
         else if list_ex (has_digest i dir) rows
         then Inr (update_where (has_digest i dir)
                (\<lambda>r. r\<lparr>g_username := username, g_realm := realm, g_ha1_md5 := ha1, g_updated_at := now\<rparr>) rows)
         else Inr (rows @ [g]))"

text \<open>
  The four statements that change the authentication of a trunk. Each is one statement over both
  tables; without the trunk it does nothing.
\<close>

definition set_digest ::
  "(trunk \<Rightarrow> trunk) \<Rightarrow> string \<Rightarrow> string \<Rightarrow> string \<Rightarrow> string \<Rightarrow> uuid \<Rightarrow> uuid \<Rightarrow> int \<Rightarrow> db \<Rightarrow> goerr + unit \<times> db" where
  "set_digest f dir username realm ha1 i org now d =
     (if \<not> list_ex (own_trunk i org) (trunks d) then Inr ((), d)
      else
        case change_trunk (own_trunk i org) f now d of
          Inl e \<Rightarrow> Inl e
        | Inr (_, d1) \<Rightarrow>
            (case upsert_digest i org dir username realm ha1 now (trunk_digest_credentials d1) of
               Inl e \<Rightarrow> Inl e
             | Inr rows \<Rightarrow> Inr ((), d1\<lparr>trunk_digest_credentials := rows\<rparr>)))"

definition clear_digest :: "(trunk \<Rightarrow> trunk) \<Rightarrow> string \<Rightarrow> uuid \<Rightarrow> uuid \<Rightarrow> int \<Rightarrow> db \<Rightarrow> goerr + unit \<times> db" where
  "clear_digest f dir i org now d =
     (if \<not> list_ex (own_trunk i org) (trunks d) then Inr ((), d)
      else
        case change_trunk (own_trunk i org) f now d of
          Inl e \<Rightarrow> Inl e
        | Inr (_, d1) \<Rightarrow>
            Inr ((), d1\<lparr>trunk_digest_credentials := filter (\<lambda>g. \<not> has_digest i dir g) (trunk_digest_credentials d1)\<rparr>))"

definition with_outbound :: "string \<Rightarrow> string option \<Rightarrow> string option \<Rightarrow> string option \<Rightarrow> trunk \<Rightarrow> trunk" where
  "with_outbound method username realm ciphertext t =
     t\<lparr>t_outbound_auth_method := method, t_auth_username := username, t_auth_realm := realm,
       t_auth_secret_ciphertext := ciphertext\<rparr>"

definition with_inbound :: "string \<Rightarrow> string option \<Rightarrow> string option \<Rightarrow> string option \<Rightarrow> trunk \<Rightarrow> trunk" where
  "with_inbound method username realm ciphertext t =
     t\<lparr>t_inbound_auth_method := method, t_inbound_username := username, t_inbound_realm := realm,
       t_inbound_secret_ciphertext := ciphertext\<rparr>"

definition SetTrunkOutboundDigestAuth ::
  "string \<Rightarrow> string \<Rightarrow> string \<Rightarrow> string \<Rightarrow> uuid \<Rightarrow> uuid \<Rightarrow> int \<Rightarrow> db \<Rightarrow> goerr + unit \<times> db" where
  "SetTrunkOutboundDigestAuth username realm ciphertext ha1 =
     set_digest (with_outbound ''digest'' (Some username) (Some realm) (Some ciphertext)) ''outbound'' username realm ha1"

definition ClearTrunkOutboundAuth :: "uuid \<Rightarrow> uuid \<Rightarrow> int \<Rightarrow> db \<Rightarrow> goerr + unit \<times> db" where
  "ClearTrunkOutboundAuth = clear_digest (with_outbound ''none'' None None None) ''outbound''"

definition SetTrunkInboundDigestAuth ::
  "string \<Rightarrow> string \<Rightarrow> string \<Rightarrow> string \<Rightarrow> uuid \<Rightarrow> uuid \<Rightarrow> int \<Rightarrow> db \<Rightarrow> goerr + unit \<times> db" where
  "SetTrunkInboundDigestAuth username realm ciphertext ha1 =
     set_digest (with_inbound ''digest'' (Some username) (Some realm) (Some ciphertext)) ''inbound'' username realm ha1"

definition SetTrunkInboundIPAuth :: "uuid \<Rightarrow> uuid \<Rightarrow> int \<Rightarrow> db \<Rightarrow> goerr + unit \<times> db" where
  "SetTrunkInboundIPAuth = clear_digest (with_inbound ''ip'' None None None) ''inbound''"

section \<open>Source networks\<close>

definition CreateTrunkSourceIP ::
  "uuid \<Rightarrow> uuid \<Rightarrow> uuid \<Rightarrow> ip_prefix \<Rightarrow> int \<Rightarrow> db \<Rightarrow> goerr + trunk_source_ip \<times> db" where
  "CreateTrunkSourceIP i org trunk_id cidr now d =
     (if \<not> list_ex (own_trunk trunk_id org) (trunks d) then Inl ErrNoRows
      else if list_ex (\<lambda>s. si_id s = i \<or> si_trunk_id s = trunk_id \<and> si_cidr s = cidr) (trunk_source_ips d)
      then Inl (ConstraintError ''23505'')
      else
        let s = \<lparr>si_id = i, si_organization_id = org, si_trunk_id = trunk_id, si_cidr = cidr, si_created_at = now\<rparr>
        in Inr (s, d\<lparr>trunk_source_ips := trunk_source_ips d @ [s]\<rparr>))"

definition ListTrunkSourceIPs :: "uuid \<Rightarrow> uuid \<Rightarrow> db \<Rightarrow> goerr + trunk_source_ip list" where
  "ListTrunkSourceIPs trunk_id org d =
     Inr (sort_key si_created_at
       (filter (\<lambda>s. si_trunk_id s = trunk_id \<and> si_organization_id s = org) (trunk_source_ips d)))"

definition DeleteTrunkSourceIP :: "uuid \<Rightarrow> uuid \<Rightarrow> uuid \<Rightarrow> int \<Rightarrow> db \<Rightarrow> goerr + unit \<times> db" where
  "DeleteTrunkSourceIP i trunk_id org now d =
     Inr ((), d\<lparr>trunk_source_ips :=
       filter (\<lambda>s. \<not> (si_id s = i \<and> si_trunk_id s = trunk_id \<and> si_organization_id s = org)) (trunk_source_ips d)\<rparr>)"

section \<open>Endpoints\<close>

record endpoint_params =
  ep_host :: "string option"
  ep_port :: "int option"
  ep_transport :: "string option"
  ep_direction :: "string option"
  ep_priority :: "int option"
  ep_weight :: "int option"
  ep_enabled :: "bool option"

definition new_endpoint :: "uuid \<Rightarrow> uuid \<Rightarrow> uuid \<Rightarrow> string \<Rightarrow> endpoint_params \<Rightarrow> int \<Rightarrow> trunk_endpoint" where
  "new_endpoint i org trunk_id host p now =
     \<lparr>e_id = i, e_organization_id = org, e_trunk_id = trunk_id, e_host = host, e_port = or_else (ep_port p) 5060,
      e_transport = or_else (ep_transport p) ''udp'', e_direction = or_else (ep_direction p) ''bidirectional'',
      e_priority = or_else (ep_priority p) 10, e_weight = or_else (ep_weight p) 100,
      e_enabled = or_else (ep_enabled p) True, e_health_status = ''unknown'', e_consecutive_failures = 0,
      e_last_checked_at = None, e_last_response_code = None, e_last_latency_ms = None, e_last_error = None,
      e_cooldown_until = None, e_created_at = now, e_updated_at = now\<rparr>"

definition CreateTrunkEndpoint ::
  "uuid \<Rightarrow> uuid \<Rightarrow> uuid \<Rightarrow> string \<Rightarrow> endpoint_params \<Rightarrow> int \<Rightarrow> db \<Rightarrow> goerr + trunk_endpoint \<times> db" where
  "CreateTrunkEndpoint i org trunk_id host p now d =
     (if \<not> list_ex (own_trunk trunk_id org) (trunks d) then Inl ErrNoRows
      else
        let e = new_endpoint i org trunk_id host p now
        in if \<not> trunk_endpoint_checks e then Inl (ConstraintError ''23514'')
           else if list_ex (\<lambda>x. e_id x = i \<or> same_target x e) (trunk_endpoints d) then Inl (ConstraintError ''23505'')
           else Inr (e, d\<lparr>trunk_endpoints := trunk_endpoints d @ [e]\<rparr>))"

text \<open>An endpoint of a trunk that exists in the same organization.\<close>

definition own_endpoint :: "db \<Rightarrow> uuid \<Rightarrow> uuid \<Rightarrow> uuid \<Rightarrow> trunk_endpoint \<Rightarrow> bool" where
  "own_endpoint d i trunk_id org e \<longleftrightarrow>
     e_id e = i \<and> e_trunk_id e = trunk_id \<and> e_organization_id e = org \<and> list_ex (own_trunk trunk_id org) (trunks d)"

definition GetTrunkEndpointByID :: "uuid \<Rightarrow> uuid \<Rightarrow> uuid \<Rightarrow> db \<Rightarrow> goerr + trunk_endpoint" where
  "GetTrunkEndpointByID i trunk_id org d = select_one (own_endpoint d i trunk_id org) (trunk_endpoints d)"

definition ListTrunkEndpoints :: "uuid \<Rightarrow> uuid \<Rightarrow> db \<Rightarrow> goerr + trunk_endpoint list" where
  "ListTrunkEndpoints trunk_id org d =
     Inr (sort_key e_priority (sort_key (\<lambda>e. - e_weight e) (sort_key e_created_at
       (filter (\<lambda>e. e_trunk_id e = trunk_id \<and> e_organization_id e = org \<and>
           list_ex (own_trunk trunk_id org) (trunks d)) (trunk_endpoints d)))))"

definition change_endpoint ::
  "(trunk_endpoint \<Rightarrow> bool) \<Rightarrow> (trunk_endpoint \<Rightarrow> trunk_endpoint) \<Rightarrow> int \<Rightarrow> db \<Rightarrow> goerr + trunk_endpoint \<times> db" where
  "change_endpoint P f now d =
     (case update_one P (\<lambda>e. (f e)\<lparr>e_updated_at := now\<rparr>) (trunk_endpoints d) of
        Inl e \<Rightarrow> Inl e
      | Inr (e, rows) \<Rightarrow>
          if \<not> trunk_endpoint_checks e then Inl (ConstraintError ''23514'')
          else if list_ex (\<lambda>x. e_id x \<noteq> e_id e \<and> same_target x e) (trunk_endpoints d) then Inl (ConstraintError ''23505'')
          else Inr (e, d\<lparr>trunk_endpoints := rows\<rparr>))"

definition reset_health :: "trunk_endpoint \<Rightarrow> trunk_endpoint" where
  "reset_health e =
     e\<lparr>e_health_status := ''unknown'', e_consecutive_failures := 0, e_last_checked_at := None,
       e_last_response_code := None, e_last_latency_ms := None, e_last_error := None, e_cooldown_until := None\<rparr>"

definition updated_endpoint :: "endpoint_params \<Rightarrow> trunk_endpoint \<Rightarrow> trunk_endpoint" where
  "updated_endpoint p e =
     (let e1 = e\<lparr>e_host := or_else (ep_host p) (e_host e), e_port := or_else (ep_port p) (e_port e),
                 e_transport := or_else (ep_transport p) (e_transport e),
                 e_direction := or_else (ep_direction p) (e_direction e),
                 e_priority := or_else (ep_priority p) (e_priority e), e_weight := or_else (ep_weight p) (e_weight e),
                 e_enabled := or_else (ep_enabled p) (e_enabled e)\<rparr>
      in if ep_host p \<noteq> None \<or> ep_port p \<noteq> None \<or> ep_transport p \<noteq> None then reset_health e1 else e1)"

definition UpdateTrunkEndpoint ::
  "endpoint_params \<Rightarrow> uuid \<Rightarrow> uuid \<Rightarrow> uuid \<Rightarrow> int \<Rightarrow> db \<Rightarrow> goerr + trunk_endpoint \<times> db" where
  "UpdateTrunkEndpoint p i trunk_id org now d =
     change_endpoint (own_endpoint d i trunk_id org) (updated_endpoint p) now d"

definition DeleteTrunkEndpoint :: "uuid \<Rightarrow> uuid \<Rightarrow> uuid \<Rightarrow> int \<Rightarrow> db \<Rightarrow> goerr + trunk_endpoint \<times> db" where
  "DeleteTrunkEndpoint i trunk_id org now d =
     (case find (own_endpoint d i trunk_id org) (trunk_endpoints d) of
        None \<Rightarrow> Inl ErrNoRows
      | Some e \<Rightarrow>
          if list_ex (\<lambda>c. c_trunk_endpoint_id c = Some (e_id e) \<and> c_organization_id c = e_organization_id e) (calls d)
          then Inl (ConstraintError ''23503'')
          else Inr (e, d\<lparr>trunk_endpoints := filter (\<lambda>x. \<not> own_endpoint d i trunk_id org x) (trunk_endpoints d)\<rparr>))"

section \<open>Health\<close>

definition health_due :: "db \<Rightarrow> int \<Rightarrow> int \<Rightarrow> trunk_endpoint \<Rightarrow> bool" where
  "health_due d checked_at due_before e \<longleftrightarrow>
     e_enabled e \<and>
     list_ex (\<lambda>t. t_id t = e_trunk_id e \<and> t_organization_id t = e_organization_id e \<and> t_status t = ''active'') (trunks d) \<and>
     (case e_cooldown_until e of None \<Rightarrow> True | Some c \<Rightarrow> c \<le> checked_at) \<and>
     (case e_last_checked_at e of None \<Rightarrow> True | Some l \<Rightarrow> l \<le> due_before)"

text \<open>\<^verbatim>\<open>ORDER BY last_checked_at ASC NULLS FIRST\<close>.\<close>

definition due_order :: "trunk_endpoint list \<Rightarrow> trunk_endpoint list" where
  "due_order es =
     sort_key (\<lambda>e. if e_last_checked_at e = None then 0 else (1::int)) (sort_key (\<lambda>e. or_else (e_last_checked_at e) 0) es)"

definition ListTrunkEndpointsForHealthCheck ::
  "int \<Rightarrow> int \<Rightarrow> int \<Rightarrow> int \<Rightarrow> db \<Rightarrow> goerr + trunk_endpoint list \<times> db" where
  "ListTrunkEndpointsForHealthCheck checked_at due_before batch_size now d =
     (let ids = map e_id (take (nat batch_size)
                  (due_order (filter (health_due d checked_at due_before) (trunk_endpoints d))));
          rows = update_where (\<lambda>e. e_id e \<in> set ids)
                   (\<lambda>e. e\<lparr>e_last_checked_at := Some checked_at, e_updated_at := now\<rparr>) (trunk_endpoints d)
      in Inr (filter (\<lambda>e. e_id e \<in> set ids) rows, d\<lparr>trunk_endpoints := rows\<rparr>))"

definition probed_healthy :: "int \<Rightarrow> int \<Rightarrow> int \<Rightarrow> trunk_endpoint \<Rightarrow> trunk_endpoint" where
  "probed_healthy checked_at code latency e =
     e\<lparr>e_health_status := ''healthy'', e_consecutive_failures := 0, e_last_checked_at := Some checked_at,
       e_last_response_code := Some code, e_last_latency_ms := Some latency, e_last_error := None,
       e_cooldown_until := None\<rparr>"

definition probed_failed :: "int \<Rightarrow> int \<Rightarrow> string \<Rightarrow> int \<Rightarrow> int \<Rightarrow> trunk_endpoint \<Rightarrow> trunk_endpoint" where
  "probed_failed checked_at latency msg threshold cooldown e =
     (let n = e_consecutive_failures e + 1
      in e\<lparr>e_consecutive_failures := n,
           e_health_status := (if n \<ge> threshold then ''unhealthy'' else e_health_status e),
           e_last_checked_at := Some checked_at, e_last_response_code := None, e_last_latency_ms := Some latency,
           e_last_error := Some msg, e_cooldown_until := (if n \<ge> threshold then Some cooldown else None)\<rparr>)"

definition MarkTrunkEndpointHealthy ::
  "int \<Rightarrow> int \<Rightarrow> int \<Rightarrow> uuid \<Rightarrow> int \<Rightarrow> db \<Rightarrow> goerr + trunk_endpoint \<times> db" where
  "MarkTrunkEndpointHealthy checked_at code latency i =
     change_endpoint (\<lambda>e. e_id e = i) (probed_healthy checked_at code latency)"

definition MarkTrunkEndpointProbeFailed ::
  "int \<Rightarrow> int \<Rightarrow> string \<Rightarrow> int \<Rightarrow> int \<Rightarrow> uuid \<Rightarrow> int \<Rightarrow> db \<Rightarrow> goerr + trunk_endpoint \<times> db" where
  "MarkTrunkEndpointProbeFailed checked_at latency msg threshold cooldown i =
     change_endpoint (\<lambda>e. e_id e = i) (probed_failed checked_at latency msg threshold cooldown)"

end
