(* ===== verification/TrunkService.thy ===== *)
theory TrunkService
  imports TrunkStore
begin

text \<open>
  The trunk service: \<^verbatim>\<open>telephony/trunks/validation.go\<close>, \<^verbatim>\<open>model.go\<close>, \<^verbatim>\<open>repository.go\<close> and \<^verbatim>\<open>service.go\<close>.
  Messages of errors keep their constant part.
\<close>

section \<open>Requests\<close>

record digest_credential =
  dc_username :: string
  dc_realm :: string
  dc_secret :: string

record trunk_create =
  tc_name :: string
  tc_direction :: "string option"
  tc_status :: "string option"
  tc_outbound_credential :: "digest_credential option"
  tc_inbound_enabled :: "bool option"
  tc_inbound_auth_method :: "string option"
  tc_inbound_credential :: "digest_credential option"
  tc_max_cps :: "int option"
  tc_max_concurrent_calls :: "int option"
  tc_codecs :: "string list"
  tc_supports_video :: "bool option"
  tc_supports_fax :: "bool option"

record auth_request =
  ar_method :: string
  ar_username :: "string option"
  ar_realm :: "string option"
  ar_secret :: "string option"

section \<open>Validation\<close>

definition trunk_transports :: "string list" where
  "trunk_transports = [''udp'', ''tcp'', ''tls'']"

definition trunk_statuses :: "string list" where
  "trunk_statuses = [''active'', ''disabled'']"

definition supportedCodecs :: "string list" where
  "supportedCodecs = [''PCMU'', ''PCMA'', ''G722'', ''OPUS'', ''G729'']"

definition trunk_validateID :: "uuid \<Rightarrow> string \<Rightarrow> goerr + unit" where
  "trunk_validateID i field = (if i = uuid_Nil then Inl (NewBadRequest (field @ '' is required'')) else Inr ())"

definition normalizeName :: "string \<Rightarrow> goerr + string" where
  "normalizeName v0 =
     (let v = trim_space v0
      in if v = [] \<or> length v > 255 then Inl (NewBadRequest ''name must be between 1 and 255 characters'') else Inr v)"

definition normalizeChoice :: "string list \<Rightarrow> string \<Rightarrow> string \<Rightarrow> goerr + string" where
  "normalizeChoice choices field v0 =
     (let v = to_lower (trim_space v0)
      in if v \<in> set choices then Inr v else Inl (NewBadRequest (''invalid '' @ field)))"

text \<open>An optional field: absent, or normalised.\<close>

definition optional :: "('a \<Rightarrow> goerr + 'b) \<Rightarrow> 'a option \<Rightarrow> goerr + 'b option" where
  "optional f v = (case v of None \<Rightarrow> Inr None | Some x \<Rightarrow> map_sum id Some (f x))"

definition at_least :: "int \<Rightarrow> string \<Rightarrow> int \<Rightarrow> goerr + int" where
  "at_least n msg v = (if v < n then Inl (NewBadRequest msg) else Inr v)"

definition normalizeCredential :: "digest_credential \<Rightarrow> goerr + digest_credential" where
  "normalizeCredential c0 =
     (let c = c0\<lparr>dc_username := trim_space (dc_username c0), dc_realm := trim_space (dc_realm c0)\<rparr>
      in if dc_username c = [] \<or> length (dc_username c) > 255
         then Inl (ErrorString ''username must be between 1 and 255 characters'')
         else if dc_secret c = [] \<or> length (dc_secret c) > 4096
         then Inl (ErrorString ''secret must be between 1 and 4096 characters'')
         else if dc_realm c = [] \<or> length (dc_realm c) > 255 \<or> contains_any (dc_realm c) [CHR 0x0D, CHR 0x0A]
         then Inl (ErrorString ''realm must be between 1 and 255 characters'')
         else Inr c)"

definition credential_field :: "string \<Rightarrow> digest_credential \<Rightarrow> goerr + digest_credential" where
  "credential_field name c =
     (case normalizeCredential c of
        Inl e \<Rightarrow> Inl (NewBadRequest (name @ (case e of ErrorString m \<Rightarrow> m | _ \<Rightarrow> [])))
      | Inr x \<Rightarrow> Inr x)"

fun codec_loop :: "string list \<Rightarrow> string list \<Rightarrow> goerr + string list" where
  "codec_loop [] acc = Inr acc"
| "codec_loop (v0 # vs) acc =
     (let v = to_upper (trim_space v0)
      in if v \<notin> set supportedCodecs then Inl (NewBadRequest ''unsupported codec'')
         else if v \<in> set acc then codec_loop vs acc
         else codec_loop vs (acc @ [v]))"

text \<open>No codecs are a nil slice, which the statement takes as absent.\<close>

definition normalizeCodecs :: "string list \<Rightarrow> goerr + string list option" where
  "normalizeCodecs vs = (if vs = [] then Inr None else map_sum id Some (codec_loop vs []))"

definition parseCIDR :: "string \<Rightarrow> goerr + ip_prefix" where
  "parseCIDR v =
     (case ParsePrefix (trim_space v) of
        None \<Rightarrow> Inl (NewBadRequest ''cidr must be a valid network prefix'')
      | Some p \<Rightarrow> Inr (Masked p))"

definition trim_suffix :: "char \<Rightarrow> string \<Rightarrow> string" where
  "trim_suffix c s = (if s \<noteq> [] \<and> last s = c then butlast s else s)"

definition host_char :: "char \<Rightarrow> bool" where
  "host_char c \<longleftrightarrow> 97 \<le> (of_char c :: nat) \<and> (of_char c :: nat) \<le> 122 \<or> is_digit c \<or> c = CHR ''-''"

definition host_label :: "string \<Rightarrow> bool" where
  "host_label l \<longleftrightarrow>
     l \<noteq> [] \<and> length l \<le> 63 \<and> hd l \<noteq> CHR ''-'' \<and> last l \<noteq> CHR ''-'' \<and> list_all host_char l"

definition normalizeHost :: "string \<Rightarrow> goerr + string" where
  "normalizeHost v0 =
     (let v = to_lower (trim_suffix (CHR ''.'') (trim_space v0));
          bad = Inl (NewBadRequest ''host must be a valid IP address or hostname'')
      in if v = [] \<or> length v > 253 \<or> contains_any v [CHR '' '', CHR 0x09, CHR 0x0D, CHR 0x0A] then bad
         else if ParseIP v then Inr v
         else if list_all host_label (split_on (CHR ''.'') v) then Inr v else bad)"

definition validatePort :: "int \<Rightarrow> goerr + int" where
  "validatePort port =
     (if port < 1 \<or> port > 65535 then Inl (NewBadRequest ''port must be between 1 and 65535'') else Inr port)"

definition validatePriority :: "int \<Rightarrow> goerr + int" where
  "validatePriority = at_least 0 ''priority must be non-negative''"

definition validateWeight :: "int \<Rightarrow> goerr + int" where
  "validateWeight = at_least 1 ''weight must be greater than zero''"

text \<open>
  Validators run one after the other and the first error wins: \<open>andalso v k\<close> continues with the value.
\<close>

definition andalso :: "goerr + 'a \<Rightarrow> ('a \<Rightarrow> goerr + 'b) \<Rightarrow> goerr + 'b" where
  "andalso r k = (case r of Inl e \<Rightarrow> Inl e | Inr x \<Rightarrow> k x)"

definition inbound_method :: "trunk_create \<Rightarrow> string" where
  "inbound_method req = (case tc_inbound_auth_method req of None \<Rightarrow> ''ip'' | Some m \<Rightarrow> to_lower (trim_space m))"

definition inbound_fields :: "trunk_create \<Rightarrow> goerr + digest_credential option" where
  "inbound_fields req =
     (let method = inbound_method req
      in if method \<noteq> ''ip'' \<and> method \<noteq> ''digest''
         then Inl (NewBadRequest ''inbound_auth_method must be ip or digest'')
         else if method = ''digest''
         then (case tc_inbound_credential req of
                 None \<Rightarrow> Inl (NewBadRequest ''inbound credential is required for digest authentication'')
               | Some c \<Rightarrow> map_sum id Some (credential_field ''inbound credential: '' c))
         else if tc_inbound_credential req \<noteq> None
         then Inl (NewBadRequest ''inbound credential is only accepted for digest authentication'')
         else Inr None)"

text \<open>The normalised request: the codecs become optional, the rest keeps its shape.\<close>

definition trunk_normalizeCreate :: "trunk_create \<Rightarrow> goerr + trunk_create \<times> string list option" where
  "trunk_normalizeCreate req =
     andalso (normalizeName (tc_name req)) (\<lambda>name.
     andalso (optional (normalizeChoice trunk_directions ''direction'') (tc_direction req)) (\<lambda>direction.
     andalso (optional (normalizeChoice trunk_statuses ''status'') (tc_status req)) (\<lambda>status.
     andalso (optional (at_least 1 ''max_cps must be greater than zero'') (tc_max_cps req)) (\<lambda>cps.
     andalso (optional (at_least 1 ''max_concurrent_calls must be greater than zero'') (tc_max_concurrent_calls req)) (\<lambda>calls.
     andalso (normalizeCodecs (tc_codecs req)) (\<lambda>codecs.
     andalso (optional (credential_field ''outbound credential: '') (tc_outbound_credential req)) (\<lambda>outbound.
     andalso (inbound_fields req) (\<lambda>inbound.
       Inr (req\<lparr>tc_name := name, tc_direction := direction, tc_status := status, tc_max_cps := cps,
                tc_max_concurrent_calls := calls, tc_outbound_credential := outbound,
                tc_inbound_auth_method := Some (inbound_method req), tc_inbound_credential := inbound\<rparr>, codecs)))))))))"

definition trunk_normalizeUpdate :: "trunk_update \<Rightarrow> goerr + trunk_update" where
  "trunk_normalizeUpdate req =
     (if ut_name req = None \<and> ut_direction req = None \<and> ut_status req = None \<and> ut_inbound_enabled req = None \<and>
         ut_max_cps req = None \<and> ut_max_concurrent_calls req = None \<and> ut_codecs req = None \<and>
         ut_supports_video req = None \<and> ut_supports_fax req = None
      then Inl (NewBadRequest ''at least one field is required'')
      else
        andalso (optional normalizeName (ut_name req)) (\<lambda>name.
        andalso (optional (normalizeChoice trunk_directions ''direction'') (ut_direction req)) (\<lambda>direction.
        andalso (optional (normalizeChoice trunk_statuses ''status'') (ut_status req)) (\<lambda>status.
        andalso (optional (at_least 1 ''max_cps must be greater than zero'') (ut_max_cps req)) (\<lambda>cps.
        andalso (optional (at_least 1 ''max_concurrent_calls must be greater than zero'') (ut_max_concurrent_calls req)) (\<lambda>calls.
        andalso (case ut_codecs req of None \<Rightarrow> Inr None | Some vs \<Rightarrow> normalizeCodecs vs) (\<lambda>codecs.
          Inr (req\<lparr>ut_name := name, ut_direction := direction, ut_status := status, ut_max_cps := cps,
                   ut_max_concurrent_calls := calls, ut_codecs := codecs\<rparr>))))))))"

definition normalizeAuth :: "bool \<Rightarrow> auth_request \<Rightarrow> goerr + auth_request" where
  "normalizeAuth inbound req0 =
     (let method = to_lower (trim_space (ar_method req0)); req = req0\<lparr>ar_method := method\<rparr>
      in if \<not> (method = ''digest'' \<or> \<not> inbound \<and> method = ''none'' \<or> inbound \<and> method = ''ip'')
         then Inl (NewBadRequest ''invalid authentication method'')
         else if method \<noteq> ''digest''
         then (if ar_username req \<noteq> None \<or> ar_realm req \<noteq> None \<or> ar_secret req \<noteq> None
               then Inl (NewBadRequest ''username, realm, and secret are only accepted for digest authentication'')
               else Inr req)
         else
           case (ar_username req, ar_realm req, ar_secret req) of
             (Some u, Some r, Some s) \<Rightarrow>
               andalso (credential_field [] \<lparr>dc_username = u, dc_realm = r, dc_secret = s\<rparr>) (\<lambda>c.
                 Inr (req\<lparr>ar_username := Some (dc_username c), ar_realm := Some (dc_realm c), ar_secret := Some (dc_secret c)\<rparr>))
           | _ \<Rightarrow> Inl (NewBadRequest ''username, realm, and secret are required for digest authentication''))"

definition endpoint_fields :: "endpoint_params \<Rightarrow> goerr + endpoint_params" where
  "endpoint_fields p =
     andalso (optional validatePort (ep_port p)) (\<lambda>port.
     andalso (optional (normalizeChoice trunk_transports ''transport'') (ep_transport p)) (\<lambda>transport.
     andalso (optional (normalizeChoice trunk_directions ''direction'') (ep_direction p)) (\<lambda>direction.
     andalso (optional validatePriority (ep_priority p)) (\<lambda>priority.
     andalso (optional validateWeight (ep_weight p)) (\<lambda>weight.
       Inr (p\<lparr>ep_port := port, ep_transport := transport, ep_direction := direction, ep_priority := priority,
              ep_weight := weight\<rparr>))))))"

section \<open>Responses, errors and events\<close>

definition trunk_response_of :: "trunk \<Rightarrow> trunk_response" where
  "trunk_response_of t =
     \<lparr>tr_id = t_id t, tr_organization_id = t_organization_id t, tr_name = t_name t, tr_direction = t_direction t,
      tr_status = t_status t, tr_outbound_auth_method = t_outbound_auth_method t,
      tr_outbound_username = t_auth_username t, tr_outbound_realm = t_auth_realm t,
      tr_has_outbound_credentials = (t_auth_secret_ciphertext t \<noteq> None), tr_inbound_enabled = t_inbound_enabled t,
      tr_inbound_auth_method = t_inbound_auth_method t, tr_inbound_username = t_inbound_username t,
      tr_inbound_realm = t_inbound_realm t, tr_has_inbound_credentials = (t_inbound_secret_ciphertext t \<noteq> None),
      tr_max_cps = t_max_cps t, tr_max_concurrent_calls = t_max_concurrent_calls t, tr_codecs = t_codecs t,
      tr_supports_video = t_supports_video t, tr_supports_fax = t_supports_fax t, tr_created_at = t_created_at t,
      tr_updated_at = t_updated_at t\<rparr>"

text \<open>\<^verbatim>\<open>errors.As\<close> with a \<^verbatim>\<open>*pgconn.PgError\<close> target: the SQLSTATE of a violated constraint.\<close>

fun pg_code :: "goerr \<Rightarrow> string option" where
  "pg_code (ConstraintError c) = Some c"
| "pg_code (Wrap m e) = pg_code e"
| "pg_code (AppErr c m (Some e)) = pg_code e"
| "pg_code (Joined a b) = (case pg_code a of Some c \<Rightarrow> Some c | None \<Rightarrow> pg_code b)"
| "pg_code _ = None"

definition trunk_readError :: "string \<Rightarrow> goerr \<Rightarrow> goerr" where
  "trunk_readError msg e = (if error_is e ErrNoRows then NewNotFound msg else NewInternal msg e)"

definition trunk_writeError :: "string \<Rightarrow> goerr \<Rightarrow> goerr" where
  "trunk_writeError msg e =
     (if pg_code e = Some ''23505'' then NewConflict ''trunk resource already exists''
      else if pg_code e \<in> {Some ''23503'', Some ''23514'', Some ''23502''} then NewBadRequest msg
      else if error_is e ErrNoRows then NewNotFound msg
      else NewInternal msg e)"

definition on_error :: "(goerr \<Rightarrow> goerr) \<Rightarrow> goerr + 'a \<Rightarrow> goerr + 'a" where
  "on_error f r = (case r of Inl e \<Rightarrow> Inl (f e) | Inr x \<Rightarrow> Inr x)"

definition trunk_insertEvent ::
  "env \<Rightarrow> nat \<Rightarrow> nat \<Rightarrow> int \<Rightarrow> string \<Rightarrow> trunk \<Rightarrow> uuid option \<Rightarrow> trunk_resource \<Rightarrow> db \<Rightarrow> goerr + db" where
  "trunk_insertEvent E t k now event_type trunk endpoint resource d =
     on_error (Wrap ''insert trunk outbox event'') (map_sum id snd
       (tx_statement E t k (InsertOutboxEvent (new_uuid E (Suc t)) now event_type ''trunk'' (t_id trunk)
          (TrunkPayload event_type (t_organization_id trunk) (t_id trunk) endpoint resource (clock E t))
          [(''event_type'', event_type), (''organization_id'', uuid_string E (t_organization_id trunk)),
           (''schema_version'', ''1'')] None) d))"

section \<open>Transactions\<close>

record trunk_service =
  ts_db :: bool
  ts_cipher :: bool

definition mutate_trunk_body ::
  "env \<Rightarrow> string \<Rightarrow> (int \<Rightarrow> db \<Rightarrow> goerr + trunk \<times> db) \<Rightarrow> int \<Rightarrow> nat \<Rightarrow> db \<Rightarrow> goerr + trunk \<times> db" where
  "mutate_trunk_body E event_type mutation now t d =
     (case mutation now d of
        Inl e \<Rightarrow> Inl e
      | Inr (item, d1) \<Rightarrow>
          map_sum id (\<lambda>d2. (item, d2))
            (trunk_insertEvent E t 1 now event_type item None (TrunkResource (trunk_response_of item)) d1))"

definition mutateTrunk ::
  "env \<Rightarrow> trunk_service \<Rightarrow> string \<Rightarrow> (int \<Rightarrow> db \<Rightarrow> goerr + trunk \<times> db) \<Rightarrow> (world, goerr + trunk) state" where
  "mutateTrunk E S event_type mutation =
     (if \<not> ts_db S then State_Monad.return (Inl (ErrorString ''trunk database is required for domain events''))
      else transaction E ''trunk transaction'' (mutate_trunk_body E event_type mutation))"

text \<open>The mutation of an endpoint gets the id that \<^verbatim>\<open>gen_random_uuid()\<close> gives a new row.\<close>

definition mutate_endpoint_body ::
  "env \<Rightarrow> string \<Rightarrow> (uuid \<Rightarrow> int \<Rightarrow> db \<Rightarrow> goerr + trunk_endpoint \<times> db) \<Rightarrow> int \<Rightarrow> nat \<Rightarrow> db \<Rightarrow> goerr + trunk_endpoint \<times> db" where
  "mutate_endpoint_body E event_type mutation now t d =
     (case mutation (row_uuid E t 0) now d of
        Inl e \<Rightarrow> Inl e
      | Inr (item, d1) \<Rightarrow>
          (case tx_statement E t 1 (GetTrunkByID (e_trunk_id item) (e_organization_id item)) d1 of
             Inl e \<Rightarrow> Inl e
           | Inr trunk \<Rightarrow>
               map_sum id (\<lambda>d2. (item, d2))
                 (trunk_insertEvent E t 2 now event_type trunk (Some (e_id item)) (EndpointResource item) d1)))"

definition mutateEndpoint ::
  "env \<Rightarrow> trunk_service \<Rightarrow> string \<Rightarrow> (uuid \<Rightarrow> int \<Rightarrow> db \<Rightarrow> goerr + trunk_endpoint \<times> db)
     \<Rightarrow> (world, goerr + trunk_endpoint) state" where
  "mutateEndpoint E S event_type mutation =
     (if \<not> ts_db S then State_Monad.return (Inl (ErrorString ''trunk database is required for domain events''))
      else transaction E ''trunk endpoint transaction'' (mutate_endpoint_body E event_type mutation))"

section \<open>Trunks\<close>

definition credentialScope :: "env \<Rightarrow> uuid \<Rightarrow> uuid \<Rightarrow> string \<Rightarrow> string" where
  "credentialScope E org i direction =
     ''organization:'' @ uuid_string E org @ '':trunk:'' @ uuid_string E i @ '':'' @ direction"

text \<open>A credential ready to be stored: user name, realm, ciphertext and HA1.\<close>

type_synonym sealed_credential = "string \<times> string \<times> string \<times> string"

definition seal_credential ::
  "env \<Rightarrow> string \<Rightarrow> string \<Rightarrow> digest_credential \<Rightarrow> (world, goerr + sealed_credential) state" where
  "seal_credential E scope msg c = do {
     r \<leftarrow> EncryptForScope E scope (dc_secret c);
     State_Monad.return (case r of
       Inl e \<Rightarrow> Inl (NewInternal msg e)
     | Inr v \<Rightarrow> Inr (dc_username c, dc_realm c, v, ComputeHA1MD5 E (dc_username c) (dc_realm c) (dc_secret c)))
   }"

definition seal_optional ::
  "env \<Rightarrow> string \<Rightarrow> string \<Rightarrow> digest_credential option \<Rightarrow> (world, goerr + sealed_credential option) state" where
  "seal_optional E scope msg c =
     (case c of
        None \<Rightarrow> State_Monad.return (Inr None)
      | Some x \<Rightarrow> do { r \<leftarrow> seal_credential E scope msg x; State_Monad.return (map_sum id Some r) })"

definition create_params ::
  "trunk_create \<Rightarrow> string list option \<Rightarrow> sealed_credential option \<Rightarrow> sealed_credential option \<Rightarrow> trunk_params" where
  "create_params req codecs outbound inbound =
     \<lparr>tp_name = tc_name req, tp_direction = tc_direction req, tp_status = tc_status req,
      tp_outbound_auth_method = Some (if outbound = None then ''none'' else ''digest''),
      tp_auth_username = map_option fst outbound, tp_auth_realm = map_option (fst \<circ> snd) outbound,
      tp_auth_secret_ciphertext = map_option (fst \<circ> snd \<circ> snd) outbound,
      tp_inbound_enabled = tc_inbound_enabled req, tp_inbound_auth_method = tc_inbound_auth_method req,
      tp_inbound_username = map_option fst inbound, tp_inbound_realm = map_option (fst \<circ> snd) inbound,
      tp_inbound_secret_ciphertext = map_option (fst \<circ> snd \<circ> snd) inbound,
      tp_max_cps = tc_max_cps req, tp_max_concurrent_calls = tc_max_concurrent_calls req, tp_codecs = codecs,
      tp_supports_video = tc_supports_video req, tp_supports_fax = tc_supports_fax req\<rparr>"

definition insert_digest ::
  "env \<Rightarrow> nat \<Rightarrow> nat \<Rightarrow> uuid \<Rightarrow> uuid \<Rightarrow> string \<Rightarrow> sealed_credential option \<Rightarrow> int \<Rightarrow> db \<Rightarrow> goerr + db" where
  "insert_digest E t k i org dir c now d =
     (case c of
        None \<Rightarrow> Inr d
      | Some (username, realm, _, ha1) \<Rightarrow>
          on_error (trunk_writeError (dir @ '' trunk credentials could not be created'')) (map_sum id snd
            (tx_statement E t k (InsertTrunkDigestCredential i org dir username realm ha1 now) d)))"

definition create_body ::
  "env \<Rightarrow> uuid \<Rightarrow> uuid \<Rightarrow> trunk_create \<Rightarrow> string list option \<Rightarrow> sealed_credential option \<Rightarrow> sealed_credential option
     \<Rightarrow> int \<Rightarrow> nat \<Rightarrow> db \<Rightarrow> goerr + trunk \<times> db" where
  "create_body E i org req codecs outbound inbound now t d =
     (case CreateTrunk i org (create_params req codecs outbound inbound) now d of
        Inl e \<Rightarrow> Inl (trunk_writeError ''trunk could not be created'' e)
      | Inr (item, d1) \<Rightarrow>
          andalso (insert_digest E t 1 i org ''outbound'' outbound now d1) (\<lambda>d2.
          andalso (insert_digest E t 2 i org ''inbound'' inbound now d2) (\<lambda>d3.
          andalso (trunk_insertEvent E t 3 now ''trunk.created'' item None (TrunkResource (trunk_response_of item)) d3) (\<lambda>d4.
            Inr (item, d4)))))"

definition create_sealed ::
  "env \<Rightarrow> uuid \<Rightarrow> uuid \<Rightarrow> trunk_create \<Rightarrow> string list option \<Rightarrow> (world, goerr + trunk) state" where
  "create_sealed E i org req codecs = do {
     o' \<leftarrow> seal_optional E (credentialScope E org i ''outbound'') ''encrypt outbound trunk credential'' (tc_outbound_credential req);
     case o' of
       Inl e \<Rightarrow> State_Monad.return (Inl e)
     | Inr outbound \<Rightarrow> do {
         n \<leftarrow> seal_optional E (credentialScope E org i ''inbound'') ''encrypt inbound trunk credential'' (tc_inbound_credential req);
         case n of
           Inl e \<Rightarrow> State_Monad.return (Inl e)
         | Inr inbound \<Rightarrow>
             transaction_with E (NewInternal ''begin trunk creation'') (trunk_writeError ''trunk could not be created'')
               (NewInternal ''commit trunk creation'') (create_body E i org req codecs outbound inbound)
       }
   }"

definition no_credential_store :: goerr where
  "no_credential_store = AppErr SERVICE_UNAVAILABLE ''trunk credential store is unavailable'' None"

definition trunk_Create :: "env \<Rightarrow> trunk_service \<Rightarrow> uuid \<Rightarrow> trunk_create \<Rightarrow> (world, goerr + trunk) state" where
  "trunk_Create E S org req0 =
     (case trunk_validateID org ''organization_id'' of
        Inl e \<Rightarrow> State_Monad.return (Inl e)
      | Inr _ \<Rightarrow>
          (case trunk_normalizeCreate req0 of
             Inl e \<Rightarrow> State_Monad.return (Inl e)
           | Inr (req, codecs) \<Rightarrow>
               if \<not> ts_db S \<or> \<not> ts_cipher S then State_Monad.return (Inl no_credential_store)
               else do {
                 w \<leftarrow> State_Monad.get;
                 create_sealed E (new_uuid E (tick w)) org req codecs
               }))"

definition trunk_List :: "env \<Rightarrow> uuid \<Rightarrow> (world, goerr + trunk list) state" where
  "trunk_List E org =
     (case trunk_validateID org ''organization_id'' of
        Inl e \<Rightarrow> State_Monad.return (Inl e)
      | Inr _ \<Rightarrow> do {
          r \<leftarrow> query E (ListTrunksByOrganizationID org);
          State_Monad.return (on_error (NewInternal ''list trunks'') r)
        })"

definition trunk_Get :: "env \<Rightarrow> uuid \<Rightarrow> uuid \<Rightarrow> (world, goerr + trunk) state" where
  "trunk_Get E org i =
     (case trunk_validateID org ''organization_id'' of
        Inl e \<Rightarrow> State_Monad.return (Inl e)
      | Inr _ \<Rightarrow>
          (case trunk_validateID i ''trunk_id'' of
             Inl e \<Rightarrow> State_Monad.return (Inl e)
           | Inr _ \<Rightarrow> do {
               r \<leftarrow> query E (GetTrunkByID i org);
               State_Monad.return (on_error (trunk_readError ''trunk not found'') r)
             }))"

text \<open>Every other operation reads the trunk first and stops at an error.\<close>

definition with_trunk :: "env \<Rightarrow> uuid \<Rightarrow> uuid \<Rightarrow> (trunk \<Rightarrow> (world, goerr + 'a) state) \<Rightarrow> (world, goerr + 'a) state" where
  "with_trunk E org i k = do {
     r \<leftarrow> trunk_Get E org i;
     case r of Inl e \<Rightarrow> State_Monad.return (Inl e) | Inr t \<Rightarrow> k t
   }"

definition trunk_Update :: "env \<Rightarrow> trunk_service \<Rightarrow> uuid \<Rightarrow> uuid \<Rightarrow> trunk_update \<Rightarrow> (world, goerr + trunk) state" where
  "trunk_Update E S org i req0 =
     with_trunk E org i (\<lambda>_.
       case trunk_normalizeUpdate req0 of
         Inl e \<Rightarrow> State_Monad.return (Inl e)
       | Inr req \<Rightarrow> do {
           r \<leftarrow> mutateTrunk E S ''trunk.updated'' (UpdateTrunk req i org);
           State_Monad.return (on_error (trunk_writeError ''trunk not found'') r)
         })"

definition trunk_Delete :: "env \<Rightarrow> trunk_service \<Rightarrow> uuid \<Rightarrow> uuid \<Rightarrow> (world, goerr + unit) state" where
  "trunk_Delete E S org i =
     with_trunk E org i (\<lambda>item.
       if t_status item = ''disabled'' then State_Monad.return (Inr ())
       else do {
         r \<leftarrow> mutateTrunk E S ''trunk.disabled'' (DisableTrunk i org);
         State_Monad.return (on_error (trunk_writeError ''trunk not found'') (map_sum id (\<lambda>_. ()) r))
       })"

section \<open>Authentication\<close>

text \<open>Both directions: clear the credential, or seal the new one and store it.\<close>

definition set_auth ::
  "env \<Rightarrow> trunk_service \<Rightarrow> uuid \<Rightarrow> uuid \<Rightarrow> string \<Rightarrow> (string \<Rightarrow> string \<Rightarrow> string \<Rightarrow> string \<Rightarrow> uuid \<Rightarrow> uuid \<Rightarrow> int \<Rightarrow> db \<Rightarrow> goerr + unit \<times> db)
     \<Rightarrow> auth_request \<Rightarrow> (world, goerr + unit) state" where
  "set_auth E S org i direction store req =
     (if \<not> ts_cipher S then State_Monad.return (Inl no_credential_store)
      else
        case (ar_username req, ar_realm req, ar_secret req) of
          (Some u, Some r, Some s) \<Rightarrow> do {
            x \<leftarrow> seal_credential E (credentialScope E org i direction) (''encrypt '' @ direction @ '' trunk credential'')
                  \<lparr>dc_username = u, dc_realm = r, dc_secret = s\<rparr>;
            case x of
              Inl e \<Rightarrow> State_Monad.return (Inl e)
            | Inr (username, realm, ciphertext, ha1) \<Rightarrow>
                exec E (statement (store username realm ciphertext ha1 i org))
          }
        | _ \<Rightarrow> State_Monad.return (Inl (ErrorString ''nil pointer dereference'')))"

definition trunk_SetOutboundAuth ::
  "env \<Rightarrow> trunk_service \<Rightarrow> uuid \<Rightarrow> uuid \<Rightarrow> auth_request \<Rightarrow> (world, goerr + unit) state" where
  "trunk_SetOutboundAuth E S org i req0 =
     (case normalizeAuth False req0 of
        Inl e \<Rightarrow> State_Monad.return (Inl e)
      | Inr req \<Rightarrow> with_trunk E org i (\<lambda>_.
          if ar_method req = ''none'' then exec E (statement (ClearTrunkOutboundAuth i org))
          else set_auth E S org i ''outbound'' SetTrunkOutboundDigestAuth req))"

definition trunk_ClearOutboundAuth :: "env \<Rightarrow> uuid \<Rightarrow> uuid \<Rightarrow> (world, goerr + unit) state" where
  "trunk_ClearOutboundAuth E org i = with_trunk E org i (\<lambda>_. exec E (statement (ClearTrunkOutboundAuth i org)))"

definition trunk_SetInboundAuth ::
  "env \<Rightarrow> trunk_service \<Rightarrow> uuid \<Rightarrow> uuid \<Rightarrow> auth_request \<Rightarrow> (world, goerr + unit) state" where
  "trunk_SetInboundAuth E S org i req0 =
     (case normalizeAuth True req0 of
        Inl e \<Rightarrow> State_Monad.return (Inl e)
      | Inr req \<Rightarrow> with_trunk E org i (\<lambda>_.
          if ar_method req = ''ip'' then exec E (statement (SetTrunkInboundIPAuth i org))
          else set_auth E S org i ''inbound'' SetTrunkInboundDigestAuth req))"

definition trunk_ClearInboundAuth :: "env \<Rightarrow> uuid \<Rightarrow> uuid \<Rightarrow> (world, goerr + unit) state" where
  "trunk_ClearInboundAuth E org i = with_trunk E org i (\<lambda>_. exec E (statement (SetTrunkInboundIPAuth i org)))"

section \<open>Source networks\<close>

definition fresh_row :: "env \<Rightarrow> (uuid \<Rightarrow> int \<Rightarrow> db \<Rightarrow> goerr + 'a \<times> db) \<Rightarrow> world \<Rightarrow> (world, goerr + 'a) state" where
  "fresh_row E q w = exec E (statement (q (row_uuid E (tick w) 0)))"

definition trunk_CreateSourceIP :: "env \<Rightarrow> uuid \<Rightarrow> uuid \<Rightarrow> string \<Rightarrow> (world, goerr + trunk_source_ip) state" where
  "trunk_CreateSourceIP E org i v =
     with_trunk E org i (\<lambda>_.
       case parseCIDR v of
         Inl e \<Rightarrow> State_Monad.return (Inl e)
       | Inr cidr \<Rightarrow> do {
           w \<leftarrow> State_Monad.get;
           r \<leftarrow> fresh_row E (\<lambda>n. CreateTrunkSourceIP n org i cidr) w;
           State_Monad.return (on_error (trunk_writeError ''trunk source IP could not be created'') r)
         })"

definition trunk_ListSourceIPs :: "env \<Rightarrow> uuid \<Rightarrow> uuid \<Rightarrow> (world, goerr + trunk_source_ip list) state" where
  "trunk_ListSourceIPs E org i =
     with_trunk E org i (\<lambda>_. do {
       r \<leftarrow> query E (ListTrunkSourceIPs i org);
       State_Monad.return (on_error (NewInternal ''list trunk source IPs'') r)
     })"

definition trunk_DeleteSourceIP :: "env \<Rightarrow> uuid \<Rightarrow> uuid \<Rightarrow> uuid \<Rightarrow> (world, goerr + unit) state" where
  "trunk_DeleteSourceIP E org i source =
     with_trunk E org i (\<lambda>_.
       if source = uuid_Nil then State_Monad.return (Inl (NewBadRequest ''source_ip_id is required''))
       else exec E (statement (DeleteTrunkSourceIP source i org)))"

section \<open>Endpoints\<close>

definition trunk_CreateEndpoint ::
  "env \<Rightarrow> trunk_service \<Rightarrow> uuid \<Rightarrow> uuid \<Rightarrow> string \<Rightarrow> endpoint_params \<Rightarrow> (world, goerr + trunk_endpoint) state" where
  "trunk_CreateEndpoint E S org trunk_id host0 p0 =
     with_trunk E org trunk_id (\<lambda>_.
       case normalizeHost host0 of
         Inl e \<Rightarrow> State_Monad.return (Inl e)
       | Inr host \<Rightarrow>
           (case endpoint_fields p0 of
              Inl e \<Rightarrow> State_Monad.return (Inl e)
            | Inr p \<Rightarrow> do {
                r \<leftarrow> mutateEndpoint E S ''trunk.endpoint.created'' (\<lambda>i. CreateTrunkEndpoint i org trunk_id host p);
                State_Monad.return (on_error (trunk_writeError ''trunk endpoint not found'') r)
              }))"

definition trunk_ListEndpoints :: "env \<Rightarrow> uuid \<Rightarrow> uuid \<Rightarrow> (world, goerr + trunk_endpoint list) state" where
  "trunk_ListEndpoints E org trunk_id =
     with_trunk E org trunk_id (\<lambda>_. do {
       r \<leftarrow> query E (ListTrunkEndpoints trunk_id org);
       State_Monad.return (on_error (NewInternal ''list trunk endpoints'') r)
     })"

definition trunk_GetEndpoint :: "env \<Rightarrow> uuid \<Rightarrow> uuid \<Rightarrow> uuid \<Rightarrow> (world, goerr + trunk_endpoint) state" where
  "trunk_GetEndpoint E org trunk_id i =
     with_trunk E org trunk_id (\<lambda>_.
       case trunk_validateID i ''endpoint_id'' of
         Inl e \<Rightarrow> State_Monad.return (Inl e)
       | Inr _ \<Rightarrow> do {
           r \<leftarrow> query E (GetTrunkEndpointByID i trunk_id org);
           State_Monad.return (on_error (trunk_readError ''trunk endpoint not found'') r)
         })"

definition with_endpoint ::
  "env \<Rightarrow> uuid \<Rightarrow> uuid \<Rightarrow> uuid \<Rightarrow> (world, goerr + 'a) state \<Rightarrow> (world, goerr + 'a) state" where
  "with_endpoint E org trunk_id i k = do {
     r \<leftarrow> trunk_GetEndpoint E org trunk_id i;
     case r of Inl e \<Rightarrow> State_Monad.return (Inl e) | Inr _ \<Rightarrow> k
   }"

definition no_endpoint_field :: "endpoint_params \<Rightarrow> bool" where
  "no_endpoint_field p \<longleftrightarrow>
     ep_host p = None \<and> ep_port p = None \<and> ep_transport p = None \<and> ep_direction p = None \<and> ep_priority p = None \<and>
     ep_weight p = None \<and> ep_enabled p = None"

definition trunk_UpdateEndpoint ::
  "env \<Rightarrow> trunk_service \<Rightarrow> uuid \<Rightarrow> uuid \<Rightarrow> uuid \<Rightarrow> endpoint_params \<Rightarrow> (world, goerr + trunk_endpoint) state" where
  "trunk_UpdateEndpoint E S org trunk_id i p0 =
     with_endpoint E org trunk_id i (
       if no_endpoint_field p0 then State_Monad.return (Inl (NewBadRequest ''at least one field is required''))
       else
         case andalso (optional normalizeHost (ep_host p0)) (\<lambda>host. endpoint_fields (p0\<lparr>ep_host := host\<rparr>)) of
           Inl e \<Rightarrow> State_Monad.return (Inl e)
         | Inr p \<Rightarrow> do {
             r \<leftarrow> mutateEndpoint E S ''trunk.endpoint.updated'' (\<lambda>_. UpdateTrunkEndpoint p i trunk_id org);
             State_Monad.return (on_error (trunk_writeError ''trunk endpoint not found'') r)
           })"

definition trunk_DeleteEndpoint ::
  "env \<Rightarrow> trunk_service \<Rightarrow> uuid \<Rightarrow> uuid \<Rightarrow> uuid \<Rightarrow> (world, goerr + unit) state" where
  "trunk_DeleteEndpoint E S org trunk_id i =
     with_endpoint E org trunk_id i (do {
       r \<leftarrow> mutateEndpoint E S ''trunk.endpoint.deleted'' (\<lambda>_. DeleteTrunkEndpoint i trunk_id org);
       State_Monad.return (on_error (trunk_writeError ''trunk endpoint not found'') (map_sum id (\<lambda>_. ()) r))
     })"

section \<open>Validation of a configured trunk\<close>

record trunk_validation =
  tv_errors :: "string list"
  tv_warnings :: "string list"

definition outbound_errors :: "trunk \<Rightarrow> string list" where
  "outbound_errors t =
     (if t_outbound_auth_method t = ''digest'' \<and> (t_auth_secret_ciphertext t = None \<or> t_auth_realm t = None)
      then [''outbound digest credentials and realm are missing''] else [])"

definition inbound_errors :: "env \<Rightarrow> uuid \<Rightarrow> uuid \<Rightarrow> trunk \<Rightarrow> (world, goerr + string list) state" where
  "inbound_errors E org i t =
     (if \<not> t_inbound_enabled t then State_Monad.return (Inr [])
      else if t_inbound_auth_method t = ''digest''
      then State_Monad.return (Inr (if t_inbound_secret_ciphertext t = None \<or> t_inbound_realm t = None
             then [''inbound digest credentials and realm are missing''] else []))
      else if t_inbound_auth_method t = ''ip''
      then do {
        r \<leftarrow> trunk_ListSourceIPs E org i;
        State_Monad.return (map_sum id (\<lambda>ips. if ips = []
          then [''inbound IP authentication requires at least one source CIDR''] else []) r)
      }
      else State_Monad.return (Inr [''inbound authentication method is invalid'']))"

definition usable_endpoints :: "trunk_endpoint list \<Rightarrow> trunk_endpoint list" where
  "usable_endpoints es =
     filter (\<lambda>e. e_enabled e \<and> (e_direction e = ''outbound'' \<or> e_direction e = ''bidirectional'')) es"

definition endpoint_errors :: "trunk \<Rightarrow> trunk_endpoint list \<Rightarrow> string list" where
  "endpoint_errors t es =
     (if t_direction t = ''outbound'' \<or> t_direction t = ''bidirectional''
      then (if usable_endpoints es = [] then [''trunk has no enabled outbound endpoint'']
            else if list_all (\<lambda>e. e_health_status e = ''unhealthy'') (usable_endpoints es)
            then [''trunk has no healthy outbound endpoint''] else [])
      else [])"

text \<open>\<^verbatim>\<open>Valid\<close> is the absence of errors.\<close>

definition tv_valid :: "trunk_validation \<Rightarrow> bool" where
  "tv_valid v \<longleftrightarrow> tv_errors v = []"

definition trunk_Validate :: "env \<Rightarrow> uuid \<Rightarrow> uuid \<Rightarrow> (world, goerr + trunk_validation) state" where
  "trunk_Validate E org i =
     with_trunk E org i (\<lambda>t. do {
       n \<leftarrow> inbound_errors E org i t;
       case n of
         Inl e \<Rightarrow> State_Monad.return (Inl e)
       | Inr inbound \<Rightarrow> do {
           r \<leftarrow> query E (ListTrunkEndpoints i org);
           State_Monad.return (case r of
             Inl e \<Rightarrow> Inl (NewInternal ''list trunk endpoints'' e)
           | Inr es \<Rightarrow>
               Inr \<lparr>tv_errors = outbound_errors t @ inbound @ endpoint_errors t es,
                    tv_warnings = (if t_status t \<noteq> ''active'' then [''trunk is disabled''] else [])\<rparr>)
         }
     })"

end
