(* ===== verification/TrunkHealth.thy ===== *)
theory TrunkHealth
  imports TrunkService Controller
begin

text \<open>
  The health checks of trunk endpoints, \<^verbatim>\<open>telephony/trunks/health.go\<close>: the SIP \<^verbatim>\<open>OPTIONS\<close> probe and the job that
  claims due endpoints, probes them one after the other and records the outcome. Dialling, writing and
  reading are steps of the world; the bytes written are kept in \<open>sip_log\<close>. A deadline that passes is a
  fault of the step it interrupts.
\<close>

section \<open>Bytes\<close>

text \<open>\<^verbatim>\<open>strings.Fields\<close>: the runs of characters between white space.\<close>

function fields_from :: "string \<Rightarrow> string \<Rightarrow> string list" where
  "fields_from cur [] = (if cur = [] then [] else [cur])"
| "fields_from cur (c # cs) =
     (case strip_prefix_of go_spaces (c # cs) of
        None \<Rightarrow> fields_from (cur @ [c]) cs
      | Some r \<Rightarrow> (if cur = [] then [] else [cur]) @ fields_from [] r)"
  by pat_completeness auto
termination
  by (relation "measure (\<lambda>(cur, s). length s)") (auto dest: strip_prefix_of_shorter [OF go_spaces_nonempty(1)])

definition Fields :: "string \<Rightarrow> string list" where
  "Fields s = fields_from [] s"

text \<open>\<^verbatim>\<open>hex.EncodeToString\<close>.\<close>

definition hex_digit :: "nat \<Rightarrow> char" where
  "hex_digit n = (if n < 10 then char_of (48 + n) else char_of (87 + n))"

definition hex_EncodeToString :: "string \<Rightarrow> string" where
  "hex_EncodeToString s = concat (map (\<lambda>c. [hex_digit (of_char c div 16), hex_digit (of_char c mod 16)]) s)"

text \<open>The conversion \<^verbatim>\<open>int32(x)\<close>.\<close>

definition wrap32 :: "int \<Rightarrow> int" where
  "wrap32 x = (x + 2 ^ 31) mod 2 ^ 32 - 2 ^ 31"

abbreviation crlf :: string where
  "crlf \<equiv> [CHR 0x0D, CHR 0x0A]"

section \<open>The probe\<close>

definition options_message :: "string \<Rightarrow> string \<Rightarrow> string \<Rightarrow> string" where
  "options_message target transport i =
     ''OPTIONS sip:'' @ target @ '' SIP/2.0'' @ crlf @
     ''Via: SIP/2.0/'' @ to_upper transport @ '' 127.0.0.1:5060;branch=z9hG4bK-'' @ i @ '';rport'' @ crlf @
     ''Max-Forwards: 1'' @ crlf @
     ''From: <sip:health@localhost>;tag='' @ i @ crlf @
     ''To: <sip:'' @ target @ ''>'' @ crlf @
     ''Call-ID: '' @ i @ ''@localhost'' @ crlf @
     ''CSeq: 1 OPTIONS'' @ crlf @
     ''Contact: <sip:health@127.0.0.1:5060>'' @ crlf @
     ''Content-Length: 0'' @ crlf @ crlf"

definition optionsRequest :: "env \<Rightarrow> string \<Rightarrow> int \<Rightarrow> string \<Rightarrow> (world, goerr + string) state" where
  "optionsRequest E host port transport = do {
     r \<leftarrow> read_random E;
     State_Monad.return (case r of
       Inl e \<Rightarrow> Inl (Wrap ''generate SIP probe id'' e)
     | Inr nonce \<Rightarrow> Inr (options_message (JoinHostPort host (itoa port)) transport (hex_EncodeToString nonce)))
   }"

definition parseSIPStatus :: "string \<Rightarrow> goerr + int" where
  "parseSIPStatus v =
     (let parts = Fields (trim_space (hd (split_lines v)))
      in if length parts < 2 \<or> parts ! 0 \<noteq> ''SIP/2.0''
         then Inl (ErrorString ''endpoint returned an invalid SIP response'')
         else case parse_int64 (parts ! 1) of
                None \<Rightarrow> Inl (ErrorString ''endpoint returned an invalid SIP status'')
              | Some code \<Rightarrow>
                  if code < 100 \<or> code > 699 then Inl (ErrorString ''endpoint returned an invalid SIP status'')
                  else Inr (wrap32 code))"

text \<open>
  \<^verbatim>\<open>ReadString\<close> on a stream: the bytes up to the first line feed, an error when the peer stops before it.
\<close>

definition readSIPStatus :: "goerr + string \<Rightarrow> goerr + int" where
  "readSIPStatus r =
     (case r of
        Inl e \<Rightarrow> Inl (Wrap ''read SIP response'' e)
      | Inr s \<Rightarrow>
          if CHR 0x0A \<notin> set s then Inl (Wrap ''read SIP response'' (Sentinel ''io.EOF''))
          else parseSIPStatus (hd (split_lines s) @ [CHR 0x0A]))"

definition sip_dial :: "env \<Rightarrow> string \<Rightarrow> (world, goerr + unit) state" where
  "sip_dial E address = external E (\<lambda>t w. (Inr (), w))"

definition sip_write :: "env \<Rightarrow> string \<Rightarrow> (world, goerr + unit) state" where
  "sip_write E payload = external E (\<lambda>t w. (Inr (), w\<lparr>sip_log := sip_log w @ [payload]\<rparr>))"

definition sip_read :: "env \<Rightarrow> (world, goerr + string) state" where
  "sip_read E = external E (\<lambda>t w. (Inr (sip_reply E t), w))"

definition probeStream :: "env \<Rightarrow> string \<Rightarrow> (world, goerr + int) state" where
  "probeStream E payload = do {
     r \<leftarrow> sip_write E payload;
     case r of
       Inl e \<Rightarrow> State_Monad.return (Inl (Wrap ''write SIP OPTIONS'' e))
     | Inr _ \<Rightarrow> do { x \<leftarrow> sip_read E; State_Monad.return (readSIPStatus x) }
   }"

definition probeUDP :: "env \<Rightarrow> string \<Rightarrow> string \<Rightarrow> (world, goerr + int) state" where
  "probeUDP E address payload = do {
     c \<leftarrow> sip_dial E address;
     case c of
       Inl e \<Rightarrow> State_Monad.return (Inl (Wrap ''dial SIP UDP endpoint'' e))
     | Inr _ \<Rightarrow> do {
         r \<leftarrow> sip_write E payload;
         case r of
           Inl e \<Rightarrow> State_Monad.return (Inl (Wrap ''write SIP OPTIONS'' e))
         | Inr _ \<Rightarrow> do {
             x \<leftarrow> sip_read E;
             State_Monad.return (case x of
               Inl e \<Rightarrow> Inl (Wrap ''read SIP response'' e)
             | Inr s \<Rightarrow> parseSIPStatus (take (64 * 1024) s))
           }
       }
   }"

text \<open>
  The TLS handshake is part of the first write; the name the certificate is checked against is not
  part of the model.
\<close>

definition sip_Probe :: "env \<Rightarrow> trunk_endpoint \<Rightarrow> (world, goerr + int) state" where
  "sip_Probe E e = do {
     r \<leftarrow> optionsRequest E (e_host e) (e_port e) (e_transport e);
     case r of
       Inl err \<Rightarrow> State_Monad.return (Inl err)
     | Inr payload \<Rightarrow>
         let address = JoinHostPort (e_host e) (itoa (e_port e))
         in if e_transport e = ''udp'' then probeUDP E address payload
            else if e_transport e = ''tls'' then do {
              c \<leftarrow> sip_dial E address;
              case c of
                Inl err \<Rightarrow> State_Monad.return (Inl (Wrap ''dial SIP TLS endpoint'' err))
              | Inr _ \<Rightarrow> probeStream E payload
            }
            else if e_transport e = ''tcp'' then do {
              c \<leftarrow> sip_dial E address;
              case c of
                Inl err \<Rightarrow> State_Monad.return (Inl (Wrap ''dial SIP endpoint'' err))
              | Inr _ \<Rightarrow> probeStream E payload
            }
            else State_Monad.return (Inl (ErrorString ''unsupported SIP transport''))
   }"

section \<open>The job\<close>

text \<open>Durations of the configuration are nanoseconds; times are microseconds.\<close>

record health_config =
  hc_interval :: int
  hc_endpoint_timeout :: int
  hc_failure_threshold :: int
  hc_cooldown :: int
  hc_batch_size :: int

definition DefaultHealthCheckConfig :: health_config where
  "DefaultHealthCheckConfig =
     \<lparr>hc_interval = 30 * second, hc_endpoint_timeout = 3 * second, hc_failure_threshold = 3,
      hc_cooldown = 120 * second, hc_batch_size = 100\<rparr>"

definition positive_or :: "int \<Rightarrow> int \<Rightarrow> int" where
  "positive_or v dflt = (if v \<le> 0 then dflt else v)"

definition NewHealthCheckJob :: "bool \<Rightarrow> bool \<Rightarrow> health_config \<Rightarrow> goerr + health_config" where
  "NewHealthCheckJob repo prober c =
     (if \<not> repo \<or> \<not> prober then Inl (ErrorString ''trunk health check requires repository and prober'')
      else
        let d = DefaultHealthCheckConfig
        in Inr \<lparr>hc_interval = positive_or (hc_interval c) (hc_interval d),
                hc_endpoint_timeout = positive_or (hc_endpoint_timeout c) (hc_endpoint_timeout d),
                hc_failure_threshold = positive_or (hc_failure_threshold c) (hc_failure_threshold d),
                hc_cooldown = positive_or (hc_cooldown c) (hc_cooldown d),
                hc_batch_size = positive_or (hc_batch_size c) (hc_batch_size d)\<rparr>)"

definition latency_ms :: "int \<Rightarrow> int \<Rightarrow> int" where
  "latency_ms started finished = wrap32 (max (go_div (finished - started) 1000) 0)"

text \<open>\<^verbatim>\<open>time.Now()\<close> in the process.\<close>

definition wall_clock :: "env \<Rightarrow> (world, int) state" where
  "wall_clock E = do { w \<leftarrow> State_Monad.get; State_Monad.return (clock E (tick w)) }"

definition MarkHealthy :: "env \<Rightarrow> uuid \<Rightarrow> int \<Rightarrow> int \<Rightarrow> int \<Rightarrow> (world, goerr + unit) state" where
  "MarkHealthy E i at code latency = do {
     r \<leftarrow> exec E (statement (MarkTrunkEndpointHealthy at code latency i));
     State_Monad.return (map_sum id (\<lambda>_. ()) r)
   }"

definition MarkProbeFailed ::
  "env \<Rightarrow> uuid \<Rightarrow> int \<Rightarrow> int \<Rightarrow> string \<Rightarrow> int \<Rightarrow> int \<Rightarrow> (world, goerr + unit) state" where
  "MarkProbeFailed E i at latency msg threshold cooldown = do {
     r \<leftarrow> exec E (statement (MarkTrunkEndpointProbeFailed at latency msg threshold cooldown i));
     State_Monad.return (map_sum id (\<lambda>_. ()) r)
   }"

text \<open>What follows a probe of an endpoint.\<close>

definition record_probe ::
  "env \<Rightarrow> health_config \<Rightarrow> uuid \<Rightarrow> int \<Rightarrow> goerr + int \<Rightarrow> (world, goerr + unit) state" where
  "record_probe E c i started r = do {
     finished \<leftarrow> wall_clock E;
     let latency = latency_ms started finished;
     case r of
       Inr code \<Rightarrow> do {
         m \<leftarrow> MarkHealthy E i finished code latency;
         State_Monad.return (on_error (Wrap ''mark trunk endpoint healthy'') m)
       }
     | Inl err \<Rightarrow> do {
         m \<leftarrow> MarkProbeFailed E i finished latency (take 500 (error_text E err)) (hc_failure_threshold c)
                (finished + go_div (hc_cooldown c) 1000);
         State_Monad.return (on_error (Wrap ''mark trunk endpoint failed'') m)
       }
   }"

fun check_all :: "env \<Rightarrow> health_config \<Rightarrow> trunk_endpoint list \<Rightarrow> (world, goerr + unit) state" where
  "check_all E c [] = State_Monad.return (Inr ())"
| "check_all E c (e # es) = do {
     started \<leftarrow> wall_clock E;
     r \<leftarrow> sip_Probe E e;
     m \<leftarrow> record_probe E c (e_id e) started r;
     case m of Inl err \<Rightarrow> State_Monad.return (Inl err) | Inr _ \<Rightarrow> check_all E c es
   }"

definition health_Check :: "env \<Rightarrow> health_config \<Rightarrow> (world, goerr + unit) state" where
  "health_Check E c = do {
     now \<leftarrow> wall_clock E;
     r \<leftarrow> exec E (statement (ListTrunkEndpointsForHealthCheck now (now - go_div (hc_interval c) 1000) (hc_batch_size c)));
     case r of
       Inl err \<Rightarrow> State_Monad.return (Inl (Wrap ''claim trunk endpoints'' err))
     | Inr es \<Rightarrow> check_all E c es
   }"

text \<open>\<^verbatim>\<open>runPass\<close> logs an error and goes on; \<open>health_Run\<close> makes the first pass and one per tick.\<close>

definition runPass :: "env \<Rightarrow> health_config \<Rightarrow> (world, unit) state" where
  "runPass E c = do { _ \<leftarrow> health_Check E c; State_Monad.return () }"

fun health_Run :: "env \<Rightarrow> health_config \<Rightarrow> nat \<Rightarrow> (world, unit) state" where
  "health_Run E c 0 = runPass E c"
| "health_Run E c (Suc ticks) = do { _ \<leftarrow> runPass E c; health_Run E c ticks }"

end
