(* ===== verification/TrunkGuarantees.thy ===== *)
theory TrunkGuarantees
  imports TrunkHealth
begin

text \<open>
  What the trunk service and the health job guarantee. The locale \<open>trunk_changes\<close> lists the ways the
  service changes the tables; a relation that admits each of them admits every operation, under any
  fault. It is interpreted twice: with the invariant of the trunk tables and with the isolation of
  tenants.
\<close>

section \<open>The operations\<close>

datatype trunk_op =
    CreateOp trunk_create
  | UpdateOp uuid trunk_update
  | DeleteOp uuid
  | SetOutboundAuthOp uuid auth_request
  | ClearOutboundAuthOp uuid
  | SetInboundAuthOp uuid auth_request
  | ClearInboundAuthOp uuid
  | CreateSourceIPOp uuid string
  | DeleteSourceIPOp uuid uuid
  | CreateEndpointOp uuid string endpoint_params
  | UpdateEndpointOp uuid uuid endpoint_params
  | DeleteEndpointOp uuid uuid
  | ValidateOp uuid

definition done_with :: "(world, 'a) state \<Rightarrow> (world, unit) state" where
  "done_with m = do { _ \<leftarrow> m; State_Monad.return () }"

fun trunk_step :: "env \<Rightarrow> trunk_service \<Rightarrow> uuid \<Rightarrow> trunk_op \<Rightarrow> (world, unit) state" where
  "trunk_step E S org (CreateOp req) = done_with (trunk_Create E S org req)"
| "trunk_step E S org (UpdateOp i req) = done_with (trunk_Update E S org i req)"
| "trunk_step E S org (DeleteOp i) = done_with (trunk_Delete E S org i)"
| "trunk_step E S org (SetOutboundAuthOp i req) = done_with (trunk_SetOutboundAuth E S org i req)"
| "trunk_step E S org (ClearOutboundAuthOp i) = done_with (trunk_ClearOutboundAuth E org i)"
| "trunk_step E S org (SetInboundAuthOp i req) = done_with (trunk_SetInboundAuth E S org i req)"
| "trunk_step E S org (ClearInboundAuthOp i) = done_with (trunk_ClearInboundAuth E org i)"
| "trunk_step E S org (CreateSourceIPOp i v) = done_with (trunk_CreateSourceIP E org i v)"
| "trunk_step E S org (DeleteSourceIPOp i s) = done_with (trunk_DeleteSourceIP E org i s)"
| "trunk_step E S org (CreateEndpointOp i host p) = done_with (trunk_CreateEndpoint E S org i host p)"
| "trunk_step E S org (UpdateEndpointOp i e p) = done_with (trunk_UpdateEndpoint E S org i e p)"
| "trunk_step E S org (DeleteEndpointOp i e) = done_with (trunk_DeleteEndpoint E S org i e)"
| "trunk_step E S org (ValidateOp i) = done_with (trunk_Validate E org i)"

text \<open>A trunk keeps its key and its authentication columns.\<close>

definition keeps_auth :: "(trunk \<Rightarrow> trunk) \<Rightarrow> bool" where
  "keeps_auth f \<longleftrightarrow> (\<forall>t. t_id (f t) = t_id t \<and> t_organization_id (f t) = t_organization_id t \<and>
     t_outbound_auth_method (f t) = t_outbound_auth_method t \<and> t_auth_username (f t) = t_auth_username t \<and>
     t_auth_realm (f t) = t_auth_realm t \<and> t_auth_secret_ciphertext (f t) = t_auth_secret_ciphertext t \<and>
     t_inbound_auth_method (f t) = t_inbound_auth_method t \<and> t_inbound_username (f t) = t_inbound_username t \<and>
     t_inbound_realm (f t) = t_inbound_realm t \<and> t_inbound_secret_ciphertext (f t) = t_inbound_secret_ciphertext t)"

lemma updates_keep_auth: "keeps_auth (updated_trunk u)" "keeps_auth (\<lambda>t. t\<lparr>t_status := s\<rparr>)"
  by (simp_all add: keeps_auth_def updated_trunk_def)

text \<open>The rows of a new trunk: the trunk and up to two credentials.\<close>

definition create_rows ::
  "uuid \<Rightarrow> uuid \<Rightarrow> trunk_create \<Rightarrow> string list option \<Rightarrow> sealed_credential option \<Rightarrow> sealed_credential option
     \<Rightarrow> int \<Rightarrow> db \<Rightarrow> goerr + trunk \<times> db" where
  "create_rows i org req codecs outbound inbound now d =
     andalso (CreateTrunk i org (create_params req codecs outbound inbound) now d) (\<lambda>(item, d1).
     andalso (case outbound of None \<Rightarrow> Inr d1 | Some (u, r, _, h) \<Rightarrow>
       map_sum id snd (InsertTrunkDigestCredential i org ''outbound'' u r h now d1)) (\<lambda>d2.
     andalso (case inbound of None \<Rightarrow> Inr d2 | Some (u, r, _, h) \<Rightarrow>
       map_sum id snd (InsertTrunkDigestCredential i org ''inbound'' u r h now d2)) (\<lambda>d3. Inr (item, d3))))"

lemma trunk_insertEvent_payload:
  assumes "trunk_insertEvent E t k now ty item endpoint res d = Inr d'"
  obtains ev at where "d' = d\<lparr>outbox := outbox d @ [ev]\<rparr>"
    "ob_payload ev = TrunkPayload ty (t_organization_id item) (t_id item) endpoint res at"
proof -
  obtain ev at i hs where "InsertOutboxEvent i now ty ''trunk'' (t_id item)
      (TrunkPayload ty (t_organization_id item) (t_id item) endpoint res at) hs None d = Inr (ev, d')"
    using assms
    by (auto simp: trunk_insertEvent_def tx_statement_def on_error_def map_sum_def split: sum.splits if_splits)
  from InsertOutboxEvent_appends(1,5) [OF this] show ?thesis by (rule that)
qed

lemma trunk_insertEvent_Inr:
  "trunk_insertEvent E t k now ty item endpoint res d = Inr d' \<Longrightarrow> \<exists>ob. d' = d\<lparr>outbox := ob\<rparr>"
  by (erule trunk_insertEvent_payload) blast

lemma insert_digest_Inr:
  "insert_digest E t k i org dir c now d = Inr d' \<Longrightarrow>
   (case c of None \<Rightarrow> Inr d | Some (u, r, _, h) \<Rightarrow>
      map_sum id snd (InsertTrunkDigestCredential i org dir u r h now d)) = Inr d'"
  by (auto simp: insert_digest_def tx_statement_def on_error_def split: option.splits sum.splits if_splits)

lemma create_body_event:
  assumes "create_body E i org req codecs outbound inbound now t d = Inr (item, d')"
  obtains d1 where "create_rows i org req codecs outbound inbound now d = Inr (item, d1)"
    "trunk_insertEvent E t 3 now ''trunk.created'' item None (TrunkResource (trunk_response_of item)) d1 = Inr d'"
proof -
  obtain d1 d2 d3 where c: "CreateTrunk i org (create_params req codecs outbound inbound) now d = Inr (item, d1)"
    and o': "insert_digest E t 1 i org ''outbound'' outbound now d1 = Inr d2"
    and n: "insert_digest E t 2 i org ''inbound'' inbound now d2 = Inr d3"
    and ev: "trunk_insertEvent E t 3 now ''trunk.created'' item None (TrunkResource (trunk_response_of item)) d3 = Inr d'"
    using assms by (auto simp: create_body_def andalso_def split: sum.splits)
  have "create_rows i org req codecs outbound inbound now d = Inr (item, d3)"
    using insert_digest_Inr [OF o'] insert_digest_Inr [OF n] by (simp add: create_rows_def andalso_def c)
  then show ?thesis using ev by (rule that)
qed

lemma create_body_rows:
  assumes "create_body E i org req codecs outbound inbound now t d = Inr (item, d')"
  obtains d1 ob where "create_rows i org req codecs outbound inbound now d = Inr (item, d1)" "d' = d1\<lparr>outbox := ob\<rparr>"
  using assms trunk_insertEvent_Inr that by (elim create_body_event) blast

lemma mutate_bodies_Inr:
  "mutate_trunk_body E ty m now t d = Inr (x, d') \<Longrightarrow> \<exists>d1 ob. m now d = Inr (x, d1) \<and> d' = d1\<lparr>outbox := ob\<rparr>"
  "mutate_endpoint_body E ty me now t d = Inr (y, d') \<Longrightarrow>
     \<exists>d1 ob. me (row_uuid E t 0) now d = Inr (y, d1) \<and> d' = d1\<lparr>outbox := ob\<rparr>"
  by (auto simp: mutate_trunk_body_def mutate_endpoint_body_def map_sum_def split: sum.splits dest: trunk_insertEvent_Inr)

section \<open>What the operations change\<close>

text \<open>Reads, seals and validations move along any relation the interference moves along.\<close>

context world_history
begin

lemma bind_result_moves:
  assumes "moves m" and "\<And>x s s'. run_state m s = (x, s') \<Longrightarrow> moves (f x)"
  shows "moves (State_Monad.bind m f)"
  unfolding state_io_rel_def
proof
  fix s
  show "R s (snd (run_state (State_Monad.bind m f) s))"
    by (rule bind_moves_from) (metis assms movesD snd_conv)
qed

lemma done_moves: "moves m \<Longrightarrow> moves (done_with m)"
  unfolding done_with_def by (intro bind_moves return_moves)

lemma seal_moves: "rely E \<Longrightarrow> moves (seal_credential E scope msg c)"
  unfolding seal_credential_def EncryptForScope_def read_random_def
  by (intro moves_intros external_moves) (simp_all add: refl)

lemma seal_optional_moves: "rely E \<Longrightarrow> moves (seal_optional E scope msg c)"
  unfolding seal_optional_def by (intro moves_intros seal_moves)

lemma with_trunk_moves: "rely E \<Longrightarrow> (\<And>t. moves (k t)) \<Longrightarrow> moves (with_trunk E org i k)"
  unfolding with_trunk_def trunk_Get_def by (intro moves_intros query_moves)

lemma with_endpoint_moves: "rely E \<Longrightarrow> moves k \<Longrightarrow> moves (with_endpoint E org i e k)"
  unfolding with_endpoint_def trunk_GetEndpoint_def by (intro moves_intros with_trunk_moves query_moves)

lemma trunk_Validate_moves: "rely E \<Longrightarrow> moves (trunk_Validate E org i)"
  unfolding trunk_Validate_def inbound_errors_def trunk_ListSourceIPs_def
  by (intro moves_intros with_trunk_moves query_moves)

end

locale trunk_changes = world_history R for R :: "world \<Rightarrow> world \<Rightarrow> bool" +
  fixes E :: env and acts :: "uuid \<Rightarrow> bool" and sealed :: "uuid \<Rightarrow> uuid \<Rightarrow> string \<Rightarrow> sealed_credential \<Rightarrow> bool"
  assumes outbox_free: "R w (w'\<lparr>database := d\<lparr>outbox := ob\<rparr>\<rparr>) \<longleftrightarrow> R w (w'\<lparr>database := d\<rparr>)"
    and seals: "run_state (seal_credential E (credentialScope E org i dir) msg cred) w = (Inr s, w') \<Longrightarrow> sealed org i dir s"
    and creates: "acts org \<Longrightarrow> create_rows i org req codecs outbound inbound now (database w) = Inr (x, d) \<Longrightarrow>
      (\<And>s. outbound = Some s \<Longrightarrow> sealed org i ''outbound'' s) \<Longrightarrow> (\<And>s. inbound = Some s \<Longrightarrow> sealed org i ''inbound'' s) \<Longrightarrow>
      R w (w\<lparr>database := d\<rparr>)"
    and changes: "acts org \<Longrightarrow> keeps_auth f \<Longrightarrow>
      change_trunk (\<lambda>t. own_trunk i org t \<and> P t) f now (database w) = Inr (x, d) \<Longrightarrow> R w (w\<lparr>database := d\<rparr>)"
    and sets: "acts org \<Longrightarrow> sealed org i ''outbound'' (u, r, c, h) \<Longrightarrow>
      SetTrunkOutboundDigestAuth u r c h i org now (database w) = Inr (y, d) \<Longrightarrow> R w (w\<lparr>database := d\<rparr>)"
      "acts org \<Longrightarrow> sealed org i ''inbound'' (u, r, c, h) \<Longrightarrow>
      SetTrunkInboundDigestAuth u r c h i org now (database w) = Inr (y, d) \<Longrightarrow> R w (w\<lparr>database := d\<rparr>)"
    and clears: "acts org \<Longrightarrow> ClearTrunkOutboundAuth i org now (database w) = Inr (y, d) \<Longrightarrow> R w (w\<lparr>database := d\<rparr>)"
      "acts org \<Longrightarrow> SetTrunkInboundIPAuth i org now (database w) = Inr (y, d) \<Longrightarrow> R w (w\<lparr>database := d\<rparr>)"
    and sources: "acts org \<Longrightarrow> CreateTrunkSourceIP n org i cidr now (database w) = Inr (src, d) \<Longrightarrow> R w (w\<lparr>database := d\<rparr>)"
      "acts org \<Longrightarrow> DeleteTrunkSourceIP n i org now (database w) = Inr (y, d) \<Longrightarrow> R w (w\<lparr>database := d\<rparr>)"
    and endpoints: "acts org \<Longrightarrow> CreateTrunkEndpoint n org i host p now (database w) = Inr (e, d) \<Longrightarrow> R w (w\<lparr>database := d\<rparr>)"
      "acts org \<Longrightarrow> UpdateTrunkEndpoint p n i org now (database w) = Inr (e, d) \<Longrightarrow> R w (w\<lparr>database := d\<rparr>)"
      "acts org \<Longrightarrow> DeleteTrunkEndpoint n i org now (database w) = Inr (e, d) \<Longrightarrow> R w (w\<lparr>database := d\<rparr>)"
begin

lemma seal_optional_sealed:
  assumes "run_state (seal_optional E (credentialScope E org i dir) msg c) w = (Inr (Some s), w')"
  shows "sealed org i dir s"
proof -
  obtain x where "c = Some x" using assms by (cases c) (auto simp: seal_optional_def)
  with assms show ?thesis
    by (cases "run_state (seal_credential E (credentialScope E org i dir) msg x) w")
       (auto simp: seal_optional_def map_sum_def split: sum.splits intro: seals)
qed

lemma create_sealed_moves:
  assumes "rely E" and "acts org" shows "moves (create_sealed E i org req codecs)"
proof -
  have tx: "moves (transaction_with E b st c (create_body E i org req codecs outbound inbound))"
    if "\<And>s. outbound = Some s \<Longrightarrow> sealed org i ''outbound'' s" "\<And>s. inbound = Some s \<Longrightarrow> sealed org i ''inbound'' s"
    for b st c outbound inbound
  proof (rule transaction_with_moves [OF assms(1)])
    fix now t x d and w :: world
    assume "create_body E i org req codecs outbound inbound now t (database w) = Inr (x, d)"
    then obtain d1 ob where "create_rows i org req codecs outbound inbound now (database w) = Inr (x, d1)"
      "d = d1\<lparr>outbox := ob\<rparr>" by (rule create_body_rows)
    with creates [OF assms(2)] that show "R w (w\<lparr>database := d\<rparr>)" by (simp add: outbox_free)
  qed
  show ?thesis
    unfolding create_sealed_def
  proof (rule bind_result_moves [OF seal_optional_moves [OF assms(1)]])
    fix x s s'
    assume o': "run_state (seal_optional E (credentialScope E org i ''outbound'') ''encrypt outbound trunk credential''
      (tc_outbound_credential req)) s = (x, s')"
    show "moves (case x of Inl e \<Rightarrow> State_Monad.return (Inl e) | Inr outbound \<Rightarrow> do {
         n \<leftarrow> seal_optional E (credentialScope E org i ''inbound'') ''encrypt inbound trunk credential'' (tc_inbound_credential req);
         case n of
           Inl e \<Rightarrow> State_Monad.return (Inl e)
         | Inr inbound \<Rightarrow>
             transaction_with E (NewInternal ''begin trunk creation'') (trunk_writeError ''trunk could not be created'')
               (NewInternal ''commit trunk creation'') (create_body E i org req codecs outbound inbound)
       })"
      using o' by (intro case_sum_moves bind_result_moves [OF seal_optional_moves [OF assms(1)]] return_moves tx)
        (auto intro: seal_optional_sealed)
  qed
qed

lemma trunk_Create_moves: "rely E \<Longrightarrow> acts org \<Longrightarrow> moves (trunk_Create E S org req)"
  unfolding trunk_Create_def by (intro moves_intros create_sealed_moves)

lemma mutateTrunk_moves:
  assumes "rely E" and "\<And>now w x d. m now (database w) = Inr (x, d) \<Longrightarrow> R w (w\<lparr>database := d\<rparr>)"
  shows "moves (mutateTrunk E S ty m)"
  unfolding mutateTrunk_def
  by (intro moves_intros transaction_moves assms(1)) (auto dest!: mutate_bodies_Inr(1) assms(2) simp: outbox_free)

lemma mutateEndpoint_moves:
  assumes "rely E" and "\<And>n now w x d. m n now (database w) = Inr (x, d) \<Longrightarrow> R w (w\<lparr>database := d\<rparr>)"
  shows "moves (mutateEndpoint E S ty m)"
  unfolding mutateEndpoint_def
  by (intro moves_intros transaction_moves assms(1)) (auto dest!: mutate_bodies_Inr(2) assms(2) simp: outbox_free)

lemma trunk_rows_moves:
  assumes "rely E" and "acts org"
  shows "moves (trunk_Update E S org i u)" "moves (trunk_Delete E S org i)"
  unfolding trunk_Update_def trunk_Delete_def UpdateTrunk_def DisableTrunk_def
  using assms changes [OF assms(2) updates_keep_auth(1), where P = "\<lambda>_. True"] changes [OF assms(2) updates_keep_auth(2)]
  by (intro moves_intros with_trunk_moves mutateTrunk_moves; force)+

lemma set_auth_moves:
  assumes "rely E"
    and "\<And>u r c h now w x d. sealed org i dir (u, r, c, h) \<Longrightarrow> store u r c h i org now (database w) = Inr (x, d) \<Longrightarrow>
      R w (w\<lparr>database := d\<rparr>)"
  shows "moves (set_auth E S org i dir store req)"
  unfolding set_auth_def prod.case
  by (intro if_moves return_moves case_option_moves bind_result_moves case_sum_moves case_prod_moves seal_moves statement_moves assms)
     (auto intro: assms seals)

lemma trunk_auth_moves:
  assumes "rely E" and "acts org"
  shows "moves (trunk_SetOutboundAuth E S org i a)" "moves (trunk_ClearOutboundAuth E org i)"
    "moves (trunk_SetInboundAuth E S org i a)" "moves (trunk_ClearInboundAuth E org i)"
  unfolding trunk_SetOutboundAuth_def trunk_ClearOutboundAuth_def trunk_SetInboundAuth_def trunk_ClearInboundAuth_def
  by (intro moves_intros with_trunk_moves statement_moves set_auth_moves assms;
      auto intro: sets [OF assms(2)] clears [OF assms(2)])+

lemma trunk_source_moves:
  assumes "rely E" and "acts org"
  shows "moves (trunk_CreateSourceIP E org i v)" "moves (trunk_DeleteSourceIP E org i s)"
  unfolding trunk_CreateSourceIP_def trunk_DeleteSourceIP_def fresh_row_def
  by (intro moves_intros with_trunk_moves statement_moves assms; auto intro: sources [OF assms(2)])+

lemma trunk_endpoint_moves:
  assumes "rely E" and "acts org"
  shows "moves (trunk_CreateEndpoint E S org i host p)" "moves (trunk_UpdateEndpoint E S org i e p)"
    "moves (trunk_DeleteEndpoint E S org i e)"
  unfolding trunk_CreateEndpoint_def trunk_UpdateEndpoint_def trunk_DeleteEndpoint_def
  by (intro moves_intros with_trunk_moves with_endpoint_moves mutateEndpoint_moves assms;
      auto intro: endpoints [OF assms(2)])+

lemma trunk_step_moves: "rely E \<Longrightarrow> acts org \<Longrightarrow> moves (trunk_step E S org op)"
  by (cases op) (simp_all add: done_moves trunk_Create_moves trunk_rows_moves trunk_auth_moves trunk_source_moves
      trunk_endpoint_moves trunk_Validate_moves)

end

section \<open>The invariant of the trunk tables\<close>

definition auth_columns :: "string \<Rightarrow> trunk \<Rightarrow> string \<times> string option \<times> string option \<times> string option" where
  "auth_columns dir t =
     (if dir = ''inbound''
      then (t_inbound_auth_method t, t_inbound_username t, t_inbound_realm t, t_inbound_secret_ciphertext t)
      else (t_outbound_auth_method t, t_auth_username t, t_auth_realm t, t_auth_secret_ciphertext t))"

text \<open>A credential row belongs to a trunk that holds the same identity, whose ciphertext opens to the hashed secret.\<close>

definition sealed_for :: "env \<Rightarrow> uuid \<Rightarrow> uuid \<Rightarrow> string \<Rightarrow> sealed_credential \<Rightarrow> bool" where
  "sealed_for E org i dir s \<longleftrightarrow>
     (case s of (u, r, c, h) \<Rightarrow> \<exists>secret. DecryptForScope E (credentialScope E org i dir) c = Inr secret \<and>
        h = ComputeHA1MD5 E u r secret)"

definition credential_of :: "env \<Rightarrow> trunk \<Rightarrow> trunk_digest_credential \<Rightarrow> bool" where
  "credential_of E t g \<longleftrightarrow>
     own_trunk (g_trunk_id g) (g_organization_id g) t \<and>
     (\<exists>c. auth_columns (g_direction g) t = (''digest'', Some (g_username g), Some (g_realm g), Some c) \<and>
        sealed_for E (t_organization_id t) (t_id t) (g_direction g) (g_username g, g_realm g, c, g_ha1_md5 g))"

definition trunks_ok :: "trunk list \<Rightarrow> bool" where
  "trunks_ok ts \<longleftrightarrow> distinct (map t_id ts) \<and> (\<forall>t \<in> set ts. trunk_checks t \<and> trunk_name_free ts t)"

definition credentials_ok :: "env \<Rightarrow> trunk list \<Rightarrow> trunk_digest_credential list \<Rightarrow> bool" where
  "credentials_ok E ts gs \<longleftrightarrow>
     distinct (map (\<lambda>g. (g_trunk_id g, g_direction g)) gs) \<and>
     (\<forall>g \<in> set gs. digest_checks g \<and> inbound_identity_free gs g \<and> (\<exists>t \<in> set ts. credential_of E t g)) \<and>
     (\<forall>t \<in> set ts. \<forall>dir \<in> {''inbound'', ''outbound''}. fst (auth_columns dir t) = ''digest'' \<longrightarrow>
        (\<exists>g \<in> set gs. has_digest (t_id t) dir g))"

definition endpoints_ok :: "trunk list \<Rightarrow> trunk_endpoint list \<Rightarrow> bool" where
  "endpoints_ok ts es \<longleftrightarrow>
     distinct (map e_id es) \<and>
     (\<forall>e \<in> set es. trunk_endpoint_checks e \<and> list_ex (own_trunk (e_trunk_id e) (e_organization_id e)) ts) \<and>
     (\<forall>x \<in> set es. \<forall>y \<in> set es. same_target x y \<longrightarrow> x = y)"

definition sources_ok :: "trunk list \<Rightarrow> trunk_source_ip list \<Rightarrow> bool" where
  "sources_ok ts ss \<longleftrightarrow>
     distinct (map si_id ss) \<and> distinct (map (\<lambda>s. (si_trunk_id s, si_cidr s)) ss) \<and>
     (\<forall>s \<in> set ss. list_ex (own_trunk (si_trunk_id s) (si_organization_id s)) ts)"

definition trunk_store_ok :: "env \<Rightarrow> db \<Rightarrow> bool" where
  "trunk_store_ok E d \<longleftrightarrow>
     trunks_ok (trunks d) \<and> credentials_ok E (trunks d) (trunk_digest_credentials d) \<and>
     endpoints_ok (trunks d) (trunk_endpoints d) \<and> sources_ok (trunks d) (trunk_source_ips d)"

subsection \<open>A trunk row is replaced\<close>

definition replace_trunk :: "trunk \<Rightarrow> trunk list \<Rightarrow> trunk list" where
  "replace_trunk t ts = update_where (\<lambda>r. t_id r = t_id t) (\<lambda>_. t) ts"

lemma in_replace_trunk:
  "x \<in> set (replace_trunk t' ts) \<longleftrightarrow> x = t' \<and> t_id t' \<in> t_id ` set ts \<or> x \<in> set ts \<and> t_id x \<noteq> t_id t'"
  by (auto simp: replace_trunk_def set_update_where image_iff split: if_splits) (metis+)

lemma distinct_key: "distinct (map k xs) \<Longrightarrow> x \<in> set xs \<Longrightarrow> y \<in> set xs \<Longrightarrow> k x = k y \<Longrightarrow> x = y"
  by (auto simp: distinct_map inj_on_def)

lemma change_trunk_row:
  assumes ids: "distinct (map t_id (trunks d))" and ch: "change_trunk P f now d = Inr (t', d')"
    and P: "\<And>t. P t \<Longrightarrow> t_id t = i" and f: "\<And>t. t_id (f t) = t_id t"
  obtains t where "t \<in> set (trunks d)" "P t" "t_id t = i" "t' = (f t)\<lparr>t_updated_at := now\<rparr>"
    "d' = d\<lparr>trunks := replace_trunk t' (trunks d)\<rparr>" "trunk_checks t'" "trunk_name_free (trunks d) t'"
proof -
  obtain rows where u: "update_one P (\<lambda>t. (f t)\<lparr>t_updated_at := now\<rparr>) (trunks d) = Inr (t', rows)"
    and r: "d' = d\<lparr>trunks := rows\<rparr>" "trunk_checks t'" "trunk_name_free (trunks d) t'"
    using ch by (auto simp: change_trunk_def split: sum.splits if_splits)
  from u obtain t where t: "t \<in> set (trunks d)" "P t" "t' = (f t)\<lparr>t_updated_at := now\<rparr>"
    "rows = update_where P (\<lambda>t. (f t)\<lparr>t_updated_at := now\<rparr>) (trunks d)" by (rule update_one_Inr)
  have "P x \<longleftrightarrow> x = t" "t_id x = t_id t' \<longleftrightarrow> x = t" if "x \<in> set (trunks d)" for x
    using distinct_key [OF ids that t(1)] t P by (auto simp: f)
  then have "rows = replace_trunk t' (trunks d)"
    unfolding t(4) replace_trunk_def update_where_def by (auto simp: t(3))
  with t r P that show ?thesis by blast
qed

lemma trunks_ok_replace:
  assumes "trunks_ok ts" and "trunk_checks t'" and "trunk_name_free ts t'"
  shows "trunks_ok (replace_trunk t' ts)"
proof -
  have "map t_id (replace_trunk t' ts) = map t_id ts" by (simp add: replace_trunk_def update_where_def)
  with assms show ?thesis
    by (auto simp: trunks_ok_def in_replace_trunk trunk_name_free_def list_all_iff) metis
qed

lemma set_replace_trunk:
  assumes "t \<in> set ts" and "distinct (map t_id ts)" and "t_id t' = t_id t"
  shows "set (replace_trunk t' ts) = insert t' (set ts - {t})"
  using assms(1,3) distinct_key [OF assms(2) _ assms(1)] by (auto simp: in_replace_trunk)

lemma owners_replace:
  assumes "t \<in> set ts" and "distinct (map t_id ts)" and "t_id t' = t_id t" "t_organization_id t' = t_organization_id t"
  shows "list_ex (own_trunk i org) (replace_trunk t' ts) \<longleftrightarrow> list_ex (own_trunk i org) ts"
proof -
  have "own_trunk i org t' \<longleftrightarrow> own_trunk i org t" using assms(3,4) by (simp add: own_trunk_def)
  then show ?thesis using assms(1) by (auto simp: list_ex_iff set_replace_trunk [OF assms(1-3)])
qed

lemma credential_of_cong:
  "t_id t' = t_id t \<Longrightarrow> t_organization_id t' = t_organization_id t \<Longrightarrow>
   auth_columns (g_direction g) t' = auth_columns (g_direction g) t \<Longrightarrow> credential_of E t' g = credential_of E t g"
  by (simp add: credential_of_def own_trunk_def)

lemma other_tables_replace:
  assumes "t \<in> set ts" and "distinct (map t_id ts)" and "t_id t' = t_id t" "t_organization_id t' = t_organization_id t"
  shows "endpoints_ok (replace_trunk t' ts) es = endpoints_ok ts es" "sources_ok (replace_trunk t' ts) ss = sources_ok ts ss"
  by (simp_all add: endpoints_ok_def sources_ok_def owners_replace [OF assms])

lemma changed_trunk_ok:
  assumes ok: "trunk_store_ok E d" and f: "keeps_auth f"
    and ch: "change_trunk (\<lambda>t. own_trunk i org t \<and> P t) f now d = Inr (x, d')"
  shows "trunk_store_ok E d'"
proof -
  have ids: "distinct (map t_id (trunks d))" using ok by (simp add: trunk_store_ok_def trunks_ok_def)
  obtain t where t: "t \<in> set (trunks d)" "t_id t = i" "x = (f t)\<lparr>t_updated_at := now\<rparr>"
    "d' = d\<lparr>trunks := replace_trunk x (trunks d)\<rparr>" "trunk_checks x" "trunk_name_free (trunks d) x"
    by (rule change_trunk_row [OF ids ch, of i]) (use f in \<open>auto simp: own_trunk_def keeps_auth_def\<close>)
  have same: "t_id x = t_id t" "t_organization_id x = t_organization_id t" "\<And>dir. auth_columns dir x = auth_columns dir t"
    using f by (simp_all add: t(3) keeps_auth_def auth_columns_def)
  have "credentials_ok E (replace_trunk x (trunks d)) (trunk_digest_credentials d)"
  proof -
    note in' = set_replace_trunk [OF t(1) ids same(1)]
    have "(\<exists>y \<in> set (replace_trunk x (trunks d)). credential_of E y g) \<longleftrightarrow> (\<exists>y \<in> set (trunks d). credential_of E y g)" for g
      using t(1) credential_of_cong [OF same(1,2) same(3), of E g] unfolding in' by auto
    then show ?thesis
      using ok t(1) by (auto simp: trunk_store_ok_def credentials_ok_def in' same)
  qed
  with ok t same show ?thesis
    by (simp add: trunk_store_ok_def trunks_ok_replace other_tables_replace ids)
qed

subsection \<open>Credentials are set and cleared\<close>

definition sets_columns :: "(trunk \<Rightarrow> trunk) \<Rightarrow> string \<Rightarrow> string \<times> string option \<times> string option \<times> string option \<Rightarrow> bool" where
  "sets_columns f dir cols \<longleftrightarrow>
     dir \<in> {''inbound'', ''outbound''} \<and>
     (\<forall>t. t_id (f t) = t_id t \<and> t_organization_id (f t) = t_organization_id t \<and> auth_columns dir (f t) = cols \<and>
        (\<forall>other \<in> {''inbound'', ''outbound''} - {dir}. auth_columns other (f t) = auth_columns other t))"

lemma with_auth_sets:
  "sets_columns (with_outbound m u r c) ''outbound'' (m, u, r, c)" "sets_columns (with_inbound m u r c) ''inbound'' (m, u, r, c)"
  by (auto simp: sets_columns_def with_outbound_def with_inbound_def auth_columns_def)

lemma sets_columns_row:
  assumes f: "sets_columns f dir cols" and ids: "distinct (map t_id (trunks d))"
    and ch: "change_trunk (own_trunk i org) f now d = Inr (x, d')"
  obtains t where "t \<in> set (trunks d)" "t_id t = i" "t_organization_id t = org" "t_id x = i" "t_organization_id x = org"
    "auth_columns dir x = cols" "\<forall>other \<in> {''inbound'', ''outbound''} - {dir}. auth_columns other x = auth_columns other t"
    "d' = d\<lparr>trunks := replace_trunk x (trunks d)\<rparr>" "trunk_checks x" "trunk_name_free (trunks d) x"
proof -
  obtain t where t: "t \<in> set (trunks d)" "own_trunk i org t" "t_id t = i" "x = (f t)\<lparr>t_updated_at := now\<rparr>"
    "d' = d\<lparr>trunks := replace_trunk x (trunks d)\<rparr>" "trunk_checks x" "trunk_name_free (trunks d) x"
    by (rule change_trunk_row [OF ids ch, of i]) (use f in \<open>auto simp: own_trunk_def sets_columns_def\<close>)
  have cols: "auth_columns s x = auth_columns s (f t)" for s by (simp add: t(4) auth_columns_def)
  have org: "t_organization_id t = org" using t(2) by (simp add: own_trunk_def)
  have "t_id x = i" "t_organization_id x = org" using f org t(3) unfolding t(4) sets_columns_def by simp_all
  moreover have "auth_columns dir x = cols"
    "\<forall>other \<in> {''inbound'', ''outbound''} - {dir}. auth_columns other x = auth_columns other t"
    using f unfolding cols sets_columns_def by blast+
  ultimately show ?thesis using t(1,3,5-7) org by (intro that)
qed

lemma credential_owner:
  assumes "trunks_ok ts" "credentials_ok E ts gs" "g \<in> set gs" "t \<in> set ts" "t_id t = g_trunk_id g"
  shows "credential_of E t g"
proof -
  obtain y where y: "y \<in> set ts" "credential_of E y g" using assms(2,3) unfolding credentials_ok_def by blast
  then have "t_id y = t_id t" using assms(5) by (simp add: credential_of_def own_trunk_def)
  then have "y = t" using distinct_key [of t_id ts y t] assms(1,4) y(1) by (simp add: trunks_ok_def)
  with y(2) show ?thesis by simp
qed

lemma credential_digest: "credential_of E t g \<Longrightarrow> fst (auth_columns (g_direction g) t) = ''digest''"
  by (auto simp: credential_of_def)

lemma directions: "digest_checks g \<Longrightarrow> g_direction g \<in> {''inbound'', ''outbound''}"
  by (auto simp: digest_checks_def)

lemma credential_exists:
  assumes "credentials_ok E ts gs" "t \<in> set ts" "dir \<in> {''inbound'', ''outbound''}" "fst (auth_columns dir t) = ''digest''"
  shows "\<exists>g \<in> set gs. has_digest (t_id t) dir g"
proof -
  have "\<forall>t \<in> set ts. \<forall>dir \<in> {''inbound'', ''outbound''}. fst (auth_columns dir t) = ''digest'' \<longrightarrow>
      (\<exists>g \<in> set gs. has_digest (t_id t) dir g)"
    using assms(1) unfolding credentials_ok_def by (elim conjE)
  with assms(2-4) show ?thesis by blast
qed

lemma kept_credential:
  assumes ok: "trunks_ok ts" "credentials_ok E ts gs" and g: "g \<in> set gs" "\<not> has_digest i dir g"
    and t: "t \<in> set ts" "t_id t = i" "t_id x = i" "t_organization_id x = t_organization_id t"
    and cols: "\<forall>other \<in> {''inbound'', ''outbound''} - {dir}. auth_columns other x = auth_columns other t"
  shows "\<exists>y \<in> set (replace_trunk x ts). credential_of E y g"
proof -
  obtain y where y: "y \<in> set ts" "credential_of E y g" and dir: "g_direction g \<in> {''inbound'', ''outbound''}"
    using ok(2) g(1) directions unfolding credentials_ok_def by blast
  then have yid: "t_id y = g_trunk_id g" by (simp add: credential_of_def own_trunk_def)
  have ids: "distinct (map t_id ts)" using ok(1) by (simp add: trunks_ok_def)
  show ?thesis
  proof (cases "t_id y = i")
    case True
    then have "y = t" using distinct_key [OF ids y(1) t(1)] t(2) by simp
    moreover have "g_direction g \<noteq> dir" using g(2) True yid by (auto simp: has_digest_def)
    ultimately have "credential_of E x g"
      using y(2) cols dir t credential_of_cong [of x t g E] by auto
    with t show ?thesis by (auto simp: in_replace_trunk)
  qed (use y t in \<open>auto simp: in_replace_trunk\<close>)
qed

lemma replaced_columns:
  assumes y: "y \<in> set (replace_trunk x ts)" "o' \<in> {''inbound'', ''outbound''}" "\<not> (t_id y = i \<and> o' = dir)"
    and t: "t \<in> set ts" "t_id t = i" "t_id x = i"
    and cols: "\<forall>other \<in> {''inbound'', ''outbound''} - {dir}. auth_columns other x = auth_columns other t"
  obtains z where "z \<in> set ts" "t_id z = t_id y" "auth_columns o' z = auth_columns o' y"
proof (cases "y = x")
  case True
  with y t cols show ?thesis by (intro that [of t]) auto
next
  case False
  with y(1) show ?thesis by (intro that [of y]) (auto simp: in_replace_trunk)
qed

text \<open>The credential rows after an upsert.\<close>

definition is_digest :: "uuid \<Rightarrow> uuid \<Rightarrow> string \<Rightarrow> string \<Rightarrow> string \<Rightarrow> string \<Rightarrow> trunk_digest_credential \<Rightarrow> bool" where
  "is_digest i org dir u r h g \<longleftrightarrow>
     g_trunk_id g = i \<and> g_organization_id g = org \<and> g_direction g = dir \<and> g_username g = u \<and> g_realm g = r \<and> g_ha1_md5 g = h"

lemma upsert_rows:
  assumes up: "upsert_digest i org dir u r h now gs = Inr rows"
    and org: "\<And>g. g \<in> set gs \<Longrightarrow> has_digest i dir g \<Longrightarrow> g_organization_id g = org"
  shows "q \<in> set rows \<Longrightarrow> is_digest i org dir u r h q \<or> q \<in> set gs \<and> \<not> has_digest i dir q"
    and "distinct (map (\<lambda>g. (g_trunk_id g, g_direction g)) gs) \<Longrightarrow> distinct (map (\<lambda>g. (g_trunk_id g, g_direction g)) rows)"
    and "\<exists>g \<in> set rows. has_digest i dir g"
    and "g \<in> set gs \<Longrightarrow> has_digest j o' g \<Longrightarrow> \<exists>g \<in> set rows. has_digest j o' g"
    and "is_digest i org dir u r h q \<Longrightarrow> digest_checks q"
    and "is_digest i org dir u r h q \<Longrightarrow> inbound_identity_free gs q"
proof -
  let ?f = "\<lambda>q. q\<lparr>g_username := u, g_realm := r, g_ha1_md5 := h, g_updated_at := now\<rparr>"
  have chk: "digest_checks (digest_row i org dir u r h now)" "inbound_identity_free gs (digest_row i org dir u r h now)"
    and rows: "rows = (if list_ex (has_digest i dir) gs then update_where (has_digest i dir) ?f gs
      else gs @ [digest_row i org dir u r h now])"
    using up by (auto simp: upsert_digest_def Let_def split: if_splits)
  show "q \<in> set rows \<Longrightarrow> is_digest i org dir u r h q \<or> q \<in> set gs \<and> \<not> has_digest i dir q"
    using org by (auto simp: rows is_digest_def digest_row_def has_digest_def list_ex_iff split: if_splits elim!: in_update_whereE)
  show "distinct (map (\<lambda>g. (g_trunk_id g, g_direction g)) gs) \<Longrightarrow> distinct (map (\<lambda>g. (g_trunk_id g, g_direction g)) rows)"
    by (auto simp: rows map_update_where digest_row_def has_digest_def list_ex_iff)
  show kept: "g \<in> set gs \<Longrightarrow> has_digest j o' g \<Longrightarrow> \<exists>g \<in> set rows. has_digest j o' g" for g j o'
  proof (cases "list_ex (has_digest i dir) gs")
    case True
    assume "g \<in> set gs" "has_digest j o' g"
    then show ?thesis using True
      by (intro bexI [of _ "if has_digest i dir g then ?f g else g"]) (auto simp: rows has_digest_def set_update_where)
  qed (auto simp: rows)
  show "\<exists>g \<in> set rows. has_digest i dir g"
  proof (cases "list_ex (has_digest i dir) gs")
    case True
    then show ?thesis using kept by (auto simp: list_ex_iff)
  qed (simp add: rows has_digest_def digest_row_def)
  show "is_digest i org dir u r h q \<Longrightarrow> digest_checks q" "is_digest i org dir u r h q \<Longrightarrow> inbound_identity_free gs q"
    using chk by (auto simp: is_digest_def digest_checks_def inbound_identity_free_def digest_row_def)
qed

lemma identities_extended:
  assumes rows: "\<And>q. q \<in> set rows \<Longrightarrow> is_digest i org dir u r h q \<and> inbound_identity_free gs q \<or> q \<in> set gs"
    and gs: "\<And>g. g \<in> set gs \<Longrightarrow> inbound_identity_free gs g" and q: "q \<in> set rows"
  shows "inbound_identity_free rows q"
  unfolding inbound_identity_free_def list_all_iff
proof (intro impI ballI notI, elim conjE)
  fix p assume p: "p \<in> set rows" and h: "g_direction q = ''inbound''" "g_direction p = ''inbound''"
    "g_trunk_id p \<noteq> g_trunk_id q" "g_username p = g_username q" "g_realm p = g_realm q"
  have clash: False if "a \<in> set gs" "inbound_identity_free gs b" "g_direction b = ''inbound''" "g_direction a = ''inbound''"
    "g_trunk_id a \<noteq> g_trunk_id b" "g_username a = g_username b" "g_realm a = g_realm b" for a b
    using that by (auto simp: inbound_identity_free_def list_all_iff)
  consider "p \<in> set gs" | "q \<in> set gs" "inbound_identity_free gs p" | "is_digest i org dir u r h p" "is_digest i org dir u r h q"
    using rows [OF p] rows [OF q] by blast
  then show False
  proof cases
    case 1
    then show ?thesis using clash [of p q] rows [OF q] gs h by blast
  next
    case 2
    then show ?thesis using clash [of q p] h by metis
  qed (use h in \<open>simp add: is_digest_def\<close>)
qed

lemma set_digest_ok:
  assumes ok: "trunk_store_ok E d" and f: "sets_columns f dir (''digest'', Some u, Some r, Some c)"
    and s: "sealed_for E org i dir (u, r, c, h)" and st: "set_digest f dir u r h i org now d = Inr (y, d')"
  shows "trunk_store_ok E d'"
proof (cases "list_ex (own_trunk i org) (trunks d)")
  case True
  let ?gs = "trunk_digest_credentials d"
  have T: "trunks_ok (trunks d)" "credentials_ok E (trunks d) ?gs" and ids: "distinct (map t_id (trunks d))"
    using ok by (simp_all add: trunk_store_ok_def trunks_ok_def)
  from st True obtain x d1 rows where ch: "change_trunk (own_trunk i org) f now d = Inr (x, d1)"
    and up1: "upsert_digest i org dir u r h now (trunk_digest_credentials d1) = Inr rows"
    and d': "d' = d1\<lparr>trunk_digest_credentials := rows\<rparr>"
    by (auto simp: set_digest_def split: sum.splits)
  obtain t where t: "t \<in> set (trunks d)" "t_id t = i" "t_organization_id t = org" "t_id x = i" "t_organization_id x = org"
    "auth_columns dir x = (''digest'', Some u, Some r, Some c)"
    "\<forall>other \<in> {''inbound'', ''outbound''} - {dir}. auth_columns other x = auth_columns other t"
    "d1 = d\<lparr>trunks := replace_trunk x (trunks d)\<rparr>" "trunk_checks x" "trunk_name_free (trunks d) x"
    by (rule sets_columns_row [OF f ids ch])
  have up: "upsert_digest i org dir u r h now ?gs = Inr rows" using up1 by (simp add: t(8))
  have orgs: "g_organization_id g = org" if "g \<in> set ?gs" "has_digest i dir g" for g
    using credential_owner [OF T that(1) t(1)] that(2) t by (auto simp: has_digest_def credential_of_def own_trunk_def)
  note U = upsert_rows [OF up orgs]
  have here: "x \<in> set (replace_trunk x (trunks d))" using t by (auto simp: in_replace_trunk)
  have owned: "digest_checks q \<and> (\<exists>y \<in> set (replace_trunk x (trunks d)). credential_of E y q)" if "q \<in> set rows" for q
  proof (cases "is_digest i org dir u r h q")
    case q: True
    then have "credential_of E x q" using t s by (simp add: credential_of_def own_trunk_def is_digest_def)
    with here U(5) [OF _ _ q] show ?thesis by blast
  next
    case False
    then have "q \<in> set ?gs" "\<not> has_digest i dir q" using U(1) that by blast+
    then show ?thesis using T(2) kept_credential [OF T _ _ t(1,2,4) _ t(7)] t by (auto simp: credentials_ok_def)
  qed
  have needs: "\<exists>g \<in> set rows. has_digest (t_id y) o' g"
    if y: "y \<in> set (replace_trunk x (trunks d))" "o' \<in> {''inbound'', ''outbound''}" "fst (auth_columns o' y) = ''digest''" for y o'
  proof (cases "t_id y = i \<and> o' = dir")
    case False
    obtain z where z: "z \<in> set (trunks d)" "t_id z = t_id y" "auth_columns o' z = auth_columns o' y"
      by (rule replaced_columns [OF y(1,2) False t(1,2,4,7)])
    obtain g where "g \<in> set ?gs" "has_digest (t_id y) o' g"
      using credential_exists [OF T(2) z(1) y(2)] y(3) z(2,3) by auto
    then show ?thesis using U(4) by blast
  qed (use U(3) in simp)
  have "inbound_identity_free rows q" if "q \<in> set rows" for q
    using U(1,6) T(2) that by (intro identities_extended [of rows i org dir u r h ?gs]) (auto simp: credentials_ok_def)
  with U(2) T(2) owned needs have "credentials_ok E (replace_trunk x (trunks d)) rows"
    unfolding credentials_ok_def by blast
  with ok t ids show ?thesis
    by (simp add: d' trunk_store_ok_def trunks_ok_replace other_tables_replace)
qed (use ok st in \<open>simp add: set_digest_def\<close>)

lemma clear_digest_ok:
  assumes ok: "trunk_store_ok E d" and f: "sets_columns f dir (m, None, None, None)" and m: "m \<noteq> ''digest''"
    and st: "clear_digest f dir i org now d = Inr (y, d')"
  shows "trunk_store_ok E d'"
proof (cases "list_ex (own_trunk i org) (trunks d)")
  case True
  let ?gs = "trunk_digest_credentials d" and ?rows = "filter (\<lambda>g. \<not> has_digest i dir g) (trunk_digest_credentials d)"
  have T: "trunks_ok (trunks d)" "credentials_ok E (trunks d) ?gs" and ids: "distinct (map t_id (trunks d))"
    using ok by (simp_all add: trunk_store_ok_def trunks_ok_def)
  from st True obtain x d1 where ch: "change_trunk (own_trunk i org) f now d = Inr (x, d1)"
    and d': "d' = d1\<lparr>trunk_digest_credentials := filter (\<lambda>g. \<not> has_digest i dir g) (trunk_digest_credentials d1)\<rparr>"
    by (auto simp: clear_digest_def split: sum.splits)
  obtain t where t: "t \<in> set (trunks d)" "t_id t = i" "t_organization_id t = org" "t_id x = i" "t_organization_id x = org"
    "auth_columns dir x = (m, None, None, None)"
    "\<forall>other \<in> {''inbound'', ''outbound''} - {dir}. auth_columns other x = auth_columns other t"
    "d1 = d\<lparr>trunks := replace_trunk x (trunks d)\<rparr>" "trunk_checks x" "trunk_name_free (trunks d) x"
    by (rule sets_columns_row [OF f ids ch])
  have owned: "digest_checks q \<and> inbound_identity_free ?rows q \<and> (\<exists>y \<in> set (replace_trunk x (trunks d)). credential_of E y q)"
    if "q \<in> set ?rows" for q
    using that T(2) kept_credential [OF T _ _ t(1,2,4) _ t(7), of q] t
    by (auto simp: credentials_ok_def inbound_identity_free_def list_all_iff)
  have needs: "\<exists>g \<in> set ?rows. has_digest (t_id y) o' g"
    if y: "y \<in> set (replace_trunk x (trunks d))" "o' \<in> {''inbound'', ''outbound''}" "fst (auth_columns o' y) = ''digest''" for y o'
  proof -
    have ne: "\<not> (t_id y = i \<and> o' = dir)"
      using y(1,3) t(4,6) m by (auto simp: in_replace_trunk)
    obtain z where z: "z \<in> set (trunks d)" "t_id z = t_id y" "auth_columns o' z = auth_columns o' y"
      by (rule replaced_columns [OF y(1,2) ne t(1,2,4,7)])
    obtain g where "g \<in> set ?gs" "has_digest (t_id y) o' g"
      using credential_exists [OF T(2) z(1) y(2)] y(3) z(2,3) by auto
    with ne show ?thesis by (auto simp: has_digest_def)
  qed
  have "distinct (map (\<lambda>g. (g_trunk_id g, g_direction g)) ?rows)"
    using T(2) by (simp add: credentials_ok_def distinct_map_filter)
  with owned needs have "credentials_ok E (replace_trunk x (trunks d)) ?rows"
    unfolding credentials_ok_def by blast
  with ok t ids show ?thesis
    by (simp add: d' trunk_store_ok_def trunks_ok_replace other_tables_replace)
qed (use ok st in \<open>simp add: clear_digest_def\<close>)

subsection \<open>A trunk is created\<close>

definition credentials_owned :: "env \<Rightarrow> trunk list \<Rightarrow> trunk_digest_credential list \<Rightarrow> bool" where
  "credentials_owned E ts gs \<longleftrightarrow>
     distinct (map (\<lambda>g. (g_trunk_id g, g_direction g)) gs) \<and>
     (\<forall>g \<in> set gs. digest_checks g \<and> inbound_identity_free gs g \<and> (\<exists>t \<in> set ts. credential_of E t g))"

lemma credentials_ok_iff:
  "credentials_ok E ts gs \<longleftrightarrow> credentials_owned E ts gs \<and>
     (\<forall>t \<in> set ts. \<forall>dir \<in> {''inbound'', ''outbound''}. fst (auth_columns dir t) = ''digest'' \<longrightarrow>
        (\<exists>g \<in> set gs. has_digest (t_id t) dir g))"
  unfolding credentials_ok_def credentials_owned_def by blast

lemma insert_digest_owned:
  assumes ins: "InsertTrunkDigestCredential i org dir u r h now d = Inr (y, d')"
    and own: "credentials_owned E (trunks d) (trunk_digest_credentials d)"
    and t: "t \<in> set (trunks d)" "t_id t = i" "t_organization_id t = org" "auth_columns dir t = (''digest'', Some u, Some r, Some c)"
    and s: "sealed_for E org i dir (u, r, c, h)"
  shows "d' = d\<lparr>trunk_digest_credentials := trunk_digest_credentials d @ [digest_row i org dir u r h now]\<rparr>"
    and "credentials_owned E (trunks d) (trunk_digest_credentials d')"
proof -
  let ?gs = "trunk_digest_credentials d" and ?g = "digest_row i org dir u r h now"
  have "list_ex (own_trunk i org) (trunks d)" using t by (auto simp: list_ex_iff own_trunk_def)
  then have chk: "digest_checks ?g" "\<not> list_ex (has_digest i dir) ?gs" "inbound_identity_free ?gs ?g"
    and d': "d' = d\<lparr>trunk_digest_credentials := ?gs @ [?g]\<rparr>"
    using ins by (auto simp: InsertTrunkDigestCredential_def Let_def split: if_splits)
  show "d' = d\<lparr>trunk_digest_credentials := ?gs @ [?g]\<rparr>" by (rule d')
  have g: "is_digest i org dir u r h ?g" by (simp add: is_digest_def digest_row_def)
  have "credential_of E t ?g" using t s by (simp add: credential_of_def own_trunk_def digest_row_def)
  moreover have "inbound_identity_free (?gs @ [?g]) q" if "q \<in> set (?gs @ [?g])" for q
    by (rule identities_extended [of _ i org dir u r h ?gs]) (use own g chk(3) that in \<open>auto simp: credentials_owned_def\<close>)
  moreover have "distinct (map (\<lambda>g. (g_trunk_id g, g_direction g)) (?gs @ [?g]))"
    using own chk(2) by (auto simp: credentials_owned_def digest_row_def has_digest_def list_ex_iff)
  ultimately show "credentials_owned E (trunks d) (trunk_digest_credentials d')"
    using own chk(1) t(1) by (auto simp: credentials_owned_def d')
qed

lemma optional_digest_owned:
  assumes ins: "case cred of None \<Rightarrow> d' = d | Some (u, r, _, h) \<Rightarrow> InsertTrunkDigestCredential i org dir u r h now d = Inr ((), d')"
    and own: "credentials_owned E (trunks d) (trunk_digest_credentials d)"
    and t: "t \<in> set (trunks d)" "t_id t = i" "t_organization_id t = org"
    and cols: "\<And>u r c h. cred = Some (u, r, c, h) \<Longrightarrow> auth_columns dir t = (''digest'', Some u, Some r, Some c)"
    and s: "\<And>s. cred = Some s \<Longrightarrow> sealed_for E org i dir s"
  obtains gs where "d' = d\<lparr>trunk_digest_credentials := trunk_digest_credentials d @ gs\<rparr>"
    "credentials_owned E (trunks d) (trunk_digest_credentials d')" "cred \<noteq> None \<longrightarrow> (\<exists>g \<in> set gs. has_digest i dir g)"
proof (cases cred)
  case None
  with ins own show ?thesis by (intro that [of "[]"]) auto
next
  case (Some x)
  obtain u r c h where x: "x = (u, r, c, h)" by (cases x) auto
  have ins': "InsertTrunkDigestCredential i org dir u r h now d = Inr ((), d')" using ins Some x by simp
  note I = insert_digest_owned [OF ins' own t cols s]
  show ?thesis
    by (rule that [OF I(1)]) (use Some x in \<open>auto simp: has_digest_def digest_row_def intro: I(2)\<close>)
qed

lemma create_columns:
  assumes "t = new_trunk i org (create_params req codecs outbound inbound) now" and "trunk_checks t"
  shows "outbound = Some (u, r, c, h) \<Longrightarrow> auth_columns ''outbound'' t = (''digest'', Some u, Some r, Some c)"
    and "inbound = Some (u, r, c, h) \<Longrightarrow> auth_columns ''inbound'' t = (''digest'', Some u, Some r, Some c)"
    and "outbound = None \<Longrightarrow> fst (auth_columns ''outbound'' t) \<noteq> ''digest''"
    and "inbound = None \<Longrightarrow> fst (auth_columns ''inbound'' t) \<noteq> ''digest''"
  using assms(2) unfolding assms(1)
  by (auto simp: auth_columns_def new_trunk_def create_params_def trunk_checks_def auth_fields_ok_def or_else_def opt_text_def)

lemma create_rows_steps:
  assumes "create_rows i org req codecs outbound inbound now d = Inr (t, d')"
  obtains d1 d2 where "CreateTrunk i org (create_params req codecs outbound inbound) now d = Inr (t, d1)"
    "case outbound of None \<Rightarrow> d2 = d1 | Some (u, r, _, h) \<Rightarrow> InsertTrunkDigestCredential i org ''outbound'' u r h now d1 = Inr ((), d2)"
    "case inbound of None \<Rightarrow> d' = d2 | Some (u, r, _, h) \<Rightarrow> InsertTrunkDigestCredential i org ''inbound'' u r h now d2 = Inr ((), d')"
proof -
  obtain d1 d2 where c: "CreateTrunk i org (create_params req codecs outbound inbound) now d = Inr (t, d1)"
    and o': "(case outbound of None \<Rightarrow> Inr d1 | Some (u, r, _, h) \<Rightarrow>
       map_sum id snd (InsertTrunkDigestCredential i org ''outbound'' u r h now d1)) = Inr d2"
    and n: "(case inbound of None \<Rightarrow> Inr d2 | Some (u, r, _, h) \<Rightarrow>
       map_sum id snd (InsertTrunkDigestCredential i org ''inbound'' u r h now d2)) = Inr d'"
    using assms by (auto simp: create_rows_def andalso_def split: sum.splits)
  then show ?thesis
    by (intro that [OF c, of d2]) (auto simp: map_sum_def split: option.splits prod.splits sum.splits)
qed

lemma CreateTrunk_row:
  assumes "CreateTrunk i org p now d = Inr (t, d')"
  shows "t = new_trunk i org p now" "d' = d\<lparr>trunks := trunks d @ [t]\<rparr>" "trunk_checks t" "i \<notin> t_id ` set (trunks d)"
    "trunk_name_free (trunks d) t" "t_id t = i" "t_organization_id t = org"
  using assms by (auto simp: CreateTrunk_def Let_def new_trunk_def split: if_splits)

lemma created_trunk_ok:
  assumes ok: "trunk_store_ok E d" and c: "create_rows i org req codecs outbound inbound now d = Inr (t, d')"
    and so: "\<And>s. outbound = Some s \<Longrightarrow> sealed_for E org i ''outbound'' s"
    and si: "\<And>s. inbound = Some s \<Longrightarrow> sealed_for E org i ''inbound'' s"
  shows "trunk_store_ok E d'"
proof -
  from c obtain d1 d2 where ct: "CreateTrunk i org (create_params req codecs outbound inbound) now d = Inr (t, d1)"
    and o': "case outbound of None \<Rightarrow> d2 = d1 | Some (u, r, _, h) \<Rightarrow> InsertTrunkDigestCredential i org ''outbound'' u r h now d1 = Inr ((), d2)"
    and n: "case inbound of None \<Rightarrow> d' = d2 | Some (u, r, _, h) \<Rightarrow> InsertTrunkDigestCredential i org ''inbound'' u r h now d2 = Inr ((), d')"
    by (rule create_rows_steps)
  note t = CreateTrunk_row [OF ct] and cols = create_columns [OF CreateTrunk_row(1,3) [OF ct]]
  have mem: "t \<in> set (trunks d1)" by (simp add: t(2))
  have own1: "credentials_owned E (trunks d1) (trunk_digest_credentials d1)"
    using ok by (auto simp: t(2) trunk_store_ok_def credentials_ok_iff credentials_owned_def)
  obtain gs where d2: "d2 = d1\<lparr>trunk_digest_credentials := trunk_digest_credentials d1 @ gs\<rparr>"
    and own2: "credentials_owned E (trunks d1) (trunk_digest_credentials d2)"
    and g2: "outbound \<noteq> None \<longrightarrow> (\<exists>g \<in> set gs. has_digest i ''outbound'' g)"
    by (rule optional_digest_owned [OF o' own1 mem t(6,7) cols(1) so])
  have mem2: "t \<in> set (trunks d2)" and own2': "credentials_owned E (trunks d2) (trunk_digest_credentials d2)"
    using mem own2 by (simp_all add: d2)
  obtain gs' where d3: "d' = d2\<lparr>trunk_digest_credentials := trunk_digest_credentials d2 @ gs'\<rparr>"
    and own3: "credentials_owned E (trunks d2) (trunk_digest_credentials d')"
    and g3: "inbound \<noteq> None \<longrightarrow> (\<exists>g \<in> set gs'. has_digest i ''inbound'' g)"
    by (rule optional_digest_owned [OF n own2' mem2 t(6,7) cols(2) si])
  have d': "d' = d\<lparr>trunks := trunks d @ [t], trunk_digest_credentials := trunk_digest_credentials d @ gs @ gs'\<rparr>"
    by (simp add: d3 d2 t(2))
  have own: "credentials_owned E (trunks d @ [t]) (trunk_digest_credentials d @ gs @ gs')"
    using own3 by (simp add: d3 d2 t(2))
  have "\<exists>g \<in> set (gs @ gs'). has_digest i dir g"
    if "dir \<in> {''inbound'', ''outbound''}" "fst (auth_columns dir t) = ''digest''" for dir
  proof (cases "dir = ''inbound''")
    case True
    then have "inbound \<noteq> None" using that cols(4) by blast
    with g3 True show ?thesis by auto
  next
    case False
    then have "dir = ''outbound''" "outbound \<noteq> None" using that cols(3) by blast+
    with g2 show ?thesis by auto
  qed
  with own ok t(6) have "credentials_ok E (trunks d @ [t]) (trunk_digest_credentials d @ gs @ gs')"
    by (auto simp: credentials_ok_iff trunk_store_ok_def)
  moreover have "trunks_ok (trunks d @ [t])"
    using ok t(3-6) by (auto simp: trunk_store_ok_def trunks_ok_def trunk_name_free_def list_all_iff)
  ultimately show ?thesis
    using ok by (simp add: d' trunk_store_ok_def endpoints_ok_def sources_ok_def)
qed

subsection \<open>Endpoints and source networks\<close>

lemma endpoint_added_ok:
  assumes "endpoints_ok ts es" and "trunk_endpoint_checks e" and "list_ex (own_trunk (e_trunk_id e) (e_organization_id e)) ts"
    and "\<not> list_ex (\<lambda>x. e_id x = e_id e \<or> same_target x e) es"
  shows "endpoints_ok ts (es @ [e])"
  using assms by (auto simp: endpoints_ok_def list_ex_iff same_target_def)

text \<open>Endpoint rows change in place, each along a function that keeps key and owner.\<close>

lemma endpoint_changed_ok:
  assumes ok: "endpoints_ok ts es" and ch: "change_endpoint P f now d = Inr (e, d')" and d: "trunk_endpoints d = es"
    and P: "\<And>x. P x \<Longrightarrow> e_id x = i"
    and f: "\<And>x. e_id (f x) = e_id x \<and> e_trunk_id (f x) = e_trunk_id x \<and> e_organization_id (f x) = e_organization_id x"
  shows "endpoints_ok ts (trunk_endpoints d')"
    and "\<exists>rows. d' = d\<lparr>trunk_endpoints := rows\<rparr>"
proof -
  obtain rows where u: "update_one P (\<lambda>e. (f e)\<lparr>e_updated_at := now\<rparr>) es = Inr (e, rows)"
    and chk: "trunk_endpoint_checks e" "\<not> list_ex (\<lambda>x. e_id x \<noteq> e_id e \<and> same_target x e) es"
    and d': "d' = d\<lparr>trunk_endpoints := rows\<rparr>"
    using ch by (auto simp: change_endpoint_def d split: sum.splits if_splits)
  from u obtain x where x: "x \<in> set es" "P x" "e = (f x)\<lparr>e_updated_at := now\<rparr>"
    and rows: "rows = update_where P (\<lambda>e. (f e)\<lparr>e_updated_at := now\<rparr>) es" by (rule update_one_Inr)
  show "\<exists>rows. d' = d\<lparr>trunk_endpoints := rows\<rparr>" using d' by blast
  have ids: "distinct (map e_id es)" using ok by (simp add: endpoints_ok_def)
  have at: "y = x" if "y \<in> set es" "P y" for y using distinct_key [OF ids that(1) x(1)] P that x by simp
  have mem: "y = e \<or> y \<in> set es \<and> e_id y \<noteq> e_id e" if "y \<in> set rows" for y
    using that unfolding rows
  proof (rule in_update_whereE)
    fix r assume "r \<in> set es" "P r" "y = (f r)\<lparr>e_updated_at := now\<rparr>"
    with at x(3) show ?thesis by blast
  next
    assume "y \<in> set es" "\<not> P y"
    then show ?thesis using distinct_key [OF ids _ x(1), of y] x(2,3) f by auto
  qed
  have own: "list_ex (own_trunk (e_trunk_id e) (e_organization_id e)) ts"
    using ok x f by (simp add: endpoints_ok_def)
  have "map e_id rows = map e_id es" unfolding rows by (rule map_update_where) (simp add: f)
  moreover have "same_target y e \<longrightarrow> e_id y = e_id e" if "y \<in> set es" for y
    using chk(2) that by (auto simp: list_ex_iff)
  moreover have "same_target a b \<longleftrightarrow> same_target b a" for a b by (auto simp: same_target_def)
  ultimately show "endpoints_ok ts (trunk_endpoints d')"
    using ok chk(1) own unfolding endpoints_ok_def d' by (auto dest!: mem)
qed

lemma endpoints_filter: "endpoints_ok ts es \<Longrightarrow> endpoints_ok ts (filter P es)"
  by (auto simp: endpoints_ok_def distinct_map_filter)

lemma sources_filter: "sources_ok ts ss \<Longrightarrow> sources_ok ts (filter P ss)"
  by (auto simp: sources_ok_def distinct_map_filter)

lemma endpoint_statements_ok:
  assumes ok: "trunk_store_ok E d"
  shows "CreateTrunkEndpoint n org i host p now d = Inr (e, d') \<Longrightarrow> trunk_store_ok E d'"
    and "UpdateTrunkEndpoint p n i org now d = Inr (e, d') \<Longrightarrow> trunk_store_ok E d'"
    and "DeleteTrunkEndpoint n i org now d = Inr (e, d') \<Longrightarrow> trunk_store_ok E d'"
    and "CreateTrunkSourceIP n org i cidr now d = Inr (s, d') \<Longrightarrow> trunk_store_ok E d'"
    and "DeleteTrunkSourceIP n i org now d = Inr (u, d') \<Longrightarrow> trunk_store_ok E d'"
proof -
  have E: "endpoints_ok (trunks d) (trunk_endpoints d)" and S: "sources_ok (trunks d) (trunk_source_ips d)"
    using ok by (simp_all add: trunk_store_ok_def)
  show "trunk_store_ok E d'" if "CreateTrunkEndpoint n org i host p now d = Inr (e, d')"
    using that ok endpoint_added_ok [OF E, of "new_endpoint n org i host p now"]
    by (auto simp: CreateTrunkEndpoint_def Let_def new_endpoint_def trunk_store_ok_def split: if_splits)
  show "trunk_store_ok E d'" if "UpdateTrunkEndpoint p n i org now d = Inr (e, d')"
  proof -
    note ch = that [unfolded UpdateTrunkEndpoint_def]
    have f: "e_id (updated_endpoint p x) = e_id x \<and> e_trunk_id (updated_endpoint p x) = e_trunk_id x \<and>
        e_organization_id (updated_endpoint p x) = e_organization_id x" for x
      by (simp add: updated_endpoint_def reset_health_def Let_def)
    note C = endpoint_changed_ok [OF E ch HOL.refl, of n, OF _ f]
    show ?thesis using C ok by (force simp: own_endpoint_def trunk_store_ok_def)
  qed
  show "trunk_store_ok E d'" if "DeleteTrunkEndpoint n i org now d = Inr (e, d')"
    using that ok endpoints_filter [OF E] by (auto simp: DeleteTrunkEndpoint_def trunk_store_ok_def split: option.splits if_splits)
  show "trunk_store_ok E d'" if "CreateTrunkSourceIP n org i cidr now d = Inr (s, d')"
  proof -
    let ?s = "\<lparr>si_id = n, si_organization_id = org, si_trunk_id = i, si_cidr = cidr, si_created_at = now\<rparr>"
    have "list_ex (own_trunk i org) (trunks d)"
      "\<forall>s \<in> set (trunk_source_ips d). si_id s \<noteq> n \<and> (si_trunk_id s = i \<longrightarrow> si_cidr s \<noteq> cidr)"
      and d': "d' = d\<lparr>trunk_source_ips := trunk_source_ips d @ [?s]\<rparr>"
      using that by (auto simp: CreateTrunkSourceIP_def Let_def list_ex_iff split: if_splits)
    then have "sources_ok (trunks d) (trunk_source_ips d @ [?s])" using S by (auto simp: sources_ok_def)
    then show ?thesis using ok by (simp add: d' trunk_store_ok_def)
  qed
  show "trunk_store_ok E d'" if "DeleteTrunkSourceIP n i org now d = Inr (u, d')"
    using that ok sources_filter [OF S] by (auto simp: DeleteTrunkSourceIP_def trunk_store_ok_def)
qed

lemma seal_credential_sealed:
  assumes "aead_correct E" and "\<forall>t. length (random_bytes E t) = NonceSize"
    and "run_state (seal_credential E (credentialScope E org i dir) msg cred) w = (Inr s, w')"
  shows "sealed_for E org i dir s"
proof -
  obtain c where "fst (run_state (EncryptForScope E (credentialScope E org i dir) (dc_secret cred)) w) = Inr c"
    and "s = (dc_username cred, dc_realm cred, c, ComputeHA1MD5 E (dc_username cred) (dc_realm cred) (dc_secret cred))"
    using assms(3)
    by (cases "run_state (EncryptForScope E (credentialScope E org i dir) (dc_secret cred)) w")
       (auto simp: seal_credential_def split: sum.splits)
  with EncryptForScope_opens [OF assms(1,2)] show ?thesis by (auto simp: sealed_for_def)
qed

text \<open>The relation: sound cryptography keeps sound tables sound.\<close>

definition crypto_ok :: "env \<Rightarrow> bool" where
  "crypto_ok E \<longleftrightarrow> aead_correct E \<and> (\<forall>t. length (random_bytes E t) = NonceSize)"

definition keeps_store :: "env \<Rightarrow> world \<Rightarrow> world \<Rightarrow> bool" where
  "keeps_store E w w' \<longleftrightarrow> (crypto_ok E \<and> trunk_store_ok E (database w) \<longrightarrow> trunk_store_ok E (database w'))"

interpretation store_keeping: trunk_changes "keeps_store E" E "\<lambda>_. True" "\<lambda>org i dir s. crypto_ok E \<longrightarrow> sealed_for E org i dir s"
  for E
proof unfold_locales
  show "keeps_store E w (w'\<lparr>database := d\<lparr>outbox := ob\<rparr>\<rparr>) = keeps_store E w (w'\<lparr>database := d\<rparr>)" for w w' d ob
    by (simp add: keeps_store_def trunk_store_ok_def)
next
  fix org i dir msg cred w s w'
  assume "run_state (seal_credential E (credentialScope E org i dir) msg cred) w = (Inr s, w')"
  then show "crypto_ok E \<longrightarrow> sealed_for E org i dir s"
    unfolding crypto_ok_def by (blast intro: seal_credential_sealed)
next
  fix org i req codecs outbound inbound now x d and w :: world
  assume c: "create_rows i org req codecs outbound inbound now (database w) = Inr (x, d)"
    and o': "\<And>s. outbound = Some s \<Longrightarrow> crypto_ok E \<longrightarrow> sealed_for E org i ''outbound'' s"
    and n: "\<And>s. inbound = Some s \<Longrightarrow> crypto_ok E \<longrightarrow> sealed_for E org i ''inbound'' s"
  have "trunk_store_ok E d" if "crypto_ok E" "trunk_store_ok E (database w)"
    by (rule created_trunk_ok [OF that(2) c]) (use o' n that in blast)+
  then show "keeps_store E w (w\<lparr>database := d\<rparr>)" by (simp add: keeps_store_def)
next
  fix org f i P now x d and w :: world
  assume "keeps_auth f" "change_trunk (\<lambda>t. own_trunk i org t \<and> P t) f now (database w) = Inr (x, d)"
  then show "keeps_store E w (w\<lparr>database := d\<rparr>)" using changed_trunk_ok by (simp add: keeps_store_def) blast
next
  fix org i u r c h now y d and w :: world
  assume s: "crypto_ok E \<longrightarrow> sealed_for E org i ''outbound'' (u, r, c, h)"
    and st: "SetTrunkOutboundDigestAuth u r c h i org now (database w) = Inr (y, d)"
  have "trunk_store_ok E d" if "crypto_ok E" "trunk_store_ok E (database w)"
    using s that by (intro set_digest_ok [OF that(2) with_auth_sets(1) _ st [unfolded SetTrunkOutboundDigestAuth_def]]) simp
  then show "keeps_store E w (w\<lparr>database := d\<rparr>)" by (simp add: keeps_store_def)
next
  fix org i u r c h now y d and w :: world
  assume s: "crypto_ok E \<longrightarrow> sealed_for E org i ''inbound'' (u, r, c, h)"
    and st: "SetTrunkInboundDigestAuth u r c h i org now (database w) = Inr (y, d)"
  have "trunk_store_ok E d" if "crypto_ok E" "trunk_store_ok E (database w)"
    using s that by (intro set_digest_ok [OF that(2) with_auth_sets(2) _ st [unfolded SetTrunkInboundDigestAuth_def]]) simp
  then show "keeps_store E w (w\<lparr>database := d\<rparr>)" by (simp add: keeps_store_def)
next
  fix org i now y d and w :: world
  assume st: "ClearTrunkOutboundAuth i org now (database w) = Inr (y, d)"
  have "trunk_store_ok E d" if "trunk_store_ok E (database w)"
    by (rule clear_digest_ok [OF that with_auth_sets(1) _ st [unfolded ClearTrunkOutboundAuth_def]]) simp
  then show "keeps_store E w (w\<lparr>database := d\<rparr>)" by (simp add: keeps_store_def)
next
  fix org i now y d and w :: world
  assume st: "SetTrunkInboundIPAuth i org now (database w) = Inr (y, d)"
  have "trunk_store_ok E d" if "trunk_store_ok E (database w)"
    by (rule clear_digest_ok [OF that with_auth_sets(2) _ st [unfolded SetTrunkInboundIPAuth_def]]) simp
  then show "keeps_store E w (w\<lparr>database := d\<rparr>)" by (simp add: keeps_store_def)
qed (auto simp: keeps_store_def dest: endpoint_statements_ok)

section \<open>Isolation of tenants\<close>

definition foreign_rows ::
  "uuid \<Rightarrow> db \<Rightarrow> trunk list \<times> trunk_endpoint list \<times> trunk_digest_credential list \<times> trunk_source_ip list" where
  "foreign_rows org d =
     (filter (\<lambda>t. t_organization_id t \<noteq> org) (trunks d), filter (\<lambda>e. e_organization_id e \<noteq> org) (trunk_endpoints d),
      filter (\<lambda>g. g_organization_id g \<noteq> org) (trunk_digest_credentials d),
      filter (\<lambda>s. si_organization_id s \<noteq> org) (trunk_source_ips d))"

lemma filter_update_where:
  "(\<And>r. r \<in> set rows \<Longrightarrow> P r \<Longrightarrow> \<not> Q r \<and> \<not> Q (f r)) \<Longrightarrow> filter Q (update_where P f rows) = filter Q rows"
  by (induction rows) (auto simp: update_where_def)

lemma filter_filter_other: "(\<And>r. r \<in> set rows \<Longrightarrow> Q r \<Longrightarrow> P r) \<Longrightarrow> filter Q (filter P rows) = filter Q rows"
  by (induction rows) auto

lemma foreign_trunks_changed:
  assumes "change_trunk P f now d = Inr (x, d')" and "\<And>t. P t \<Longrightarrow> t_organization_id t = org"
    and "\<And>t. t_organization_id (f t) = t_organization_id t"
  shows "\<exists>rows. d' = d\<lparr>trunks := rows\<rparr> \<and>
    filter (\<lambda>t. t_organization_id t \<noteq> org) rows = filter (\<lambda>t. t_organization_id t \<noteq> org) (trunks d)"
proof -
  obtain rows where "update_one P (\<lambda>t. (f t)\<lparr>t_updated_at := now\<rparr>) (trunks d) = Inr (x, rows)" and d': "d' = d\<lparr>trunks := rows\<rparr>"
    using assms(1) by (auto simp: change_trunk_def split: sum.splits if_splits)
  then have rows: "rows = update_where P (\<lambda>t. (f t)\<lparr>t_updated_at := now\<rparr>) (trunks d)" by (auto elim: update_one_Inr)
  have "filter (\<lambda>t. t_organization_id t \<noteq> org) rows = filter (\<lambda>t. t_organization_id t \<noteq> org) (trunks d)"
    unfolding rows by (rule filter_update_where) (simp add: assms(2,3))
  with d' show ?thesis by blast
qed

lemma foreign_endpoints_changed:
  assumes "change_endpoint P f now d = Inr (x, d')" and "\<And>e. P e \<Longrightarrow> e_organization_id e = org"
    and "\<And>e. e_organization_id (f e) = e_organization_id e"
  shows "foreign_rows org d' = foreign_rows org d"
proof -
  obtain rows where "update_one P (\<lambda>e. (f e)\<lparr>e_updated_at := now\<rparr>) (trunk_endpoints d) = Inr (x, rows)"
    and d': "d' = d\<lparr>trunk_endpoints := rows\<rparr>"
    using assms(1) by (auto simp: change_endpoint_def split: sum.splits if_splits)
  then have rows: "rows = update_where P (\<lambda>e. (f e)\<lparr>e_updated_at := now\<rparr>) (trunk_endpoints d)" by (auto elim: update_one_Inr)
  have "filter (\<lambda>e. e_organization_id e \<noteq> org) rows = filter (\<lambda>e. e_organization_id e \<noteq> org) (trunk_endpoints d)"
    unfolding rows by (rule filter_update_where) (simp add: assms(2,3))
  then show ?thesis by (simp add: foreign_rows_def d')
qed

lemma own_credentials:
  assumes "trunk_store_ok E d" and "list_ex (own_trunk i org) (trunks d)" and "g \<in> set (trunk_digest_credentials d)"
    and "has_digest i dir g"
  shows "g_organization_id g = org"
proof -
  obtain t where "t \<in> set (trunks d)" "t_id t = i" "t_organization_id t = org"
    using assms(2) by (auto simp: list_ex_iff own_trunk_def)
  with credential_owner [of "trunks d" E "trunk_digest_credentials d" g t] assms(1,3,4) show ?thesis
    by (auto simp: trunk_store_ok_def has_digest_def credential_of_def own_trunk_def)
qed

lemma foreign_set_digest:
  assumes ok: "trunk_store_ok E d" and f: "sets_columns f dir cols" and st: "set_digest f dir u r h i org now d = Inr (y, d')"
  shows "foreign_rows org d' = foreign_rows org d"
proof (cases "list_ex (own_trunk i org) (trunks d)")
  case True
  let ?Q = "\<lambda>g. g_organization_id g \<noteq> org"
  obtain x d1 rows where ch: "change_trunk (own_trunk i org) f now d = Inr (x, d1)"
    and up: "upsert_digest i org dir u r h now (trunk_digest_credentials d1) = Inr rows"
    and d': "d' = d1\<lparr>trunk_digest_credentials := rows\<rparr>"
    using st True by (auto simp: set_digest_def split: sum.splits)
  obtain ts where d1: "d1 = d\<lparr>trunks := ts\<rparr>"
    and ts: "filter (\<lambda>t. t_organization_id t \<noteq> org) ts = filter (\<lambda>t. t_organization_id t \<noteq> org) (trunks d)"
    using foreign_trunks_changed [OF ch, of org] f by (auto simp: own_trunk_def sets_columns_def)
  have "filter ?Q (update_where (has_digest i dir) k (trunk_digest_credentials d)) = filter ?Q (trunk_digest_credentials d)"
    if "\<And>g. g_organization_id (k g) = g_organization_id g" for k
    by (rule filter_update_where) (use own_credentials [OF ok True] that in auto)
  with up have "filter ?Q rows = filter ?Q (trunk_digest_credentials d)"
    by (auto simp: upsert_digest_def Let_def d1 digest_row_def split: if_splits)
  with ts show ?thesis by (simp add: foreign_rows_def d' d1)
qed (use st in \<open>simp add: set_digest_def\<close>)

lemma foreign_clear_digest:
  assumes ok: "trunk_store_ok E d" and f: "sets_columns f dir cols" and st: "clear_digest f dir i org now d = Inr (y, d')"
  shows "foreign_rows org d' = foreign_rows org d"
proof (cases "list_ex (own_trunk i org) (trunks d)")
  case True
  obtain x d1 where ch: "change_trunk (own_trunk i org) f now d = Inr (x, d1)"
    and d': "d' = d1\<lparr>trunk_digest_credentials := filter (\<lambda>g. \<not> has_digest i dir g) (trunk_digest_credentials d1)\<rparr>"
    using st True by (auto simp: clear_digest_def split: sum.splits)
  obtain ts where d1: "d1 = d\<lparr>trunks := ts\<rparr>"
    and ts: "filter (\<lambda>t. t_organization_id t \<noteq> org) ts = filter (\<lambda>t. t_organization_id t \<noteq> org) (trunks d)"
    using foreign_trunks_changed [OF ch, of org] f by (auto simp: own_trunk_def sets_columns_def)
  have "filter (\<lambda>g. g_organization_id g \<noteq> org) (filter (\<lambda>g. \<not> has_digest i dir g) (trunk_digest_credentials d)) =
      filter (\<lambda>g. g_organization_id g \<noteq> org) (trunk_digest_credentials d)"
    by (rule filter_filter_other) (use own_credentials [OF ok True] in auto)
  with ts show ?thesis by (simp add: foreign_rows_def d' d1)
qed (use st in \<open>simp add: clear_digest_def\<close>)

lemma foreign_create:
  assumes "create_rows i org req codecs outbound inbound now d = Inr (t, d')"
  shows "foreign_rows org d' = foreign_rows org d"
proof -
  have ins: "foreign_rows org b = foreign_rows org a" if "InsertTrunkDigestCredential i org dir u r h now a = Inr (y, b)" for dir u r h a b y
    using that by (auto simp: InsertTrunkDigestCredential_def Let_def foreign_rows_def digest_row_def split: if_splits)
  from assms obtain d1 d2 where ct: "CreateTrunk i org (create_params req codecs outbound inbound) now d = Inr (t, d1)"
    and o': "case outbound of None \<Rightarrow> d2 = d1 | Some (u, r, _, h) \<Rightarrow> InsertTrunkDigestCredential i org ''outbound'' u r h now d1 = Inr ((), d2)"
    and n: "case inbound of None \<Rightarrow> d' = d2 | Some (u, r, _, h) \<Rightarrow> InsertTrunkDigestCredential i org ''inbound'' u r h now d2 = Inr ((), d')"
    by (rule create_rows_steps)
  have "foreign_rows org d1 = foreign_rows org d"
    using CreateTrunk_row(2,7) [OF ct] by (simp add: foreign_rows_def)
  moreover have "foreign_rows org d2 = foreign_rows org d1" using o' by (auto split: option.splits prod.splits dest: ins)
  moreover have "foreign_rows org d' = foreign_rows org d2" using n by (auto split: option.splits prod.splits dest: ins)
  ultimately show ?thesis by simp
qed

lemma foreign_resources:
  "CreateTrunkEndpoint n org i host p now d = Inr (e, d') \<Longrightarrow> foreign_rows org d' = foreign_rows org d"
  "UpdateTrunkEndpoint p n i org now d = Inr (e, d') \<Longrightarrow> foreign_rows org d' = foreign_rows org d"
  "DeleteTrunkEndpoint n i org now d = Inr (e, d') \<Longrightarrow> foreign_rows org d' = foreign_rows org d"
  "CreateTrunkSourceIP n org i cidr now d = Inr (s, d') \<Longrightarrow> foreign_rows org d' = foreign_rows org d"
  "DeleteTrunkSourceIP n i org now d = Inr (u, d') \<Longrightarrow> foreign_rows org d' = foreign_rows org d"
proof -
  show "foreign_rows org d' = foreign_rows org d" if "UpdateTrunkEndpoint p n i org now d = Inr (e, d')"
    by (rule foreign_endpoints_changed [OF that [unfolded UpdateTrunkEndpoint_def]])
       (simp_all add: own_endpoint_def updated_endpoint_def reset_health_def Let_def)
  show "DeleteTrunkEndpoint n i org now d = Inr (e, d') \<Longrightarrow> foreign_rows org d' = foreign_rows org d"
    by (auto simp: DeleteTrunkEndpoint_def foreign_rows_def own_endpoint_def split: option.splits if_splits) (rule filter_cong, auto)
  show "DeleteTrunkSourceIP n i org now d = Inr (u, d') \<Longrightarrow> foreign_rows org d' = foreign_rows org d"
    by (auto simp: DeleteTrunkSourceIP_def foreign_rows_def) (rule filter_cong, auto)
qed (auto simp: CreateTrunkEndpoint_def CreateTrunkSourceIP_def Let_def foreign_rows_def new_endpoint_def split: if_splits)

definition keeps_foreign :: "env \<Rightarrow> uuid \<Rightarrow> world \<Rightarrow> world \<Rightarrow> bool" where
  "keeps_foreign E org w w' \<longleftrightarrow>
     (crypto_ok E \<and> trunk_store_ok E (database w) \<longrightarrow>
      trunk_store_ok E (database w') \<and> foreign_rows org (database w') = foreign_rows org (database w))"

lemma keeps_foreignI:
  "keeps_store E w (w\<lparr>database := d\<rparr>) \<Longrightarrow> (trunk_store_ok E (database w) \<Longrightarrow> foreign_rows org d = foreign_rows org (database w)) \<Longrightarrow>
   keeps_foreign E org w (w\<lparr>database := d\<rparr>)"
  by (simp add: keeps_store_def keeps_foreign_def)

lemma foreign_auth:
  assumes "trunk_store_ok E d"
  shows "SetTrunkOutboundDigestAuth u r c h i org now d = Inr (y, d') \<Longrightarrow> foreign_rows org d' = foreign_rows org d"
    "SetTrunkInboundDigestAuth u r c h i org now d = Inr (y, d') \<Longrightarrow> foreign_rows org d' = foreign_rows org d"
    "ClearTrunkOutboundAuth i org now d = Inr (y, d') \<Longrightarrow> foreign_rows org d' = foreign_rows org d"
    "SetTrunkInboundIPAuth i org now d = Inr (y, d') \<Longrightarrow> foreign_rows org d' = foreign_rows org d"
  unfolding SetTrunkOutboundDigestAuth_def SetTrunkInboundDigestAuth_def ClearTrunkOutboundAuth_def SetTrunkInboundIPAuth_def
  by (erule foreign_set_digest [OF assms with_auth_sets(1)] foreign_set_digest [OF assms with_auth_sets(2)]
      foreign_clear_digest [OF assms with_auth_sets(1)] foreign_clear_digest [OF assms with_auth_sets(2)])+

lemma tenant_changes:
  fixes w :: world
  shows "create_rows i org req codecs outbound inbound now (database w) = Inr (x, d) \<Longrightarrow>
      (\<And>s. outbound = Some s \<Longrightarrow> crypto_ok E \<longrightarrow> sealed_for E org i ''outbound'' s) \<Longrightarrow>
      (\<And>s. inbound = Some s \<Longrightarrow> crypto_ok E \<longrightarrow> sealed_for E org i ''inbound'' s) \<Longrightarrow> keeps_foreign E org w (w\<lparr>database := d\<rparr>)"
    "crypto_ok E \<longrightarrow> sealed_for E org i ''outbound'' (u, r, c, h) \<Longrightarrow>
      SetTrunkOutboundDigestAuth u r c h i org now (database w) = Inr (y, d) \<Longrightarrow> keeps_foreign E org w (w\<lparr>database := d\<rparr>)"
    "crypto_ok E \<longrightarrow> sealed_for E org i ''inbound'' (u, r, c, h) \<Longrightarrow>
      SetTrunkInboundDigestAuth u r c h i org now (database w) = Inr (y, d) \<Longrightarrow> keeps_foreign E org w (w\<lparr>database := d\<rparr>)"
    "ClearTrunkOutboundAuth i org now (database w) = Inr (y, d) \<Longrightarrow> keeps_foreign E org w (w\<lparr>database := d\<rparr>)"
    "SetTrunkInboundIPAuth i org now (database w) = Inr (y, d) \<Longrightarrow> keeps_foreign E org w (w\<lparr>database := d\<rparr>)"
    "CreateTrunkSourceIP n org i cidr now (database w) = Inr (src, d) \<Longrightarrow> keeps_foreign E org w (w\<lparr>database := d\<rparr>)"
    "DeleteTrunkSourceIP n i org now (database w) = Inr (y, d) \<Longrightarrow> keeps_foreign E org w (w\<lparr>database := d\<rparr>)"
    "CreateTrunkEndpoint n org i host p now (database w) = Inr (e, d) \<Longrightarrow> keeps_foreign E org w (w\<lparr>database := d\<rparr>)"
    "UpdateTrunkEndpoint p n i org now (database w) = Inr (e, d) \<Longrightarrow> keeps_foreign E org w (w\<lparr>database := d\<rparr>)"
    "DeleteTrunkEndpoint n i org now (database w) = Inr (e, d) \<Longrightarrow> keeps_foreign E org w (w\<lparr>database := d\<rparr>)"
  subgoal by (rule keeps_foreignI [OF store_keeping.creates [OF TrueI]]) (assumption | blast | erule foreign_create)+
  subgoal by (rule keeps_foreignI [OF store_keeping.sets(1) [OF TrueI]]) (assumption | erule foreign_auth(1))+
  subgoal by (rule keeps_foreignI [OF store_keeping.sets(2) [OF TrueI]]) (assumption | erule foreign_auth(2))+
  subgoal by (rule keeps_foreignI [OF store_keeping.clears(1) [OF TrueI]]) (assumption | erule foreign_auth(3))+
  subgoal by (rule keeps_foreignI [OF store_keeping.clears(2) [OF TrueI]]) (assumption | erule foreign_auth(4))+
  subgoal by (rule keeps_foreignI [OF store_keeping.sources(1) [OF TrueI]]) (assumption | erule foreign_resources)+
  subgoal by (rule keeps_foreignI [OF store_keeping.sources(2) [OF TrueI]]) (assumption | erule foreign_resources)+
  subgoal by (rule keeps_foreignI [OF store_keeping.endpoints(1) [OF TrueI]]) (assumption | erule foreign_resources)+
  subgoal by (rule keeps_foreignI [OF store_keeping.endpoints(2) [OF TrueI]]) (assumption | erule foreign_resources)+
  subgoal by (rule keeps_foreignI [OF store_keeping.endpoints(3) [OF TrueI]]) (assumption | erule foreign_resources)+
  done

interpretation tenant: trunk_changes "keeps_foreign E org" E "\<lambda>o'. o' = org"
  "\<lambda>org i dir s. crypto_ok E \<longrightarrow> sealed_for E org i dir s" for E org
proof unfold_locales
  show "keeps_foreign E org w w" for w by (simp add: keeps_foreign_def)
  show "keeps_foreign E org w (w'\<lparr>tick := n\<rparr>) = keeps_foreign E org w w'" for w w' n by (simp add: keeps_foreign_def)
  show "keeps_foreign E org u v \<Longrightarrow> keeps_foreign E org v w \<Longrightarrow> keeps_foreign E org u w" for u v w
    by (simp add: keeps_foreign_def)
  show "keeps_foreign E org w (w'\<lparr>database := d\<lparr>outbox := ob\<rparr>\<rparr>) = keeps_foreign E org w (w'\<lparr>database := d\<rparr>)" for w w' d ob
    by (simp add: keeps_foreign_def trunk_store_ok_def foreign_rows_def)
next
  fix o' i dir msg cred w s w'
  assume "run_state (seal_credential E (credentialScope E o' i dir) msg cred) w = (Inr s, w')"
  then show "crypto_ok E \<longrightarrow> sealed_for E o' i dir s" by (rule store_keeping.seals)
next
  fix o' f i P now x d and w :: world
  assume o': "o' = org" and f: "keeps_auth f" and ch: "change_trunk (\<lambda>t. own_trunk i o' t \<and> P t) f now (database w) = Inr (x, d)"
  have "foreign_rows org d = foreign_rows org (database w)"
    using foreign_trunks_changed [OF ch, of org] f o' by (auto simp: own_trunk_def keeps_auth_def foreign_rows_def)
  then show "keeps_foreign E org w (w\<lparr>database := d\<rparr>)"
    by (intro keeps_foreignI store_keeping.changes [OF TrueI f ch])
qed (auto intro: tenant_changes)

end
