(* ===== verification/TrunkProperties.thy ===== *)
theory TrunkProperties
  imports TrunkGuarantees
begin

text \<open>
  Properties of the trunk service: the tables stay consistent under any interleaving of requests and
  health passes, tenants do not touch each other, the events in the outbox tell what happened to
  trunks and endpoints, and a trunk that validates is one that routing accepts.
\<close>

section \<open>Consistency of the tables\<close>

lemma endpoints_ok_map:
  assumes "endpoints_ok ts es"
    and "\<And>e. e \<in> set es \<Longrightarrow> e_id (f e) = e_id e \<and> e_trunk_id (f e) = e_trunk_id e \<and> e_organization_id (f e) = e_organization_id e \<and>
      e_host (f e) = e_host e \<and> e_port (f e) = e_port e \<and> e_transport (f e) = e_transport e \<and> e_direction (f e) = e_direction e \<and>
      trunk_endpoint_checks (f e)"
  shows "endpoints_ok ts (map f es)"
proof -
  have ids: "map e_id (map f es) = map e_id es" using assms(2) by simp
  have "same_target (f x) (f y) \<longleftrightarrow> same_target x y" if "x \<in> set es" "y \<in> set es" for x y
    using assms(2) that by (simp add: same_target_def)
  then show ?thesis using assms unfolding endpoints_ok_def ids by auto
qed

lemma health_statements_ok:
  assumes ok: "trunk_store_ok E d"
  shows "ListTrunkEndpointsForHealthCheck at due batch now d = Inr (es, d') \<Longrightarrow> trunk_store_ok E d'"
    and "MarkTrunkEndpointHealthy at code latency i now d = Inr (e, d') \<Longrightarrow> trunk_store_ok E d'"
    and "MarkTrunkEndpointProbeFailed at latency msg threshold cooldown i now d = Inr (e, d') \<Longrightarrow> trunk_store_ok E d'"
proof -
  have E: "endpoints_ok (trunks d) (trunk_endpoints d)" using ok by (simp add: trunk_store_ok_def)
  have checks: "trunk_endpoint_checks e" if "e \<in> set (trunk_endpoints d)" for e using E that by (simp add: endpoints_ok_def)
  have "endpoints_ok (trunks d) (update_where P (\<lambda>e. e\<lparr>e_last_checked_at := c, e_updated_at := now\<rparr>) (trunk_endpoints d))" for P c
    unfolding update_where_def by (rule endpoints_ok_map [OF E]) (auto simp: trunk_endpoint_checks_def dest: checks)
  then show "ListTrunkEndpointsForHealthCheck at due batch now d = Inr (es, d') \<Longrightarrow> trunk_store_ok E d'"
    using ok by (auto simp: ListTrunkEndpointsForHealthCheck_def Let_def trunk_store_ok_def)
  have mark: "trunk_store_ok E d'" if "change_endpoint (\<lambda>e. e_id e = i) f now d = Inr (e, d')"
    "\<And>x. e_id (f x) = e_id x \<and> e_trunk_id (f x) = e_trunk_id x \<and> e_organization_id (f x) = e_organization_id x" for f
  proof -
    have "endpoints_ok (trunks d) (trunk_endpoints d')" "\<exists>rows. d' = d\<lparr>trunk_endpoints := rows\<rparr>"
      by (rule endpoint_changed_ok [OF E that(1) HOL.refl _ that(2)], simp)+
    with ok show ?thesis by (auto simp: trunk_store_ok_def)
  qed
  show "MarkTrunkEndpointHealthy at code latency i now d = Inr (e, d') \<Longrightarrow> trunk_store_ok E d'"
    unfolding MarkTrunkEndpointHealthy_def by (erule mark) (simp add: probed_healthy_def)
  show "MarkTrunkEndpointProbeFailed at latency msg threshold cooldown i now d = Inr (e, d') \<Longrightarrow> trunk_store_ok E d'"
    unfolding MarkTrunkEndpointProbeFailed_def by (erule mark) (simp add: probed_failed_def Let_def)
qed

text \<open>Relations that ignore the SIP log and admit the three statements of the job admit the job.\<close>

locale health_changes = world_history R for R :: "world \<Rightarrow> world \<Rightarrow> bool" +
  assumes sip_free: "R w (w\<lparr>sip_log := l\<rparr>)"
    and claims: "ListTrunkEndpointsForHealthCheck at due batch now (database w) = Inr (es, d) \<Longrightarrow> R w (w\<lparr>database := d\<rparr>)"
    and healthy: "MarkTrunkEndpointHealthy at code latency i now (database w) = Inr (e, d) \<Longrightarrow> R w (w\<lparr>database := d\<rparr>)"
    and failed: "MarkTrunkEndpointProbeFailed at latency msg threshold cooldown i now (database w) = Inr (e, d) \<Longrightarrow>
      R w (w\<lparr>database := d\<rparr>)"
begin

lemma wire_moves:
  assumes "rely E"
  shows "moves (sip_dial E a)" "moves (sip_write E p)" "moves (sip_read E)" "moves (read_random E)"
  unfolding sip_dial_def sip_write_def sip_read_def read_random_def
  by (rule external_moves [OF assms]; simp add: refl sip_free)+

lemma sip_Probe_moves: "rely E \<Longrightarrow> moves (sip_Probe E e)"
  unfolding sip_Probe_def optionsRequest_def probeUDP_def probeStream_def Let_def
  by (intro moves_intros wire_moves)

lemma clock_moves: "moves (wall_clock E)"
  unfolding wall_clock_def by (intro moves_intros)

lemma record_probe_moves:
  assumes "rely E" shows "moves (record_probe E c i started r)"
  unfolding record_probe_def MarkHealthy_def MarkProbeFailed_def Let_def
  by (intro moves_intros clock_moves statement_moves assms) (erule healthy failed)+

lemma check_all_moves: "rely E \<Longrightarrow> moves (check_all E c es)"
  by (induction es) (auto intro!: moves_intros clock_moves sip_Probe_moves record_probe_moves)

lemma health_Check_moves:
  assumes "rely E" shows "moves (health_Check E c)"
  unfolding health_Check_def
  by (intro moves_intros clock_moves statement_moves check_all_moves assms) (erule claims)

lemma health_Run_moves: "rely E \<Longrightarrow> moves (health_Run E c ticks)"
  by (induction ticks) (auto simp: runPass_def intro!: moves_intros health_Check_moves)

end

interpretation store_health: health_changes "keeps_store E" for E
  by unfold_locales (auto simp: keeps_store_def dest: health_statements_ok)

text \<open>What happens to the trunk tables: requests of any organization and runs of the health job.\<close>

datatype trunk_activity = Request uuid trunk_op | HealthJob health_config nat

fun trunk_activities :: "env \<Rightarrow> trunk_service \<Rightarrow> trunk_activity list \<Rightarrow> (world, unit) state" where
  "trunk_activities E S [] = State_Monad.return ()"
| "trunk_activities E S (Request org op # as) = do { _ \<leftarrow> trunk_step E S org op; trunk_activities E S as }"
| "trunk_activities E S (HealthJob c ticks # as) = do { _ \<leftarrow> health_Run E c ticks; trunk_activities E S as }"

text \<open>
  C3: The trunk tables stay consistent whatever the requests, the health passes and the faults are. In a
  consistent store trunks satisfy their constraints, a digest credential belongs to exactly one trunk
  that holds the same user name and realm, its HA1 is the digest of the secret the trunk's ciphertext
  decrypts to, a trunk with digest authentication has its credential row, inbound identities are unique
  over all tenants, and endpoints and source networks belong to a trunk of their organization.
\<close>

theorem trunk_tables_consistent:
  assumes "aead_correct E" and "\<forall>t. length (random_bytes E t) = NonceSize"
    and "\<forall>t w. trunk_store_ok E (database w) \<longrightarrow> trunk_store_ok E (database (interference E t w))"
    and "trunk_store_ok E (database w)"
  shows "trunk_store_ok E (database (snd (run_state (trunk_activities E S as) w)))"
proof -
  have rely: "store_keeping.rely E E" using assms(3) by (simp add: keeps_store_def)
  have "store_keeping.moves E (trunk_activities E S as)"
  proof (induction as)
    case (Cons a as)
    then show ?case
      by (cases a) (auto intro!: store_keeping.bind_moves store_keeping.trunk_step_moves store_health.health_Run_moves
        rely [THEN spec, THEN spec])
  qed (simp add: store_keeping.return_moves)
  from store_keeping.movesD [OF this, of w] assms show ?thesis by (simp add: keeps_store_def crypto_ok_def)
qed

definition sample_service :: trunk_service where
  "sample_service = \<lparr>ts_db = True, ts_cipher = True\<rparr>"

definition sample_create :: trunk_create where
  "sample_create =
     \<lparr>tc_name = '' carrier '', tc_direction = Some ''Outbound'', tc_status = None,
      tc_outbound_credential = Some \<lparr>dc_username = ''u'', dc_realm = ''r'', dc_secret = ''s''\<rparr>,
      tc_inbound_enabled = None, tc_inbound_auth_method = None, tc_inbound_credential = None, tc_max_cps = Some 5,
      tc_max_concurrent_calls = None, tc_codecs = [], tc_supports_video = None, tc_supports_fax = None\<rparr>"

definition tenant_world :: world where
  "tenant_world = empty_world\<lparr>database := empty_db\<lparr>organizations := [sample_organization]\<rparr>\<rparr>"

lemma sample_created:
  "map t_name (trunks (database (snd (run_state (trunk_activities nonce_env sample_service [Request 1 (CreateOp sample_create)])
     tenant_world)))) = [''carrier'']"
  by code_simp

lemma nonce_env_laws:
  "aead_correct nonce_env" "\<forall>t. length (random_bytes nonce_env t) = NonceSize" "interference nonce_env t w = w"
  "quiet nonce_env"
  using sample_aead_correct by (simp_all add: nonce_env_def aead_correct_def NonceSize_def sample_env_def quiet_def)

lemma tenant_world_ok: "trunk_store_ok E (database tenant_world)"
  by (simp add: tenant_world_def trunk_store_ok_def trunks_ok_def credentials_ok_def endpoints_ok_def sources_ok_def)

theorem trunk_tables_consistent_witness:
  "\<exists>w :: world. trunk_store_ok nonce_env (database w) \<and> map t_name (trunks (database w)) = [''carrier'']"
proof -
  have ok: "trunk_store_ok nonce_env (database (snd (run_state (trunk_activities nonce_env sample_service
      [Request 1 (CreateOp sample_create)]) tenant_world)))"
    by (rule trunk_tables_consistent [OF nonce_env_laws(1,2)]) (simp_all add: nonce_env_laws(3) tenant_world_ok)
  show ?thesis by (rule exI, rule conjI, rule ok, rule sample_created)
qed

section \<open>Isolation\<close>

text \<open>
  C13: A request of one organization leaves every trunk, endpoint, credential and source network of the other
  organizations as it was, even under faults, in a consistent store.
\<close>

theorem trunk_tenants_isolated:
  assumes "aead_correct E" and "\<forall>t. length (random_bytes E t) = NonceSize" and "\<forall>t w. interference E t w = w"
    and "trunk_store_ok E (database w)"
  shows "foreign_rows org (database (snd (run_state (trunk_step E S org op) w))) = foreign_rows org (database w)"
proof -
  have "tenant.rely E org E" using assms(3) by (simp add: keeps_foreign_def)
  then have "tenant.moves E org (trunk_step E S org op)" by (rule tenant.trunk_step_moves) simp
  from tenant.movesD [OF this, of w] assms(1,2,4) show ?thesis by (simp add: keeps_foreign_def crypto_ok_def)
qed

definition shared_world :: world where
  "shared_world = empty_world\<lparr>database := empty_db\<lparr>organizations := [sample_organization],
     trunks := [sample_trunk, sample_trunk\<lparr>t_id := 17, t_organization_id := 2\<rparr>],
     trunk_endpoints := [sample_endpoint 8 20]\<rparr>\<rparr>"

lemma shared_world_ok: "trunk_store_ok E (database shared_world)"
  by (simp add: shared_world_def trunk_store_ok_def trunks_ok_def credentials_ok_def endpoints_ok_def sources_ok_def
      sample_trunk_def sample_endpoint_def trunk_checks_def trunk_directions_def auth_fields_ok_def has_text_def opt_text_def
      trunk_name_free_def trunk_endpoint_checks_def own_trunk_def auth_columns_def sql_space_def)

theorem trunk_tenants_isolated_witness:
  "foreign_rows 2 (database (snd (run_state (trunk_step nonce_env sample_service 2 (DeleteEndpointOp 7 8)) shared_world))) =
     foreign_rows 2 (database shared_world) \<and> fst (foreign_rows 2 (database shared_world)) = [sample_trunk]"
  using trunk_tenants_isolated [OF nonce_env_laws(1,2) _ shared_world_ok, of 2 sample_service "DeleteEndpointOp 7 8"]
  by (simp add: nonce_env_laws(3)) (simp add: foreign_rows_def shared_world_def sample_trunk_def)

section \<open>The events tell what happened\<close>

text \<open>
  A consumer that replays the payloads of the outbox: a created resource is added, a deleted one removed,
  any other event replaces the resource with that id.
\<close>

type_synonym trunk_view = "trunk_response list \<times> trunk_endpoint list"

definition public_view :: "db \<Rightarrow> trunk_view" where
  "public_view d = (map trunk_response_of (trunks d), trunk_endpoints d)"

fun replay_event :: "payload \<Rightarrow> trunk_view \<Rightarrow> trunk_view" where
  "replay_event (TrunkPayload ty org i ep (TrunkResource r) at) (ts, es) =
     (if ty = ''trunk.created'' then ts @ [r] else update_where (\<lambda>x. tr_id x = tr_id r) (\<lambda>_. r) ts, es)"
| "replay_event (TrunkPayload ty org i ep (EndpointResource e) at) (ts, es) =
     (ts, if ty = ''trunk.endpoint.created'' then es @ [e]
          else if ty = ''trunk.endpoint.deleted'' then filter (\<lambda>x. e_id x \<noteq> e_id e) es
          else update_where (\<lambda>x. e_id x = e_id e) (\<lambda>_. e) es)"
| "replay_event p v = v"

definition told :: "db \<Rightarrow> db \<Rightarrow> bool" where
  "told d d' \<longleftrightarrow>
     (\<exists>ps. map ob_payload (outbox d') = map ob_payload (outbox d) @ ps \<and> public_view d' = fold replay_event ps (public_view d))"

definition replays :: "env \<Rightarrow> world \<Rightarrow> world \<Rightarrow> bool" where
  "replays E w w' \<longleftrightarrow>
     keeps_store E w w' \<and> (crypto_ok E \<and> trunk_store_ok E (database w) \<longrightarrow> told (database w) (database w'))"

lemma told_trans: "told a b \<Longrightarrow> told b c \<Longrightarrow> told a c"
  unfolding told_def by (elim exE conjE) (metis append_assoc fold_append comp_apply)

interpretation telling: world_history "replays E" for E
proof unfold_locales
  show "replays E w w" for w by (simp add: replays_def keeps_store_def told_def)
  show "replays E u v \<Longrightarrow> replays E v w \<Longrightarrow> replays E u w" for u v w
    unfolding replays_def keeps_store_def using told_trans by blast
  show "replays E w (w'\<lparr>tick := n\<rparr>) = replays E w w'" for w w' n by (simp add: replays_def keeps_store_def)
qed

lemma told_event:
  assumes "outbox d' = outbox d @ [ev]" and "public_view d' = replay_event (ob_payload ev) (public_view d)"
  shows "told d d'"
  unfolding told_def using assms by (intro exI [of _ "[ob_payload ev]"]) simp

text \<open>Each mutation, with the event type it is sent with, changes the view as a replay would.\<close>

definition trunk_mutation_told :: "string \<Rightarrow> trunk \<Rightarrow> db \<Rightarrow> db \<Rightarrow> bool" where
  "trunk_mutation_told ty x d d' \<longleftrightarrow> outbox d' = outbox d \<and>
     (\<forall>org i ep at. public_view d' = replay_event (TrunkPayload ty org i ep (TrunkResource (trunk_response_of x)) at) (public_view d))"

definition endpoint_mutation_told :: "string \<Rightarrow> trunk_endpoint \<Rightarrow> db \<Rightarrow> db \<Rightarrow> bool" where
  "endpoint_mutation_told ty e d d' \<longleftrightarrow> outbox d' = outbox d \<and>
     (\<forall>org i ep at. public_view d' = replay_event (TrunkPayload ty org i ep (EndpointResource e) at) (public_view d))"

lemma told_insertEvent:
  "trunk_insertEvent E t k now ty item ep (TrunkResource (trunk_response_of x)) d1 = Inr d' \<Longrightarrow> trunk_mutation_told ty x d d1 \<Longrightarrow> told d d'"
  "trunk_insertEvent E t k now ty item ep (EndpointResource e) d1 = Inr d' \<Longrightarrow> endpoint_mutation_told ty e d d1 \<Longrightarrow> told d d'"
  by (erule trunk_insertEvent_payload, rule told_event,
      auto simp: trunk_mutation_told_def endpoint_mutation_told_def public_view_def)+

lemma map_replace: "map g (update_where (\<lambda>r. k r = i) (\<lambda>_. x) rows) = update_where (\<lambda>r. k' r = i) (\<lambda>_. g x) (map g rows)"
  if "\<And>r. k' (g r) = k r"
  using that by (simp add: update_where_def)

lemma change_trunk_told:
  assumes ok: "trunk_store_ok E d" and f: "keeps_auth f" and ty: "ty \<noteq> ''trunk.created''"
    and ch: "change_trunk (\<lambda>t. own_trunk i org t \<and> P t) f now d = Inr (x, d')"
  shows "trunk_mutation_told ty x d d'"
proof -
  have ids: "distinct (map t_id (trunks d))" using ok by (simp add: trunk_store_ok_def trunks_ok_def)
  obtain t where "d' = d\<lparr>trunks := replace_trunk x (trunks d)\<rparr>"
    by (rule change_trunk_row [OF ids ch, of i]) (use f in \<open>auto simp: own_trunk_def keeps_auth_def\<close>)
  moreover have "map trunk_response_of (replace_trunk x (trunks d)) =
      update_where (\<lambda>r. tr_id r = t_id x) (\<lambda>_. trunk_response_of x) (map trunk_response_of (trunks d))"
    unfolding replace_trunk_def by (rule map_replace) (simp add: trunk_response_of_def)
  ultimately show ?thesis
    using ty by (simp add: trunk_mutation_told_def public_view_def) (simp add: trunk_response_of_def)
qed

lemma create_told:
  assumes "create_rows i org req codecs outbound inbound now d = Inr (x, d')"
  shows "trunk_mutation_told ''trunk.created'' x d d'"
proof -
  have ins: "outbox b = outbox a \<and> public_view b = public_view a"
    if "InsertTrunkDigestCredential i org dir u r h now a = Inr (y, b)" for dir u r h a b y
    using that by (auto simp: InsertTrunkDigestCredential_def Let_def public_view_def split: if_splits)
  from assms obtain d1 d2 where ct: "CreateTrunk i org (create_params req codecs outbound inbound) now d = Inr (x, d1)"
    and o': "case outbound of None \<Rightarrow> d2 = d1 | Some (u, r, _, h) \<Rightarrow> InsertTrunkDigestCredential i org ''outbound'' u r h now d1 = Inr ((), d2)"
    and n: "case inbound of None \<Rightarrow> d' = d2 | Some (u, r, _, h) \<Rightarrow> InsertTrunkDigestCredential i org ''inbound'' u r h now d2 = Inr ((), d')"
    by (rule create_rows_steps)
  have "outbox d2 = outbox d1 \<and> public_view d2 = public_view d1" using o' by (auto split: option.splits prod.splits dest: ins)
  moreover have "outbox d' = outbox d2 \<and> public_view d' = public_view d2" using n by (auto split: option.splits prod.splits dest: ins)
  ultimately show ?thesis
    using CreateTrunk_row(2) [OF ct] by (simp add: trunk_mutation_told_def public_view_def)
qed

lemma endpoints_told:
  assumes ok: "trunk_store_ok E d"
  shows "CreateTrunkEndpoint n org i host p now d = Inr (e, d') \<Longrightarrow> endpoint_mutation_told ''trunk.endpoint.created'' e d d'"
    and "UpdateTrunkEndpoint p n i org now d = Inr (e, d') \<Longrightarrow> endpoint_mutation_told ''trunk.endpoint.updated'' e d d'"
    and "DeleteTrunkEndpoint n i org now d = Inr (e, d') \<Longrightarrow> endpoint_mutation_told ''trunk.endpoint.deleted'' e d d'"
proof -
  have ids: "distinct (map e_id (trunk_endpoints d))" using ok by (simp add: trunk_store_ok_def endpoints_ok_def)
  show "CreateTrunkEndpoint n org i host p now d = Inr (e, d') \<Longrightarrow> endpoint_mutation_told ''trunk.endpoint.created'' e d d'"
    by (auto simp: CreateTrunkEndpoint_def Let_def endpoint_mutation_told_def public_view_def split: if_splits)
  show "endpoint_mutation_told ''trunk.endpoint.updated'' e d d'" if st: "UpdateTrunkEndpoint p n i org now d = Inr (e, d')"
  proof -
    let ?P = "own_endpoint d n i org" and ?f = "\<lambda>e. (updated_endpoint p e)\<lparr>e_updated_at := now\<rparr>"
    obtain rows where u: "update_one ?P ?f (trunk_endpoints d) = Inr (e, rows)" and d': "d' = d\<lparr>trunk_endpoints := rows\<rparr>"
      using st by (auto simp: UpdateTrunkEndpoint_def change_endpoint_def split: sum.splits if_splits)
    from u obtain x where x: "x \<in> set (trunk_endpoints d)" "?P x" "e = ?f x" "rows = update_where ?P ?f (trunk_endpoints d)"
      by (rule update_one_Inr)
    have "e_id e = e_id x" by (simp add: x(3) updated_endpoint_def reset_health_def Let_def)
    moreover have "y = x" if "y \<in> set (trunk_endpoints d)" "e_id y = e_id x" for y by (rule distinct_key [OF ids that(1) x(1) that(2)])
    moreover have "e_id y = e_id x" if "?P y" for y using that x(2) by (simp add: own_endpoint_def)
    ultimately have "rows = update_where (\<lambda>y. e_id y = e_id e) (\<lambda>_. e) (trunk_endpoints d)"
      unfolding x(4) update_where_def using x(2,3) by (intro map_cong) (metis+)
    then show ?thesis by (simp add: endpoint_mutation_told_def public_view_def d')
  qed
  show "endpoint_mutation_told ''trunk.endpoint.deleted'' e d d'" if st: "DeleteTrunkEndpoint n i org now d = Inr (e, d')"
  proof -
    have f: "find (own_endpoint d n i org) (trunk_endpoints d) = Some e"
      and d': "d' = d\<lparr>trunk_endpoints := filter (\<lambda>x. \<not> own_endpoint d n i org x) (trunk_endpoints d)\<rparr>"
      using st by (auto simp: DeleteTrunkEndpoint_def split: option.splits if_splits)
    from f have e: "e \<in> set (trunk_endpoints d)" "own_endpoint d n i org e" by (auto simp: find_Some_iff)
    have "own_endpoint d n i org x \<longleftrightarrow> e_id x = e_id e" if "x \<in> set (trunk_endpoints d)" for x
      using distinct_key [OF ids that e(1)] e(2) by (auto simp: own_endpoint_def)
    then have "filter (\<lambda>x. \<not> own_endpoint d n i org x) (trunk_endpoints d) = filter (\<lambda>x. e_id x \<noteq> e_id e) (trunk_endpoints d)"
      by (intro filter_cong) auto
    then show ?thesis by (simp add: endpoint_mutation_told_def public_view_def d')
  qed
qed

lemma replays_transaction:
  assumes "keeps_store E w (w\<lparr>database := d\<rparr>)" and "trunk_store_ok E (database w) \<Longrightarrow> told (database w) d"
  shows "replays E w (w\<lparr>database := d\<rparr>)"
  using assms by (simp add: replays_def)

lemma mutateTrunk_tells:
  assumes rely: "telling.rely E E"
    and keep: "\<And>now w x d. m now (database w) = Inr (x, d) \<Longrightarrow> keeps_store E w (w\<lparr>database := d\<rparr>)"
    and tell: "\<And>now d x d'. trunk_store_ok E d \<Longrightarrow> m now d = Inr (x, d') \<Longrightarrow> trunk_mutation_told ty x d d'"
  shows "telling.moves E (mutateTrunk E S ty m)"
  unfolding mutateTrunk_def
proof (intro telling.moves_intros telling.transaction_moves rely)
  fix now t x d and w :: world
  assume "mutate_trunk_body E ty m now t (database w) = Inr (x, d)"
  then obtain d1 where m: "m now (database w) = Inr (x, d1)"
    and ev: "trunk_insertEvent E t 1 now ty x None (TrunkResource (trunk_response_of x)) d1 = Inr d"
    by (auto simp: mutate_trunk_body_def map_sum_def split: sum.splits)
  from trunk_insertEvent_Inr [OF ev] keep [OF m] have "keeps_store E w (w\<lparr>database := d\<rparr>)"
    by (auto simp: store_keeping.outbox_free)
  then show "replays E w (w\<lparr>database := d\<rparr>)"
    by (rule replays_transaction) (rule told_insertEvent(1) [OF ev tell [OF _ m]])
qed

lemma mutateEndpoint_tells:
  assumes rely: "telling.rely E E"
    and keep: "\<And>n now w x d. m n now (database w) = Inr (x, d) \<Longrightarrow> keeps_store E w (w\<lparr>database := d\<rparr>)"
    and tell: "\<And>n now d x d'. trunk_store_ok E d \<Longrightarrow> m n now d = Inr (x, d') \<Longrightarrow> endpoint_mutation_told ty x d d'"
  shows "telling.moves E (mutateEndpoint E S ty m)"
  unfolding mutateEndpoint_def
proof (intro telling.moves_intros telling.transaction_moves rely)
  fix now t x d and w :: world
  assume "mutate_endpoint_body E ty m now t (database w) = Inr (x, d)"
  then obtain d1 item where m: "m (row_uuid E t 0) now (database w) = Inr (x, d1)"
    and ev: "trunk_insertEvent E t 2 now ty item (Some (e_id x)) (EndpointResource x) d1 = Inr d"
    by (auto simp: mutate_endpoint_body_def map_sum_def split: sum.splits)
  from trunk_insertEvent_Inr [OF ev] keep [OF m] have "keeps_store E w (w\<lparr>database := d\<rparr>)"
    by (auto simp: store_keeping.outbox_free)
  then show "replays E w (w\<lparr>database := d\<rparr>)"
    by (rule replays_transaction) (rule told_insertEvent(2) [OF ev tell [OF _ m]])
qed

lemma told_same: "outbox d' = outbox d \<Longrightarrow> public_view d' = public_view d \<Longrightarrow> told d d'"
  by (auto simp: told_def intro: exI [of _ "[]"])

lemma create_sealed_tells:
  assumes "telling.rely E E" shows "telling.moves E (create_sealed E i org req codecs)"
proof -
  have tx: "telling.moves E (transaction_with E b st c (create_body E i org req codecs outbound inbound))"
    if sealed: "\<And>s. outbound = Some s \<Longrightarrow> crypto_ok E \<longrightarrow> sealed_for E org i ''outbound'' s"
      "\<And>s. inbound = Some s \<Longrightarrow> crypto_ok E \<longrightarrow> sealed_for E org i ''inbound'' s" for b st c outbound inbound
  proof (rule telling.transaction_with_moves [OF assms])
    fix now t x d and w :: world
    assume "create_body E i org req codecs outbound inbound now t (database w) = Inr (x, d)"
    then obtain d1 where rows: "create_rows i org req codecs outbound inbound now (database w) = Inr (x, d1)"
      and ev: "trunk_insertEvent E t 3 now ''trunk.created'' x None (TrunkResource (trunk_response_of x)) d1 = Inr d"
      by (rule create_body_event)
    from trunk_insertEvent_Inr [OF ev] store_keeping.creates [OF TrueI rows sealed] have "keeps_store E w (w\<lparr>database := d\<rparr>)"
      by (auto simp: store_keeping.outbox_free)
    then show "replays E w (w\<lparr>database := d\<rparr>)"
      by (rule replays_transaction) (rule told_insertEvent(1) [OF ev create_told [OF rows]])
  qed
  show ?thesis
    unfolding create_sealed_def
    by (intro telling.bind_result_moves telling.seal_optional_moves telling.case_sum_moves telling.return_moves tx assms)
       (auto dest!: store_keeping.seal_optional_sealed)
qed

text \<open>The requests whose effect on the tables is announced: all but the changes of authentication.\<close>

fun announced_op :: "trunk_op \<Rightarrow> bool" where
  "announced_op (SetOutboundAuthOp i a) = False"
| "announced_op (ClearOutboundAuthOp i) = False"
| "announced_op (SetInboundAuthOp i a) = False"
| "announced_op (ClearInboundAuthOp i) = False"
| "announced_op _ = True"

lemma trunk_step_tells:
  assumes rely: "telling.rely E E" and op: "announced_op op"
  shows "telling.moves E (trunk_step E S org op)"
proof -
  note moves = telling.done_moves telling.moves_intros telling.with_trunk_moves [OF rely] telling.with_endpoint_moves [OF rely]
    mutateTrunk_tells [OF rely] mutateEndpoint_tells [OF rely] telling.statement_moves [OF rely]
  note own = store_keeping.changes [OF TrueI updates_keep_auth(1), where P = "\<lambda>_. True", simplified]
    store_keeping.changes [OF TrueI updates_keep_auth(2)]
  have "telling.moves E (done_with (trunk_Create E S org req))" for req
    unfolding trunk_Create_def by (intro moves create_sealed_tells rely)
  moreover have "telling.moves E (done_with (trunk_Update E S org i u))" for i u
    unfolding trunk_Update_def UpdateTrunk_def
    by (intro moves) (auto intro: own change_trunk_told [OF _ updates_keep_auth(1), where P = "\<lambda>_. True", simplified])
  moreover have "telling.moves E (done_with (trunk_Delete E S org i))" for i
    unfolding trunk_Delete_def DisableTrunk_def
    by (intro moves) (auto intro: own change_trunk_told [OF _ updates_keep_auth(2)])
  moreover have "telling.moves E (done_with (trunk_CreateSourceIP E org i v))" for i v
    unfolding trunk_CreateSourceIP_def fresh_row_def
    by (intro moves replays_transaction store_keeping.sources(1) [OF TrueI])
       (auto simp: CreateTrunkSourceIP_def Let_def public_view_def split: if_splits intro!: told_same)
  moreover have "telling.moves E (done_with (trunk_DeleteSourceIP E org i s))" for i s
    unfolding trunk_DeleteSourceIP_def
    by (intro moves replays_transaction store_keeping.sources(2) [OF TrueI])
       (auto simp: DeleteTrunkSourceIP_def public_view_def intro!: told_same)
  moreover have "telling.moves E (done_with (trunk_CreateEndpoint E S org i host p))" for i host p
    unfolding trunk_CreateEndpoint_def by (intro moves) (auto intro: store_keeping.endpoints endpoints_told)
  moreover have "telling.moves E (done_with (trunk_UpdateEndpoint E S org i e p))" for i e p
    unfolding trunk_UpdateEndpoint_def by (intro moves) (auto intro: store_keeping.endpoints endpoints_told)
  moreover have "telling.moves E (done_with (trunk_DeleteEndpoint E S org i e))" for i e
    unfolding trunk_DeleteEndpoint_def by (intro moves) (auto intro: store_keeping.endpoints endpoints_told)
  moreover have "telling.moves E (done_with (trunk_Validate E org i))" for i
    by (intro moves telling.trunk_Validate_moves rely)
  ultimately show ?thesis using op by (cases op) simp_all
qed

text \<open>
  C4: The outbox tells the whole story of trunks and endpoints: a consumer that replays, in order, the
  payloads written since some moment ends with exactly the public view (the trunk responses and the
  endpoint rows) that the tables have, whatever announced requests ran meanwhile and whichever of their
  steps failed. So no change is committed without its event and no event without its change.
\<close>

theorem trunk_events_replay:
  assumes "aead_correct E" and "\<forall>t. length (random_bytes E t) = NonceSize" and "\<forall>t w. interference E t w = w"
    and "trunk_store_ok E (database w)" and "\<forall>op \<in> set ops. announced_op (snd op)"
  shows "let d' = database (snd (run_state (trunk_activities E S (map (\<lambda>(org, op). Request org op) ops)) w)) in
    \<exists>ps. map ob_payload (outbox d') = map ob_payload (outbox (database w)) @ ps \<and>
      public_view d' = fold replay_event ps (public_view (database w))"
proof -
  have rely: "telling.rely E E" using assms(3) by (simp add: replays_def keeps_store_def told_def)
  have "telling.moves E (trunk_activities E S (map (\<lambda>(org, op). Request org op) ops))"
    using assms(5)
    by (induction ops) (auto intro!: telling.bind_moves telling.return_moves trunk_step_tells rely [THEN spec, THEN spec])
  from telling.movesD [OF this, of w] assms(1,2,4) show ?thesis
    by (simp add: replays_def crypto_ok_def told_def Let_def)
qed

definition sample_changes :: "(uuid \<times> trunk_op) list" where
  "sample_changes = [(1, CreateEndpointOp 7 ''sip.example'' \<lparr>ep_host = None, ep_port = Some 5061, ep_transport = Some ''tls'',
     ep_direction = None, ep_priority = None, ep_weight = None, ep_enabled = None\<rparr>), (1, DeleteEndpointOp 7 8), (1, DeleteOp 7)]"

lemma sample_changes_announced:
  "map ob_subject (outbox (database (snd (run_state (trunk_activities nonce_env sample_service
     (map (\<lambda>(org, op). Request org op) sample_changes)) shared_world)))) =
   [''trunk.endpoint.created'', ''trunk.endpoint.deleted'', ''trunk.disabled'']"
  by code_simp

theorem trunk_events_replay_witness:
  "let d' = database (snd (run_state (trunk_activities nonce_env sample_service
       (map (\<lambda>(org, op). Request org op) sample_changes)) shared_world)) in
     length (outbox d') = 3 \<and> (\<exists>ps. map ob_payload (outbox d') = map ob_payload (outbox (database shared_world)) @ ps \<and>
       public_view d' = fold replay_event ps (public_view (database shared_world)))"
  unfolding Let_def
  using arg_cong [OF sample_changes_announced, of length]
  by (intro conjI trunk_events_replay [OF nonce_env_laws(1,2) _ shared_world_ok, unfolded Let_def])
     (simp_all add: nonce_env_laws(3) sample_changes_def)

section \<open>A trunk that validates can be dialled\<close>

text \<open>
  C25: Validation is not an opinion: when it finds neither errors nor warnings on a trunk of outbound or
  bidirectional direction, route resolution for that trunk and any destination returns at least one
  route in the same world.
\<close>

theorem validated_trunk_routes:
  assumes "quiet E" and "trunk_store_ok E (database w)" and "GetTrunkByID i org (database w) = Inr t"
    and "fst (run_state (trunk_Validate E org i) w) = Inr v" and "tv_valid v" "tv_warnings v = []"
    and "outbound_direction (t_direction t)" and "trim_space dst \<noteq> []"
  shows "\<exists>routes. fst (run_state (ResolveOutbound E org (Some i) dst) w) = Inr routes \<and> routes \<noteq> []"
proof -
  let ?d = "database w"
  have ne: "org \<noteq> uuid_Nil" "i \<noteq> uuid_Nil"
    using assms(4) by (auto simp: trunk_Validate_def with_trunk_def trunk_Get_def trunk_validateID_def split: if_splits)
  obtain es where es: "ListTrunkEndpoints i org ?d = Inr es" by (simp add: ListTrunkEndpoints_def)
  have t: "t \<in> set (trunks ?d)" "t_id t = i" "t_organization_id t = org"
    using assms(3) by (auto simp: GetTrunkByID_def dest!: select_one_Inr)
  have st: "t_status t = ''active''" and errs: "endpoint_errors t es = []"
    using assms(1,3-6) es ne
    by (auto simp: trunk_Validate_def with_trunk_def trunk_Get_def trunk_validateID_def inbound_errors_def trunk_ListSourceIPs_def
        on_error_def tv_valid_def Let_def split: if_splits sum.splits prod.splits)
  then have "usable_endpoints es \<noteq> []" "\<not> list_all (\<lambda>e. e_health_status e = ''unhealthy'') (usable_endpoints es)"
    using assms(7) by (auto simp: endpoint_errors_def outbound_direction_def split: if_splits)
  then obtain e where e: "e \<in> set es" "e_enabled e" "outbound_direction (e_direction e)" "e_health_status e \<noteq> ''unhealthy''"
    by (auto simp: usable_endpoints_def outbound_direction_def list_all_iff)
  obtain eps where eps: "ListActiveOutboundTrunkEndpoints i org ?d = Inr eps" by (simp add: ListActiveOutboundTrunkEndpoints_def)
  have sub: "set eps \<subseteq> set (trunk_endpoints ?d)" using eps by (auto simp: ListActiveOutboundTrunkEndpoints_def)
  have "e \<in> set eps"
    using eps e es t st assms(7) by (auto simp: ListActiveOutboundTrunkEndpoints_def ListTrunkEndpoints_def list_ex_iff)
  have ports: "1 \<le> e_port x \<and> e_port x \<le> 65535" if "x \<in> set eps" for x
    using assms(2) sub that by (auto simp: trunk_store_ok_def endpoints_ok_def trunk_endpoint_checks_def)
  have build: "\<exists>rs. build_routes t xs acc = Inr rs" if "set xs \<subseteq> set eps" for xs acc
    using that by (induction t xs acc rule: build_routes.induct) (auto dest: ports)
  then obtain routes where r: "build_routes t eps [] = Inr routes" by blast
  with build_routes_Inr [OF r] \<open>e \<in> set eps\<close> e(4) have "routes \<noteq> []" by (auto simp: filter_empty_conv)
  with assms(1,3,7,8) ne st eps r show ?thesis
    by (auto simp: ResolveOutbound_def validateOutboundRequest_def ResolveBYOCOutbound_def outbound_direction_def)
qed

lemma sample_validates:
  "fst (run_state (trunk_Validate nonce_env 1 7) shared_world) = Inr \<lparr>tv_errors = [], tv_warnings = []\<rparr>"
  by code_simp

theorem validated_trunk_routes_witness:
  "\<exists>routes. fst (run_state (ResolveOutbound nonce_env 1 (Some 7) ''+15550199'') shared_world) = Inr routes \<and> routes \<noteq> []"
proof (rule validated_trunk_routes [OF nonce_env_laws(4) shared_world_ok _ sample_validates])
  show "GetTrunkByID 7 1 (database shared_world) = Inr sample_trunk"
    by (simp add: GetTrunkByID_def shared_world_def select_one_def sample_trunk_def)
  show "trim_space ''+15550199'' \<noteq> []" by code_simp
qed (simp_all add: tv_valid_def outbound_direction_def sample_trunk_def)

end
