(* ===== verification/HealthGuarantees.thy ===== *)
theory HealthGuarantees
  imports TrunkProperties
begin

text \<open>
  Properties of the endpoint health checks: a probe is one request that no host name can extend, the
  health columns count consecutive failures, a pass settles exactly the endpoints it claimed, and a
  claimed endpoint that disappears ends the pass.
\<close>

section \<open>A probe is one request\<close>

abbreviation line_safe :: "string \<Rightarrow> bool" where
  "line_safe s \<equiv> CHR 0x0D \<notin> set s \<and> CHR 0x0A \<notin> set s"

lemma digit_not_line: "list_all is_digit s \<Longrightarrow> line_safe s"
  by (auto simp: list_all_iff is_digit_def)

lemma itoa_line_safe: "0 \<le> n \<Longrightarrow> line_safe (itoa n)"
  using itoa_pos_digits [of n] digit_not_line by (auto simp: itoa_def)

lemma hex_digit_line: "n < 16 \<Longrightarrow> hex_digit n \<noteq> CHR 0x0D \<and> hex_digit n \<noteq> CHR 0x0A"
proof -
  assume "n < 16"
  then have "n \<in> {0, 1, 2, 3, 4, 5, 6, 7, 8, 9, 10, 11, 12, 13, 14, 15}" by (simp only: insert_iff empty_iff) presburger
  then show ?thesis by (auto simp: hex_digit_def char_of_def bit_0)
qed

lemma hex_line_safe: "line_safe (hex_EncodeToString s)"
proof -
  have "hex_digit (of_char c div 16) \<noteq> x \<and> hex_digit (of_char c mod 16) \<noteq> x" if "x = CHR 0x0D \<or> x = CHR 0x0A" for c x
  proof -
    have "(of_char c :: nat) div 16 < 16" using nat_of_char_less_256 [of c] by (simp only: less_mult_imp_div_less)
    with that hex_digit_line [of "of_char c div 16"] hex_digit_line [of "of_char c mod 16"] show ?thesis by auto
  qed
  then show ?thesis by (force simp: hex_EncodeToString_def)
qed

lemma host_line_safe: "trunk_endpoint_checks e \<Longrightarrow> line_safe (e_host e)"
  by (auto simp: trunk_endpoint_checks_def list_ex_iff sql_space_def)

lemma transport_line_safe: "trunk_endpoint_checks e \<Longrightarrow> line_safe (to_upper (e_transport e))"
  by (auto simp: trunk_endpoint_checks_def ascii_upper_code)

lemma split_crlf: "line_safe a \<Longrightarrow> split_lines (a @ crlf @ b) = (a @ [CHR 0x0D]) # split_lines b"
  using split_lines_append [of "a @ [CHR 0x0D]" b] by simp

definition one_request :: "string \<Rightarrow> bool" where
  "one_request m \<longleftrightarrow>
     (\<exists>hs. split_lines m = map (\<lambda>l. l @ [CHR 0x0D]) (hs @ [[]]) @ [[]] \<and> length hs = 9 \<and> [] \<notin> set hs \<and>
        list_all line_safe hs \<and> has_prefix ''OPTIONS sip:'' (hd hs))"

lemma options_one_request:
  assumes "line_safe target" "line_safe (to_upper transport)" "line_safe i"
  shows "one_request (options_message target transport i)"
  unfolding one_request_def
proof (intro exI conjI)
  let ?hs = "[''OPTIONS sip:'' @ target @ '' SIP/2.0'',
     ''Via: SIP/2.0/'' @ to_upper transport @ '' 127.0.0.1:5060;branch=z9hG4bK-'' @ i @ '';rport'', ''Max-Forwards: 1'',
     ''From: <sip:health@localhost>;tag='' @ i, ''To: <sip:'' @ target @ ''>'', ''Call-ID: '' @ i @ ''@localhost'',
     ''CSeq: 1 OPTIONS'', ''Contact: <sip:health@127.0.0.1:5060>'', ''Content-Length: 0'']"
  have safe: "list_all line_safe ?hs" using assms by simp
  have msg: "options_message target transport i = foldr (\<lambda>l s. l @ crlf @ s) (?hs @ [[]]) []" by (simp add: options_message_def)
  have split:  "split_lines (foldr (\<lambda>l s. l @ crlf @ s) ls []) = map (\<lambda>l. l @ [CHR 0x0D]) ls @ [[]]"
    if "list_all line_safe ls" for ls
    using that by (induction ls) (simp_all add: split_crlf del: append_Cons)
  show "split_lines (options_message target transport i) = map (\<lambda>l. l @ [CHR 0x0D]) (?hs @ [[]]) @ [[]]"
    unfolding msg by (rule split) (use safe in simp)
  show "list_all line_safe ?hs" by (rule safe)
qed (simp_all add: has_prefix_def)

text \<open>What a probe adds to the SIP log when nobody else writes there.\<close>

definition adds_probe :: "world \<Rightarrow> world \<Rightarrow> bool" where
  "adds_probe w w' \<longleftrightarrow> (\<exists>l. sip_log w' = sip_log w @ l \<and> list_all one_request l)"

interpretation probing: world_history adds_probe
proof unfold_locales
  show "adds_probe u v \<Longrightarrow> adds_probe v w \<Longrightarrow> adds_probe u w" for u v w by (auto simp: adds_probe_def)
qed (auto simp: adds_probe_def)

lemma sip_write_adds: "probing.rely E \<Longrightarrow> one_request p \<Longrightarrow> probing.moves (sip_write E p)"
  unfolding sip_write_def by (rule probing.external_moves) (simp_all add: adds_probe_def)

lemma wire_adds:
  assumes "probing.rely E" shows "probing.moves (sip_dial E a)" "probing.moves (sip_read E)" "probing.moves (read_random E)"
  unfolding sip_dial_def sip_read_def read_random_def by (rule probing.external_moves [OF assms]; simp add: probing.refl)+

lemma payload_one_request:
  assumes "trunk_endpoint_checks e"
    and "run_state (optionsRequest E (e_host e) (e_port e) (e_transport e)) w = (Inr payload, w')"
  shows "one_request payload"
proof -
  obtain nonce where "payload = options_message (JoinHostPort (e_host e) (itoa (e_port e))) (e_transport e) (hex_EncodeToString nonce)"
    using assms(2) by (cases "run_state (read_random E) w") (auto simp: optionsRequest_def split: sum.splits)
  moreover have "line_safe (JoinHostPort (e_host e) (itoa (e_port e)))"
    using host_line_safe [OF assms(1)] itoa_line_safe [of "e_port e"] assms(1) by (auto simp: JoinHostPort_def trunk_endpoint_checks_def)
  ultimately show ?thesis using transport_line_safe [OF assms(1)] hex_line_safe by (simp add: options_one_request)
qed

lemma sip_Probe_adds:
  assumes "probing.rely E" and "trunk_endpoint_checks e" shows "probing.moves (sip_Probe E e)"
  unfolding sip_Probe_def
proof (rule probing.bind_result_moves)
  show "probing.moves (optionsRequest E (e_host e) (e_port e) (e_transport e))"
    unfolding optionsRequest_def by (intro probing.moves_intros wire_adds assms)
next
  fix x s s'
  assume "run_state (optionsRequest E (e_host e) (e_port e) (e_transport e)) s = (x, s')"
  then have "one_request payload" if "x = Inr payload" for payload using payload_one_request [OF assms(2)] that by blast
  then show "probing.moves (case x of
       Inl err \<Rightarrow> State_Monad.return (Inl err)
     | Inr payload \<Rightarrow>
         let address = JoinHostPort (e_host e) (itoa (e_port e))
         in if e_transport e = ''udp'' then probeUDP E address payload
            else if e_transport e = ''tls'' then do {
              c \<leftarrow> sip_dial E address;
              case c of
                Inl err \<Rightarrow> State_Monad.return (Inl (Wrap ''dial SIP TLS endpoint'' err))
              | Inr _ \<Rightarrow> probeStream E payload
            }
            else if e_transport e = ''tcp'' then do {
              c \<leftarrow> sip_dial E address;
              case c of
                Inl err \<Rightarrow> State_Monad.return (Inl (Wrap ''dial SIP endpoint'' err))
              | Inr _ \<Rightarrow> probeStream E payload
            }
            else State_Monad.return (Inl (ErrorString ''unsupported SIP transport'')))"
    unfolding probeUDP_def probeStream_def Let_def
    by (intro probing.moves_intros wire_adds sip_write_adds assms(1)) auto
qed

lemma record_probe_adds: "probing.rely E \<Longrightarrow> probing.moves (record_probe E c i started r)"
  unfolding record_probe_def MarkHealthy_def MarkProbeFailed_def wall_clock_def Let_def
  by (intro probing.moves_intros probing.statement_moves) (simp_all add: adds_probe_def)

lemma check_all_adds:
  "probing.rely E \<Longrightarrow> list_all trunk_endpoint_checks es \<Longrightarrow> probing.moves (check_all E c es)"
proof (induction es)
  case (Cons e es)
  then have "probing.moves (check_all E c es)" "trunk_endpoint_checks e" by simp_all
  then show ?case
    unfolding check_all.simps wall_clock_def by (intro probing.moves_intros sip_Probe_adds record_probe_adds Cons.prems)
qed (simp add: probing.return_moves)

lemma run_statement_Inr:
  assumes "\<forall>t w. interference E t w = w" and "run_state (exec E (statement q)) w = (Inr x, w')"
  obtains d where "q (clock E (tick w)) (database w) = Inr (x, d)"
  using assms
  by (auto simp: exec_def external_def statement_def Let_def case_prod_unfold split: fault.splits sum.splits prod.splits)

lemma claimed_checks:
  assumes "trunk_store_ok E d" and "ListTrunkEndpointsForHealthCheck at due batch now d = Inr (es, d')"
  shows "list_all trunk_endpoint_checks es"
proof -
  have "trunk_store_ok E d'" by (rule health_statements_ok(1) [OF assms])
  moreover have "set es \<subseteq> set (trunk_endpoints d')"
    using assms(2) by (auto simp: ListTrunkEndpointsForHealthCheck_def Let_def)
  ultimately show ?thesis by (auto simp: trunk_store_ok_def endpoints_ok_def list_all_iff)
qed

lemma claim_adds:
  assumes "trunk_store_ok E (database w)" and id: "\<forall>t w. interference E t w = w"
  shows "adds_probe w (snd (run_state (exec E (statement (ListTrunkEndpointsForHealthCheck at due batch)) \<bind> (\<lambda>r. case r of
    Inl err \<Rightarrow> State_Monad.return (Inl (g err)) | Inr es \<Rightarrow> check_all E c es)) w))"
proof (rule probing.bind_moves_from, rule conjI)
  have rely: "probing.rely E" using id by (simp add: probing.refl)
  fix r w' assume run: "run_state (exec E (statement (ListTrunkEndpointsForHealthCheck at due batch))) w = (r, w')"
  have "probing.moves (exec E (statement (ListTrunkEndpointsForHealthCheck at due batch)))"
    by (rule probing.statement_moves [OF rely]) (simp add: adds_probe_def)
  from probing.movesD [OF this, of w] run show "adds_probe w w'" by simp
  have "probing.moves (check_all E c es)" if "r = Inr es" for es
  proof (rule check_all_adds [OF rely])
    from run that have "run_state (exec E (statement (ListTrunkEndpointsForHealthCheck at due batch))) w = (Inr es, w')" by simp
    then obtain d where "ListTrunkEndpointsForHealthCheck at due batch (clock E (tick w)) (database w) = Inr (es, d)"
      by (rule run_statement_Inr [OF id])
    then show "list_all trunk_endpoint_checks es" by (rule claimed_checks [OF assms(1)])
  qed
  then have "probing.moves (case r of Inl err \<Rightarrow> State_Monad.return (Inl (g err)) | Inr es \<Rightarrow> check_all E c es)"
    by (intro probing.moves_intros)
  then show "adds_probe w' (snd (run_state (case r of Inl err \<Rightarrow> State_Monad.return (Inl (g err)) | Inr es \<Rightarrow> check_all E c es) w'))"
    by (rule probing.movesD)
qed

text \<open>
  C29: What a health pass sends is harmless: every message it writes to a carrier is exactly one \<^verbatim>\<open>OPTIONS\<close>
  request of nine non-empty header lines and an empty one. No host name or port of an endpoint can add a
  header line, end the header early or smuggle in a second request, whatever fails.
\<close>

theorem probe_requests_not_injected:
  assumes "trunk_store_ok E (database w)" and "\<forall>t w. interference E t w = w"
  shows "\<exists>l. sip_log (snd (run_state (health_Check E c) w)) = sip_log w @ l \<and> list_all one_request l"
proof -
  have "adds_probe w (snd (run_state (health_Check E c) w))"
    unfolding health_Check_def
  proof (rule probing.bind_moves_from, rule conjI)
    fix now s' assume "run_state (wall_clock E) w = (now, s')"
    then have s': "s' = w" by (simp add: wall_clock_def)
    show "adds_probe w s'" by (simp add: s' probing.refl)
    show "adds_probe s' (snd (run_state (exec E (statement (ListTrunkEndpointsForHealthCheck now
        (now - go_div (hc_interval c) 1000) (hc_batch_size c))) \<bind> (\<lambda>r. case r of
        Inl err \<Rightarrow> State_Monad.return (Inl (Wrap ''claim trunk endpoints'' err)) | Inr es \<Rightarrow> check_all E c es)) s'))"
      unfolding s' by (rule claim_adds [OF assms])
  qed
  then show ?thesis by (simp add: adds_probe_def)
qed

definition wire_world :: world where
  "wire_world = empty_world\<lparr>database := empty_db\<lparr>organizations := [sample_organization], trunks := [sample_trunk],
     trunk_endpoints := [sample_endpoint 8 20\<lparr>e_transport := ''tcp''\<rparr>]\<rparr>\<rparr>"

lemma wire_world_ok: "trunk_store_ok E (database wire_world)"
  by (simp add: wire_world_def trunk_store_ok_def trunks_ok_def credentials_ok_def endpoints_ok_def sources_ok_def
      sample_trunk_def sample_endpoint_def trunk_checks_def trunk_directions_def auth_fields_ok_def has_text_def opt_text_def
      trunk_name_free_def trunk_endpoint_checks_def own_trunk_def auth_columns_def sql_space_def)

lemma sample_pass_runs:
  "case run_state (health_Check sample_env DefaultHealthCheckConfig) wire_world of (r, w') \<Rightarrow> length (sip_log w') = 1 \<and>
     map (\<lambda>e. (e_health_status e, e_last_response_code e)) (trunk_endpoints (database w')) = [(''healthy'', Some 200)]"
  by code_simp

theorem probe_requests_not_injected_witness:
  "\<exists>l. sip_log (snd (run_state (health_Check sample_env DefaultHealthCheckConfig) wire_world)) = l \<and>
     length l = 1 \<and> list_all one_request l"
proof -
  have "\<forall>t w. interference sample_env t w = w" by (simp add: sample_env_def)
  from probe_requests_not_injected [OF wire_world_ok this, of DefaultHealthCheckConfig] obtain l where
    l: "sip_log (snd (run_state (health_Check sample_env DefaultHealthCheckConfig) wire_world)) = sip_log wire_world @ l"
    "list_all one_request l" by (elim exE conjE)
  have "sip_log wire_world = []" by (simp add: wire_world_def)
  with l sample_pass_runs show ?thesis by (simp add: case_prod_unfold)
qed

section \<open>Counting failures\<close>

datatype probe_outcome = Answered_with int int int | No_answer int int string int

fun apply_outcome :: "int \<Rightarrow> probe_outcome \<Rightarrow> trunk_endpoint \<Rightarrow> trunk_endpoint" where
  "apply_outcome threshold (Answered_with at code latency) e = probed_healthy at code latency e"
| "apply_outcome threshold (No_answer at latency msg cooldown) e = probed_failed at latency msg threshold cooldown e"

fun is_answer :: "probe_outcome \<Rightarrow> bool" where
  "is_answer (Answered_with at code latency) = True"
| "is_answer (No_answer at latency msg cooldown) = False"

definition streak :: "probe_outcome list \<Rightarrow> nat" where
  "streak os = length (takeWhile (\<lambda>o'. \<not> is_answer o') (rev os))"

lemma streak_snoc: "streak (os @ [o']) = (if is_answer o' then 0 else Suc (streak os))"
  by (simp add: streak_def)

text \<open>
  C28: The health columns count what they say: after any sequence of probe outcomes of an endpoint that
  started without failures and not unhealthy, the failure column is the number of failures since the last
  answer, and the endpoint is unhealthy and cooling down exactly when that number reached the threshold.
\<close>

theorem health_counts_failure_streak:
  assumes "e_consecutive_failures e = 0" and "e_health_status e \<noteq> ''unhealthy''" and "e_cooldown_until e = None" and "0 < threshold"
  shows "let e' = fold (apply_outcome threshold) os e in
    e_consecutive_failures e' = int (streak os) \<and>
    (e_health_status e' = ''unhealthy'' \<longleftrightarrow> threshold \<le> int (streak os)) \<and>
    (e_cooldown_until e' \<noteq> None \<longleftrightarrow> threshold \<le> int (streak os))"
proof (induction os rule: rev_induct)
  case Nil
  with assms show ?case by (simp add: streak_def)
next
  case (snoc o' os)
  then show ?case
    using assms(4) by (cases o') (auto simp: streak_snoc probed_healthy_def probed_failed_def Let_def)
qed

theorem health_counts_failure_streak_witness:
  "let e' = fold (apply_outcome 2) [Answered_with 1 200 5, No_answer 2 9 ''x'' 90, No_answer 3 9 ''x'' 91] (sample_endpoint 8 10) in
    e_consecutive_failures e' = 2 \<and> e_health_status e' = ''unhealthy'' \<and> e_cooldown_until e' \<noteq> None"
  using health_counts_failure_streak [of "sample_endpoint 8 10" 2 "[Answered_with 1 200 5, No_answer 2 9 ''x'' 90, No_answer 3 9 ''x'' 91]"]
  by (simp add: sample_endpoint_def streak_def Let_def)

section \<open>A pass in a quiet environment\<close>

lemma parseSIPStatus_range: "parseSIPStatus s = Inr code \<Longrightarrow> 100 \<le> code \<and> code \<le> 699"
  by (auto simp: parseSIPStatus_def wrap32_def Let_def split: if_splits option.splits)

lemma readSIPStatus_range: "readSIPStatus r = Inr code \<Longrightarrow> 100 \<le> code \<and> code \<le> 699"
  by (auto simp: readSIPStatus_def dest: parseSIPStatus_range split: sum.splits if_splits)

text \<open>The verdict of a probe that starts at tick \<open>t\<close> in a quiet environment: what the reply it reads says.\<close>

definition probe_answer :: "env \<Rightarrow> nat \<Rightarrow> trunk_endpoint \<Rightarrow> goerr + int" where
  "probe_answer E t e =
     (if e_transport e = ''udp'' then parseSIPStatus (take (64 * 1024) (sip_reply E (t + 3)))
      else readSIPStatus (Inr (sip_reply E (t + 3))))"

lemma probe_answer_range: "probe_answer E t e = Inr code \<Longrightarrow> 100 \<le> code \<and> code \<le> 699"
  by (auto simp: probe_answer_def dest: parseSIPStatus_range readSIPStatus_range split: if_splits)

lemma sip_Probe_quiet:
  assumes "quiet E" and "trunk_endpoint_checks e"
  obtains l where "run_state (sip_Probe E e) w = (probe_answer E (tick w) e, w\<lparr>tick := tick w + 4, sip_log := l\<rparr>)"
proof -
  have wire: "run_state (sip_dial E a) v = (Inr (), v\<lparr>tick := Suc (tick v)\<rparr>)"
    "run_state (sip_write E p) v = (Inr (), v\<lparr>tick := Suc (tick v), sip_log := sip_log v @ [p]\<rparr>)"
    "run_state (sip_read E) v = (Inr (sip_reply E (tick v)), v\<lparr>tick := Suc (tick v)\<rparr>)"
    "run_state (read_random E) v = (Inr (random_bytes E (tick v)), v\<lparr>tick := Suc (tick v)\<rparr>)" for a p v
    using assms by (simp_all add: sip_dial_def sip_write_def sip_read_def read_random_def run_external_quiet)
  note steps = sip_Probe_def optionsRequest_def probeUDP_def probeStream_def wire Let_def
  let ?m = "options_message (JoinHostPort (e_host e) (itoa (e_port e))) (e_transport e) (hex_EncodeToString (random_bytes E (tick w)))"
  have n: "tick w + 3 = Suc (Suc (Suc (tick w)))" "tick w + 4 = Suc (Suc (Suc (Suc (tick w))))" by simp_all
  consider "e_transport e = ''udp''" | "e_transport e = ''tls''" | "e_transport e = ''tcp''"
    using assms(2) by (auto simp: trunk_endpoint_checks_def)
  then have "run_state (sip_Probe E e) w = (probe_answer E (tick w) e, w\<lparr>tick := tick w + 4, sip_log := sip_log w @ [?m]\<rparr>)"
    unfolding probe_answer_def n by cases (simp_all add: steps)
  then show ?thesis by (rule that)
qed

definition timely :: "env \<Rightarrow> bool" where
  "timely E \<longleftrightarrow> (\<forall>t n. n \<le> 4 \<longrightarrow> clock E (t + n) - clock E t < 2 ^ 31 * 1000)"

lemma latency_nonneg: "timely E \<Longrightarrow> n \<le> 4 \<Longrightarrow> 0 \<le> latency_ms (clock E t) (clock E (t + n))"
proof -
  assume "timely E" "n \<le> 4"
  then have d: "clock E (t + n) - clock E t < 2 ^ 31 * 1000" by (simp add: timely_def)
  define x where "x = max (go_div (clock E (t + n) - clock E t) 1000) 0"
  have "x < 2 ^ 31"
  proof (cases "0 \<le> clock E (t + n) - clock E t")
    case True
    then show ?thesis using d by (simp add: x_def go_div_nonneg)
  next
    case False
    then have "go_div (clock E (t + n) - clock E t) 1000 \<le> 0" by (simp add: go_div_def)
    then show ?thesis by (simp add: x_def)
  qed
  moreover have "0 \<le> x" by (simp add: x_def)
  ultimately have "wrap32 x = x" by (simp add: wrap32_def)
  with \<open>0 \<le> x\<close> show ?thesis by (simp add: latency_ms_def x_def)
qed

lemma outcome_checks:
  assumes "trunk_endpoint_checks e" and "100 \<le> code" "code \<le> 699" "0 \<le> latency"
  shows "trunk_endpoint_checks (probed_healthy at code latency e)"
    "trunk_endpoint_checks (probed_failed at latency msg threshold cooldown e)"
  using assms by (auto simp: trunk_endpoint_checks_def probed_healthy_def probed_failed_def Let_def)

lemma change_endpoint_quiet:
  assumes ok: "endpoints_ok ts (trunk_endpoints d)" and e: "e \<in> set (trunk_endpoints d)"
    and f: "\<And>x. e_id (f x) = e_id x \<and> same_target (f x) x" and chk: "trunk_endpoint_checks (f e)"
  shows "change_endpoint (\<lambda>x. e_id x = e_id e) f now d = Inr ((f e)\<lparr>e_updated_at := now\<rparr>,
    d\<lparr>trunk_endpoints := update_where (\<lambda>x. e_id x = e_id e) (\<lambda>x. (f x)\<lparr>e_updated_at := now\<rparr>) (trunk_endpoints d)\<rparr>)"
proof -
  have ids: "distinct (map e_id (trunk_endpoints d))" using ok by (simp add: endpoints_ok_def)
  obtain x where x: "find (\<lambda>x. e_id x = e_id e) (trunk_endpoints d) = Some x"
    using e by (cases "find (\<lambda>x. e_id x = e_id e) (trunk_endpoints d)") (auto simp: find_None_iff)
  then have "x \<in> set (trunk_endpoints d)" "e_id x = e_id e" by (auto simp: find_Some_iff)
  then have "x = e" by (rule distinct_key [OF ids _ e])
  moreover have "trunk_endpoint_checks ((f e)\<lparr>e_updated_at := now\<rparr>)" using chk by (simp add: trunk_endpoint_checks_def)
  moreover have "\<not> list_ex (\<lambda>y. e_id y \<noteq> e_id (f e) \<and> same_target y ((f e)\<lparr>e_updated_at := now\<rparr>)) (trunk_endpoints d)"
    using ok e f [of e] by (auto simp: list_ex_iff endpoints_ok_def same_target_def)
  ultimately show ?thesis
    using x by (simp add: change_endpoint_def update_one_def)
qed

text \<open>
  The row a pass leaves of an endpoint whose probe starts at tick \<open>t\<close>: an answer makes it healthy with the
  code of the reply, anything else counts one failure with the text of the error and, from the threshold
  on, marks it unhealthy and lets it cool down.
\<close>

definition after_probe :: "env \<Rightarrow> health_config \<Rightarrow> nat \<Rightarrow> trunk_endpoint \<Rightarrow> trunk_endpoint" where
  "after_probe E c t e =
     (let finished = clock E (t + 4); failures = e_consecutive_failures e + 1;
          checked = e\<lparr>e_last_checked_at := Some finished, e_updated_at := finished,
            e_last_latency_ms := Some (latency_ms (clock E t) finished)\<rparr>
      in case probe_answer E t e of
        Inr code \<Rightarrow> checked\<lparr>e_health_status := ''healthy'', e_consecutive_failures := 0, e_last_response_code := Some code,
          e_last_error := None, e_cooldown_until := None\<rparr>
      | Inl err \<Rightarrow> checked\<lparr>e_consecutive_failures := failures, e_last_response_code := None,
          e_last_error := Some (take 500 (error_text E err)),
          e_health_status := (if failures < hc_failure_threshold c then e_health_status e else ''unhealthy''),
          e_cooldown_until := (if failures < hc_failure_threshold c then None else Some (finished + go_div (hc_cooldown c) 1000))\<rparr>)"

definition probe_verdict :: "env \<Rightarrow> health_config \<Rightarrow> nat \<Rightarrow> trunk_endpoint \<Rightarrow> probe_outcome" where
  "probe_verdict E c t e =
     (let finished = clock E (t + 4); latency = latency_ms (clock E t) finished
      in case probe_answer E t e of
        Inr code \<Rightarrow> Answered_with finished code latency
      | Inl err \<Rightarrow> No_answer finished latency (take 500 (error_text E err)) (finished + go_div (hc_cooldown c) 1000))"

lemma after_probe_verdict:
  "(apply_outcome (hc_failure_threshold c) (probe_verdict E c t e) e)\<lparr>e_updated_at := clock E (t + 4)\<rparr> = after_probe E c t e"
  by (cases "probe_answer E t e") (simp_all add: after_probe_def probe_verdict_def probed_healthy_def probed_failed_def Let_def)

lemma apply_outcome_keeps [simp]:
  "e_id (apply_outcome th o' x) = e_id x" "same_target (apply_outcome th o' x) x"
  by (cases o'; simp add: probed_healthy_def probed_failed_def same_target_def Let_def)+

lemma probe_verdict_checks:
  assumes "timely E" and "trunk_endpoint_checks e"
  shows "trunk_endpoint_checks (apply_outcome th (probe_verdict E c t e) e)"
proof -
  have "0 \<le> latency_ms (clock E t) (clock E (t + 4))" by (rule latency_nonneg [OF assms(1)]) simp
  then show ?thesis
    using outcome_checks [OF assms(2), of _ "latency_ms (clock E t) (clock E (t + 4))"] outcome_checks(2) [OF assms(2), of 100]
    by (cases "probe_answer E t e") (auto simp: probe_verdict_def Let_def dest: probe_answer_range)
qed

lemma endpoint_step_quiet:
  assumes q: "quiet E" and time: "timely E" and ok: "trunk_store_ok E (database w)" and e: "e \<in> set (trunk_endpoints (database w))"
  obtains r w1 w2 where "run_state (sip_Probe E e) w = (r, w1)"
    "run_state (record_probe E c (e_id e) (clock E (tick w)) r) w1 = (Inr (), w2)" "tick w2 = tick w + 5"
    "database w2 = (database w)\<lparr>trunk_endpoints := update_where (\<lambda>x. e_id x = e_id e)
       (\<lambda>x. (apply_outcome (hc_failure_threshold c) (probe_verdict E c (tick w) e) x)\<lparr>e_updated_at := clock E (tick w + 4)\<rparr>)
       (trunk_endpoints (database w))\<rparr>"
    "trunk_store_ok E (database w2)"
proof -
  let ?o = "probe_verdict E c (tick w) e" and ?th = "hc_failure_threshold c" and ?n = "clock E (tick w + 4)"
  let ?d = "(database w)\<lparr>trunk_endpoints := update_where (\<lambda>x. e_id x = e_id e)
    (\<lambda>x. (apply_outcome ?th ?o x)\<lparr>e_updated_at := ?n\<rparr>) (trunk_endpoints (database w))\<rparr>"
  have E: "endpoints_ok (trunks (database w)) (trunk_endpoints (database w))" and chk: "trunk_endpoint_checks e"
    using ok e by (auto simp: trunk_store_ok_def endpoints_ok_def)
  obtain l where P: "run_state (sip_Probe E e) w = (probe_answer E (tick w) e, w\<lparr>tick := tick w + 4, sip_log := l\<rparr>)"
    by (rule sip_Probe_quiet [OF q chk])
  have ch: "change_endpoint (\<lambda>x. e_id x = e_id e) (apply_outcome ?th ?o) ?n (database w) =
      Inr ((apply_outcome ?th ?o e)\<lparr>e_updated_at := ?n\<rparr>, ?d)"
    by (rule change_endpoint_quiet [OF E e]) (simp_all add: probe_verdict_checks [OF time chk])
  let ?w2 = "w\<lparr>tick := tick w + 5, sip_log := l, database := ?d\<rparr>"
  have "run_state (record_probe E c (e_id e) (clock E (tick w)) (probe_answer E (tick w) e)) (w\<lparr>tick := tick w + 4, sip_log := l\<rparr>) =
      (Inr (), ?w2) \<and> trunk_store_ok E ?d"
  proof (cases "probe_answer E (tick w) e")
    case (Inr code)
    let ?lat = "latency_ms (clock E (tick w)) ?n"
    have eta: "apply_outcome ?th ?o = probed_healthy ?n code ?lat" by (rule ext) (simp add: Inr probe_verdict_def Let_def)
    note st = ch [unfolded eta, folded MarkTrunkEndpointHealthy_def]
    show ?thesis
      using q st health_statements_ok(2) [OF ok st]
      by (simp add: record_probe_def wall_clock_def MarkHealthy_def statement_def on_error_def Inr eta)
  next
    case (Inl err)
    let ?lat = "latency_ms (clock E (tick w)) ?n"
    have eta: "apply_outcome ?th ?o = probed_failed ?n ?lat (take 500 (error_text E err)) ?th (?n + go_div (hc_cooldown c) 1000)"
      by (rule ext) (simp add: Inl probe_verdict_def Let_def)
    note st = ch [unfolded eta, folded MarkTrunkEndpointProbeFailed_def]
    show ?thesis
      using q st health_statements_ok(3) [OF ok st]
      by (simp add: record_probe_def wall_clock_def MarkProbeFailed_def statement_def on_error_def Inl eta)
  qed
  note R = conjunct1 [OF this] and ok2 = conjunct2 [OF this]
  have t2: "tick ?w2 = tick w + 5" and d2: "database ?w2 = ?d" by simp_all
  show ?thesis by (rule that [OF P R t2 d2]) (simp only: d2 ok2)
qed

text \<open>
  What a pass makes of the table, the endpoints \<open>ids\<close> probed in this order from tick \<open>t\<close> on, five ticks
  each: random bytes, dialling, writing, reading and the update of the row.
\<close>

definition settles :: "env \<Rightarrow> health_config \<Rightarrow> nat \<Rightarrow> uuid list \<Rightarrow> trunk_endpoint list \<Rightarrow> trunk_endpoint list \<Rightarrow> bool" where
  "settles E c t ids es es' \<longleftrightarrow>
     list_all2 (\<lambda>e e'. if e_id e \<in> set ids then \<exists>k < length ids. ids ! k = e_id e \<and> e' = after_probe E c (t + 5 * k) e
                       else e' = e) es es'"

lemma settles_step:
  assumes s: "settles E c (t + 5) ids (update_where (\<lambda>x. e_id x = e_id p) g es) es'" and p: "p \<in> set es" "distinct (map e_id es)"
    and g: "g p = after_probe E c t p" "e_id (g p) = e_id p" and new: "e_id p \<notin> set ids"
  shows "settles E c t (e_id p # ids) es es'"
  unfolding settles_def list_all2_conv_all_nth
proof (intro conjI allI impI)
  show "length es = length es'" using s by (auto simp: settles_def dest: list_all2_lengthD)
  fix i assume i: "i < length es"
  let ?x = "es ! i" and ?y = "update_where (\<lambda>x. e_id x = e_id p) g es ! i"
  have row: "if e_id ?y \<in> set ids then \<exists>k < length ids. ids ! k = e_id ?y \<and> es' ! i = after_probe E c (t + 5 + 5 * k) ?y else es' ! i = ?y"
    using list_all2_nthD [OF s [unfolded settles_def], of i] i by simp
  show "if e_id ?x \<in> set (e_id p # ids) then \<exists>k < length (e_id p # ids). (e_id p # ids) ! k = e_id ?x \<and> es' ! i = after_probe E c (t + 5 * k) ?x
      else es' ! i = ?x"
  proof (cases "e_id ?x = e_id p")
    case True
    then have "?x = p" using distinct_key [OF p(2) nth_mem [OF i] p(1)] by simp
    then have "es' ! i = after_probe E c t p" using row i g new by simp
    then show ?thesis using True \<open>?x = p\<close> by (auto intro: exI [of _ 0])
  next
    case False
    then have y: "?y = ?x" using i by simp
    have "\<exists>k < length (e_id p # ids). (e_id p # ids) ! k = e_id ?x \<and> es' ! i = after_probe E c (t + 5 * k) ?x" if in_ids: "e_id ?x \<in> set ids"
    proof -
      from row in_ids y obtain k where "k < length ids" "ids ! k = e_id ?x" "es' ! i = after_probe E c (t + 5 + 5 * k) ?x" by auto
      then show ?thesis by (intro exI [of _ "Suc k"]) (simp add: algebra_simps)
    qed
    with row y False show ?thesis by auto
  qed
qed

lemma check_all_quiet:
  assumes "quiet E" and "timely E"
  shows "trunk_store_ok E (database w) \<Longrightarrow> distinct (map e_id es) \<Longrightarrow> set es \<subseteq> set (trunk_endpoints (database w)) \<Longrightarrow>
    \<exists>w'. run_state (check_all E c es) w = (Inr (), w') \<and>
      settles E c (tick w) (map e_id es) (trunk_endpoints (database w)) (trunk_endpoints (database w'))"
proof (induction es arbitrary: w)
  case Nil
  then show ?case by (auto simp: settles_def intro: list_all2_refl)
next
  case (Cons p es)
  let ?rows = "trunk_endpoints (database w)"
  let ?g = "\<lambda>x. (apply_outcome (hc_failure_threshold c) (probe_verdict E c (tick w) p) x)\<lparr>e_updated_at := clock E (tick w + 4)\<rparr>"
  have p: "p \<in> set ?rows" using Cons.prems(3) by simp
  obtain r w1 w2 where P: "run_state (sip_Probe E p) w = (r, w1)"
    and R: "run_state (record_probe E c (e_id p) (clock E (tick w)) r) w1 = (Inr (), w2)" and t2: "tick w2 = tick w + 5"
    and d2: "database w2 = (database w)\<lparr>trunk_endpoints := update_where (\<lambda>x. e_id x = e_id p) ?g ?rows\<rparr>"
    and ok2: "trunk_store_ok E (database w2)"
    by (rule endpoint_step_quiet [OF assms Cons.prems(1) p])
  have "set es \<subseteq> set (trunk_endpoints (database w2))"
  proof
    fix x assume x: "x \<in> set es"
    have "e_id x \<in> set (map e_id es)" using x by simp
    then have "e_id x \<noteq> e_id p" using Cons.prems(2) by auto
    moreover have "x \<in> set ?rows" using x Cons.prems(3) by auto
    ultimately show "x \<in> set (trunk_endpoints (database w2))" by (force simp: d2 set_update_where)
  qed
  with Cons.IH [OF ok2] Cons.prems(2) obtain w' where w': "run_state (check_all E c es) w2 = (Inr (), w')"
    and s: "settles E c (tick w + 5) (map e_id es) (update_where (\<lambda>x. e_id x = e_id p) ?g ?rows) (trunk_endpoints (database w'))"
    by (auto simp: t2 d2)
  have "distinct (map e_id ?rows)" using Cons.prems(1) by (simp add: trunk_store_ok_def endpoints_ok_def)
  from settles_step [OF s p this after_probe_verdict] Cons.prems(2)
  have "settles E c (tick w) (map e_id (p # es)) ?rows (trunk_endpoints (database w'))" by simp
  moreover have "run_state (check_all E c (p # es)) w = (Inr (), w')" using P R w' by (simp add: wall_clock_def)
  ultimately show ?case by blast
qed

text \<open>
  The endpoints that are to be checked at a time: enabled, of an active trunk of their organization, not
  cooling down, and not checked within the interval. A pass claims at most a batch of them, all of them
  when they are fewer, and never one before another whose last check is older.
\<close>

definition due_for_check :: "health_config \<Rightarrow> int \<Rightarrow> db \<Rightarrow> trunk_endpoint set" where
  "due_for_check c now d = {e \<in> set (trunk_endpoints d). e_enabled e \<and>
     (\<exists>t \<in> set (trunks d). t_id t = e_trunk_id e \<and> t_organization_id t = e_organization_id e \<and> t_status t = ''active'') \<and>
     (\<forall>u. e_cooldown_until e = Some u \<longrightarrow> u \<le> now) \<and>
     (\<forall>l. e_last_checked_at e = Some l \<longrightarrow> l + go_div (hc_interval c) 1000 \<le> now)}"

definition checked_earlier :: "trunk_endpoint \<Rightarrow> trunk_endpoint \<Rightarrow> bool" where
  "checked_earlier e f \<longleftrightarrow> (case (e_last_checked_at e, e_last_checked_at f) of
     (None, _) \<Rightarrow> True | (Some l, None) \<Rightarrow> False | (Some l, Some m) \<Rightarrow> l \<le> m)"

definition claims_due :: "health_config \<Rightarrow> int \<Rightarrow> db \<Rightarrow> uuid list \<Rightarrow> bool" where
  "claims_due c now d ids \<longleftrightarrow> distinct ids \<and> length ids \<le> nat (hc_batch_size c) \<and>
     set ids \<subseteq> e_id ` due_for_check c now d \<and>
     (length ids < nat (hc_batch_size c) \<longrightarrow> set ids = e_id ` due_for_check c now d) \<and>
     (\<forall>e \<in> due_for_check c now d. \<forall>f \<in> due_for_check c now d. e_id e \<in> set ids \<and> e_id f \<notin> set ids \<longrightarrow> checked_earlier e f)"

lemma health_due_set:
  "set (filter (health_due d now (now - go_div (hc_interval c) 1000)) (trunk_endpoints d)) = due_for_check c now d"
  by (auto simp: health_due_def due_for_check_def list_ex_iff algebra_simps split: option.splits)

lemma due_order_sorted: "sorted_wrt checked_earlier (due_order es)"
proof -
  let ?f = "\<lambda>e. or_else (e_last_checked_at e) 0" and ?g = "\<lambda>e. if e_last_checked_at e = None then 0 else (1::int)"
  have flt: "sorted_wrt R (filter P xs) \<longleftrightarrow> sorted_wrt (\<lambda>a b. P a \<longrightarrow> P b \<longrightarrow> R a b) xs" for R P and xs :: "trunk_endpoint list"
    by (induction xs) auto
  have "sorted_wrt (\<lambda>a b. ?g a \<le> ?g b) (due_order es)"
    unfolding due_order_def using sorted_sort_key [of ?g "sort_key ?f es"] by (simp add: sorted_map)
  moreover have "sorted_wrt (\<lambda>a b. ?f a \<le> ?f b) (filter (\<lambda>x. ?g x = 1) (due_order es))"
    unfolding due_order_def sort_key_stable using sorted_sort_key [of ?f es] by (simp add: sorted_map sorted_wrt_filter)
  ultimately have "sorted_wrt (\<lambda>a b. ?g a \<le> ?g b \<and> (?g a = 1 \<longrightarrow> ?g b = 1 \<longrightarrow> ?f a \<le> ?f b)) (due_order es)"
    unfolding flt by (simp add: sorted_wrt_iff_nth_less)
  then show ?thesis
    by (rule sorted_wrt_mono_rel [rotated]) (auto simp: checked_earlier_def or_else_def split: option.splits if_splits)
qed

text \<open>The claim stamps the rows it takes; a probe writes the stamped columns anew.\<close>

lemma settles_stamped:
  assumes s: "settles E c t ids (update_where (\<lambda>e. e_id e \<in> S) (\<lambda>e. e\<lparr>e_last_checked_at := Some now, e_updated_at := now\<rparr>) es) es'"
    and "set ids = S"
  shows "settles E c t ids es es'"
proof -
  have "probe_answer E u (e\<lparr>e_last_checked_at := Some now, e_updated_at := now\<rparr>) = probe_answer E u e" for u e
    by (simp add: probe_answer_def)
  then have "after_probe E c u (e\<lparr>e_last_checked_at := Some now, e_updated_at := now\<rparr>) = after_probe E c u e" for u e
    by (cases "probe_answer E u e") (simp_all add: after_probe_def Let_def)
  then show ?thesis
    using s assms(2) by (auto simp: settles_def list_all2_conv_all_nth split: if_splits)
qed

lemma claims_due_batch:
  assumes rows: "distinct (map e_id (trunk_endpoints d))" and ids: "distinct ids"
    "set ids = e_id ` set (take (nat (hc_batch_size c)) (due_order (filter (health_due d now (now - go_div (hc_interval c) 1000)) (trunk_endpoints d))))"
  shows "claims_due c now d ids"
proof -
  let ?n = "nat (hc_batch_size c)" and ?due = "filter (health_due d now (now - go_div (hc_interval c) 1000)) (trunk_endpoints d)"
  define xs where "xs = due_order ?due"
  have xs: "set xs = due_for_check c now d" by (simp add: xs_def due_order_def flip: health_due_set)
  have dist: "distinct (map e_id xs)"
    using distinct_map_filter [OF rows] by (simp add: xs_def due_order_def distinct_map)
  have t: "set ids = e_id ` set (take ?n xs)" using ids(2) by (simp add: xs_def)
  have len: "length ids = length (take ?n xs)"
  proof -
    have "length ids = card (set (map e_id (take ?n xs)))" using distinct_card [OF ids(1)] t by simp
    also have "\<dots> = length (map e_id (take ?n xs))"
      unfolding take_map [symmetric] by (rule distinct_card [OF distinct_take [OF dist]])
    also have "\<dots> = length (take ?n xs)" by simp
    finally show ?thesis .
  qed
  have "checked_earlier e f" if "e \<in> set xs" "f \<in> set xs" "e_id e \<in> set ids" "e_id f \<notin> set ids" for e f
  proof -
    have "e \<in> set (take ?n xs)"
      using that(1,3) dist by (auto simp: t distinct_map inj_on_def dest: in_set_takeD)
    moreover have "f \<in> set (drop ?n xs)"
      using that(2,4) by (subst (asm) append_take_drop_id [of ?n, symmetric]) (auto simp: t simp del: append_take_drop_id)
    ultimately show ?thesis
      using due_order_sorted [of ?due, folded xs_def] sorted_wrt_append [of checked_earlier "take ?n xs" "drop ?n xs"] by simp
  qed
  moreover have "set ids \<subseteq> e_id ` set xs" using t by (auto dest: in_set_takeD)
  ultimately show ?thesis using ids(1) len t by (auto simp: claims_due_def simp flip: xs)
qed

text \<open>
  C23: A quiet health pass checks what is due and records what it saw: it claims at most a batch of the due
  endpoints, those checked longest ago first and all of them when they fit; the endpoints it claimed are
  probed one after the other, and each ends with the row its own reply demands, healthy with the code of
  a valid SIP status and one failure more otherwise; every other endpoint keeps its row, and the pass
  reports no error.
\<close>

theorem health_pass_settles_claimed:
  assumes "quiet E" and "timely E" and "trunk_store_ok E (database w)"
  shows "\<exists>w' ids. run_state (health_Check E c) w = (Inr (), w') \<and> claims_due c (clock E (tick w)) (database w) ids \<and>
    settles E c (tick w + 1) ids (trunk_endpoints (database w)) (trunk_endpoints (database w'))"
proof -
  let ?now = "clock E (tick w)" and ?d = "database w"
  define S where "S = e_id ` set (take (nat (hc_batch_size c))
     (due_order (filter (health_due ?d ?now (?now - go_div (hc_interval c) 1000)) (trunk_endpoints ?d))))"
  let ?stamp = "\<lambda>e. e\<lparr>e_last_checked_at := Some ?now, e_updated_at := ?now\<rparr>"
  let ?rows = "update_where (\<lambda>e. e_id e \<in> S) ?stamp (trunk_endpoints ?d)"
  let ?es = "filter (\<lambda>e. e_id e \<in> S) ?rows" and ?w1 = "w\<lparr>tick := Suc (tick w), database := ?d\<lparr>trunk_endpoints := ?rows\<rparr>\<rparr>"
  have st: "ListTrunkEndpointsForHealthCheck ?now (?now - go_div (hc_interval c) 1000) (hc_batch_size c) ?now ?d =
      Inr (?es, ?d\<lparr>trunk_endpoints := ?rows\<rparr>)"
    by (simp add: ListTrunkEndpointsForHealthCheck_def S_def Let_def)
  have ok1: "trunk_store_ok E (database ?w1)" using health_statements_ok(1) [OF assms(3) st] by simp
  have keys: "map e_id ?rows = map e_id (trunk_endpoints ?d)" by (rule map_update_where) simp
  have dist: "distinct (map e_id (trunk_endpoints ?d))" using assms(3) by (simp add: trunk_store_ok_def endpoints_ok_def)
  have des: "distinct (map e_id ?es)" by (rule distinct_map_filter) (simp add: keys dist)
  from check_all_quiet [OF assms(1,2) ok1 this] obtain w' where w': "run_state (check_all E c ?es) ?w1 = (Inr (), w')"
    and s: "settles E c (tick w + 1) (map e_id ?es) ?rows (trunk_endpoints (database w'))" by auto
  have "S \<subseteq> set (map e_id (trunk_endpoints ?d))" by (auto simp: S_def due_order_def dest!: in_set_takeD)
  then have sub: "S \<subseteq> set (map e_id ?rows)" unfolding keys .
  have "set (map e_id (filter (\<lambda>e. e_id e \<in> S) xs)) = set (map e_id xs) \<inter> S" for xs by auto
  then have ids: "set (map e_id ?es) = S" using sub by blast
  then have "claims_due c ?now ?d (map e_id ?es)" by (intro claims_due_batch dist des) (simp add: S_def)
  moreover have "settles E c (tick w + 1) (map e_id ?es) (trunk_endpoints ?d) (trunk_endpoints (database w'))"
    by (rule settles_stamped [OF s]) (use ids in auto)
  moreover have "run_state (health_Check E c) w = (Inr (), w')"
    using assms(1) st w' by (simp add: health_Check_def wall_clock_def statement_def)
  ultimately show ?thesis by blast
qed

theorem health_pass_settles_claimed_witness:
  "\<exists>w' ids. run_state (health_Check sample_env DefaultHealthCheckConfig) wire_world = (Inr (), w') \<and>
    claims_due DefaultHealthCheckConfig 0 (database wire_world) ids \<and>
    settles sample_env DefaultHealthCheckConfig 1 ids (trunk_endpoints (database wire_world)) (trunk_endpoints (database w')) \<and>
    map (\<lambda>e. (e_health_status e, e_last_response_code e)) (trunk_endpoints (database w')) = [(''healthy'', Some 200)]"
proof -
  have "timely sample_env" by (auto simp: timely_def sample_env_def)
  from health_pass_settles_claimed [OF quiet_sample this wire_world_ok, of DefaultHealthCheckConfig] obtain w' ids where
    r: "run_state (health_Check sample_env DefaultHealthCheckConfig) wire_world = (Inr (), w')" and
    p: "claims_due DefaultHealthCheckConfig (clock sample_env (tick wire_world)) (database wire_world) ids"
    "settles sample_env DefaultHealthCheckConfig (tick wire_world + 1) ids (trunk_endpoints (database wire_world)) (trunk_endpoints (database w'))"
    by (elim exE conjE)
  have t: "tick wire_world = 0" "clock sample_env 0 = 0" by (simp_all add: wire_world_def sample_env_def)
  have "map (\<lambda>e. (e_health_status e, e_last_response_code e)) (trunk_endpoints (database w')) = [(''healthy'', Some 200)]"
    using sample_pass_runs unfolding r prod.case by (rule conjunct2)
  with r p [unfolded t add_0] show ?thesis by (intro exI [of _ w'] exI [of _ ids] conjI)
qed

section \<open>An endpoint disappears during a pass\<close>

definition deleting_env :: env where
  "deleting_env = sample_env\<lparr>interference := (\<lambda>t w. if t = 5
     then w\<lparr>database := (database w)\<lparr>trunk_endpoints := filter (\<lambda>e. e_id e \<noteq> 8) (trunk_endpoints (database w))\<rparr>\<rparr> else w)\<rparr>"

definition two_endpoints_world :: world where
  "two_endpoints_world = empty_world\<lparr>database := empty_db\<lparr>organizations := [sample_organization], trunks := [sample_trunk],
     trunk_endpoints := [sample_endpoint 8 20\<lparr>e_transport := ''tcp''\<rparr>, sample_endpoint 9 20\<lparr>e_host := ''other'', e_transport := ''tcp''\<rparr>]\<rparr>\<rparr>"

text \<open>
  A pass depends on every endpoint it claimed: when one of them is deleted while it is probed, the
  update of its row finds nothing, the pass ends with an error, and the endpoints after it, already
  stamped as checked, are not probed until their next turn.
\<close>

theorem deleted_endpoint_ends_pass:
  "case run_state (health_Check deleting_env DefaultHealthCheckConfig) two_endpoints_world of (r, w') \<Rightarrow>
     r = Inl (Wrap ''mark trunk endpoint healthy'' ErrNoRows) \<and> length (sip_log w') = 1 \<and>
     map (\<lambda>e. (e_id e, e_last_checked_at e, e_last_response_code e)) (trunk_endpoints (database w')) = [(9, Some 0, None)]"
  by code_simp

end
