(* ===== verification/FilePaths.thy ===== *)
theory FilePaths
  imports NetAddr
begin

text \<open>
  Slash-separated paths: what the repository uses of \<^verbatim>\<open>path\<close> and \<^verbatim>\<open>path/filepath\<close> (\<^verbatim>\<open>Clean\<close>, \<^verbatim>\<open>IsAbs\<close>, \<^verbatim>\<open>Rel\<close>
  and \<^verbatim>\<open>Ext\<close>). Shown: cleaning leaves no empty, dot or dot-dot element in an absolute path, and a path is
  relative to a directory without going up exactly when the elements of the directory start those of
  the path.
\<close>

section \<open>Functions\<close>

text \<open>\<^verbatim>\<open>Clean\<close> on the elements between slashes, the ones kept so far in reverse order.\<close>

fun clean_parts :: "bool \<Rightarrow> string list \<Rightarrow> string list \<Rightarrow> string list" where
  "clean_parts rooted acc [] = rev acc"
| "clean_parts rooted acc (c # cs) =
     (if c = [] \<or> c = ''.'' then clean_parts rooted acc cs
      else if c = ''..''
      then (case acc of
              [] \<Rightarrow> clean_parts rooted (if rooted then [] else [c]) cs
            | a # as \<Rightarrow> if a = ''..'' then clean_parts rooted (c # acc) cs else clean_parts rooted as cs)
      else clean_parts rooted (c # acc) cs)"

definition IsAbs :: "string \<Rightarrow> bool" where
  "IsAbs p \<longleftrightarrow> has_prefix ''/'' p"

definition path_parts :: "string \<Rightarrow> string list" where
  "path_parts p = clean_parts (IsAbs p) [] (split_on (CHR ''/'') p)"

definition Clean :: "string \<Rightarrow> string" where
  "Clean p =
     (let s = join ''/'' (path_parts p)
      in if IsAbs p then CHR ''/'' # s else if s = [] then ''.'' else s)"

fun strip_common :: "string list \<Rightarrow> string list \<Rightarrow> string list \<times> string list" where
  "strip_common (b # bs) (t # ts) = (if b = t then strip_common bs ts else (b # bs, t # ts))"
| "strip_common bs ts = (bs, ts)"

text \<open>
  \<^verbatim>\<open>Rel\<close> for an absolute base, which is all the code passes: the staging directory is checked to be absolute
  and \<^verbatim>\<open>EvalSymlinks\<close> keeps a path absolute.
\<close>

definition Rel :: "string \<Rightarrow> string \<Rightarrow> goerr + string" where
  "Rel base targ =
     (if \<not> IsAbs base \<or> \<not> IsAbs targ then Inl (ErrorString ''Rel: can't make path relative'')
      else
        case strip_common (path_parts base) (path_parts targ) of (bs, ts) \<Rightarrow>
          let r = join ''/'' (replicate (length bs) ''..'' @ ts) in Inr (if r = [] then ''.'' else r))"

definition Ext :: "string \<Rightarrow> string" where
  "Ext p =
     (let r = takeWhile (\<lambda>c. c \<noteq> CHR ''/'') (rev p)
      in if CHR ''.'' \<in> set r then CHR ''.'' # rev (takeWhile (\<lambda>c. c \<noteq> CHR ''.'') r) else [])"

text \<open>The code's test of a relative path, and what it is meant to decide: the path lies under the directory.\<close>

definition goes_out :: "string \<Rightarrow> bool" where
  "goes_out r \<longleftrightarrow> r = ''.'' \<or> r = ''..'' \<or> has_prefix ''../'' r"

definition below :: "string \<Rightarrow> string \<Rightarrow> bool" where
  "below dir p \<longleftrightarrow> IsAbs dir \<and> IsAbs p \<and> (\<exists>rest. rest \<noteq> [] \<and> path_parts p = path_parts dir @ rest)"

section \<open>Lemmas\<close>

lemma split_on_ne: "split_on sep s \<noteq> []"
  by (cases s) (auto split: list.splits)

lemma split_on_parts: "x \<in> set (split_on sep s) \<Longrightarrow> sep \<notin> set x"
proof (induction s arbitrary: x)
  case (Cons c cs)
  show ?case
  proof (cases "c = sep")
    case True
    with Cons show ?thesis by auto
  next
    case False
    obtain l ls where l: "split_on sep cs = l # ls" using split_on_ne by (metis neq_Nil_conv)
    with Cons False show ?thesis by (auto simp: l)
  qed
qed simp

definition plain_part :: "string \<Rightarrow> bool" where
  "plain_part c \<longleftrightarrow> c \<noteq> [] \<and> c \<noteq> ''.'' \<and> c \<noteq> ''..'' \<and> CHR ''/'' \<notin> set c"

text \<open>What holds of the elements, apart from the empty and dotted ones, holds of the cleaned ones.\<close>

lemma clean_parts_all:
  assumes "\<forall>c \<in> set cs. c \<noteq> [] \<and> c \<noteq> ''.'' \<and> (rooted \<longrightarrow> c \<noteq> ''..'') \<longrightarrow> P c"
  shows "\<forall>c \<in> set acc. P c \<Longrightarrow> \<forall>c \<in> set (clean_parts rooted acc cs). P c"
  using assms
proof (induction cs arbitrary: acc)
  case (Cons c cs)
  have rest: "\<forall>c \<in> set cs. c \<noteq> [] \<and> c \<noteq> ''.'' \<and> (rooted \<longrightarrow> c \<noteq> ''..'') \<longrightarrow> P c" using Cons.prems(2) by simp
  show ?case
  proof (cases "c = [] \<or> c = ''.''")
    case True
    then have "clean_parts rooted acc (c # cs) = clean_parts rooted acc cs" by auto
    with Cons.IH [OF Cons.prems(1) rest] show ?thesis by simp
  next
    case False
    have P: "c = ''..'' \<longrightarrow> \<not> rooted \<Longrightarrow> P c" using Cons.prems(2) False by auto
    show ?thesis
    proof (cases "c = ''..''")
      case dots: True
      show ?thesis
      proof (cases acc)
        case Nil
        have "\<forall>x \<in> set (if rooted then [] else [c]). P x" using P by simp
        from Cons.IH [OF this rest] show ?thesis using dots Nil by simp
      next
        case (Cons a as)
        show ?thesis
        proof (cases "a = ''..''")
          case True
          then have "P c" using Cons.prems(1) Cons dots by simp
          then have "\<forall>x \<in> set (c # acc). P x" using Cons.prems(1) by simp
          from Cons.IH [OF this rest] show ?thesis using dots Cons True by simp
        next
          case False
          have "\<forall>x \<in> set as. P x" using Cons.prems(1) Cons by simp
          from Cons.IH [OF this rest] show ?thesis using dots Cons False by simp
        qed
      qed
    next
      case no: False
      then have "\<forall>x \<in> set (c # acc). P x" using Cons.prems(1) P by simp
      from Cons.IH [OF this rest] show ?thesis using no False by simp
    qed
  qed
qed simp

lemma path_parts_plain: "IsAbs p \<Longrightarrow> c \<in> set (path_parts p) \<Longrightarrow> plain_part c"
  using clean_parts_all [of "split_on (CHR ''/'') p" True plain_part "[]"] split_on_parts [of _ "CHR ''/''" p]
  by (simp add: path_parts_def plain_part_def)

lemma clean_parts_id: "\<forall>c \<in> set cs. plain_part c \<Longrightarrow> clean_parts rooted acc cs = rev acc @ cs"
  by (induction cs arbitrary: acc) (auto simp: plain_part_def)

lemma split_on_piece_append: "sep \<notin> set a \<Longrightarrow> split_on sep (a @ sep # b) = a # split_on sep b"
  by (induction a) auto

lemma split_on_single: "sep \<notin> set a \<Longrightarrow> split_on sep a = [a]"
  by (induction a) auto

lemma split_join: "cs \<noteq> [] \<Longrightarrow> \<forall>c \<in> set cs. sep \<notin> set c \<Longrightarrow> split_on sep (join [sep] cs) = cs"
  by (induction "[sep]" cs rule: join.induct) (simp_all add: split_on_single split_on_piece_append)

lemma parts_of_absolute:
  assumes "\<forall>c \<in> set cs. plain_part c"
  shows "path_parts (CHR ''/'' # join ''/'' cs) = cs"
proof -
  have "split_on (CHR ''/'') (join ''/'' cs) = cs" if "cs \<noteq> []"
    by (rule split_join [OF that]) (use assms in \<open>auto simp: plain_part_def\<close>)
  then show ?thesis
    using clean_parts_id [OF assms] by (cases "cs = []") (simp_all add: path_parts_def IsAbs_def has_prefix_def)
qed

lemma path_parts_Clean: "IsAbs p \<Longrightarrow> path_parts (Clean p) = path_parts p"
  by (simp add: Clean_def Let_def parts_of_absolute path_parts_plain)

lemma IsAbs_Clean [simp]: "IsAbs (Clean p) = IsAbs p"
proof (cases "IsAbs p")
  case False
  have parts: "\<forall>c \<in> set (path_parts p). c \<noteq> [] \<and> CHR ''/'' \<notin> set c"
    unfolding path_parts_def by (rule clean_parts_all) (auto dest: split_on_parts)
  show ?thesis
  proof (cases "path_parts p")
    case Nil
    with False show ?thesis by (simp add: Clean_def IsAbs_def has_prefix_def)
  next
    case (Cons c cs)
    obtain rest where j: "join ''/'' (path_parts p) = c @ rest" by (cases cs) (simp_all add: Cons)
    obtain x xs where c: "c = x # xs" using parts Cons by (cases c) simp_all
    then have "x \<noteq> CHR ''/''" using parts Cons by auto
    with False show ?thesis by (simp add: Clean_def Let_def j c) (simp add: IsAbs_def has_prefix_def)
  qed
qed (simp add: Clean_def Let_def IsAbs_def has_prefix_def)

lemma Clean_idem: "IsAbs p \<Longrightarrow> Clean (Clean p) = Clean p"
  by (simp add: Clean_def [of "Clean p"] path_parts_Clean Let_def) (simp add: Clean_def Let_def)

lemma strip_common_prefix: "strip_common bs ts = (bs', ts') \<Longrightarrow> \<exists>cs. bs = cs @ bs' \<and> ts = cs @ ts'"
proof (induction bs ts rule: strip_common.induct)
  case (1 b bs t ts)
  show ?case
  proof (cases "b = t")
    case True
    with 1 obtain cs where "bs = cs @ bs' \<and> ts = cs @ ts'" by auto
    with True show ?thesis by (intro exI [of _ "b # cs"]) simp
  next
    case False
    with 1 show ?thesis by (intro exI [of _ "[]"]) simp
  qed
qed simp_all

lemma strip_common_append: "strip_common cs (cs @ ts) = ([], ts)"
  by (induction cs) simp_all

lemma goes_out_join:
  assumes "\<forall>c \<in> set ts. plain_part c" "ts \<noteq> []"
  shows "\<not> goes_out (join ''/'' ts)"
proof -
  obtain c cs where ts: "ts = c # cs" using assms(2) by (cases ts) auto
  have c: "plain_part c" using assms(1) ts by simp
  show ?thesis
  proof (cases cs)
    case Nil
    have "\<not> has_prefix ''../'' c"
    proof
      assume "has_prefix ''../'' c"
      then have "CHR ''/'' \<in> set (take (length ''../'') c)" unfolding has_prefix_def by (metis list.set_intros)
      then have "CHR ''/'' \<in> set c" by (rule in_set_takeD)
      with c show False by (simp add: plain_part_def)
    qed
    with c show ?thesis by (simp add: ts Nil goes_out_def plain_part_def)
  next
    case (Cons d ds)
    let ?j = "c @ CHR ''/'' # join ''/'' (d # ds)"
    have sp: "split_on (CHR ''/'') ?j = c # split_on (CHR ''/'') (join ''/'' (d # ds))"
      using c by (simp add: split_on_piece_append plain_part_def)
    have "?j \<noteq> ''.''" "?j \<noteq> ''..''" using c by (auto simp: plain_part_def Cons_eq_append_conv append_eq_Cons_conv)
    moreover have "\<not> has_prefix ''../'' ?j"
    proof
      assume "has_prefix ''../'' ?j"
      then obtain x where "?j = ''..'' @ CHR ''/'' # x" unfolding has_prefix_def
        by (metis append_Cons append_Nil append_take_drop_id)
      moreover have "split_on (CHR ''/'') (''..'' @ CHR ''/'' # x) = ''..'' # split_on (CHR ''/'') x"
        by (rule split_on_piece_append) simp
      ultimately have "c = ''..''" using sp by simp
      with c show False by (simp add: plain_part_def)
    qed
    ultimately show ?thesis by (simp add: ts Cons goes_out_def)
  qed
qed

text \<open>The test on the relative path decides whether a path lies below a directory.\<close>

lemma Rel_below: "(case Rel dir p of Inl _ \<Rightarrow> False | Inr r \<Rightarrow> \<not> goes_out r) \<longleftrightarrow> below dir p"
proof (cases "IsAbs dir \<and> IsAbs p")
  case True
  obtain bs ts where st: "strip_common (path_parts dir) (path_parts p) = (bs, ts)" by (metis surj_pair)
  then obtain cs where cs: "path_parts dir = cs @ bs" "path_parts p = cs @ ts" by (auto dest: strip_common_prefix)
  have plain: "\<forall>c \<in> set ts. plain_part c" using path_parts_plain [of p] True cs by auto
  show ?thesis
  proof (cases bs)
    case Nil
    have "ts \<noteq> [] \<Longrightarrow> join ''/'' ts \<noteq> []"
      using plain by (cases ts; cases "tl ts") (auto simp: plain_part_def)
    with True st Nil cs goes_out_join [OF plain] show ?thesis
      by (cases "ts = []") (auto simp: Rel_def below_def goes_out_def)
  next
    case (Cons b bs')
    have "\<not> below dir p"
    proof
      assume "below dir p"
      then obtain rest where "path_parts p = path_parts dir @ rest" by (auto simp: below_def)
      with st Cons show False by (simp add: strip_common_append)
    qed
    moreover have "goes_out (join ''/'' (''..'' # xs))" for xs
      by (cases xs) (simp_all add: goes_out_def has_prefix_def)
    then have "goes_out (join ''/'' (replicate (length bs) ''..'' @ ts))" by (simp add: Cons)
    moreover have "join ''/'' (replicate (length bs) ''..'' @ ts) \<noteq> []"
      by (cases "replicate (length bs') ''..'' @ ts") (simp_all add: Cons)
    ultimately show ?thesis using True st by (simp add: Rel_def Let_def)
  qed
qed (auto simp: Rel_def below_def)

lemma Ext_no_slash: "CHR ''/'' \<notin> set (Ext p)"
proof -
  have "CHR ''/'' \<notin> set (takeWhile (\<lambda>c. c \<noteq> CHR ''/'') (rev p))" by (auto dest: set_takeWhileD)
  then show ?thesis by (auto simp: Ext_def Let_def dest!: set_takeWhileD)
qed

lemma Ext_dots: "CHR ''.'' \<notin> set (drop 1 (Ext p))"
  by (auto simp: Ext_def Let_def dest: set_takeWhileD)

end
