(* ===== verification/ObjectStores.thy ===== *)
theory ObjectStores
  imports TrunkHealth FilePaths
begin

text \<open>
  Object stores: the S3 and MinIO clients (\<^verbatim>\<open>integrations/s3/client.go\<close>, \<^verbatim>\<open>integrations/minio/client.go\<close>) and the
  storage integrations of an organization (\<^verbatim>\<open>platform/storage\<close> with \<^verbatim>\<open>sqlc/storage_integrations.sql.go\<close>). The
  MinIO library and the DNS resolver are external: a request is a step of the world that is logged, and
  resolved addresses are arguments.
\<close>

section \<open>Public addresses\<close>

text \<open>The address classes of \<^verbatim>\<open>netip.Addr\<close>, on unmapped addresses; those of \<^verbatim>\<open>net.IP\<close> unmap first.\<close>

fun IsUnspecified :: "ip_addr \<Rightarrow> bool" where
  "IsUnspecified (IP4 w) = (w = 0)"
| "IsUnspecified (IP6 w) = (w = 0)"

fun IsLoopback :: "ip_addr \<Rightarrow> bool" where
  "IsLoopback (IP4 w) = (drop_bit 24 w = 127)"
| "IsLoopback (IP6 w) = (w = 1)"

fun IsPrivate :: "ip_addr \<Rightarrow> bool" where
  "IsPrivate (IP4 w) = (drop_bit 24 w = 10 \<or> drop_bit 20 w = 0xAC1 \<or> drop_bit 16 w = 0xC0A8)"
| "IsPrivate (IP6 w) = (drop_bit 121 w = 0x7E)"

fun IsLinkLocalUnicast :: "ip_addr \<Rightarrow> bool" where
  "IsLinkLocalUnicast (IP4 w) = (drop_bit 16 w = 0xA9FE)"
| "IsLinkLocalUnicast (IP6 w) = (drop_bit 118 w = 0x3FA)"

fun IsMulticast :: "ip_addr \<Rightarrow> bool" where
  "IsMulticast (IP4 w) = (drop_bit 28 w = 0xE)"
| "IsMulticast (IP6 w) = (drop_bit 120 w = 0xFF)"

definition IsGlobalUnicast :: "ip_addr \<Rightarrow> bool" where
  "IsGlobalUnicast a \<longleftrightarrow>
     \<not> IsUnspecified a \<and> a \<noteq> IP4 0xFFFFFFFF \<and> \<not> IsLoopback a \<and> \<not> IsMulticast a \<and> \<not> IsLinkLocalUnicast a"

definition blockedPublicRanges :: "ip_prefix list" where
  "blockedPublicRanges =
     [\<lparr>pf_addr = IP4 0x64400000, pf_bits = 10\<rparr>, \<lparr>pf_addr = IP4 0xC6120000, pf_bits = 15\<rparr>]"

definition publicEndpointIP :: "ip_addr \<Rightarrow> bool" where
  "publicEndpointIP a0 \<longleftrightarrow>
     (let a = Unmap a0
      in IsGlobalUnicast a \<and> \<not> IsPrivate a \<and> \<not> IsLoopback a \<and> \<not> IsLinkLocalUnicast a \<and> \<not> IsMulticast a \<and>
         \<not> IsUnspecified a \<and> \<not> list_ex (\<lambda>p. prefix_Contains p a) blockedPublicRanges)"

text \<open>\<^verbatim>\<open>IsLinkLocalMulticast\<close> of the source is a case of what \<open>IsGlobalUnicast\<close> excludes.\<close>

definition publicIP :: "ip_addr \<Rightarrow> bool" where
  "publicIP a0 \<longleftrightarrow>
     (let a = Unmap a0
      in IsGlobalUnicast a \<and> \<not> IsPrivate a \<and> \<not> IsLoopback a \<and> \<not> IsLinkLocalUnicast a \<and> \<not> IsUnspecified a)"

text \<open>
  The loop of \<^verbatim>\<open>publicTransport\<close> over the addresses a name resolves to: \<open>dial\<close> is the outcome of dialling one,
  \<open>dialErr\<close> the last failure.
\<close>

fun dial_public :: "(ip_addr \<Rightarrow> goerr + unit) \<Rightarrow> goerr option \<Rightarrow> ip_addr list \<Rightarrow> goerr + ip_addr" where
  "dial_public dial dialErr [] =
     Inl (case dialErr of Some e \<Rightarrow> e | None \<Rightarrow> ErrorString ''S3 endpoint resolves to a non-public network'')"
| "dial_public dial dialErr (a # as) =
     (if \<not> publicEndpointIP a then dial_public dial dialErr as
      else case dial a of Inr _ \<Rightarrow> Inr a | Inl e \<Rightarrow> dial_public dial (Some e) as)"

section \<open>Clients\<close>

text \<open>The store a client talks to (the managed one, or a host) and its bucket.\<close>

record object_client =
  oc_store :: "string option"
  oc_bucket :: string

record s3_config =
  s3_endpoint :: string
  s3_region :: string
  s3_bucket :: string
  s3_access_key :: string
  s3_secret_key :: string
  s3_use_path_style :: bool

definition validateKey :: "string \<Rightarrow> goerr + unit" where
  "validateKey key0 =
     (let key = trim_space key0
      in if key = [] \<or> has_prefix ''/'' key \<or> contains_sub key ''..'' then Inl (ErrorString ''S3 object key is invalid'')
         else Inr ())"

definition parseEndpoint :: "env \<Rightarrow> string \<Rightarrow> goerr + string \<times> bool" where
  "parseEndpoint E v =
     (let bad = Inl (ErrorString ''S3 endpoint must be an HTTP or HTTPS origin'')
      in case url_split E (trim_space v) of
           None \<Rightarrow> bad
         | Some u \<Rightarrow>
             if up_host u = [] \<or> (up_scheme u \<noteq> ''http'' \<and> up_scheme u \<noteq> ''https'') \<or> up_user u \<or>
                up_raw_query u \<noteq> [] \<or> up_fragment u \<noteq> [] \<or> (up_path u \<noteq> [] \<and> up_path u \<noteq> ''/'')
             then bad else Inr (up_host u, up_scheme u = ''https''))"

definition minio_new :: "env \<Rightarrow> (world, goerr + unit) state" where
  "minio_new E = external E (\<lambda>t w. (Inr (), w))"

definition s3_New :: "env \<Rightarrow> s3_config \<Rightarrow> (world, goerr + object_client) state" where
  "s3_New E cfg =
     (case parseEndpoint E (s3_endpoint cfg) of
        Inl e \<Rightarrow> State_Monad.return (Inl e)
      | Inr (host, _) \<Rightarrow>
          if trim_space (s3_bucket cfg) = [] then State_Monad.return (Inl (ErrorString ''S3 bucket is required''))
          else if trim_space (s3_access_key cfg) = [] \<or> trim_space (s3_secret_key cfg) = []
          then State_Monad.return (Inl (ErrorString ''S3 credentials are required''))
          else do {
            r \<leftarrow> minio_new E;
            State_Monad.return (case r of
              Inl e \<Rightarrow> Inl (Wrap ''initialize S3 client'' e)
            | Inr _ \<Rightarrow> Inr \<lparr>oc_store = Some host, oc_bucket = trim_space (s3_bucket cfg)\<rparr>)
          })"

definition PutObject_request :: "env \<Rightarrow> object_client \<Rightarrow> string \<Rightarrow> int \<Rightarrow> (world, goerr + unit) state" where
  "PutObject_request E c key bytes =
     external E (\<lambda>t w. (Inr (), w\<lparr>object_log := object_log w @ [PutObject (oc_store c) (oc_bucket c) key bytes]\<rparr>))"

definition RemoveObject_request :: "env \<Rightarrow> object_client \<Rightarrow> string \<Rightarrow> (world, goerr + unit) state" where
  "RemoveObject_request E c key =
     external E (\<lambda>t w. (Inr (), w\<lparr>object_log := object_log w @ [RemoveObject (oc_store c) (oc_bucket c) key]\<rparr>))"

definition client_Put :: "env \<Rightarrow> object_client \<Rightarrow> string \<Rightarrow> int \<Rightarrow> (world, goerr + unit) state" where
  "client_Put E c key bytes =
     (case validateKey key of
        Inl e \<Rightarrow> State_Monad.return (Inl e)
      | Inr _ \<Rightarrow> do {
          r \<leftarrow> PutObject_request E c key bytes;
          State_Monad.return (on_error (Wrap ''upload S3 object'') r)
        })"

definition playbackTTL :: int where
  "playbackTTL = 15 * 60 * 1000000"

definition client_PlaybackURL :: "env \<Rightarrow> object_client \<Rightarrow> string \<Rightarrow> (world, goerr + string \<times> int) state" where
  "client_PlaybackURL E c key =
     (case validateKey key of
        Inl e \<Rightarrow> State_Monad.return (Inl e)
      | Inr _ \<Rightarrow> do {
          now \<leftarrow> wall_clock E;
          r \<leftarrow> external E (\<lambda>t w. (Inr (presigned_url E t), w));
          State_Monad.return (case r of
            Inl e \<Rightarrow> Inl (Wrap ''presign S3 object'' e)
          | Inr url \<Rightarrow> Inr (url, now + playbackTTL))
        })"

definition client_Delete :: "env \<Rightarrow> object_client \<Rightarrow> string \<Rightarrow> (world, goerr + unit) state" where
  "client_Delete E c key =
     (case validateKey key of
        Inl e \<Rightarrow> State_Monad.return (Inl e)
      | Inr _ \<Rightarrow> do {
          r \<leftarrow> RemoveObject_request E c key;
          State_Monad.return (on_error (Wrap ''delete S3 object'') r)
        })"

text \<open>
  The connection test: the bucket exists, an object can be written, read and removed. After the write a
  failure removes the object as well as it can.
\<close>

definition test_key :: "env \<Rightarrow> uuid \<Rightarrow> string" where
  "test_key E i = ''leamout-storage-test/'' @ uuid_string E i"

definition client_Test :: "env \<Rightarrow> object_client \<Rightarrow> (world, goerr + unit) state" where
  "client_Test E c = do {
     b \<leftarrow> external E (\<lambda>t w. (Inr (bucket_exists E t), w));
     case b of
       Inl e \<Rightarrow> State_Monad.return (Inl (Wrap ''check S3 bucket'' e))
     | Inr False \<Rightarrow> State_Monad.return (Inl (ErrorString ''S3 bucket does not exist''))
     | Inr True \<Rightarrow> do {
         w \<leftarrow> State_Monad.get;
         let key = test_key E (new_uuid E (tick w));
         p \<leftarrow> PutObject_request E c key 7;
         case p of
           Inl e \<Rightarrow> State_Monad.return (Inl (Wrap ''test S3 write access'' e))
         | Inr _ \<Rightarrow> do {
             s \<leftarrow> external E (\<lambda>t w. (Inr (), w));
             case s of
               Inl e \<Rightarrow> do {
                 _ \<leftarrow> RemoveObject_request E c key;
                 State_Monad.return (Inl (Wrap ''test S3 read access'' e))
               }
             | Inr _ \<Rightarrow> do {
                 r \<leftarrow> RemoveObject_request E c key;
                 case r of
                   Inl e \<Rightarrow> do {
                     _ \<leftarrow> RemoveObject_request E c key;
                     State_Monad.return (Inl (Wrap ''test S3 delete access'' e))
                   }
                 | Inr _ \<Rightarrow> State_Monad.return (Inr ())
               }
           }
       }
   }"

section \<open>The table of storage integrations\<close>

definition text_between :: "nat \<Rightarrow> string \<Rightarrow> bool" where
  "text_between n s \<longleftrightarrow> has_text s \<and> length s \<le> n"

text \<open>
  The checks of the table; \<^verbatim>\<open>provider\<close> and \<^verbatim>\<open>purpose\<close> have one value each. Lengths count bytes, of which there
  are at least as many as characters; the service has checked them before.
\<close>

definition integration_checks :: "storage_integration \<Rightarrow> bool" where
  "integration_checks s \<longleftrightarrow>
     text_between 128 (sg_name s) \<and>
     has_prefix ''https://'' (sg_endpoint_url s) \<and> length (sg_endpoint_url s) > 8 \<and>
     \<not> list_ex sql_space (sg_endpoint_url s) \<and>
     text_between 128 (sg_region s) \<and> text_between 255 (sg_bucket s) \<and> has_text (sg_access_key_id s) \<and>
     has_text (sg_secret_access_key_ciphertext s) \<and> sg_status s \<in> {''active'', ''disabled''}"

text \<open>The partial unique index: one active integration of an organization.\<close>

definition active_free :: "storage_integration list \<Rightarrow> storage_integration \<Rightarrow> bool" where
  "active_free rows s \<longleftrightarrow>
     sg_status s = ''active'' \<longrightarrow>
     list_all (\<lambda>r. \<not> (sg_id r \<noteq> sg_id s \<and> sg_organization_id r = sg_organization_id s \<and> sg_status r = ''active'')) rows"

record storage_create =
  sc_name :: string
  sc_endpoint_url :: string
  sc_region :: string
  sc_bucket :: string
  sc_access_key_id :: string
  sc_secret_access_key :: string
  sc_use_path_style :: bool

definition CreateStorageIntegration ::
  "uuid \<Rightarrow> uuid \<Rightarrow> storage_create \<Rightarrow> string \<Rightarrow> int \<Rightarrow> db \<Rightarrow> goerr + storage_integration \<times> db" where
  "CreateStorageIntegration i org req ciphertext now d =
     (if \<not> active_organization d org then Inl ErrNoRows
      else
        let s = \<lparr>sg_id = i, sg_organization_id = org, sg_name = sc_name req, sg_endpoint_url = sc_endpoint_url req,
                 sg_region = sc_region req, sg_bucket = sc_bucket req, sg_access_key_id = sc_access_key_id req,
                 sg_secret_access_key_ciphertext = ciphertext, sg_use_path_style = sc_use_path_style req,
                 sg_status = ''active'', sg_created_at = now, sg_updated_at = now\<rparr>
        in if \<not> integration_checks s then Inl (ConstraintError ''23514'')
           else if i \<in> sg_id ` set (storage_integrations d) \<or> \<not> active_free (storage_integrations d) s
           then Inl (ConstraintError ''23505'')
           else Inr (s, d\<lparr>storage_integrations := storage_integrations d @ [s]\<rparr>))"

definition own_integration :: "uuid \<Rightarrow> uuid \<Rightarrow> storage_integration \<Rightarrow> bool" where
  "own_integration i org s \<longleftrightarrow> sg_id s = i \<and> sg_organization_id s = org"

definition change_integration ::
  "(storage_integration \<Rightarrow> bool) \<Rightarrow> (storage_integration \<Rightarrow> storage_integration) \<Rightarrow> int \<Rightarrow> db
     \<Rightarrow> goerr + storage_integration \<times> db" where
  "change_integration P f now d =
     (case update_one P (\<lambda>s. (f s)\<lparr>sg_updated_at := now\<rparr>) (storage_integrations d) of
        Inl e \<Rightarrow> Inl e
      | Inr (s, rows) \<Rightarrow>
          if \<not> integration_checks s then Inl (ConstraintError ''23514'')
          else if \<not> active_free (storage_integrations d) s then Inl (ConstraintError ''23505'')
          else Inr (s, d\<lparr>storage_integrations := rows\<rparr>))"

definition DisableStorageIntegration :: "uuid \<Rightarrow> uuid \<Rightarrow> int \<Rightarrow> db \<Rightarrow> goerr + storage_integration \<times> db" where
  "DisableStorageIntegration i org = change_integration (own_integration i org) (\<lambda>s. s\<lparr>sg_status := ''disabled''\<rparr>)"

definition GetActiveRecordingStorageIntegration :: "uuid \<Rightarrow> db \<Rightarrow> goerr + storage_integration" where
  "GetActiveRecordingStorageIntegration org d =
     select_one (\<lambda>s. sg_organization_id s = org \<and> sg_status s = ''active'') (storage_integrations d)"

definition GetStorageIntegration :: "uuid \<Rightarrow> uuid \<Rightarrow> db \<Rightarrow> goerr + storage_integration" where
  "GetStorageIntegration i org d = select_one (own_integration i org) (storage_integrations d)"

definition ListStorageIntegrations :: "uuid \<Rightarrow> db \<Rightarrow> goerr + storage_integration list" where
  "ListStorageIntegrations org d =
     Inr (sort_key (\<lambda>s. - sg_created_at s) (filter (\<lambda>s. sg_organization_id s = org) (storage_integrations d)))"

record storage_update =
  su_name :: "string option"
  su_access_key_id :: "string option"
  su_secret_access_key :: "string option"
  su_status :: "string option"

definition UpdateStorageIntegration ::
  "storage_update \<Rightarrow> string option \<Rightarrow> uuid \<Rightarrow> uuid \<Rightarrow> int \<Rightarrow> db \<Rightarrow> goerr + storage_integration \<times> db" where
  "UpdateStorageIntegration u ciphertext i org =
     change_integration (own_integration i org)
       (\<lambda>s. s\<lparr>sg_name := or_else (su_name u) (sg_name s),
              sg_access_key_id := or_else (su_access_key_id u) (sg_access_key_id s),
              sg_secret_access_key_ciphertext := or_else ciphertext (sg_secret_access_key_ciphertext s),
              sg_status := or_else (su_status u) (sg_status s)\<rparr>)"

section \<open>Validation\<close>

definition sized :: "nat \<Rightarrow> string \<Rightarrow> string \<Rightarrow> goerr + unit" where
  "sized n msg v = (if length v < 1 \<or> length v > n then Inl (NewBadRequest msg) else Inr ())"

definition storage_validateName :: "string \<Rightarrow> goerr + unit" where
  "storage_validateName = sized 128 ''name must be between 1 and 128 characters''"

definition storage_validateRegion :: "string \<Rightarrow> goerr + unit" where
  "storage_validateRegion = sized 128 ''region must be between 1 and 128 characters''"

definition storage_validateBucket :: "string \<Rightarrow> goerr + unit" where
  "storage_validateBucket = sized 255 ''bucket must be between 1 and 255 characters''"

definition has_suffix :: "string \<Rightarrow> string \<Rightarrow> bool" where
  "has_suffix p s \<longleftrightarrow> has_prefix (rev p) (rev s)"

definition validateEndpoint :: "env \<Rightarrow> string \<Rightarrow> goerr + unit" where
  "validateEndpoint E v =
     (let origin = Inl (NewBadRequest ''endpoint_url must be an HTTPS origin'');
          public = Inl (NewBadRequest ''endpoint_url must use a public network host'')
      in case url_split E v of
           None \<Rightarrow> origin
         | Some u \<Rightarrow>
             if up_scheme u \<noteq> ''https'' \<or> up_host u = [] \<or> up_user u \<or> up_raw_query u \<noteq> [] \<or> up_fragment u \<noteq> [] \<or>
                (up_path u \<noteq> [] \<and> up_path u \<noteq> ''/'')
             then origin
             else
               let hostname = to_lower (trim_suffix (CHR ''.'') (up_hostname u))
               in if hostname = ''localhost'' \<or> has_suffix ''.localhost'' hostname then public
                  else case ParseAddr hostname of
                         Some a \<Rightarrow> if \<not> publicIP a then public else Inr ()
                       | None \<Rightarrow> Inr ())"

definition storage_normalizeCreate :: "env \<Rightarrow> storage_create \<Rightarrow> goerr + storage_create" where
  "storage_normalizeCreate E req0 =
     (let region = trim_space (sc_region req0);
          req = req0\<lparr>sc_name := trim_space (sc_name req0), sc_endpoint_url := trim_space (sc_endpoint_url req0),
                     sc_region := (if region = [] then ''us-east-1'' else region),
                     sc_bucket := trim_space (sc_bucket req0), sc_access_key_id := trim_space (sc_access_key_id req0),
                     sc_secret_access_key := trim_space (sc_secret_access_key req0)\<rparr>
      in andalso (storage_validateName (sc_name req)) (\<lambda>_.
         andalso (validateEndpoint E (sc_endpoint_url req)) (\<lambda>_.
         andalso (storage_validateRegion (sc_region req)) (\<lambda>_.
         andalso (storage_validateBucket (sc_bucket req)) (\<lambda>_.
           if sc_access_key_id req = [] then Inl (NewBadRequest ''access_key_id is required'')
           else if sc_secret_access_key req = [] then Inl (NewBadRequest ''secret_access_key is required'')
           else Inr req)))))"

definition non_empty :: "string \<Rightarrow> string \<Rightarrow> goerr + string" where
  "non_empty msg v0 = (let v = trim_space v0 in if v = [] then Inl (NewBadRequest msg) else Inr v)"

definition storage_normalizeUpdate :: "storage_update \<Rightarrow> goerr + storage_update" where
  "storage_normalizeUpdate req =
     (if su_name req = None \<and> su_access_key_id req = None \<and> su_secret_access_key req = None \<and> su_status req = None
      then Inl (NewBadRequest ''at least one field is required'')
      else
        andalso (optional (\<lambda>v. map_sum id (\<lambda>_. trim_space v) (storage_validateName (trim_space v))) (su_name req)) (\<lambda>name.
        andalso (optional (non_empty ''access_key_id cannot be empty'') (su_access_key_id req)) (\<lambda>access.
        andalso (optional (non_empty ''secret_access_key cannot be empty'') (su_secret_access_key req)) (\<lambda>secret.
        andalso (optional (\<lambda>v0. let v = to_lower (trim_space v0)
                   in if v \<noteq> ''active'' \<and> v \<noteq> ''disabled'' then Inl (NewBadRequest ''status must be active or disabled'')
                      else Inr v) (su_status req)) (\<lambda>status.
          Inr \<lparr>su_name = name, su_access_key_id = access, su_secret_access_key = secret, su_status = status\<rparr>)))))"

section \<open>The service\<close>

text \<open>\<open>Integration\<close> is a row without its ciphertext, \<open>ResolvedIntegration\<close> adds the secret.\<close>

record integration =
  ig_id :: uuid
  ig_organization_id :: uuid
  ig_name :: string
  ig_endpoint_url :: string
  ig_region :: string
  ig_bucket :: string
  ig_access_key_id :: string
  ig_use_path_style :: bool
  ig_status :: string
  ig_has_secret :: bool
  ig_created_at :: int
  ig_updated_at :: int

definition integrationFromRow :: "storage_integration \<Rightarrow> integration" where
  "integrationFromRow s =
     \<lparr>ig_id = sg_id s, ig_organization_id = sg_organization_id s, ig_name = sg_name s,
      ig_endpoint_url = sg_endpoint_url s, ig_region = sg_region s, ig_bucket = sg_bucket s,
      ig_access_key_id = sg_access_key_id s, ig_use_path_style = sg_use_path_style s, ig_status = sg_status s,
      ig_has_secret = (sg_secret_access_key_ciphertext s \<noteq> []), ig_created_at = sg_created_at s,
      ig_updated_at = sg_updated_at s\<rparr>"

type_synonym resolved_integration = "integration \<times> string"

definition storage_credentialScope :: "env \<Rightarrow> uuid \<Rightarrow> uuid \<Rightarrow> string" where
  "storage_credentialScope E org i = ''storage-integration:'' @ uuid_string E org @ '':'' @ uuid_string E i"

definition databaseError :: "string \<Rightarrow> goerr \<Rightarrow> goerr" where
  "databaseError msg e = (if error_is e ErrNoRows then NewNotFound msg else NewInternal msg e)"

definition no_storage_cipher :: goerr where
  "no_storage_cipher = AppErr SERVICE_UNAVAILABLE ''storage credential encryption is unavailable'' None"

definition storage_writeError :: "string \<Rightarrow> string \<Rightarrow> goerr \<Rightarrow> goerr" where
  "storage_writeError conflict msg e = (if pg_code e = Some ''23505'' then NewConflict conflict else databaseError msg e)"

definition storage_Create :: "env \<Rightarrow> bool \<Rightarrow> uuid \<Rightarrow> storage_create \<Rightarrow> (world, goerr + integration) state" where
  "storage_Create E cipher org req0 =
     (if org = uuid_Nil then State_Monad.return (Inl (NewBadRequest ''organization_id is required''))
      else
        case storage_normalizeCreate E req0 of
          Inl e \<Rightarrow> State_Monad.return (Inl e)
        | Inr req \<Rightarrow>
            if \<not> cipher then State_Monad.return (Inl no_storage_cipher)
            else do {
              w \<leftarrow> State_Monad.get;
              let i = new_uuid E (tick w);
              c \<leftarrow> EncryptForScope E (storage_credentialScope E org i) (sc_secret_access_key req);
              case c of
                Inl e \<Rightarrow> State_Monad.return (Inl (NewInternal ''encrypt storage credential'' e))
              | Inr ciphertext \<Rightarrow> do {
                  r \<leftarrow> exec E (statement (CreateStorageIntegration i org req ciphertext));
                  State_Monad.return (on_error (storage_writeError ''an active recording storage integration already exists''
                    ''create storage integration'') (map_sum id integrationFromRow r))
                }
            })"

definition storage_List :: "env \<Rightarrow> uuid \<Rightarrow> (world, goerr + integration list) state" where
  "storage_List E org =
     (if org = uuid_Nil then State_Monad.return (Inl (NewBadRequest ''organization_id is required''))
      else do {
        r \<leftarrow> query E (ListStorageIntegrations org);
        State_Monad.return (on_error (NewInternal ''list storage integrations'') (map_sum id (map integrationFromRow) r))
      })"

definition storage_ids_required :: goerr where
  "storage_ids_required = NewBadRequest ''organization and storage integration ids are required''"

definition storage_Get :: "env \<Rightarrow> uuid \<Rightarrow> uuid \<Rightarrow> (world, goerr + integration) state" where
  "storage_Get E org i =
     (if org = uuid_Nil \<or> i = uuid_Nil then State_Monad.return (Inl storage_ids_required)
      else do {
        r \<leftarrow> query E (GetStorageIntegration i org);
        State_Monad.return (on_error (databaseError ''storage integration not found'') (map_sum id integrationFromRow r))
      })"

definition storage_reseal ::
  "env \<Rightarrow> bool \<Rightarrow> uuid \<Rightarrow> uuid \<Rightarrow> string option \<Rightarrow> (world, goerr + string option) state" where
  "storage_reseal E cipher org i secret =
     (case secret of
        None \<Rightarrow> State_Monad.return (Inr None)
      | Some s \<Rightarrow>
          if \<not> cipher then State_Monad.return (Inl no_storage_cipher)
          else do {
            c \<leftarrow> EncryptForScope E (storage_credentialScope E org i) s;
            State_Monad.return (on_error (NewInternal ''encrypt storage credential'') (map_sum id Some c))
          })"

definition storage_Update ::
  "env \<Rightarrow> bool \<Rightarrow> uuid \<Rightarrow> uuid \<Rightarrow> storage_update \<Rightarrow> (world, goerr + integration) state" where
  "storage_Update E cipher org i req0 =
     (if org = uuid_Nil \<or> i = uuid_Nil then State_Monad.return (Inl storage_ids_required)
      else
        case storage_normalizeUpdate req0 of
          Inl e \<Rightarrow> State_Monad.return (Inl e)
        | Inr req \<Rightarrow> do {
            g \<leftarrow> query E (GetStorageIntegration i org);
            case g of
              Inl e \<Rightarrow> State_Monad.return (Inl (databaseError ''storage integration not found'' e))
            | Inr _ \<Rightarrow> do {
                c \<leftarrow> storage_reseal E cipher org i (su_secret_access_key req);
                case c of
                  Inl e \<Rightarrow> State_Monad.return (Inl e)
                | Inr ciphertext \<Rightarrow> do {
                    r \<leftarrow> exec E (statement (UpdateStorageIntegration req ciphertext i org));
                    State_Monad.return (on_error (storage_writeError
                      ''another active recording storage integration already exists'' ''storage integration not found'')
                      (map_sum id integrationFromRow r))
                  }
              }
          })"

definition storage_Delete :: "env \<Rightarrow> uuid \<Rightarrow> uuid \<Rightarrow> (world, goerr + unit) state" where
  "storage_Delete E org i =
     (if org = uuid_Nil \<or> i = uuid_Nil then State_Monad.return (Inl storage_ids_required)
      else do {
        r \<leftarrow> exec E (statement (DisableStorageIntegration i org));
        State_Monad.return (on_error (databaseError ''storage integration not found'') (map_sum id (\<lambda>_. ()) r))
      })"

definition storage_resolve :: "env \<Rightarrow> bool \<Rightarrow> storage_integration \<Rightarrow> goerr + resolved_integration" where
  "storage_resolve E cipher s =
     (if \<not> cipher then Inl no_storage_cipher
      else
        case DecryptForScope E (storage_credentialScope E (sg_organization_id s) (sg_id s))
               (sg_secret_access_key_ciphertext s) of
          Inl e \<Rightarrow> Inl (NewInternal ''decrypt storage credential'' e)
        | Inr secret \<Rightarrow> Inr (integrationFromRow s, secret))"

definition ResolveRecording :: "env \<Rightarrow> bool \<Rightarrow> uuid \<Rightarrow> (world, goerr + resolved_integration) state" where
  "ResolveRecording E cipher org =
     (if org = uuid_Nil then State_Monad.return (Inl (NewBadRequest ''organization_id is required''))
      else do {
        r \<leftarrow> query E (GetActiveRecordingStorageIntegration org);
        State_Monad.return (andalso r (storage_resolve E cipher))
      })"

definition ResolveByID :: "env \<Rightarrow> bool \<Rightarrow> uuid \<Rightarrow> uuid \<Rightarrow> (world, goerr + resolved_integration) state" where
  "ResolveByID E cipher org i = do {
     r \<leftarrow> query E (GetStorageIntegration i org);
     State_Monad.return (andalso r (storage_resolve E cipher))
   }"

definition s3_config_of :: "resolved_integration \<Rightarrow> s3_config" where
  "s3_config_of r =
     \<lparr>s3_endpoint = ig_endpoint_url (fst r), s3_region = ig_region (fst r), s3_bucket = ig_bucket (fst r),
      s3_access_key = ig_access_key_id (fst r), s3_secret_key = snd r, s3_use_path_style = ig_use_path_style (fst r)\<rparr>"

definition storage_Test :: "env \<Rightarrow> bool \<Rightarrow> uuid \<Rightarrow> uuid \<Rightarrow> (world, goerr + unit) state" where
  "storage_Test E cipher org i = do {
     r \<leftarrow> ResolveByID E cipher org i;
     case r of
       Inl e \<Rightarrow> State_Monad.return (Inl (databaseError ''storage integration not found'' e))
     | Inr resolved \<Rightarrow> do {
         c \<leftarrow> s3_New E (s3_config_of resolved);
         case c of
           Inl e \<Rightarrow> State_Monad.return (Inl (NewBadRequest (error_text E e)))
         | Inr client \<Rightarrow> do {
             x \<leftarrow> client_Test E client;
             State_Monad.return (on_error (\<lambda>e. NewBadRequest (''storage connection test failed: '' @ error_text E e)) x)
           }
       }
   }"

end
