(* ===== verification/Recordings.thy ===== *)
theory Recordings
  imports ObjectStores Translator
begin

text \<open>
  Call recordings: the statements of \<^verbatim>\<open>sqlc/recordings.sql.go\<close> with the constraints of the table, the
  repository, service, event consumer, object storage and the reconciliation and ingestion jobs of
  \<^verbatim>\<open>telephony/recordings\<close>. The staging volume is part of the world; opening, examining and removing a file
  are steps. The content type of an upload is not part of the model.
\<close>

section \<open>The table\<close>

text \<open>A rooted path without a dot-dot element.\<close>

definition source_path_ok :: "string \<Rightarrow> bool" where
  "source_path_ok p \<longleftrightarrow> has_prefix ''/'' p \<and> ''..'' \<notin> set (split_on (CHR ''/'') p)"

definition opt_all :: "('a \<Rightarrow> bool) \<Rightarrow> 'a option \<Rightarrow> bool" where
  "opt_all P v = (case v of None \<Rightarrow> True | Some x \<Rightarrow> P x)"

definition recording_checks :: "recording \<Rightarrow> bool" where
  "recording_checks r \<longleftrightarrow>
     0 \<le> rc_upload_attempts r \<and> opt_all source_path_ok (rc_source_path r) \<and>
     opt_all (\<lambda>n. 0 \<le> n) (rc_duration_seconds r) \<and> opt_all (\<lambda>n. 0 \<le> n) (rc_file_size_bytes r) \<and>
     opt_all (\<lambda>c. opt_all (\<lambda>s. s \<le> c) (rc_started_at r)) (rc_completed_at r)"

definition same_key :: "recording \<Rightarrow> recording \<Rightarrow> bool" where
  "same_key a b \<longleftrightarrow> rc_call_id a = rc_call_id b \<and> rc_storage_key a \<noteq> None \<and> rc_storage_key a = rc_storage_key b"

definition same_source :: "recording \<Rightarrow> recording \<Rightarrow> bool" where
  "same_source a b \<longleftrightarrow> rc_call_id a = rc_call_id b \<and> rc_source_path a \<noteq> None \<and> rc_source_path a = rc_source_path b"

definition integration_scope :: "db \<Rightarrow> recording \<Rightarrow> bool" where
  "integration_scope d r =
     opt_all (\<lambda>i. list_ex (own_integration i (rc_organization_id r)) (storage_integrations d)) (rc_storage_integration_id r)"

text \<open>The constraints a changed row is held against: checks, unique indices, the foreign key to the integration.\<close>

definition recording_constraints :: "db \<Rightarrow> recording \<Rightarrow> goerr option" where
  "recording_constraints d r =
     (if \<not> recording_checks r then Some (ConstraintError ''23514'')
      else if list_ex (\<lambda>x. rc_id x \<noteq> rc_id r \<and> (same_key x r \<or> same_source x r)) (recordings d)
      then Some (ConstraintError ''23505'')
      else if \<not> integration_scope d r then Some (ConstraintError ''23503'')
      else None)"

definition change_recording ::
  "(recording \<Rightarrow> bool) \<Rightarrow> (recording \<Rightarrow> recording) \<Rightarrow> int \<Rightarrow> db \<Rightarrow> goerr + recording \<times> db" where
  "change_recording P f now d =
     (case update_one P (\<lambda>r. (f r)\<lparr>rc_updated_at := now\<rparr>) (recordings d) of
        Inl e \<Rightarrow> Inl e
      | Inr (r, rows) \<Rightarrow>
          (case recording_constraints d r of Some e \<Rightarrow> Inl e | None \<Rightarrow> Inr (r, d\<lparr>recordings := rows\<rparr>)))"

definition own_recording :: "uuid \<Rightarrow> uuid \<Rightarrow> recording \<Rightarrow> bool" where
  "own_recording org i r \<longleftrightarrow> rc_organization_id r = org \<and> rc_id r = i"

section \<open>Statements\<close>

definition new_recording :: "uuid \<Rightarrow> uuid \<Rightarrow> uuid \<Rightarrow> string \<Rightarrow> int \<Rightarrow> int \<Rightarrow> recording" where
  "new_recording i org call path started now =
     \<lparr>rc_id = i, rc_organization_id = org, rc_call_id = call, rc_storage_integration_id = None, rc_status = Recording,
      rc_storage_key = None, rc_storage_provider = None, rc_storage_bucket = None, rc_storage_url = None,
      rc_source_path = Some path, rc_stopped_at = None, rc_upload_attempts = 0, rc_next_upload_at = None,
      rc_upload_error = None, rc_file_size_bytes = None, rc_format = None, rc_duration_seconds = None,
      rc_started_at = Some started, rc_completed_at = None, rc_created_at = now, rc_updated_at = now\<rparr>"

definition CreateRecording ::
  "uuid \<Rightarrow> uuid \<Rightarrow> string \<Rightarrow> int \<Rightarrow> uuid \<Rightarrow> int \<Rightarrow> db \<Rightarrow> goerr + recording \<times> db" where
  "CreateRecording org call path started i now d =
     (let r = new_recording i org call path started now
      in if org \<notin> o_id ` set (organizations d) \<or> call \<notin> c_id ` set (calls d) then Inl (ConstraintError ''23503'')
         else if i \<in> rc_id ` set (recordings d) then Inl (ConstraintError ''23505'')
         else case recording_constraints d r of
                Some e \<Rightarrow> Inl e
              | None \<Rightarrow> Inr (r, d\<lparr>recordings := recordings d @ [r]\<rparr>))"

definition open_recording :: "recording \<Rightarrow> bool" where
  "open_recording r \<longleftrightarrow> rc_status r = Recording \<or> rc_status r = Uploading"

text \<open>\<^verbatim>\<open>COALESCE\<close> of an argument and a column.\<close>

definition opt_or :: "'a option \<Rightarrow> 'a option \<Rightarrow> 'a option" where
  "opt_or a b = (case a of None \<Rightarrow> b | Some x \<Rightarrow> Some x)"

definition CompleteRecording ::
  "uuid option \<Rightarrow> string option \<Rightarrow> string option \<Rightarrow> string option \<Rightarrow> int option \<Rightarrow> string option
     \<Rightarrow> uuid \<Rightarrow> uuid \<Rightarrow> int \<Rightarrow> db \<Rightarrow> goerr + recording \<times> db" where
  "CompleteRecording integration key provider bucket bytes fmt org i now =
     change_recording (\<lambda>r. own_recording org i r \<and> open_recording r)
       (\<lambda>r. r\<lparr>rc_status := Recorded, rc_storage_integration_id := opt_or integration (rc_storage_integration_id r),
              rc_storage_key := opt_or key (rc_storage_key r), rc_storage_provider := opt_or provider (rc_storage_provider r),
              rc_storage_bucket := opt_or bucket (rc_storage_bucket r),
              rc_file_size_bytes := opt_or bytes (rc_file_size_bytes r), rc_format := opt_or fmt (rc_format r),
              rc_upload_error := None, rc_next_upload_at := None,
              rc_completed_at := Some (or_else (rc_completed_at r) now)\<rparr>) now"

definition DeleteRecording :: "uuid \<Rightarrow> uuid \<Rightarrow> int \<Rightarrow> db \<Rightarrow> goerr + recording \<times> db" where
  "DeleteRecording org i =
     change_recording (\<lambda>r. own_recording org i r \<and> rc_status r \<noteq> Deleted)
       (\<lambda>r. r\<lparr>rc_status := Deleted, rc_storage_url := None\<rparr>)"

definition FailRecording :: "uuid \<Rightarrow> uuid \<Rightarrow> int \<Rightarrow> db \<Rightarrow> goerr + recording \<times> db" where
  "FailRecording org i now =
     change_recording (\<lambda>r. own_recording org i r \<and> open_recording r)
       (\<lambda>r. r\<lparr>rc_status := RecordingFailed, rc_completed_at := Some (or_else (rc_completed_at r) now)\<rparr>) now"

definition GetRecording :: "uuid \<Rightarrow> uuid \<Rightarrow> db \<Rightarrow> goerr + recording" where
  "GetRecording org i d = select_one (\<lambda>r. own_recording org i r \<and> rc_status r \<noteq> Deleted) (recordings d)"

definition GetRecordingIncludingDeleted :: "uuid \<Rightarrow> uuid \<Rightarrow> db \<Rightarrow> goerr + recording" where
  "GetRecordingIncludingDeleted org i d = select_one (own_recording org i) (recordings d)"

definition GetRecordingByCallStorageKey :: "uuid \<Rightarrow> string \<Rightarrow> db \<Rightarrow> goerr + recording" where
  "GetRecordingByCallStorageKey call path d =
     select_one (\<lambda>r. rc_call_id r = call \<and> rc_source_path r = Some path) (recordings d)"

definition ListRecordings :: "uuid \<Rightarrow> int \<Rightarrow> int \<Rightarrow> db \<Rightarrow> goerr + recording list" where
  "ListRecordings org offset limit d =
     Inr (take (nat limit) (drop (nat offset) (sort_key (\<lambda>r. - rc_created_at r)
       (filter (\<lambda>r. rc_organization_id r = org \<and> rc_status r \<noteq> Deleted) (recordings d)))))"

definition ListRecordingsForReconciliation :: "int \<Rightarrow> int \<Rightarrow> db \<Rightarrow> goerr + recording list" where
  "ListRecordingsForReconciliation cutoff batch d =
     Inr (take (nat batch) (sort_key rc_updated_at (filter (\<lambda>r. rc_status r = Recording \<and> rc_updated_at r \<le> cutoff \<and>
       list_ex (\<lambda>c. c_id c = rc_call_id r \<and> c_state c \<in> {Completed, Failed, Cancelled}) (calls d)) (recordings d))))"

definition upload_due :: "int \<Rightarrow> int \<Rightarrow> recording \<Rightarrow> bool" where
  "upload_due claimed_at now r \<longleftrightarrow>
     rc_status r = Uploading \<and> rc_source_path r \<noteq> None \<and> or_else (rc_next_upload_at r) now \<le> claimed_at"

definition ListRecordingsForUpload ::
  "int \<Rightarrow> int \<Rightarrow> int \<Rightarrow> int \<Rightarrow> db \<Rightarrow> goerr + recording list \<times> db" where
  "ListRecordingsForUpload lease_until claimed_at batch now d =
     (let ids = map rc_id (take (nat batch) (sort_key (\<lambda>r. or_else (rc_next_upload_at r) (rc_updated_at r))
                  (sort_key rc_updated_at (filter (upload_due claimed_at now) (recordings d)))));
          rows = update_where (\<lambda>r. rc_id r \<in> set ids)
                   (\<lambda>r. r\<lparr>rc_next_upload_at := Some lease_until, rc_updated_at := now\<rparr>) (recordings d)
      in Inr (filter (\<lambda>r. rc_id r \<in> set ids) rows, d\<lparr>recordings := rows\<rparr>))"

definition MarkRecordingReadyForUpload :: "int \<Rightarrow> uuid \<Rightarrow> uuid \<Rightarrow> int \<Rightarrow> db \<Rightarrow> goerr + recording \<times> db" where
  "MarkRecordingReadyForUpload stopped_at org i now =
     change_recording (\<lambda>r. own_recording org i r \<and> rc_status r = Recording)
       (\<lambda>r. r\<lparr>rc_status := Uploading, rc_stopped_at := Some (or_else (rc_stopped_at r) stopped_at),
              rc_next_upload_at := Some now, rc_upload_error := None\<rparr>) now"

definition PinRecordingUpload ::
  "uuid option \<Rightarrow> string \<Rightarrow> string \<Rightarrow> string \<Rightarrow> uuid \<Rightarrow> uuid \<Rightarrow> int \<Rightarrow> db \<Rightarrow> goerr + recording \<times> db" where
  "PinRecordingUpload integration key provider bucket org i =
     change_recording (\<lambda>r. own_recording org i r \<and> rc_status r = Uploading \<and> rc_storage_key r = None)
       (\<lambda>r. r\<lparr>rc_storage_integration_id := integration, rc_storage_key := Some key, rc_storage_provider := Some provider,
              rc_storage_bucket := Some bucket\<rparr>)"

definition RetryRecordingUpload :: "string \<Rightarrow> int \<Rightarrow> uuid \<Rightarrow> int \<Rightarrow> db \<Rightarrow> goerr + recording \<times> db" where
  "RetryRecordingUpload msg next_at i =
     change_recording (\<lambda>r. rc_id r = i \<and> rc_status r = Uploading)
       (\<lambda>r. r\<lparr>rc_upload_attempts := rc_upload_attempts r + 1, rc_upload_error := Some msg,
              rc_next_upload_at := Some next_at\<rparr>)"

text \<open>The organization column of \<^verbatim>\<open>GetBackofficeCall\<close>, as text.\<close>

definition GetBackofficeCall :: "env \<Rightarrow> uuid \<Rightarrow> db \<Rightarrow> goerr + string" where
  "GetBackofficeCall E call d =
     map_sum id (\<lambda>c. uuid_string E (c_organization_id c))
       (select_one (\<lambda>c. c_id c = call \<and> c_organization_id c \<in> o_id ` set (organizations d)) (calls d))"

section \<open>Repository\<close>

definition recordingResponse :: "recording \<Rightarrow> recording_response" where
  "recordingResponse r =
     \<lparr>rr_id = rc_id r, rr_organization_id = rc_organization_id r, rr_call_id = rc_call_id r, rr_status = rc_status r,
      rr_file_size_bytes = rc_file_size_bytes r, rr_format = rc_format r, rr_duration_seconds = rc_duration_seconds r,
      rr_started_at = rc_started_at r, rr_completed_at = rc_completed_at r, rr_created_at = rc_created_at r,
      rr_updated_at = rc_updated_at r\<rparr>"

text \<open>The mutation gets the id that \<^verbatim>\<open>gen_random_uuid()\<close> gives a new row.\<close>

definition recording_mutate_body ::
  "env \<Rightarrow> string \<Rightarrow> (uuid \<Rightarrow> int \<Rightarrow> db \<Rightarrow> goerr + recording \<times> db) \<Rightarrow> int \<Rightarrow> nat \<Rightarrow> db \<Rightarrow> goerr + recording \<times> db" where
  "recording_mutate_body E event_type mutation now t d =
     (case mutation (row_uuid E t 0) now d of
        Inl e \<Rightarrow> Inl e
      | Inr (r, d1) \<Rightarrow>
          on_error (Wrap ''insert recording outbox event'') (map_sum id (\<lambda>x. (r, snd x))
            (tx_statement E t 1 (InsertOutboxEvent (new_uuid E (Suc t)) now event_type ''recording'' (rc_id r)
               (RecordingPayload event_type (rc_organization_id r) (rc_id r) (rc_call_id r) (recordingResponse r) (clock E t))
               [(''event_type'', event_type), (''organization_id'', uuid_string E (rc_organization_id r)),
                (''schema_version'', ''1'')] None) d1)))"

definition recording_mutate ::
  "env \<Rightarrow> string \<Rightarrow> (uuid \<Rightarrow> int \<Rightarrow> db \<Rightarrow> goerr + recording \<times> db) \<Rightarrow> (world, goerr + recording) state" where
  "recording_mutate E event_type mutation =
     transaction E ''recording transaction'' (recording_mutate_body E event_type mutation)"

definition recording_Start :: "env \<Rightarrow> uuid \<Rightarrow> uuid \<Rightarrow> string \<Rightarrow> int \<Rightarrow> (world, goerr + recording) state" where
  "recording_Start E org call path at =
     recording_mutate E ''recording.started'' (CreateRecording org call path at)"

definition CompleteUpload ::
  "env \<Rightarrow> recording \<Rightarrow> uuid option \<Rightarrow> string \<Rightarrow> string \<Rightarrow> string \<Rightarrow> string \<Rightarrow> int \<Rightarrow> (world, goerr + recording) state" where
  "CompleteUpload E r integration key provider bucket fmt bytes =
     recording_mutate E ''recording.completed''
       (\<lambda>_. CompleteRecording integration (Some key) (Some provider) (Some bucket) (Some bytes) (Some fmt)
          (rc_organization_id r) (rc_id r))"

text \<open>Nothing calls \<^verbatim>\<open>Repository.Complete\<close>; it would complete a recording without an object.\<close>

definition recording_Complete :: "env \<Rightarrow> recording \<Rightarrow> (world, goerr + recording) state" where
  "recording_Complete E r =
     recording_mutate E ''recording.completed''
       (\<lambda>_. CompleteRecording None None None None None None (rc_organization_id r) (rc_id r))"

definition recording_Fail :: "env \<Rightarrow> recording \<Rightarrow> (world, goerr + recording) state" where
  "recording_Fail E r =
     recording_mutate E ''recording.failed'' (\<lambda>_. FailRecording (rc_organization_id r) (rc_id r))"

definition recording_delete_row :: "env \<Rightarrow> recording \<Rightarrow> (world, goerr + recording) state" where
  "recording_delete_row E r =
     recording_mutate E ''recording.deleted'' (\<lambda>_. DeleteRecording (rc_organization_id r) (rc_id r))"

definition MarkReadyForUpload :: "env \<Rightarrow> recording \<Rightarrow> int \<Rightarrow> (world, goerr + recording) state" where
  "MarkReadyForUpload E r stopped_at =
     exec E (statement (MarkRecordingReadyForUpload stopped_at (rc_organization_id r) (rc_id r)))"

definition PinUpload ::
  "env \<Rightarrow> recording \<Rightarrow> uuid option \<Rightarrow> string \<Rightarrow> string \<Rightarrow> string \<Rightarrow> (world, goerr + recording) state" where
  "PinUpload E r integration key provider bucket =
     exec E (statement (PinRecordingUpload integration key provider bucket (rc_organization_id r) (rc_id r)))"

definition RetryUpload :: "env \<Rightarrow> recording \<Rightarrow> int \<Rightarrow> string \<Rightarrow> (world, goerr + unit) state" where
  "RetryUpload E r next_at msg = do {
     x \<leftarrow> exec E (statement (RetryRecordingUpload msg next_at (rc_id r)));
     State_Monad.return (map_sum id (\<lambda>_. ()) x)
   }"

definition GetCallOrganizationID :: "env \<Rightarrow> uuid \<Rightarrow> (world, goerr + uuid) state" where
  "GetCallOrganizationID E call = do {
     r \<leftarrow> query E (GetBackofficeCall E call);
     State_Monad.return (andalso r (\<lambda>s.
       case uuid_parse E s of None \<Rightarrow> Inl (ErrorString ''invalid UUID'') | Some u \<Rightarrow> Inr u))
   }"

section \<open>Object keys\<close>

definition recordingStoragePrefix :: "env \<Rightarrow> uuid \<Rightarrow> goerr + string" where
  "recordingStoragePrefix E org =
     (if org = uuid_Nil then Inl (ErrorString ''recording organization id is required'')
      else Inr (''organizations/'' @ uuid_string E org @ ''/recordings/''))"

definition trim_dot :: "string \<Rightarrow> string" where
  "trim_dot s = (if has_prefix ''.'' s then drop 1 s else s)"

definition recordingObjectKey :: "env \<Rightarrow> uuid \<Rightarrow> uuid \<Rightarrow> int \<Rightarrow> string \<Rightarrow> goerr + string" where
  "recordingObjectKey E org i at ext0 =
     andalso (recordingStoragePrefix E org) (\<lambda>prefix.
       if i = uuid_Nil then Inl (ErrorString ''recording id is required'')
       else
         let ext1 = trim_dot (trim_space ext0); ext = (if ext1 = [] then ''bin'' else ext1)
         in if contains_any ext [CHR ''/'', CHR 0x5C] then Inl (ErrorString ''recording extension is invalid'')
            else Inr (prefix @ date_path E at @ ''/'' @ uuid_string E i @ ''.'' @ ext))"

definition validateManagedRecordingKey :: "env \<Rightarrow> uuid \<Rightarrow> string \<Rightarrow> goerr + unit" where
  "validateManagedRecordingKey E org key =
     andalso (recordingStoragePrefix E org) (\<lambda>prefix.
       if key = [] \<or> IsAbs key \<or> Clean key \<noteq> key then Inl (ErrorString ''managed recording storage key is invalid'')
       else if \<not> has_prefix prefix key \<or> key = prefix
       then Inl (ErrorString ''managed recording storage key is outside organization prefix'')
       else Inr ())"

section \<open>Object storage\<close>

text \<open>
  \<^verbatim>\<open>ObjectStorage\<close>: the managed client, and the integrations service when there is one (with or without a
  cipher).
\<close>

type_synonym object_storage = "bool option"

definition managed_client :: "env \<Rightarrow> object_client" where
  "managed_client E = \<lparr>oc_store = None, oc_bucket = managed_bucket E\<rparr>"

definition customClient :: "env \<Rightarrow> resolved_integration \<Rightarrow> (world, goerr + object_client) state" where
  "customClient E resolved = do {
     r \<leftarrow> s3_New E (s3_config_of resolved);
     State_Monad.return (on_error (Wrap ''initialize recording S3 integration'') r)
   }"

definition custom_with_id ::
  "env \<Rightarrow> resolved_integration \<Rightarrow> (world, goerr + object_client \<times> uuid option) state" where
  "custom_with_id E resolved = do {
     c \<leftarrow> customClient E resolved;
     State_Monad.return (map_sum id (\<lambda>client. (client, Some (ig_id (fst resolved)))) c)
   }"

definition clientForRecording ::
  "env \<Rightarrow> object_storage \<Rightarrow> recording \<Rightarrow> bool \<Rightarrow> (world, goerr + object_client \<times> uuid option) state" where
  "clientForRecording E S r forUpload =
     (case rc_storage_integration_id r of
        Some i \<Rightarrow>
          (case S of
             None \<Rightarrow> State_Monad.return (Inl (ErrorString ''recording storage integration resolver is unavailable''))
           | Some cipher \<Rightarrow> do {
               x \<leftarrow> ResolveByID E cipher (rc_organization_id r) i;
               case x of
                 Inl e \<Rightarrow> State_Monad.return (Inl (Wrap ''resolve recording storage integration'' e))
               | Inr resolved \<Rightarrow> custom_with_id E resolved
             })
      | None \<Rightarrow>
          (case (if forUpload \<and> rc_storage_key r = None then S else None) of
             None \<Rightarrow> State_Monad.return (Inr (managed_client E, None))
           | Some cipher \<Rightarrow> do {
               x \<leftarrow> ResolveRecording E cipher (rc_organization_id r);
               case x of
                 Inr resolved \<Rightarrow> custom_with_id E resolved
               | Inl e \<Rightarrow>
                   State_Monad.return
                     (if error_is e ErrNoRows then Inr (managed_client E, None)
                      else Inl (Wrap ''resolve organization recording storage'' e))
             }))"

definition ResolveUpload ::
  "env \<Rightarrow> object_storage \<Rightarrow> recording \<Rightarrow> (world, goerr + uuid option \<times> string \<times> string) state" where
  "ResolveUpload E S r = do {
     x \<leftarrow> clientForRecording E S r True;
     State_Monad.return (map_sum id (\<lambda>(client, i). (i, ''s3'', oc_bucket client)) x)
   }"

definition managed_key_check :: "env \<Rightarrow> uuid option \<Rightarrow> uuid \<Rightarrow> string \<Rightarrow> goerr + unit" where
  "managed_key_check E integration org key =
     (if integration = None then validateManagedRecordingKey E org key else Inr ())"

definition storage_Put ::
  "env \<Rightarrow> object_storage \<Rightarrow> recording \<Rightarrow> string \<Rightarrow> int \<Rightarrow> (world, goerr + uuid option \<times> string \<times> string) state" where
  "storage_Put E S r key bytes = do {
     x \<leftarrow> clientForRecording E S r True;
     case x of
       Inl e \<Rightarrow> State_Monad.return (Inl e)
     | Inr (client, i) \<Rightarrow>
         (case managed_key_check E i (rc_organization_id r) key of
            Inl e \<Rightarrow> State_Monad.return (Inl e)
          | Inr _ \<Rightarrow> do {
              p \<leftarrow> client_Put E client key bytes;
              State_Monad.return (map_sum id (\<lambda>_. (i, ''s3'', oc_bucket client)) p)
            })
   }"

text \<open>The object of a recording, for playback and deletion: its client and key.\<close>

definition stored_object :: "env \<Rightarrow> object_storage \<Rightarrow> recording \<Rightarrow> (world, goerr + object_client \<times> string) state" where
  "stored_object E S r =
     (case (rc_storage_key r, rc_storage_provider r) of
        (Some key, Some provider) \<Rightarrow>
          if provider \<noteq> ''s3'' then State_Monad.return (Inl (ErrorString ''recording has no S3 object''))
          else do {
            x \<leftarrow> clientForRecording E S r False;
            State_Monad.return (andalso x (\<lambda>(client, i).
              if rc_storage_bucket r \<noteq> Some (oc_bucket client) then Inl (ErrorString ''recording S3 bucket is invalid'')
              else andalso (managed_key_check E i (rc_organization_id r) key) (\<lambda>_. Inr (client, key))))
          }
      | _ \<Rightarrow> State_Monad.return (Inl (ErrorString ''recording has no S3 object'')))"

definition storage_PlaybackURL :: "env \<Rightarrow> object_storage \<Rightarrow> recording \<Rightarrow> (world, goerr + string \<times> int) state" where
  "storage_PlaybackURL E S r = do {
     x \<leftarrow> stored_object E S r;
     case x of Inl e \<Rightarrow> State_Monad.return (Inl e) | Inr (client, key) \<Rightarrow> client_PlaybackURL E client key
   }"

definition storage_delete_object :: "env \<Rightarrow> object_storage \<Rightarrow> recording \<Rightarrow> (world, goerr + unit) state" where
  "storage_delete_object E S r = do {
     x \<leftarrow> stored_object E S r;
     case x of Inl e \<Rightarrow> State_Monad.return (Inl e) | Inr (client, key) \<Rightarrow> client_Delete E client key
   }"

end
