(* ===== verification/RecordingService.thy ===== *)
theory RecordingService
  imports Recordings Webhooks
begin

text \<open>
  The recordings service, the consumer of FreeSWITCH events and the two jobs of \<^verbatim>\<open>telephony/recordings\<close>.
\<close>

section \<open>Service\<close>

record lifecycle_event =
  le_call_id :: uuid
  le_channel_id :: string
  le_path :: string
  le_occurred_at :: int

definition recording_validateOrganizationID :: "uuid \<Rightarrow> goerr + unit" where
  "recording_validateOrganizationID org =
     (if org = uuid_Nil then Inl (NewBadRequest ''organization context required'') else Inr ())"

definition recording_validatePagination :: "int \<Rightarrow> int \<Rightarrow> goerr + unit" where
  "recording_validatePagination offset limit =
     (if offset < 0 then Inl (NewBadRequest ''offset cannot be negative'')
      else if limit < 1 \<or> limit > 100 then Inl (NewBadRequest ''limit must be between 1 and 100'')
      else Inr ())"

definition recording_readError :: "goerr \<Rightarrow> goerr" where
  "recording_readError e =
     (if error_is e ErrNoRows then NewNotFound ''recording not found'' else NewInternal ''get recording'' e)"

definition recording_Get :: "env \<Rightarrow> uuid \<Rightarrow> uuid \<Rightarrow> (world, goerr + recording) state" where
  "recording_Get E org i =
     (case recording_validateOrganizationID org of
        Inl e \<Rightarrow> State_Monad.return (Inl e)
      | Inr _ \<Rightarrow> do {
          r \<leftarrow> query E (GetRecording org i);
          State_Monad.return (on_error recording_readError r)
        })"

definition recording_List :: "env \<Rightarrow> uuid \<Rightarrow> int \<Rightarrow> int \<Rightarrow> (world, goerr + recording list) state" where
  "recording_List E org offset limit =
     (case andalso (recording_validateOrganizationID org) (\<lambda>_. recording_validatePagination offset limit) of
        Inl e \<Rightarrow> State_Monad.return (Inl e)
      | Inr _ \<Rightarrow> do {
          r \<leftarrow> query E (ListRecordings org offset limit);
          State_Monad.return (on_error (NewInternal ''list recordings'') r)
        })"

definition GetByCallStorageKey :: "env \<Rightarrow> uuid \<Rightarrow> string \<Rightarrow> (world, goerr + recording) state" where
  "GetByCallStorageKey E call path = query E (GetRecordingByCallStorageKey call path)"

definition time_or_now :: "env \<Rightarrow> int \<Rightarrow> (world, int) state" where
  "time_or_now E at = (if at = zero_time then wall_clock E else State_Monad.return at)"

definition ObserveStarted :: "env \<Rightarrow> lifecycle_event \<Rightarrow> (world, goerr + unit) state" where
  "ObserveStarted E ev =
     (let path = trim_space (le_path ev); call = le_call_id ev
      in if call = uuid_Nil \<or> path = []
         then State_Monad.return (Inl (NewBadRequest ''recording lifecycle event requires call id and path''))
         else do {
           at \<leftarrow> time_or_now E (le_occurred_at ev);
           o' \<leftarrow> GetCallOrganizationID E call;
           case o' of
             Inl e \<Rightarrow>
               State_Monad.return (if error_is e ErrNoRows then Inr () else Inl (NewInternal ''resolve recording call'' e))
           | Inr org \<Rightarrow> do {
               g \<leftarrow> GetByCallStorageKey E call path;
               case g of
                 Inr _ \<Rightarrow> State_Monad.return (Inr ())
               | Inl e \<Rightarrow>
                   if \<not> error_is e ErrNoRows
                   then State_Monad.return (Inl (NewInternal ''get recording by media path'' e))
                   else do {
                     s \<leftarrow> recording_Start E org call path at;
                     case s of
                       Inr _ \<Rightarrow> State_Monad.return (Inr ())
                     | Inl err \<Rightarrow> do {
                         again \<leftarrow> GetByCallStorageKey E call path;
                         State_Monad.return (case again of
                           Inr _ \<Rightarrow> Inr ()
                         | Inl _ \<Rightarrow> Inl (NewInternal ''start recording lifecycle'' err))
                       }
                   }
             }
         })"

definition stop_recording :: "env \<Rightarrow> lifecycle_event \<Rightarrow> goerr + recording \<Rightarrow> (world, goerr + unit) state" where
  "stop_recording E ev g =
     (case g of
        Inl e \<Rightarrow> State_Monad.return (Inl (NewInternal ''get recording by media path'' e))
      | Inr r \<Rightarrow>
          if rc_status r \<noteq> Recording then State_Monad.return (Inr ())
          else do {
            at \<leftarrow> time_or_now E (le_occurred_at ev);
            m \<leftarrow> MarkReadyForUpload E r at;
            State_Monad.return (case m of
              Inr _ \<Rightarrow> Inr ()
            | Inl e \<Rightarrow> if error_is e ErrNoRows then Inr () else Inl (NewInternal ''complete recording lifecycle'' e))
          })"

definition ObserveStopped :: "env \<Rightarrow> lifecycle_event \<Rightarrow> (world, goerr + unit) state" where
  "ObserveStopped E ev =
     (let path = trim_space (le_path ev); call = le_call_id ev
      in if call = uuid_Nil \<or> path = []
         then State_Monad.return (Inl (NewBadRequest ''recording lifecycle event requires call id and path''))
         else do {
           g \<leftarrow> GetByCallStorageKey E call path;
           case g of
             Inr _ \<Rightarrow> stop_recording E ev g
           | Inl e \<Rightarrow>
               if \<not> error_is e ErrNoRows then stop_recording E ev g
               else do {
                 s \<leftarrow> ObserveStarted E ev;
                 case s of
                   Inl err \<Rightarrow> State_Monad.return (Inl err)
                 | Inr _ \<Rightarrow> do {
                     g' \<leftarrow> GetByCallStorageKey E call path;
                     stop_recording E ev g'
                   }
               }
         })"

definition no_recording_storage :: goerr where
  "no_recording_storage = AppErr SERVICE_UNAVAILABLE ''recording storage is unavailable'' None"

text \<open>The storage of the service may be missing.\<close>

definition recording_Playback ::
  "env \<Rightarrow> object_storage option \<Rightarrow> uuid \<Rightarrow> uuid \<Rightarrow> (world, goerr + string \<times> int) state" where
  "recording_Playback E S org i = do {
     g \<leftarrow> recording_Get E org i;
     case g of
       Inl e \<Rightarrow> State_Monad.return (Inl e)
     | Inr r \<Rightarrow>
         if rc_status r \<noteq> Recorded
         then State_Monad.return (Inl (NewConflict ''recording is not available for playback''))
         else case S of
                None \<Rightarrow> State_Monad.return (Inl no_recording_storage)
              | Some st \<Rightarrow> do {
                  u \<leftarrow> storage_PlaybackURL E st r;
                  State_Monad.return (case u of
                    Inl e \<Rightarrow> Inl (NewServiceUnavailable ''create recording playback URL'' e)
                  | Inr (url, expires) \<Rightarrow>
                      if url = [] \<or> expires = zero_time
                      then Inl (AppErr SERVICE_UNAVAILABLE ''recording storage returned an invalid playback URL'' None)
                      else Inr (url, expires))
                }
   }"

definition recording_Delete :: "env \<Rightarrow> object_storage option \<Rightarrow> uuid \<Rightarrow> uuid \<Rightarrow> (world, goerr + unit) state" where
  "recording_Delete E S org i =
     (case recording_validateOrganizationID org of
        Inl e \<Rightarrow> State_Monad.return (Inl e)
      | Inr _ \<Rightarrow> do {
          g \<leftarrow> query E (GetRecordingIncludingDeleted org i);
          case g of
            Inl e \<Rightarrow> State_Monad.return (Inl (recording_readError e))
          | Inr r \<Rightarrow>
              if rc_status r = Deleted then State_Monad.return (Inr ())
              else if open_recording r
              then State_Monad.return (Inl (NewConflict ''recording cannot be deleted before upload completes''))
              else case S of
                     None \<Rightarrow> State_Monad.return (Inl no_recording_storage)
                   | Some st \<Rightarrow> do {
                       x \<leftarrow> storage_delete_object E st r;
                       case x of
                         Inl e \<Rightarrow> State_Monad.return (Inl (NewServiceUnavailable ''delete recording object'' e))
                       | Inr _ \<Rightarrow> do {
                           d \<leftarrow> recording_delete_row E r;
                           State_Monad.return (case d of
                             Inr _ \<Rightarrow> Inr ()
                           | Inl e \<Rightarrow> if error_is e ErrNoRows then Inr () else Inl (NewInternal ''delete recording'' e))
                         }
                     }
        })"

section \<open>Events of FreeSWITCH\<close>

definition firstRecordingPath :: "string list \<Rightarrow> string" where
  "firstRecordingPath vs = (case find (\<lambda>v. v \<noteq> []) (map trim_space vs) of None \<Rightarrow> [] | Some v \<Rightarrow> v)"

definition recordingLifecycleEvent :: "env \<Rightarrow> fs_event \<Rightarrow> (world, goerr + lifecycle_event) state" where
  "recordingLifecycleEvent E ev =
     (case uuid_parse E (trim_space (event_Header ev ''variable_leamout_call_id'')) of
        None \<Rightarrow>
          State_Monad.return (Inl (ErrorString ''FreeSWITCH recording event is missing valid Leamout call id''))
      | Some call \<Rightarrow>
          let channel = trim_space (event_Header ev ''Unique-ID'');
              path = firstRecordingPath [event_Header ev ''Record-File-Path'', event_Header ev ''variable_record_file_path'',
                event_Header ev ''variable_record_path''];
              raw = trim_space (event_Header ev ''Event-Date-Timestamp'')
          in if channel = [] then State_Monad.return (Inl (ErrorString ''FreeSWITCH recording event is missing Unique-ID''))
             else if path = []
             then State_Monad.return (Inl (ErrorString ''FreeSWITCH recording event is missing Record-File-Path''))
             else do {
               now \<leftarrow> wall_clock E;
               State_Monad.return (map_sum id
                 (\<lambda>at. \<lparr>le_call_id = call, le_channel_id = channel, le_path = path, le_occurred_at = at\<rparr>)
                 (if raw = [] then Inr now
                  else case parse_int64 raw of
                         None \<Rightarrow> Inl (ErrorString ''parse FreeSWITCH recording timestamp'')
                       | Some micros \<Rightarrow> Inr micros))
             })"

definition HandleFreeSWITCHEvent :: "env \<Rightarrow> fs_event \<Rightarrow> (world, goerr + unit) state" where
  "HandleFreeSWITCHEvent E ev =
     (if ev_name ev \<noteq> ''RECORD_START'' \<and> ev_name ev \<noteq> ''RECORD_STOP'' then State_Monad.return (Inr ())
      else do {
        l \<leftarrow> recordingLifecycleEvent E ev;
        case l of
          Inl e \<Rightarrow> State_Monad.return (Inl e)
        | Inr input \<Rightarrow>
            if ev_name ev = ''RECORD_START'' then ObserveStarted E input else ObserveStopped E input
      })"

section \<open>Reconciliation\<close>

record reconciliation_config =
  rj_interval :: int
  rj_grace :: int
  rj_batch_size :: int

definition NewReconciliationJob :: "bool \<Rightarrow> reconciliation_config \<Rightarrow> goerr + reconciliation_config" where
  "NewReconciliationJob repo c =
     (if \<not> repo then Inl (ErrorString ''recording reconciliation repository is required'')
      else Inr \<lparr>rj_interval = positive_or (rj_interval c) (30 * second), rj_grace = positive_or (rj_grace c) (60 * second),
                rj_batch_size = positive_or (rj_batch_size c) 200\<rparr>)"

fun reconcile_all :: "env \<Rightarrow> recording list \<Rightarrow> (world, goerr + unit) state" where
  "reconcile_all E [] = State_Monad.return (Inr ())"
| "reconcile_all E (r # rs) = do {
     now \<leftarrow> wall_clock E;
     m \<leftarrow> MarkReadyForUpload E r now;
     case m of
       Inr _ \<Rightarrow> reconcile_all E rs
     | Inl e \<Rightarrow>
         if error_is e ErrNoRows then reconcile_all E rs
         else State_Monad.return (Inl (Wrap ''reconcile recording'' e))
   }"

definition recording_Reconcile :: "env \<Rightarrow> reconciliation_config \<Rightarrow> (world, goerr + unit) state" where
  "recording_Reconcile E c = do {
     now \<leftarrow> wall_clock E;
     l \<leftarrow> query E (ListRecordingsForReconciliation (now - go_div (rj_grace c) 1000) (rj_batch_size c));
     case l of
       Inl e \<Rightarrow> State_Monad.return (Inl (Wrap ''list recordings for reconciliation'' e))
     | Inr stale \<Rightarrow> reconcile_all E stale
   }"

text \<open>\<^verbatim>\<open>Run\<close>: a pass and one more per tick; the error of a pass is logged.\<close>

fun reconciliation_Run :: "env \<Rightarrow> reconciliation_config \<Rightarrow> nat \<Rightarrow> (world, unit) state" where
  "reconciliation_Run E c 0 = do { _ \<leftarrow> recording_Reconcile E c; State_Monad.return () }"
| "reconciliation_Run E c (Suc ticks) = do { _ \<leftarrow> recording_Reconcile E c; reconciliation_Run E c ticks }"

section \<open>Ingestion\<close>

record ingestion_config =
  ij_interval :: int
  ij_lease :: int
  ij_base_retry :: int
  ij_max_retry :: int
  ij_max_attempts :: int
  ij_batch_size :: int
  ij_staging_path :: string

definition DefaultIngestionConfig :: "string \<Rightarrow> ingestion_config" where
  "DefaultIngestionConfig path =
     \<lparr>ij_interval = 5 * second, ij_lease = 120 * second, ij_base_retry = 5 * second, ij_max_retry = 900 * second,
      ij_max_attempts = 10, ij_batch_size = 50, ij_staging_path = path\<rparr>"

definition NewIngestionJob :: "bool \<Rightarrow> bool \<Rightarrow> ingestion_config \<Rightarrow> goerr + ingestion_config" where
  "NewIngestionJob repo storage c =
     (if \<not> repo \<or> \<not> storage then Inl (ErrorString ''recording ingestion requires repository and storage'')
      else
        let d = DefaultIngestionConfig (ij_staging_path c);
            staging = Clean (trim_space (ij_staging_path c))
        in if \<not> IsAbs staging then Inl (ErrorString ''recording staging path must be absolute'')
           else Inr \<lparr>ij_interval = positive_or (ij_interval c) (ij_interval d), ij_lease = positive_or (ij_lease c) (ij_lease d),
                     ij_base_retry = positive_or (ij_base_retry c) (ij_base_retry d),
                     ij_max_retry = positive_or (ij_max_retry c) (ij_max_retry d),
                     ij_max_attempts = positive_or (ij_max_attempts c) (ij_max_attempts d),
                     ij_batch_size = positive_or (ij_batch_size c) (ij_batch_size d), ij_staging_path = staging\<rparr>)"

text \<open>The file system: symbolic links, opening, examining and removing a file.\<close>

definition EvalSymlinks :: "env \<Rightarrow> string \<Rightarrow> (world, goerr + string) state" where
  "EvalSymlinks E p =
     external E (\<lambda>t w. (case eval_symlinks E t p of None \<Rightarrow> Inl (IOError t) | Some q \<Rightarrow> Inr q, w))"

definition staged_file :: "world \<Rightarrow> string \<Rightarrow> (bool \<times> int) option" where
  "staged_file w p = map_of (staged w) p"

text \<open>Opening follows the links that are there at that moment; an open file is its resolved path and what it was.\<close>

definition os_Open :: "env \<Rightarrow> string \<Rightarrow> (world, goerr + string \<times> bool \<times> int) state" where
  "os_Open E p =
     external E (\<lambda>t w. (case eval_symlinks E t p of
        None \<Rightarrow> Inl (IOError t)
      | Some q \<Rightarrow> (case staged_file w q of None \<Rightarrow> Inl (IOError t) | Some f \<Rightarrow> Inr (q, f)), w))"

text \<open>An open file that was removed meanwhile is still there.\<close>

definition file_Stat :: "env \<Rightarrow> string \<times> bool \<times> int \<Rightarrow> (world, goerr + bool \<times> int) state" where
  "file_Stat E opened = external E (\<lambda>t w. (Inr (or_else (staged_file w (fst opened)) (snd opened)), w))"

definition os_Remove :: "env \<Rightarrow> string \<Rightarrow> (world, goerr + unit) state" where
  "os_Remove E p =
     external E (\<lambda>t w. if staged_file w p = None then (Inl (Sentinel ''os.ErrNotExist''), w)
       else (Inr (), w\<lparr>staged := filter (\<lambda>f. fst f \<noteq> p) (staged w)\<rparr>))"

definition outside_staging :: "string \<Rightarrow> string \<Rightarrow> bool" where
  "outside_staging root p = (case Rel root p of Inl _ \<Rightarrow> True | Inr r \<Rightarrow> goes_out r)"

definition safeSourcePath :: "env \<Rightarrow> ingestion_config \<Rightarrow> recording \<Rightarrow> (world, goerr + string) state" where
  "safeSourcePath E c r =
     (case rc_source_path r of
        None \<Rightarrow> State_Monad.return (Inl (ErrorString ''recording source path is missing''))
      | Some source \<Rightarrow>
          let path = Clean (trim_space source)
          in if outside_staging (ij_staging_path c) path
             then State_Monad.return (Inl (ErrorString ''recording source path is outside staging directory''))
             else do {
               a \<leftarrow> EvalSymlinks E (ij_staging_path c);
               case a of
                 Inl e \<Rightarrow> State_Monad.return (Inl (Wrap ''resolve recording staging directory'' e))
               | Inr resolvedRoot \<Rightarrow> do {
                   b \<leftarrow> EvalSymlinks E path;
                   State_Monad.return (case b of
                     Inl e \<Rightarrow> Inl (Wrap ''resolve staged recording'' e)
                   | Inr resolvedPath \<Rightarrow>
                       if outside_staging resolvedRoot resolvedPath
                       then Inl (ErrorString ''recording source path resolves outside staging directory'')
                       else Inr resolvedPath)
                 }
             })"

text \<open>The back-off loop: \<open>n\<close> more doublings while the delay is under the limit.\<close>

fun double_delay :: "int \<Rightarrow> nat \<Rightarrow> int \<Rightarrow> int" where
  "double_delay limit 0 delay = delay"
| "double_delay limit (Suc n) delay = (if delay < limit then double_delay limit n (wrap64 (2 * delay)) else delay)"

definition retry_delay :: "ingestion_config \<Rightarrow> int \<Rightarrow> int" where
  "retry_delay c attempts =
     (let delay = double_delay (ij_max_retry c) (nat attempts) (ij_base_retry c)
      in if delay > ij_max_retry c then ij_max_retry c else delay)"

definition retryOrFail :: "env \<Rightarrow> ingestion_config \<Rightarrow> recording \<Rightarrow> goerr \<Rightarrow> (world, goerr + unit) state" where
  "retryOrFail E c r cause =
     (if wrap32 (rc_upload_attempts r + 1) \<ge> ij_max_attempts c
      then do {
        f \<leftarrow> recording_Fail E r;
        State_Monad.return (case f of
          Inr _ \<Rightarrow> Inr ()
        | Inl e \<Rightarrow> if error_is e ErrNoRows then Inr () else Inl (Wrap ''fail recording upload'' e))
      }
      else do {
        now \<leftarrow> wall_clock E;
        x \<leftarrow> RetryUpload E r (now + go_div (retry_delay c (rc_upload_attempts r)) 1000) (take 1000 (error_text E cause));
        State_Monad.return (on_error (Wrap ''schedule recording upload retry'') x)
      })"

text \<open>The zero value of \<^verbatim>\<open>sqlc.Recording\<close>, which a failed statement leaves in the variable it is assigned to.\<close>

definition zero_recording :: recording where
  "zero_recording =
     \<lparr>rc_id = uuid_Nil, rc_organization_id = uuid_Nil, rc_call_id = uuid_Nil, rc_storage_integration_id = None,
      rc_status = Recording, rc_storage_key = None, rc_storage_provider = None, rc_storage_bucket = None,
      rc_storage_url = None, rc_source_path = None, rc_stopped_at = None, rc_upload_attempts = 0,
      rc_next_upload_at = None, rc_upload_error = None, rc_file_size_bytes = None, rc_format = None,
      rc_duration_seconds = None, rc_started_at = None, rc_completed_at = None, rc_created_at = zero_time,
      rc_updated_at = zero_time\<rparr>"

definition recording_extension :: "string \<Rightarrow> string" where
  "recording_extension path = (let ext = to_lower (trim_dot (Ext path)) in if ext = [] then ''bin'' else ext)"

text \<open>
  Where the object of a recording goes: a recording that is pinned keeps its key, another one is pinned
  to a new key in the store that is resolved now. The result is the recording to go on with and the key;
  an error comes with the recording that is then retried.
\<close>

definition pin_destination ::
  "env \<Rightarrow> object_storage \<Rightarrow> recording \<Rightarrow> string \<Rightarrow> (world, (goerr \<times> recording) + recording \<times> string) state" where
  "pin_destination E S r ext =
     (case rc_storage_key r of
        Some key \<Rightarrow> State_Monad.return (Inr (r, key))
      | None \<Rightarrow> do {
          now \<leftarrow> wall_clock E;
          case recordingObjectKey E (rc_organization_id r) (rc_id r) now ext of
            Inl e \<Rightarrow> State_Monad.return (Inl (e, r))
          | Inr key \<Rightarrow> do {
              u \<leftarrow> ResolveUpload E S r;
              case u of
                Inl e \<Rightarrow> State_Monad.return (Inl (e, r))
              | Inr (integration, provider, bucket) \<Rightarrow> do {
                  p \<leftarrow> PinUpload E r integration key provider bucket;
                  State_Monad.return (case p of
                    Inl e \<Rightarrow> Inl (Wrap ''pin recording upload destination'' e, zero_recording)
                  | Inr pinned \<Rightarrow> Inr (pinned, key))
                }
            }
        })"

definition upload_recording ::
  "env \<Rightarrow> object_storage \<Rightarrow> ingestion_config \<Rightarrow> recording \<Rightarrow> string \<Rightarrow> string \<Rightarrow> string \<Rightarrow> int
     \<Rightarrow> (world, goerr + unit) state" where
  "upload_recording E S c r key path ext bytes = do {
     p \<leftarrow> storage_Put E S r key bytes;
     case p of
       Inl e \<Rightarrow> retryOrFail E c r e
     | Inr (integration, provider, bucket) \<Rightarrow> do {
         x \<leftarrow> CompleteUpload E r integration key provider bucket ext bytes;
         case x of
           Inl e \<Rightarrow>
             if error_is e ErrNoRows then do { _ \<leftarrow> os_Remove E path; State_Monad.return (Inr ()) }
             else State_Monad.return (Inl (Wrap ''complete recording upload'' e))
         | Inr _ \<Rightarrow> do { _ \<leftarrow> os_Remove E path; State_Monad.return (Inr ()) }
       }
   }"

definition ingestOne :: "env \<Rightarrow> object_storage \<Rightarrow> ingestion_config \<Rightarrow> recording \<Rightarrow> (world, goerr + unit) state" where
  "ingestOne E S c r = do {
     s \<leftarrow> safeSourcePath E c r;
     case s of
       Inl e \<Rightarrow> retryOrFail E c r e
     | Inr path \<Rightarrow> do {
         f \<leftarrow> os_Open E path;
         case f of
           Inl e \<Rightarrow> retryOrFail E c r (Wrap ''open staged recording'' e)
         | Inr file \<Rightarrow> do {
             i \<leftarrow> file_Stat E file;
             case i of
               Inl e \<Rightarrow> retryOrFail E c r (Wrap ''stat staged recording'' e)
             | Inr (regular, bytes) \<Rightarrow>
                 if \<not> regular \<or> bytes \<le> 0
                 then retryOrFail E c r (ErrorString ''staged recording is not a non-empty regular file'')
                 else do {
                   let ext = recording_extension path;
                   d \<leftarrow> pin_destination E S r ext;
                   case d of
                     Inl (e, r') \<Rightarrow> retryOrFail E c r' e
                   | Inr (pinned, key) \<Rightarrow> upload_recording E S c pinned key path ext bytes
                 }
           }
       }
   }"

fun ingest_all :: "env \<Rightarrow> object_storage \<Rightarrow> ingestion_config \<Rightarrow> recording list \<Rightarrow> (world, goerr + unit) state" where
  "ingest_all E S c [] = State_Monad.return (Inr ())"
| "ingest_all E S c (r # rs) = do {
     x \<leftarrow> ingestOne E S c r;
     case x of Inl e \<Rightarrow> State_Monad.return (Inl e) | Inr _ \<Rightarrow> ingest_all E S c rs
   }"

definition recording_Ingest :: "env \<Rightarrow> object_storage \<Rightarrow> ingestion_config \<Rightarrow> (world, goerr + unit) state" where
  "recording_Ingest E S c = do {
     now \<leftarrow> wall_clock E;
     l \<leftarrow> exec E (statement (ListRecordingsForUpload (now + go_div (ij_lease c) 1000) now (ij_batch_size c)));
     case l of
       Inl e \<Rightarrow> State_Monad.return (Inl (Wrap ''claim recording uploads'' e))
     | Inr items \<Rightarrow> ingest_all E S c items
   }"

fun ingestion_Run :: "env \<Rightarrow> object_storage \<Rightarrow> ingestion_config \<Rightarrow> nat \<Rightarrow> (world, unit) state" where
  "ingestion_Run E S c 0 = do { _ \<leftarrow> recording_Ingest E S c; State_Monad.return () }"
| "ingestion_Run E S c (Suc ticks) = do { _ \<leftarrow> recording_Ingest E S c; ingestion_Run E S c ticks }"

end
