(* ===== verification/Retention.thy ===== *)
theory Retention
  imports RecordingService
begin

text \<open>
  Retention policies and the job that deletes recordings past their retention, \<^verbatim>\<open>platform/retention\<close> with
  \<^verbatim>\<open>sqlc/retention.sql.go\<close>.
\<close>

section \<open>Policies\<close>

definition retention_resources :: "string list" where
  "retention_resources = [''recordings'', ''conversations'', ''audit_events'']"

definition retention_validateResource :: "string \<Rightarrow> goerr + unit" where
  "retention_validateResource r =
     (if r \<in> set retention_resources then Inr () else Inl (NewBadRequest ''unsupported retention resource''))"

definition retention_validateUpsert :: "int \<Rightarrow> goerr + unit" where
  "retention_validateUpsert days =
     (if days < 1 \<or> days > 3650 then Inl (NewBadRequest ''retention_days must be between 1 and 3650'') else Inr ())"

definition is_policy :: "uuid \<Rightarrow> string \<Rightarrow> retention_policy \<Rightarrow> bool" where
  "is_policy org resource p \<longleftrightarrow> rp_organization_id p = org \<and> rp_resource p = resource"

text \<open>The alphabetical order of the resources the table admits.\<close>

definition resource_rank :: "string \<Rightarrow> nat" where
  "resource_rank r = (if r = ''audit_events'' then 0 else if r = ''conversations'' then 1 else 2)"

definition ListRetentionPolicies :: "uuid \<Rightarrow> db \<Rightarrow> goerr + retention_policy list" where
  "ListRetentionPolicies org d =
     Inr (sort_key (resource_rank \<circ> rp_resource) (filter (\<lambda>p. rp_organization_id p = org) (retention_policies d)))"

definition UpsertRetentionPolicy ::
  "uuid \<Rightarrow> string \<Rightarrow> int \<Rightarrow> bool \<Rightarrow> int \<Rightarrow> db \<Rightarrow> goerr + retention_policy \<times> db" where
  "UpsertRetentionPolicy org resource days enabled now d =
     (let p = \<lparr>rp_organization_id = org, rp_resource = resource, rp_retention_days = days, rp_enabled = enabled,
               rp_created_at = now, rp_updated_at = now\<rparr>
      in if resource \<notin> set retention_resources \<or> days < 1 \<or> days > 3650 then Inl (ConstraintError ''23514'')
         else if org \<notin> o_id ` set (organizations d) then Inl (ConstraintError ''23503'')
         else
           case update_one (is_policy org resource)
                  (\<lambda>x. x\<lparr>rp_retention_days := days, rp_enabled := enabled, rp_updated_at := now\<rparr>) (retention_policies d) of
             Inr (x, rows) \<Rightarrow> Inr (x, d\<lparr>retention_policies := rows\<rparr>)
           | Inl _ \<Rightarrow> Inr (p, d\<lparr>retention_policies := retention_policies d @ [p]\<rparr>))"

definition DeleteRetentionPolicy :: "uuid \<Rightarrow> string \<Rightarrow> int \<Rightarrow> db \<Rightarrow> goerr + unit \<times> db" where
  "DeleteRetentionPolicy org resource now d =
     Inr ((), d\<lparr>retention_policies := filter (\<lambda>p. \<not> is_policy org resource p) (retention_policies d)\<rparr>)"

text \<open>Ordered by organization and resource, which decides whose recordings the job deletes first.\<close>

definition ListEnabledRetentionPolicies :: "db \<Rightarrow> goerr + retention_policy list" where
  "ListEnabledRetentionPolicies d =
     Inr (sort_key rp_organization_id (sort_key (resource_rank \<circ> rp_resource) (filter rp_enabled (retention_policies d))))"

definition expired_recording :: "uuid \<Rightarrow> int \<Rightarrow> recording \<Rightarrow> bool" where
  "expired_recording org cutoff r \<longleftrightarrow> rc_organization_id r = org \<and> rc_status r = Recorded \<and> rc_created_at r < cutoff"

definition ListExpiredRecordingsForRetention :: "uuid \<Rightarrow> int \<Rightarrow> int \<Rightarrow> db \<Rightarrow> goerr + uuid list" where
  "ListExpiredRecordingsForRetention org cutoff batch d =
     Inr (map rc_id (take (nat batch) (sort_key rc_created_at (filter (expired_recording org cutoff) (recordings d)))))"

section \<open>Service\<close>

definition no_retention_organization :: goerr where
  "no_retention_organization = NewBadRequest ''organization_id is required''"

definition retention_List :: "env \<Rightarrow> uuid \<Rightarrow> (world, goerr + retention_policy list) state" where
  "retention_List E org =
     (if org = uuid_Nil then State_Monad.return (Inl no_retention_organization)
      else do {
        r \<leftarrow> query E (ListRetentionPolicies org);
        State_Monad.return (on_error (NewInternal ''list retention policies'') r)
      })"

definition retention_Upsert ::
  "env \<Rightarrow> uuid \<Rightarrow> string \<Rightarrow> int \<Rightarrow> bool \<Rightarrow> (world, goerr + retention_policy) state" where
  "retention_Upsert E org resource days enabled =
     (if org = uuid_Nil then State_Monad.return (Inl no_retention_organization)
      else
        case andalso (retention_validateResource resource) (\<lambda>_. retention_validateUpsert days) of
          Inl e \<Rightarrow> State_Monad.return (Inl e)
        | Inr _ \<Rightarrow> do {
            r \<leftarrow> exec E (statement (UpsertRetentionPolicy org resource days enabled));
            State_Monad.return (on_error (NewInternal ''upsert retention policy'') r)
          })"

definition retention_Delete :: "env \<Rightarrow> uuid \<Rightarrow> string \<Rightarrow> (world, goerr + unit) state" where
  "retention_Delete E org resource =
     (if org = uuid_Nil then State_Monad.return (Inl no_retention_organization)
      else
        case retention_validateResource resource of
          Inl e \<Rightarrow> State_Monad.return (Inl e)
        | Inr _ \<Rightarrow> do {
            r \<leftarrow> exec E (statement (DeleteRetentionPolicy org resource));
            State_Monad.return (on_error (NewInternal ''delete retention policy'') r)
          })"

section \<open>The cleanup job\<close>

record cleanup_config =
  cj_interval :: int
  cj_batch_size :: int

definition NewCleanupJob :: "bool \<Rightarrow> bool \<Rightarrow> cleanup_config \<Rightarrow> goerr + cleanup_config" where
  "NewCleanupJob repo deleter c =
     (if \<not> repo \<or> \<not> deleter then Inl (ErrorString ''retention repository and recording service are required'')
      else if cj_interval c \<le> 0 \<or> cj_batch_size c \<le> 0
      then Inl (ErrorString ''retention cleanup interval and batch size must be positive'')
      else Inr c)"

fun delete_all :: "env \<Rightarrow> object_storage option \<Rightarrow> uuid \<Rightarrow> uuid list \<Rightarrow> (world, goerr + unit) state" where
  "delete_all E S org [] = State_Monad.return (Inr ())"
| "delete_all E S org (i # is) = do {
     x \<leftarrow> recording_Delete E S org i;
     case x of
       Inl e \<Rightarrow> State_Monad.return (Inl (Wrap ''delete retained recording'' e))
     | Inr _ \<Rightarrow> delete_all E S org is
   }"

text \<open>
  The batches of one policy until one is not full. Nothing in the code bounds their number; \<open>fuel\<close> does, and
  running out of it is \<open>None\<close>.
\<close>

fun cleanup_batches ::
  "env \<Rightarrow> object_storage option \<Rightarrow> cleanup_config \<Rightarrow> uuid \<Rightarrow> int \<Rightarrow> nat \<Rightarrow> (world, (goerr + unit) option) state" where
  "cleanup_batches E S c org cutoff 0 = State_Monad.return None"
| "cleanup_batches E S c org cutoff (Suc fuel) = do {
     l \<leftarrow> query E (ListExpiredRecordingsForRetention org cutoff (cj_batch_size c));
     case l of
       Inl e \<Rightarrow> State_Monad.return (Some (Inl (Wrap ''list expired recordings for organization'' e)))
     | Inr ids \<Rightarrow> do {
         x \<leftarrow> delete_all E S org ids;
         case x of
           Inl e \<Rightarrow> State_Monad.return (Some (Inl e))
         | Inr _ \<Rightarrow>
             if int (length ids) < cj_batch_size c then State_Monad.return (Some (Inr ()))
             else cleanup_batches E S c org cutoff fuel
       }
   }"

definition retention_cutoff :: "int \<Rightarrow> retention_policy \<Rightarrow> int" where
  "retention_cutoff now p = now - rp_retention_days p * 86400000000"

fun cleanup_policies ::
  "env \<Rightarrow> object_storage option \<Rightarrow> cleanup_config \<Rightarrow> nat \<Rightarrow> retention_policy list
     \<Rightarrow> (world, (goerr + unit) option) state" where
  "cleanup_policies E S c fuel [] = State_Monad.return (Some (Inr ()))"
| "cleanup_policies E S c fuel (p # ps) =
     (if rp_resource p \<noteq> ''recordings'' then cleanup_policies E S c fuel ps
      else do {
        now \<leftarrow> wall_clock E;
        x \<leftarrow> cleanup_batches E S c (rp_organization_id p) (retention_cutoff now p) fuel;
        case x of
          Some (Inr _) \<Rightarrow> cleanup_policies E S c fuel ps
        | stop \<Rightarrow> State_Monad.return stop
      })"

definition runOnce ::
  "env \<Rightarrow> object_storage option \<Rightarrow> cleanup_config \<Rightarrow> nat \<Rightarrow> (world, (goerr + unit) option) state" where
  "runOnce E S c fuel = do {
     l \<leftarrow> query E ListEnabledRetentionPolicies;
     case l of
       Inl e \<Rightarrow> State_Monad.return (Some (Inl (Wrap ''list enabled retention policies'' e)))
     | Inr ps \<Rightarrow> cleanup_policies E S c fuel ps
   }"

text \<open>\<^verbatim>\<open>Run\<close>: a pass and one more per tick; the first error ends the job.\<close>

fun cleanup_Run ::
  "env \<Rightarrow> object_storage option \<Rightarrow> cleanup_config \<Rightarrow> nat \<Rightarrow> nat \<Rightarrow> (world, (goerr + unit) option) state" where
  "cleanup_Run E S c fuel 0 = runOnce E S c fuel"
| "cleanup_Run E S c fuel (Suc ticks) = do {
     x \<leftarrow> runOnce E S c fuel;
     case x of Some (Inr _) \<Rightarrow> cleanup_Run E S c fuel ticks | stop \<Rightarrow> State_Monad.return stop
   }"

end
