(* ===== verification/RecordingGuarantees.thy ===== *)
theory RecordingGuarantees
  imports Retention TrunkGuarantees
begin

text \<open>
  How the archive of recordings evolves. The relation \<open>archive\<close> says what any operation may do to the
  tables and to the object stores: recordings move along their status machine, keep their identity and,
  once pinned, their destination; storage integrations keep the object store they stand for; and what is
  filed stays filed, where a recording is filed when its last status is announced in the outbox and its
  object was put, or removed, where the row says. Operations that rely on what an earlier step found or
  did are verified with triples that carry such facts over the interference of other processes.
\<close>

section \<open>Facts that survive interference\<close>

context world_history
begin

abbreviation stable :: "(world \<Rightarrow> bool) \<Rightarrow> bool" where
  "stable P \<equiv> \<forall>w w'. R w w' \<longrightarrow> P w \<longrightarrow> P w'"

abbreviation triple :: "(world \<Rightarrow> bool) \<Rightarrow> (world, 'a) state \<Rightarrow> ('a \<Rightarrow> world \<Rightarrow> bool) \<Rightarrow> bool" where
  "triple P m Q \<equiv> \<forall>w. P w \<longrightarrow> R w (snd (run_state m w)) \<and> Q (fst (run_state m w)) (snd (run_state m w))"

lemma tick_step: "R w (w\<lparr>tick := n\<rparr>)"
  by (simp add: tick_free refl)

lemma triple_return: "(\<And>w. P w \<Longrightarrow> Q x w) \<Longrightarrow> triple P (State_Monad.return x) Q"
  by (simp add: refl)

lemma triple_bind:
  assumes "triple P m Q" and "\<And>x. triple (Q x) (f x) S"
  shows "triple P (State_Monad.bind m f) S"
proof (intro allI impI)
  fix w assume "P w"
  let ?x = "fst (run_state m w)" and ?w = "snd (run_state m w)"
  have 1: "R w ?w" "Q ?x ?w" using assms(1) \<open>P w\<close> by blast+
  have 2: "R ?w (snd (run_state (f ?x) ?w))" "S (fst (run_state (f ?x) ?w)) (snd (run_state (f ?x) ?w))"
    using assms(2) [of ?x] 1(2) by blast+
  have "run_state (State_Monad.bind m f) w = run_state (f ?x) ?w" by (simp add: case_prod_unfold)
  with trans [OF 1(1) 2(1)] 2(2)
  show "R w (snd (run_state (State_Monad.bind m f) w)) \<and>
      S (fst (run_state (State_Monad.bind m f) w)) (snd (run_state (State_Monad.bind m f) w))" by metis
qed

lemma triple_weaken: "triple P m Q \<Longrightarrow> (\<And>w. P' w \<Longrightarrow> P w) \<Longrightarrow> (\<And>x w. Q x w \<Longrightarrow> Q' x w) \<Longrightarrow> triple P' m Q'"
  by blast

lemma triple_moves: "moves m \<Longrightarrow> stable P \<Longrightarrow> triple P m (\<lambda>_. P)"
  by (meson movesD)

lemma triple_ex: "(\<And>c. triple (P c) m Q) \<Longrightarrow> triple (\<lambda>w. \<exists>c. P c w) m Q"
  by blast

lemma triple_frame: "triple P m Q \<Longrightarrow> stable F \<Longrightarrow> triple (\<lambda>w. P w \<and> F w) m (\<lambda>x w. Q x w \<and> F w)"
  by blast

lemma triple_if: "(b \<Longrightarrow> triple P m Q) \<Longrightarrow> (\<not> b \<Longrightarrow> triple P n Q) \<Longrightarrow> triple P (if b then m else n) Q"
  by simp

lemma triple_sum:
  "(\<And>e. x = Inl e \<Longrightarrow> triple P (f e) Q) \<Longrightarrow> (\<And>y. x = Inr y \<Longrightarrow> triple P (g y) Q) \<Longrightarrow>
   triple P (case x of Inl e \<Rightarrow> f e | Inr y \<Rightarrow> g y) Q"
  by (cases x) simp_all

lemma triple_option:
  "(x = None \<Longrightarrow> triple P m Q) \<Longrightarrow> (\<And>y. x = Some y \<Longrightarrow> triple P (f y) Q) \<Longrightarrow>
   triple P (case x of None \<Rightarrow> m | Some y \<Rightarrow> f y) Q"
  by (cases x) simp_all

lemma triple_prod: "(\<And>a b. x = (a, b) \<Longrightarrow> triple P (f a b) Q) \<Longrightarrow> triple P (case x of (a, b) \<Rightarrow> f a b) Q"
  by (cases x) simp

lemma triple_bind_sum:
  assumes "triple P m Q" and "\<And>e. triple (Q (Inl e)) (f e) S" and "\<And>y. triple (Q (Inr y)) (g y) S"
  shows "triple P (State_Monad.bind m (\<lambda>x. case x of Inl e \<Rightarrow> f e | Inr y \<Rightarrow> g y)) S"
proof (rule triple_bind [OF assms(1)])
  show "triple (Q x) (case x of Inl e \<Rightarrow> f e | Inr y \<Rightarrow> g y) S" for x
    using assms(2,3) by (cases x) (simp_all only: sum.case)
qed

lemma triple_pure: "(A \<Longrightarrow> triple P m Q) \<Longrightarrow> triple (\<lambda>w. A \<and> P w) m Q"
  by blast

lemma triple_get: "stable P \<Longrightarrow> triple P State_Monad.get (\<lambda>_. P)"
  by (rule triple_moves [OF get_moves])

text \<open>What the result alone tells.\<close>

lemma triple_result:
  "moves m \<Longrightarrow> stable P \<Longrightarrow> (\<And>w. C (fst (run_state m w))) \<Longrightarrow> triple P m (\<lambda>x w. P w \<and> C x)"
  by (metis movesD)

lemmas triple_intros = triple_if triple_sum triple_option triple_prod

lemma moved_tick:
  assumes "\<forall>t w. R w (interference E t w)" and "stable P" and "P w"
  shows "R w ((interference E t w)\<lparr>tick := n\<rparr>)" "P ((interference E t w)\<lparr>tick := n\<rparr>)"
proof -
  show "R w ((interference E t w)\<lparr>tick := n\<rparr>)" using assms(1) by (simp add: tick_free)
  with assms(2,3) show "P ((interference E t w)\<lparr>tick := n\<rparr>)" by blast
qed

lemma triple_external:
  assumes rely: "\<forall>t w. R w (interference E t w)" and st: "stable P"
    and step: "\<And>t w. P w \<Longrightarrow> R w (snd (f t w))"
    and ok: "\<And>t w x. P w \<Longrightarrow> fst (f t w) = x \<Longrightarrow> Q x (snd (f t w))"
    and err: "\<And>e w. P w \<Longrightarrow> Q (Inl e) w"
  shows "triple P (external E f) Q"
proof (intro allI impI)
  fix w assume P: "P w"
  let ?t = "tick w"
  let ?w = "(interference E ?t w)\<lparr>tick := Suc ?t\<rparr>"
  note moved = moved_tick [OF rely st P, where t = ?t and n = "Suc ?t"]
  have f: "R ?w (snd (f ?t ?w))" by (rule step [OF moved(2)])
  have Pf: "P (snd (f ?t ?w))" using st f moved(2) by blast
  show "R w (snd (run_state (external E f) w)) \<and> Q (fst (run_state (external E f) w)) (snd (run_state (external E f) w))"
  proof (cases "fault_at E ?t")
    case NoFault
    with trans [OF moved(1) f] ok [OF moved(2) HOL.refl] show ?thesis by (simp add: external_def Let_def)
  next
    case FailBefore
    with moved err show ?thesis by (simp add: external_def Let_def)
  next
    case FailAfter
    with trans [OF moved(1) f] err [OF Pf] show ?thesis by (simp add: external_def Let_def)
  qed
qed

lemma triple_query:
  assumes rely: "\<forall>t w. R w (interference E t w)" and st: "stable P"
    and ok: "\<And>w x. P w \<Longrightarrow> f (database w) = x \<Longrightarrow> Q x w" and err: "\<And>e w. P w \<Longrightarrow> Q (Inl e) w"
  shows "triple P (query E f) Q"
  unfolding query_def by (rule triple_external [OF rely st]) (simp_all add: refl ok err)

lemma triple_exec:
  assumes rely: "\<forall>t w. R w (interference E t w)" and st: "stable P"
    and step: "\<And>now w x d. P w \<Longrightarrow> q now (database w) = Inr (x, d) \<Longrightarrow> R w (w\<lparr>database := d\<rparr>) \<and> Q (Inr x) (w\<lparr>database := d\<rparr>)"
    and err: "\<And>e w. P w \<Longrightarrow> Q (Inl e) w"
  shows "triple P (exec E (statement q)) Q"
  unfolding exec_def statement_def
proof (rule triple_external [OF rely st])
  fix t w x assume "P w"
  then show "R w (snd (case case q (clock E t) (database w) of Inl e \<Rightarrow> (Inl e, database w) | Inr (x, d') \<Rightarrow> (Inr x, d')
      of (r, d) \<Rightarrow> (r, w\<lparr>database := d\<rparr>)))"
    by (auto simp: refl dest: step split: sum.split)
  assume "fst (case case q (clock E t) (database w) of Inl e \<Rightarrow> (Inl e, database w) | Inr (x, d') \<Rightarrow> (Inr x, d')
      of (r, d) \<Rightarrow> (r, w\<lparr>database := d\<rparr>)) = x"
  with \<open>P w\<close> show "Q x (snd (case case q (clock E t) (database w) of Inl e \<Rightarrow> (Inl e, database w) | Inr (x, d') \<Rightarrow> (Inr x, d')
      of (r, d) \<Rightarrow> (r, w\<lparr>database := d\<rparr>)))"
    by (auto simp: err dest: step split: sum.splits)
qed (rule err)

lemma triple_transaction:
  assumes rely: "\<forall>t w. R w (interference E t w)" and st: "stable P"
    and body: "\<And>now t w x d. P w \<Longrightarrow> body now t (database w) = Inr (x, d) \<Longrightarrow> R w (w\<lparr>database := d\<rparr>)"
  shows "triple P (transaction E name body) (\<lambda>_. P)"
proof -
  have commit: "triple P (State (commit_step E se ce body now)) (\<lambda>_. P)" for se ce now
  proof (intro allI impI)
    fix w assume P: "P w"
    let ?t = "tick w"
    let ?w = "(interference E ?t w)\<lparr>tick := Suc (Suc ?t)\<rparr>"
    note moved = moved_tick [OF rely st P, where t = ?t and n = "Suc (Suc ?t)"]
    have "R w (?w\<lparr>database := d\<rparr>) \<and> P (?w\<lparr>database := d\<rparr>)" if "body now ?t (database ?w) = Inr (x, d)" for x d
    proof -
      have "R ?w (?w\<lparr>database := d\<rparr>)" by (rule body [OF moved(2) that])
      with moved st trans show ?thesis by blast
    qed
    then show "R w (snd (run_state (State (commit_step E se ce body now)) w)) \<and> P (snd (run_state (State (commit_step E se ce body now)) w))"
      using moved by (simp add: commit_step_def Let_def split: fault.split sum.split prod.split)
  qed
  have b: "triple P (external E (clock_step E)) (\<lambda>_. P)"
    by (rule triple_external [OF rely st]) (simp_all add: clock_step_def refl)
  show ?thesis
    unfolding transaction_def step_codes(6)
    by (rule triple_bind [OF b]) (rule triple_sum, rule triple_return, assumption, rule commit)
qed

end

section \<open>The relation\<close>

definition status_le :: "recording_status \<Rightarrow> recording_status \<Rightarrow> bool" where
  "status_le a b \<longleftrightarrow>
     a = b \<or> (case a of Recording \<Rightarrow> True | Uploading \<Rightarrow> b \<noteq> Recording | Recorded \<Rightarrow> b = Deleted
       | RecordingFailed \<Rightarrow> b = Deleted | Deleted \<Rightarrow> False)"

text \<open>
  A row between two points in time: its identity stays, its status advances, attempts only grow, a pinned
  destination stays, and what is known of the object is final once the upload ended.
\<close>

definition recording_step :: "recording \<Rightarrow> recording \<Rightarrow> bool" where
  "recording_step r r' \<longleftrightarrow>
     rc_id r' = rc_id r \<and> rc_organization_id r' = rc_organization_id r \<and> rc_call_id r' = rc_call_id r \<and>
     rc_source_path r' = rc_source_path r \<and> rc_started_at r' = rc_started_at r \<and> rc_created_at r' = rc_created_at r \<and>
     status_le (rc_status r) (rc_status r') \<and> rc_upload_attempts r \<le> rc_upload_attempts r' \<and>
     (rc_storage_key r \<noteq> None \<longrightarrow>
        rc_storage_key r' = rc_storage_key r \<and> rc_storage_integration_id r' = rc_storage_integration_id r) \<and>
     (\<not> open_recording r \<longrightarrow>
        rc_storage_key r' = rc_storage_key r \<and> rc_storage_integration_id r' = rc_storage_integration_id r \<and>
        rc_storage_bucket r' = rc_storage_bucket r \<and> rc_storage_provider r' = rc_storage_provider r \<and>
        rc_file_size_bytes r' = rc_file_size_bytes r \<and> rc_format r' = rc_format r \<and> rc_completed_at r' = rc_completed_at r)"

definition integration_step :: "storage_integration \<Rightarrow> storage_integration \<Rightarrow> bool" where
  "integration_step s s' \<longleftrightarrow>
     sg_id s' = sg_id s \<and> sg_organization_id s' = sg_organization_id s \<and> sg_endpoint_url s' = sg_endpoint_url s \<and>
     sg_region s' = sg_region s \<and> sg_bucket s' = sg_bucket s \<and> sg_use_path_style s' = sg_use_path_style s"

text \<open>The client of the object store a row points at.\<close>

definition placed :: "env \<Rightarrow> db \<Rightarrow> recording \<Rightarrow> object_client \<Rightarrow> bool" where
  "placed E d r client \<longleftrightarrow>
     (case rc_storage_integration_id r of
        None \<Rightarrow> client = managed_client E
      | Some i \<Rightarrow> \<exists>s \<in> set (storage_integrations d). own_integration i (rc_organization_id r) s \<and>
          (\<exists>host secure. parseEndpoint E (sg_endpoint_url s) = Inr (host, secure) \<and>
             client = \<lparr>oc_store = Some host, oc_bucket = trim_space (sg_bucket s)\<rparr>))"

definition put_at :: "object_client \<Rightarrow> string \<Rightarrow> int \<Rightarrow> world \<Rightarrow> bool" where
  "put_at client key bytes w \<longleftrightarrow> PutObject (oc_store client) (oc_bucket client) key bytes \<in> set (object_log w)"

definition removed_at :: "object_client \<Rightarrow> string \<Rightarrow> world \<Rightarrow> bool" where
  "removed_at client key w \<longleftrightarrow> RemoveObject (oc_store client) (oc_bucket client) key \<in> set (object_log w)"

definition accounted :: "env \<Rightarrow> world \<Rightarrow> recording \<Rightarrow> bool" where
  "accounted E w r \<longleftrightarrow>
     (rc_status r = Recorded \<longrightarrow>
        (\<exists>client key bytes. placed E (database w) r client \<and> rc_storage_key r = Some key \<and>
           rc_storage_bucket r = Some (oc_bucket client) \<and> rc_file_size_bytes r = Some bytes \<and> put_at client key bytes w)) \<and>
     (rc_status r = Deleted \<longrightarrow>
        (\<exists>client key. placed E (database w) r client \<and> rc_storage_key r = Some key \<and>
           rc_storage_bucket r = Some (oc_bucket client) \<and> removed_at client key w))"

fun status_event :: "recording_status \<Rightarrow> string" where
  "status_event Recording = ''recording.started''"
| "status_event Uploading = []"
| "status_event Recorded = ''recording.completed''"
| "status_event RecordingFailed = ''recording.failed''"
| "status_event Deleted = ''recording.deleted''"

definition announced :: "db \<Rightarrow> recording \<Rightarrow> bool" where
  "announced d r \<longleftrightarrow>
     rc_status r \<noteq> Uploading \<longrightarrow>
     (\<exists>at. RecordingPayload (status_event (rc_status r)) (rc_organization_id r) (rc_id r) (rc_call_id r) (recordingResponse r) at
        \<in> ob_payload ` set (outbox d))"

definition filed :: "env \<Rightarrow> world \<Rightarrow> bool" where
  "filed E w \<longleftrightarrow> (\<forall>r \<in> set (recordings (database w)). accounted E w r \<and> announced (database w) r)"

definition keyed :: "world \<Rightarrow> bool" where
  "keyed w \<longleftrightarrow> distinct (map rc_id (recordings (database w)))"

text \<open>What the files of a row rest on only grows.\<close>

definition wider :: "world \<Rightarrow> world \<Rightarrow> bool" where
  "wider w w' \<longleftrightarrow>
     grows integration_step (storage_integrations (database w)) (storage_integrations (database w')) \<and>
     set (object_log w) \<subseteq> set (object_log w') \<and>
     ob_payload ` set (outbox (database w)) \<subseteq> ob_payload ` set (outbox (database w'))"

definition archive :: "env \<Rightarrow> world \<Rightarrow> world \<Rightarrow> bool" where
  "archive E w w' \<longleftrightarrow>
     keyed w \<longrightarrow>
     keyed w' \<and> grows recording_step (recordings (database w)) (recordings (database w')) \<and> wider w w' \<and>
     (filed E w \<longrightarrow> filed E w')"

lemma status_le_trans: "status_le a b \<Longrightarrow> status_le b c \<Longrightarrow> status_le a c"
  by (cases a; cases b; cases c) (simp_all add: status_le_def)

lemma status_le_refl [simp]: "status_le a a"
  by (simp add: status_le_def)

lemma status_le_open: "status_le (rc_status r) (rc_status r') \<Longrightarrow> \<not> open_recording r \<Longrightarrow> \<not> open_recording r'"
  by (cases "rc_status r"; cases "rc_status r'") (simp_all add: status_le_def open_recording_def)

lemma recording_step_refl [simp]: "recording_step r r"
  by (simp add: recording_step_def)

lemma recording_step_trans:
  assumes "recording_step a b" "recording_step b c"
  shows "recording_step a c"
proof -
  have "status_le (rc_status a) (rc_status c)"
    using assms status_le_trans unfolding recording_step_def by blast
  moreover have "\<not> open_recording b" if "\<not> open_recording a"
    using assms(1) that status_le_open unfolding recording_step_def by blast
  ultimately show ?thesis using assms unfolding recording_step_def by auto
qed

lemma integration_step_refl [simp]: "integration_step s s"
  by (simp add: integration_step_def)

lemma integration_step_trans: "integration_step a b \<Longrightarrow> integration_step b c \<Longrightarrow> integration_step a c"
  by (simp add: integration_step_def)

lemma wider_refl [simp]: "wider w w"
  by (simp add: wider_def grows_refl)

lemma grow_trans:
  "grows recording_step x y \<Longrightarrow> grows recording_step y z \<Longrightarrow> grows recording_step x z"
  "grows integration_step a b \<Longrightarrow> grows integration_step b c \<Longrightarrow> grows integration_step a c"
  by (rule grows_trans, erule (1) recording_step_trans integration_step_trans, assumption+)+

lemma wider_trans: "wider a b \<Longrightarrow> wider b c \<Longrightarrow> wider a c"
  unfolding wider_def using grow_trans(2) order_trans by metis

lemma archive_trans:
  assumes "archive E u v" "archive E v w"
  shows "archive E u w"
  unfolding archive_def
proof (intro impI)
  assume "keyed u"
  with assms(1) have v: "keyed v" "grows recording_step (recordings (database u)) (recordings (database v))" "wider u v"
    "filed E u \<longrightarrow> filed E v" by (simp_all add: archive_def)
  with assms(2) have w: "keyed w" "grows recording_step (recordings (database v)) (recordings (database w))" "wider v w"
    "filed E v \<longrightarrow> filed E w" by (simp_all add: archive_def)
  show "keyed w \<and> grows recording_step (recordings (database u)) (recordings (database w)) \<and> wider u w \<and> (filed E u \<longrightarrow> filed E w)"
    using w(1,4) v(4) grow_trans(1) [OF v(2) w(2)] wider_trans [OF v(3) w(3)] by simp
qed

interpretation archiving: world_history "archive E" for E
proof unfold_locales
  show "archive E w w" for w by (simp add: archive_def grows_refl)
  show "archive E u v \<Longrightarrow> archive E v w \<Longrightarrow> archive E u w" for u v w by (rule archive_trans)
  show "archive E w (w'\<lparr>tick := n\<rparr>) = archive E w w'" for w w' n
    by (simp add: archive_def keyed_def filed_def accounted_def wider_def put_at_def removed_at_def)
qed

section \<open>What stays true\<close>

lemma placed_wider: "wider w w' \<Longrightarrow> placed E (database w) r client \<Longrightarrow> placed E (database w') r client"
proof (cases "rc_storage_integration_id r")
  case (Some i)
  assume w: "wider w w'" and "placed E (database w) r client"
  then obtain s host secure where s: "s \<in> set (storage_integrations (database w))" "own_integration i (rc_organization_id r) s"
    "parseEndpoint E (sg_endpoint_url s) = Inr (host, secure)" "client = \<lparr>oc_store = Some host, oc_bucket = trim_space (sg_bucket s)\<rparr>"
    by (auto simp: placed_def Some)
  from w s(1) obtain s' where "s' \<in> set (storage_integrations (database w'))" "integration_step s s'"
    unfolding wider_def by (blast dest: growsD)
  with s show ?thesis by (auto simp: placed_def Some integration_step_def own_integration_def)
qed (simp add: placed_def)

lemma log_wider:
  "wider w w' \<Longrightarrow> put_at client key bytes w \<Longrightarrow> put_at client key bytes w'"
  "wider w w' \<Longrightarrow> removed_at client key w \<Longrightarrow> removed_at client key w'"
  by (auto simp: wider_def put_at_def removed_at_def)

lemma accounted_wider: "wider w w' \<Longrightarrow> accounted E w r \<Longrightarrow> accounted E w' r"
  using placed_wider [of w w'] log_wider [of w w'] unfolding accounted_def by meson

lemma announced_wider: "wider w w' \<Longrightarrow> announced (database w) r \<Longrightarrow> announced (database w') r"
  unfolding announced_def wider_def by blast

lemma archive_keyed: "archive E w w' \<Longrightarrow> keyed w \<Longrightarrow> keyed w'"
  by (simp add: archive_def)

lemma archive_wider: "archive E w w' \<Longrightarrow> keyed w \<Longrightarrow> wider w w'"
  by (simp add: archive_def)

lemma archive_row: "archive E w w' \<Longrightarrow> keyed w \<Longrightarrow> r \<in> set (recordings (database w)) \<Longrightarrow>
    \<exists>r' \<in> set (recordings (database w')). recording_step r r'"
  unfolding archive_def by (blast dest: growsD)

text \<open>A change of rows in place: each row steps, and what the new rows are filed with is there.\<close>

lemma archive_map:
  assumes rows: "recordings d' = map g (recordings (database w))"
    and wide: "wider w (w\<lparr>database := d'\<rparr>)"
    and step: "keyed w \<Longrightarrow> \<forall>r \<in> set (recordings (database w)). recording_step r (g r)"
    and new: "keyed w \<Longrightarrow> filed E w \<Longrightarrow> \<forall>r \<in> set (recordings (database w)). g r \<noteq> r \<longrightarrow>
      accounted E (w\<lparr>database := d'\<rparr>) (g r) \<and> announced d' (g r)"
  shows "archive E w (w\<lparr>database := d'\<rparr>)"
  unfolding archive_def
proof (intro impI conjI)
  assume k: "keyed w"
  have "map rc_id (recordings d') = map rc_id (recordings (database w))"
    using step [OF k] by (simp add: rows recording_step_def)
  then show "keyed (w\<lparr>database := d'\<rparr>)" using k by (simp add: keyed_def)
  show "grows recording_step (recordings (database w)) (recordings (database (w\<lparr>database := d'\<rparr>)))"
    using step [OF k] by (simp add: rows grows_def)
  show "filed E (w\<lparr>database := d'\<rparr>)" if f: "filed E w"
    unfolding filed_def
  proof
    fix x assume "x \<in> set (recordings (database (w\<lparr>database := d'\<rparr>)))"
    then obtain r where r: "r \<in> set (recordings (database w))" "x = g r" by (auto simp: rows)
    show "accounted E (w\<lparr>database := d'\<rparr>) x \<and> announced (database (w\<lparr>database := d'\<rparr>)) x"
    proof (cases "g r = r")
      case True
      with f r accounted_wider [OF wide, of E r] announced_wider [OF wide, of r] show ?thesis by (simp add: filed_def)
    next
      case False
      with new [OF k f] r show ?thesis by simp
    qed
  qed
qed (rule wide)

lemma archive_append:
  assumes rows: "recordings d' = recordings (database w) @ [r]" and wide: "wider w (w\<lparr>database := d'\<rparr>)"
    and fresh: "rc_id r \<notin> rc_id ` set (recordings (database w))"
    and new: "accounted E (w\<lparr>database := d'\<rparr>) r" "announced d' r"
  shows "archive E w (w\<lparr>database := d'\<rparr>)"
  unfolding archive_def
proof (intro impI conjI)
  show "keyed (w\<lparr>database := d'\<rparr>)" if "keyed w" using that fresh by (simp add: keyed_def rows)
  show "grows recording_step (recordings (database w)) (recordings (database (w\<lparr>database := d'\<rparr>)))"
    by (simp add: rows grows_append)
  show "filed E (w\<lparr>database := d'\<rparr>)" if "filed E w"
    using that new accounted_wider [OF wide] announced_wider [OF wide] by (auto simp: filed_def rows)
qed (rule wide)

section \<open>Statements\<close>

lemma change_recording_Inr:
  assumes "change_recording P f now d = Inr (r, d')"
  obtains x where "x \<in> set (recordings d)" "P x" "r = (f x)\<lparr>rc_updated_at := now\<rparr>"
    "d' = d\<lparr>recordings := update_where P (\<lambda>x. (f x)\<lparr>rc_updated_at := now\<rparr>) (recordings d)\<rparr>"
proof -
  obtain rows where u: "update_one P (\<lambda>x. (f x)\<lparr>rc_updated_at := now\<rparr>) (recordings d) = Inr (r, rows)"
    and d': "d' = d\<lparr>recordings := rows\<rparr>"
    using assms by (auto simp: change_recording_def split: sum.splits option.splits)
  from u obtain x where "x \<in> set (recordings d)" "P x" "r = (f x)\<lparr>rc_updated_at := now\<rparr>"
    "rows = update_where P (\<lambda>x. (f x)\<lparr>rc_updated_at := now\<rparr>) (recordings d)"
    by (rule update_one_Inr)
  with d' show ?thesis by (intro that) simp_all
qed

lemma uploading_filed [simp]: "rc_status r = Uploading \<Longrightarrow> accounted E w r" "rc_status r = Uploading \<Longrightarrow> announced d r"
  by (simp_all add: accounted_def announced_def)

lemma archive_uploading:
  assumes ch: "change_recording P f now (database w) = Inr (r, d')"
    and f: "\<And>x. P x \<Longrightarrow> rc_status (f x) = Uploading" "\<And>x. P x \<Longrightarrow> recording_step x ((f x)\<lparr>rc_updated_at := now\<rparr>)"
  shows "archive E w (w\<lparr>database := d'\<rparr>)"
proof -
  from ch obtain x where d': "d' = (database w)\<lparr>recordings := update_where P (\<lambda>x. (f x)\<lparr>rc_updated_at := now\<rparr>) (recordings (database w))\<rparr>"
    by (rule change_recording_Inr)
  show ?thesis
    by (rule archive_map [where g = "\<lambda>x. if P x then (f x)\<lparr>rc_updated_at := now\<rparr> else x"])
       (simp_all add: d' update_where_def wider_def grows_refl f)
qed

lemma uploading_statements:
  "MarkRecordingReadyForUpload at org i now (database w) = Inr (r, d) \<Longrightarrow> archive E w (w\<lparr>database := d\<rparr>)"
  "PinRecordingUpload integration key provider bucket org i now (database w) = Inr (r, d) \<Longrightarrow> archive E w (w\<lparr>database := d\<rparr>)"
  "RetryRecordingUpload msg next_at i now (database w) = Inr (r, d) \<Longrightarrow> archive E w (w\<lparr>database := d\<rparr>)"
  unfolding MarkRecordingReadyForUpload_def PinRecordingUpload_def RetryRecordingUpload_def
  by (erule archive_uploading; simp add: recording_step_def status_le_def open_recording_def)+

lemma claim_statement:
  assumes "ListRecordingsForUpload lease claimed batch now (database w) = Inr (rs, d)"
  shows "archive E w (w\<lparr>database := d\<rparr>)" and "set rs \<subseteq> set (recordings d)"
proof -
  define ids where "ids = set (map rc_id (take (nat batch) (sort_key (\<lambda>r. or_else (rc_next_upload_at r) (rc_updated_at r))
      (sort_key rc_updated_at (filter (upload_due claimed now) (recordings (database w)))))))"
  let ?f = "\<lambda>r. r\<lparr>rc_next_upload_at := Some lease, rc_updated_at := now\<rparr>"
  have d: "d = (database w)\<lparr>recordings := update_where (\<lambda>r. rc_id r \<in> ids) ?f (recordings (database w))\<rparr>"
    and rs: "rs = filter (\<lambda>r. rc_id r \<in> ids) (recordings d)"
    using assms unfolding ListRecordingsForUpload_def Let_def ids_def by auto
  have due: "\<exists>x \<in> set (recordings (database w)). rc_id x = i \<and> rc_status x = Uploading" if "i \<in> ids" for i
    using that by (auto simp: ids_def upload_due_def dest!: in_set_takeD)
  have up: "rc_status r = Uploading" if "keyed w" "r \<in> set (recordings (database w))" "rc_id r \<in> ids" for r
    using due [OF that(3)] distinct_key [of rc_id, OF that(1) [unfolded keyed_def] that(2)] by metis
  show "archive E w (w\<lparr>database := d\<rparr>)"
  proof (rule archive_map [where g = "\<lambda>x. if rc_id x \<in> ids then ?f x else x"])
    show "\<forall>r \<in> set (recordings (database w)). recording_step r (if rc_id r \<in> ids then ?f r else r)"
      by (simp add: recording_step_def)
    show "\<forall>r \<in> set (recordings (database w)). (if rc_id r \<in> ids then ?f r else r) \<noteq> r \<longrightarrow>
        accounted E (w\<lparr>database := d\<rparr>) (if rc_id r \<in> ids then ?f r else r) \<and> announced d (if rc_id r \<in> ids then ?f r else r)"
      if "keyed w" using up [OF that] by simp
  qed (simp_all add: d update_where_def wider_def grows_refl)
  show "set rs \<subseteq> set (recordings d)" by (auto simp: rs)
qed

section \<open>Mutations with their event\<close>

lemma recording_mutate_body_Inr:
  assumes "recording_mutate_body E ty m now t d = Inr (r, d')"
  obtains d1 ev at where "m (row_uuid E t 0) now d = Inr (r, d1)" "d' = d1\<lparr>outbox := outbox d1 @ [ev]\<rparr>"
    "ob_payload ev = RecordingPayload ty (rc_organization_id r) (rc_id r) (rc_call_id r) (recordingResponse r) at"
proof -
  obtain d1 ev i at hs where m: "m (row_uuid E t 0) now d = Inr (r, d1)"
    and ins: "InsertOutboxEvent i now ty ''recording'' (rc_id r)
      (RecordingPayload ty (rc_organization_id r) (rc_id r) (rc_call_id r) (recordingResponse r) at) hs None d1 = Inr (ev, d')"
    using assms
    by (auto simp: recording_mutate_body_def tx_statement_def on_error_def map_sum_def split: sum.splits if_splits)
  from that [OF m InsertOutboxEvent_appends(1,5) [OF ins]] show ?thesis .
qed

lemma archive_mutation:
  assumes body: "recording_mutate_body E ty m now t (database w) = Inr (r, d')"
    and m: "\<And>j. m j now = change_recording P f now"
    and own: "\<And>x. P x \<Longrightarrow> rc_id x = i" "\<And>x. rc_id (f x) = rc_id x" "\<And>x. rc_status (f x) = st" "status_event st = ty"
    and k: "keyed w"
    and step: "\<And>x. x \<in> set (recordings (database w)) \<Longrightarrow> P x \<Longrightarrow> recording_step x ((f x)\<lparr>rc_updated_at := now\<rparr>)"
    and kept: "\<And>x. x \<in> set (recordings (database w)) \<Longrightarrow> P x \<Longrightarrow> accounted E w ((f x)\<lparr>rc_updated_at := now\<rparr>)"
  shows "archive E w (w\<lparr>database := d'\<rparr>)"
proof -
  let ?f = "\<lambda>x. (f x)\<lparr>rc_updated_at := now\<rparr>"
  from body obtain d1 ev at where "m (row_uuid E t 0) now (database w) = Inr (r, d1)"
    and d': "d' = d1\<lparr>outbox := outbox d1 @ [ev]\<rparr>"
    and pl: "ob_payload ev = RecordingPayload ty (rc_organization_id r) (rc_id r) (rc_call_id r) (recordingResponse r) at"
    by (rule recording_mutate_body_Inr)
  then have ch: "change_recording P f now (database w) = Inr (r, d1)" by (simp only: m)
  from ch obtain x where x: "x \<in> set (recordings (database w))" "P x" "r = ?f x"
    and d1: "d1 = (database w)\<lparr>recordings := update_where P ?f (recordings (database w))\<rparr>"
    by (rule change_recording_Inr)
  have only: "y = x" if "y \<in> set (recordings (database w))" "P y" for y
    using distinct_key [of rc_id, OF k [unfolded keyed_def] that(1) x(1)] own(1) that(2) x(2) by simp
  have wide: "wider w (w\<lparr>database := d'\<rparr>)" by (auto simp: wider_def grows_refl d' d1)
  have ann: "announced d' r"
    using own(3,4) pl by (auto simp: announced_def d' d1 x(3))
  show ?thesis
  proof (rule archive_map [OF _ wide, where g = "\<lambda>y. if P y then ?f y else y"])
    show "recordings d' = map (\<lambda>y. if P y then ?f y else y) (recordings (database w))"
      by (simp add: d' d1 update_where_def)
    show "\<forall>y \<in> set (recordings (database w)). recording_step y (if P y then ?f y else y)"
      using step by simp
    show "\<forall>y \<in> set (recordings (database w)). (if P y then ?f y else y) \<noteq> y \<longrightarrow>
        accounted E (w\<lparr>database := d'\<rparr>) (if P y then ?f y else y) \<and> announced d' (if P y then ?f y else y)"
      using accounted_wider [OF wide kept] ann only x(3) by auto
  qed
qed

section \<open>Facts about a recording in hand\<close>

text \<open>A row that was read is still there, further along; its store is known; its object was put or removed.\<close>

definition known :: "recording \<Rightarrow> world \<Rightarrow> bool" where
  "known r w \<longleftrightarrow> keyed w \<and> (\<exists>x \<in> set (recordings (database w)). recording_step r x)"

definition at_store :: "env \<Rightarrow> recording \<Rightarrow> object_client \<Rightarrow> world \<Rightarrow> bool" where
  "at_store E r client w \<longleftrightarrow> known r w \<and> placed E (database w) r client"

definition put_in_store :: "env \<Rightarrow> recording \<Rightarrow> object_client \<Rightarrow> string \<Rightarrow> int \<Rightarrow> world \<Rightarrow> bool" where
  "put_in_store E r client key bytes w \<longleftrightarrow> at_store E r client w \<and> put_at client key bytes w"

definition removed_from_store :: "env \<Rightarrow> recording \<Rightarrow> object_client \<Rightarrow> string \<Rightarrow> world \<Rightarrow> bool" where
  "removed_from_store E r client key w \<longleftrightarrow> at_store E r client w \<and> removed_at client key w"

lemma known_stable: "archiving.stable E (known r)"
proof (intro allI impI)
  fix w w' assume a: "archive E w w'" and "known r w"
  then obtain x where k: "keyed w" and x: "x \<in> set (recordings (database w))" "recording_step r x" by (auto simp: known_def)
  from archive_row [OF a k x(1)] obtain y where "y \<in> set (recordings (database w'))" "recording_step x y" by blast
  then show "known r w'" using archive_keyed [OF a k] recording_step_trans [OF x(2)] by (auto simp: known_def)
qed

lemma at_store_stable: "archiving.stable E (at_store E' r client)"
  using known_stable [of E r] archive_wider [of E] placed_wider unfolding at_store_def known_def by blast

lemma store_facts_stable:
  "archiving.stable E (put_in_store E' r client key bytes)" "archiving.stable E (removed_from_store E' r client key)"
  using at_store_stable [of E E' r client] archive_wider [of E] log_wider
  unfolding put_in_store_def removed_from_store_def at_store_def known_def by blast+

lemma keyed_stable: "archiving.stable E keyed"
  by (simp add: archive_def)

lemma true_stable: "archiving.stable E (\<lambda>_. True)"
  by simp

lemma known_is:
  assumes "known r w" "x \<in> set (recordings (database w))" "rc_id x = rc_id r"
  shows "recording_step r x"
proof -
  obtain y where y: "y \<in> set (recordings (database w))" "recording_step r y" using assms(1) by (auto simp: known_def)
  then have "rc_id y = rc_id x" using assms(3) by (simp add: recording_step_def)
  then have "y = x" using distinct_key [of rc_id "recordings (database w)" y x] y(1) assms(1,2) by (simp add: known_def keyed_def)
  with y(2) show ?thesis by simp
qed

lemma placed_same:
  "rc_storage_integration_id x = rc_storage_integration_id r \<Longrightarrow> rc_organization_id x = rc_organization_id r \<Longrightarrow>
   placed E d x client = placed E d r client"
  by (simp add: placed_def split: option.split)

text \<open>With no facts, a triple is a move.\<close>

lemma archive_moves: "archiving.triple E keyed m Q \<Longrightarrow> archiving.moves E m"
proof -
  assume t: "archiving.triple E keyed m Q"
  have "archive E w (snd (run_state m w))" for w using t by (cases "keyed w") (auto simp: archive_def)
  then show ?thesis by (simp add: state_io_rel_def)
qed

section \<open>Repository\<close>

abbreviation quiet_archive :: "env \<Rightarrow> bool" where
  "quiet_archive E \<equiv> archiving.rely E E"

lemma start_moves:
  assumes rely: "quiet_archive E"
  shows "archiving.moves E (recording_Start E org call path at)"
  unfolding recording_Start_def recording_mutate_def
proof (rule archiving.transaction_moves [OF rely])
  fix now t r d and w :: world
  assume "recording_mutate_body E ''recording.started'' (CreateRecording org call path at) now t (database w) = Inr (r, d)"
  then obtain d1 ev s where c: "CreateRecording org call path at (row_uuid E t 0) now (database w) = Inr (r, d1)"
    and d: "d = d1\<lparr>outbox := outbox d1 @ [ev]\<rparr>"
    and pl: "ob_payload ev = RecordingPayload ''recording.started'' (rc_organization_id r) (rc_id r) (rc_call_id r) (recordingResponse r) s"
    by (rule recording_mutate_body_Inr)
  from c have r: "r = new_recording (row_uuid E t 0) org call path at now" "rc_id r \<notin> rc_id ` set (recordings (database w))"
    and d1: "d1 = (database w)\<lparr>recordings := recordings (database w) @ [r]\<rparr>"
    by (auto simp: CreateRecording_def Let_def new_recording_def split: if_splits option.splits)
  have "rc_status r = Recording" by (simp add: r(1) new_recording_def)
  then show "archive E w (w\<lparr>database := d\<rparr>)"
    using r(2) pl by (intro archive_append [where r = r]) (auto simp: d d1 wider_def grows_refl accounted_def announced_def)
qed

lemma fail_moves:
  assumes rely: "quiet_archive E"
  shows "archiving.moves E (recording_Fail E r)"
  unfolding recording_Fail_def recording_mutate_def
proof (rule archive_moves, rule archiving.triple_transaction [OF rely keyed_stable])
  fix now t x d and w :: world
  assume "keyed w" and body: "recording_mutate_body E ''recording.failed'' (\<lambda>_. FailRecording (rc_organization_id r) (rc_id r)) now t
    (database w) = Inr (x, d)"
  then show "archive E w (w\<lparr>database := d\<rparr>)"
    by (intro archive_mutation [OF body FailRecording_def, where i = "rc_id r" and st = RecordingFailed])
       (auto simp: own_recording_def recording_step_def status_le_def open_recording_def accounted_def)
qed

lemma complete_triple:
  assumes rely: "quiet_archive E" and key: "rc_storage_key r = Some key"
  shows "archiving.triple E (put_in_store E r client key bytes)
    (CompleteUpload E r (rc_storage_integration_id r) key provider (oc_bucket client) fmt bytes) (\<lambda>_ _. True)"
proof (rule archiving.triple_weaken)
  show "archiving.triple E (put_in_store E r client key bytes)
    (CompleteUpload E r (rc_storage_integration_id r) key provider (oc_bucket client) fmt bytes)
    (\<lambda>_. put_in_store E r client key bytes)"
    unfolding CompleteUpload_def recording_mutate_def
  proof (rule archiving.triple_transaction [OF rely store_facts_stable(1)])
    fix now t x d and w :: world
    assume P: "put_in_store E r client key bytes w"
      and body: "recording_mutate_body E ''recording.completed''
        (\<lambda>_. CompleteRecording (rc_storage_integration_id r) (Some key) (Some provider) (Some (oc_bucket client)) (Some bytes)
           (Some fmt) (rc_organization_id r) (rc_id r)) now t (database w) = Inr (x, d)"
    have k: "keyed w" and pl: "placed E (database w) r client" and put: "put_at client key bytes w"
      using P by (simp_all add: put_in_store_def at_store_def known_def)
    have row: "rc_storage_key y = Some key \<and> rc_storage_integration_id y = rc_storage_integration_id r"
      if "y \<in> set (recordings (database w))" "rc_id y = rc_id r" for y
      using known_is [of r w y] P that key by (simp add: put_in_store_def at_store_def recording_step_def)
    have integ: "opt_or i i = i" for i :: "uuid option" by (simp add: opt_or_def split: option.split)
    show "archive E w (w\<lparr>database := d\<rparr>)"
    proof (rule archive_mutation [OF body CompleteRecording_def _ _ _ _ k, where i = "rc_id r" and st = Recorded])
      fix y assume y: "y \<in> set (recordings (database w))" "own_recording (rc_organization_id r) (rc_id r) y \<and> open_recording y"
      then have y': "rc_storage_key y = Some key" "rc_storage_integration_id y = rc_storage_integration_id r"
        "rc_organization_id y = rc_organization_id r" using row by (auto simp: own_recording_def)
      let ?g = "y\<lparr>rc_status := Recorded, rc_storage_integration_id := opt_or (rc_storage_integration_id r) (rc_storage_integration_id y),
        rc_storage_key := opt_or (Some key) (rc_storage_key y), rc_storage_provider := opt_or (Some provider) (rc_storage_provider y),
        rc_storage_bucket := opt_or (Some (oc_bucket client)) (rc_storage_bucket y),
        rc_file_size_bytes := opt_or (Some bytes) (rc_file_size_bytes y), rc_format := opt_or (Some fmt) (rc_format y),
        rc_upload_error := None, rc_next_upload_at := None, rc_completed_at := Some (or_else (rc_completed_at y) now), rc_updated_at := now\<rparr>"
      show "recording_step y ?g"
        using y(2) y' by (auto simp: recording_step_def status_le_def open_recording_def integ opt_or_def)
      have "placed E (database w) ?g client" using pl placed_same [of ?g r] y' by (simp add: integ)
      then show "accounted E w ?g" using put by (auto simp: accounted_def opt_or_def)
    qed (simp_all add: own_recording_def)
  qed
qed auto

lemma delete_triple:
  assumes rely: "quiet_archive E" and r: "\<not> open_recording r" "rc_storage_key r = Some key" "rc_storage_bucket r = Some (oc_bucket client)"
  shows "archiving.triple E (removed_from_store E r client key) (recording_delete_row E r) (\<lambda>_ _. True)"
proof (rule archiving.triple_weaken)
  show "archiving.triple E (removed_from_store E r client key) (recording_delete_row E r) (\<lambda>_. removed_from_store E r client key)"
    unfolding recording_delete_row_def recording_mutate_def
  proof (rule archiving.triple_transaction [OF rely store_facts_stable(2)])
    fix now t x d and w :: world
    assume P: "removed_from_store E r client key w"
      and body: "recording_mutate_body E ''recording.deleted'' (\<lambda>_. DeleteRecording (rc_organization_id r) (rc_id r)) now t
        (database w) = Inr (x, d)"
    have k: "keyed w" and pl: "placed E (database w) r client" and gone: "removed_at client key w"
      using P by (simp_all add: removed_from_store_def at_store_def known_def)
    show "archive E w (w\<lparr>database := d\<rparr>)"
    proof (rule archive_mutation [OF body DeleteRecording_def [THEN fun_cong] _ _ _ _ k, where i = "rc_id r" and st = Deleted])
      fix y assume y: "y \<in> set (recordings (database w))" "own_recording (rc_organization_id r) (rc_id r) y \<and> rc_status y \<noteq> Deleted"
      then have st: "recording_step r y" using known_is [of r w y] P by (simp add: own_recording_def removed_from_store_def at_store_def)
      let ?g = "y\<lparr>rc_status := Deleted, rc_storage_url := None, rc_updated_at := now\<rparr>"
      show "recording_step y ?g" by (cases "rc_status y") (simp_all add: recording_step_def status_le_def)
      have "placed E (database w) ?g client"
        using pl placed_same [of ?g r] st r(1) by (simp add: recording_step_def)
      then show "accounted E w ?g" using gone st r by (auto simp: accounted_def recording_step_def)
    qed (simp_all add: own_recording_def)
  qed
qed auto

section \<open>Object storage\<close>

lemma s3_New_moves: "quiet_archive E \<Longrightarrow> archiving.moves E (s3_New E cfg)"
  unfolding s3_New_def minio_new_def
  by (intro archiving.moves_intros archiving.external_moves) (simp_all add: archiving.refl)

lemma s3_New_client:
  assumes "fst (run_state (s3_New E cfg) w) = Inr client"
  shows "\<exists>host secure. parseEndpoint E (s3_endpoint cfg) = Inr (host, secure) \<and>
    client = \<lparr>oc_store = Some host, oc_bucket = trim_space (s3_bucket cfg)\<rparr>"
  using assms by (auto simp: s3_New_def split: sum.splits prod.splits if_splits)

lemma resolve_moves:
  "quiet_archive E \<Longrightarrow> archiving.moves E (ResolveByID E cipher org i)"
  "quiet_archive E \<Longrightarrow> archiving.moves E (ResolveRecording E cipher org)"
  unfolding ResolveByID_def ResolveRecording_def by (intro archiving.moves_intros archiving.query_moves; assumption)+

lemma custom_moves: "quiet_archive E \<Longrightarrow> archiving.moves E (custom_with_id E resolved)"
  unfolding custom_with_id_def customClient_def by (intro archiving.moves_intros s3_New_moves)

lemma object_client_moves: "quiet_archive E \<Longrightarrow> archiving.moves E (clientForRecording E S r up)"
  unfolding clientForRecording_def by (intro archiving.moves_intros resolve_moves custom_moves)

text \<open>An integration that was resolved: its row keeps the endpoint and the bucket.\<close>

definition resolved_row :: "recording \<Rightarrow> uuid \<Rightarrow> resolved_integration \<Rightarrow> world \<Rightarrow> bool" where
  "resolved_row r i x w \<longleftrightarrow>
     known r w \<and> ig_id (fst x) = i \<and> (\<exists>s \<in> set (storage_integrations (database w)). own_integration i (rc_organization_id r) s \<and>
       sg_endpoint_url s = ig_endpoint_url (fst x) \<and> sg_bucket s = ig_bucket (fst x))"

lemma resolved_row_stable: "archiving.stable E (resolved_row r i x)"
proof (intro allI impI)
  fix w w' assume a: "archive E w w'" and p: "resolved_row r i x w"
  then obtain s where s: "s \<in> set (storage_integrations (database w))" "own_integration i (rc_organization_id r) s"
    "sg_endpoint_url s = ig_endpoint_url (fst x)" "sg_bucket s = ig_bucket (fst x)" by (auto simp: resolved_row_def)
  have "wider w w'" using archive_wider [OF a] p by (simp add: resolved_row_def known_def)
  with s(1) obtain s' where "s' \<in> set (storage_integrations (database w'))" "integration_step s s'"
    unfolding wider_def by (blast dest: growsD)
  moreover have "known r w'" using known_stable a p by (simp add: resolved_row_def)
  ultimately show "resolved_row r i x w'"
    using s p by (auto simp: resolved_row_def integration_step_def own_integration_def)
qed

lemma ResolveByID_triple:
  assumes rely: "quiet_archive E"
  shows "archiving.triple E (known r) (ResolveByID E cipher (rc_organization_id r) i)
    (\<lambda>res w. case res of Inl _ \<Rightarrow> known r w | Inr x \<Rightarrow> resolved_row r i x w)"
  unfolding ResolveByID_def
proof (rule archiving.triple_bind)
  show "archiving.triple E (known r) (query E (GetStorageIntegration i (rc_organization_id r)))
    (\<lambda>g w. known r w \<and> (\<forall>s. g = Inr s \<longrightarrow> s \<in> set (storage_integrations (database w)) \<and> own_integration i (rc_organization_id r) s))"
    by (rule archiving.triple_query [OF rely known_stable]) (auto simp: GetStorageIntegration_def dest: select_one_Inr)
  show "archiving.triple E
    (\<lambda>w. known r w \<and> (\<forall>s. g = Inr s \<longrightarrow> s \<in> set (storage_integrations (database w)) \<and> own_integration i (rc_organization_id r) s))
    (State_Monad.return (andalso g (storage_resolve E cipher)))
    (\<lambda>res w. case res of Inl _ \<Rightarrow> known r w | Inr x \<Rightarrow> resolved_row r i x w)" for g
    by (rule archiving.triple_return)
       (auto simp: andalso_def storage_resolve_def resolved_row_def integrationFromRow_def own_integration_def split: sum.splits if_splits)
qed

lemma custom_triple:
  assumes rely: "quiet_archive E" and i: "rc_storage_integration_id r = Some i"
  shows "archiving.triple E (resolved_row r i x) (custom_with_id E x)
    (\<lambda>res w. case res of Inl _ \<Rightarrow> known r w | Inr (client, j) \<Rightarrow> j = Some i \<and> at_store E r client w)"
proof -
  have "archiving.triple E (resolved_row r i x) (custom_with_id E x)
    (\<lambda>res w. resolved_row r i x w \<and> (\<forall>client j. res = Inr (client, j) \<longrightarrow> j = Some (ig_id (fst x)) \<and>
       (\<exists>host secure. parseEndpoint E (ig_endpoint_url (fst x)) = Inr (host, secure) \<and>
          client = \<lparr>oc_store = Some host, oc_bucket = trim_space (ig_bucket (fst x))\<rparr>)))"
  proof (rule archiving.triple_result [OF custom_moves [OF rely] resolved_row_stable])
    fix w
    show "\<forall>client j. fst (run_state (custom_with_id E x) w) = Inr (client, j) \<longrightarrow> j = Some (ig_id (fst x)) \<and>
       (\<exists>host secure. parseEndpoint E (ig_endpoint_url (fst x)) = Inr (host, secure) \<and>
          client = \<lparr>oc_store = Some host, oc_bucket = trim_space (ig_bucket (fst x))\<rparr>)"
      using s3_New_client [of E "s3_config_of x" w]
      by (auto simp: custom_with_id_def customClient_def on_error_def s3_config_of_def map_sum_def split: sum.splits prod.splits)
  qed
  then show ?thesis
    by (rule archiving.triple_weaken)
       (auto simp: resolved_row_def at_store_def placed_def i split: sum.split)
qed

lemma client_triple:
  assumes rely: "quiet_archive E" and up: "up \<longrightarrow> rc_storage_key r \<noteq> None"
  shows "archiving.triple E (known r) (clientForRecording E S r up)
    (\<lambda>res w. case res of Inl _ \<Rightarrow> known r w | Inr (client, j) \<Rightarrow> j = rc_storage_integration_id r \<and> at_store E r client w)"
proof (cases "rc_storage_integration_id r")
  case None
  have "(if up \<and> rc_storage_key r = None then S else None) = None" using up by auto
  then have "clientForRecording E S r up = State_Monad.return (Inr (managed_client E, None))"
    by (simp add: clientForRecording_def None)
  then show ?thesis by (simp add: archiving.refl None at_store_def placed_def)
next
  case (Some i)
  show ?thesis
  proof (cases S)
    case None
    then show ?thesis by (simp add: clientForRecording_def Some archiving.refl)
  next
    case (Some cipher)
    have eq: "clientForRecording E S r up = do {
        x \<leftarrow> ResolveByID E cipher (rc_organization_id r) i;
        case x of
          Inl e \<Rightarrow> State_Monad.return (Inl (Wrap ''resolve recording storage integration'' e))
        | Inr resolved \<Rightarrow> custom_with_id E resolved }"
      by (simp add: clientForRecording_def Some \<open>rc_storage_integration_id r = Some i\<close>)
    show ?thesis
      unfolding eq
    proof (rule archiving.triple_bind [OF ResolveByID_triple [OF rely]])
      fix x
      show "archiving.triple E (\<lambda>w. case x of Inl _ \<Rightarrow> known r w | Inr y \<Rightarrow> resolved_row r i y w)
        (case x of Inl e \<Rightarrow> State_Monad.return (Inl (Wrap ''resolve recording storage integration'' e))
         | Inr resolved \<Rightarrow> custom_with_id E resolved)
        (\<lambda>res w. case res of Inl _ \<Rightarrow> known r w | Inr (client, j) \<Rightarrow> j = rc_storage_integration_id r \<and> at_store E r client w)"
      proof (cases x)
        case (Inl e)
        show ?thesis unfolding Inl by (simp add: archiving.refl)
      next
        case (Inr y)
        show ?thesis
          unfolding Inr sum.case \<open>rc_storage_integration_id r = Some i\<close>
          by (rule custom_triple [OF rely \<open>rc_storage_integration_id r = Some i\<close>])
      qed
    qed
  qed
qed

lemma archive_log: "archive E w (w\<lparr>object_log := object_log w @ l\<rparr>)" and archive_staged: "archive E w (w\<lparr>staged := fs\<rparr>)"
proof -
  have "archive E w w'" if "database w' = database w" "wider w w'" for w'
    using that accounted_wider [OF that(2)] by (simp add: archive_def keyed_def filed_def grows_refl)
  then show "archive E w (w\<lparr>object_log := object_log w @ l\<rparr>)" "archive E w (w\<lparr>staged := fs\<rparr>)"
    by (simp_all add: wider_def grows_refl)
qed

lemma client_Put_triple:
  assumes rely: "quiet_archive E"
  shows "archiving.triple E (at_store E r client) (client_Put E client key bytes)
    (\<lambda>res w. case res of Inl _ \<Rightarrow> known r w | Inr _ \<Rightarrow> put_in_store E r client key bytes w)"
  unfolding client_Put_def PutObject_request_def
proof (intro archiving.triple_sum archiving.triple_return archiving.triple_bind)
  show "archiving.triple E (at_store E r client)
    (external E (\<lambda>t w. (Inr (), w\<lparr>object_log := object_log w @ [PutObject (oc_store client) (oc_bucket client) key bytes]\<rparr>)))
    (\<lambda>x w. at_store E r client w \<and> (\<forall>u. x = Inr u \<longrightarrow> put_at client key bytes w))"
  proof (rule archiving.triple_external [OF rely at_store_stable])
    show "archive E w (snd (Inr (), w\<lparr>object_log := object_log w @ [PutObject (oc_store client) (oc_bucket client) key bytes]\<rparr>))" for w
      by (simp add: archive_log)
  qed (simp_all add: put_at_def at_store_def known_def keyed_def)
qed (auto simp: at_store_def on_error_def put_in_store_def split: sum.splits)

lemma client_Delete_triple:
  assumes rely: "quiet_archive E"
  shows "archiving.triple E (at_store E r client) (client_Delete E client key)
    (\<lambda>res w. case res of Inl _ \<Rightarrow> known r w | Inr _ \<Rightarrow> removed_from_store E r client key w)"
  unfolding client_Delete_def RemoveObject_request_def
proof (intro archiving.triple_sum archiving.triple_return archiving.triple_bind)
  show "archiving.triple E (at_store E r client)
    (external E (\<lambda>t w. (Inr (), w\<lparr>object_log := object_log w @ [RemoveObject (oc_store client) (oc_bucket client) key]\<rparr>)))
    (\<lambda>x w. at_store E r client w \<and> (\<forall>u. x = Inr u \<longrightarrow> removed_at client key w))"
  proof (rule archiving.triple_external [OF rely at_store_stable])
    show "archive E w (snd (Inr (), w\<lparr>object_log := object_log w @ [RemoveObject (oc_store client) (oc_bucket client) key]\<rparr>))" for w
      by (simp add: archive_log)
  qed (simp_all add: removed_at_def at_store_def known_def keyed_def)
qed (auto simp: at_store_def on_error_def removed_from_store_def split: sum.splits)

lemma storage_Put_triple:
  assumes rely: "quiet_archive E" and key: "rc_storage_key r = Some key"
  shows "archiving.triple E (known r) (storage_Put E S r key bytes)
    (\<lambda>res w. case res of Inl _ \<Rightarrow> known r w
       | Inr (i, provider, bucket) \<Rightarrow> i = rc_storage_integration_id r \<and>
           (\<exists>client. bucket = oc_bucket client \<and> put_in_store E r client key bytes w))"
  (is "archiving.triple E _ _ ?Q")
proof -
  have put: "archiving.triple E (at_store E r client)
      (do { p \<leftarrow> client_Put E client key bytes;
            State_Monad.return (map_sum id (\<lambda>_. (rc_storage_integration_id r, ''s3'', oc_bucket client)) p) }) ?Q" for client
    by (rule archiving.triple_bind [OF client_Put_triple [OF rely]], rule archiving.triple_return) (auto split: sum.splits)
  show ?thesis
    unfolding storage_Put_def
  proof (rule archiving.triple_bind_sum [OF client_triple [OF rely]], simp add: key, goal_cases)
    case (1 e)
    show ?case by (simp add: archiving.refl)
  next
    case (2 y)
    obtain client i where y: "y = (client, i)" by (cases y)
    show ?case
      unfolding y sum.case prod.case
      by (rule archiving.triple_pure, erule ssubst)
         (rule archiving.triple_sum, rule archiving.triple_return, simp add: at_store_def, rule put)
  qed
qed

lemma stored_object_triple:
  assumes rely: "quiet_archive E"
  shows "archiving.triple E (known r) (stored_object E S r)
    (\<lambda>res w. case res of Inl _ \<Rightarrow> known r w
       | Inr (client, key) \<Rightarrow> rc_storage_key r = Some key \<and> rc_storage_bucket r = Some (oc_bucket client) \<and> at_store E r client w)"
  (is "archiving.triple E _ _ ?Q")
proof -
  have "archiving.triple E (known r) (do {
      x \<leftarrow> clientForRecording E S r False;
      State_Monad.return (andalso x (\<lambda>(client, i).
        if rc_storage_bucket r \<noteq> Some (oc_bucket client) then Inl (ErrorString ''recording S3 bucket is invalid'')
        else andalso (managed_key_check E i (rc_organization_id r) key) (\<lambda>_. Inr (client, key)))) }) ?Q"
    if "rc_storage_key r = Some key" for key
    by (rule archiving.triple_bind [OF client_triple [OF rely]], simp, rule archiving.triple_return)
       (auto simp: that andalso_def at_store_def split: sum.splits if_splits)
  then show ?thesis
    unfolding stored_object_def
    by (auto simp: archiving.refl split: option.split)
qed

lemma delete_object_triple:
  assumes rely: "quiet_archive E"
  shows "archiving.triple E (known r) (storage_delete_object E S r)
    (\<lambda>res w. case res of Inl _ \<Rightarrow> known r w
       | Inr _ \<Rightarrow> \<exists>client key. (rc_storage_key r = Some key \<and> rc_storage_bucket r = Some (oc_bucket client)) \<and>
           removed_from_store E r client key w)"
  unfolding storage_delete_object_def
proof (rule archiving.triple_bind_sum [OF stored_object_triple [OF rely]], goal_cases)
  case (1 e)
  show ?case by (simp add: archiving.refl)
next
  case (2 y)
  obtain client key where y: "y = (client, key)" by (cases y)
  show ?case
    unfolding y sum.case prod.case
  proof (intro archiving.triple_pure)
    assume "rc_storage_key r = Some key" "rc_storage_bucket r = Some (oc_bucket client)"
    then show "archiving.triple E (at_store E r client) (client_Delete E client key)
      (\<lambda>res w. case res of Inl _ \<Rightarrow> known r w
       | Inr _ \<Rightarrow> \<exists>client key. (rc_storage_key r = Some key \<and> rc_storage_bucket r = Some (oc_bucket client)) \<and>
           removed_from_store E r client key w)"
      by (intro archiving.triple_weaken [OF client_Delete_triple [OF rely]]) (auto split: sum.splits)
  qed
qed

end
