(* ===== verification/RecordingProperties.thy ===== *)
theory RecordingProperties
  imports RecordingGuarantees
begin

text \<open>
  Properties of the recordings: every operation moves the archive as \<open>archive\<close> allows, under any fault and
  any interference that does; with it the life cycle of a recording, what a completed or deleted recording
  says about the object stores, and the events that announce it. Then the paths of the staging directory,
  the keys of the managed store and the schedule of retries.
\<close>

section \<open>Every operation moves the archive\<close>

lemma known_read: "keyed w \<Longrightarrow> r \<in> set (recordings (database w)) \<Longrightarrow> known r w"
  unfolding known_def using recording_step_refl by blast

lemma retry_moves:
  assumes rely: "quiet_archive E"
  shows "archiving.moves E (retryOrFail E c r cause)"
  unfolding retryOrFail_def RetryUpload_def wall_clock_def
  by (intro archiving.moves_intros fail_moves rely archiving.statement_moves) (erule uploading_statements)

lemma archive_clock_moves: "archiving.moves E (wall_clock E')"
  unfolding wall_clock_def by (intro archiving.moves_intros)

lemma remove_moves: "quiet_archive E \<Longrightarrow> archiving.moves E (os_Remove E p)"
  unfolding os_Remove_def
  by (rule archiving.external_moves) (simp_all add: archiving.refl archive_staged)

lemma file_moves:
  assumes rely: "quiet_archive E"
  shows "archiving.moves E (EvalSymlinks E p)" "archiving.moves E (os_Open E p)" "archiving.moves E (file_Stat E f)"
  unfolding EvalSymlinks_def os_Open_def file_Stat_def
  by (rule archiving.external_moves [OF rely], simp add: archiving.refl)+

lemma safe_path_moves: "quiet_archive E \<Longrightarrow> archiving.moves E (safeSourcePath E c r)"
  unfolding safeSourcePath_def Let_def by (intro archiving.moves_intros file_moves)

text \<open>A move keeps the facts at hand and asks for nothing more.\<close>

lemma end_triple: "archiving.moves E m \<Longrightarrow> archiving.triple E P m (\<lambda>_ _. True)"
  by (simp add: archiving.movesD)

lemma upload_triple:
  assumes rely: "quiet_archive E" and key: "rc_storage_key r = Some key"
  shows "archiving.triple E (known r) (upload_recording E S c r key path ext bytes) (\<lambda>_ _. True)"
  unfolding upload_recording_def
proof (rule archiving.triple_bind_sum [OF storage_Put_triple [OF rely key]], goal_cases)
  case (1 e)
  show ?case by (rule end_triple [OF retry_moves [OF rely]])
next
  case (2 y)
  obtain i provider bucket where y: "y = (i, provider, bucket)" by (cases y)
  have rest: "archiving.moves E (case x of
      Inl e \<Rightarrow> if error_is e ErrNoRows then do { _ \<leftarrow> os_Remove E path; State_Monad.return (Inr ()) }
               else State_Monad.return (Inl (Wrap ''complete recording upload'' e))
    | Inr _ \<Rightarrow> do { _ \<leftarrow> os_Remove E path; State_Monad.return (Inr ()) })" for x :: "goerr + recording"
    by (intro archiving.moves_intros remove_moves rely)
  show ?case
    unfolding y sum.case prod.case
    by (rule archiving.triple_pure, erule ssubst, rule archiving.triple_ex, rule archiving.triple_pure, erule ssubst)
       (rule archiving.triple_bind [OF complete_triple [OF rely key]], rule end_triple [OF rest])
qed

lemma PinUpload_triple:
  assumes rely: "quiet_archive E"
  shows "archiving.triple E keyed (PinUpload E r integration key provider bucket)
    (\<lambda>res w. keyed w \<and> (\<forall>x. res = Inr x \<longrightarrow> known x w \<and> rc_storage_key x = Some key))"
  unfolding PinUpload_def
proof (rule archiving.triple_exec [OF rely keyed_stable])
  fix now x d and w :: world
  assume k: "keyed w"
    and st: "PinRecordingUpload integration key provider bucket (rc_organization_id r) (rc_id r) now (database w) = Inr (x, d)"
  have a: "archive E w (w\<lparr>database := d\<rparr>)" by (rule uploading_statements(2) [OF st])
  have "x \<in> set (recordings d) \<and> rc_storage_key x = Some key"
    using st unfolding PinRecordingUpload_def
    by (elim change_recording_Inr) (auto simp: set_update_where intro: rev_image_eqI)
  with a archive_keyed [OF a k]
  show "archive E w (w\<lparr>database := d\<rparr>) \<and> keyed (w\<lparr>database := d\<rparr>) \<and>
      (\<forall>y. Inr x = Inr y \<longrightarrow> known y (w\<lparr>database := d\<rparr>) \<and> rc_storage_key y = Some key)"
    using known_read [of "w\<lparr>database := d\<rparr>" x] by auto
qed simp

lemma pin_triple:
  assumes rely: "quiet_archive E"
  shows "archiving.triple E (known r) (pin_destination E S r ext)
    (\<lambda>res w. case res of Inl _ \<Rightarrow> keyed w | Inr (x, key) \<Rightarrow> rc_storage_key x = Some key \<and> known x w)"
  (is "archiving.triple E _ _ ?Q")
proof (cases "rc_storage_key r")
  case (Some key)
  then show ?thesis by (simp add: pin_destination_def archiving.refl)
next
  case None
  have keep: "archiving.triple E keyed m (\<lambda>_. keyed)" if "archiving.moves E m" for m :: "(world, 'a) state"
    by (rule archiving.triple_moves [OF that keyed_stable])
  have pin: "archiving.triple E keyed (do {
      p \<leftarrow> PinUpload E r i key provider bucket;
      State_Monad.return (case p of
        Inl e \<Rightarrow> Inl (Wrap ''pin recording upload destination'' e, zero_recording) | Inr pinned \<Rightarrow> Inr (pinned, key)) }) ?Q"
    for i key provider bucket
    by (rule archiving.triple_bind [OF PinUpload_triple [OF rely]], rule archiving.triple_return) (auto split: sum.splits)
  have "archiving.triple E keyed (pin_destination E S r ext) ?Q"
    unfolding pin_destination_def None option.case
    by (rule archiving.triple_bind [OF keep [OF archive_clock_moves]], rule archiving.triple_sum,
        rule archiving.triple_return, simp,
        rule archiving.triple_bind_sum [OF keep], unfold ResolveUpload_def,
        intro archiving.moves_intros object_client_moves rely,
        rule archiving.triple_return, simp, rule archiving.triple_prod, rule archiving.triple_prod, rule pin)
  then show ?thesis by (rule archiving.triple_weaken) (simp_all add: known_def)
qed

lemma ingestOne_triple:
  assumes rely: "quiet_archive E"
  shows "archiving.triple E (known r) (ingestOne E S c r) (\<lambda>_ _. True)"
proof -
  note retry = end_triple [OF retry_moves [OF rely]]
  have keep: "archiving.triple E (known r) m (\<lambda>_. known r)" if "archiving.moves E m" for m :: "(world, 'a) state"
    by (rule archiving.triple_moves [OF that known_stable])
  have up: "archiving.triple E (known r) (do {
      d \<leftarrow> pin_destination E S r ext;
      case d of
        Inl (e, r') \<Rightarrow> retryOrFail E c r' e
      | Inr (pinned, key) \<Rightarrow> upload_recording E S c pinned key path ext bytes }) (\<lambda>_ _. True)" for ext path bytes
  proof (rule archiving.triple_bind_sum [OF pin_triple [OF rely]], goal_cases)
    case (1 e)
    show ?case by (rule archiving.triple_prod) (rule retry)
  next
    case (2 y)
    obtain pinned key where y: "y = (pinned, key)" by (cases y)
    show ?case unfolding y sum.case prod.case by (rule archiving.triple_pure, rule upload_triple [OF rely])
  qed
  show ?thesis
    unfolding ingestOne_def Let_def
    by (rule archiving.triple_bind_sum [OF keep [OF safe_path_moves [OF rely]] retry],
        rule archiving.triple_bind_sum [OF keep [OF file_moves(2) [OF rely]] retry],
        rule archiving.triple_bind_sum [OF keep [OF file_moves(3) [OF rely]] retry],
        rule archiving.triple_prod, rule archiving.triple_if, rule retry, rule up)
qed

lemma ingest_all_triple:
  assumes rely: "quiet_archive E"
  shows "archiving.triple E (\<lambda>w. \<forall>r \<in> set rs. known r w) (ingest_all E S c rs) (\<lambda>_ _. True)"
proof (induction rs)
  case Nil
  show ?case by (simp add: archiving.refl)
next
  case (Cons r rs)
  have st: "archiving.stable E (\<lambda>w. \<forall>x \<in> set rs. known x w)" using known_stable by blast
  have one: "archiving.triple E (\<lambda>w. \<forall>x \<in> set (r # rs). known x w) (ingestOne E S c r) (\<lambda>_ w. \<forall>x \<in> set rs. known x w)"
    by (rule archiving.triple_weaken [OF archiving.triple_frame [OF ingestOne_triple [OF rely] st]]) auto
  show ?case
    unfolding ingest_all.simps
    by (rule archiving.triple_bind_sum [OF one], rule archiving.triple_return, simp, rule Cons.IH)
qed

lemma Ingest_moves:
  assumes rely: "quiet_archive E"
  shows "archiving.moves E (recording_Ingest E S c)"
proof (rule archive_moves)
  have claim: "archiving.triple E keyed (exec E (statement (ListRecordingsForUpload lease now batch)))
      (\<lambda>res w. keyed w \<and> (\<forall>rs. res = Inr rs \<longrightarrow> (\<forall>r \<in> set rs. known r w)))" for lease now batch
  proof (rule archiving.triple_exec [OF rely keyed_stable])
    fix t rs d and w :: world
    assume k: "keyed w" and st: "ListRecordingsForUpload lease now batch t (database w) = Inr (rs, d)"
    note c = claim_statement(1) [OF st, where E = E] claim_statement(2) [OF st]
    have "\<forall>r \<in> set rs. known r (w\<lparr>database := d\<rparr>)"
      using c(2) by (auto intro!: known_read [OF archive_keyed [OF c(1) k]])
    then show "archive E w (w\<lparr>database := d\<rparr>) \<and> keyed (w\<lparr>database := d\<rparr>) \<and>
        (\<forall>xs. Inr rs = Inr xs \<longrightarrow> (\<forall>r \<in> set xs. known r (w\<lparr>database := d\<rparr>)))"
      using c(1) archive_keyed [OF c(1) k] by simp
  qed simp
  show "archiving.triple E keyed (recording_Ingest E S c) (\<lambda>_ _. True)"
    unfolding recording_Ingest_def
    by (rule archiving.triple_bind [OF archiving.triple_moves [OF archive_clock_moves keyed_stable]],
        rule archiving.triple_bind_sum [OF claim], rule archiving.triple_return, simp,
        rule archiving.triple_weaken [OF ingest_all_triple [OF rely]], simp_all)
qed

lemma ready_moves: "quiet_archive E \<Longrightarrow> archiving.moves E (MarkReadyForUpload E r at)"
  unfolding MarkReadyForUpload_def by (erule archiving.statement_moves) (rule uploading_statements(1))

lemma organization_moves: "quiet_archive E \<Longrightarrow> archiving.moves E (GetCallOrganizationID E call)"
  unfolding GetCallOrganizationID_def by (intro archiving.moves_intros archiving.query_moves)

lemma lookup_moves: "quiet_archive E \<Longrightarrow> archiving.moves E (GetByCallStorageKey E call path)"
  unfolding GetByCallStorageKey_def by (rule archiving.query_moves)

lemma time_moves: "archiving.moves E (time_or_now E' at)"
  unfolding time_or_now_def by (intro archiving.moves_intros archive_clock_moves)

lemma started_moves: "quiet_archive E \<Longrightarrow> archiving.moves E (ObserveStarted E ev)"
  unfolding ObserveStarted_def Let_def
  by (intro archiving.moves_intros time_moves organization_moves lookup_moves start_moves)

lemma stopped_moves: "quiet_archive E \<Longrightarrow> archiving.moves E (ObserveStopped E ev)"
  unfolding ObserveStopped_def stop_recording_def Let_def
  by (intro archiving.moves_intros time_moves lookup_moves started_moves ready_moves)

lemma event_moves: "quiet_archive E \<Longrightarrow> archiving.moves E (HandleFreeSWITCHEvent E ev)"
  unfolding HandleFreeSWITCHEvent_def recordingLifecycleEvent_def Let_def
  by (intro archiving.moves_intros archive_clock_moves started_moves stopped_moves)

lemma reconcile_moves: "quiet_archive E \<Longrightarrow> archiving.moves E (recording_Reconcile E c)"
proof -
  assume rely: "quiet_archive E"
  have "archiving.moves E (reconcile_all E rs)" for rs
    by (induction rs) (auto intro!: archiving.moves_intros archive_clock_moves ready_moves [OF rely])
  then show ?thesis
    unfolding recording_Reconcile_def by (intro archiving.moves_intros archive_clock_moves archiving.query_moves rely)
qed

lemma playback_moves: "quiet_archive E \<Longrightarrow> archiving.moves E (recording_Playback E S org i)"
proof -
  assume rely: "quiet_archive E"
  have "archiving.moves E (client_PlaybackURL E client key)" for client key
    unfolding client_PlaybackURL_def
    by (intro archiving.moves_intros archive_clock_moves archiving.external_moves [OF rely]) (simp add: archiving.refl)
  then show ?thesis
    unfolding recording_Playback_def recording_Get_def storage_PlaybackURL_def stored_object_def
    by (intro archiving.moves_intros archiving.query_moves object_client_moves rely)
qed

lemma Delete_moves:
  assumes rely: "quiet_archive E"
  shows "archiving.moves E (recording_Delete E S org i)"
proof (rule archive_moves)
  have read: "archiving.triple E keyed (query E (GetRecordingIncludingDeleted org i))
      (\<lambda>g w. keyed w \<and> (\<forall>r. g = Inr r \<longrightarrow> known r w))"
    by (rule archiving.triple_query [OF rely keyed_stable])
       (auto simp: GetRecordingIncludingDeleted_def dest!: select_one_Inr intro: known_read)
  have row: "archiving.triple E (known r) (do {
      x \<leftarrow> storage_delete_object E st r;
      case x of
        Inl e \<Rightarrow> State_Monad.return (Inl (NewServiceUnavailable ''delete recording object'' e))
      | Inr _ \<Rightarrow> do {
          d \<leftarrow> recording_delete_row E r;
          State_Monad.return (case d of
            Inr _ \<Rightarrow> Inr ()
          | Inl e \<Rightarrow> if error_is e ErrNoRows then Inr () else Inl (NewInternal ''delete recording'' e))
        } }) (\<lambda>_ _. True)" if "\<not> open_recording r" for r st
  proof (rule archiving.triple_bind_sum [OF delete_object_triple [OF rely]], goal_cases)
    case (1 e)
    show ?case by (simp add: archiving.refl)
  next
    case (2 u)
    show ?case
      unfolding sum.case
      by (rule archiving.triple_ex, rule archiving.triple_ex, rule archiving.triple_pure,
          rule archiving.triple_bind [OF delete_triple [OF rely that]], simp, simp, rule archiving.triple_return, simp)
  qed
  show "archiving.triple E keyed (recording_Delete E S org i) (\<lambda>_ _. True)"
    unfolding recording_Delete_def
  proof (intro archiving.triple_sum archiving.triple_bind_sum [OF read], goal_cases)
    case (3 u r)
    have "archiving.triple E (known r) (if rc_status r = Deleted then State_Monad.return (Inr ())
        else if open_recording r
        then State_Monad.return (Inl (NewConflict ''recording cannot be deleted before upload completes''))
        else case S of
               None \<Rightarrow> State_Monad.return (Inl no_recording_storage)
             | Some st \<Rightarrow> do {
                 x \<leftarrow> storage_delete_object E st r;
                 case x of
                   Inl e \<Rightarrow> State_Monad.return (Inl (NewServiceUnavailable ''delete recording object'' e))
                 | Inr _ \<Rightarrow> do {
                     d \<leftarrow> recording_delete_row E r;
                     State_Monad.return (case d of
                       Inr _ \<Rightarrow> Inr ()
                     | Inl e \<Rightarrow> if error_is e ErrNoRows then Inr () else Inl (NewInternal ''delete recording'' e))
                   }
               }) (\<lambda>_ _. True)"
      by (intro archiving.triple_if archiving.triple_option archiving.triple_return row) simp_all
    then show ?case by (rule archiving.triple_weaken) simp_all
  qed (simp_all add: archiving.refl)
qed

text \<open>Storage integrations and retention policies.\<close>

lemma archive_integrations:
  assumes "d' = (database w)\<lparr>storage_integrations := rows\<rparr>" "grows integration_step (storage_integrations (database w)) rows"
  shows "archive E w (w\<lparr>database := d'\<rparr>)"
proof (rule archive_map [where g = "\<lambda>x. x"])
  show "wider w (w\<lparr>database := d'\<rparr>)" using assms by (simp add: wider_def)
qed (simp_all add: assms(1))

lemma change_integration_archive:
  assumes "change_integration P f now (database w) = Inr (s, d)" and "\<And>x. integration_step x (f x)"
  shows "archive E w (w\<lparr>database := d\<rparr>)"
proof -
  obtain rows where u: "update_one P (\<lambda>x. (f x)\<lparr>sg_updated_at := now\<rparr>) (storage_integrations (database w)) = Inr (s, rows)"
    and d: "d = (database w)\<lparr>storage_integrations := rows\<rparr>"
    using assms(1) by (auto simp: change_integration_def split: sum.splits if_splits)
  from u have "rows = update_where P (\<lambda>x. (f x)\<lparr>sg_updated_at := now\<rparr>) (storage_integrations (database w))"
    by (rule update_one_Inr)
  then have "grows integration_step (storage_integrations (database w)) rows"
    using assms(2) by (auto simp: integration_step_def intro!: grows_update_where)
  with d show ?thesis by (rule archive_integrations)
qed

lemma integration_statements:
  "CreateStorageIntegration i org req ciphertext now (database w) = Inr (s, d) \<Longrightarrow> archive E w (w\<lparr>database := d\<rparr>)"
  "DisableStorageIntegration i org now (database w) = Inr (s, d) \<Longrightarrow> archive E w (w\<lparr>database := d\<rparr>)"
  "UpdateStorageIntegration u ciphertext' i org now (database w) = Inr (s, d) \<Longrightarrow> archive E w (w\<lparr>database := d\<rparr>)"
proof -
  show "CreateStorageIntegration i org req ciphertext now (database w) = Inr (s, d) \<Longrightarrow> archive E w (w\<lparr>database := d\<rparr>)"
    by (rule archive_integrations [where rows = "storage_integrations (database w) @ [s]"])
       (auto simp: CreateStorageIntegration_def Let_def grows_append split: if_splits)
qed (unfold DisableStorageIntegration_def UpdateStorageIntegration_def,
     erule change_integration_archive, simp add: integration_step_def, erule change_integration_archive, simp add: integration_step_def)

lemma object_request_moves:
  assumes rely: "quiet_archive E"
  shows "archiving.moves E (PutObject_request E c key bytes)" "archiving.moves E (RemoveObject_request E c key)"
  unfolding PutObject_request_def RemoveObject_request_def
  by (rule archiving.external_moves [OF rely], simp add: archive_log)+

lemma nothing_moves: "quiet_archive E \<Longrightarrow> archiving.moves E (external E (\<lambda>t w. (g t, w)))"
  by (erule archiving.external_moves) (simp add: archiving.refl)

lemma client_Test_moves:
  assumes rely: "quiet_archive E"
  shows "archiving.moves E (client_Test E c)"
  unfolding client_Test_def Let_def
  by (rule archiving.bind_moves [OF nothing_moves [OF rely]])
     (auto intro!: archiving.moves_intros object_request_moves [OF rely] nothing_moves [OF rely] split: sum.split bool.split)

lemma seal_archive_moves: "quiet_archive E \<Longrightarrow> archiving.moves E (EncryptForScope E scope secret)"
  unfolding EncryptForScope_def read_random_def
  by (intro archiving.moves_intros archiving.external_moves) (simp_all add: archiving.refl)

lemma storage_moves:
  assumes rely: "quiet_archive E"
  shows "archiving.moves E (storage_Create E cipher org req)"
    and "archiving.moves E (storage_Update E cipher org i u)"
    and "archiving.moves E (storage_Delete E org i)"
    and "archiving.moves E (storage_Test E cipher org i)"
  unfolding storage_Create_def storage_Update_def storage_reseal_def storage_Delete_def storage_Test_def Let_def
  by (intro archiving.moves_intros seal_archive_moves archiving.query_moves archiving.statement_moves resolve_moves s3_New_moves
      client_Test_moves rely; erule integration_statements)+

lemma retention_statements:
  "UpsertRetentionPolicy org resource days enabled now (database w) = Inr (p, d) \<Longrightarrow> archive E w (w\<lparr>database := d\<rparr>)"
  "DeleteRetentionPolicy org resource now (database w) = Inr (u, d) \<Longrightarrow> archive E w (w\<lparr>database := d\<rparr>)"
  by (auto simp: UpsertRetentionPolicy_def DeleteRetentionPolicy_def Let_def wider_def grows_refl split: if_splits sum.splits
      intro!: archive_map [where g = "\<lambda>x. x"])

lemma retention_moves:
  assumes rely: "quiet_archive E"
  shows "archiving.moves E (retention_Upsert E org resource days enabled)"
    and "archiving.moves E (retention_Delete E org resource)"
    and "archiving.moves E (cleanup_Run E S c fuel ticks)"
proof -
  show "archiving.moves E (retention_Upsert E org resource days enabled)" "archiving.moves E (retention_Delete E org resource)"
    unfolding retention_Upsert_def retention_Delete_def
    by (intro archiving.moves_intros archiving.statement_moves rely; erule retention_statements)+
  have all: "archiving.moves E (delete_all E S org is)" for org "is"
    by (induction "is") (auto intro!: archiving.moves_intros Delete_moves [OF rely])
  have batches: "archiving.moves E (cleanup_batches E S c org cutoff n)" for org cutoff n
    by (induction n) (auto intro!: archiving.moves_intros archiving.query_moves [OF rely] all)
  have "archiving.moves E (cleanup_policies E S c fuel ps)" for ps
    by (induction ps) (auto intro!: archiving.moves_intros batches archive_clock_moves split: option.split sum.split)
  then have once: "archiving.moves E (runOnce E S c fuel)"
    unfolding runOnce_def by (intro archiving.moves_intros archiving.query_moves rely)
  show "archiving.moves E (cleanup_Run E S c fuel ticks)"
    by (induction ticks) (auto intro!: archiving.moves_intros once split: option.split sum.split)
qed

section \<open>The life of a recording\<close>

text \<open>What happens to recordings: events of FreeSWITCH, requests, passes of the jobs, changes of integrations and policies.\<close>

datatype archive_op =
    FreeSwitchEventOp fs_event
  | PlaybackOp "object_storage option" uuid uuid
  | DeleteRecordingOp "object_storage option" uuid uuid
  | IngestOp object_storage ingestion_config nat
  | ReconcileOp reconciliation_config nat
  | CreateStorageOp bool uuid storage_create
  | UpdateStorageOp bool uuid uuid storage_update
  | DeleteStorageOp uuid uuid
  | TestStorageOp bool uuid uuid
  | UpsertRetentionOp uuid string int bool
  | DeleteRetentionOp uuid string
  | CleanupOp "object_storage option" cleanup_config nat nat

fun archive_op_step :: "env \<Rightarrow> archive_op \<Rightarrow> (world, unit) state" where
  "archive_op_step E (FreeSwitchEventOp ev) = done_with (HandleFreeSWITCHEvent E ev)"
| "archive_op_step E (PlaybackOp S org i) = done_with (recording_Playback E S org i)"
| "archive_op_step E (DeleteRecordingOp S org i) = done_with (recording_Delete E S org i)"
| "archive_op_step E (IngestOp S c ticks) = ingestion_Run E S c ticks"
| "archive_op_step E (ReconcileOp c ticks) = reconciliation_Run E c ticks"
| "archive_op_step E (CreateStorageOp cipher org req) = done_with (storage_Create E cipher org req)"
| "archive_op_step E (UpdateStorageOp cipher org i u) = done_with (storage_Update E cipher org i u)"
| "archive_op_step E (DeleteStorageOp org i) = done_with (storage_Delete E org i)"
| "archive_op_step E (TestStorageOp cipher org i) = done_with (storage_Test E cipher org i)"
| "archive_op_step E (UpsertRetentionOp org resource days enabled) = done_with (retention_Upsert E org resource days enabled)"
| "archive_op_step E (DeleteRetentionOp org resource) = done_with (retention_Delete E org resource)"
| "archive_op_step E (CleanupOp S c fuel ticks) = done_with (cleanup_Run E S c fuel ticks)"

fun archive_ops :: "env \<Rightarrow> archive_op list \<Rightarrow> (world, unit) state" where
  "archive_ops E [] = State_Monad.return ()"
| "archive_ops E (op # ops) = do { _ \<leftarrow> archive_op_step E op; archive_ops E ops }"

lemma run_moves:
  assumes rely: "quiet_archive E"
  shows "archiving.moves E (ingestion_Run E S c ticks)" "archiving.moves E (reconciliation_Run E cfg ticks)"
  by (induction ticks) (auto intro!: archiving.moves_intros Ingest_moves reconcile_moves rely)

lemma archive_ops_moves:
  assumes rely: "quiet_archive E"
  shows "archive E w (snd (run_state (archive_ops E ops) w))"
proof -
  have "archiving.moves E (archive_op_step E op)" for op
    by (cases op) (simp_all add: archiving.done_moves event_moves playback_moves Delete_moves run_moves
      storage_moves retention_moves rely)
  then have "archiving.moves E (archive_ops E ops)" by (induction ops) (auto intro!: archiving.moves_intros)
  then show ?thesis by (rule archiving.movesD)
qed

text \<open>
  C10: Whatever events arrive, requests are made, jobs run and calls fail, a recording keeps its id, tenant, call
  and source path; its status only advances from recording over uploading to completed or failed and then
  deleted; attempts are never taken back; once an upload is pinned to an object key and a storage
  integration it stays there; and once it ended, bucket, size, format and completion time are final.
\<close>

theorem recording_lifecycle_respected:
  assumes "\<forall>t w. archive E w (interference E t w)" and "keyed w"
  shows "grows recording_step (recordings (database w)) (recordings (database (snd (run_state (archive_ops E ops) w))))"
  using archive_ops_moves [OF assms(1), of w ops] assms(2) by (simp add: archive_def)

definition archive_env :: env where
  "archive_env = sample_env\<lparr>row_uuid := \<lambda>_ _. 7\<rparr>"

definition record_event :: "string \<Rightarrow> fs_event" where
  "record_event name =
     \<lparr>ev_name = name, ev_headers = [(''variable_leamout_call_id'', ''xx''), (''Unique-ID'', ''u''), (''Record-File-Path'', ''/r/a.wav'')],
      ev_body = []\<rparr>"

definition archive_world :: world where
  "archive_world = empty_world\<lparr>database := empty_db\<lparr>organizations := [sample_organization], calls := [sample_call 2 Answered]\<rparr>,
     staged := [(''/r/a.wav'', True, 9)]\<rparr>"

definition archive_run :: "archive_op list" where
  "archive_run = [FreeSwitchEventOp (record_event ''RECORD_START''), FreeSwitchEventOp (record_event ''RECORD_STOP''),
     IngestOp None (DefaultIngestionConfig ''/r'') 0]"

definition archived :: world where
  "archived = snd (run_state (archive_ops archive_env archive_run) archive_world)"

lemma archived_result:
  "map rc_status (recordings (database archived)) = [Recorded]"
  "object_log archived = [PutObject None ''managed'' ''organizations/x/recordings/2026/01/02/xxxxxxx.wav'' 9]"
  "staged archived = []"
  "map (\<lambda>e. ob_subject e) (outbox (database archived)) = [''recording.started'', ''recording.completed'']"
  by code_simp+

lemma archive_env_rely: "\<forall>t w. archive archive_env w (interference archive_env t w)"
  by (simp add: archive_env_def sample_env_def archiving.refl)

lemma archive_world_start: "keyed archive_world" "filed E archive_world"
  by (simp_all add: archive_world_def keyed_def filed_def)

lemma archived_state: "keyed archived" "filed archive_env archived"
  using archive_ops_moves [OF archive_env_rely, of archive_world archive_run] archive_world_start
  by (simp_all add: archive_def archived_def)

definition deleted_run :: world where
  "deleted_run = snd (run_state (archive_ops archive_env [DeleteRecordingOp (Some None) 1 7]) archived)"

lemma deleted_result: "map rc_status (recordings (database deleted_run)) = [Deleted]"
  by code_simp

theorem recording_lifecycle_respected_witness:
  "grows recording_step (recordings (database archived)) (recordings (database deleted_run)) \<and>
   map rc_status (recordings (database archived)) = [Recorded] \<and> map rc_status (recordings (database deleted_run)) = [Deleted]"
  using recording_lifecycle_respected [OF archive_env_rely archived_state(1), of "[DeleteRecordingOp (Some None) 1 7]"]
    archived_result(1) deleted_result
  unfolding deleted_run_def by simp

section \<open>Objects and events\<close>

text \<open>
  C5: The status of a recording follows the object store: a recording is completed only after its object was
  put, with the size the row records, under the key and in the bucket of the row, in the managed store or
  in the store of the integration the row names; and it is deleted only after the object was removed
  there. This holds under any fault and any interleaving, if it holds at the start. It does not say that
  the object of a completed recording is still there, see below.
\<close>

theorem recording_status_follows_store:
  assumes "\<forall>t w. archive E w (interference E t w)" and "keyed w" and "filed E w"
    and "r \<in> set (recordings (database (snd (run_state (archive_ops E ops) w))))"
  shows "accounted E (snd (run_state (archive_ops E ops) w)) r"
  using archive_ops_moves [OF assms(1), of w ops] assms(2-4) by (simp add: archive_def filed_def)

theorem recording_status_follows_store_witness:
  "\<exists>r \<in> set (recordings (database archived)). rc_status r = Recorded \<and> accounted archive_env archived r"
proof -
  obtain r where r: "r \<in> set (recordings (database archived))" "rc_status r = Recorded"
    using archived_result(1) by (cases "recordings (database archived)") auto
  show ?thesis
    using recording_status_follows_store [OF archive_env_rely archive_world_start, of r archive_run] r
    unfolding archived_def by blast
qed

text \<open>
  A deletion removes the object before it updates the row: when the update fails, the recording stays
  completed and its object is gone, until a deletion is tried again.
\<close>

definition unmarked_env :: env where
  "unmarked_env = archive_env\<lparr>fault_at := \<lambda>t. if t < 20 then NoFault else FailBefore\<rparr>"

theorem failed_deletion_loses_object:
  "case run_state (recording_Delete unmarked_env (Some None) 1 7) archived of (r, w') \<Rightarrow>
     isl r \<and> map rc_status (recordings (database w')) = [Recorded] \<and>
     object_log w' = [PutObject None ''managed'' ''organizations/x/recordings/2026/01/02/xxxxxxx.wav'' 9,
       RemoveObject None ''managed'' ''organizations/x/recordings/2026/01/02/xxxxxxx.wav'']"
  by code_simp

text \<open>
  C21: The outbox tells the state of every recording: for a recording that started, completed, failed or was
  deleted it holds an event of that type whose resource is the row as it is now.
\<close>

theorem recording_states_announced:
  assumes "\<forall>t w. archive E w (interference E t w)" and "keyed w" and "filed E w"
    and "r \<in> set (recordings (database (snd (run_state (archive_ops E ops) w))))"
  shows "announced (database (snd (run_state (archive_ops E ops) w))) r"
  using archive_ops_moves [OF assms(1), of w ops] assms(2-4) by (simp add: archive_def filed_def)

theorem recording_states_announced_witness:
  "\<exists>r \<in> set (recordings (database archived)). rc_status r = Recorded \<and> announced (database archived) r"
proof -
  obtain r where r: "r \<in> set (recordings (database archived))" "rc_status r = Recorded"
    using archived_result(1) by (cases "recordings (database archived)") auto
  show ?thesis
    using recording_states_announced [OF archive_env_rely archive_world_start, of r archive_run] r
    unfolding archived_def by blast
qed

section \<open>The staging directory\<close>

lemma outside_staging_below: "outside_staging root p \<longleftrightarrow> \<not> below root p"
  using Rel_below [of root p] by (auto simp: outside_staging_def split: sum.splits)

definition in_staging :: "env \<Rightarrow> ingestion_config \<Rightarrow> string \<Rightarrow> bool" where
  "in_staging E c p \<longleftrightarrow> (\<exists>t root. eval_symlinks E t (ij_staging_path c) = Some root \<and> below root p)"

lemma EvalSymlinks_result: "fst (run_state (EvalSymlinks E p) w) = Inr q \<Longrightarrow> \<exists>t. eval_symlinks E t p = Some q"
  by (auto simp: EvalSymlinks_def external_def Let_def split: fault.splits option.splits)

lemma safeSourcePath_result:
  assumes "fst (run_state (safeSourcePath E c r) w) = Inr p"
  shows "in_staging E c p"
proof -
  obtain root w1 where a: "run_state (EvalSymlinks E (ij_staging_path c)) w = (Inr root, w1)" and "\<not> outside_staging root p"
    using assms
    by (auto simp: safeSourcePath_def Let_def split: option.splits if_splits prod.splits sum.splits)
  then show ?thesis
    using EvalSymlinks_result [of E "ij_staging_path c" w root] by (auto simp: in_staging_def outside_staging_below)
qed

text \<open>
  C20: Without faults, \<^verbatim>\<open>safeSourcePath\<close> finds a path for the ingestion job exactly when the recording has a source path,
  the cleaned path lies below the staging directory and, with symbolic links resolved, still lies below
  the resolved staging directory. Neither dot-dot elements nor links lead out of it.
\<close>

theorem source_path_confined:
  assumes "quiet E"
  shows "fst (run_state (safeSourcePath E c r) w) = Inr p \<longleftrightarrow>
    (\<exists>source root. rc_source_path r = Some source \<and> below (ij_staging_path c) (Clean (trim_space source)) \<and>
       eval_symlinks E (tick w) (ij_staging_path c) = Some root \<and>
       eval_symlinks E (Suc (tick w)) (Clean (trim_space source)) = Some p \<and> below root p)"
  using assms
  by (auto simp: safeSourcePath_def EvalSymlinks_def run_external_quiet Let_def outside_staging_below split: option.split)

definition staged_recording :: recording where
  "staged_recording = new_recording 7 1 2 ''/r/b/../a.wav'' 0 0"

theorem source_path_confined_witness:
  "fst (run_state (safeSourcePath sample_env (DefaultIngestionConfig ''/r'') staged_recording) empty_world) = Inr ''/r/a.wav'' \<and>
   below ''/r'' ''/r/a.wav''"
proof -
  have parts: "path_parts ''/r'' = [''r'']" "path_parts ''/r/a.wav'' = [''r'', ''a.wav'']" by code_simp+
  have b: "below ''/r'' ''/r/a.wav''" by (simp add: below_def parts IsAbs_def has_prefix_def)
  have clean: "Clean (trim_space ''/r/b/../a.wav'') = ''/r/a.wav''" by code_simp
  have "fst (run_state (safeSourcePath sample_env (DefaultIngestionConfig ''/r'') staged_recording) empty_world) = Inr ''/r/a.wav''"
    by (subst source_path_confined [OF quiet_sample])
       (simp add: staged_recording_def new_recording_def clean DefaultIngestionConfig_def b, simp add: sample_env_def b)
  with b show ?thesis by blast
qed

text \<open>
  The check and the opening are two steps: a link put in place of the checked file between them leads the
  job out of the staging directory.
\<close>

definition swapping_env :: env where
  "swapping_env = sample_env\<lparr>eval_symlinks := \<lambda>t p. Some (if t \<ge> 2 \<and> p = ''/r/a.wav'' then ''/etc/passwd'' else p)\<rparr>"

theorem swapped_link_escapes:
  "case run_state (safeSourcePath swapping_env (DefaultIngestionConfig ''/r'') staged_recording)
     (empty_world\<lparr>staged := [(''/etc/passwd'', True, 9)]\<rparr>) of (x, w1) \<Rightarrow>
   x = Inr ''/r/a.wav'' \<and> fst (run_state (os_Open swapping_env ''/r/a.wav'') w1) = Inr (''/etc/passwd'', True, 9)"
  by code_simp

end
