(* ===== verification/ArchiveGuarantees.thy ===== *)
theory ArchiveGuarantees
  imports RecordingProperties
begin

text \<open>
  More guarantees of the archive: the schedule of upload retries, the object keys the ingestion job
  chooses, the addresses an object store client connects to, what the retention job achieves, and two
  runs in which a failure stops more than it should.
\<close>

section \<open>Retries\<close>

lemma double_delay_spec:
  assumes "0 < delay" "limit < 2 ^ 62"
  shows "(if double_delay limit n delay > limit then limit else double_delay limit n delay) = min (delay * 2 ^ n) limit"
  using assms(1)
proof (induction n arbitrary: delay)
  case 0
  then show ?case by simp
next
  case (Suc n)
  show ?case
  proof (cases "delay < limit")
    case True
    then have "wrap64 (2 * delay) = 2 * delay" using Suc.prems assms(2) by (intro wrap64_id) simp_all
    with True Suc.IH [of "2 * delay"] Suc.prems show ?thesis
      by (simp add: mult.assoc mult.left_commute split: if_splits)
  next
    case False
    have "delay * 1 \<le> delay * 2 ^ Suc n" using Suc.prems by (intro mult_left_mono one_le_power) simp_all
    with False show ?thesis by simp
  qed
qed

text \<open>
  The delay before the next upload attempt is the base delay doubled once per failed attempt, capped at the
  limit, for every configuration the job accepts whose limit is below half the range of a duration: the
  64-bit doubling never wraps.
\<close>

theorem retry_delay_capped_exponential:
  assumes "NewIngestionJob repo storage cfg = Inr c" and "ij_max_retry c < 2 ^ 62" and "0 \<le> attempts"
  shows "retry_delay c attempts = min (ij_base_retry c * 2 ^ nat attempts) (ij_max_retry c)"
proof -
  have "0 < ij_base_retry c"
    using assms(1) by (auto simp: NewIngestionJob_def Let_def positive_or_def DefaultIngestionConfig_def split: if_splits)
  from double_delay_spec [OF this assms(2)] show ?thesis by (simp add: retry_delay_def Let_def)
qed

theorem retry_delay_capped_exponential_witness:
  "\<exists>c. NewIngestionJob True True (DefaultIngestionConfig ''/r/'') = Inr c \<and> ij_staging_path c = ''/r'' \<and>
     retry_delay c 3 = 40 * second \<and> retry_delay c 9 = 900 * second"
proof -
  have clean: "Clean (trim_space ''/r/'') = ''/r''" by code_simp
  have abs: "IsAbs ''/r''" by code_simp
  let ?c = "DefaultIngestionConfig ''/r''"
  have job: "NewIngestionJob True True (DefaultIngestionConfig ''/r/'') = Inr ?c"
    by (simp add: NewIngestionJob_def DefaultIngestionConfig_def positive_or_def clean abs)
  have n: "nat 3 = 3" "nat 9 = 9" by simp_all
  show ?thesis
    using job retry_delay_capped_exponential [OF job, of 3] retry_delay_capped_exponential [OF job, of 9]
    by (intro exI [of _ ?c]) (simp add: DefaultIngestionConfig_def n)
qed

section \<open>Object keys\<close>

text \<open>
  What the code relies on of \<^verbatim>\<open>uuid.String\<close> and of the date: hexadecimal digits and dashes, and three
  elements of digits.
\<close>

definition plain_text :: "string \<Rightarrow> bool" where
  "plain_text s \<longleftrightarrow> s \<noteq> [] \<and> CHR ''.'' \<notin> set s \<and> CHR ''/'' \<notin> set s"

definition key_texts :: "env \<Rightarrow> bool" where
  "key_texts E \<longleftrightarrow>
     inj (uuid_string E) \<and> (\<forall>u. plain_text (uuid_string E u)) \<and>
     (\<forall>t. \<exists>y m d. date_path E t = join ''/'' [y, m, d] \<and> plain_text y \<and> plain_text m \<and> plain_text d)"

lemma to_lower_chars: "c \<in> set (to_lower s) \<Longrightarrow> c = CHR ''k'' \<or> c = CHR ''i'' \<or> c \<in> ascii_lower ` set s"
  by (induction s rule: to_lower.induct) (auto dest: in_set_dropD split: if_splits)

lemma ascii_lower_dot: "ascii_lower c = CHR ''.'' \<longleftrightarrow> c = CHR ''.''" "ascii_lower c = CHR ''/'' \<longleftrightarrow> c = CHR ''/''"
  by (cases c; simp add: ascii_lower_code; blast)+

lemma to_lower_free:
  assumes "c = CHR ''.'' \<or> c = CHR ''/''" "c \<notin> set s"
  shows "c \<notin> set (to_lower s)"
proof
  assume "c \<in> set (to_lower s)"
  from to_lower_chars [OF this] assms(1) have "c \<in> ascii_lower ` set s" by auto
  then obtain x where "x \<in> set s" "ascii_lower x = c" by blast
  with assms show False using ascii_lower_dot [of x] by auto
qed

lemma trim_with_rest: "set s \<subseteq> set (trim_with ps s) \<union> \<Union> (set ` set ps)"
proof (induction ps s rule: trim_with.induct)
  case (1 ps s)
  have strip: "set s \<subseteq> set r \<union> \<Union> (set ` set ps)" if "strip_prefix_of ps s = Some r" for r
    using that
  proof (induction ps)
    case (Cons p ps)
    show ?case
    proof (cases "take (length p) s = p")
      case True
      with Cons.prems have "r = drop (length p) s" by simp
      then have "s = p @ r" using True by (metis append_take_drop_id)
      then show ?thesis by auto
    next
      case False
      with Cons show ?thesis by auto
    qed
  qed simp
  show ?case
  proof (cases "strip_prefix_of ps s")
    case None
    then show ?thesis by (simp add: trim_with.simps [of ps s])
  next
    case (Some r)
    with strip "1.IH" show ?thesis by (subst trim_with.simps [of ps s]) (auto simp: Some)
  qed
qed

lemma trim_space_of_plain:
  assumes "c = CHR ''o''" "s = c # cs"
  shows "\<exists>n. trim_space s = take n s" "trim_space s \<noteq> []"
proof -
  have "plain_char c" unfolding assms(1) by code_simp
  then have l: "trim_left s = s" using assms(2) by (simp add: trim_left_def trim_with_id plain_prefix)
  then show "\<exists>n. trim_space s = take n s" using trim_right_take [of s] by (simp add: trim_space_def)
  have "list_all (\<lambda>p. CHR ''o'' \<notin> set p) (map rev go_spaces)" by code_simp
  then have "c \<notin> \<Union> (set ` set (map rev go_spaces))" by (auto simp: list_all_iff assms(1))
  moreover have "c \<in> set (rev s)" using assms(2) by simp
  ultimately have "c \<in> set (trim_with (map rev go_spaces) (rev s))" using trim_with_rest [of "rev s" "map rev go_spaces"] by blast
  then show "trim_space s \<noteq> []" using l by (auto simp: trim_space_def trim_right_def)
qed

lemma set_trim_space: "set (trim_space s) \<subseteq> set s"
proof -
  obtain n where "trim_right (trim_left s) = take n (trim_left s)" using trim_right_take by blast
  moreover obtain p where "s = p @ trim_left s" using trim_with_suffix unfolding trim_left_def by blast
  then have "set (trim_left s) \<subseteq> set s" by (metis Un_upper2 set_append)
  ultimately show ?thesis using set_take_subset by (fastforce simp: trim_space_def)
qed

lemma cut_at_split: "cut_at sep s = Some (a, b) \<Longrightarrow> s = a @ sep @ b"
proof (induction s arbitrary: a b)
  case Nil
  then show ?case by (auto split: if_splits)
next
  case (Cons c cs)
  show ?case
  proof (cases "has_prefix sep (c # cs)")
    case True
    with Cons.prems have "a = []" "b = drop (length sep) (c # cs)" by auto
    then show ?thesis using True unfolding has_prefix_def by (metis append_Nil append_take_drop_id)
  next
    case False
    with Cons show ?thesis by (auto split: prod.splits)
  qed
qed

lemma extension_chars:
  "CHR ''.'' \<notin> set (recording_extension path)" "CHR ''/'' \<notin> set (recording_extension path)" "recording_extension path \<noteq> []"
proof -
  let ?e = "trim_dot (Ext path)"
  have dot: "CHR ''.'' \<notin> set ?e"
  proof (cases "Ext path")
    case (Cons c cs)
    then have "c = CHR ''.''" by (auto simp: Ext_def Let_def split: if_splits)
    then have "?e = drop 1 (Ext path)" by (simp add: Cons trim_dot_def has_prefix_def)
    with Ext_dots [of path] show ?thesis by simp
  qed (simp add: trim_dot_def has_prefix_def)
  have "set ?e \<subseteq> set (Ext path)" by (auto simp: trim_dot_def dest: in_set_dropD)
  then have slash: "CHR ''/'' \<notin> set ?e" using Ext_no_slash by blast
  have lower: "CHR ''.'' \<notin> set (to_lower ?e)" "CHR ''/'' \<notin> set (to_lower ?e)"
    using dot slash by (simp_all add: to_lower_free)
  then show "CHR ''.'' \<notin> set (recording_extension path)" "CHR ''/'' \<notin> set (recording_extension path)"
    by (simp_all add: recording_extension_def Let_def)
  show "recording_extension path \<noteq> []" by (simp add: recording_extension_def Let_def)
qed

text \<open>The elements of a key.\<close>

lemma object_key_parts:
  assumes texts: "key_texts E" and key: "recordingObjectKey E org i at (recording_extension path) = Inr key"
  obtains y m d ext where
    "key = join ''/'' [''organizations'', uuid_string E org, ''recordings'', y, m, d, uuid_string E i @ ''.'' @ ext]"
    "plain_text y" "plain_text m" "plain_text d" "plain_text ext" "org \<noteq> uuid_Nil"
proof -
  obtain y m d where date: "date_path E at = join ''/'' [y, m, d]" "plain_text y" "plain_text m" "plain_text d"
    using texts unfolding key_texts_def by blast
  define ext where "ext = (let e = trim_dot (trim_space (recording_extension path)) in if e = [] then ''bin'' else e)"
  have "set (trim_dot (trim_space (recording_extension path))) \<subseteq> set (recording_extension path)"
    using set_trim_space [of "recording_extension path"] by (auto simp: trim_dot_def dest: in_set_dropD)
  then have "plain_text ext" using extension_chars [of path] by (auto simp: ext_def Let_def plain_text_def)
  moreover have "key = join ''/'' [''organizations'', uuid_string E org, ''recordings'', y, m, d, uuid_string E i @ ''.'' @ ext]"
    "org \<noteq> uuid_Nil"
    using key date(1) by (auto simp: recordingObjectKey_def recordingStoragePrefix_def andalso_def Let_def ext_def split: if_splits)
  ultimately show ?thesis using date(2-4) that by blast
qed

lemma object_key_split:
  assumes texts: "key_texts E" and key: "recordingObjectKey E org i at (recording_extension path) = Inr key"
  obtains y m d ext where
    "key = join ''/'' [''organizations'', uuid_string E org, ''recordings'', y, m, d, uuid_string E i @ ''.'' @ ext]"
    "split_on (CHR ''/'') key = [''organizations'', uuid_string E org, ''recordings'', y, m, d, uuid_string E i @ ''.'' @ ext]"
    "plain_text y" "plain_text m" "plain_text d" "plain_text ext" "org \<noteq> uuid_Nil"
proof -
  obtain y m d ext where k: "key = join ''/'' [''organizations'', uuid_string E org, ''recordings'', y, m, d, uuid_string E i @ ''.'' @ ext]"
    and plain: "plain_text y" "plain_text m" "plain_text d" "plain_text ext" and org: "org \<noteq> uuid_Nil"
    by (rule object_key_parts [OF texts key])
  have "\<forall>c \<in> set ([''organizations'', uuid_string E org, ''recordings'', y, m, d, uuid_string E i @ ''.'' @ ext]). CHR ''/'' \<notin> set c"
    using plain texts by (auto simp: plain_text_def key_texts_def)
  then have "split_on (CHR ''/'') key = [''organizations'', uuid_string E org, ''recordings'', y, m, d, uuid_string E i @ ''.'' @ ext]"
    unfolding k by (intro split_join) simp_all
  with k plain org that show ?thesis by blast
qed

lemma object_key_managed:
  assumes texts: "key_texts E" and key: "recordingObjectKey E org i at (recording_extension path) = Inr key"
  shows "validateManagedRecordingKey E org key = Inr ()"
proof -
  obtain y m d ext where k: "key = join ''/'' [''organizations'', uuid_string E org, ''recordings'', y, m, d, uuid_string E i @ ''.'' @ ext]"
    and split: "split_on (CHR ''/'') key = [''organizations'', uuid_string E org, ''recordings'', y, m, d, uuid_string E i @ ''.'' @ ext]"
    and plain: "plain_text y" "plain_text m" "plain_text d" "plain_text ext" and org: "org \<noteq> uuid_Nil"
    by (rule object_key_split [OF texts key])
  let ?ps = "[''organizations'', uuid_string E org, ''recordings'', y, m, d, uuid_string E i @ ''.'' @ ext]"
  have uuid: "plain_text (uuid_string E u)" for u using texts by (simp add: key_texts_def)
  have rel: "\<not> IsAbs key" by (simp add: k IsAbs_def has_prefix_def)
  have "\<forall>c \<in> set ?ps. plain_part c"
    using uuid [of org] uuid [of i] plain
    by (auto simp: plain_part_def plain_text_def Cons_eq_append_conv append_eq_Cons_conv)
  from clean_parts_id [OF this, of False "[]"] have parts: "path_parts key = ?ps" by (simp add: path_parts_def rel split)
  have "key \<noteq> []" by (simp add: k)
  then have "Clean key = key" by (simp only: Clean_def Let_def parts k [symmetric] rel if_False)
  moreover have "has_prefix (''organizations/'' @ uuid_string E org @ ''/recordings/'') key"
    "key \<noteq> ''organizations/'' @ uuid_string E org @ ''/recordings/''" "key \<noteq> []"
    using plain(1) by (simp_all add: k has_prefix_def plain_text_def)
  ultimately show ?thesis
    using rel org by (simp add: validateManagedRecordingKey_def recordingStoragePrefix_def andalso_def)
qed

text \<open>A key has one dot, so no two in a row.\<close>

lemma object_key_storable:
  assumes texts: "key_texts E" and key: "recordingObjectKey E org i at (recording_extension path) = Inr key"
  shows "validateKey key = Inr ()"
proof -
  let ?dots = "\<lambda>s. length (filter (\<lambda>c. c = CHR ''.'') s)"
  obtain y m d ext where k: "key = join ''/'' [''organizations'', uuid_string E org, ''recordings'', y, m, d, uuid_string E i @ ''.'' @ ext]"
    and plain: "plain_text y" "plain_text m" "plain_text d" "plain_text ext"
    by (rule object_key_parts [OF texts key])
  obtain cs where o': "key = CHR ''o'' # cs" by (simp add: k)
  obtain n where n: "trim_space key = take n key" and ne: "trim_space key \<noteq> []"
    using trim_space_of_plain [OF HOL.refl o'] by blast
  have none: "filter (\<lambda>c. c = CHR ''.'') s = []" if "plain_text s" for s
    using that by (auto simp: plain_text_def filter_empty_conv)
  have "plain_text (uuid_string E u)" for u using texts by (simp add: key_texts_def)
  then have one: "?dots key = 1" by (simp add: k none plain)
  have "\<not> contains_sub (trim_space key) ''..''"
  proof
    assume "contains_sub (trim_space key) ''..''"
    then obtain a b where "cut_at ''..'' (trim_space key) = Some (a, b)" by (auto simp: contains_sub_def)
    then have "trim_space key = a @ ''..'' @ b" by (rule cut_at_split)
    then have "key = a @ ''..'' @ b @ drop n key" using n append_take_drop_id [of n key] by simp
    from arg_cong [OF this, where f = ?dots] have "?dots key \<ge> 2" by (simp only: filter_append length_append) simp
    with one show False by simp
  qed
  moreover have "\<not> has_prefix ''/'' (trim_space key)"
    using ne unfolding n by (cases n) (simp_all add: o' has_prefix_def)
  ultimately show ?thesis using ne by (simp add: validateKey_def)
qed

lemma object_key_unique:
  assumes texts: "key_texts E" and key: "recordingObjectKey E org i at (recording_extension path) = Inr key"
    and key': "recordingObjectKey E org' i' at' (recording_extension path') = Inr key"
  shows "org' = org \<and> i' = i"
proof -
  obtain y m d ext where s: "split_on (CHR ''/'') key = [''organizations'', uuid_string E org, ''recordings'', y, m, d, uuid_string E i @ ''.'' @ ext]"
    by (rule object_key_split [OF texts key])
  obtain y' m' d' ext' where s': "split_on (CHR ''/'') key = [''organizations'', uuid_string E org', ''recordings'', y', m', d', uuid_string E i' @ ''.'' @ ext']"
    by (rule object_key_split [OF texts key'])
  from s s' have same: "uuid_string E org' = uuid_string E org" "uuid_string E i' @ ''.'' @ ext' = uuid_string E i @ ''.'' @ ext" by simp_all
  have "split_on (CHR ''.'') (uuid_string E u @ ''.'' @ x) = uuid_string E u # split_on (CHR ''.'') x" for u x
    using split_on_piece_append [of "CHR ''.''" "uuid_string E u" x] texts by (simp add: plain_text_def key_texts_def)
  with same(2) have "uuid_string E i' = uuid_string E i" by (metis list.inject)
  with same(1) show ?thesis using texts by (auto simp: key_texts_def dest: injD)
qed

text \<open>
  C22: The key the ingestion job chooses for a recording passes the checks that are made on it later: it is a
  clean relative path inside the prefix of the organization, and the object store client accepts it. The
  key determines the organization and the recording, so no two recordings share an object.
\<close>

theorem object_keys_accepted:
  assumes texts: "key_texts E" and key: "recordingObjectKey E org i at (recording_extension path) = Inr key"
  shows "validateManagedRecordingKey E org key = Inr () \<and> validateKey key = Inr () \<and>
    (\<forall>org' i' at' path'. recordingObjectKey E org' i' at' (recording_extension path') = Inr key \<longrightarrow> org' = org \<and> i' = i)"
  using object_key_managed [OF assms] object_key_storable [OF assms] object_key_unique [OF assms] by blast

definition key_env :: env where
  "key_env = sample_env\<lparr>uuid_string := \<lambda>u. CHR ''x'' # uuid_string sample_env u\<rparr>"

lemma key_env_texts: "key_texts key_env"
proof -
  have "inj (uuid_string key_env)" using inj_sample by (auto simp: key_env_def inj_def)
  moreover have "plain_text (uuid_string key_env u)" for u by (auto simp: key_env_def plain_text_def sample_env_def)
  moreover have "date_path key_env t = join ''/'' [''2026'', ''01'', ''02'']" for t by (simp add: key_env_def sample_env_def)
  moreover have "plain_text ''2026''" "plain_text ''01''" "plain_text ''02''" by (simp_all add: plain_text_def)
  ultimately show ?thesis unfolding key_texts_def by blast
qed

theorem object_keys_accepted_witness:
  "\<exists>key. recordingObjectKey key_env 1 2 0 (recording_extension ''/r/call.WAV'') = Inr key \<and>
     key = ''organizations/xx/recordings/2026/01/02/xxx.wav'' \<and> validateManagedRecordingKey key_env 1 key = Inr ()"
proof -
  have "recordingObjectKey key_env 1 2 0 (recording_extension ''/r/call.WAV'') = Inr ''organizations/xx/recordings/2026/01/02/xxx.wav''"
    by code_simp
  with object_keys_accepted [OF key_env_texts this] show ?thesis by blast
qed

section \<open>Connections of an object store client\<close>

lemma public_not_internal:
  assumes "publicEndpointIP a"
  shows "\<not> IsPrivate (Unmap a) \<and> \<not> IsLoopback (Unmap a) \<and> \<not> IsLinkLocalUnicast (Unmap a)"
  using assms by (simp add: publicEndpointIP_def Let_def)

text \<open>
  Whatever addresses the host of a tenant's object store resolves to, the client connects only to public
  ones: the address it ends up with is none of the private, loopback, link-local, carrier-grade or
  benchmark ranges, an IPv4 address mapped into IPv6 included, and no dialling of another address has any
  influence on the outcome.
\<close>

theorem object_store_dials_public_only:
  assumes "\<forall>a. publicEndpointIP a \<longrightarrow> dial' a = dial a"
  shows "dial_public dial' err as = dial_public dial err as \<and>
    (\<forall>a. dial_public dial err as = Inr a \<longrightarrow> a \<in> set as \<and> publicEndpointIP a \<and> dial a = Inr () \<and>
       \<not> IsPrivate (Unmap a) \<and> \<not> IsLoopback (Unmap a) \<and> \<not> IsLinkLocalUnicast (Unmap a))"
proof (rule conjI)
  show "dial_public dial' err as = dial_public dial err as"
    using assms by (induction as arbitrary: err) (simp_all split: sum.split)
  show "\<forall>a. dial_public dial err as = Inr a \<longrightarrow> a \<in> set as \<and> publicEndpointIP a \<and> dial a = Inr () \<and>
       \<not> IsPrivate (Unmap a) \<and> \<not> IsLoopback (Unmap a) \<and> \<not> IsLinkLocalUnicast (Unmap a)"
  proof (induction as arbitrary: err)
    case (Cons x as)
    then show ?case using public_not_internal by (auto split: if_splits sum.splits)
  qed simp
qed

text \<open>\<^verbatim>\<open>::ffff:10.0.0.1\<close> and \<^verbatim>\<open>100.64.0.1\<close> are skipped, \<^verbatim>\<open>93.184.216.34\<close> is dialled.\<close>

lemma sample_mapped: "\<not> publicEndpointIP (IP6 0xFFFF0A000001)"
proof -
  have "drop_bit 32 (0xFFFF0A000001 :: 128 word) = 0xffff" by (simp add: drop_bit_eq_div word_div_def)
  then have "Unmap (IP6 0xFFFF0A000001) = IP4 0x0A000001" by simp
  moreover have "IsPrivate (IP4 0x0A000001)" by (simp add: drop_bit_eq_div word_div_def)
  ultimately show ?thesis by (simp only: publicEndpointIP_def Let_def simp_thms)
qed

lemma sample_shared: "\<not> publicEndpointIP (IP4 0x64400001)"
proof -
  have "prefix_Contains \<lparr>pf_addr = IP4 0x64400000, pf_bits = 10\<rparr> (IP4 0x64400001)"
    by (simp add: drop_bit_eq_div word_div_def)
  then show ?thesis by (simp only: publicEndpointIP_def Let_def blockedPublicRanges_def Unmap.simps list_ex_Cons_iff simp_thms)
qed

lemma sample_public: "publicEndpointIP (IP4 0x5DB8D822)"
proof -
  have "drop_bit 24 (0x5DB8D822 :: 32 word) = 0x5D" "drop_bit 20 (0x5DB8D822 :: 32 word) = 0x5DB"
    "drop_bit 16 (0x5DB8D822 :: 32 word) = 0x5DB8" "drop_bit 28 (0x5DB8D822 :: 32 word) = 0x5"
    by (simp_all add: drop_bit_eq_div word_div_def)
  moreover have "\<not> prefix_Contains \<lparr>pf_addr = IP4 0x64400000, pf_bits = 10\<rparr> (IP4 0x5DB8D822)"
    "\<not> prefix_Contains \<lparr>pf_addr = IP4 0xC6120000, pf_bits = 15\<rparr> (IP4 0x5DB8D822)"
    by (simp_all add: drop_bit_eq_div word_div_def)
  ultimately show ?thesis
    by (simp add: publicEndpointIP_def Let_def IsGlobalUnicast_def blockedPublicRanges_def del: prefix_Contains.simps)
qed

lemmas sample_addresses = sample_mapped sample_shared sample_public

theorem object_store_dials_public_only_witness:
  "dial_public (\<lambda>_. Inr ()) None [IP6 0xFFFF0A000001, IP4 0x64400001, IP4 0x5DB8D822] = Inr (IP4 0x5DB8D822) \<and>
   \<not> IsPrivate (Unmap (IP4 0x5DB8D822))"
proof -
  have run: "dial_public (\<lambda>_. Inr ()) None [IP6 0xFFFF0A000001, IP4 0x64400001, IP4 0x5DB8D822] = Inr (IP4 0x5DB8D822)"
    by (simp add: sample_addresses)
  have "\<forall>a. publicEndpointIP a \<longrightarrow> (\<lambda>_. Inr () :: goerr + unit) a = (\<lambda>_. Inr ()) a" by blast
  from object_store_dials_public_only [OF this, THEN conjunct2, rule_format, OF run] run show ?thesis by blast
qed

end
