(* ===== verification/RetentionGuarantees.thy ===== *)
theory RetentionGuarantees
  imports RecordingProperties
begin

text \<open>
  What the retention job achieves. The relation \<open>retains\<close> is what the job relies on of everybody else and what it
  guarantees itself: policies stay, and no recording of a watched tenant that is past its retention already
  is completed meanwhile. Under it a pass ends, and a pass without an error leaves no recording that was
  past its retention. One recording that cannot be deleted ends the job for the tenants after it.
\<close>

section \<open>Transactions and their outcome\<close>

context world_history
begin

lemma triple_transaction_result:
  assumes rely: "\<forall>t w. R w (interference E t w)" and st: "stable P"
    and done_ok: "\<And>now t w x d. P w \<Longrightarrow> body now t (database w) = Inr (x, d) \<Longrightarrow>
      R w (w\<lparr>database := d\<rparr>) \<and> Q (Inr x) (w\<lparr>database := d\<rparr>)"
    and failed: "\<And>now t w e. P w \<Longrightarrow> body now t (database w) = Inl e \<Longrightarrow> Q (Inl e) w"
    and broken: "\<And>w e. P w \<Longrightarrow> \<not> error_is e ErrNoRows \<Longrightarrow> Q (Inl e) w"
  shows "triple P (transaction E name body) Q"
proof -
  have commit: "triple P (State (commit_step E (\<lambda>e. e) (Wrap (''commit '' @ name)) body now)) Q" for now
  proof (intro allI impI)
    fix w assume P: "P w"
    let ?t = "tick w"
    let ?w = "(interference E ?t w)\<lparr>tick := Suc (Suc ?t)\<rparr>"
    note moved = moved_tick [OF rely st P, where t = ?t and n = "Suc (Suc ?t)"]
    have ok: "R w (?w\<lparr>database := d\<rparr>) \<and> P (?w\<lparr>database := d\<rparr>) \<and> Q (Inr x) (?w\<lparr>database := d\<rparr>)"
      if "body now ?t (database ?w) = Inr (x, d)" for x d
    proof -
      have "R ?w (?w\<lparr>database := d\<rparr>) \<and> Q (Inr x) (?w\<lparr>database := d\<rparr>)" by (rule done_ok [OF moved(2) that])
      with moved st trans show ?thesis by blast
    qed
    have io: "P v \<Longrightarrow> Q (Inl (IOError n)) v \<and> Q (Inl (Wrap m (IOError n))) v" for v m n by (simp add: broken)
    show "R w (snd (run_state (State (commit_step E (\<lambda>e. e) (Wrap (''commit '' @ name)) body now)) w)) \<and>
        Q (fst (run_state (State (commit_step E (\<lambda>e. e) (Wrap (''commit '' @ name)) body now)) w))
          (snd (run_state (State (commit_step E (\<lambda>e. e) (Wrap (''commit '' @ name)) body now)) w))"
    proof (cases "body now ?t (database ?w)")
      case (Inl e)
      with moved failed [OF moved(2) Inl] io [OF moved(2)] show ?thesis
        by (simp add: commit_step_def Let_def split: fault.split)
    next
      case (Inr y)
      then obtain x d where y: "body now ?t (database ?w) = Inr (x, d)" by (cases y) simp
      with moved ok [OF y] io [OF moved(2)] io [of "?w\<lparr>database := d\<rparr>"] show ?thesis
        by (simp add: commit_step_def Let_def split: fault.split)
    qed
  qed
  have b: "triple P (external E (clock_step E)) (\<lambda>x w. P w \<and> (\<forall>e. x = Inl e \<longrightarrow> \<not> error_is e ErrNoRows))"
  proof -
    have "\<not> error_is e ErrNoRows" if "fst (run_state (external E (clock_step E)) w) = Inl e" for w e
      using that by (auto simp: external_def Let_def clock_step_def split: fault.splits)
    moreover have "triple P (external E (clock_step E)) (\<lambda>_. P)"
      by (rule triple_external [OF rely st]) (simp_all add: clock_step_def refl)
    ultimately show ?thesis by blast
  qed
  show ?thesis
    unfolding transaction_def step_codes(6)
  proof (rule triple_bind_sum [OF b])
    show "triple (\<lambda>w. P w \<and> (\<forall>e'. Inl e = Inl e' \<longrightarrow> \<not> error_is e' ErrNoRows)) (State_Monad.return (Inl (Wrap (''begin '' @ name) e))) Q" for e
      by (rule triple_return) (simp add: broken)
    show "triple (\<lambda>w. P w \<and> (\<forall>e. Inr now = Inl e \<longrightarrow> \<not> error_is e ErrNoRows))
        (State (commit_step E (\<lambda>e. e) (Wrap (''commit '' @ name)) body now)) Q" for now
      using commit [of now] by simp
  qed
qed

text \<open>Deleting an object leaves the database alone.\<close>

lemma delete_object_moves:
  assumes rely: "rely E" and same: "\<And>w w'. database w' = database w \<Longrightarrow> R w w'"
  shows "moves (storage_delete_object E S r)"
proof -
  have s3: "moves (s3_New E cfg)" for cfg
    unfolding s3_New_def minio_new_def by (intro moves_intros external_moves rely) (simp_all add: refl)
  have "moves (ResolveByID E cipher org i)" "moves (ResolveRecording E cipher org)" for cipher org i
    unfolding ResolveByID_def ResolveRecording_def by (intro moves_intros query_moves rely)+
  then have client: "moves (clientForRecording E S r up)" for up
    unfolding clientForRecording_def custom_with_id_def customClient_def by (intro moves_intros s3)
  have "moves (client_Delete E client key)" for client key
    unfolding client_Delete_def RemoveObject_request_def
    by (intro moves_intros external_moves rely) (simp_all add: same)
  with client show ?thesis
    unfolding storage_delete_object_def stored_object_def by (intro moves_intros)
qed

end

section \<open>The relation\<close>

definition expired_ids :: "uuid \<Rightarrow> int \<Rightarrow> world \<Rightarrow> uuid set" where
  "expired_ids org cutoff w = rc_id ` set (filter (expired_recording org cutoff) (recordings (database w)))"

text \<open>\<open>K\<close> says which cutoffs of which tenants are watched.\<close>

definition retains :: "(uuid \<Rightarrow> int \<Rightarrow> bool) \<Rightarrow> world \<Rightarrow> world \<Rightarrow> bool" where
  "retains K w w' \<longleftrightarrow> (keyed w \<longrightarrow> keyed w' \<and> retention_policies (database w') = retention_policies (database w) \<and>
     (\<forall>org cutoff. K org cutoff \<longrightarrow> expired_ids org cutoff w' \<subseteq> expired_ids org cutoff w))"

interpretation retaining: world_history "retains K" for K
proof unfold_locales
  show "retains K w w" for w by (simp add: retains_def)
  show "retains K u v \<Longrightarrow> retains K v w \<Longrightarrow> retains K u w" for u v w by (simp add: retains_def) blast
  show "retains K w (w'\<lparr>tick := n\<rparr>) = retains K w w'" for w w' n by (simp add: retains_def keyed_def expired_ids_def)
qed

abbreviation calm :: "(uuid \<Rightarrow> int \<Rightarrow> bool) \<Rightarrow> env \<Rightarrow> bool" where
  "calm K E \<equiv> retaining.rely K E"

lemma retains_same: "database w' = database w \<Longrightarrow> retains K w w'"
  by (simp add: retains_def keyed_def expired_ids_def)

definition gone :: "(uuid \<Rightarrow> int \<Rightarrow> bool) \<Rightarrow> uuid \<Rightarrow> uuid set \<Rightarrow> world \<Rightarrow> bool" where
  "gone K org D w \<longleftrightarrow> keyed w \<and> (\<forall>cutoff. K org cutoff \<longrightarrow> D \<inter> expired_ids org cutoff w = {})"

lemma retaining_stable:
  "retaining.stable K keyed" "retaining.stable K (gone K org D)"
  unfolding retains_def gone_def by blast+

section \<open>Deletion\<close>

lemma deleted_rows:
  assumes "DeleteRecording org i now (database w) = Inr (r, d1)" and d: "d = d1\<lparr>outbox := evs\<rparr>"
  shows "retains K w (w\<lparr>database := d\<rparr>)" and "keyed w \<Longrightarrow> gone K org {i} (w\<lparr>database := d\<rparr>)"
proof -
  let ?f = "\<lambda>x. x\<lparr>rc_status := Deleted, rc_storage_url := None, rc_updated_at := now\<rparr>"
  let ?P = "\<lambda>r. own_recording org i r \<and> rc_status r \<noteq> Deleted"
  from assms(1) have d1: "d1 = (database w)\<lparr>recordings := update_where ?P ?f (recordings (database w))\<rparr>"
    unfolding DeleteRecording_def by (auto elim: change_recording_Inr)
  have ids: "map rc_id (update_where ?P ?f (recordings (database w))) = map rc_id (recordings (database w))"
    by (auto simp: update_where_def)
  have keep: "expired_ids o' c (w\<lparr>database := d\<rparr>) \<subseteq> expired_ids o' c w" for o' c
    by (auto simp: expired_ids_def d d1 set_update_where expired_recording_def split: if_splits)
  have k: "keyed (w\<lparr>database := d\<rparr>) = keyed w" by (simp add: keyed_def d d1 ids)
  show "retains K w (w\<lparr>database := d\<rparr>)" using keep k by (simp add: retains_def d d1)
  show "gone K org {i} (w\<lparr>database := d\<rparr>)" if "keyed w"
  proof -
    have "rc_status y = Deleted" if y: "y \<in> set (recordings d)" "rc_organization_id y = org" "rc_id y = i" for y
    proof -
      have "y \<in> (\<lambda>x. if ?P x then ?f x else x) ` set (recordings (database w))" using y(1) by (simp add: d d1 set_update_where)
      then obtain x where x: "y = (if ?P x then ?f x else x)" by (rule imageE)
      show ?thesis
      proof (cases "?P x")
        case True
        with x show ?thesis by simp
      next
        case False
        with x have "y = x" by simp
        with False y(2,3) show ?thesis by (simp add: own_recording_def)
      qed
    qed
    then have "{i} \<inter> expired_ids org c (w\<lparr>database := d\<rparr>) = {}" for c
      by (force simp: expired_ids_def expired_recording_def)
    with that k show ?thesis by (simp add: gone_def)
  qed
qed

lemma delete_row_calm:
  assumes rely: "calm K E"
  shows "retaining.triple K keyed (recording_delete_row E r)
    (\<lambda>x w. keyed w \<and> (case x of Inr _ \<Rightarrow> True | Inl e \<Rightarrow> error_is e ErrNoRows) \<longrightarrow> gone K (rc_organization_id r) {rc_id r} w)"
  unfolding recording_delete_row_def recording_mutate_def
proof (rule retaining.triple_transaction_result [OF rely retaining_stable(1)], goal_cases)
  case (1 now t w x d)
  from 1(2) obtain d1 ev at where "DeleteRecording (rc_organization_id r) (rc_id r) now (database w) = Inr (x, d1)"
    "d = d1\<lparr>outbox := outbox d1 @ [ev]\<rparr>"
    by (rule recording_mutate_body_Inr)
  with deleted_rows 1(1) show ?case by simp
next
  case (2 now t w e)
  have "gone K (rc_organization_id r) {rc_id r} w" if "error_is e ErrNoRows"
  proof -
    have "DeleteRecording (rc_organization_id r) (rc_id r) now (database w) = Inl e"
      using 2(2) that
      by (auto simp: recording_mutate_body_def on_error_def map_sum_def tx_statement_def InsertOutboxEvent_def Let_def
          split: sum.splits prod.splits if_splits)
    then have "\<forall>x \<in> set (recordings (database w)). \<not> (own_recording (rc_organization_id r) (rc_id r) x \<and> rc_status x \<noteq> Deleted)"
      using that
      by (auto simp: DeleteRecording_def change_recording_def recording_constraints_def split: sum.splits option.splits if_splits
          dest: update_one_Inl)
    then show ?thesis using 2(1) by (auto simp: gone_def expired_ids_def expired_recording_def own_recording_def)
  qed
  then show ?case by simp
next
  case (3 w e)
  then show ?case by simp
qed

lemma Delete_calm:
  assumes rely: "calm K E"
  shows "retaining.triple K keyed (recording_Delete E S org i) (\<lambda>x w. x = Inr () \<longrightarrow> gone K org {i} w)"
proof -
  have read: "retaining.triple K keyed (query E (GetRecordingIncludingDeleted org i))
      (\<lambda>g w. keyed w \<and> (\<forall>r. g = Inr r \<longrightarrow> own_recording org i r \<and> (rc_status r = Deleted \<longrightarrow> gone K org {i} w)))"
  proof (rule retaining.triple_query [OF rely retaining_stable(1)])
    fix w x assume k: "keyed w" and q: "GetRecordingIncludingDeleted org i (database w) = x"
    have "own_recording org i r \<and> (rc_status r = Deleted \<longrightarrow> gone K org {i} w)" if "x = Inr r" for r
    proof -
      have "select_one (own_recording org i) (recordings (database w)) = Inr r"
        using q that by (simp only: GetRecordingIncludingDeleted_def)
      from select_one_Inr [OF this] have r: "r \<in> set (recordings (database w))" "own_recording org i r" by simp_all
      have only: "y = r" if "y \<in> set (recordings (database w))" "rc_id y = i" for y
        using distinct_key [of rc_id, OF k [unfolded keyed_def] that(1) r(1)] that(2) r(2) by (simp add: own_recording_def)
      have "i \<notin> expired_ids org c w" if "rc_status r = Deleted" for c
      proof
        assume "i \<in> expired_ids org c w"
        then obtain y where y: "y \<in> set (recordings (database w))" "rc_id y = i" "expired_recording org c y"
          unfolding expired_ids_def by auto
        with only [OF y(1,2)] that show False by (simp add: expired_recording_def)
      qed
      with r(2) k show ?thesis by (simp add: gone_def)
    qed
    with k show "keyed w \<and> (\<forall>r. x = Inr r \<longrightarrow> own_recording org i r \<and> (rc_status r = Deleted \<longrightarrow> gone K org {i} w))" by blast
  qed simp
  have row: "retaining.triple K keyed (do {
      x \<leftarrow> storage_delete_object E st r;
      case x of
        Inl e \<Rightarrow> State_Monad.return (Inl (NewServiceUnavailable ''delete recording object'' e))
      | Inr _ \<Rightarrow> do {
          d \<leftarrow> recording_delete_row E r;
          State_Monad.return (case d of
            Inr _ \<Rightarrow> Inr ()
          | Inl e \<Rightarrow> if error_is e ErrNoRows then Inr () else Inl (NewInternal ''delete recording'' e))
        } }) (\<lambda>x w. x = Inr () \<longrightarrow> gone K org {i} w)" if "own_recording org i r" for r st
  proof (rule retaining.triple_bind_sum [OF retaining.triple_moves [OF retaining.delete_object_moves [OF rely retains_same] retaining_stable(1)]])
    fix u :: unit
    have own: "rc_organization_id r = org" "rc_id r = i" using that by (simp_all add: own_recording_def)
    have "retaining.triple K keyed (recording_delete_row E r) (\<lambda>x w. keyed w \<and> ((case x of Inr _ \<Rightarrow> True | Inl e \<Rightarrow> error_is e ErrNoRows) \<longrightarrow> gone K org {i} w))"
      using delete_row_calm [OF rely, of r] unfolding own by (auto simp: retains_def)
    then show "retaining.triple K keyed (do {
          d \<leftarrow> recording_delete_row E r;
          State_Monad.return (case d of
            Inr _ \<Rightarrow> Inr ()
          | Inl e \<Rightarrow> if error_is e ErrNoRows then Inr () else Inl (NewInternal ''delete recording'' e))
        }) (\<lambda>x w. x = Inr () \<longrightarrow> gone K org {i} w)"
      by (rule retaining.triple_bind) (rule retaining.triple_return, auto split: sum.splits if_splits)
  qed (simp_all add: retaining.refl)
  show ?thesis
    unfolding recording_Delete_def
  proof (intro retaining.triple_sum retaining.triple_bind_sum [OF read], goal_cases)
    case (3 u r)
    show ?case
    proof (rule retaining.triple_weaken [where P = "\<lambda>w. own_recording org i r \<and> keyed w \<and> (rc_status r = Deleted \<longrightarrow> gone K org {i} w)"
          and Q = "\<lambda>x w. x = Inr () \<longrightarrow> gone K org {i} w"], rule retaining.triple_pure, goal_cases)
      case 1
      then show ?case
        by (intro retaining.triple_if retaining.triple_option retaining.triple_return retaining.triple_weaken [OF row]) auto
    qed blast+
  qed (simp_all add: retaining.refl)
qed

lemma delete_all_calm:
  assumes rely: "calm K E"
  shows "retaining.triple K (gone K org D) (delete_all E S org js) (\<lambda>x w. x = Inr () \<longrightarrow> gone K org (D \<union> set js) w)"
proof (induction js arbitrary: D)
  case Nil
  then show ?case by (simp add: retaining.refl)
next
  case (Cons i js)
  have "retaining.triple K (gone K org D) (recording_Delete E S org i) (\<lambda>x w. gone K org D w \<and> (x = Inr () \<longrightarrow> gone K org (insert i D) w))"
    using retaining.triple_frame [OF Delete_calm [OF rely, of S org i] retaining_stable(2) [of K org D]]
    by (rule retaining.triple_weaken) (auto simp: gone_def)
  then show ?case
    unfolding delete_all.simps
  proof (rule retaining.triple_bind_sum, goal_cases)
    case (2 u)
    show ?case using Cons.IH [of "insert i D"] by (rule retaining.triple_weaken) auto
  qed (simp add: retaining.refl)
qed

section \<open>Batches\<close>

lemma listed_ids:
  assumes "ListExpiredRecordingsForRetention org cutoff b (database w) = Inr ids" and b: "0 < b"
  shows "set ids \<subseteq> expired_ids org cutoff w" and "int (length ids) < b \<Longrightarrow> expired_ids org cutoff w \<subseteq> set ids"
    and "\<not> int (length ids) < b \<Longrightarrow> ids \<noteq> []"
proof -
  let ?l = "sort_key rc_created_at (filter (expired_recording org cutoff) (recordings (database w)))"
  have ids: "ids = map rc_id (take (nat b) ?l)" using assms(1) by (simp add: ListExpiredRecordingsForRetention_def)
  have l: "rc_id ` set ?l = expired_ids org cutoff w" by (simp add: expired_ids_def)
  show "set ids \<subseteq> expired_ids org cutoff w" unfolding l [symmetric] ids using set_take_subset by fastforce
  show "expired_ids org cutoff w \<subseteq> set ids" if "int (length ids) < b"
  proof -
    have "length ?l \<le> nat b" using that b by (simp add: ids min_def split: if_splits)
    then have "take (nat b) ?l = ?l" by simp
    then show ?thesis using l by (simp add: ids)
  qed
  show "ids \<noteq> []" if "\<not> int (length ids) < b" using that b by auto
qed

text \<open>How many recordings a policy still has to delete.\<close>

definition due_within :: "nat \<Rightarrow> uuid \<Rightarrow> int \<Rightarrow> world \<Rightarrow> bool" where
  "due_within n org cutoff w \<longleftrightarrow> keyed w \<and> card (expired_ids org cutoff w) < n"

definition batch_read :: "nat \<Rightarrow> int \<Rightarrow> uuid \<Rightarrow> int \<Rightarrow> uuid list \<Rightarrow> world \<Rightarrow> bool" where
  "batch_read n b org cutoff ids w \<longleftrightarrow> keyed w \<and> card (expired_ids org cutoff w \<union> set ids) < n \<and>
     (if int (length ids) < b then expired_ids org cutoff w \<subseteq> set ids else ids \<noteq> [])"

lemma finite_expired [simp]: "finite (expired_ids org cutoff w)"
  by (simp add: expired_ids_def)

lemma due_stable:
  assumes "K org cutoff"
  shows "retaining.stable K (due_within n org cutoff)"
proof (intro allI impI)
  fix w w' assume "retains K w w'" "due_within n org cutoff w"
  then show "due_within n org cutoff w'"
    using assms card_mono [OF finite_expired, of "expired_ids org cutoff w'" org cutoff w] by (auto simp: due_within_def retains_def)
qed

lemma batch_stable:
  assumes "K org cutoff"
  shows "retaining.stable K (batch_read n b org cutoff ids)"
proof (intro allI impI)
  fix w w' assume r: "retains K w w'" and b: "batch_read n b org cutoff ids w"
  then have sub: "keyed w'" "expired_ids org cutoff w' \<subseteq> expired_ids org cutoff w"
    using assms by (simp_all add: batch_read_def retains_def)
  have "card (expired_ids org cutoff w' \<union> set ids) \<le> card (expired_ids org cutoff w \<union> set ids)"
    using sub(2) by (intro card_mono) auto
  moreover have "expired_ids org cutoff w' \<subseteq> set ids" if "int (length ids) < b"
    using sub(2) b that by (auto simp: batch_read_def subset_iff)
  ultimately show "batch_read n b org cutoff ids w'" using sub(1) b by (auto simp: batch_read_def)
qed

lemma batch_done:
  assumes "batch_read (Suc n) b org cutoff ids w" "gone K org (set ids) w" and "K org cutoff"
  shows "int (length ids) < b \<Longrightarrow> expired_ids org cutoff w = {}" and "\<not> int (length ids) < b \<Longrightarrow> due_within n org cutoff w"
proof -
  have disj: "set ids \<inter> expired_ids org cutoff w = {}" using assms(2,3) by (simp add: gone_def)
  show "expired_ids org cutoff w = {}" if "int (length ids) < b" using assms(1) that disj by (auto simp: batch_read_def)
  show "due_within n org cutoff w" if "\<not> int (length ids) < b"
  proof -
    have ne: "ids \<noteq> []" "keyed w" "card (expired_ids org cutoff w \<union> set ids) < Suc n" using assms(1) that by (simp_all add: batch_read_def)
    have "card (expired_ids org cutoff w \<union> set ids) = card (expired_ids org cutoff w) + card (set ids)"
      using disj by (intro card_Un_disjoint) auto
    moreover have "0 < card (set ids)" using ne(1) by (simp add: card_gt_0_iff)
    ultimately show ?thesis using ne by (simp add: due_within_def)
  qed
qed

lemma batches_end:
  assumes rely: "calm K E" and b: "0 < cj_batch_size c" and K: "K org cutoff"
  shows "retaining.triple K (due_within fuel org cutoff) (cleanup_batches E S c org cutoff fuel)
    (\<lambda>x w. \<exists>y. x = Some y \<and> (y = Inr () \<longrightarrow> expired_ids org cutoff w = {}))"
proof (induction fuel)
  case 0
  then show ?case by (simp add: due_within_def)
next
  case (Suc fuel)
  let ?b = "cj_batch_size c"
  have read: "retaining.triple K (due_within (Suc fuel) org cutoff) (query E (ListExpiredRecordingsForRetention org cutoff ?b))
      (\<lambda>l w. \<forall>ids. l = Inr ids \<longrightarrow> batch_read (Suc fuel) ?b org cutoff ids w)"
  proof (rule retaining.triple_query [OF rely due_stable [where K = K, OF K]])
    fix w x assume d: "due_within (Suc fuel) org cutoff w" and q: "ListExpiredRecordingsForRetention org cutoff ?b (database w) = x"
    show "\<forall>ids. x = Inr ids \<longrightarrow> batch_read (Suc fuel) ?b org cutoff ids w"
    proof (intro allI impI)
      fix ids assume "x = Inr ids"
      with listed_ids [OF _ b] q have l: "set ids \<subseteq> expired_ids org cutoff w" "int (length ids) < ?b \<Longrightarrow> expired_ids org cutoff w \<subseteq> set ids"
        "\<not> int (length ids) < ?b \<Longrightarrow> ids \<noteq> []" by blast+
      from l(1) have "expired_ids org cutoff w \<union> set ids = expired_ids org cutoff w" by blast
      with d l(2,3) show "batch_read (Suc fuel) ?b org cutoff ids w" by (simp add: batch_read_def due_within_def)
    qed
  qed simp
  have batch: "retaining.triple K (batch_read (Suc fuel) ?b org cutoff ids) (delete_all E S org ids)
      (\<lambda>x w. batch_read (Suc fuel) ?b org cutoff ids w \<and> (x = Inr () \<longrightarrow> gone K org (set ids) w))" for ids
    using retaining.triple_frame [OF delete_all_calm [OF rely, of org "{}" S ids] batch_stable [where K = K, OF K, of "Suc fuel" ?b ids]]
    by (rule retaining.triple_weaken) (simp_all add: gone_def batch_read_def)
  show ?case
    unfolding cleanup_batches.simps
  proof (rule retaining.triple_bind_sum [OF read], goal_cases)
    case (1 e)
    show ?case by (simp add: retaining.refl)
  next
    case (2 ids)
    have "retaining.triple K (batch_read (Suc fuel) ?b org cutoff ids) (do {
         x \<leftarrow> delete_all E S org ids;
         case x of
           Inl e \<Rightarrow> State_Monad.return (Some (Inl e))
         | Inr _ \<Rightarrow>
             if int (length ids) < ?b then State_Monad.return (Some (Inr ()))
             else cleanup_batches E S c org cutoff fuel
       }) (\<lambda>x w. \<exists>y. x = Some y \<and> (y = Inr () \<longrightarrow> expired_ids org cutoff w = {}))"
    proof (rule retaining.triple_bind_sum [OF batch [of ids]], goal_cases)
      case (2 u)
      show ?case
      proof (cases "int (length ids) < ?b")
        case True
        then show ?thesis using batch_done(1) [where K = K, OF _ _ K, of fuel ?b ids] by (simp add: retaining.refl)
      next
        case False
        from Suc.IH have "retaining.triple K (\<lambda>w. batch_read (Suc fuel) ?b org cutoff ids w \<and> (Inr u = Inr () \<longrightarrow> gone K org (set ids) w))
            (cleanup_batches E S c org cutoff fuel) (\<lambda>x w. \<exists>y. x = Some y \<and> (y = Inr () \<longrightarrow> expired_ids org cutoff w = {}))"
          by (rule retaining.triple_weaken) (simp_all add: batch_done(2) [where K = K, OF _ _ K False])
        with False show ?thesis by simp
      qed
    qed (simp add: retaining.refl)
    then show ?case by (rule retaining.triple_weaken) simp_all
  qed
qed

section \<open>A pass\<close>

text \<open>Recordings that are past their retention at the time \<open>lo\<close>.\<close>

definition enforced :: "int \<Rightarrow> retention_policy \<Rightarrow> world \<Rightarrow> bool" where
  "enforced lo p w \<longleftrightarrow> rp_resource p = ''recordings'' \<longrightarrow> expired_ids (rp_organization_id p) (retention_cutoff lo p) w = {}"

text \<open>The cutoffs that a pass between the times \<open>lo\<close> and \<open>hi\<close> uses for a policy are watched.\<close>

definition watched :: "(uuid \<Rightarrow> int \<Rightarrow> bool) \<Rightarrow> int \<Rightarrow> int \<Rightarrow> retention_policy \<Rightarrow> bool" where
  "watched K lo hi p \<longleftrightarrow> (rp_resource p = ''recordings'' \<longrightarrow>
     (\<forall>now. lo \<le> now \<and> now \<le> hi \<longrightarrow> K (rp_organization_id p) (retention_cutoff now p)))"

definition few :: "(uuid \<Rightarrow> int \<Rightarrow> bool) \<Rightarrow> nat \<Rightarrow> world \<Rightarrow> bool" where
  "few K n w \<longleftrightarrow> keyed w \<and> (\<forall>org cutoff. K org cutoff \<longrightarrow> due_within n org cutoff w)"

lemma few_stable: "retaining.stable K (few K n)"
proof (intro allI impI)
  fix w w' assume r: "retains K w w'" and f: "few K n w"
  have "due_within n org cutoff w'" if "K org cutoff" for org cutoff
    using due_stable [where K = K, OF that, of n] r f that by (auto simp: few_def)
  with r f show "few K n w'" by (simp add: few_def retains_def)
qed

lemma enforced_stable:
  assumes "\<forall>p \<in> A. watched K lo hi p" and "lo \<le> hi"
  shows "retaining.stable K (\<lambda>w. few K n w \<and> (\<forall>p \<in> A. enforced lo p w))"
proof (intro allI impI)
  fix w w' assume r: "retains K w w'" and e: "few K n w \<and> (\<forall>p \<in> A. enforced lo p w)"
  then have "keyed w" by (simp add: few_def)
  with r have "expired_ids org cutoff w' \<subseteq> expired_ids org cutoff w" if "K org cutoff" for org cutoff
    using that by (simp add: retains_def)
  with e assms have "enforced lo p w'" if "p \<in> A" for p
    using that unfolding enforced_def watched_def by blast
  with e r few_stable show "few K n w' \<and> (\<forall>p \<in> A. enforced lo p w')" by blast
qed

lemma expired_earlier: "cutoff \<le> cutoff' \<Longrightarrow> expired_ids org cutoff w \<subseteq> expired_ids org cutoff' w"
  by (auto simp: expired_ids_def expired_recording_def)

lemma few_records:
  assumes "keyed w" "length (recordings (database w)) < n"
  shows "few K n w"
proof -
  have "card (expired_ids org cutoff w) \<le> length (recordings (database w))" for org cutoff
  proof -
    let ?l = "filter (expired_recording org cutoff) (recordings (database w))"
    have "card (expired_ids org cutoff w) \<le> card (set ?l)" unfolding expired_ids_def by (rule card_image_le) simp
    also have "\<dots> \<le> length ?l" by (rule card_length)
    also have "\<dots> \<le> length (recordings (database w))" by (rule length_filter_le)
    finally show ?thesis .
  qed
  with assms show ?thesis unfolding few_def due_within_def by (meson le_less_trans)
qed

lemma policy_triple:
  assumes rely: "calm K E" and b: "0 < cj_batch_size c" and lo: "lo \<le> now" "now \<le> hi"
    and p: "rp_resource p = ''recordings''" and K: "\<forall>q \<in> insert p A. watched K lo hi q"
  shows "retaining.triple K (\<lambda>w. few K fuel w \<and> (\<forall>p \<in> A. enforced lo p w))
    (cleanup_batches E S c (rp_organization_id p) (retention_cutoff now p) fuel)
    (\<lambda>x w. \<exists>y. x = Some y \<and> (y = Inr () \<longrightarrow> few K fuel w \<and> (\<forall>p \<in> insert p A. enforced lo p w)))"
proof -
  have Kp: "K (rp_organization_id p) (retention_cutoff now p)" using K lo p by (simp add: watched_def)
  have "retention_cutoff lo p \<le> retention_cutoff now p" using lo by (simp add: retention_cutoff_def)
  from expired_earlier [OF this] have early:
    "expired_ids (rp_organization_id p) (retention_cutoff now p) w = {} \<Longrightarrow> enforced lo p w" for w
    unfolding enforced_def by blast
  have "retaining.triple K (\<lambda>w. due_within fuel (rp_organization_id p) (retention_cutoff now p) w \<and> few K fuel w \<and> (\<forall>p \<in> A. enforced lo p w))
    (cleanup_batches E S c (rp_organization_id p) (retention_cutoff now p) fuel)
    (\<lambda>x w. (\<exists>y. x = Some y \<and> (y = Inr () \<longrightarrow> expired_ids (rp_organization_id p) (retention_cutoff now p) w = {})) \<and>
       few K fuel w \<and> (\<forall>p \<in> A. enforced lo p w))"
    by (rule retaining.triple_frame [OF batches_end [OF rely b Kp] enforced_stable [of A K lo hi]]) (use K lo in auto)
  then show ?thesis by (rule retaining.triple_weaken) (auto simp: few_def early Kp)
qed

lemma policies_triple:
  assumes rely: "calm K E" and b: "0 < cj_batch_size c" and lo: "\<forall>t. lo \<le> clock E t \<and> clock E t \<le> hi"
    and K: "\<forall>p \<in> A \<union> set ps. watched K lo hi p"
  shows "retaining.triple K (\<lambda>w. few K fuel w \<and> (\<forall>p \<in> A. enforced lo p w)) (cleanup_policies E S c fuel ps)
    (\<lambda>x w. \<exists>y. x = Some y \<and> (y = Inr () \<longrightarrow> (\<forall>p \<in> A \<union> set ps. enforced lo p w)))"
  using K
proof (induction ps arbitrary: A)
  case Nil
  then show ?case by (simp add: retaining.refl)
next
  case (Cons p ps)
  have tail: "retaining.triple K (\<lambda>w. few K fuel w \<and> (\<forall>q \<in> insert p A. enforced lo q w)) (cleanup_policies E S c fuel ps)
    (\<lambda>x w. \<exists>y. x = Some y \<and> (y = Inr () \<longrightarrow> (\<forall>q \<in> A \<union> set (p # ps). enforced lo q w)))"
    using Cons.IH [of "insert p A"] Cons.prems by simp
  show ?case
  proof (cases "rp_resource p = ''recordings''")
    case False
    then have "enforced lo p w" for w by (simp add: enforced_def)
    with tail False show ?thesis by simp
  next
    case True
    have clock: "retaining.triple K (\<lambda>w. few K fuel w \<and> (\<forall>q \<in> A. enforced lo q w)) (wall_clock E)
        (\<lambda>now w. (lo \<le> now \<and> now \<le> hi) \<and> few K fuel w \<and> (\<forall>q \<in> A. enforced lo q w))"
      using lo by (simp add: wall_clock_def retaining.refl)
    have stop: "retaining.triple K (\<lambda>w. \<exists>y. x = Some y \<and> (y = Inr () \<longrightarrow> few K fuel w \<and> (\<forall>q \<in> insert p A. enforced lo q w)))
        (case x of Some (Inr _) \<Rightarrow> cleanup_policies E S c fuel ps | stop \<Rightarrow> State_Monad.return stop)
        (\<lambda>x w. \<exists>y. x = Some y \<and> (y = Inr () \<longrightarrow> (\<forall>q \<in> A \<union> set (p # ps). enforced lo q w)))" for x
    proof (cases "x = Some (Inr ())")
      case True
      with tail show ?thesis by simp
    next
      case False
      then show ?thesis by (cases x) (auto simp: retaining.refl split: sum.split)
    qed
    have "retaining.triple K (\<lambda>w. few K fuel w \<and> (\<forall>q \<in> A. enforced lo q w))
      (do { now \<leftarrow> wall_clock E;
        x \<leftarrow> cleanup_batches E S c (rp_organization_id p) (retention_cutoff now p) fuel;
        case x of Some (Inr _) \<Rightarrow> cleanup_policies E S c fuel ps | stop \<Rightarrow> State_Monad.return stop })
      (\<lambda>x w. \<exists>y. x = Some y \<and> (y = Inr () \<longrightarrow> (\<forall>q \<in> A \<union> set (p # ps). enforced lo q w)))"
      by (rule retaining.triple_bind [OF clock], rule retaining.triple_pure, rule retaining.triple_bind [OF policy_triple [OF rely b]],
          erule conjunct1, erule conjunct2, rule True, (use Cons.prems in simp), rule stop)
    with True show ?thesis by simp
  qed
qed

text \<open>
  What the others must not touch during a pass that ends by the time \<open>hi\<close>: for each enabled policy, the
  recordings of the tenant that are past their retention at \<open>hi\<close> at the latest.
\<close>

definition watching :: "retention_policy set \<Rightarrow> int \<Rightarrow> uuid \<Rightarrow> int \<Rightarrow> bool" where
  "watching ps hi org cutoff \<longleftrightarrow>
     (\<exists>p \<in> ps. rp_enabled p \<and> rp_resource p = ''recordings'' \<and> rp_organization_id p = org \<and> cutoff \<le> retention_cutoff hi p)"

lemma watched_policies: "p \<in> ps \<Longrightarrow> rp_enabled p \<Longrightarrow> watched (watching ps hi) lo hi p"
  by (auto simp: watched_def watching_def retention_cutoff_def)

text \<open>
  C19: A pass of the retention job ends, whatever fails, and a pass that reports no error leaves no completed
  recording of a tenant with an enabled policy that was past its retention when the pass began. It relies
  on the other processes only in this: while the pass runs they do not change retention policies, and they
  complete no recording that is past the retention of its tenant already. They may complete younger
  recordings, delete recordings and do anything else. The fuel of the model is more than the recordings
  there are.
\<close>

theorem retention_pass_enforces:
  assumes rely: "\<forall>t v. retains (watching (set (retention_policies (database w))) hi) v (interference E t v)"
    and k: "keyed w" and b: "NewCleanupJob True True c = Inr c"
    and lo: "\<forall>t. lo \<le> clock E t \<and> clock E t \<le> hi" and fuel: "length (recordings (database w)) < fuel"
  shows "\<exists>x. fst (run_state (runOnce E S c fuel) w) = Some x \<and>
    (x = Inr () \<longrightarrow> (\<forall>p \<in> set (retention_policies (database w)). \<forall>r \<in> set (recordings (database (snd (run_state (runOnce E S c fuel) w)))).
       rp_enabled p \<and> rp_resource p = ''recordings'' \<longrightarrow> \<not> expired_recording (rp_organization_id p) (retention_cutoff lo p) r))"
proof -
  let ?ps = "retention_policies (database w)" and ?K = "watching (set (retention_policies (database w))) hi"
  have b': "0 < cj_batch_size c" using b by (auto simp: NewCleanupJob_def split: if_splits)
  have st: "retaining.stable ?K (\<lambda>v. few ?K fuel v \<and> retention_policies (database v) = ?ps)"
    using few_stable [of ?K fuel] by (auto simp: retains_def few_def)
  have read: "retaining.triple ?K (\<lambda>v. few ?K fuel v \<and> retention_policies (database v) = ?ps) (query E ListEnabledRetentionPolicies)
      (\<lambda>l v. few ?K fuel v \<and> (\<forall>ps. l = Inr ps \<longrightarrow> set ps = set (filter rp_enabled ?ps)))"
    by (rule retaining.triple_query [OF rely st]) (auto simp: ListEnabledRetentionPolicies_def)
  have pass: "retaining.triple ?K (\<lambda>v. few ?K fuel v \<and> retention_policies (database v) = ?ps) (runOnce E S c fuel)
      (\<lambda>x v. \<exists>y. x = Some y \<and> (y = Inr () \<longrightarrow> (\<forall>p \<in> set (filter rp_enabled ?ps). enforced lo p v)))"
    unfolding runOnce_def
  proof (rule retaining.triple_bind_sum [OF read], goal_cases)
    case (2 ps)
    have "retaining.triple ?K (few ?K fuel) (cleanup_policies E S c fuel ps)
        (\<lambda>x v. \<exists>y. x = Some y \<and> (y = Inr () \<longrightarrow> (\<forall>p \<in> set ps. enforced lo p v)))"
      if "set ps = set (filter rp_enabled ?ps)"
    proof -
      have "\<forall>p \<in> {} \<union> set ps. watched ?K lo hi p" using that by (simp add: watched_policies)
      from policies_triple [OF rely b' lo this, of fuel S] show ?thesis by simp
    qed
    then show ?case by (cases "set ps = set (filter rp_enabled ?ps)") simp_all
  qed (simp add: retaining.refl)
  have e: "enforced lo p v \<Longrightarrow> rp_resource p = ''recordings'' \<Longrightarrow> r \<in> set (recordings (database v)) \<Longrightarrow>
      \<not> expired_recording (rp_organization_id p) (retention_cutoff lo p) r" for p v r
    by (auto simp: enforced_def expired_ids_def)
  from pass few_records [OF k fuel, of ?K] obtain y where y: "fst (run_state (runOnce E S c fuel) w) = Some y"
    "y = Inr () \<longrightarrow> (\<forall>p \<in> set (filter rp_enabled ?ps). enforced lo p (snd (run_state (runOnce E S c fuel) w)))" by blast
  show ?thesis
  proof (intro exI conjI impI ballI)
    show "fst (run_state (runOnce E S c fuel) w) = Some y" by (rule y(1))
    fix p r assume "y = Inr ()" "p \<in> set ?ps" "r \<in> set (recordings (database (snd (run_state (runOnce E S c fuel) w))))"
      "rp_enabled p \<and> rp_resource p = ''recordings''"
    with y(2) show "\<not> expired_recording (rp_organization_id p) (retention_cutoff lo p) r" by (intro e) simp_all
  qed
qed

definition late_env :: env where
  "late_env = archive_env\<lparr>clock := \<lambda>t. 200000000000 + min (int t) 1000000\<rparr>"

definition day_policy :: "uuid \<Rightarrow> retention_policy" where
  "day_policy org = \<lparr>rp_organization_id = org, rp_resource = ''recordings'', rp_retention_days = 1, rp_enabled = True,
     rp_created_at = 0, rp_updated_at = 0\<rparr>"

definition retained_world :: world where
  "retained_world = archived\<lparr>database := (database archived)\<lparr>retention_policies := [day_policy 1]\<rparr>\<rparr>"

definition small_batches :: cleanup_config where
  "small_batches = \<lparr>cj_interval = 1, cj_batch_size = 1\<rparr>"

definition cleaned_world :: world where
  "cleaned_world = snd (run_state (runOnce late_env (Some None) small_batches 2) retained_world)"

lemma retained_run:
  "fst (run_state (runOnce late_env (Some None) small_batches 2) retained_world) = Some (Inr ())"
  "map rc_status (recordings (database cleaned_world)) = [Deleted]"
  "length (recordings (database retained_world)) < 2"
  by code_simp+

theorem retention_pass_enforces_witness:
  "map rc_status (recordings (database retained_world)) = [Recorded] \<and>
   filter (expired_recording 1 (retention_cutoff 200000000000 (day_policy 1))) (recordings (database cleaned_world)) = []"
proof -
  have 1: "\<forall>t w. retains K w (interference late_env t w)" for K
    by (simp add: late_env_def archive_env_def sample_env_def retaining.refl)
  have 2: "keyed retained_world" using archived_state(1) by (simp add: retained_world_def keyed_def)
  have 3: "NewCleanupJob True True small_batches = Inr small_batches" by (simp add: NewCleanupJob_def small_batches_def)
  have 4: "\<forall>t. 200000000000 \<le> clock late_env t \<and> clock late_env t \<le> 200001000000" by (simp add: late_env_def)
  have p: "day_policy 1 \<in> set (retention_policies (database retained_world))" by (simp add: retained_world_def)
  from retention_pass_enforces [OF 1 2 3 4 retained_run(3), of "Some None"] retained_run(1) p
  have "\<forall>r \<in> set (recordings (database cleaned_world)). \<not> expired_recording 1 (retention_cutoff 200000000000 (day_policy 1)) r"
    unfolding cleaned_world_def by (fastforce simp: day_policy_def)
  with archived_result(1) show ?thesis by (simp add: filter_empty_conv retained_world_def)
qed

section \<open>Failures that stop more than they should\<close>

text \<open>
  What the job does to everything but the rows it can delete: a recording \<open>r\<close> that stays, and the recordings
  of the other tenants.
\<close>

definition spares :: "recording \<Rightarrow> world \<Rightarrow> world \<Rightarrow> bool" where
  "spares r w w' \<longleftrightarrow> (keyed w \<and> r \<in> set (recordings (database w)) \<longrightarrow>
     keyed w' \<and> r \<in> set (recordings (database w')) \<and>
     filter (\<lambda>x. rc_organization_id x \<noteq> rc_organization_id r) (recordings (database w')) =
       filter (\<lambda>x. rc_organization_id x \<noteq> rc_organization_id r) (recordings (database w)))"

interpretation sparing: world_history "spares r" for r
proof unfold_locales
  show "spares r w w" for w by (simp add: spares_def)
  show "spares r u v \<Longrightarrow> spares r v w \<Longrightarrow> spares r u w" for u v w by (simp add: spares_def)
  show "spares r w (w'\<lparr>tick := n\<rparr>) = spares r w w'" for w w' n by (simp add: spares_def keyed_def)
qed

lemma spares_same: "database w' = database w \<Longrightarrow> spares r w w'"
  by (simp add: spares_def keyed_def)

text \<open>A recording in the managed store whose bucket is not the one of that store any more.\<close>

definition misplaced :: "env \<Rightarrow> recording \<Rightarrow> bool" where
  "misplaced E r \<longleftrightarrow> rc_storage_integration_id r = None \<and> rc_storage_bucket r \<noteq> Some (managed_bucket E)"

lemma misplaced_object: "misplaced E r \<Longrightarrow> \<exists>e. storage_delete_object E S r = State_Monad.return (Inl e)"
  by (cases "rc_storage_key r"; cases "rc_storage_provider r")
     (auto simp: storage_delete_object_def stored_object_def misplaced_def clientForRecording_def managed_client_def andalso_def)

lemma delete_row_spares:
  assumes rely: "sparing.rely r E" and x: "rc_id x \<noteq> rc_id r" "rc_organization_id x = rc_organization_id r"
  shows "sparing.moves r (recording_delete_row E x)"
  unfolding recording_delete_row_def recording_mutate_def
proof (rule sparing.transaction_moves [OF rely])
  fix now t y d and w :: world
  let ?P = "\<lambda>y. own_recording (rc_organization_id x) (rc_id x) y \<and> rc_status y \<noteq> Deleted"
  let ?f = "\<lambda>y. y\<lparr>rc_status := Deleted, rc_storage_url := None, rc_updated_at := now\<rparr>"
  assume "recording_mutate_body E ''recording.deleted'' (\<lambda>_. DeleteRecording (rc_organization_id x) (rc_id x)) now t (database w) = Inr (y, d)"
  then obtain d1 ev at where "DeleteRecording (rc_organization_id x) (rc_id x) now (database w) = Inr (y, d1)" "d = d1\<lparr>outbox := outbox d1 @ [ev]\<rparr>"
    by (rule recording_mutate_body_Inr)
  then have d: "recordings d = update_where ?P ?f (recordings (database w))"
    unfolding DeleteRecording_def by (auto elim: change_recording_Inr)
  have "map rc_id (recordings d) = map rc_id (recordings (database w))" by (simp add: d update_where_def)
  moreover have "filter (\<lambda>z. rc_organization_id z \<noteq> rc_organization_id r) (update_where ?P ?f zs) =
      filter (\<lambda>z. rc_organization_id z \<noteq> rc_organization_id r) zs" for zs
    using x(2) by (induction zs) (auto simp: update_where_def own_recording_def)
  moreover have "r \<in> set (recordings d)" if "r \<in> set (recordings (database w))"
    using that x(1) by (force simp: d set_update_where own_recording_def)
  ultimately show "spares r w (w\<lparr>database := d\<rparr>)" by (simp add: spares_def keyed_def d)
qed

lemma Delete_spares:
  assumes rely: "sparing.rely r E" and r: "misplaced E r"
  shows "sparing.moves r (recording_Delete E S (rc_organization_id r) i)"
proof -
  let ?present = "\<lambda>w. keyed w \<and> r \<in> set (recordings (database w))"
  let ?rest = "\<lambda>st x. do {
      y \<leftarrow> storage_delete_object E st x;
      case y of
        Inl e \<Rightarrow> State_Monad.return (Inl (NewServiceUnavailable ''delete recording object'' e))
      | Inr _ \<Rightarrow> do {
          d \<leftarrow> recording_delete_row E x;
          State_Monad.return (case d of
            Inr _ \<Rightarrow> Inr ()
          | Inl e \<Rightarrow> if error_is e ErrNoRows then Inr () else Inl (NewInternal ''delete recording'' e))
        } }"
  have st: "sparing.stable r ?present" by (simp add: spares_def)
  have read: "sparing.triple r ?present (query E (GetRecordingIncludingDeleted (rc_organization_id r) i))
      (\<lambda>g w. \<forall>x. g = Inr x \<longrightarrow> own_recording (rc_organization_id r) i x \<and> (i = rc_id r \<longrightarrow> x = r))"
  proof (rule sparing.triple_query [OF rely st])
    fix w g assume w: "?present w" and q: "GetRecordingIncludingDeleted (rc_organization_id r) i (database w) = g"
    show "\<forall>x. g = Inr x \<longrightarrow> own_recording (rc_organization_id r) i x \<and> (i = rc_id r \<longrightarrow> x = r)"
    proof (intro allI impI)
      fix x assume "g = Inr x"
      then have "select_one (own_recording (rc_organization_id r) i) (recordings (database w)) = Inr x"
        using q by (simp only: GetRecordingIncludingDeleted_def)
      from select_one_Inr [OF this] have x: "x \<in> set (recordings (database w))" "own_recording (rc_organization_id r) i x" by simp_all
      have "x = r" if "i = rc_id r"
        by (rule distinct_key [of rc_id "recordings (database w)"]) (use w x that in \<open>simp_all add: keyed_def own_recording_def\<close>)
      with x(2) show "own_recording (rc_organization_id r) i x \<and> (i = rc_id r \<longrightarrow> x = r)" by blast
    qed
  qed simp
  have rest: "sparing.moves r (?rest st x)" if "own_recording (rc_organization_id r) i x" "i = rc_id r \<longrightarrow> x = r" for st x
  proof (cases "i = rc_id r")
    case True
    with that r misplaced_object [OF r, of st] show ?thesis by (auto simp: sparing.return_moves)
  next
    case False
    with that show ?thesis
      by (intro sparing.moves_intros sparing.delete_object_moves [OF rely] delete_row_spares [OF rely] spares_same)
         (auto simp: own_recording_def)
  qed
  have "sparing.triple r ?present (recording_Delete E S (rc_organization_id r) i) (\<lambda>_ _. True)"
    unfolding recording_Delete_def
  proof (intro sparing.triple_sum sparing.triple_bind_sum [OF read], goal_cases)
    case (3 u x)
    have body: "sparing.moves r (if rc_status x = Deleted then State_Monad.return (Inr ())
        else if open_recording x then State_Monad.return (Inl (NewConflict ''recording cannot be deleted before upload completes''))
        else case S of None \<Rightarrow> State_Monad.return (Inl no_recording_storage) | Some st \<Rightarrow> ?rest st x)"
      if "own_recording (rc_organization_id r) i x" "i = rc_id r \<longrightarrow> x = r"
      by (cases S) (auto intro!: sparing.return_moves rest that)
    show ?case
    proof (cases "own_recording (rc_organization_id r) i x \<and> (i = rc_id r \<longrightarrow> x = r)")
      case True
      from sparing.movesD [OF body [OF conjunct1 [OF True] conjunct2 [OF True]]] show ?thesis by blast
    next
      case False
      then show ?thesis by blast
    qed
  qed (simp_all add: sparing.refl)
  then show ?thesis by (auto simp: state_io_rel_def spares_def)
qed

lemma batches_spare:
  assumes "sparing.rely r E" and "misplaced E r"
  shows "sparing.moves r (cleanup_batches E S c (rc_organization_id r) cutoff fuel)"
proof (induction fuel)
  case (Suc fuel)
  have "sparing.moves r (delete_all E S (rc_organization_id r) js)" for js
    by (induction js) (auto intro!: sparing.moves_intros Delete_spares assms)
  with Suc show ?case by (auto intro!: sparing.moves_intros sparing.query_moves assms)
qed (simp add: sparing.return_moves)

lemma policies_skip:
  "\<forall>q \<in> set qs. rp_resource q \<noteq> ''recordings'' \<Longrightarrow> cleanup_policies E S c fuel (qs @ ps) = cleanup_policies E S c fuel ps"
  by (induction qs) auto

lemma misplaced_stops_batches:
  assumes alone: "\<forall>t w. interference E t w = w" and k: "keyed w" and b: "0 < cj_batch_size c"
    and fuel: "length (recordings (database w)) < fuel" and r: "r \<in> set (recordings (database w))" "misplaced E r"
      "expired_recording (rc_organization_id r) cutoff r"
  shows "\<exists>e w'. run_state (cleanup_batches E S c (rc_organization_id r) cutoff fuel) w = (Some (Inl e), w') \<and> spares r w w'"
proof -
  let ?m = "cleanup_batches E S c (rc_organization_id r) cutoff fuel"
  have rely: "calm (\<lambda>_ _. True) E" "sparing.rely r E" using alone by (simp_all add: retaining.refl sparing.refl)
  have sp: "spares r w (snd (run_state ?m w))" by (rule sparing.movesD [OF batches_spare [OF rely(2) r(2)]])
  have "due_within fuel (rc_organization_id r) cutoff w" using few_records [OF k fuel, of "\<lambda>_ _. True"] by (simp add: few_def)
  with batches_end [OF rely(1) b TrueI] obtain y where y: "fst (run_state ?m w) = Some y"
    "y = Inr () \<longrightarrow> expired_ids (rc_organization_id r) cutoff (snd (run_state ?m w)) = {}" by blast
  have "r \<in> set (recordings (database (snd (run_state ?m w))))" using sp k r(1) by (simp add: spares_def)
  then have "rc_id r \<in> expired_ids (rc_organization_id r) cutoff (snd (run_state ?m w))" using r(3) by (simp add: expired_ids_def)
  with y have "y \<noteq> Inr ()" by auto
  then obtain e where "y = Inl e" by (cases y) auto
  with y(1) sp show ?thesis by (cases "run_state ?m w") auto
qed

text \<open>
  C40: One recording that cannot be deleted ends the retention job: when the first tenant the job serves has a
  recording past its retention in the managed store whose bucket is not the one of that store any more,
  the job ends with an error in its first pass, however many ticks were to follow and whatever fails. That
  recording stays, and so does every recording of every other tenant, past its retention or not.
\<close>

theorem failed_deletion_ends_retention:
  assumes alone: "\<forall>t w. interference E t w = w" and k: "keyed w" and c: "NewCleanupJob True True c = Inr c"
    and lo: "\<forall>t. lo \<le> clock E t" and fuel: "length (recordings (database w)) < fuel"
    and ps: "ListEnabledRetentionPolicies (database w) = Inr (qs @ p # ps)" "\<forall>q \<in> set qs. rp_resource q \<noteq> ''recordings''"
      "rp_resource p = ''recordings''"
    and r: "r \<in> set (recordings (database w))" "misplaced E r" "expired_recording (rp_organization_id p) (retention_cutoff lo p) r"
  shows "\<exists>e w'. run_state (cleanup_Run E S c fuel ticks) w = (Some (Inl e), w') \<and> r \<in> set (recordings (database w')) \<and>
    filter (\<lambda>x. rc_organization_id x \<noteq> rp_organization_id p) (recordings (database w')) =
      filter (\<lambda>x. rc_organization_id x \<noteq> rp_organization_id p) (recordings (database w))"
proof -
  have b: "0 < cj_batch_size c" using c by (auto simp: NewCleanupJob_def split: if_splits)
  have org: "rp_organization_id p = rc_organization_id r" using r(3) by (simp add: expired_recording_def)
  have policies: "\<exists>e w'. run_state (cleanup_policies E S c fuel (qs @ p # ps)) v = (Some (Inl e), w') \<and> spares r v w'"
    if v: "database v = database w" for v
  proof -
    have "expired_recording (rc_organization_id r) (retention_cutoff (clock E (tick v)) p) r"
      using r(3) lo [rule_format, of "tick v"] by (simp add: expired_recording_def retention_cutoff_def)
    from misplaced_stops_batches [OF alone _ b _ _ r(2) this, of v fuel S] k fuel r(1) v
    obtain e w' where "run_state (cleanup_batches E S c (rc_organization_id r) (retention_cutoff (clock E (tick v)) p) fuel) v =
        (Some (Inl e), w')" "spares r v w'" by (auto simp: keyed_def)
    then show ?thesis by (simp add: policies_skip [OF ps(2)] ps(3) org wall_clock_def)
  qed
  have "\<exists>e w'. run_state (runOnce E S c fuel) w = (Some (Inl e), w') \<and> spares r w w'"
  proof (cases "run_state (query E ListEnabledRetentionPolicies) w")
    case (Pair l v)
    then have v: "database v = database w" "l = Inr (qs @ p # ps) \<or> (\<exists>e. l = Inl e)"
      using alone ps(1) by (auto simp: query_def external_def Let_def split: fault.splits)
    with policies [OF v(1)] spares_same [OF v(1), of r] Pair show ?thesis
      by (auto simp: runOnce_def intro: sparing.trans)
  qed
  then obtain e w' where "run_state (runOnce E S c fuel) w = (Some (Inl e), w')" "spares r w w'" by blast
  moreover then have "run_state (cleanup_Run E S c fuel ticks) w = (Some (Inl e), w')" by (cases ticks) simp_all
  ultimately show ?thesis using k r(1) by (auto simp: spares_def org)
qed

text \<open>Two tenants; the bucket of the managed store was renamed after the recording of the first one was stored.\<close>

definition old_recording :: "uuid \<Rightarrow> uuid \<Rightarrow> uuid \<Rightarrow> string \<Rightarrow> recording" where
  "old_recording i org call bucket =
     (new_recording i org call ''/r/a.wav'' 0 0)\<lparr>rc_status := Recorded, rc_storage_provider := Some ''s3'', rc_storage_bucket := Some bucket,
        rc_storage_key := Some (''organizations/'' @ uuid_string sample_env org @ ''/recordings/a.wav'')\<rparr>"

definition moved_bucket_world :: world where
  "moved_bucket_world = empty_world\<lparr>database := empty_db\<lparr>retention_policies := [day_policy 2, day_policy 1],
     recordings := [old_recording 7 1 3 ''before'', old_recording 8 2 4 ''managed'']\<rparr>\<rparr>"

theorem failed_deletion_ends_retention_witness:
  "\<exists>e w'. run_state (cleanup_Run late_env (Some None) small_batches 9 5) moved_bucket_world = (Some (Inl e), w') \<and>
     filter (\<lambda>x. rc_organization_id x \<noteq> 1) (recordings (database w')) = [old_recording 8 2 4 ''managed'']"
proof -
  let ?r = "old_recording 7 1 3 ''before''"
  have rows: "recordings (database moved_bucket_world) = [?r, old_recording 8 2 4 ''managed'']" by (simp add: moved_bucket_world_def)
  have "rc_organization_id ?r = 1" "rc_organization_id (old_recording 8 2 4 ''managed'') = 2" "rc_id ?r = 7" "rc_id (old_recording 8 2 4 ''managed'') = 8"
    by (simp_all add: old_recording_def new_recording_def)
  note f = this rows
  have 1: "\<forall>t w. interference late_env t w = w" by (simp add: late_env_def archive_env_def sample_env_def)
  have 2: "keyed moved_bucket_world" by (simp add: keyed_def f)
  have 3: "NewCleanupJob True True small_batches = Inr small_batches" by (simp add: NewCleanupJob_def small_batches_def)
  have 4: "\<forall>t. 200000000000 \<le> clock late_env t" by (simp add: late_env_def)
  have 5: "length (recordings (database moved_bucket_world)) < 9" by (simp add: rows)
  have 6: "ListEnabledRetentionPolicies (database moved_bucket_world) = Inr ([] @ day_policy 1 # [day_policy 2])" by code_simp
  have 7: "misplaced late_env ?r" "rp_organization_id (day_policy 1) = 1" "rp_resource (day_policy 1) = ''recordings''"
    "expired_recording (rp_organization_id (day_policy 1)) (retention_cutoff 200000000000 (day_policy 1)) ?r"
    by (simp_all add: misplaced_def late_env_def archive_env_def sample_env_def old_recording_def new_recording_def day_policy_def
        expired_recording_def retention_cutoff_def)
  have 8: "?r \<in> set (recordings (database moved_bucket_world))" by (simp add: rows)
  from failed_deletion_ends_retention [OF 1 2 3 4 5 6 _ 7(3) 8 7(1,4), of "Some None" 5] obtain e w' where
    "run_state (cleanup_Run late_env (Some None) small_batches 9 5) moved_bucket_world = (Some (Inl e), w')"
    "filter (\<lambda>x. rc_organization_id x \<noteq> 1) (recordings (database w')) = filter (\<lambda>x. rc_organization_id x \<noteq> 1) (recordings (database moved_bucket_world))"
    by (auto simp: 7(2))
  then show ?thesis by (intro exI conjI) (assumption, simp add: f)
qed

text \<open>
  When the destination of an upload cannot be pinned, the variable that held the recording holds the zero
  value: the retry is scheduled for no row, its error ends the pass, and the attempt is not counted.
\<close>

theorem failed_pin_not_counted:
  assumes "\<forall>t w. interference E t w = w" "1 < ij_max_attempts c" "uuid_Nil \<notin> rc_id ` set (recordings (database w))"
  shows "\<exists>e. fst (run_state (retryOrFail E c zero_recording cause) w) = Inl e \<and>
     recordings (database (snd (run_state (retryOrFail E c zero_recording cause) w))) = recordings (database w)"
proof -
  have none: "RetryRecordingUpload msg at uuid_Nil now (database v) = Inl ErrNoRows" if "database v = database w" for msg at now v
  proof -
    have "find (\<lambda>r. rc_id r = uuid_Nil \<and> rc_status r = Uploading) (recordings (database w)) = None"
      using assms(3) by (auto simp: find_None_iff)
    then show ?thesis by (simp add: RetryRecordingUpload_def change_recording_def update_one_def that)
  qed
  have "wrap32 (rc_upload_attempts zero_recording + 1) = 1" by (simp add: zero_recording_def wrap32_def)
  with assms(2) show ?thesis
    using assms(1)
    by (simp add: retryOrFail_def RetryUpload_def exec_def external_def statement_def wall_clock_def Let_def zero_recording_def none
        on_error_def split: fault.split)
qed

theorem failed_pin_not_counted_witness:
  "\<exists>e. fst (run_state (retryOrFail archive_env (DefaultIngestionConfig ''/r'') zero_recording ErrEOF) archived) = Inl e"
proof -
  have "\<forall>t w. interference archive_env t w = w" by (simp add: archive_env_def sample_env_def)
  moreover have "1 < ij_max_attempts (DefaultIngestionConfig ''/r'')" by (simp add: DefaultIngestionConfig_def)
  moreover have "uuid_Nil \<notin> rc_id ` set (recordings (database archived))" by code_simp
  ultimately show ?thesis using failed_pin_not_counted by blast
qed

end
