(* ===== verification/Spec2Isabelle.thy ===== *)
theory Spec2Isabelle
  imports CallGuarantees Metrics Idempotency EventFlow MediaGuarantees HealthGuarantees ArchiveGuarantees
    RetentionGuarantees
begin

text \<open>
  Verification of the Leamout communications server (\<^verbatim>\<open>src/server\<close>).

  \<^bold>\<open>The program.\<close> The server places and receives telephone calls for many organizations. Three
  processes share a PostgreSQL database, a Redis instance and a NATS bus: the API server, the worker, which
  consumes FreeSWITCH events and runs the background jobs, and the media process, which connects call
  audio to speech engines. A request goes through the idempotency middleware to the calls service, which
  resolves routes, asks Redis for a lease on a trunk, writes the call with an outbox event in one
  transaction and commands FreeSWITCH over its event socket. Events of FreeSWITCH come back through the
  translator to the lifecycle service. The outbox publisher moves committed events to the bus; the
  webhook consumer turns them into deliveries, and the delivery job posts those to the endpoints of the
  organization. Recordings that FreeSWITCH leaves on the staging volume are moved by the ingestion job to
  the managed object store or to the one the organization configured; the retention job deletes them.

  \<^bold>\<open>Theories and sources\<close> (under \<^verbatim>\<open>src/server/internal\<close> unless said otherwise).
  \<^item> \<open>Prelude\<close>: Go strings, UUIDs, durations and errors (\<^verbatim>\<open>pkg/apperror\<close>), 64-bit wrap-around, weakest
    preconditions of the state monad, the locale \<open>history\<close> of reflexive and transitive relations on
    worlds, in which preservation is proved once for returns, binds, branches and loops.
  \<^item> \<open>Store\<close>: the rows of \<^verbatim>\<open>database/sqlc/models.go\<close>, the Redis keys, the FreeSWITCH command log, the
    bus, the log of POSTs; transactions; the environment of external calls.
  \<^item> \<open>Outbox\<close>: \<^verbatim>\<open>platform/outbox\<close> and \<^verbatim>\<open>sqlc/outbox.sql.go\<close>.
  \<^item> \<open>Admission\<close>: the Lua scripts of \<^verbatim>\<open>integrations/redis/cache.go\<close>, \<^verbatim>\<open>runtime/calling/channel.go\<close>.
  \<^item> \<open>CallStore\<close>, \<open>CallRequests\<close>, \<open>Lifecycle\<close>, \<open>CallService\<close>, \<open>CallGuarantees\<close>: \<^verbatim>\<open>telephony/calls\<close> and
    \<^verbatim>\<open>sqlc/calls.sql.go\<close>.
  \<^item> \<open>FreeSwitch\<close>: \<^verbatim>\<open>integrations/freeswitch\<close>; \<open>Translator\<close>: \<^verbatim>\<open>runtime/calling/translator.go\<close>;
    \<open>Controller\<close>: \<^verbatim>\<open>runtime/calling/controller.go\<close>; \<open>Routing\<close>: \<^verbatim>\<open>telephony/routing\<close>.
  \<^item> \<open>Metrics\<close>: \<^verbatim>\<open>platform/metrics\<close>; \<open>Idempotency\<close>: \<^verbatim>\<open>platform/idempotency\<close> and its middleware.
  \<^item> \<open>Webhooks\<close>, \<open>WebhookGuarantees\<close>: \<^verbatim>\<open>platform/webhooks\<close>; \<open>EventFlow\<close>: the way of a call event from
    the calls service over outbox and bus to the webhook consumer.
  \<^item> \<open>NetAddr\<close>: addresses and prefixes of \<^verbatim>\<open>net/netip\<close>; \<open>Networking\<close>: \<^verbatim>\<open>platform/networking\<close>,
    \<^verbatim>\<open>platform/middleware/networking.go\<close>; \<open>Encryption\<close>: \<^verbatim>\<open>security/encryption\<close>.
  \<^item> \<open>TrunkStore\<close>, \<open>TrunkService\<close>, \<open>TrunkHealth\<close>: \<^verbatim>\<open>sqlc/trunks.sql.go\<close>, \<^verbatim>\<open>telephony/trunks\<close>; \<open>TrunkGuarantees\<close>
    (locales over all operations), \<open>TrunkProperties\<close> and \<open>HealthGuarantees\<close>: what they guarantee.
  \<^item> \<open>FilePaths\<close>: \<^verbatim>\<open>path/filepath\<close>; \<open>ObjectStores\<close>: \<^verbatim>\<open>integrations/s3\<close>, \<^verbatim>\<open>platform/storage\<close>; \<open>Recordings\<close>,
    \<open>RecordingService\<close>: \<^verbatim>\<open>sqlc/recordings.sql.go\<close>, \<^verbatim>\<open>telephony/recordings\<close>; \<open>Retention\<close>: \<^verbatim>\<open>platform/retention\<close>;
    \<open>RecordingGuarantees\<close> (triples whose facts survive interference), \<open>RecordingProperties\<close>,
    \<open>ArchiveGuarantees\<close>, \<open>RetentionGuarantees\<close>: what they guarantee together.
  \<^item> \<open>MediaQueue\<close>, \<open>MediaSession\<close>, \<open>MediaManager\<close>, \<open>MediaGuarantees\<close>: \<^verbatim>\<open>media/session\<close>.

  \<^bold>\<open>State and effects.\<close> Handlers are programs of the state monad over the record \<open>world\<close>. Every external
  call (a statement, a commit, a Redis script, a socket write, a publication, a POST) is one step with an
  index \<open>t\<close>; the environment \<open>E\<close> decides at \<open>t\<close> whether other processes act first (\<open>interference\<close>), whether
  the call fails without effect or fails although it took effect (\<open>fault_at\<close>), and the time (\<open>clock\<close>).
  Results of code outside the repository (UUID generation and parsing, JSON, HMAC, URL parsing) are
  fields of \<open>E\<close> as well. Go errors are values; a handler returns \<open>goerr + 'a\<close>. Statements include the
  constraints and triggers of the migrations they rely on. Goroutines of the media plane are step
  functions on a shared object, one step per critical section or channel operation, in any order.

  \<^bold>\<open>What is shown.\<close> Calls: any sequence of operations moves a call only along the state machine and leaves an
  ended one in its state, with a complete event log, under any fault; one dialled call per request; control stays within the tenant. Admission: limits
  on concurrent calls and calls per second, as a refinement of a counting specification. Outbox and
  webhooks: nothing lost, marked only after it was sent, fan-out once per endpoint, final states stay; the
  event of a call reaches the webhooks unless its payload exceeds a message.
  Idempotency: replay and exclusion. FreeSWITCH: no command injection, frames round-trip. Routing:
  tenant isolation. Trunks: the tables stay consistent under any requests, health passes and faults,
  tenants are isolated, replaying the outbox gives the tables' public view, a validated trunk has routes,
  credentials open only in their scope (up to white space around it), a health pass records of each due
  endpoint what its reply demands, probes cannot be extended by stored host names. Networking: the
  middleware equals the set reading of the rules, and the part of a forwarded header that the proxies
  appended decides. Recordings: the status only advances and pinned destinations stay; a recording is
  completed only after its object was put, and deleted only after it was removed, in the store the row
  names; each status is announced; the path the job resolves is inside the staging directory; object keys
  are valid and never shared. Retention: a pass ends and, without an error, leaves nothing past its
  retention; a recording that cannot be deleted ends the job. Media: the queue accounts exactly, sessions
  close their streams once and free their slot afterwards. Where the code falls short of its intention, a theorem exhibits the run.

  \<^bold>\<open>Bounds.\<close> Jobs that run until they are cancelled (the publisher, the delivery, the clean-up and the
  reconciliation job, the health, ingestion and retention jobs) take the list of ticks or the number of wake-ups as an argument; the theorems
  hold for every such list, so no bound is chosen. The loops inside an operation are structural or have
  a measure, except the batches of a retention policy, which the code does not bound: they take fuel, and
  more fuel than there are recordings is shown to be enough. Schedules of goroutines are lists of any length.

  \<^bold>\<open>Not modelled.\<close> HTTP binding and route tables; process wiring; the sockets of third-party services
  and speech engines; generated queries of components that are not modelled; the voice-agent runtime, tenancy
  and identity; the content type of an upload and the bytes of an object, of which the model keeps the size.

  \<^bold>\<open>Simplifications.\<close> One clock serves the processes, PostgreSQL and Redis; skew between them is not modelled.
  Attempt and failure counters are unbounded, where the \<^verbatim>\<open>INTEGER\<close> columns end at \<open>2 ^ 31 - 1\<close>. That PostgreSQL
  refuses NUL bytes and invalid UTF-8, which a body or an error message cut at a byte limit may contain, is
  not part of the statements. A statement that fails inside a transaction for an external reason is a
  failure of its commit: neither leaves a change. Connection, deadline and protocol errors of a socket are
  the fault of the step they interrupt, and a write of a SIP request is all or nothing. The log of POSTs
  records for which delivery a POST was made, which the request itself does not carry. \<open>to_lower\<close> lowers
  ASCII letters and the two letters outside ASCII that fold to it; of the other letters nothing shown depends.
  The lengths of scope, key, method and path that the idempotency table bounds are bounded by the middleware
  before, and the table's checks on them are left out.
\<close>

end
